(* ===== verification/Prelude.thy ===== *)
theory Prelude
  imports Complex_Main "HOL-Library.AList" "HOL-Library.Sublist"
begin

text \<open>
  Shared vocabulary of the development: Python values (identifiers, times, JSON data),
  Python dictionaries as association lists in insertion order, exceptions as values of a sum
  type, and the string operations of the standard library that several components call.

  Conventions used by every theory.
  \<^item> A \<open>uuid\<close> is a natural number: the 128-bit integer by which Python's \<open>UUID\<close> compares.
    \<open>uuid6.uuid7()\<close> and the clock are outside the sources, so the identifiers and the
    times an operation draws are arguments of its model.
  \<^item> A \<open>dict\<close> is an association list: assignment to a known key keeps its position, a new
    key goes to the end, as Python specifies; \<open>dict_wf\<close> says that keys are distinct.
  \<^item> A \<open>datetime\<close> is an integer; \<open>float\<close> seconds and \<open>Decimal\<close> amounts are rationals, so the
    rounding of a \<open>Decimal\<close> beyond 28 significant digits is not modelled.
  \<^item> An exception is a value of \<open>exn\<close>, one constructor per exception class. The texts of the
    messages are not modelled.
\<close>

named_theorems dict_simps \<open>rewriting of dictionary reads over dictionary writes\<close>
named_theorems res_split \<open>case rules for results that carry an exception\<close>

section \<open>Values\<close>

type_synonym uuid = nat
type_synonym time = int
type_synonym seconds = rat
type_synonym decimal = rat
type_synonym ('k, 'v) dict = "('k \<times> 'v) list"

datatype json =
    JNull
  | JBool bool
  | JInt int
  | JStr string
  | JArr "json list"
  | JObj "(string \<times> json) list"

type_synonym jobj = "(string \<times> json) list"

datatype exn =
    ValueError
  | KeyError
  | TypeError
  | RuntimeError
  | AttributeError
  | ImportError
  | AssertionError
  | FileNotFoundError
  | OSError int
  | InvalidTransitionError
  | RunLockError
  | StaleWriteError
  | PathError
  | CycleError "string list"
  | AuthenticationError
  | AuthorizationError
  | ToolError
  | TimeoutError
  | JSONDecodeError
  | PermissionError
  | WorkerDisconnectedError
  | ToolCallTimeoutError
  | WorkerConflictError
  | CancelledError

type_synonym 'a result = "exn + 'a"

text \<open>\<open>except Exception\<close> does not catch the exception of a cancelled coroutine, which is a \<open>BaseException\<close>.\<close>

definition except_Exception :: "exn \<Rightarrow> bool" where
  "except_Exception e = (e \<noteq> CancelledError)"

definition is_ok :: "'a result \<Rightarrow> bool" where
  "is_ok r = (case r of Inl _ \<Rightarrow> False | Inr _ \<Rightarrow> True)"

definition bind_res :: "'a result \<Rightarrow> ('a \<Rightarrow> 'b result) \<Rightarrow> 'b result" where
  "bind_res r f = (case r of Inl e \<Rightarrow> Inl e | Inr x \<Rightarrow> f x)"

text \<open>\<open>a if a is not None else b\<close>.\<close>

definition first_some :: "'a option \<Rightarrow> 'a option \<Rightarrow> 'a option" where
  "first_some a b = (case a of None \<Rightarrow> b | Some x \<Rightarrow> Some x)"

section \<open>Dictionaries\<close>

definition dict_get :: "('k, 'v) dict \<Rightarrow> 'k \<Rightarrow> 'v option" where
  "dict_get d k = map_of d k"

definition dict_set :: "'k \<Rightarrow> 'v \<Rightarrow> ('k, 'v) dict \<Rightarrow> ('k, 'v) dict" where
  "dict_set k v d = AList.update k v d"

definition dict_pop :: "'k \<Rightarrow> ('k, 'v) dict \<Rightarrow> ('k, 'v) dict" where
  "dict_pop k d = AList.delete k d"

definition dict_keys :: "('k, 'v) dict \<Rightarrow> 'k list" where
  "dict_keys d = map fst d"

definition dict_values :: "('k, 'v) dict \<Rightarrow> 'v list" where
  "dict_values d = map snd d"

definition dict_map :: "('v \<Rightarrow> 'w) \<Rightarrow> ('k, 'v) dict \<Rightarrow> ('k, 'w) dict" where
  "dict_map f d = map (\<lambda>(k, v). (k, f v)) d"

definition dict_wf :: "('k, 'v) dict \<Rightarrow> bool" where
  "dict_wf d = distinct (map fst d)"

text \<open>Every entry of a dictionary satisfies a predicate on its key and its value.\<close>

definition dict_all :: "('k \<Rightarrow> 'v \<Rightarrow> bool) \<Rightarrow> ('k, 'v) dict \<Rightarrow> bool" where
  "dict_all P d = list_all (\<lambda>(k, v). P k v) d"

lemma dict_get_Nil [simp, dict_simps]: "dict_get [] k = None"
  by (simp add: dict_get_def)

lemma dict_get_set [simp, dict_simps]:
  "dict_get (dict_set k v d) k' = (if k' = k then Some v else dict_get d k')"
  by (simp add: dict_get_def dict_set_def update_conv)

lemma dict_get_pop [simp, dict_simps]:
  "dict_get (dict_pop k d) k' = (if k' = k then None else dict_get d k')"
  by (simp add: dict_get_def dict_pop_def delete_conv)

lemma dict_get_map [simp, dict_simps]:
  "dict_get (dict_map f d) k = map_option f (dict_get d k)"
  by (induction d) (auto simp: dict_get_def dict_map_def)

lemma dict_wf_Nil [simp, intro]: "dict_wf []"
  by (simp add: dict_wf_def)

lemma dict_wf_set [simp, intro]: "dict_wf d \<Longrightarrow> dict_wf (dict_set k v d)"
  by (simp add: dict_wf_def dict_set_def distinct_update)

lemma dict_wf_pop [simp, intro]: "dict_wf d \<Longrightarrow> dict_wf (dict_pop k d)"
  by (simp add: dict_wf_def dict_pop_def distinct_delete)

lemma dict_keys_map [simp]: "dict_keys (dict_map f d) = dict_keys d"
  by (simp add: dict_keys_def dict_map_def comp_def case_prod_beta)

lemma dict_wf_map [simp]: "dict_wf (dict_map f d) = dict_wf d"
  by (metis dict_keys_def dict_keys_map dict_wf_def)

lemma dict_values_map [simp]: "dict_values (dict_map f d) = map f (dict_values d)"
  by (simp add: dict_values_def dict_map_def comp_def case_prod_beta)

lemma dict_get_in_set: "dict_get d k = Some v \<Longrightarrow> (k, v) \<in> set d"
  by (simp add: dict_get_def map_of_SomeD)

lemma dict_get_values: "dict_get d k = Some v \<Longrightarrow> v \<in> set (dict_values d)"
  by (force simp: dict_values_def dest: dict_get_in_set)

lemma dict_get_iff: "dict_wf d \<Longrightarrow> dict_get d k = Some v \<longleftrightarrow> (k, v) \<in> set d"
  by (simp add: dict_get_def dict_wf_def)

lemma dict_get_None_iff: "dict_get d k = None \<longleftrightarrow> k \<notin> set (dict_keys d)"
  by (simp add: dict_get_def dict_keys_def map_of_eq_None_iff)

lemma dict_get_keys: "dict_get d k = Some v \<Longrightarrow> k \<in> set (dict_keys d)"
  by (metis dict_get_None_iff option.distinct(1))

lemma dict_set_new: "dict_get d k = None \<Longrightarrow> dict_set k v d = d @ [(k, v)]"
  by (induction d) (auto simp: dict_get_def dict_set_def split: if_splits)

lemma dict_values_new:
  "dict_get d k = None \<Longrightarrow> dict_values (dict_set k v d) = dict_values d @ [v]"
  by (simp add: dict_set_new dict_values_def)

lemma dict_keys_set:
  "set (dict_keys (dict_set k v d)) = insert k (set (dict_keys d))"
  by (induction d) (auto simp: dict_keys_def dict_set_def)

lemma dict_keys_set_known:
  "dict_get d k \<noteq> None \<Longrightarrow> dict_keys (dict_set k v d) = dict_keys d"
  by (induction d) (auto simp: dict_keys_def dict_set_def dict_get_def split: if_splits)

lemma dict_set_entries: "set (dict_set k v d) \<subseteq> insert (k, v) (set d)"
  by (induction d) (auto simp: dict_set_def)

lemma dict_pop_entries: "set (dict_pop k d) \<subseteq> set d"
  by (induction d) (auto simp: dict_pop_def)

lemma dict_map_entries: "set (dict_map f d) = (\<lambda>(k, v). (k, f v)) ` set d"
  by (auto simp: dict_map_def)

lemma dict_all_Nil [simp]: "dict_all P []"
  by (simp add: dict_all_def)

lemma dict_all_set [intro]: "dict_all P d \<Longrightarrow> P k v \<Longrightarrow> dict_all P (dict_set k v d)"
  using dict_set_entries by (fastforce simp: dict_all_def list_all_iff)

lemma dict_all_pop [intro]: "dict_all P d \<Longrightarrow> dict_all P (dict_pop k d)"
  using dict_pop_entries by (fastforce simp: dict_all_def list_all_iff)

lemma dict_all_map [intro]: "dict_all P d \<Longrightarrow> (\<And>k v. P k v \<Longrightarrow> Q k (f v)) \<Longrightarrow> dict_all Q (dict_map f d)"
  by (auto simp: dict_all_def list_all_iff dict_map_def)

lemma dict_all_get [dest]: "dict_all P d \<Longrightarrow> dict_get d k = Some v \<Longrightarrow> P k v"
  by (auto simp: dict_all_def list_all_iff dest: dict_get_in_set)

lemma dict_all_mem: "dict_all P d \<Longrightarrow> (k, v) \<in> set d \<Longrightarrow> P k v"
  by (auto simp: dict_all_def list_all_iff)

lemma dict_all_subset: "dict_all P d \<Longrightarrow> set d' \<subseteq> set d \<Longrightarrow> dict_all P d'"
  by (auto simp: dict_all_def list_all_iff)

lemma find_append: "find P (xs @ ys) = (case find P xs of None \<Rightarrow> find P ys | Some x \<Rightarrow> Some x)"
  by (induction xs) auto

section \<open>Results\<close>

lemma is_ok_simps [simp]: "is_ok (Inr x)" "\<not> is_ok (Inl e)"
  by (simp_all add: is_ok_def)

lemma bind_res_simps [simp]: "bind_res (Inl e) f = Inl e" "bind_res (Inr x) f = f x"
  by (simp_all add: bind_res_def)

lemma bind_res_Inr_iff [res_split]:
  "bind_res r f = Inr y \<longleftrightarrow> (\<exists>x. r = Inr x \<and> f x = Inr y)"
  by (cases r) auto

lemma is_ok_iff: "is_ok r \<longleftrightarrow> (\<exists>x. r = Inr x)"
  by (cases r) auto

section \<open>Strings\<close>

definition startswith :: "string \<Rightarrow> string \<Rightarrow> bool" where
  "startswith s p = prefix p s"

definition endswith :: "string \<Rightarrow> string \<Rightarrow> bool" where
  "endswith s p = suffix p s"

fun join :: "string \<Rightarrow> string list \<Rightarrow> string" where
  "join sep [] = []"
| "join sep [x] = x"
| "join sep (x # y # ys) = x @ sep @ join sep (y # ys)"

text \<open>\<open>s.split(c)\<close> for a one-character separator: always at least one part.\<close>

fun split_on :: "char \<Rightarrow> string \<Rightarrow> string list" where
  "split_on c [] = [[]]"
| "split_on c (x # xs) =
     (if x = c then [] # split_on c xs
      else (case split_on c xs of [] \<Rightarrow> [[x]] | p # ps \<Rightarrow> (x # p) # ps))"

lemma split_on_not_Nil [simp]: "split_on c s \<noteq> []"
  by (induction s) (auto split: list.splits)

lemma join_split_on: "join [c] (split_on c s) = s"
proof (induction s)
  case (Cons x xs)
  then show ?case
    by (cases "split_on c xs"; cases "tl (split_on c xs)") (auto split: list.splits)
qed simp

lemma split_on_parts: "p \<in> set (split_on c s) \<Longrightarrow> c \<notin> set p"
  by (induction s arbitrary: p) (auto split: if_splits list.splits)

lemma split_on_append: "split_on c (a @ c # b) = split_on c a @ split_on c b"
  by (induction a) (auto split: list.splits)

lemma join_append: "xs \<noteq> [] \<Longrightarrow> ys \<noteq> [] \<Longrightarrow> join sep (xs @ ys) = join sep xs @ sep @ join sep ys"
proof (induction xs)
  case (Cons x xs)
  then show ?case by (cases xs; cases ys) simp_all
qed simp

text \<open>A text extends another by whole parts exactly if its list of parts extends the other's.\<close>

lemma prefix_split_on: "prefix (split_on c a) (split_on c b) \<longleftrightarrow> b = a \<or> prefix (a @ [c]) b"
proof
  assume "prefix (split_on c a) (split_on c b)"
  then obtain zs where zs: "split_on c b = split_on c a @ zs" by (auto simp: prefix_def)
  show "b = a \<or> prefix (a @ [c]) b"
  proof (cases zs)
    case Nil
    then show ?thesis using zs join_split_on [of c a] join_split_on [of c b] by simp
  next
    case (Cons z zs')
    then have "b = a @ [c] @ join [c] zs"
      using zs join_split_on [of c a] join_split_on [of c b] join_append [of "split_on c a" zs "[c]"] by simp
    then show ?thesis by simp
  qed
qed (auto simp: prefix_def split_on_append)

section \<open>Standard-library printing\<close>

definition digit_char :: "nat \<Rightarrow> char" where
  "digit_char n = (if n < 10 then char_of (48 + n) else char_of (87 + n))"

fun nat_str :: "nat \<Rightarrow> string" where
  "nat_str n = (if n < 10 then [digit_char n] else nat_str (n div 10) @ [digit_char (n mod 10)])"

declare nat_str.simps [simp del]

definition int_str :: "int \<Rightarrow> string" where
  "int_str i = (if i < 0 then CHR ''-'' # nat_str (nat (- i)) else nat_str (nat i))"

fun hex_str :: "nat \<Rightarrow> nat \<Rightarrow> string" where
  "hex_str 0 n = []"
| "hex_str (Suc w) n = hex_str w (n div 16) @ [digit_char (n mod 16)]"

text \<open>\<open>str(uuid)\<close>: 32 hexadecimal digits in groups of 8, 4, 4, 4 and 12.\<close>

definition uuid_str :: "uuid \<Rightarrow> string" where
  "uuid_str u =
     (let h = hex_str 32 u
      in join ''-'' [take 8 h, take 4 (drop 8 h), take 4 (drop 12 h), take 4 (drop 16 h), drop 20 h])"

lemma digit_char_inj: "digit_char a = digit_char b \<Longrightarrow> a < 16 \<Longrightarrow> b < 16 \<Longrightarrow> a = b"
proof -
  assume a: "digit_char a = digit_char b" "a < 16" "b < 16"
  have "of_char (digit_char n) = (if n < 10 then 48 + n else 87 + n)" if "n < 16" for n :: nat
    using that by (simp add: digit_char_def)
  from this [OF a(2)] this [OF a(3)] have "(if a < 10 then 48 + a else 87 + a) = (if b < 10 then 48 + b else 87 + b)"
    unfolding a(1) by simp
  then show ?thesis using a(2,3) by (simp split: if_splits)
qed

lemma length_hex_str [simp]: "length (hex_str w n) = w"
  by (induction w arbitrary: n) simp_all

lemma hex_str_inj: "hex_str w m = hex_str w n \<Longrightarrow> m < 16 ^ w \<Longrightarrow> n < 16 ^ w \<Longrightarrow> m = n"
proof (induction w arbitrary: m n)
  case (Suc w)
  then have "m div 16 = n div 16" "m mod 16 = n mod 16"
    by (auto intro: Suc.IH digit_char_inj simp: less_mult_imp_div_less mult.commute)
  then show ?case by (metis div_mult_mod_eq)
qed simp

lemma uuid_str_inj: "inj_on uuid_str {..<2 ^ 128}"
proof (rule inj_onI)
  fix u v :: uuid
  assume uv: "u \<in> {..<2 ^ 128}" "v \<in> {..<2 ^ 128}" "uuid_str u = uuid_str v"
  let ?h = "hex_str 32 u" and ?k = "hex_str 32 v"
  have parts: "h = take 8 h @ take 4 (drop 8 h) @ take 4 (drop 12 h) @ take 4 (drop 16 h) @ drop 20 h" for h :: string
    by (simp add: append_eq_conv_conj take_add [symmetric] drop_drop flip: append_assoc take_add)
  have "take 8 ?h = take 8 ?k" "take 4 (drop 8 ?h) = take 4 (drop 8 ?k)" "take 4 (drop 12 ?h) = take 4 (drop 12 ?k)"
      "take 4 (drop 16 ?h) = take 4 (drop 16 ?k)" "drop 20 ?h = drop 20 ?k"
    using uv(3) by (simp_all add: uuid_str_def Let_def)
  then have "?h = ?k" using parts [of ?h] parts [of ?k] by argo
  then show "u = v" by (rule hex_str_inj) (use uv in simp_all)
qed

lemma uuid_str_eq: "u < 2 ^ 128 \<Longrightarrow> v < 2 ^ 128 \<Longrightarrow> uuid_str u = uuid_str v \<longleftrightarrow> u = v"
  using uuid_str_inj by (auto dest: inj_onD)

definition json_escape_char :: "char \<Rightarrow> string" where
  "json_escape_char c =
     (let n = of_char c :: nat
      in if c = CHR 0x22 then [CHR 0x5C, CHR 0x22]
         else if c = CHR 0x5C then [CHR 0x5C, CHR 0x5C]
         else if n = 10 then [CHR 0x5C, CHR ''n'']
         else if n = 13 then [CHR 0x5C, CHR ''r'']
         else if n = 9 then [CHR 0x5C, CHR ''t'']
         else if n = 8 then [CHR 0x5C, CHR ''b'']
         else if n = 12 then [CHR 0x5C, CHR ''f'']
         else if 32 \<le> n \<and> n \<le> 126 then [c]
         else CHR 0x5C # CHR ''u'' # hex_str 4 n)"

definition json_str :: "string \<Rightarrow> string" where
  "json_str s = [CHR 0x22] @ concat (map json_escape_char s) @ [CHR 0x22]"

text \<open>\<open>json.dumps\<close> with its default separators.\<close>

fun json_dumps :: "json \<Rightarrow> string" where
  "json_dumps JNull = ''null''"
| "json_dumps (JBool b) = (if b then ''true'' else ''false'')"
| "json_dumps (JInt i) = int_str i"
| "json_dumps (JStr s) = json_str s"
| "json_dumps (JArr xs) = ''['' @ join '', '' (map json_dumps xs) @ '']''"
| "json_dumps (JObj kvs) =
     ''{'' @ join '', '' (map (\<lambda>(k, v). json_str k @ '': '' @ json_dumps v) kvs) @ ''}''"

section \<open>More string operations\<close>

text \<open>\<open>s.split(c, maxsplit=n)\<close>: at most \<open>n\<close> cuts.\<close>

fun split_max :: "nat \<Rightarrow> char \<Rightarrow> string \<Rightarrow> string list" where
  "split_max 0 c s = [s]"
| "split_max (Suc n) c s =
     (if c \<in> set s
      then takeWhile (\<lambda>x. x \<noteq> c) s # split_max n c (tl (dropWhile (\<lambda>x. x \<noteq> c) s))
      else [s])"

lemma split_max_sep: "c \<notin> set a \<Longrightarrow> split_max (Suc n) c (a @ c # s) = a # split_max n c s"
  by (simp add: takeWhile_append dropWhile_append)

lemma split_max_two:
  "c \<notin> set a \<Longrightarrow> c \<notin> set b \<Longrightarrow> split_max 2 c (a @ c # b @ c # s) = [a, b, s]"
  by (simp add: numeral_2_eq_2 split_max_sep del: split_max.simps(2))

text \<open>
  \<open>str.lower\<close>, \<open>str.strip\<close>, \<open>sub in s\<close> and \<open>repr\<close> of a string, on the code points below 256 that a \<open>char\<close> holds.
\<close>

definition lower_char :: "char \<Rightarrow> char" where
  "lower_char c =
     (let n = of_char c :: nat
      in if (65 \<le> n \<and> n \<le> 90) \<or> (192 \<le> n \<and> n \<le> 222 \<and> n \<noteq> 215) then char_of (n + 32) else c)"

definition str_lower :: "string \<Rightarrow> string" where
  "str_lower s = map lower_char s"

text \<open>\<open>sub in s\<close>\<close>

fun str_contains :: "string \<Rightarrow> string \<Rightarrow> bool" where
  "str_contains sub [] = (sub = [])"
| "str_contains sub (c # cs) = (prefix sub (c # cs) \<or> str_contains sub cs)"

definition is_space :: "char \<Rightarrow> bool" where
  "is_space c = (let n = of_char c :: nat in (9 \<le> n \<and> n \<le> 13) \<or> (28 \<le> n \<and> n \<le> 32) \<or> n = 133 \<or> n = 160)"

definition py_strip :: "string \<Rightarrow> string" where
  "py_strip s = rev (dropWhile is_space (rev (dropWhile is_space s)))"

definition repr_char :: "char \<Rightarrow> char \<Rightarrow> string" where
  "repr_char quote c =
     (let n = of_char c :: nat
      in if c = quote \<or> c = CHR 0x5C then [CHR 0x5C, c]
         else if n = 10 then [CHR 0x5C, CHR ''n'']
         else if n = 13 then [CHR 0x5C, CHR ''r'']
         else if n = 9 then [CHR 0x5C, CHR ''t'']
         else if n < 32 \<or> (127 \<le> n \<and> n < 161) \<or> n = 173 then CHR 0x5C # CHR ''x'' # hex_str 2 n
         else [c])"

definition repr_str :: "string \<Rightarrow> string" where
  "repr_str s =
     (let quote = (if CHR 0x27 \<in> set s \<and> CHR 0x22 \<notin> set s then CHR 0x22 else CHR 0x27)
      in [quote] @ concat (map (repr_char quote) s) @ [quote])"

text \<open>\<open>repr\<close> and \<open>str\<close> of a value read from JSON, as Python prints dictionaries.\<close>

fun py_repr :: "json \<Rightarrow> string" where
  "py_repr JNull = ''None''"
| "py_repr (JBool b) = (if b then ''True'' else ''False'')"
| "py_repr (JInt i) = int_str i"
| "py_repr (JStr s) = repr_str s"
| "py_repr (JArr xs) = ''['' @ join '', '' (map py_repr xs) @ '']''"
| "py_repr (JObj kvs) = ''{'' @ join '', '' (map (\<lambda>(k, v). repr_str k @ '': '' @ py_repr v) kvs) @ ''}''"

definition py_str :: "json \<Rightarrow> string" where
  "py_str v = (case v of JStr s \<Rightarrow> s | _ \<Rightarrow> py_repr v)"

text \<open>\<open>str.encode()\<close>: UTF-8 of code points below 256.\<close>

definition utf8 :: "string \<Rightarrow> string" where
  "utf8 s = concat (map (\<lambda>c. let n = of_char c :: nat
                             in if n < 128 then [c] else [char_of (192 + n div 64), char_of (128 + n mod 64)]) s)"

section \<open>Sequencing with exceptions\<close>

text \<open>
  An operation on a state \<open>'s\<close> that may raise: an exception keeps the changes made before it. \<open>steady\<close> says that an operation
  keeps a property of the state, whether it returns or raises.
\<close>

definition bindS :: "('s \<Rightarrow> 'a result \<times> 's) \<Rightarrow> ('a \<Rightarrow> 's \<Rightarrow> 'b result \<times> 's) \<Rightarrow> 's \<Rightarrow> 'b result \<times> 's" where
  "bindS m f s = (case m s of (Inl e, s') \<Rightarrow> (Inl e, s') | (Inr x, s') \<Rightarrow> f x s')"

definition raiseS :: "exn \<Rightarrow> 's \<Rightarrow> 'a result \<times> 's" where
  "raiseS e s = (Inl e, s)"

definition returnS :: "'a \<Rightarrow> 's \<Rightarrow> 'a result \<times> 's" where
  "returnS x s = (Inr x, s)"

definition modifyS :: "('s \<Rightarrow> 's) \<Rightarrow> 's \<Rightarrow> unit result \<times> 's" where
  "modifyS f s = (Inr (), f s)"

lemma bindS_Inr:
  "bindS m f s = (Inr y, s') \<longleftrightarrow> (\<exists>x s1. m s = (Inr x, s1) \<and> f x s1 = (Inr y, s'))"
  by (auto simp: bindS_def split: prod.splits sum.splits)

lemma bindS_Inl:
  "bindS m f s = (Inl e, s') \<longleftrightarrow> m s = (Inl e, s') \<or> (\<exists>x s1. m s = (Inr x, s1) \<and> f x s1 = (Inl e, s'))"
  by (auto simp: bindS_def split: prod.splits sum.splits)

lemma simple_ops [simp]:
  "raiseS e s = (r, s') \<longleftrightarrow> r = Inl e \<and> s' = s"
  "returnS x s = (r', s') \<longleftrightarrow> r' = Inr x \<and> s' = s"
  "modifyS f s = (r'', s') \<longleftrightarrow> r'' = Inr () \<and> s' = f s"
  by (auto simp: raiseS_def returnS_def modifyS_def)

definition steady :: "('s \<Rightarrow> bool) \<Rightarrow> ('s \<Rightarrow> 'a result \<times> 's) \<Rightarrow> bool" where
  "steady I m \<longleftrightarrow> (\<forall>s r s'. I s \<longrightarrow> m s = (r, s') \<longrightarrow> I s')"

lemma steadyD: "steady I m \<Longrightarrow> I s \<Longrightarrow> m s = (r, s') \<Longrightarrow> I s'"
  by (auto simp: steady_def)

lemma steady_simple [simp, intro]: "steady I (raiseS e)" "steady I (returnS x)"
  by (simp_all add: steady_def)

lemma steady_bindS:
  assumes "steady I m" "\<And>x. steady I (f x)" shows "steady I (bindS m f)"
  unfolding steady_def
proof (intro allI impI)
  fix s r s' assume "I s" "bindS m f s = (r, s')"
  then consider e where "m s = (Inl e, s')" | x s1 where "m s = (Inr x, s1)" "f x s1 = (r, s')"
    by (auto simp: bindS_def split: prod.splits sum.splits)
  then show "I s'" using assms \<open>I s\<close> steadyD by metis
qed

section \<open>Step relations\<close>

text \<open>
  The contract of a component whose operations are the steps of a relation: its initial states
  satisfy an invariant and every step keeps it. Components interpret it on their own operations.
\<close>

locale invariant_system =
  fixes init :: "'s \<Rightarrow> bool" and step :: "'s \<Rightarrow> 's \<Rightarrow> bool" and inv :: "'s \<Rightarrow> bool"
  assumes init_inv: "init s \<Longrightarrow> inv s"
    and step_inv: "inv s \<Longrightarrow> step s s' \<Longrightarrow> inv s'"
begin

lemma steps_inv: "step\<^sup>*\<^sup>* s s' \<Longrightarrow> inv s \<Longrightarrow> inv s'"
  by (induction rule: rtranclp_induct) (auto intro: step_inv)

lemma reachable_inv: "init s \<Longrightarrow> step\<^sup>*\<^sup>* s s' \<Longrightarrow> inv s'"
  using steps_inv init_inv by blast

end

end
