(* ===== verification/Transitions.thy ===== *)
theory Transitions
  imports Prelude
begin

text \<open>
  The status machines of tasks and runs, \<open>trace/_transitions.py\<close>: the transition tables, the
  two validators, and what the tables promise about whole histories of a status. The locale
  \<open>lifecycle\<close> states the contract that both validators satisfy; the storage backend relies on
  it for its own invariants.
\<close>

section \<open>The tables and the validators\<close>

definition TASK_TRANSITIONS :: "(string, string list) dict" where
  "TASK_TRANSITIONS =
     [(''created'', [''prechecking'']),
      (''prechecking'', [''active'', ''precheck_failed'']),
      (''active'', [''postchecking'', ''suspended'', ''completed'']),
      (''postchecking'', [''completed'', ''postcheck_failed'']),
      (''postcheck_failed'', [''active'', ''escalated'']),
      (''suspended'', [''active''])]"

definition TASK_TERMINAL_STATES :: "string list" where
  "TASK_TERMINAL_STATES = [''completed'', ''cancelled'', ''escalated'', ''precheck_failed'']"

definition RUN_TRANSITIONS :: "(string, string list) dict" where
  "RUN_TRANSITIONS =
     [(''created'', [''running'']),
      (''running'', [''paused'', ''completed'', ''failed'', ''aborted'']),
      (''paused'', [''running'', ''aborted''])]"

definition RUN_TERMINAL_STATES :: "string list" where
  "RUN_TERMINAL_STATES = [''completed'', ''failed'', ''aborted'']"

definition validate_task_transition :: "string \<Rightarrow> string \<Rightarrow> unit result" where
  "validate_task_transition old new =
     (if new = ''cancelled'' then Inr ()
      else if old \<in> set TASK_TERMINAL_STATES then Inl InvalidTransitionError
      else (case dict_get TASK_TRANSITIONS old of
              None \<Rightarrow> Inl InvalidTransitionError
            | Some allowed \<Rightarrow>
                if new \<notin> set allowed then Inl InvalidTransitionError else Inr ()))"

definition validate_run_transition :: "string \<Rightarrow> string \<Rightarrow> unit result" where
  "validate_run_transition old new =
     (if old \<in> set RUN_TERMINAL_STATES then Inl InvalidTransitionError
      else (case dict_get RUN_TRANSITIONS old of
              None \<Rightarrow> Inl InvalidTransitionError
            | Some allowed \<Rightarrow>
                if new \<notin> set allowed then Inl InvalidTransitionError else Inr ()))"

text \<open>The states of the two machines, as the \<open>TaskState\<close> enumeration lists them for tasks.\<close>

definition task_states :: "string list" where
  "task_states =
     [''created'', ''prechecking'', ''active'', ''suspended'', ''postchecking'', ''completed'',
      ''precheck_failed'', ''postcheck_failed'', ''escalated'', ''cancelled'']"

definition run_states :: "string list" where
  "run_states = [''created'', ''running'', ''paused'', ''completed'', ''failed'', ''aborted'']"

abbreviation task_step :: "string \<Rightarrow> string \<Rightarrow> bool" where
  "task_step s t \<equiv> is_ok (validate_task_transition s t)"

abbreviation run_step :: "string \<Rightarrow> string \<Rightarrow> bool" where
  "run_step s t \<equiv> is_ok (validate_run_transition s t)"

text \<open>A history: the statuses a row takes one after the other, each step validated.\<close>

fun valid_path :: "('s \<Rightarrow> 's \<Rightarrow> bool) \<Rightarrow> 's \<Rightarrow> 's list \<Rightarrow> bool" where
  "valid_path ok s [] = True"
| "valid_path ok s (t # ts) = (ok s t \<and> valid_path ok t ts)"

section \<open>The contract of a lifecycle\<close>

locale lifecycle =
  fixes ok :: "'s \<Rightarrow> 's \<Rightarrow> bool"
    and terminal :: "'s \<Rightarrow> bool"
    and exit_state :: "'s \<Rightarrow> bool"
    and state :: "'s \<Rightarrow> bool"
    and initial :: "'s"
  assumes terminal_exit: "terminal s \<Longrightarrow> ok s t \<Longrightarrow> exit_state t"
    and exit_terminal: "exit_state t \<Longrightarrow> terminal t"
    and ok_state: "ok s t \<Longrightarrow> state t"
    and initial_state: "state initial"
    and initial_not_terminal: "\<not> terminal initial"
begin

lemma terminal_absorbing:
  "terminal s \<Longrightarrow> valid_path ok s ts \<Longrightarrow> t \<in> set ts \<Longrightarrow> exit_state t"
proof (induction ts arbitrary: s)
  case (Cons u us)
  then have u: "exit_state u" by (auto intro: terminal_exit)
  with Cons show ?case by (cases "t = u") (auto dest: exit_terminal)
qed simp

lemma path_states: "valid_path ok s ts \<Longrightarrow> t \<in> set ts \<Longrightarrow> state t"
  by (induction ts arbitrary: s) (auto dest: ok_state)

lemma last_state: "state s \<Longrightarrow> valid_path ok s ts \<Longrightarrow> state (last (s # ts))"
  using path_states by fastforce

lemma last_terminal:
  assumes "terminal s" "valid_path ok s ts"
  shows "terminal (last (s # ts))"
proof (cases ts)
  case Nil
  with assms show ?thesis by simp
next
  case (Cons u us)
  then have "last ts \<in> set ts" by simp
  with assms have "exit_state (last ts)" by (rule terminal_absorbing)
  with Cons show ?thesis by (auto dest: exit_terminal)
qed

end

section \<open>Lemmas on the tables\<close>

lemma valid_path_append:
  "valid_path ok s (ts @ us) \<longleftrightarrow> valid_path ok s ts \<and> valid_path ok (last (s # ts)) us"
  by (induction ts arbitrary: s) auto

lemmas transition_tables =
  TASK_TRANSITIONS_def TASK_TERMINAL_STATES_def RUN_TRANSITIONS_def RUN_TERMINAL_STATES_def

lemma validate_task_ok:
  "task_step old new \<longleftrightarrow>
     new = ''cancelled'' \<or>
     (old, new) \<in> {(''created'', ''prechecking''), (''prechecking'', ''active''),
       (''prechecking'', ''precheck_failed''), (''active'', ''postchecking''),
       (''active'', ''suspended''), (''active'', ''completed''), (''postchecking'', ''completed''),
       (''postchecking'', ''postcheck_failed''), (''postcheck_failed'', ''active''),
       (''postcheck_failed'', ''escalated''), (''suspended'', ''active'')}"
  unfolding validate_task_transition_def transition_tables dict_get_def
  by (auto split: if_splits)

lemma validate_run_ok:
  "run_step old new \<longleftrightarrow>
     (old, new) \<in> {(''created'', ''running''), (''running'', ''paused''),
       (''running'', ''completed''), (''running'', ''failed''), (''running'', ''aborted''),
       (''paused'', ''running''), (''paused'', ''aborted'')}"
  unfolding validate_run_transition_def transition_tables dict_get_def
  by (auto split: if_splits)

lemma validate_task_cases:
  "validate_task_transition old new = (if task_step old new then Inr () else Inl InvalidTransitionError)"
  by (auto simp: validate_task_transition_def split: option.splits)

lemma validate_run_cases:
  "validate_run_transition old new = (if run_step old new then Inr () else Inl InvalidTransitionError)"
  by (auto simp: validate_run_transition_def split: option.splits)

interpretation task_machine: lifecycle task_step "\<lambda>s. s \<in> set TASK_TERMINAL_STATES"
  "\<lambda>s. s = ''cancelled''" "\<lambda>s. s \<in> set task_states" "''created''"
  by unfold_locales (auto simp: validate_task_ok TASK_TERMINAL_STATES_def task_states_def)

interpretation run_machine: lifecycle run_step "\<lambda>s. s \<in> set RUN_TERMINAL_STATES"
  "\<lambda>s. False" "\<lambda>s. s \<in> set run_states" "''created''"
  by unfold_locales (auto simp: validate_run_ok RUN_TERMINAL_STATES_def run_states_def)

text \<open>
  Walking a history forwards into a set of states that can only be entered through one gate.
\<close>

lemma path_gate:
  assumes gate: "\<And>s t. ok s t \<Longrightarrow> t \<in> A \<Longrightarrow> s \<in> A \<or> s = g"
  shows "valid_path ok s ts \<Longrightarrow> t \<in> set ts \<Longrightarrow> t \<in> A \<Longrightarrow> s \<notin> A \<Longrightarrow> s \<noteq> g \<Longrightarrow> g \<in> set ts"
proof (induction ts arbitrary: s)
  case (Cons u us)
  then have "u \<notin> A" using gate [of s u] by auto
  with Cons show ?case by (cases "u = g") auto
qed simp

definition beyond_active :: "string set" where
  "beyond_active = {''postchecking'', ''suspended'', ''completed'', ''postcheck_failed'', ''escalated''}"

definition beyond_prechecking :: "string set" where
  "beyond_prechecking = insert ''active'' (insert ''precheck_failed'' beyond_active)"

lemma active_gate: "task_step s t \<Longrightarrow> t \<in> beyond_active \<Longrightarrow> s \<in> beyond_active \<or> s = ''active''"
  unfolding validate_task_ok beyond_active_def by force

lemma prechecking_gate:
  "task_step s t \<Longrightarrow> t \<in> beyond_prechecking \<Longrightarrow> s \<in> beyond_prechecking \<or> s = ''prechecking''"
  unfolding validate_task_ok beyond_active_def beyond_prechecking_def by force

lemma created_not_beyond: "''created'' \<notin> beyond_active" "''created'' \<notin> beyond_prechecking"
  by (simp_all add: beyond_active_def beyond_prechecking_def)

section \<open>Properties\<close>

text \<open>
  No task skips its entry gate: every history that starts at \<open>created\<close> and contains
  \<open>completed\<close> (or any other status beyond \<open>active\<close>) contains \<open>prechecking\<close> and \<open>active\<close>.
\<close>

theorem completed_passed_gates:
  assumes path: "valid_path task_step ''created'' ts"
    and t: "t \<in> set ts" "t \<in> beyond_active"
  shows "''prechecking'' \<in> set ts \<and> ''active'' \<in> set ts"
proof
  show "''active'' \<in> set ts"
    using active_gate path t created_not_beyond(1) by (rule path_gate) simp_all
  have "t \<in> beyond_prechecking" using t by (simp add: beyond_prechecking_def)
  with prechecking_gate path t(1) show "''prechecking'' \<in> set ts"
    using created_not_beyond(2) by (rule path_gate) simp_all
qed

theorem completed_passed_gates_witness:
  "''prechecking'' \<in> set [''prechecking'', ''active'', ''suspended'', ''active'', ''completed''] \<and>
   ''active'' \<in> set [''prechecking'', ''active'', ''suspended'', ''active'', ''completed'']"
  by (rule completed_passed_gates [of _ "''completed''"]) (simp_all add: validate_task_ok beyond_active_def)

text \<open>
  Terminal states are final: a history that continues after a terminal task
  status contains nothing but \<open>cancelled\<close>, and no history continues after a terminal run status.
\<close>

theorem terminal_states_final:
  "(s \<in> set TASK_TERMINAL_STATES \<longrightarrow> valid_path task_step s ts \<longrightarrow> set ts \<subseteq> {''cancelled''}) \<and>
   (r \<in> set RUN_TERMINAL_STATES \<longrightarrow> valid_path run_step r rs \<longrightarrow> rs = [])"
proof -
  have "rs = []" if "r \<in> set RUN_TERMINAL_STATES" "valid_path run_step r rs"
    using that run_machine.terminal_exit by (cases rs) auto
  then show ?thesis using task_machine.terminal_absorbing by blast
qed

theorem terminal_states_final_witness:
  "set [''cancelled''] \<subseteq> {''cancelled''} \<and> valid_path task_step ''completed'' [''cancelled'']"
proof -
  have "valid_path task_step ''completed'' [''cancelled'']" by (simp add: validate_task_ok)
  moreover have "''completed'' \<in> set TASK_TERMINAL_STATES" by (simp add: TASK_TERMINAL_STATES_def)
  ultimately show ?thesis using terminal_states_final [of "''completed''" "[''cancelled'']" "''completed''" "[]"] by simp
qed

end
