(* ===== verification/Trace_Storage.thy ===== *)
theory Trace_Storage
  imports Transitions
begin

text \<open>
  The storage backend of the trace module, \<open>trace/_memory_backend.py\<close>: the rows, the state of
  \<open>InMemoryBackend\<close> and every operation that writes to it, with the row types of
  \<open>trace/_types.py\<close>. Reads are in \<open>Trace_Reader\<close>, invariants over runs of the backend in
  \<open>Trace_Invariants\<close>.

  An operation takes the identifiers and the times it draws as its first arguments, then the
  arguments of the Python method in their order, then the state. An operation that can raise
  returns \<open>Inl\<close>; in this class every \<open>raise\<close> precedes the first write, so the state of a
  failed call is the state before it. The run-control callbacks are opaque handles: an
  operation that invokes one returns the invocation.
\<close>

section \<open>Rows\<close>

record task_row =
  t_id :: uuid
  t_run_id :: uuid
  t_parent_task_id :: "uuid option"
  t_name :: string
  t_task_type :: string
  t_config :: string
  t_status :: string
  t_created_at :: time

record attempt_row =
  a_id :: uuid
  a_task_id :: uuid
  a_attempt :: int
  a_status :: string
  a_agent_output :: "string option"
  a_structured_output :: "jobj option"
  a_check_result :: "jobj option"
  a_check_verdict :: "string option"
  a_session_id :: "uuid option"
  a_input_tokens :: int
  a_output_tokens :: int
  a_reasoning_tokens :: int
  a_cache_read_tokens :: int
  a_cache_write_tokens :: int
  a_cost_usd :: decimal
  a_duration_seconds :: "seconds option"

record iteration_row =
  i_id :: uuid
  i_task_id :: uuid
  i_iteration_index :: int
  i_item_value :: string
  i_status :: string
  i_output :: "string option"
  i_structured_output :: "jobj option"
  i_check_results :: "jobj list option"
  i_started_at :: time
  i_finished_at :: "time option"

record event_row =
  e_id :: uuid
  e_run_id :: "uuid option"
  e_task_id :: "uuid option"
  e_principal_id :: uuid
  e_event_type :: string
  e_data :: jobj
  e_idempotency_key :: "string option"
  e_created_at :: time

record transcript_row =
  x_id :: uuid
  x_session_id :: uuid
  x_run_id :: uuid
  x_turn :: int
  x_role :: string
  x_content :: string
  x_tool_calls :: "jobj option"
  x_tokens :: "jobj option"
  x_created_at :: time

record run_row =
  r_id :: uuid
  r_intent :: string
  r_config_snapshot :: jobj
  r_autonomy_level :: string
  r_created_by :: uuid
  r_status :: string
  r_created_at :: time
  r_finished_at :: "time option"
  r_coherence_summary :: "string option"
  r_total_input_tokens :: int
  r_total_output_tokens :: int
  r_total_reasoning_tokens :: int
  r_total_cache_read_tokens :: int
  r_total_cache_write_tokens :: int
  r_total_cost_usd :: decimal

record decision_row =
  d_id :: uuid
  d_run_id :: uuid
  d_decision_type :: string
  d_choice :: string
  d_rationale :: "string option"
  d_created_at :: time

record constraint_row =
  c_id :: uuid
  c_run_id :: uuid
  c_text :: string
  c_tier :: string
  c_kind :: string
  c_args :: "jobj option"
  c_active :: bool
  c_created_at :: time

record assumption_row =
  as_id :: uuid
  as_run_id :: uuid
  as_text :: string
  as_scope :: string
  as_status :: string
  as_inbox_item_id :: "uuid option"
  as_created_at :: time

record lesson_row =
  l_id :: uuid
  l_run_id :: uuid
  l_text :: string
  l_relevance_tags :: "string list"
  l_permanent :: bool
  l_source_files :: "string list option"
  l_source_file :: "string option"
  l_created_at :: time

record workflow_status_row =
  w_workflow_id :: uuid
  w_current_step :: string
  w_health :: string
  w_updated_at :: time

record context_diff_row =
  cd_id :: uuid
  cd_attempt_id :: uuid
  cd_pre_refinement :: string
  cd_refinement_diff :: string

record inbox_row =
  in_id :: uuid
  in_run_id :: uuid
  in_status :: string
  in_decision_type :: string
  in_question :: string
  in_options :: "jobj list"
  in_assumed_option :: "string option"
  in_work_proceeding :: "string option"
  in_contradiction_impact :: "string option"
  in_tags :: "string list"
  in_deadline :: "time option"
  in_answer :: "string option"
  in_answer_event :: "string option"
  in_rejection_reason :: "string option"
  in_answered_at :: "time option"
  in_resolved_by :: "uuid option"
  in_created_at :: time

record notepad_row =
  n_id :: uuid
  n_run_id :: uuid
  n_task_name :: string
  n_agent_name :: string
  n_entry_type :: string
  n_text :: string
  n_created_at :: time

section \<open>The state of the backend\<close>

type_synonym callback = nat

record trace_db =
  db_runs :: "(uuid, run_row) dict"
  db_tasks :: "(uuid, task_row) dict"
  db_task_attempts :: "(uuid, attempt_row) dict"
  db_events :: "event_row list"
  db_transcripts :: "transcript_row list"
  db_notepad_entries :: "notepad_row list"
  db_inbox_items :: "(uuid, inbox_row) dict"
  db_decisions :: "decision_row list"
  db_constraints :: "constraint_row list"
  db_assumptions :: "assumption_row list"
  db_lessons :: "lesson_row list"
  db_context_diffs :: "context_diff_row list"
  db_workflow_status :: "(uuid, workflow_status_row) dict"
  db_iterations :: "(uuid, iteration_row) dict"
  db_run_locks :: "(uuid, bool) dict"
  db_heartbeats :: "(uuid, seconds) dict"
  db_control_callbacks :: "(uuid, callback) dict"
  db_knowledge_hashes :: "(uuid, (string, string) dict) dict"
  db_idempotency_index :: "(string, uuid) dict"

definition empty_db :: trace_db where
  "empty_db =
     \<lparr>db_runs = [], db_tasks = [], db_task_attempts = [], db_events = [], db_transcripts = [],
      db_notepad_entries = [], db_inbox_items = [], db_decisions = [], db_constraints = [],
      db_assumptions = [], db_lessons = [], db_context_diffs = [], db_workflow_status = [],
      db_iterations = [], db_run_locks = [], db_heartbeats = [], db_control_callbacks = [],
      db_knowledge_hashes = [], db_idempotency_index = []\<rparr>"

definition INMEMORY_SYSTEM_PRINCIPAL_ID :: uuid where
  "INMEMORY_SYSTEM_PRINCIPAL_ID = 0x11111111111111111111111111111111"

section \<open>Tasks, attempts and iterations\<close>

definition create_task ::
  "uuid \<Rightarrow> time \<Rightarrow> uuid \<Rightarrow> uuid option \<Rightarrow> string \<Rightarrow> string \<Rightarrow> jobj option \<Rightarrow> trace_db \<Rightarrow> uuid \<times> trace_db" where
  "create_task task_id now run_id parent_task_id name task_type config db =
     (task_id,
      db\<lparr>db_tasks := dict_set task_id
        \<lparr>t_id = task_id, t_run_id = run_id, t_parent_task_id = parent_task_id, t_name = name,
         t_task_type = task_type,
         t_config = json_dumps (JObj (case config of None \<Rightarrow> [] | Some c \<Rightarrow> c)),
         t_status = ''created'', t_created_at = now\<rparr> (db_tasks db)\<rparr>)"

definition opt_json :: "string option \<Rightarrow> json" where
  "opt_json r = (case r of None \<Rightarrow> JNull | Some s \<Rightarrow> JStr s)"

definition transition_task ::
  "uuid \<Rightarrow> time \<Rightarrow> uuid \<Rightarrow> string \<Rightarrow> string option \<Rightarrow> uuid \<Rightarrow> trace_db \<Rightarrow> trace_db result" where
  "transition_task event_id now task_id new_status reason principal_id db =
     (case dict_get (db_tasks db) task_id of
        None \<Rightarrow> Inl ValueError
      | Some task \<Rightarrow>
          let old_status = t_status task
          in bind_res (validate_task_transition old_status new_status) (\<lambda>_.
               Inr (db\<lparr>db_tasks := dict_set task_id (task\<lparr>t_status := new_status\<rparr>) (db_tasks db),
                       db_events := db_events db @
                         [\<lparr>e_id = event_id, e_run_id = Some (t_run_id task), e_task_id = Some task_id,
                           e_principal_id = principal_id, e_event_type = ''task_transition'',
                           e_data = [(''task_id'', JStr (uuid_str task_id)),
                                     (''old_status'', JStr old_status),
                                     (''new_status'', JStr new_status),
                                     (''reason'', opt_json reason)],
                           e_idempotency_key = None, e_created_at = now\<rparr>]\<rparr>)))"

definition create_task_attempt :: "uuid \<Rightarrow> uuid \<Rightarrow> int \<Rightarrow> trace_db \<Rightarrow> uuid \<times> trace_db" where
  "create_task_attempt attempt_id task_id attempt db =
     (attempt_id,
      db\<lparr>db_task_attempts := dict_set attempt_id
        \<lparr>a_id = attempt_id, a_task_id = task_id, a_attempt = attempt, a_status = ''running'',
         a_agent_output = None, a_structured_output = None, a_check_result = None,
         a_check_verdict = None, a_session_id = None, a_input_tokens = 0, a_output_tokens = 0,
         a_reasoning_tokens = 0, a_cache_read_tokens = 0, a_cache_write_tokens = 0,
         a_cost_usd = 0, a_duration_seconds = None\<rparr> (db_task_attempts db)\<rparr>)"

definition complete_task_attempt ::
  "uuid \<Rightarrow> string \<Rightarrow> jobj option \<Rightarrow> jobj option \<Rightarrow> string option \<Rightarrow> uuid option \<Rightarrow>
   int \<Rightarrow> int \<Rightarrow> int \<Rightarrow> int \<Rightarrow> int \<Rightarrow> decimal \<Rightarrow> seconds \<Rightarrow> trace_db \<Rightarrow> trace_db result" where
  "complete_task_attempt attempt_id agent_output structured_output check_result check_verdict
     session_id input_tokens output_tokens reasoning_tokens cache_read_tokens cache_write_tokens
     cost_usd duration_seconds db =
     (case dict_get (db_task_attempts db) attempt_id of
        None \<Rightarrow> Inl KeyError
      | Some att \<Rightarrow>
          Inr (db\<lparr>db_task_attempts := dict_set attempt_id
            (att\<lparr>a_status := ''completed'', a_agent_output := Some agent_output,
                 a_structured_output := structured_output, a_check_result := check_result,
                 a_check_verdict := check_verdict, a_session_id := session_id,
                 a_input_tokens := input_tokens, a_output_tokens := output_tokens,
                 a_reasoning_tokens := reasoning_tokens, a_cache_read_tokens := cache_read_tokens,
                 a_cache_write_tokens := cache_write_tokens, a_cost_usd := cost_usd,
                 a_duration_seconds := Some duration_seconds\<rparr>) (db_task_attempts db)\<rparr>))"

definition fail_task_attempt ::
  "uuid \<Rightarrow> string \<Rightarrow> uuid option \<Rightarrow> int \<Rightarrow> int \<Rightarrow> int \<Rightarrow> int \<Rightarrow> int \<Rightarrow> decimal \<Rightarrow> seconds \<Rightarrow>
   trace_db \<Rightarrow> trace_db result" where
  "fail_task_attempt attempt_id error session_id input_tokens output_tokens reasoning_tokens
     cache_read_tokens cache_write_tokens cost_usd duration_seconds db =
     (case dict_get (db_task_attempts db) attempt_id of
        None \<Rightarrow> Inl KeyError
      | Some att \<Rightarrow>
          Inr (db\<lparr>db_task_attempts := dict_set attempt_id
            (att\<lparr>a_status := ''failed'', a_agent_output := Some error, a_session_id := session_id,
                 a_input_tokens := input_tokens, a_output_tokens := output_tokens,
                 a_reasoning_tokens := reasoning_tokens, a_cache_read_tokens := cache_read_tokens,
                 a_cache_write_tokens := cache_write_tokens, a_cost_usd := cost_usd,
                 a_duration_seconds := Some duration_seconds\<rparr>) (db_task_attempts db)\<rparr>))"

definition create_iteration ::
  "uuid \<Rightarrow> time \<Rightarrow> uuid \<Rightarrow> int \<Rightarrow> json \<Rightarrow> trace_db \<Rightarrow> uuid \<times> trace_db" where
  "create_iteration iteration_id now task_id index item_value db =
     (iteration_id,
      db\<lparr>db_iterations := dict_set iteration_id
        \<lparr>i_id = iteration_id, i_task_id = task_id, i_iteration_index = index,
         i_item_value = json_dumps item_value, i_status = ''running'', i_output = None,
         i_structured_output = None, i_check_results = None, i_started_at = now,
         i_finished_at = None\<rparr> (db_iterations db)\<rparr>)"

definition complete_iteration ::
  "time \<Rightarrow> uuid \<Rightarrow> string option \<Rightarrow> jobj option \<Rightarrow> jobj list option \<Rightarrow> trace_db \<Rightarrow> trace_db result" where
  "complete_iteration now iteration_id out structured_output check_results db =
     (case dict_get (db_iterations db) iteration_id of
        None \<Rightarrow> Inl KeyError
      | Some it \<Rightarrow>
          Inr (db\<lparr>db_iterations := dict_set iteration_id
            (it\<lparr>i_status := ''completed'', i_output := out, i_structured_output := structured_output,
                i_check_results := check_results, i_finished_at := Some now\<rparr>) (db_iterations db)\<rparr>))"

definition fail_iteration :: "time \<Rightarrow> uuid \<Rightarrow> string \<Rightarrow> trace_db \<Rightarrow> trace_db result" where
  "fail_iteration now iteration_id error db =
     (case dict_get (db_iterations db) iteration_id of
        None \<Rightarrow> Inl KeyError
      | Some it \<Rightarrow>
          Inr (db\<lparr>db_iterations := dict_set iteration_id
            (it\<lparr>i_status := ''failed'', i_output := Some error, i_finished_at := Some now\<rparr>)
            (db_iterations db)\<rparr>))"

section \<open>Events and transcripts\<close>

definition write_event ::
  "uuid \<Rightarrow> time \<Rightarrow> uuid option \<Rightarrow> string \<Rightarrow> jobj \<Rightarrow> uuid option \<Rightarrow> uuid \<Rightarrow> string option \<Rightarrow>
   trace_db \<Rightarrow> (uuid \<times> bool) \<times> trace_db" where
  "write_event event_id now run_id event_type data task_id principal_id idempotency_key db =
     (case Option.bind idempotency_key (dict_get (db_idempotency_index db)) of
        Some existing \<Rightarrow> ((existing, False), db)
      | None \<Rightarrow>
          ((event_id, True),
           db\<lparr>db_events := db_events db @
                [\<lparr>e_id = event_id, e_run_id = run_id, e_task_id = task_id,
                  e_principal_id = principal_id, e_event_type = event_type, e_data = data,
                  e_idempotency_key = idempotency_key, e_created_at = now\<rparr>],
              db_idempotency_index :=
                (case idempotency_key of
                   None \<Rightarrow> db_idempotency_index db
                 | Some key \<Rightarrow> dict_set key event_id (db_idempotency_index db))\<rparr>))"

definition write_transcript_entry ::
  "uuid \<Rightarrow> time \<Rightarrow> uuid \<Rightarrow> uuid \<Rightarrow> int \<Rightarrow> string \<Rightarrow> string \<Rightarrow> jobj option \<Rightarrow> jobj option \<Rightarrow>
   trace_db \<Rightarrow> trace_db" where
  "write_transcript_entry entry_id now session_id run_id turn role content tool_calls tokens db =
     db\<lparr>db_transcripts := db_transcripts db @
       [\<lparr>x_id = entry_id, x_session_id = session_id, x_run_id = run_id, x_turn = turn, x_role = role,
         x_content = content, x_tool_calls = tool_calls, x_tokens = tokens, x_created_at = now\<rparr>]\<rparr>"

section \<open>Runs and run control\<close>

definition create_run ::
  "time \<Rightarrow> string \<Rightarrow> jobj \<Rightarrow> string \<Rightarrow> uuid \<Rightarrow> uuid \<Rightarrow> trace_db \<Rightarrow> (uuid \<times> trace_db) result" where
  "create_run now intent config autonomy_level run_id created_by db =
     (if dict_get (db_runs db) run_id \<noteq> None then Inl ValueError
      else Inr (run_id,
        db\<lparr>db_runs := dict_set run_id
          \<lparr>r_id = run_id, r_intent = intent, r_config_snapshot = config,
           r_autonomy_level = autonomy_level, r_created_by = created_by, r_status = ''created'',
           r_created_at = now, r_finished_at = None, r_coherence_summary = None,
           r_total_input_tokens = 0, r_total_output_tokens = 0, r_total_reasoning_tokens = 0,
           r_total_cache_read_tokens = 0, r_total_cache_write_tokens = 0,
           r_total_cost_usd = 0\<rparr> (db_runs db)\<rparr>))"

text \<open>The second component is the callback invocation that ends the method, if there is one.\<close>

type_synonym control_call = "callback \<times> uuid \<times> string"

definition transition_run ::
  "uuid \<Rightarrow> time \<Rightarrow> time \<Rightarrow> uuid \<Rightarrow> string \<Rightarrow> string option \<Rightarrow> uuid \<Rightarrow> trace_db \<Rightarrow>
   (trace_db \<times> control_call option) result" where
  "transition_run event_id finished now run_id new_status reason principal_id db =
     (case dict_get (db_runs db) run_id of
        None \<Rightarrow> Inl ValueError
      | Some run \<Rightarrow>
          let old_status = r_status run
          in bind_res (validate_run_transition old_status new_status) (\<lambda>_.
               let run1 = run\<lparr>r_status := new_status\<rparr>;
                   run2 = (if new_status \<in> {''completed'', ''failed'', ''aborted''}
                           then run1\<lparr>r_finished_at := Some finished\<rparr> else run1)
               in Inr (db\<lparr>db_runs := dict_set run_id run2 (db_runs db),
                          db_events := db_events db @
                            [\<lparr>e_id = event_id, e_run_id = Some run_id, e_task_id = None,
                              e_principal_id = principal_id, e_event_type = ''run_transition'',
                              e_data = [(''old_status'', JStr old_status),
                                        (''new_status'', JStr new_status),
                                        (''reason'', opt_json reason)],
                              e_idempotency_key = None, e_created_at = now\<rparr>]\<rparr>,
                       map_option (\<lambda>cb. (cb, run_id, new_status))
                         (dict_get (db_control_callbacks db) run_id))))"

definition write_coherence_summary :: "uuid \<Rightarrow> string \<Rightarrow> trace_db \<Rightarrow> trace_db" where
  "write_coherence_summary run_id summary db =
     (case dict_get (db_runs db) run_id of
        None \<Rightarrow> db
      | Some run \<Rightarrow>
          db\<lparr>db_runs := dict_set run_id (run\<lparr>r_coherence_summary := Some summary\<rparr>) (db_runs db)\<rparr>)"

definition subscribe_run_control ::
  "uuid \<Rightarrow> callback \<Rightarrow> trace_db \<Rightarrow> trace_db \<times> control_call option" where
  "subscribe_run_control run_id cb db =
     (db\<lparr>db_control_callbacks := dict_set run_id cb (db_control_callbacks db)\<rparr>,
      case dict_get (db_runs db) run_id of
        None \<Rightarrow> None
      | Some run \<Rightarrow> if r_status run \<in> {''paused'', ''aborted''} then Some (cb, run_id, r_status run)
                    else None)"

definition unsubscribe_run_control :: "uuid \<Rightarrow> trace_db \<Rightarrow> trace_db" where
  "unsubscribe_run_control run_id db =
     db\<lparr>db_control_callbacks := dict_pop run_id (db_control_callbacks db)\<rparr>"

section \<open>The Overseer's records\<close>

definition write_decision ::
  "uuid \<Rightarrow> time \<Rightarrow> uuid \<Rightarrow> string \<Rightarrow> string \<Rightarrow> string option \<Rightarrow> trace_db \<Rightarrow> uuid \<times> trace_db" where
  "write_decision decision_id now run_id decision_type choice rationale db =
     (decision_id,
      db\<lparr>db_decisions := db_decisions db @
        [\<lparr>d_id = decision_id, d_run_id = run_id, d_decision_type = decision_type, d_choice = choice,
          d_rationale = rationale, d_created_at = now\<rparr>]\<rparr>)"

definition write_constraint ::
  "uuid \<Rightarrow> time \<Rightarrow> uuid \<Rightarrow> string \<Rightarrow> string \<Rightarrow> string \<Rightarrow> jobj option \<Rightarrow> trace_db \<Rightarrow> uuid \<times> trace_db" where
  "write_constraint constraint_id now run_id txt tier kind args db =
     (constraint_id,
      db\<lparr>db_constraints := db_constraints db @
        [\<lparr>c_id = constraint_id, c_run_id = run_id, c_text = txt, c_tier = tier, c_kind = kind,
          c_args = args, c_active = True, c_created_at = now\<rparr>]\<rparr>)"

definition write_assumption ::
  "uuid \<Rightarrow> time \<Rightarrow> uuid \<Rightarrow> string \<Rightarrow> string \<Rightarrow> uuid option \<Rightarrow> trace_db \<Rightarrow> uuid \<times> trace_db" where
  "write_assumption assumption_id now run_id txt scope inbox_item_id db =
     (assumption_id,
      db\<lparr>db_assumptions := db_assumptions db @
        [\<lparr>as_id = assumption_id, as_run_id = run_id, as_text = txt, as_scope = scope,
          as_status = ''active'', as_inbox_item_id = inbox_item_id, as_created_at = now\<rparr>]\<rparr>)"

definition write_lesson ::
  "uuid \<Rightarrow> time \<Rightarrow> uuid \<Rightarrow> string \<Rightarrow> string list \<Rightarrow> bool \<Rightarrow> string list option \<Rightarrow> trace_db \<Rightarrow>
   uuid \<times> trace_db" where
  "write_lesson lesson_id now run_id txt relevance_tags permanent source_files db =
     (lesson_id,
      db\<lparr>db_lessons := db_lessons db @
        [\<lparr>l_id = lesson_id, l_run_id = run_id, l_text = txt, l_relevance_tags = relevance_tags,
          l_permanent = permanent, l_source_files = source_files,
          l_source_file = (case source_files of Some (f # _) \<Rightarrow> Some f | _ \<Rightarrow> None),
          l_created_at = now\<rparr>]\<rparr>)"

definition update_workflow_status ::
  "time \<Rightarrow> uuid \<Rightarrow> string \<Rightarrow> string \<Rightarrow> trace_db \<Rightarrow> trace_db" where
  "update_workflow_status now workflow_id current_step health db =
     db\<lparr>db_workflow_status := dict_set workflow_id
       \<lparr>w_workflow_id = workflow_id, w_current_step = current_step, w_health = health,
        w_updated_at = now\<rparr> (db_workflow_status db)\<rparr>"

definition write_context_diff ::
  "uuid \<Rightarrow> uuid \<Rightarrow> string \<Rightarrow> string \<Rightarrow> trace_db \<Rightarrow> trace_db" where
  "write_context_diff diff_id attempt_id pre_refinement refinement_diff db =
     db\<lparr>db_context_diffs := db_context_diffs db @
       [\<lparr>cd_id = diff_id, cd_attempt_id = attempt_id, cd_pre_refinement = pre_refinement,
         cd_refinement_diff = refinement_diff\<rparr>]\<rparr>"

section \<open>The inbox\<close>

definition create_inbox_item ::
  "uuid \<Rightarrow> time \<Rightarrow> uuid \<Rightarrow> string \<Rightarrow> string \<Rightarrow> jobj list \<Rightarrow> string option \<Rightarrow> string option \<Rightarrow>
   string option \<Rightarrow> string list option \<Rightarrow> time option \<Rightarrow> string option \<Rightarrow> trace_db \<Rightarrow> uuid \<times> trace_db" where
  "create_inbox_item item_id now run_id decision_type question options assumed_option
     work_proceeding contradiction_impact tags deadline answer_event db =
     (item_id,
      db\<lparr>db_inbox_items := dict_set item_id
        \<lparr>in_id = item_id, in_run_id = run_id, in_status = ''pending'',
         in_decision_type = decision_type, in_question = question, in_options = options,
         in_assumed_option = assumed_option, in_work_proceeding = work_proceeding,
         in_contradiction_impact = contradiction_impact,
         in_tags = (case tags of None \<Rightarrow> [] | Some ts \<Rightarrow> ts), in_deadline = deadline,
         in_answer = None, in_answer_event = answer_event, in_rejection_reason = None,
         in_answered_at = None, in_resolved_by = None, in_created_at = now\<rparr> (db_inbox_items db)\<rparr>)"

definition answer_inbox_item ::
  "time \<Rightarrow> uuid \<Rightarrow> string \<Rightarrow> uuid \<Rightarrow> trace_db \<Rightarrow> trace_db result" where
  "answer_inbox_item now item_id answer resolved_by db =
     (case dict_get (db_inbox_items db) item_id of
        None \<Rightarrow> Inl InvalidTransitionError
      | Some item \<Rightarrow>
          if in_status item \<noteq> ''pending'' then Inl InvalidTransitionError
          else Inr (db\<lparr>db_inbox_items := dict_set item_id
                 (item\<lparr>in_status := ''answered'', in_answer := Some answer,
                       in_answered_at := Some now, in_resolved_by := Some resolved_by\<rparr>)
                 (db_inbox_items db)\<rparr>))"

definition skip_inbox_item :: "uuid \<Rightarrow> uuid \<Rightarrow> trace_db \<Rightarrow> trace_db result" where
  "skip_inbox_item item_id resolved_by db =
     (case dict_get (db_inbox_items db) item_id of
        None \<Rightarrow> Inl InvalidTransitionError
      | Some item \<Rightarrow>
          if in_status item \<noteq> ''pending'' then Inl InvalidTransitionError
          else Inr (db\<lparr>db_inbox_items := dict_set item_id
                 (item\<lparr>in_status := ''skipped'', in_resolved_by := Some resolved_by\<rparr>)
                 (db_inbox_items db)\<rparr>))"

definition reject_inbox_item :: "uuid \<Rightarrow> string \<Rightarrow> uuid \<Rightarrow> trace_db \<Rightarrow> trace_db result" where
  "reject_inbox_item item_id reason resolved_by db =
     (case dict_get (db_inbox_items db) item_id of
        None \<Rightarrow> Inl InvalidTransitionError
      | Some item \<Rightarrow>
          if in_status item \<noteq> ''pending'' then Inl InvalidTransitionError
          else Inr (db\<lparr>db_inbox_items := dict_set item_id
                 (item\<lparr>in_status := ''rejected'', in_rejection_reason := Some reason,
                       in_resolved_by := Some resolved_by\<rparr>) (db_inbox_items db)\<rparr>))"

definition expire_inbox_item :: "uuid \<Rightarrow> uuid \<Rightarrow> trace_db \<Rightarrow> trace_db result" where
  "expire_inbox_item item_id resolved_by db =
     (case dict_get (db_inbox_items db) item_id of
        None \<Rightarrow> Inl InvalidTransitionError
      | Some item \<Rightarrow>
          if in_status item \<noteq> ''pending'' then Inl InvalidTransitionError
          else Inr (db\<lparr>db_inbox_items := dict_set item_id
                 (item\<lparr>in_status := ''expired'', in_resolved_by := Some resolved_by\<rparr>)
                 (db_inbox_items db)\<rparr>))"

definition inbox_due :: "time \<Rightarrow> inbox_row \<Rightarrow> bool" where
  "inbox_due now item =
     (in_status item = ''pending'' \<and>
      (case in_deadline item of None \<Rightarrow> False | Some d \<Rightarrow> d < now))"

fun expire_due_loop ::
  "time \<Rightarrow> (uuid \<times> inbox_row) list \<Rightarrow> nat \<Rightarrow> (uuid \<times> inbox_row) list \<times> nat" where
  "expire_due_loop now [] count = ([], count)"
| "expire_due_loop now ((k, item) # items) count =
     (if inbox_due now item
      then (let (rest, n) = expire_due_loop now items (count + 1)
            in ((k, item\<lparr>in_status := ''expired'',
                         in_resolved_by := Some INMEMORY_SYSTEM_PRINCIPAL_ID\<rparr>) # rest, n))
      else (let (rest, n) = expire_due_loop now items count in ((k, item) # rest, n)))"

definition expire_due_inbox_items :: "time \<Rightarrow> trace_db \<Rightarrow> nat \<times> trace_db" where
  "expire_due_inbox_items now db =
     (let (items, count) = expire_due_loop now (db_inbox_items db) 0
      in (count, db\<lparr>db_inbox_items := items\<rparr>))"

section \<open>Notepad, locks, heartbeats and knowledge hashes\<close>

definition write_notepad_entry ::
  "uuid \<Rightarrow> time \<Rightarrow> uuid \<Rightarrow> string \<Rightarrow> string \<Rightarrow> string \<Rightarrow> string \<Rightarrow> trace_db \<Rightarrow> trace_db" where
  "write_notepad_entry entry_id now run_id task_name agent_name entry_type txt db =
     db\<lparr>db_notepad_entries := db_notepad_entries db @
       [\<lparr>n_id = entry_id, n_run_id = run_id, n_task_name = task_name, n_agent_name = agent_name,
         n_entry_type = entry_type, n_text = txt, n_created_at = now\<rparr>]\<rparr>"

definition run_locked :: "uuid \<Rightarrow> trace_db \<Rightarrow> bool" where
  "run_locked run_id db = (dict_get (db_run_locks db) run_id = Some True)"

definition acquire_run_lock :: "uuid \<Rightarrow> trace_db \<Rightarrow> trace_db result" where
  "acquire_run_lock run_id db =
     (if run_locked run_id db then Inl RunLockError
      else Inr (db\<lparr>db_run_locks := dict_set run_id True (db_run_locks db)\<rparr>))"

definition release_run_lock :: "uuid \<Rightarrow> trace_db \<Rightarrow> trace_db" where
  "release_run_lock run_id db = db\<lparr>db_run_locks := dict_pop run_id (db_run_locks db)\<rparr>"

definition update_heartbeat :: "seconds \<Rightarrow> uuid \<Rightarrow> trace_db \<Rightarrow> trace_db" where
  "update_heartbeat monotonic run_id db =
     db\<lparr>db_heartbeats := dict_set run_id monotonic (db_heartbeats db)\<rparr>"

definition is_lock_stale :: "seconds \<Rightarrow> uuid \<Rightarrow> seconds \<Rightarrow> trace_db \<Rightarrow> bool" where
  "is_lock_stale monotonic run_id threshold_seconds db =
     (case dict_get (db_heartbeats db) run_id of
        None \<Rightarrow> True
      | Some last_beat \<Rightarrow> monotonic - last_beat > threshold_seconds)"

definition write_knowledge_hash :: "uuid \<Rightarrow> string \<Rightarrow> string \<Rightarrow> trace_db \<Rightarrow> trace_db" where
  "write_knowledge_hash run_id path file_hash db =
     db\<lparr>db_knowledge_hashes := dict_set run_id
       (dict_set path file_hash
         (case dict_get (db_knowledge_hashes db) run_id of None \<Rightarrow> [] | Some h \<Rightarrow> h))
       (db_knowledge_hashes db)\<rparr>"

section \<open>Crash recovery\<close>

text \<open>
  A recovery loop draws one identifier and one time per row it changes (two times for a run):
  \<open>ids n\<close> and \<open>clock n\<close> are the ones drawn for the \<open>n\<close>-th changed row.
\<close>

definition recovery_event :: "uuid \<Rightarrow> time \<Rightarrow> uuid \<Rightarrow> uuid option \<Rightarrow> string \<Rightarrow> event_row" where
  "recovery_event event_id now run_id task_id action =
     \<lparr>e_id = event_id, e_run_id = Some run_id, e_task_id = task_id,
      e_principal_id = INMEMORY_SYSTEM_PRINCIPAL_ID, e_event_type = ''crash_recovery'',
      e_data = [(''action'', JStr action)], e_idempotency_key = None, e_created_at = now\<rparr>"

definition interrupted :: "task_row \<Rightarrow> bool" where
  "interrupted task = (t_status task \<in> {''active'', ''prechecking'', ''postchecking''})"

fun reclaim_loop ::
  "(nat \<Rightarrow> uuid) \<Rightarrow> (nat \<Rightarrow> time) \<Rightarrow> (uuid \<times> task_row) list \<Rightarrow> nat \<Rightarrow>
   (uuid \<times> task_row) list \<times> event_row list \<times> nat" where
  "reclaim_loop ids clock [] n = ([], [], n)"
| "reclaim_loop ids clock ((k, task) # rest) n =
     (if interrupted task
      then (let (ts, es, m) = reclaim_loop ids clock rest (n + 1)
            in ((k, task\<lparr>t_status := ''cancelled''\<rparr>) # ts,
                recovery_event (ids n) (clock n) (t_run_id task) (Some (t_id task)) ''reclaim_interrupted'' # es,
                m))
      else (let (ts, es, m) = reclaim_loop ids clock rest n in ((k, task) # ts, es, m)))"

definition reclaim_interrupted ::
  "(nat \<Rightarrow> uuid) \<Rightarrow> (nat \<Rightarrow> time) \<Rightarrow> trace_db \<Rightarrow> nat \<times> trace_db" where
  "reclaim_interrupted ids clock db =
     (let (ts, es, reclaimed) = reclaim_loop ids clock (db_tasks db) 0
      in (reclaimed, db\<lparr>db_tasks := ts, db_events := db_events db @ es\<rparr>))"

definition orphaned :: "trace_db \<Rightarrow> run_row \<Rightarrow> bool" where
  "orphaned db run =
     (r_status run \<in> {''running'', ''paused''} \<and> \<not> run_locked (r_id run) db)"

fun clean_loop ::
  "(nat \<Rightarrow> uuid) \<Rightarrow> (nat \<Rightarrow> time \<times> time) \<Rightarrow> trace_db \<Rightarrow> (uuid \<times> run_row) list \<Rightarrow> nat \<Rightarrow>
   (uuid \<times> run_row) list \<times> event_row list \<times> nat" where
  "clean_loop ids clock db [] n = ([], [], n)"
| "clean_loop ids clock db ((k, run) # rest) n =
     (if orphaned db run
      then (let (rs, es, m) = clean_loop ids clock db rest (n + 1)
            in ((k, run\<lparr>r_status := ''failed'', r_finished_at := Some (fst (clock n))\<rparr>) # rs,
                recovery_event (ids n) (snd (clock n)) (r_id run) None ''clean_orphaned'' # es,
                m))
      else (let (rs, es, m) = clean_loop ids clock db rest n in ((k, run) # rs, es, m)))"

definition clean_orphaned ::
  "(nat \<Rightarrow> uuid) \<Rightarrow> (nat \<Rightarrow> time \<times> time) \<Rightarrow> trace_db \<Rightarrow> nat \<times> trace_db" where
  "clean_orphaned ids clock db =
     (let (rs, es, cleaned) = clean_loop ids clock db (db_runs db) 0
      in (cleaned, db\<lparr>db_runs := rs, db_events := db_events db @ es\<rparr>))"

end
