(* ===== verification/Trace_Reader.thy ===== *)
theory Trace_Reader
  imports Trace_Storage
begin

text \<open>
  The read side of \<open>InMemoryBackend\<close> (\<open>trace/_memory_backend.py\<close>, \<open>StorageReader\<close> and the read
  half of \<open>RecoveryOperations\<close>) and the event bus of the same file. Typed results are the
  records of \<open>trace/_types.py\<close>; a result that the code validates field by field from a row is
  the row itself.
\<close>

section \<open>Result types and loops\<close>

record task_summary =
  ts_id :: uuid
  ts_name :: string
  ts_status :: string
  ts_task_type :: string
  ts_parent_task_id :: "uuid option"
  ts_attempt_count :: nat

record run_summary =
  rs_id :: uuid
  rs_intent :: string
  rs_status :: string
  rs_created_at :: time
  rs_finished_at :: "time option"
  rs_created_by :: uuid

record run_report =
  rr_run :: run_row
  rr_tasks :: "task_summary list"
  rr_decisions :: "decision_row list"
  rr_constraints :: "constraint_row list"
  rr_assumptions :: "assumption_row list"

text \<open>\<open>xs[:n]\<close> for any Python integer.\<close>

definition py_take :: "int \<Rightarrow> 'a list \<Rightarrow> 'a list" where
  "py_take n xs = (if n < 0 then take (length xs - nat (- n)) xs else take (nat n) xs)"

text \<open>\<open>max(xs, key=f)\<close> on a non-empty list: the first of the largest.\<close>

fun max_by :: "('a \<Rightarrow> int) \<Rightarrow> 'a \<Rightarrow> 'a list \<Rightarrow> 'a" where
  "max_by f best [] = best"
| "max_by f best (x # xs) = max_by f (if f best < f x then x else best) xs"

section \<open>Tasks, attempts, iterations\<close>

definition list_tasks :: "uuid \<Rightarrow> trace_db \<Rightarrow> task_summary list" where
  "list_tasks run_id db =
     map (\<lambda>task. \<lparr>ts_id = t_id task, ts_name = t_name task, ts_status = t_status task,
                  ts_task_type = t_task_type task, ts_parent_task_id = t_parent_task_id task,
                  ts_attempt_count =
                    length (filter (\<lambda>a. a_task_id a = t_id task) (dict_values (db_task_attempts db)))\<rparr>)
       (filter (\<lambda>task. t_run_id task = run_id) (dict_values (db_tasks db)))"

definition read_task_attempt :: "uuid \<Rightarrow> int \<Rightarrow> trace_db \<Rightarrow> attempt_row option" where
  "read_task_attempt task_id attempt db =
     find (\<lambda>att. a_task_id att = task_id \<and> a_attempt att = attempt) (dict_values (db_task_attempts db))"

definition attempts_of :: "uuid \<Rightarrow> trace_db \<Rightarrow> attempt_row list" where
  "attempts_of task_id db =
     filter (\<lambda>a. a_task_id a = task_id) (dict_values (db_task_attempts db))"

definition read_latest_attempt :: "uuid \<Rightarrow> trace_db \<Rightarrow> attempt_row option" where
  "read_latest_attempt task_id db =
     (case attempts_of task_id db of [] \<Rightarrow> None | a # as \<Rightarrow> Some (max_by a_attempt a as))"

definition read_task_attempts :: "uuid \<Rightarrow> trace_db \<Rightarrow> attempt_row list" where
  "read_task_attempts task_id db = sort_key a_attempt (attempts_of task_id db)"

definition list_iterations :: "uuid \<Rightarrow> trace_db \<Rightarrow> iteration_row list" where
  "list_iterations task_id db =
     sort_key i_iteration_index
       (filter (\<lambda>it. i_task_id it = task_id) (dict_values (db_iterations db)))"

section \<open>Transcripts\<close>

definition read_transcript :: "uuid \<Rightarrow> trace_db \<Rightarrow> transcript_row list" where
  "read_transcript session_id db = filter (\<lambda>t. x_session_id t = session_id) (db_transcripts db)"

definition search_transcript :: "uuid \<Rightarrow> string \<Rightarrow> trace_db \<Rightarrow> transcript_row list" where
  "search_transcript session_id query db =
     filter (\<lambda>t. x_session_id t = session_id \<and> str_contains (str_lower query) (str_lower (x_content t)))
       (db_transcripts db)"

definition read_session_token_counts :: "uuid \<Rightarrow> trace_db \<Rightarrow> jobj list" where
  "read_session_token_counts session_id db =
     List.map_filter (\<lambda>t. if x_session_id t = session_id then x_tokens t else None) (db_transcripts db)"

definition read_session_turn_count :: "uuid \<Rightarrow> trace_db \<Rightarrow> nat" where
  "read_session_turn_count session_id db = length (read_transcript session_id db)"

section \<open>Runs, inbox, notepad\<close>

definition read_run_report :: "uuid \<Rightarrow> trace_db \<Rightarrow> run_report option" where
  "read_run_report run_id db =
     (case dict_get (db_runs db) run_id of
        None \<Rightarrow> None
      | Some run \<Rightarrow>
          Some \<lparr>rr_run = run, rr_tasks = list_tasks run_id db,
                rr_decisions = filter (\<lambda>d. d_run_id d = run_id) (db_decisions db),
                rr_constraints = filter (\<lambda>c. c_run_id c = run_id) (db_constraints db),
                rr_assumptions = filter (\<lambda>a. as_run_id a = run_id) (db_assumptions db)\<rparr>)"

definition list_runs :: "trace_db \<Rightarrow> run_summary list" where
  "list_runs db =
     map (\<lambda>run. \<lparr>rs_id = r_id run, rs_intent = r_intent run, rs_status = r_status run,
                 rs_created_at = r_created_at run, rs_finished_at = r_finished_at run,
                 rs_created_by = r_created_by run\<rparr>)
       (rev (dict_values (db_runs db)))"

definition read_run_config :: "uuid \<Rightarrow> trace_db \<Rightarrow> jobj option" where
  "read_run_config run_id db = map_option r_config_snapshot (dict_get (db_runs db) run_id)"

definition read_inbox :: "uuid \<Rightarrow> string option \<Rightarrow> trace_db \<Rightarrow> inbox_row list" where
  "read_inbox run_id status db =
     sort_key in_created_at
       (filter (\<lambda>item. in_run_id item = run_id \<and>
                       (case status of None \<Rightarrow> True | Some s \<Rightarrow> in_status item = s))
         (dict_values (db_inbox_items db)))"

definition read_inbox_item :: "uuid \<Rightarrow> trace_db \<Rightarrow> inbox_row option" where
  "read_inbox_item item_id db = dict_get (db_inbox_items db) item_id"

definition read_notepad :: "uuid \<Rightarrow> trace_db \<Rightarrow> notepad_row list" where
  "read_notepad run_id db = filter (\<lambda>entry. n_run_id entry = run_id) (db_notepad_entries db)"

section \<open>The Overseer's records\<close>

definition read_active_constraints :: "uuid \<Rightarrow> trace_db \<Rightarrow> constraint_row list" where
  "read_active_constraints run_id db = filter (\<lambda>c. c_run_id c = run_id) (db_constraints db)"

definition read_decisions :: "uuid \<Rightarrow> int \<Rightarrow> trace_db \<Rightarrow> decision_row list" where
  "read_decisions run_id limit db =
     py_take limit (rev (filter (\<lambda>d. d_run_id d = run_id) (db_decisions db)))"

definition read_constraints :: "uuid \<Rightarrow> bool \<Rightarrow> trace_db \<Rightarrow> constraint_row list" where
  "read_constraints run_id active_only db =
     filter (\<lambda>c. c_run_id c = run_id \<and> \<not> (active_only \<and> \<not> c_active c)) (rev (db_constraints db))"

definition read_assumptions :: "uuid \<Rightarrow> string option \<Rightarrow> trace_db \<Rightarrow> assumption_row list" where
  "read_assumptions run_id status db =
     filter (\<lambda>a. as_run_id a = run_id \<and> (case status of None \<Rightarrow> True | Some s \<Rightarrow> as_status a = s))
       (rev (db_assumptions db))"

definition tags_meet :: "string list \<Rightarrow> lesson_row \<Rightarrow> bool" where
  "tags_meet tags lesson = list_ex (\<lambda>t. t \<in> set (l_relevance_tags lesson)) tags"

definition query_relevant_lessons :: "string list \<Rightarrow> trace_db \<Rightarrow> lesson_row list" where
  "query_relevant_lessons tags db = filter (tags_meet tags) (rev (db_lessons db))"

definition query_lessons ::
  "uuid option \<Rightarrow> string list option \<Rightarrow> bool \<Rightarrow> trace_db \<Rightarrow> lesson_row list" where
  "query_lessons run_id tags permanent_only db =
     filter (\<lambda>lesson. (case run_id of None \<Rightarrow> True | Some r \<Rightarrow> l_run_id lesson = r) \<and>
                      \<not> (permanent_only \<and> \<not> l_permanent lesson) \<and>
                      (case tags of None \<Rightarrow> True | Some ts \<Rightarrow> tags_meet ts lesson))
       (rev (db_lessons db))"

definition read_workflow_status :: "uuid \<Rightarrow> trace_db \<Rightarrow> workflow_status_row option" where
  "read_workflow_status workflow_id db = dict_get (db_workflow_status db) workflow_id"

definition read_knowledge_hashes :: "uuid \<Rightarrow> trace_db \<Rightarrow> (string, string) dict" where
  "read_knowledge_hashes run_id db =
     (case dict_get (db_knowledge_hashes db) run_id of None \<Rightarrow> [] | Some h \<Rightarrow> h)"

section \<open>Events\<close>

definition event_matches :: "uuid \<Rightarrow> string option \<Rightarrow> time option \<Rightarrow> event_row \<Rightarrow> bool" where
  "event_matches run_id event_type since ev =
     (e_run_id ev = Some run_id \<and>
      (case event_type of None \<Rightarrow> True | Some t \<Rightarrow> e_event_type ev = t) \<and>
      (case since of None \<Rightarrow> True | Some s \<Rightarrow> \<not> e_created_at ev < s))"

text \<open>The loop appends a match first and compares the length with the limit afterwards.\<close>

fun query_loop :: "('a \<Rightarrow> bool) \<Rightarrow> int \<Rightarrow> 'a list \<Rightarrow> 'a list \<Rightarrow> 'a list" where
  "query_loop P limit [] results = results"
| "query_loop P limit (ev # evs) results =
     (if \<not> P ev then query_loop P limit evs results
      else if int (length (results @ [ev])) \<ge> limit then results @ [ev]
      else query_loop P limit evs (results @ [ev]))"

definition query_events ::
  "uuid \<Rightarrow> string option \<Rightarrow> time option \<Rightarrow> int \<Rightarrow> trace_db \<Rightarrow> event_row list" where
  "query_events run_id event_type since limit db =
     query_loop (event_matches run_id event_type since) limit (db_events db) []"

definition replay ::
  "string list option \<Rightarrow> uuid option \<Rightarrow> uuid option \<Rightarrow> int \<Rightarrow> trace_db \<Rightarrow> event_row list" where
  "replay event_types principal_id since_id limit db =
     py_take limit (sort_key e_id
       (filter (\<lambda>ev. (case event_types of None \<Rightarrow> True | Some ts \<Rightarrow> e_event_type ev \<in> set ts) \<and>
                     (case principal_id of None \<Rightarrow> True | Some p \<Rightarrow> e_principal_id ev = p) \<and>
                     (case since_id of None \<Rightarrow> True | Some s \<Rightarrow> \<not> e_id ev \<le> s))
         (db_events db)))"

section \<open>Recovery\<close>

definition reevaluate_blocked :: "trace_db \<Rightarrow> uuid list" where
  "reevaluate_blocked db =
     map t_id (filter (\<lambda>task. t_status task = ''created'' \<and>
                 (case t_parent_task_id task of
                    None \<Rightarrow> True
                  | Some parent_id \<Rightarrow>
                      (case dict_get (db_tasks db) parent_id of
                         None \<Rightarrow> False
                       | Some parent \<Rightarrow> t_status parent = ''completed'')))
       (dict_values (db_tasks db)))"

section \<open>The event bus\<close>

text \<open>
  \<open>InMemoryEventBus\<close>: subscribers per channel in order of subscription; \<open>publish\<close> returns the
  callbacks it calls, in the order it calls them.
\<close>

type_synonym event_bus = "(string, callback list) dict"

definition bus_subscribe :: "string \<Rightarrow> callback \<Rightarrow> event_bus \<Rightarrow> event_bus" where
  "bus_subscribe channel cb bus =
     dict_set channel ((case dict_get bus channel of None \<Rightarrow> [] | Some cbs \<Rightarrow> cbs) @ [cb]) bus"

definition bus_unsubscribe :: "string \<Rightarrow> callback \<Rightarrow> event_bus \<Rightarrow> event_bus" where
  "bus_unsubscribe channel cb bus =
     (case dict_get bus channel of
        None \<Rightarrow> bus
      | Some cbs \<Rightarrow>
          let cbs' = remove1 cb cbs
          in if cbs' = [] then dict_pop channel bus else dict_set channel cbs' bus)"

definition bus_publish :: "string \<Rightarrow> string \<Rightarrow> event_bus \<Rightarrow> (callback \<times> string) list" where
  "bus_publish channel payload bus =
     map (\<lambda>cb. (cb, payload)) (case dict_get bus channel of None \<Rightarrow> [] | Some cbs \<Rightarrow> cbs)"

section \<open>Lemmas\<close>

lemma max_by_in: "max_by f best xs \<in> insert best (set xs)"
  by (induction xs arbitrary: best) (auto split: if_splits)

lemma max_by_best: "f best \<le> f (max_by f best xs)"
proof (induction xs arbitrary: best)
  case (Cons y ys)
  show ?case using Cons [of "if f best < f y then y else best"] by (auto split: if_splits)
qed simp

lemma max_by_max: "x \<in> set xs \<Longrightarrow> f x \<le> f (max_by f best xs)"
proof (induction xs arbitrary: best)
  case (Cons y ys)
  show ?case
  proof (cases "x = y")
    case True
    then show ?thesis
      using max_by_best [of f "if f best < f y then y else best" ys] by (auto split: if_splits)
  qed (use Cons in auto)
qed simp

lemma sorted_le_last: "sorted xs \<Longrightarrow> x \<in> set xs \<Longrightarrow> x \<le> last xs"
  by (induction xs) auto

lemma query_loop_take:
  "query_loop P limit evs results = results @ take (max 1 (nat (limit - int (length results)))) (filter P evs)"
proof (induction evs arbitrary: results)
  case (Cons e es)
  show ?case
  proof (cases "P e \<and> int (length (results @ [e])) < limit")
    case True
    then have "nat (limit - int (length results)) = Suc (nat (limit - int (length (results @ [e]))))"
      "nat (limit - int (length (results @ [e]))) \<ge> 1" by auto
    with True show ?thesis by (simp add: Cons.IH max_def)
  next
    case False
    then have "P e \<Longrightarrow> max 1 (nat (limit - int (length results))) = 1" by auto
    with False show ?thesis by (cases "P e") (auto simp: Cons.IH)
  qed
qed simp

lemma bus_publish_subscribe:
  "bus_publish ch p (bus_subscribe ch' cb bus) = bus_publish ch p bus @ (if ch = ch' then [(cb, p)] else [])"
  by (auto simp: bus_publish_def bus_subscribe_def split: option.splits)

lemma bus_unsubscribe_other: "ch \<noteq> ch' \<Longrightarrow> bus_publish ch p (bus_unsubscribe ch' cb bus) = bus_publish ch p bus"
  by (auto simp: bus_publish_def bus_unsubscribe_def Let_def split: option.splits)

section \<open>Properties\<close>

text \<open>
  \<open>query_events\<close> returns the first matching events in the order they were
  written, at most \<open>limit\<close> of them; because the loop compares after appending, a limit of zero
  or less behaves as a limit of one.
\<close>

theorem query_events_take:
  "query_events run_id event_type since limit db =
     take (nat (max 1 limit)) (filter (event_matches run_id event_type since) (db_events db))"
  by (simp add: query_events_def query_loop_take max_def nat_eq_iff)

text \<open>
  The latest attempt read for a task is one of its attempts and has the largest
  attempt number; it is missing exactly when the task has no attempts, and it is the last of the
  ordered attempts up to the attempt number.
\<close>

theorem read_latest_attempt_spec:
  "case read_latest_attempt task_id db of
     None \<Rightarrow> read_task_attempts task_id db = []
   | Some att \<Rightarrow> att \<in> set (read_task_attempts task_id db) \<and> a_task_id att = task_id \<and>
       list_all (\<lambda>a. a_attempt a \<le> a_attempt att) (read_task_attempts task_id db) \<and>
       a_attempt (last (read_task_attempts task_id db)) = a_attempt att"
proof (cases "attempts_of task_id db")
  case Nil
  then show ?thesis by (simp add: read_latest_attempt_def read_task_attempts_def)
next
  case (Cons a as)
  let ?m = "max_by a_attempt a as" and ?s = "read_task_attempts task_id db"
  have set_s: "set ?s = set (a # as)" unfolding read_task_attempts_def set_sort by (simp add: Cons)
  have in_set: "?m \<in> set ?s" using max_by_in [of a_attempt a as] set_s by simp
  have ge: "a_attempt x \<le> a_attempt ?m" if "x \<in> set ?s" for x
    using that set_s by (auto intro: max_by_max max_by_best)
  have ne: "?s \<noteq> []" using in_set by auto
  have "a_attempt ?m \<le> last (map a_attempt ?s)"
    using in_set by (intro sorted_le_last) (auto simp: read_task_attempts_def)
  then have last: "a_attempt (last ?s) = a_attempt ?m"
    using ne ge [of "last ?s"] by (simp add: last_map)
  have "a_task_id ?m = task_id"
    using in_set by (simp add: read_task_attempts_def attempts_of_def)
  then show ?thesis using Cons in_set ge last by (simp add: read_latest_attempt_def list_all_iff)
qed

end
