(* ===== verification/Trace_Invariants.thy ===== *)
theory Trace_Invariants
  imports Trace_Reader
begin

text \<open>
  Runs of the storage backend: a step relation with one rule per writing operation of
  \<open>InMemoryBackend\<close>, the reachable states, and the invariants that hold in all of them. The
  identifiers an operation draws are fresh, which is what \<open>uuid7\<close> documents. The relation takes
  the event types that callers write through \<open>write_event\<close> as a parameter: general invariants
  hold for every choice, the audit trail needs the three types the backend writes itself to be
  left to it.
\<close>

section \<open>Steps and reachable states\<close>

definition fresh :: "uuid \<Rightarrow> trace_db \<Rightarrow> bool" where
  "fresh u db =
     (dict_get (db_tasks db) u = None \<and> dict_get (db_task_attempts db) u = None \<and>
      dict_get (db_iterations db) u = None \<and> dict_get (db_inbox_items db) u = None \<and>
      u \<notin> e_id ` set (db_events db))"

definition fresh_supply :: "(nat \<Rightarrow> uuid) \<Rightarrow> trace_db \<Rightarrow> bool" where
  "fresh_supply ids db = (inj ids \<and> (\<forall>n. fresh (ids n) db))"

inductive trace_step :: "(string \<Rightarrow> bool) \<Rightarrow> trace_db \<Rightarrow> trace_db \<Rightarrow> bool" for allowed where
  st_create_task:
    "create_task u now run parent nm ty cfg db = (v, db') \<Longrightarrow> fresh u db \<Longrightarrow> trace_step allowed db db'"
| st_transition_task:
    "transition_task u now tid st reason p db = Inr db' \<Longrightarrow> fresh u db \<Longrightarrow> trace_step allowed db db'"
| st_create_task_attempt:
    "create_task_attempt u tid n db = (v, db') \<Longrightarrow> fresh u db \<Longrightarrow> trace_step allowed db db'"
| st_complete_task_attempt:
    "complete_task_attempt aid out so cr cv sid it ot rt crt cwt cost dur db = Inr db' \<Longrightarrow> trace_step allowed db db'"
| st_fail_task_attempt:
    "fail_task_attempt aid err sid it ot rt crt cwt cost dur db = Inr db' \<Longrightarrow> trace_step allowed db db'"
| st_create_iteration:
    "create_iteration u now tid i v db = (w, db') \<Longrightarrow> fresh u db \<Longrightarrow> trace_step allowed db db'"
| st_complete_iteration:
    "complete_iteration now iid out so crs db = Inr db' \<Longrightarrow> trace_step allowed db db'"
| st_fail_iteration:
    "fail_iteration now iid err db = Inr db' \<Longrightarrow> trace_step allowed db db'"
| st_write_event:
    "write_event u now run ty data tid p key db = (r, db') \<Longrightarrow> fresh u db \<Longrightarrow> allowed ty \<Longrightarrow> trace_step allowed db db'"
| st_write_transcript_entry:
    "trace_step allowed db (write_transcript_entry u now sid run turn role content tc tok db)"
| st_create_run:
    "create_run now intent cfg lvl run by' db = Inr (v, db') \<Longrightarrow> trace_step allowed db db'"
| st_transition_run:
    "transition_run u fin now run st reason p db = Inr (db', call) \<Longrightarrow> fresh u db \<Longrightarrow> trace_step allowed db db'"
| st_write_coherence_summary:
    "trace_step allowed db (write_coherence_summary run summary db)"
| st_subscribe_run_control:
    "subscribe_run_control run cb db = (db', call) \<Longrightarrow> trace_step allowed db db'"
| st_unsubscribe_run_control:
    "trace_step allowed db (unsubscribe_run_control run db)"
| st_write_decision: "write_decision u now run ty ch ra db = (v, db') \<Longrightarrow> trace_step allowed db db'"
| st_write_constraint: "write_constraint u now run txt tier kind args db = (v, db') \<Longrightarrow> trace_step allowed db db'"
| st_write_assumption: "write_assumption u now run txt scope iid db = (v, db') \<Longrightarrow> trace_step allowed db db'"
| st_write_lesson: "write_lesson u now run txt tags perm files db = (v, db') \<Longrightarrow> trace_step allowed db db'"
| st_update_workflow_status: "trace_step allowed db (update_workflow_status now w stp health db)"
| st_write_context_diff: "trace_step allowed db (write_context_diff u aid pre diff db)"
| st_create_inbox_item:
    "create_inbox_item u now run ty q opts ao wp ci tags dl ae db = (v, db') \<Longrightarrow> fresh u db \<Longrightarrow> trace_step allowed db db'"
| st_answer_inbox_item: "answer_inbox_item now iid ans by' db = Inr db' \<Longrightarrow> trace_step allowed db db'"
| st_skip_inbox_item: "skip_inbox_item iid by' db = Inr db' \<Longrightarrow> trace_step allowed db db'"
| st_reject_inbox_item: "reject_inbox_item iid reason' by' db = Inr db' \<Longrightarrow> trace_step allowed db db'"
| st_expire_inbox_item: "expire_inbox_item iid by' db = Inr db' \<Longrightarrow> trace_step allowed db db'"
| st_expire_due: "expire_due_inbox_items now db = (n, db') \<Longrightarrow> trace_step allowed db db'"
| st_write_notepad_entry: "trace_step allowed db (write_notepad_entry u now run tn an et txt db)"
| st_acquire_run_lock: "acquire_run_lock run db = Inr db' \<Longrightarrow> trace_step allowed db db'"
| st_release_run_lock: "trace_step allowed db (release_run_lock run db)"
| st_update_heartbeat: "trace_step allowed db (update_heartbeat m run db)"
| st_write_knowledge_hash: "trace_step allowed db (write_knowledge_hash run path h db)"
| st_reclaim_interrupted:
    "reclaim_interrupted ids clock db = (n, db') \<Longrightarrow> fresh_supply ids db \<Longrightarrow> trace_step allowed db db'"
| st_clean_orphaned:
    "clean_orphaned ids clock2 db = (n, db') \<Longrightarrow> fresh_supply ids db \<Longrightarrow> trace_step allowed db db'"

inductive trace_reachable :: "(string \<Rightarrow> bool) \<Rightarrow> trace_db \<Rightarrow> bool" for allowed where
  tr_start: "trace_reachable allowed empty_db"
| tr_step: "trace_reachable allowed db \<Longrightarrow> trace_step allowed db db' \<Longrightarrow> trace_reachable allowed db'"

section \<open>What each step changes\<close>

lemmas task_op_defs = create_task_def create_task_attempt_def complete_task_attempt_def
  fail_task_attempt_def create_iteration_def complete_iteration_def fail_iteration_def

lemmas log_op_defs = write_transcript_entry_def write_decision_def write_constraint_def
  write_assumption_def write_lesson_def update_workflow_status_def write_context_diff_def
  write_notepad_entry_def acquire_run_lock_def release_run_lock_def update_heartbeat_def
  write_knowledge_hash_def subscribe_run_control_def unsubscribe_run_control_def

lemmas inbox_op_defs = create_inbox_item_def answer_inbox_item_def skip_inbox_item_def
  reject_inbox_item_def expire_inbox_item_def expire_due_inbox_items_def

lemmas run_op_defs = create_run_def transition_run_def write_coherence_summary_def
  clean_orphaned_def

lemmas trace_op_defs = task_op_defs log_op_defs inbox_op_defs run_op_defs transition_task_def
  write_event_def reclaim_interrupted_def

text \<open>The loops of recovery and expiry as maps over the dictionary.\<close>

definition reclaim_row :: "task_row \<Rightarrow> task_row" where
  "reclaim_row t = (if interrupted t then t\<lparr>t_status := ''cancelled''\<rparr> else t)"

lemma reclaimed_not_interrupted [simp]: "\<not> interrupted (reclaim_row t)"
  by (simp add: reclaim_row_def interrupted_def)

lemma reclaim_loop_tasks: "fst (reclaim_loop ids clock d n) = dict_map reclaim_row d"
  by (induction ids clock d n rule: reclaim_loop.induct)
    (auto simp: dict_map_def reclaim_row_def split: prod.splits)

lemma reclaim_loop_count:
  "snd (snd (reclaim_loop ids clock d n)) = n + length (filter (interrupted \<circ> snd) d)"
  by (induction ids clock d n rule: reclaim_loop.induct) (auto split: prod.splits)

lemma reclaim_loop_events:
  "map (\<lambda>e. (e_task_id e, e_run_id e)) (fst (snd (reclaim_loop ids clock d n))) =
   map (\<lambda>(k, t). (Some (t_id t), Some (t_run_id t))) (filter (interrupted \<circ> snd) d)"
  by (induction ids clock d n rule: reclaim_loop.induct)
    (auto simp: recovery_event_def split: prod.splits)

lemma recovery_event_sel [simp]:
  "e_id (recovery_event u now run tid action) = u"
  "e_task_id (recovery_event u now run tid action) = tid"
  "e_event_type (recovery_event u now run tid action) = ''crash_recovery''"
  "e_idempotency_key (recovery_event u now run tid action) = None"
  by (simp_all add: recovery_event_def)

lemma reclaim_loop_kind:
  "list_all (\<lambda>e. e_event_type e = ''crash_recovery'' \<and> e_idempotency_key e = None)
     (fst (snd (reclaim_loop ids clock d n)))"
  by (induction ids clock d n rule: reclaim_loop.induct) (auto split: prod.splits)

lemma clean_loop_kind:
  "list_all (\<lambda>e. e_event_type e = ''crash_recovery'' \<and> e_idempotency_key e = None \<and> e_task_id e = None)
     (fst (snd (clean_loop ids clock2 db d n)))"
  by (induction ids clock2 db d n rule: clean_loop.induct) (auto split: prod.splits)

lemma reclaim_loop_mono: "n \<le> snd (snd (reclaim_loop ids clock d n))"
  by (induction ids clock d n rule: reclaim_loop.induct) (auto split: prod.splits)

lemma clean_loop_mono: "n \<le> snd (snd (clean_loop ids clock2 db d n))"
  by (induction ids clock2 db d n rule: clean_loop.induct) (auto split: prod.splits)

lemma reclaim_loop_ids:
  "map e_id (fst (snd (reclaim_loop ids clock d n))) = map ids [n ..< snd (snd (reclaim_loop ids clock d n))]"
proof (induction ids clock d n rule: reclaim_loop.induct)
  case (2 ids clock k task rest n)
  then show ?case
    using reclaim_loop_mono [of "n + 1" ids clock rest] by (auto simp: upt_conv_Cons split: prod.splits)
qed simp

lemma clean_loop_ids:
  "map e_id (fst (snd (clean_loop ids clock2 db d n))) = map ids [n ..< snd (snd (clean_loop ids clock2 db d n))]"
proof (induction ids clock2 db d n rule: clean_loop.induct)
  case (2 ids clock db k run rest n)
  then show ?case
    using clean_loop_mono [of "n + 1" ids clock db rest] by (auto simp: upt_conv_Cons split: prod.splits)
qed simp

lemma clean_loop_keys: "map fst (fst (clean_loop ids clock2 db d n)) = map fst d"
  by (induction ids clock2 db d n rule: clean_loop.induct) (auto split: prod.splits)

lemma clean_loop_rows:
  "(k, r') \<in> set (fst (clean_loop ids clock2 db d n)) \<Longrightarrow>
   \<exists>r. (k, r) \<in> set d \<and>
      (r' = r \<and> \<not> orphaned db r \<or>
       orphaned db r \<and> (\<exists>f. r' = r\<lparr>r_status := ''failed'', r_finished_at := Some f\<rparr>))"
  by (induction ids clock2 db d n arbitrary: r' rule: clean_loop.induct) (fastforce split: prod.splits if_splits)+

definition expire_row :: "time \<Rightarrow> inbox_row \<Rightarrow> inbox_row" where
  "expire_row now item =
     (if inbox_due now item
      then item\<lparr>in_status := ''expired'', in_resolved_by := Some INMEMORY_SYSTEM_PRINCIPAL_ID\<rparr>
      else item)"

lemma expire_due_loop_map:
  "expire_due_loop now d n = (dict_map (expire_row now) d, n + length (filter (inbox_due now \<circ> snd) d))"
  by (induction now d n rule: expire_due_loop.induct) (auto simp: dict_map_def expire_row_def)

section \<open>Invariants\<close>

definition task_ok :: "uuid \<Rightarrow> task_row \<Rightarrow> bool" where
  "task_ok k t = (t_id t = k \<and> t_status t \<in> set task_states)"

definition run_ok :: "uuid \<Rightarrow> run_row \<Rightarrow> bool" where
  "run_ok k r =
     (r_id r = k \<and> r_status r \<in> set run_states \<and>
      (r_finished_at r \<noteq> None \<longleftrightarrow> r_status r \<in> set RUN_TERMINAL_STATES))"

definition inbox_ok :: "uuid \<Rightarrow> inbox_row \<Rightarrow> bool" where
  "inbox_ok k item =
     (in_id item = k \<and>
      in_status item \<in> {''pending'', ''answered'', ''skipped'', ''rejected'', ''expired''} \<and>
      (in_resolved_by item = None \<longleftrightarrow> in_status item = ''pending'') \<and>
      (in_answer item \<noteq> None \<longleftrightarrow> in_status item = ''answered'') \<and>
      (in_answered_at item \<noteq> None \<longleftrightarrow> in_status item = ''answered'') \<and>
      (in_rejection_reason item \<noteq> None \<longleftrightarrow> in_status item = ''rejected''))"

definition rows_inv :: "trace_db \<Rightarrow> bool" where
  "rows_inv db =
     (dict_wf (db_tasks db) \<and> dict_all task_ok (db_tasks db) \<and>
      dict_wf (db_runs db) \<and> dict_all run_ok (db_runs db) \<and>
      dict_wf (db_inbox_items db) \<and> dict_all inbox_ok (db_inbox_items db))"

definition event_keys :: "event_row list \<Rightarrow> string list" where
  "event_keys es = List.map_filter e_idempotency_key es"

definition keys_inv :: "trace_db \<Rightarrow> bool" where
  "keys_inv db =
     (distinct (event_keys (db_events db)) \<and> distinct (map e_id (db_events db)) \<and>
      (\<forall>key u. dict_get (db_idempotency_index db) key = Some u \<longleftrightarrow>
         (\<exists>e \<in> set (db_events db). e_idempotency_key e = Some key \<and> e_id e = u)))"

lemma task_ok_new: "t_id t = k \<Longrightarrow> t_status t = ''created'' \<Longrightarrow> task_ok k t"
  by (simp add: task_ok_def task_states_def)

lemma run_ok_new: "r_id r = k \<Longrightarrow> r_status r = ''created'' \<Longrightarrow> r_finished_at r = None \<Longrightarrow> run_ok k r"
  by (simp add: run_ok_def run_states_def RUN_TERMINAL_STATES_def)

lemma inbox_ok_new:
  "in_id i = k \<Longrightarrow> in_status i = ''pending'' \<Longrightarrow> in_answer i = None \<Longrightarrow> in_answered_at i = None \<Longrightarrow>
   in_rejection_reason i = None \<Longrightarrow> in_resolved_by i = None \<Longrightarrow> inbox_ok k i"
  by (simp add: inbox_ok_def)

lemma task_ok_reclaim: "task_ok k t \<Longrightarrow> task_ok k (reclaim_row t)"
  by (simp add: task_ok_def reclaim_row_def task_states_def)

lemma inbox_ok_resolve:
  assumes "inbox_ok k i" "in_status i = ''pending''"
  shows "inbox_ok k (i\<lparr>in_status := ''answered'', in_answer := Some ans, in_answered_at := Some now, in_resolved_by := Some p\<rparr>)"
    and "inbox_ok k (i\<lparr>in_status := ''skipped'', in_resolved_by := Some p\<rparr>)"
    and "inbox_ok k (i\<lparr>in_status := ''rejected'', in_rejection_reason := Some why, in_resolved_by := Some p\<rparr>)"
    and "inbox_ok k (i\<lparr>in_status := ''expired'', in_resolved_by := Some p\<rparr>)"
  using assms by (simp_all add: inbox_ok_def)

lemma inbox_ok_expire: "inbox_ok k i \<Longrightarrow> inbox_ok k (expire_row now i)"
  by (simp add: expire_row_def inbox_due_def inbox_ok_resolve(4))

lemma tasks_step:
  assumes "trace_step allowed db db'" "dict_wf (db_tasks db)" "dict_all task_ok (db_tasks db)"
  shows "dict_wf (db_tasks db') \<and> dict_all task_ok (db_tasks db')"
  using assms
proof (induction rule: trace_step.induct)
  case (st_create_task u now run parent nm ty cfg db v db')
  then show ?case by (auto simp: create_task_def intro!: dict_all_set task_ok_new)
next
  case (st_transition_task u now tid st reason p db db')
  then obtain t where t: "dict_get (db_tasks db) tid = Some t" "task_step (t_status t) st"
    and db': "db_tasks db' = dict_set tid (t\<lparr>t_status := st\<rparr>) (db_tasks db)"
    by (auto simp: transition_task_def Let_def is_ok_iff res_split split: option.splits)
  have "task_ok tid t" using st_transition_task.prems(2) t(1) by blast
  then have "task_ok tid (t\<lparr>t_status := st\<rparr>)" using task_machine.ok_state [OF t(2)] by (simp add: task_ok_def)
  with st_transition_task.prems show ?case by (auto simp: db')
next
  case (st_reclaim_interrupted ids clock db n db')
  then have "db_tasks db' = dict_map reclaim_row (db_tasks db)"
    using reclaim_loop_tasks [of ids clock "db_tasks db" 0]
    by (auto simp: reclaim_interrupted_def split: prod.splits)
  with st_reclaim_interrupted show ?case by (auto intro: dict_all_map task_ok_reclaim)
qed (auto simp: trace_op_defs Let_def res_split split: option.splits if_splits prod.splits)

lemma run_finished_ok:
  "run_ok k r \<Longrightarrow> st \<in> set RUN_TERMINAL_STATES \<Longrightarrow> run_ok k (r\<lparr>r_status := st, r_finished_at := Some f\<rparr>)"
  by (auto simp: run_ok_def RUN_TERMINAL_STATES_def run_states_def)

lemma runs_step:
  assumes "trace_step allowed db db'" "dict_wf (db_runs db)" "dict_all run_ok (db_runs db)"
  shows "dict_wf (db_runs db') \<and> dict_all run_ok (db_runs db')"
  using assms
proof (induction rule: trace_step.induct)
  case (st_create_run now intent cfg lvl run by' db v db')
  then show ?case by (auto simp: create_run_def intro!: dict_all_set run_ok_new split: if_splits)
next
  case (st_transition_run u fin now run st reason p db db' call)
  then obtain r where r: "dict_get (db_runs db) run = Some r" "run_step (r_status r) st"
    and db': "db_runs db' = dict_set run
      (if st \<in> set RUN_TERMINAL_STATES then r\<lparr>r_status := st, r_finished_at := Some fin\<rparr> else r\<lparr>r_status := st\<rparr>)
      (db_runs db)"
    by (auto simp: transition_run_def Let_def is_ok_iff res_split RUN_TERMINAL_STATES_def split: option.splits if_splits)
  have ok: "run_ok run r" using st_transition_run.prems(2) r(1) by blast
  have "run_ok run (r\<lparr>r_status := st\<rparr>)" if "st \<notin> set RUN_TERMINAL_STATES"
    using that ok run_machine.ok_state [OF r(2)] run_machine.terminal_exit [OF _ r(2)] by (auto simp: run_ok_def)
  with ok st_transition_run.prems show ?case by (auto simp: db' run_finished_ok)
next
  case (st_clean_orphaned ids clock2 db n db')
  then have db': "db_runs db' = fst (clean_loop ids clock2 db (db_runs db) 0)"
    by (auto simp: clean_orphaned_def split: prod.splits)
  have "run_ok k r'" if "(k, r') \<in> set (db_runs db')" for k r'
  proof -
    from clean_loop_rows [OF that [unfolded db']] obtain r where "(k, r) \<in> set (db_runs db)"
      "r' = r \<or> (\<exists>f. r' = r\<lparr>r_status := ''failed'', r_finished_at := Some f\<rparr>)" by blast
    then show ?thesis
      using st_clean_orphaned.prems(2) run_finished_ok [of k r "''failed''"]
      by (auto simp: dest!: dict_all_mem simp: RUN_TERMINAL_STATES_def)
  qed
  then have "dict_all run_ok (db_runs db')" by (auto simp: dict_all_def list_all_iff)
  with st_clean_orphaned.prems show ?case
    by (metis clean_loop_keys db' dict_wf_def)
next
  case (st_write_coherence_summary db run summary)
  have "run_ok run r \<Longrightarrow> run_ok run (r\<lparr>r_coherence_summary := Some summary\<rparr>)" for r
    by (simp add: run_ok_def)
  with st_write_coherence_summary show ?case
    by (auto simp: write_coherence_summary_def split: option.splits)
qed (auto simp: task_op_defs log_op_defs inbox_op_defs transition_task_def write_event_def
       reclaim_interrupted_def Let_def res_split split: option.splits if_splits prod.splits)

lemma inbox_step:
  assumes "trace_step allowed db db'" "dict_wf (db_inbox_items db)" "dict_all inbox_ok (db_inbox_items db)"
  shows "dict_wf (db_inbox_items db') \<and> dict_all inbox_ok (db_inbox_items db')"
  using assms
proof (induction rule: trace_step.induct)
  case (st_create_inbox_item u now run ty q opts ao wp ci tags dl ae db v db')
  then show ?case by (auto simp: create_inbox_item_def intro!: dict_all_set inbox_ok_new)
next
  case (st_answer_inbox_item now iid ans by' db db')
  then show ?case
    by (auto simp: answer_inbox_item_def intro!: dict_all_set inbox_ok_resolve split: option.splits if_splits)
next
  case (st_skip_inbox_item iid by' db db')
  then show ?case
    by (auto simp: skip_inbox_item_def intro!: dict_all_set inbox_ok_resolve split: option.splits if_splits)
next
  case (st_reject_inbox_item iid reason' by' db db')
  then show ?case
    by (auto simp: reject_inbox_item_def intro!: dict_all_set inbox_ok_resolve split: option.splits if_splits)
next
  case (st_expire_inbox_item iid by' db db')
  then show ?case
    by (auto simp: expire_inbox_item_def intro!: dict_all_set inbox_ok_resolve split: option.splits if_splits)
next
  case (st_expire_due now db n db')
  then have "db_inbox_items db' = dict_map (expire_row now) (db_inbox_items db)"
    by (auto simp: expire_due_inbox_items_def expire_due_loop_map)
  with st_expire_due show ?case by (auto intro: dict_all_map inbox_ok_expire)
qed (auto simp: task_op_defs log_op_defs run_op_defs transition_task_def write_event_def
       reclaim_interrupted_def Let_def res_split split: option.splits if_splits prod.splits)

lemma rows_inv_reachable: "trace_reachable allowed db \<Longrightarrow> rows_inv db"
proof (induction rule: trace_reachable.induct)
  case tr_start
  show ?case by (simp add: rows_inv_def empty_db_def)
next
  case (tr_step db db')
  then show ?case
    using tasks_step [OF tr_step.hyps(2)] runs_step [OF tr_step.hyps(2)] inbox_step [OF tr_step.hyps(2)]
    by (simp add: rows_inv_def)
qed

text \<open>Idempotency keys and event identifiers.\<close>

lemma event_keys_append [simp]: "event_keys (xs @ ys) = event_keys xs @ event_keys ys"
  by (simp add: event_keys_def map_filter_def)

lemma event_keys_unkeyed: "list_all (\<lambda>e. e_idempotency_key e = None) es \<Longrightarrow> event_keys es = []"
  by (induction es) (auto simp: event_keys_def map_filter_def)

lemma event_keys_mem: "key \<in> set (event_keys es) \<longleftrightarrow> (\<exists>e \<in> set es. e_idempotency_key e = Some key)"
  by (force simp: event_keys_def map_filter_def)

lemma keys_inv_append:
  assumes "keys_inv db" "db_events db' = db_events db @ es"
    "db_idempotency_index db' = db_idempotency_index db"
    "list_all (\<lambda>e. e_idempotency_key e = None) es"
    "distinct (map e_id es)" "e_id ` set (db_events db) \<inter> e_id ` set es = {}"
  shows "keys_inv db'"
proof -
  have "distinct (map e_id (db_events db'))" using assms by (simp add: keys_inv_def)
  moreover have "event_keys (db_events db') = event_keys (db_events db)"
    using assms(2) event_keys_unkeyed [OF assms(4)] by simp
  ultimately show ?thesis using assms(1-4) by (auto simp: keys_inv_def list_all_iff)
qed

lemma fresh_supply_ids:
  assumes "fresh_supply ids db" "map e_id es = map ids [n ..< m]"
  shows "distinct (map e_id es)" "e_id ` set (db_events db) \<inter> e_id ` set es = {}"
proof -
  from assms(1) have inj: "inj ids" and fresh: "\<And>n. ids n \<notin> e_id ` set (db_events db)"
    by (auto simp: fresh_supply_def fresh_def)
  show "distinct (map e_id es)"
    using inj by (simp add: assms(2) distinct_map inj_on_def)
  have "e_id ` set es = ids ` {n ..< m}" by (metis assms(2) atLeastLessThan_upt list.set_map)
  with fresh show "e_id ` set (db_events db) \<inter> e_id ` set es = {}"
    by (metis (no_types, lifting) disjoint_iff imageE)
qed

lemma keys_write_event:
  assumes "keys_inv db" "fresh u db"
    "write_event u now run ty data tid p key db = (r, db')"
  shows "keys_inv db'"
proof (cases key)
  case None
  with assms show ?thesis
    by (intro keys_inv_append [OF assms(1)]) (auto simp: write_event_def fresh_def)
next
  case (Some k)
  show ?thesis
  proof (cases "dict_get (db_idempotency_index db) k")
    case None
    then have "k \<notin> set (event_keys (db_events db))"
      using assms(1) by (metis event_keys_mem keys_inv_def option.distinct(1))
    moreover from this have "\<forall>e' \<in> set (db_events db). e_idempotency_key e' \<noteq> Some k" by (simp add: event_keys_mem)
    moreover define e where "e = \<lparr>e_id = u, e_run_id = run, e_task_id = tid, e_principal_id = p,
      e_event_type = ty, e_data = data, e_idempotency_key = Some k, e_created_at = now\<rparr>"
    moreover have "e_idempotency_key e = Some k" "e_id e = u" by (simp_all add: e_def)
    moreover have "db_events db' = db_events db @ [e]"
      "db_idempotency_index db' = dict_set k u (db_idempotency_index db)"
      using assms(3) Some None by (auto simp: write_event_def e_def)
    moreover have "event_keys [e] = [k]" by (simp add: e_def event_keys_def map_filter_def)
    ultimately show ?thesis using assms(1,2) None by (auto simp: keys_inv_def fresh_def)
  qed (use assms Some in \<open>auto simp: write_event_def\<close>)
qed

lemma keys_step:
  assumes "trace_step allowed db db'" "keys_inv db"
  shows "keys_inv db'"
  using assms
proof (induction rule: trace_step.induct)
  case (st_transition_task u now tid st reason p db db')
  then show ?case
    by (auto intro!: keys_inv_append [of db] simp: transition_task_def fresh_def Let_def res_split split: option.splits)
next
  case (st_write_event u now run ty data tid p key db r db')
  then show ?case by (blast intro: keys_write_event)
next
  case (st_transition_run u fin now run st reason p db db' call)
  then show ?case
    by (auto intro!: keys_inv_append [of db] simp: transition_run_def fresh_def Let_def res_split split: option.splits)
next
  case (st_reclaim_interrupted ids clock db n db')
  let ?r = "reclaim_loop ids clock (db_tasks db) 0"
  have "db_events db' = db_events db @ fst (snd ?r)" "db_idempotency_index db' = db_idempotency_index db"
    using st_reclaim_interrupted.hyps(1) by (auto simp: reclaim_interrupted_def split: prod.splits)
  with st_reclaim_interrupted show ?case
    using fresh_supply_ids [OF st_reclaim_interrupted.hyps(2) reclaim_loop_ids [of ids clock "db_tasks db" 0]]
      reclaim_loop_kind [of ids clock "db_tasks db" 0]
    by (intro keys_inv_append [of db db' "fst (snd ?r)"]) (auto simp: list_all_iff)
next
  case (st_clean_orphaned ids clock2 db n db')
  let ?r = "clean_loop ids clock2 db (db_runs db) 0"
  have "db_events db' = db_events db @ fst (snd ?r)" "db_idempotency_index db' = db_idempotency_index db"
    using st_clean_orphaned.hyps(1) by (auto simp: clean_orphaned_def split: prod.splits)
  with st_clean_orphaned show ?case
    using fresh_supply_ids [OF st_clean_orphaned.hyps(2) clean_loop_ids [of ids clock2 db "db_runs db" 0]]
      clean_loop_kind [of ids clock2 db "db_runs db" 0]
    by (intro keys_inv_append [of db db' "fst (snd ?r)"]) (auto simp: list_all_iff)
qed (auto simp: task_op_defs log_op_defs inbox_op_defs create_run_def write_coherence_summary_def
       keys_inv_def Let_def split: option.splits if_splits prod.splits)

lemma keys_inv_reachable: "trace_reachable allowed db \<Longrightarrow> keys_inv db"
proof (induction rule: trace_reachable.induct)
  case tr_start
  show ?case by (simp add: keys_inv_def empty_db_def event_keys_def map_filter_def)
qed (rule keys_step)

section \<open>The audit trail\<close>

text \<open>
  The status changes that the event log records for a task: the new status of a
  \<open>task_transition\<close> event, and \<open>cancelled\<close> for a \<open>crash_recovery\<close> event.
\<close>

definition reserved_types :: "string list" where
  "reserved_types = [''task_transition'', ''run_transition'', ''crash_recovery'']"

definition unreserved :: "string \<Rightarrow> bool" where
  "unreserved ty = (ty \<notin> set reserved_types)"

definition status_change :: "uuid \<Rightarrow> event_row \<Rightarrow> string option" where
  "status_change k e =
     (if e_task_id e \<noteq> Some k then None
      else if e_event_type e = ''task_transition''
           then (case dict_get (e_data e) ''new_status'' of Some (JStr s) \<Rightarrow> Some s | _ \<Rightarrow> None)
      else if e_event_type e = ''crash_recovery'' then Some ''cancelled''
      else None)"

definition task_history :: "uuid \<Rightarrow> event_row list \<Rightarrow> string list" where
  "task_history k es = List.map_filter (status_change k) es"

definition audit_ok :: "event_row list \<Rightarrow> uuid \<Rightarrow> task_row \<Rightarrow> bool" where
  "audit_ok es k t =
     (valid_path task_step ''created'' (task_history k es) \<and>
      last (''created'' # task_history k es) = t_status t)"

definition audit_inv :: "trace_db \<Rightarrow> bool" where
  "audit_inv db =
     ((\<forall>k. dict_get (db_tasks db) k = None \<longrightarrow> task_history k (db_events db) = []) \<and>
      (\<forall>k t. dict_get (db_tasks db) k = Some t \<longrightarrow> audit_ok (db_events db) k t))"

lemma task_history_Cons [simp]:
  "task_history k (e # es) = (case status_change k e of None \<Rightarrow> [] | Some s \<Rightarrow> [s]) @ task_history k es"
  by (simp add: task_history_def map_filter_def split: option.splits)

lemma task_history_Nil [simp]: "task_history k [] = []"
  by (simp add: task_history_def map_filter_def)

lemma task_history_append [simp]: "task_history k (xs @ ys) = task_history k xs @ task_history k ys"
  by (simp add: task_history_def map_filter_def)

lemma task_history_silent: "list_all (\<lambda>e. status_change k e = None) es \<Longrightarrow> task_history k es = []"
  by (induction es) (auto simp: task_history_def map_filter_def)

lemma audit_silent:
  assumes "audit_inv db" "db_tasks db' = db_tasks db" "db_events db' = db_events db @ es"
    "\<And>k. list_all (\<lambda>e. status_change k e = None) es"
  shows "audit_inv db'"
  using assms task_history_silent [OF assms(4)] by (simp add: audit_inv_def audit_ok_def)

lemma audit_frame:
  "audit_inv db \<Longrightarrow> db_tasks db' = db_tasks db \<Longrightarrow> db_events db' = db_events db \<Longrightarrow> audit_inv db'"
  by (simp add: audit_inv_def)

lemma audit_extend:
  "audit_ok es k t \<Longrightarrow> task_history k es' = [s] \<Longrightarrow> task_step (t_status t) s \<Longrightarrow>
   audit_ok (es @ es') k (t\<lparr>t_status := s\<rparr>)"
  by (simp add: audit_ok_def valid_path_append)

lemma reclaim_history:
  assumes "dict_wf d" "dict_all task_ok d"
  shows "task_history k (fst (snd (reclaim_loop ids clock d n))) =
    (case dict_get d k of None \<Rightarrow> [] | Some t \<Rightarrow> if interrupted t then [''cancelled''] else [])"
  using assms
proof (induction ids clock d n rule: reclaim_loop.induct)
  case (2 ids clock k' task rest n)
  have rest: "dict_wf rest" "dict_all task_ok rest" and id: "t_id task = k'"
    and new: "dict_get rest k' = None"
    using "2.prems" by (auto simp: dict_wf_def dict_all_def task_ok_def dict_get_def map_of_eq_None_iff)
  show ?case
    using "2.IH" rest new
    by (auto simp: id status_change_def dict_get_def split: prod.splits option.splits)
qed simp

lemma audit_step:
  assumes "trace_step unreserved db db'" "audit_inv db" "rows_inv db"
  shows "audit_inv db'"
  using assms
proof (induction rule: trace_step.induct)
  case (st_create_task u now run parent nm ty cfg db v db')
  have "dict_get (db_tasks db) u = None" using st_create_task.hyps(2) by (simp add: fresh_def)
  with st_create_task.prems(1) have "task_history u (db_events db) = []"
    by (simp add: audit_inv_def)
  with st_create_task show ?case by (auto simp: audit_inv_def audit_ok_def create_task_def split: if_splits)
next
  case (st_transition_task u now tid st reason p db db')
  then obtain t e where t: "dict_get (db_tasks db) tid = Some t" "task_step (t_status t) st"
    and e: "e_task_id e = Some tid" "status_change tid e = Some st"
    and db': "db_tasks db' = dict_set tid (t\<lparr>t_status := st\<rparr>) (db_tasks db)" "db_events db' = db_events db @ [e]"
    by (fastforce simp: transition_task_def Let_def is_ok_iff res_split status_change_def dict_get_def split: option.splits)
  have hist: "task_history k [e] = (if k = tid then [st] else [])" for k
    using e by (auto simp: status_change_def)
  have hist': "task_history k (db_events db') = task_history k (db_events db) @ (if k = tid then [st] else [])" for k
    unfolding db'(2) task_history_append hist ..
  have "audit_ok (db_events db) tid t" using st_transition_task.prems(1) t(1) by (simp add: audit_inv_def)
  then have "audit_ok (db_events db') tid (t\<lparr>t_status := st\<rparr>)" using audit_extend t(2) hist db'(2) by simp
  with st_transition_task.prems(1) show ?case by (auto simp: audit_inv_def audit_ok_def db'(1) hist' split: if_splits)
next
  case (st_write_event u now run ty data tid p key db r db')
  then consider "db' = db"
    | e where "db_tasks db' = db_tasks db" "db_events db' = db_events db @ [e]" "e_event_type e = ty"
    by (fastforce simp: write_event_def split: option.splits)
  then show ?case
    using st_write_event.prems(1) st_write_event.hyps(3)
    by cases (auto intro!: audit_silent [of db] simp: status_change_def unreserved_def reserved_types_def)
next
  case (st_transition_run u fin now run st reason p db db' call)
  then obtain e where "db_tasks db' = db_tasks db" "db_events db' = db_events db @ [e]" "e_task_id e = None"
    by (fastforce simp: transition_run_def Let_def res_split split: option.splits)
  with st_transition_run show ?case by (auto intro!: audit_silent [of db] simp: status_change_def)
next
  case (st_reclaim_interrupted ids clock db n db')
  let ?es = "fst (snd (reclaim_loop ids clock (db_tasks db) 0))"
  have db': "db_tasks db' = dict_map reclaim_row (db_tasks db)" "db_events db' = db_events db @ ?es"
    using st_reclaim_interrupted.hyps(1) reclaim_loop_tasks [of ids clock "db_tasks db" 0]
    by (auto simp: reclaim_interrupted_def split: prod.splits)
  have hist: "task_history k ?es = (case dict_get (db_tasks db) k of None \<Rightarrow> []
      | Some t \<Rightarrow> if interrupted t then [''cancelled''] else [])" for k
    using st_reclaim_interrupted.prems(2) by (intro reclaim_history) (auto simp: rows_inv_def)
  have "audit_ok (db_events db') k (reclaim_row t)" if "dict_get (db_tasks db) k = Some t" for k t
  proof -
    have "audit_ok (db_events db) k t" using st_reclaim_interrupted.prems(1) that by (simp add: audit_inv_def)
    moreover have "task_step (t_status t) ''cancelled''" by (simp add: validate_task_ok)
    ultimately show ?thesis
      using hist [of k] that audit_extend [of "db_events db" k t ?es "''cancelled''"]
      by (cases "interrupted t") (simp_all add: db'(2) reclaim_row_def audit_ok_def)
  qed
  then show ?case using st_reclaim_interrupted.prems(1) hist
    by (fastforce simp: audit_inv_def db' split: option.splits)
next
  case (st_clean_orphaned ids clock2 db n db')
  let ?es = "fst (snd (clean_loop ids clock2 db (db_runs db) 0))"
  have "db_tasks db' = db_tasks db" "db_events db' = db_events db @ ?es"
    using st_clean_orphaned.hyps(1) by (auto simp: clean_orphaned_def split: prod.splits)
  with st_clean_orphaned.prems(1) show ?case
    using clean_loop_kind [of ids clock2 db "db_runs db" 0]
    by (auto intro!: audit_silent [of db db' ?es] simp: status_change_def list_all_iff)
qed (auto simp: create_task_attempt_def complete_task_attempt_def fail_task_attempt_def
       create_iteration_def complete_iteration_def fail_iteration_def log_op_defs inbox_op_defs
       create_run_def write_coherence_summary_def Let_def
     intro: audit_frame split: option.splits if_splits prod.splits)

lemma audit_inv_reachable: "trace_reachable unreserved db \<Longrightarrow> audit_inv db"
proof (induction rule: trace_reachable.induct)
  case tr_start
  show ?case by (simp add: audit_inv_def empty_db_def task_history_def map_filter_def)
next
  case (tr_step db db')
  then show ?case by (blast intro: audit_step rows_inv_reachable)
qed

section \<open>Properties\<close>

text \<open>
  C4. The event log is a complete audit trail of task statuses: in every reachable
  state of the backend, replaying the status changes that the log records for a task gives a
  history of validated transitions from \<open>created\<close> that ends in the task's stored status. Crash
  recovery included; callers do not forge the event types the backend writes itself.
\<close>

theorem audit_trail_complete:
  assumes "trace_reachable unreserved db" and "dict_get (db_tasks db) k = Some t"
  shows "valid_path task_step ''created'' (task_history k (db_events db)) \<and>
    last (''created'' # task_history k (db_events db)) = t_status t"
  using audit_inv_reachable [OF assms(1)] assms(2) by (simp add: audit_inv_def audit_ok_def)

text \<open>A run of the backend used by the witnesses: create a task, move it, crash, recover.\<close>

definition demo_created :: trace_db where
  "demo_created = snd (create_task 3 10 7 None ''t'' ''agent'' None empty_db)"

definition demo_checking :: trace_db where
  "demo_checking =
     (case transition_task 4 11 3 ''prechecking'' None 9 demo_created of Inl _ \<Rightarrow> demo_created | Inr db \<Rightarrow> db)"

definition demo_recovered :: trace_db where
  "demo_recovered = snd (reclaim_interrupted (\<lambda>n. 5 + n) (\<lambda>n. 12) demo_checking)"

lemma demo_created_eq:
  "demo_created = empty_db\<lparr>db_tasks := [(3, \<lparr>t_id = 3, t_run_id = 7, t_parent_task_id = None, t_name = ''t'',
     t_task_type = ''agent'', t_config = ''{}'', t_status = ''created'', t_created_at = 10\<rparr>)]\<rparr>"
  by (simp add: demo_created_def create_task_def empty_db_def dict_set_def)

lemma demo_created_reachable: "trace_reachable unreserved demo_created"
  by (rule tr_step [OF tr_start], rule st_create_task [of 3 10 7 None "''t''" "''agent''" None empty_db 3])
    (simp_all add: demo_created_def create_task_def fresh_def empty_db_def)

lemma demo_transition:
  "\<exists>e. e_id e = 4 \<and> transition_task 4 11 3 ''prechecking'' None 9 demo_created =
    Inr (empty_db\<lparr>db_tasks := [(3, \<lparr>t_id = 3, t_run_id = 7, t_parent_task_id = None, t_name = ''t'',
     t_task_type = ''agent'', t_config = ''{}'', t_status = ''prechecking'', t_created_at = 10\<rparr>)], db_events := [e]\<rparr>)"
  by (simp add: demo_created_eq transition_task_def empty_db_def dict_get_def dict_set_def
      validate_task_transition_def transition_tables)

lemma demo_checking_eq:
  "transition_task 4 11 3 ''prechecking'' None 9 demo_created = Inr demo_checking"
  "db_tasks demo_checking = [(3, \<lparr>t_id = 3, t_run_id = 7, t_parent_task_id = None, t_name = ''t'',
     t_task_type = ''agent'', t_config = ''{}'', t_status = ''prechecking'', t_created_at = 10\<rparr>)]"
  "map e_id (db_events demo_checking) = [4]"
  "db_task_attempts demo_checking = []" "db_iterations demo_checking = []" "db_inbox_items demo_checking = []"
  using demo_transition by (auto simp: demo_checking_def empty_db_def)

lemma demo_checking_reachable: "trace_reachable unreserved demo_checking"
  using demo_created_reachable
  by (rule tr_step) (rule st_transition_task [OF demo_checking_eq(1)],
      simp add: demo_created_eq fresh_def empty_db_def dict_get_def)

lemma demo_checking_ids: "e_id ` set (db_events demo_checking) = {4}"
  by (metis demo_checking_eq(3) list.set_map list.simps(15) list.set(1))

lemma demo_recovered_reachable: "trace_reachable unreserved demo_recovered"
proof (rule tr_step [OF demo_checking_reachable st_reclaim_interrupted])
  show "reclaim_interrupted (\<lambda>n. 5 + n) (\<lambda>n. 12) demo_checking =
    (fst (reclaim_interrupted (\<lambda>n. 5 + n) (\<lambda>n. 12) demo_checking), demo_recovered)"
    by (simp add: demo_recovered_def)
  show "fresh_supply (\<lambda>n. 5 + n) demo_checking"
    by (auto simp: fresh_supply_def fresh_def demo_checking_eq demo_checking_ids inj_def dict_get_def)
qed

lemma demo_recovered_task:
  "dict_get (db_tasks demo_recovered) 3 = Some \<lparr>t_id = 3, t_run_id = 7, t_parent_task_id = None, t_name = ''t'',
     t_task_type = ''agent'', t_config = ''{}'', t_status = ''cancelled'', t_created_at = 10\<rparr>"
  by (simp add: demo_recovered_def reclaim_interrupted_def demo_checking_eq interrupted_def dict_get_def)

theorem audit_trail_complete_witness:
  "valid_path task_step ''created'' (task_history 3 (db_events demo_recovered)) \<and>
   last (''created'' # task_history 3 (db_events demo_recovered)) = ''cancelled''"
  using audit_trail_complete [OF demo_recovered_reachable demo_recovered_task] by simp

text \<open>
  Deduplication: in every reachable state no idempotency key occurs on two stored
  events and no two events share an identifier, so a second \<open>write_event\<close> under a stored key
  changes nothing and returns the identifier of the event stored under it, with the flag
  \<open>False\<close>.
\<close>

theorem write_event_idempotent:
  assumes "trace_reachable allowed db"
    and "e \<in> set (db_events db)" and "e_idempotency_key e = Some key"
  shows "write_event u now run ty data tid p (Some key) db = ((e_id e, False), db) \<and>
    distinct (event_keys (db_events db)) \<and> distinct (map e_id (db_events db))"
proof -
  have inv: "keys_inv db" using assms(1) by (rule keys_inv_reachable)
  then have "dict_get (db_idempotency_index db) key = Some (e_id e)"
    using assms(2,3) by (auto simp: keys_inv_def)
  then have "write_event u now run ty data tid p (Some key) db = ((e_id e, False), db)"
    by (simp add: write_event_def)
  with inv show ?thesis unfolding keys_inv_def by blast
qed

definition demo_keyed :: trace_db where
  "demo_keyed = snd (write_event 5 1 None ''webhook'' [] None 9 (Some ''k'') empty_db)"

lemma demo_keyed_reachable: "trace_reachable allowed demo_keyed" if "allowed ''webhook''"
  unfolding demo_keyed_def using that
  by (intro tr_step [OF tr_start] st_write_event [of 5 1 None "''webhook''" "[]" None 9 "Some ''k''" empty_db "(5, True)"])
    (auto simp: write_event_def fresh_def empty_db_def)

theorem write_event_idempotent_witness:
  "write_event 6 2 None ''webhook'' [] None 9 (Some ''k'') demo_keyed = ((5, False), demo_keyed)"
proof -
  let ?e = "\<lparr>e_id = 5, e_run_id = None, e_task_id = None, e_principal_id = 9, e_event_type = ''webhook'',
    e_data = [], e_idempotency_key = Some ''k'', e_created_at = 1\<rparr>"
  have "?e \<in> set (db_events demo_keyed)" by (simp add: demo_keyed_def write_event_def empty_db_def)
  then show ?thesis
    using write_event_idempotent [OF demo_keyed_reachable [of "\<lambda>_. True"], of ?e "''k''"] by simp
qed

text \<open>
  C39. Row consistency: in every reachable state a run has a finish time exactly when
  its status is terminal; an inbox item has a resolver exactly when it is no longer pending, an
  answer and an answer time exactly when it is answered, a rejection reason exactly when it is
  rejected; and every task and run has a status of its machine.
\<close>

theorem rows_consistent:
  assumes "trace_reachable allowed db"
  shows "dict_all task_ok (db_tasks db) \<and> dict_all run_ok (db_runs db) \<and> dict_all inbox_ok (db_inbox_items db)"
  using rows_inv_reachable [OF assms] by (simp add: rows_inv_def)

theorem rows_consistent_witness:
  "dict_all task_ok (db_tasks demo_recovered) \<and> dict_all run_ok (db_runs demo_recovered) \<and>
   dict_all inbox_ok (db_inbox_items demo_recovered)"
  by (rule rows_consistent [OF demo_recovered_reachable])

definition resolves :: "uuid \<Rightarrow> trace_db \<Rightarrow> trace_db \<Rightarrow> bool" where
  "resolves iid db db' =
     ((\<exists>now ans p. answer_inbox_item now iid ans p db = Inr db') \<or>
      (\<exists>p. skip_inbox_item iid p db = Inr db') \<or>
      (\<exists>why p. reject_inbox_item iid why p db = Inr db') \<or>
      (\<exists>p. expire_inbox_item iid p db = Inr db'))"

lemma resolved_not_pending:
  "resolves iid db db' \<Longrightarrow> \<exists>i. dict_get (db_inbox_items db') iid = Some i \<and> in_status i \<noteq> ''pending''"
  by (auto simp: resolves_def inbox_op_defs split: option.splits if_splits)

text \<open>
  An inbox item is resolved at most once: after any of answer, skip, reject and
  expire has succeeded on an item, every one of the four raises \<open>InvalidTransitionError\<close> on it
  and the expiry sweep leaves it as it is.
\<close>

theorem inbox_resolved_once:
  assumes "resolves iid db db'"
  shows "answer_inbox_item now iid ans p db' = Inl InvalidTransitionError \<and>
    skip_inbox_item iid p db' = Inl InvalidTransitionError \<and>
    reject_inbox_item iid why p db' = Inl InvalidTransitionError \<and>
    expire_inbox_item iid p db' = Inl InvalidTransitionError \<and>
    dict_get (db_inbox_items (snd (expire_due_inbox_items now db'))) iid = dict_get (db_inbox_items db') iid"
proof -
  obtain i where "dict_get (db_inbox_items db') iid = Some i" "in_status i \<noteq> ''pending''"
    using resolved_not_pending [OF assms] by blast
  then show ?thesis
    by (simp add: inbox_op_defs expire_due_loop_map expire_row_def inbox_due_def)
qed

definition demo_inbox :: trace_db where
  "demo_inbox = snd (create_inbox_item 4 1 7 ''scope'' ''q'' [] None None None None (Some 20) None empty_db)"

theorem inbox_resolved_once_witness:
  "\<exists>db'. skip_inbox_item 4 9 demo_inbox = Inr db' \<and>
     answer_inbox_item 30 4 ''yes'' 9 db' = Inl InvalidTransitionError"
proof -
  obtain db' where db': "skip_inbox_item 4 9 demo_inbox = Inr db'"
    by (simp add: skip_inbox_item_def demo_inbox_def create_inbox_item_def empty_db_def)
  then have "resolves 4 demo_inbox db'" by (auto simp: resolves_def)
  from inbox_resolved_once [OF this, of 30 "''yes''" 9] db' show ?thesis by blast
qed

text \<open>
  Crash recovery: \<open>reclaim_interrupted\<close> cancels exactly the interrupted tasks,
  returns how many there were, and appends one \<open>crash_recovery\<close> event per reclaimed task in the
  order of the task table; a second recovery reclaims nothing.
\<close>

theorem reclaim_interrupted_spec:
  "case reclaim_interrupted ids clock db of (n, db') \<Rightarrow>
     db_tasks db' = dict_map reclaim_row (db_tasks db) \<and>
     n = length (filter interrupted (dict_values (db_tasks db))) \<and>
     (\<exists>es. db_events db' = db_events db @ es \<and>
        map e_task_id es = map (Some \<circ> t_id) (filter interrupted (dict_values (db_tasks db)))) \<and>
     fst (reclaim_interrupted ids' clock' db') = 0"
proof -
  let ?r = "reclaim_loop ids clock (db_tasks db) 0"
  obtain n db' where eq: "reclaim_interrupted ids clock db = (n, db')" by force
  then have db': "db_tasks db' = dict_map reclaim_row (db_tasks db)" "db_events db' = db_events db @ fst (snd ?r)"
    and n: "n = snd (snd ?r)"
    using reclaim_loop_tasks [of ids clock "db_tasks db" 0] by (auto simp: reclaim_interrupted_def split: prod.splits)
  have vals: "filter interrupted (dict_values (db_tasks db)) = map snd (filter (interrupted \<circ> snd) (db_tasks db))"
    by (simp add: dict_values_def filter_map)
  have "map e_task_id (fst (snd ?r)) = map fst (map (\<lambda>e. (e_task_id e, e_run_id e)) (fst (snd ?r)))" by simp
  also have "\<dots> = map (Some \<circ> t_id) (filter interrupted (dict_values (db_tasks db)))"
    unfolding reclaim_loop_events vals by (simp add: case_prod_beta)
  finally have ev: "map e_task_id (fst (snd ?r)) = map (Some \<circ> t_id) (filter interrupted (dict_values (db_tasks db)))" .
  have "fst (reclaim_interrupted ids' clock' db') = snd (snd (reclaim_loop ids' clock' (db_tasks db') 0))"
    by (simp add: reclaim_interrupted_def split: prod.splits)
  also have "\<dots> = 0"
    by (auto simp: reclaim_loop_count db'(1) dict_map_def reclaimed_not_interrupted filter_empty_conv)
  finally show ?thesis
    using eq db' n ev by (auto simp: reclaim_loop_count vals)
qed

text \<open>
  Orphan cleaning fails exactly the running or paused runs without a held lock:
  a run whose lock is held is never touched, and afterwards every running or paused run is
  locked.
\<close>

theorem clean_orphaned_spec:
  assumes "rows_inv db" and "clean_orphaned ids clock2 db = (n, db')"
    and "(k, r') \<in> set (db_runs db')"
  shows "(run_locked k db \<longrightarrow> (k, r') \<in> set (db_runs db)) \<and>
    (r_status r' \<in> {''running'', ''paused''} \<longrightarrow> run_locked k db')"
proof -
  have db': "db_runs db' = fst (clean_loop ids clock2 db (db_runs db) 0)" "db_run_locks db' = db_run_locks db"
    using assms(2) by (auto simp: clean_orphaned_def split: prod.splits)
  from clean_loop_rows [OF assms(3) [unfolded db'(1)]] obtain r where r: "(k, r) \<in> set (db_runs db)"
    "r' = r \<and> \<not> orphaned db r \<or> orphaned db r \<and> (\<exists>f. r' = r\<lparr>r_status := ''failed'', r_finished_at := Some f\<rparr>)" by blast
  have "r_id r = k" using assms(1) r(1) by (auto simp: rows_inv_def run_ok_def dest!: dict_all_mem)
  with r show ?thesis by (auto simp: orphaned_def run_locked_def db'(2))
qed

definition demo_running :: trace_db where
  "demo_running = empty_db\<lparr>db_runs :=
     [(7, \<lparr>r_id = 7, r_intent = ''i'', r_config_snapshot = [], r_autonomy_level = ''low'', r_created_by = 9,
       r_status = ''running'', r_created_at = 1, r_finished_at = None, r_coherence_summary = None,
       r_total_input_tokens = 0, r_total_output_tokens = 0, r_total_reasoning_tokens = 0,
       r_total_cache_read_tokens = 0, r_total_cache_write_tokens = 0, r_total_cost_usd = 0\<rparr>)],
     db_run_locks := [(7, True)]\<rparr>"

theorem clean_orphaned_spec_witness:
  "\<exists>r'. (7, r') \<in> set (db_runs (snd (clean_orphaned (\<lambda>n. n) (\<lambda>n. (2, 3)) demo_running))) \<and>
     run_locked 7 (snd (clean_orphaned (\<lambda>n. n) (\<lambda>n. (2, 3)) demo_running))"
proof -
  let ?c = "clean_orphaned (\<lambda>n. n) (\<lambda>n. (2, 3)) demo_running"
  have "rows_inv demo_running"
    by (simp add: rows_inv_def demo_running_def empty_db_def dict_wf_def dict_all_def run_ok_def
        run_states_def RUN_TERMINAL_STATES_def)
  moreover have "?c = (fst ?c, snd ?c)" by simp
  moreover obtain r' where r': "(7, r') \<in> set (db_runs (snd ?c))" "r_status r' = ''running''"
    by (simp add: clean_orphaned_def demo_running_def empty_db_def orphaned_def run_locked_def dict_get_def)
  ultimately have "r_status r' \<in> {''running'', ''paused''} \<longrightarrow> run_locked 7 (snd ?c)"
    using clean_orphaned_spec by blast
  with r' show ?thesis by auto
qed

end
