(* ===== verification/Task_Graph.thy ===== *)
theory Task_Graph
  imports Prelude
begin

text \<open>
  The dependency graph of a workflow, \<open>scheduler/_graph.py\<close>: building it, Kahn's algorithm with
  its cycle report, and the grouping of tasks that run in parallel. A graph maps a task name to
  the names it depends on. Python keeps these as a set; the model keeps a list without
  repetitions, whose order is the iteration order of the set (the theorems hold for any order).
\<close>

section \<open>Operations\<close>

type_synonym graph = "(string, string list) dict"

definition deps_of :: "graph \<Rightarrow> string \<Rightarrow> string list" where
  "deps_of g n = (case dict_get g n of None \<Rightarrow> [] | Some ds \<Rightarrow> ds)"

fun set_deps :: "(string, string list) dict \<Rightarrow> graph \<Rightarrow> graph" where
  "set_deps [] g = g"
| "set_deps ((task_name, deps) # rest) g = set_deps rest (dict_set task_name (remdups deps) g)"

fun empty_nodes :: "string list \<Rightarrow> graph \<Rightarrow> graph" where
  "empty_nodes [] g = g"
| "empty_nodes (n # ns) g = empty_nodes ns (dict_set n [] g)"

definition build_graph :: "string list \<Rightarrow> (string, string list) dict \<Rightarrow> graph" where
  "build_graph task_names dependencies = set_deps dependencies (empty_nodes task_names [])"

text \<open>
  The two loops that fill \<open>in_degree\<close> and \<open>reverse_adj\<close>; \<open>reverse_adj[dep]\<close> raises \<open>KeyError\<close> for
  a dependency that is not a node.
\<close>

fun add_reverse :: "string \<Rightarrow> string list \<Rightarrow> (string, string list) dict \<Rightarrow> (string, string list) dict result" where
  "add_reverse node [] radj = Inr radj"
| "add_reverse node (dep # deps) radj =
     (case dict_get radj dep of
        None \<Rightarrow> Inl KeyError
      | Some ns \<Rightarrow> add_reverse node deps (dict_set dep (ns @ [node]) radj))"

fun fill_reverse :: "graph \<Rightarrow> (string, string list) dict \<Rightarrow> (string, string list) dict result" where
  "fill_reverse [] radj = Inr radj"
| "fill_reverse ((node, deps) # rest) radj = bind_res (add_reverse node deps radj) (fill_reverse rest)"

definition in_degrees :: "graph \<Rightarrow> (string, int) dict" where
  "in_degrees g = dict_map (\<lambda>deps. int (length deps)) g"

text \<open>The body of Kahn's loop for one node: decrement the dependents, queue those that reach zero.\<close>

fun relax :: "string list \<Rightarrow> (string, int) dict \<Rightarrow> string list \<Rightarrow> ((string, int) dict \<times> string list) result" where
  "relax [] indeg queue = Inr (indeg, queue)"
| "relax (d # rest) indeg queue =
     (case dict_get indeg d of
        None \<Rightarrow> Inl KeyError
      | Some k \<Rightarrow>
          relax rest (dict_set d (k - 1) indeg)
            (if k - 1 = 0 then queue @ [d] else queue))"

definition positives :: "(string, int) dict \<Rightarrow> nat" where
  "positives indeg = length (filter (\<lambda>(_, k). 0 < k) indeg)"

lemma positives_set:
  "dict_get d n = Some k \<Longrightarrow>
   positives (dict_set n (k - 1) d) + (if k - 1 = 0 then 1 else 0) = positives d"
  by (induction d) (auto simp: positives_def dict_get_def dict_set_def split: if_splits)

lemma relax_measure:
  "relax ds indeg queue = Inr (indeg', queue') \<Longrightarrow>
   length queue' + positives indeg' = length queue + positives indeg"
proof (induction ds indeg queue rule: relax.induct)
  case (2 d rest indeg queue)
  then obtain k where k: "dict_get indeg d = Some k" by (auto split: option.splits)
  with 2 have "length queue' + positives indeg' =
    length (if k - 1 = 0 then queue @ [d] else queue) + positives (dict_set d (k - 1) indeg)"
    by simp
  also have "\<dots> = length queue + positives indeg"
    using positives_set [OF k] by (auto split: if_splits)
  finally show ?case .
qed simp

function kahn ::
  "(string, string list) dict \<Rightarrow> string list \<Rightarrow> (string, int) dict \<Rightarrow> string list \<Rightarrow> string list result" where
  "kahn radj [] indeg res = Inr res"
| "kahn radj (node # queue) indeg res =
     (case dict_get radj node of
        None \<Rightarrow> Inl KeyError
      | Some dependents \<Rightarrow>
          (case relax dependents indeg queue of
             Inl e \<Rightarrow> Inl e
           | Inr (indeg', queue') \<Rightarrow> kahn radj queue' indeg' (res @ [node])))"
  by pat_completeness auto
termination
  by (relation "measure (\<lambda>(radj, queue, indeg, res). length queue + positives indeg)")
    (auto dest: relax_measure)

text \<open>
  \<open>_find_cycle\<close>: depth-first search with the current path and the visited nodes. The fuel bounds
  the depth of the recursion; \<open>None\<close> is running out of it.
\<close>

fun dfs :: "nat \<Rightarrow> graph \<Rightarrow> string list \<Rightarrow> string \<Rightarrow> string list \<Rightarrow> string list \<Rightarrow> (string list option \<times> string list) option"
and dfs_deps :: "nat \<Rightarrow> graph \<Rightarrow> string list \<Rightarrow> string list \<Rightarrow> string list \<Rightarrow> string list \<Rightarrow> (string list option \<times> string list) option" where
  "dfs fuel g remaining node path visited =
     (if node \<in> set path
      then Some (Some (dropWhile (\<lambda>x. x \<noteq> node) path @ [node]), visited)
      else if node \<in> set visited then Some (None, visited)
      else (case fuel of
              0 \<Rightarrow> None
            | Suc f \<Rightarrow> dfs_deps f g remaining (deps_of g node) (path @ [node]) (node # visited)))"
| "dfs_deps fuel g remaining [] path visited = Some (None, visited)"
| "dfs_deps fuel g remaining (dep # deps) path visited =
     (if dep \<in> set remaining
      then (case dfs fuel g remaining dep path visited of
              None \<Rightarrow> None
            | Some (Some cycle, visited') \<Rightarrow> Some (Some cycle, visited')
            | Some (None, visited') \<Rightarrow> dfs_deps fuel g remaining deps path visited')
      else dfs_deps fuel g remaining deps path visited)"

declare dfs.simps [simp del]

fun find_cycle_loop :: "graph \<Rightarrow> string list \<Rightarrow> string list \<Rightarrow> string list \<Rightarrow> string list option" where
  "find_cycle_loop g remaining [] visited = Some remaining"
| "find_cycle_loop g remaining (node # nodes) visited =
     (case dfs (Suc (length remaining)) g remaining node [] visited of
        None \<Rightarrow> None
      | Some (Some cycle, _) \<Rightarrow> Some cycle
      | Some (None, visited') \<Rightarrow> find_cycle_loop g remaining nodes visited')"

definition find_cycle :: "graph \<Rightarrow> string list \<Rightarrow> string list option" where
  "find_cycle g remaining = find_cycle_loop g remaining remaining []"

definition topological_sort :: "graph \<Rightarrow> string list result" where
  "topological_sort g =
     (if g = [] then Inr []
      else bind_res (fill_reverse g (dict_map (\<lambda>_. []) g)) (\<lambda>radj.
        let queue = filter (\<lambda>n. dict_get (in_degrees g) n = Some 0) (dict_keys g)
        in bind_res (kahn radj queue (in_degrees g) []) (\<lambda>order.
             if length order \<noteq> length g
             then (let remaining = filter (\<lambda>n. n \<notin> set order) (dict_keys g)
                   in Inl (CycleError (case find_cycle g remaining of None \<Rightarrow> [] | Some c \<Rightarrow> c)))
             else Inr order)))"

fun depths :: "graph \<Rightarrow> string list \<Rightarrow> (string, nat) dict \<Rightarrow> (string, nat) dict result" where
  "depths g [] depth = Inr depth"
| "depths g (node # order) depth =
     (let deps = deps_of g node
      in if deps = [] then depths g order (dict_set node 0 depth)
         else if list_ex (\<lambda>d. dict_get depth d = None) deps then Inl KeyError
         else depths g order
                (dict_set node (Max (set (map (\<lambda>d. the (dict_get depth d)) deps)) + 1) depth))"

definition find_parallel_groups :: "graph \<Rightarrow> string list \<Rightarrow> string list list result" where
  "find_parallel_groups g order =
     (if order = [] then Inr []
      else bind_res (depths g order []) (\<lambda>depth.
        Inr (map (\<lambda>d. filter (\<lambda>n. dict_get depth n = Some d) (dict_keys depth))
               [0 ..< Suc (Max (set (dict_values depth)))])))"

section \<open>Specification\<close>

definition graph_wf :: "graph \<Rightarrow> bool" where
  "graph_wf g = (dict_wf g \<and> dict_all (\<lambda>_ ds. distinct ds) g)"

definition graph_closed :: "graph \<Rightarrow> bool" where
  "graph_closed g = dict_all (\<lambda>_ ds. list_all (\<lambda>d. d \<in> set (dict_keys g)) ds) g"

text \<open>\<open>deps_first g before ns\<close>: every node of \<open>ns\<close> comes after all its dependencies.\<close>

fun deps_first :: "graph \<Rightarrow> string list \<Rightarrow> string list \<Rightarrow> bool" where
  "deps_first g before [] = True"
| "deps_first g before (n # ns) = (set (deps_of g n) \<subseteq> set before \<and> deps_first g (before @ [n]) ns)"

definition is_order :: "graph \<Rightarrow> string list \<Rightarrow> bool" where
  "is_order g order = (distinct order \<and> set order = set (dict_keys g) \<and> deps_first g [] order)"

definition is_cycle :: "graph \<Rightarrow> string list \<Rightarrow> bool" where
  "is_cycle g c = (2 \<le> length c \<and> hd c = last c \<and> successively (\<lambda>x y. y \<in> set (deps_of g x)) c)"

section \<open>Building the graph\<close>

lemma set_deps_wf:
  "dict_wf g \<Longrightarrow> dict_all (\<lambda>_ ds. distinct ds) g \<Longrightarrow> graph_wf (set_deps deps g)"
  by (induction deps g rule: set_deps.induct) (auto simp: graph_wf_def intro!: dict_all_set)

lemma empty_nodes_wf:
  "dict_wf g \<Longrightarrow> dict_all (\<lambda>_ ds. distinct ds) g \<Longrightarrow>
   dict_wf (empty_nodes ns g) \<and> dict_all (\<lambda>_ ds. distinct ds) (empty_nodes ns g)"
  by (induction ns g rule: empty_nodes.induct) (simp_all add: dict_all_set)

lemma build_graph_wf: "graph_wf (build_graph names deps)"
  unfolding build_graph_def
  by (rule set_deps_wf) (simp_all add: empty_nodes_wf)

lemma set_deps_keys: "set (dict_keys (set_deps deps g)) = set (dict_keys g) \<union> set (dict_keys deps)"
proof (induction deps g rule: set_deps.induct)
  case (2 t ds rest g)
  have "dict_keys ((t, ds) # rest) = t # dict_keys rest" by (simp add: dict_keys_def)
  with 2 show ?case by (auto simp: dict_keys_set)
qed (simp add: dict_keys_def)

lemma empty_nodes_keys: "set (dict_keys (empty_nodes ns g)) = set (dict_keys g) \<union> set ns"
  by (induction ns g rule: empty_nodes.induct) (auto simp: dict_keys_set)

lemma build_graph_keys: "set (dict_keys (build_graph names deps)) = set names \<union> set (dict_keys deps)"
  by (simp add: build_graph_def set_deps_keys empty_nodes_keys) (simp add: dict_keys_def)

lemma set_deps_get:
  "dict_wf deps \<Longrightarrow> dict_get (set_deps deps g) n =
     (case dict_get deps n of None \<Rightarrow> dict_get g n | Some ds \<Rightarrow> Some (remdups ds))"
proof (induction deps g rule: set_deps.induct)
  case (2 t ds rest g)
  then have "dict_wf rest" "dict_get rest t = None"
    by (auto simp: dict_wf_def dict_get_def map_of_eq_None_iff)
  with 2 show ?case by (auto simp: dict_get_def [of "(t, ds) # rest"] dict_get_def [of rest, symmetric] split: option.splits)
qed simp

lemma empty_nodes_get:
  "dict_get (empty_nodes ns g) n = (if n \<in> set ns then Some [] else dict_get g n)"
  by (induction ns g rule: empty_nodes.induct) auto

lemma build_graph_deps:
  "dict_wf deps \<Longrightarrow>
   set (deps_of (build_graph names deps) n) = (case dict_get deps n of None \<Rightarrow> {} | Some ds \<Rightarrow> set ds)"
  by (simp add: build_graph_def deps_of_def set_deps_get empty_nodes_get split: option.splits)

section \<open>The loops of the topological sort\<close>

lemma add_reverse_ok:
  "distinct ds \<Longrightarrow> \<forall>d \<in> set ds. dict_get radj d \<noteq> None \<Longrightarrow>
   \<exists>radj'. add_reverse node ds radj = Inr radj' \<and>
     (\<forall>d. dict_get radj' d = map_option (\<lambda>ns. if d \<in> set ds then ns @ [node] else ns) (dict_get radj d))"
proof (induction ds arbitrary: radj)
  case (Cons x xs)
  then obtain ns where ns: "dict_get radj x = Some ns" by auto
  have "\<forall>d \<in> set xs. dict_get (dict_set x (ns @ [node]) radj) d \<noteq> None" using Cons.prems by auto
  with Cons.IH [of "dict_set x (ns @ [node]) radj"] Cons.prems(1) ns show ?case
    by (fastforce simp: option.map_comp comp_def)
qed (simp add: option.map_ident)

lemma add_reverse_missing:
  "d \<in> set ds \<Longrightarrow> dict_get radj d = None \<Longrightarrow> add_reverse node ds radj = Inl KeyError"
proof (induction ds arbitrary: radj)
  case (Cons a ds)
  show ?case
  proof (cases "dict_get radj a")
    case (Some ns)
    with Cons.prems have "d \<noteq> a" "d \<in> set ds" by auto
    with Cons Some show ?thesis by simp
  qed simp
qed simp

lemma add_reverse_error: "add_reverse node ds radj = Inl e \<Longrightarrow> e = KeyError"
  by (induction ds arbitrary: radj) (auto split: option.splits)

lemma add_reverse_dom:
  "add_reverse node ds radj = Inr radj' \<Longrightarrow> (dict_get radj' d = None \<longleftrightarrow> dict_get radj d = None)"
  by (induction ds arbitrary: radj) (auto split: option.splits)

lemma fill_reverse_ok:
  "dict_all (\<lambda>_ ds. distinct ds \<and> list_all (\<lambda>d. dict_get radj d \<noteq> None) ds) g \<Longrightarrow>
   \<exists>radj'. fill_reverse g radj = Inr radj' \<and>
     (\<forall>d. dict_get radj' d =
        map_option (\<lambda>ns. ns @ map fst (filter (\<lambda>(n, ds). d \<in> set ds) g)) (dict_get radj d))"
proof (induction g arbitrary: radj)
  case (Cons x g)
  obtain n ds where x: "x = (n, ds)" by force
  with Cons.prems have "distinct ds" "\<forall>d \<in> set ds. dict_get radj d \<noteq> None"
    by (auto simp: dict_all_def list_all_iff)
  from add_reverse_ok [OF this, of n] obtain r where r: "add_reverse n ds radj = Inr r"
    "\<And>d. dict_get r d = map_option (\<lambda>ns. if d \<in> set ds then ns @ [n] else ns) (dict_get radj d)" by blast
  have "dict_all (\<lambda>_ ds. distinct ds \<and> list_all (\<lambda>d. dict_get r d \<noteq> None) ds) g"
    using Cons.prems by (auto simp: dict_all_def list_all_iff r(2))
  from Cons.IH [OF this] obtain r' where r': "fill_reverse g r = Inr r'"
    "\<And>d. dict_get r' d = map_option (\<lambda>ns. ns @ map fst (filter (\<lambda>(n, ds). d \<in> set ds) g)) (dict_get r d)" by blast
  have "dict_get r' d = map_option (\<lambda>ns. ns @ map fst (filter (\<lambda>(n, ds). d \<in> set ds) (x # g))) (dict_get radj d)" for d
    unfolding r'(2) r(2) x by (auto simp: option.map_comp comp_def)
  then show ?case using r r' x by auto
qed (simp add: option.map_ident)

lemma fill_reverse_missing:
  "(n, ds) \<in> set g \<Longrightarrow> d \<in> set ds \<Longrightarrow> dict_get radj d = None \<Longrightarrow> fill_reverse g radj = Inl KeyError"
proof (induction g arbitrary: radj)
  case (Cons x g)
  obtain m es where x: "x = (m, es)" by force
  show ?case
  proof (cases "add_reverse m es radj")
    case (Inl e)
    then show ?thesis using add_reverse_error x by auto
  next
    case (Inr r)
    then have "dict_get r d = None" using Cons.prems(3) add_reverse_dom by blast
    moreover have "(n, ds) \<noteq> x" using Inr Cons.prems(2,3) x add_reverse_missing by fastforce
    ultimately show ?thesis using Cons x Inr by auto
  qed
qed simp

lemma relax_ok:
  "distinct ds \<Longrightarrow> \<forall>d \<in> set ds. dict_get indeg d \<noteq> None \<Longrightarrow>
   \<exists>indeg'. relax ds indeg queue = Inr (indeg', queue @ filter (\<lambda>d. dict_get indeg d = Some 1) ds) \<and>
     (\<forall>n. dict_get indeg' n = map_option (\<lambda>k. if n \<in> set ds then k - 1 else k) (dict_get indeg n))"
proof (induction ds arbitrary: indeg queue)
  case (Cons x xs)
  then obtain k where k: "dict_get indeg x = Some k" by auto
  let ?indeg = "dict_set x (k - 1) indeg" and ?queue = "if k - 1 = 0 then queue @ [x] else queue"
  have "\<forall>d \<in> set xs. dict_get ?indeg d \<noteq> None" using Cons.prems by auto
  with Cons.IH [of ?indeg ?queue] Cons.prems(1) obtain i where
    i: "relax xs ?indeg ?queue = Inr (i, ?queue @ filter (\<lambda>d. dict_get ?indeg d = Some 1) xs)"
    "\<And>n. dict_get i n = map_option (\<lambda>k. if n \<in> set xs then k - 1 else k) (dict_get ?indeg n)" by auto
  have "filter (\<lambda>d. dict_get ?indeg d = Some 1) xs = filter (\<lambda>d. dict_get indeg d = Some 1) xs"
    using Cons.prems(1) by (auto intro: filter_cong)
  then show ?case using i k Cons.prems(1) by auto
qed (simp add: option.map_ident)

section \<open>The topological sort\<close>

lemma deps_of_distinct: "graph_wf g \<Longrightarrow> distinct (deps_of g n)"
  by (auto simp: graph_wf_def deps_of_def split: option.splits)

lemma deps_of_closed: "graph_closed g \<Longrightarrow> set (deps_of g n) \<subseteq> set (dict_keys g)"
  by (cases "dict_get g n") (auto simp: graph_closed_def deps_of_def list_all_iff)

lemma deps_of_node: "d \<in> set (deps_of g n) \<Longrightarrow> n \<in> set (dict_keys g)"
  by (cases "dict_get g n") (auto simp: deps_of_def dict_get_keys)

text \<open>The dependents of a node, in the order in which the fill loop meets them.\<close>

definition rdeps :: "graph \<Rightarrow> string \<Rightarrow> string list" where
  "rdeps g d = map fst (filter (\<lambda>(n, ds). d \<in> set ds) g)"

lemma rdeps_iff: "graph_wf g \<Longrightarrow> n \<in> set (rdeps g d) \<longleftrightarrow> d \<in> set (deps_of g n)"
  by (force simp: rdeps_def deps_of_def graph_wf_def image_iff dict_get_iff [symmetric]
      split: option.splits)

lemma rdeps_distinct: "graph_wf g \<Longrightarrow> distinct (rdeps g d)"
  unfolding rdeps_def graph_wf_def dict_wf_def
  by (metis distinct_map_filter)

definition kahn_inv :: "graph \<Rightarrow> string list \<Rightarrow> (string, int) dict \<Rightarrow> string list \<Rightarrow> bool" where
  "kahn_inv g queue indeg res \<longleftrightarrow>
     distinct (res @ queue) \<and> set (res @ queue) \<subseteq> set (dict_keys g) \<and> deps_first g [] res \<and>
     (\<forall>n \<in> set (dict_keys g). dict_get indeg n = Some (int (card (set (deps_of g n) - set res)))) \<and>
     (\<forall>n \<in> set (dict_keys g). n \<in> set (res @ queue) \<longleftrightarrow> set (deps_of g n) \<subseteq> set res)"

lemma deps_first_snoc:
  "deps_first g before (ns @ [n]) \<longleftrightarrow> deps_first g before ns \<and> set (deps_of g n) \<subseteq> set (before @ ns)"
  by (induction ns arbitrary: before) auto

lemma card_Diff_insert_dep:
  "finite A \<Longrightarrow> x \<notin> B \<Longrightarrow>
   int (card (A - insert x B)) = (if x \<in> A then int (card (A - B)) - 1 else int (card (A - B)))"
proof -
  assume a: "finite A" "x \<notin> B"
  show ?thesis
  proof (cases "x \<in> A")
    case True
    then have "A - B = insert x (A - insert x B)" using a by auto
    then have "card (A - B) = Suc (card (A - insert x B))" using a by (metis Diff_iff card_insert_disjoint finite_Diff insertI1)
    then show ?thesis using True by simp
  next
    case False
    then have "A - insert x B = A - B" by auto
    then show ?thesis using False by simp
  qed
qed

lemma card_Diff_one:
  "finite A \<Longrightarrow> x \<notin> B \<Longrightarrow> x \<in> A \<Longrightarrow> card (A - B) = 1 \<longleftrightarrow> A \<subseteq> insert x B"
  by (simp add: card_1_singleton_iff set_eq_iff subset_iff) metis

lemma kahn_inv_step:
  assumes g: "graph_wf g" "graph_closed g" and inv: "kahn_inv g (node # queue) indeg res"
  shows "\<exists>indeg' queue'. relax (rdeps g node) indeg queue = Inr (indeg', queue') \<and>
           kahn_inv g queue' indeg' (res @ [node])"
proof -
  let ?K = "set (dict_keys g)" and ?D = "\<lambda>n. set (deps_of g n)"
  have node: "node \<in> ?K" "node \<notin> set res" "?D node \<subseteq> set res"
    and deg: "\<And>n. n \<in> ?K \<Longrightarrow> dict_get indeg n = Some (int (card (?D n - set res)))"
    and mem: "\<And>n. n \<in> ?K \<Longrightarrow> n \<in> set (res @ node # queue) \<longleftrightarrow> ?D n \<subseteq> set res"
    using inv unfolding kahn_inv_def by auto
  have rK: "set (rdeps g node) \<subseteq> ?K" using g deps_of_node by (auto simp: rdeps_iff)
  let ?new = "filter (\<lambda>d. dict_get indeg d = Some 1) (rdeps g node)"
  obtain i where i: "relax (rdeps g node) indeg queue = Inr (i, queue @ ?new)"
    "\<And>n. dict_get i n = map_option (\<lambda>k. if n \<in> set (rdeps g node) then k - 1 else k) (dict_get indeg n)"
    using relax_ok [OF rdeps_distinct [OF g(1)], of node indeg queue] rK deg by force
  have new: "n \<in> set ?new \<longleftrightarrow> node \<in> ?D n \<and> ?D n \<subseteq> insert node (set res)" if "n \<in> ?K" for n
    using card_Diff_one [of "?D n" node "set res"] node(2) deg [OF that] g(1) by (auto simp: rdeps_iff)
  have "kahn_inv g (queue @ ?new) i (res @ [node])"
    unfolding kahn_inv_def
  proof (intro conjI ballI)
    have "set ?new \<inter> set (res @ node # queue) = {}"
      using new mem node(2) rK by fastforce
    then show "distinct ((res @ [node]) @ queue @ ?new)"
      using inv g(1) unfolding kahn_inv_def by (auto simp: rdeps_distinct)
    show "set ((res @ [node]) @ queue @ ?new) \<subseteq> ?K" using inv rK unfolding kahn_inv_def by auto
    show "deps_first g [] (res @ [node])" using inv node(3) unfolding kahn_inv_def by (auto simp: deps_first_snoc)
  next
    fix n assume n: "n \<in> ?K"
    show "dict_get i n = Some (int (card (?D n - set (res @ [node]))))"
      using card_Diff_insert_dep [of "?D n" node "set res"] node(2) g(1)
      by (simp add: i(2) deg [OF n] rdeps_iff)
    show "n \<in> set ((res @ [node]) @ queue @ ?new) \<longleftrightarrow> ?D n \<subseteq> set (res @ [node])"
      using new [OF n] mem [OF n] by auto
  qed
  with i(1) show ?thesis by blast
qed

lemma kahn_ok:
  assumes g: "graph_wf g" "graph_closed g"
  shows "kahn_inv g queue indeg res \<Longrightarrow> \<forall>n \<in> set (dict_keys g). dict_get radj n = Some (rdeps g n) \<Longrightarrow>
    \<exists>order indeg'. kahn radj queue indeg res = Inr order \<and> kahn_inv g [] indeg' order"
proof (induction radj queue indeg res rule: kahn.induct)
  case (2 radj node queue indeg res)
  have "node \<in> set (dict_keys g)" using 2(2) unfolding kahn_inv_def by auto
  with 2(3) have r: "dict_get radj node = Some (rdeps g node)" by blast
  from kahn_inv_step [OF g 2(2)] obtain i q where
    iq: "relax (rdeps g node) indeg queue = Inr (i, q)" "kahn_inv g q i (res @ [node])" by blast
  from 2(1) [OF r iq(1) refl iq(2) 2(3)] show ?case using r iq(1) by simp
qed auto

lemma kahn_inv_start:
  assumes "graph_wf g"
  shows "kahn_inv g (filter (\<lambda>n. dict_get (in_degrees g) n = Some 0) (dict_keys g)) (in_degrees g) []"
proof -
  have "dict_get (in_degrees g) n = Some (int (card (set (deps_of g n))))" if "n \<in> set (dict_keys g)" for n
  proof -
    from that obtain ds where "dict_get g n = Some ds" using dict_get_None_iff by fastforce
    then show ?thesis
      using deps_of_distinct [OF assms, of n] by (simp add: in_degrees_def deps_of_def distinct_card)
  qed
  moreover have "distinct (dict_keys g)" using assms by (simp add: graph_wf_def dict_wf_def dict_keys_def)
  ultimately show ?thesis unfolding kahn_inv_def by auto
qed

lemma fill_reverse_rdeps:
  assumes "graph_wf g" "graph_closed g"
  shows "\<exists>radj. fill_reverse g (dict_map (\<lambda>_. []) g) = Inr radj \<and>
           (\<forall>n \<in> set (dict_keys g). dict_get radj n = Some (rdeps g n))"
proof -
  have "dict_all (\<lambda>_ ds. distinct ds \<and> list_all (\<lambda>d. dict_get (dict_map (\<lambda>_. []) g) d \<noteq> None) ds) g"
    using assms by (auto simp: graph_wf_def graph_closed_def dict_all_def list_all_iff dict_get_None_iff)
  from fill_reverse_ok [OF this] obtain r where r: "fill_reverse g (dict_map (\<lambda>_. []) g) = Inr r"
    "\<And>d. dict_get r d = map_option (\<lambda>ns. ns @ rdeps g d) (map_option (\<lambda>_. []) (dict_get g d))"
    unfolding rdeps_def by auto
  have "dict_get r n = Some (rdeps g n)" if "n \<in> set (dict_keys g)" for n
    using that dict_get_None_iff [of g n] by (cases "dict_get g n") (auto simp: r(2))
  with r(1) show ?thesis by blast
qed

subsection \<open>The reported cycle\<close>

lemma successively_dropWhile: "successively P xs \<Longrightarrow> successively P (dropWhile Q xs)"
  by (induction xs rule: induct_list012) auto

lemma path_closes_cycle:
  assumes "node \<in> set path" "successively (\<lambda>x y. y \<in> set (deps_of g x)) (path @ [node])"
  shows "is_cycle g (dropWhile (\<lambda>x. x \<noteq> node) path @ [node])"
proof -
  let ?d = "dropWhile (\<lambda>x. x \<noteq> node) path"
  have ne: "?d \<noteq> []" using assms(1) by (auto simp: dropWhile_eq_Nil_conv)
  then have "hd ?d = node" using hd_dropWhile by blast
  moreover have "dropWhile (\<lambda>x. x \<noteq> node) (path @ [node]) = ?d @ [node]"
    using assms(1) by (auto intro: dropWhile_append1)
  ultimately show ?thesis
    using ne successively_dropWhile [OF assms(2), of "\<lambda>x. x \<noteq> node"] by (cases ?d) (auto simp: is_cycle_def)
qed

lemma dfs_deps_finds:
  "\<exists>d \<in> set ds. d \<in> set remaining \<Longrightarrow>
   \<forall>d \<in> set ds. d \<in> set remaining \<longrightarrow> (\<exists>c v. dfs f g remaining d path visited = Some (Some c, v) \<and> is_cycle g c) \<Longrightarrow>
   \<exists>c v. dfs_deps f g remaining ds path visited = Some (Some c, v) \<and> is_cycle g c"
proof (induction ds)
  case (Cons d ds)
  show ?case
  proof (cases "d \<in> set remaining")
    case True
    with Cons.prems(2) obtain c v where "dfs f g remaining d path visited = Some (Some c, v)" "is_cycle g c" by auto
    with True show ?thesis by simp
  next
    case False
    with Cons show ?thesis by simp
  qed
qed simp

lemma dfs_finds:
  assumes rem: "\<forall>n \<in> set remaining. \<exists>d \<in> set (deps_of g n). d \<in> set remaining"
  shows "node \<in> set remaining \<Longrightarrow> set path \<subseteq> set remaining \<Longrightarrow> set visited = set path \<Longrightarrow>
    successively (\<lambda>x y. y \<in> set (deps_of g x)) (path @ [node]) \<Longrightarrow>
    card (set remaining - set path) \<le> fuel \<Longrightarrow>
    \<exists>c v. dfs fuel g remaining node path visited = Some (Some c, v) \<and> is_cycle g c"
proof (induction fuel arbitrary: node path visited)
  case 0
  then have "set remaining - set path = {}" by simp
  then have "node \<in> set path" using 0 by blast
  then show ?case using path_closes_cycle 0 by (simp add: dfs.simps)
next
  case (Suc f)
  show ?case
  proof (cases "node \<in> set path")
    case True
    then show ?thesis using path_closes_cycle Suc.prems by (simp add: dfs.simps)
  next
    case False
    have "set remaining - set path = insert node (set remaining - set (path @ [node]))"
      using False Suc.prems(1) by auto
    then have c: "card (set remaining - set (path @ [node])) \<le> f"
      using Suc.prems(5) by (metis (no_types, lifting) Diff_iff List.finite_set UnI2 card_insert_disjoint finite_Diff list.set_intros(1) not_less_eq_eq set_append)
    have "\<exists>c v. dfs f g remaining d (path @ [node]) (node # visited) = Some (Some c, v) \<and> is_cycle g c"
      if "d \<in> set (deps_of g node)" "d \<in> set remaining" for d
      by (rule Suc.IH) (use that Suc.prems c in \<open>auto simp: successively_append_iff\<close>)
    then have "\<exists>c v. dfs_deps f g remaining (deps_of g node) (path @ [node]) (node # visited) = Some (Some c, v) \<and> is_cycle g c"
      by (intro dfs_deps_finds) (use rem Suc.prems(1) in auto)
    then show ?thesis using False Suc.prems(3) by (simp add: dfs.simps)
  qed
qed

lemma find_cycle_finds:
  assumes "remaining \<noteq> []" "\<forall>n \<in> set remaining. \<exists>d \<in> set (deps_of g n). d \<in> set remaining"
  shows "\<exists>c. find_cycle g remaining = Some c \<and> is_cycle g c"
proof -
  obtain x xs where x: "remaining = x # xs" using assms(1) by (cases remaining) auto
  have "card (set remaining - set []) \<le> Suc (length remaining)" by (simp add: card_length le_SucI)
  then have "\<exists>c v. dfs (Suc (length remaining)) g remaining x [] [] = Some (Some c, v) \<and> is_cycle g c"
    using dfs_finds [OF assms(2), of x "[]" "[]" "Suc (length remaining)"] x by simp
  then show ?thesis unfolding find_cycle_def using x by auto
qed

subsection \<open>An order excludes a cycle\<close>

lemma successively_pred:
  "successively P xs \<Longrightarrow> y \<in> set (tl xs) \<Longrightarrow> \<exists>x \<in> set xs. P x y"
  by (induction xs rule: induct_list012) auto

lemma is_cycle_pred: "is_cycle g c \<Longrightarrow> x \<in> set c \<Longrightarrow> \<exists>y \<in> set c. x \<in> set (deps_of g y)"
proof -
  assume c: "is_cycle g c" "x \<in> set c"
  then have "x \<in> set (tl c)" by (cases c rule: list.exhaust; cases "tl c") (auto simp: is_cycle_def split: if_splits)
  then show ?thesis using c successively_pred unfolding is_cycle_def by fastforce
qed

lemma deps_first_closed:
  "deps_first g before ns \<Longrightarrow> x \<in> set ns \<Longrightarrow> set (deps_of g x) \<subseteq> set before \<union> set ns"
  by (induction ns arbitrary: before) fastforce+

lemma deps_first_acyclic:
  "deps_first g [] ns \<Longrightarrow> distinct ns \<Longrightarrow> set c \<subseteq> set ns \<Longrightarrow> \<not> is_cycle g c"
proof (induction ns rule: rev_induct)
  case (snoc n ns)
  then have ns: "deps_first g [] ns" "set (deps_of g n) \<subseteq> set ns" "n \<notin> set ns" by (auto simp: deps_first_snoc)
  have "n \<notin> set c" if "is_cycle g c"
    using is_cycle_pred [OF that] ns deps_first_closed [OF ns(1)] snoc.prems(3) by fastforce
  then show ?case using snoc ns(1) by fastforce
qed (auto simp: is_cycle_def)

lemma is_order_acyclic: "graph_closed g \<Longrightarrow> is_order g order \<Longrightarrow> \<not> is_cycle g c"
proof
  assume a: "graph_closed g" "is_order g order" "is_cycle g c"
  then have "set c \<subseteq> set order"
    using is_cycle_pred deps_of_closed unfolding is_order_def by fastforce
  then show False using a deps_first_acyclic unfolding is_order_def by blast
qed

subsection \<open>Results\<close>

lemma kahn_inv_final:
  assumes "graph_wf g" "graph_closed g" "kahn_inv g [] indeg order"
  shows "length order = length g \<longleftrightarrow> is_order g order"
    and "\<forall>n \<in> set (dict_keys g) - set order. \<exists>d \<in> set (deps_of g n). d \<in> set (dict_keys g) - set order"
proof -
  have d: "distinct order" "set order \<subseteq> set (dict_keys g)" "deps_first g [] order"
    using assms(3) unfolding kahn_inv_def by auto
  have k: "card (set (dict_keys g)) = length g"
    using assms(1) by (simp add: graph_wf_def dict_wf_def dict_keys_def distinct_card [symmetric])
      (metis distinct_card length_map list.set_map)
  have "length order = length g \<longleftrightarrow> set order = set (dict_keys g)"
    using d k by (metis List.finite_set card_subset_eq distinct_card)
  then show "length order = length g \<longleftrightarrow> is_order g order" using d by (auto simp: is_order_def)
  show "\<forall>n \<in> set (dict_keys g) - set order. \<exists>d \<in> set (deps_of g n). d \<in> set (dict_keys g) - set order"
    using assms(3) deps_of_closed [OF assms(2)] unfolding kahn_inv_def by fastforce
qed

lemma topological_sort_cases:
  assumes "graph_wf g" "graph_closed g"
  shows "(\<exists>order. topological_sort g = Inr order \<and> is_order g order) \<or>
         (\<exists>c. topological_sort g = Inl (CycleError c) \<and> is_cycle g c)"
proof (cases "g = []")
  case False
  let ?queue = "filter (\<lambda>n. dict_get (in_degrees g) n = Some 0) (dict_keys g)"
  from fill_reverse_rdeps [OF assms] obtain radj where
    r: "fill_reverse g (dict_map (\<lambda>_. []) g) = Inr radj" "\<forall>n \<in> set (dict_keys g). dict_get radj n = Some (rdeps g n)" by blast
  from kahn_ok [OF assms kahn_inv_start [OF assms(1)] r(2)] obtain order i where
    k: "kahn radj ?queue (in_degrees g) [] = Inr order" "kahn_inv g [] i order" by blast
  note final = kahn_inv_final [OF assms k(2)]
  show ?thesis
  proof (cases "length order = length g")
    case True
    then have "topological_sort g = Inr order" using False r(1) k(1) by (simp add: topological_sort_def)
    then show ?thesis using final(1) True by blast
  next
    case len: False
    let ?rem = "filter (\<lambda>n. n \<notin> set order) (dict_keys g)"
    have "set order \<noteq> set (dict_keys g)"
      using len final(1) k(2) unfolding is_order_def kahn_inv_def by auto
    then have "?rem \<noteq> []" using k(2) unfolding kahn_inv_def by (auto simp: filter_empty_conv)
    moreover have "\<forall>n \<in> set ?rem. \<exists>d \<in> set (deps_of g n). d \<in> set ?rem" using final(2) by simp
    ultimately obtain c where "find_cycle g ?rem = Some c" "is_cycle g c"
      using find_cycle_finds by blast
    then show ?thesis using False r(1) k(1) len by (simp add: topological_sort_def Let_def)
  qed
qed (simp add: topological_sort_def is_order_def dict_keys_def)

lemma topological_sort_missing:
  assumes "\<not> graph_closed g" shows "topological_sort g = Inl KeyError"
proof -
  from assms obtain n ds d where nd: "(n, ds) \<in> set g" "d \<in> set ds" "d \<notin> set (dict_keys g)"
    by (auto simp: graph_closed_def dict_all_def list_all_iff)
  then have "dict_get (dict_map (\<lambda>_. []) g) d = None" by (simp add: dict_get_None_iff)
  from fill_reverse_missing [OF nd(1,2) this] nd(1) show ?thesis
    by (auto simp: topological_sort_def)
qed

text \<open>
  C8. \<open>topological_sort\<close> on the graph \<open>build_graph\<close> makes has exactly three outcomes: it raises
  \<open>KeyError\<close> if and only if some dependency is not a node; otherwise it returns an order that lists
  every node once and after all its dependencies if and only if the graph has no cycle; otherwise
  it raises \<open>CycleError\<close> with a genuine cycle of the graph.
\<close>

theorem topological_sort_correct:
  "case topological_sort (build_graph task_names dependencies) of
     Inl (CycleError c) \<Rightarrow> graph_closed (build_graph task_names dependencies) \<and> is_cycle (build_graph task_names dependencies) c
   | Inl e \<Rightarrow> e = KeyError \<and> \<not> graph_closed (build_graph task_names dependencies)
   | Inr order \<Rightarrow> graph_closed (build_graph task_names dependencies) \<and>
        is_order (build_graph task_names dependencies) order \<and> (\<nexists>c. is_cycle (build_graph task_names dependencies) c)"
proof (cases "graph_closed (build_graph task_names dependencies)")
  case True
  from topological_sort_cases [OF build_graph_wf this] show ?thesis
    using True is_order_acyclic [OF True] by auto
qed (simp add: topological_sort_missing)

section \<open>Parallel groups\<close>

definition depth_ok :: "graph \<Rightarrow> (string, nat) dict \<Rightarrow> bool" where
  "depth_ok g depth = (\<forall>n k. dict_get depth n = Some k \<longrightarrow>
     (\<forall>d \<in> set (deps_of g n). \<exists>j < k. dict_get depth d = Some j) \<and>
     (0 < k \<longrightarrow> (\<exists>d \<in> set (deps_of g n). dict_get depth d = Some (k - 1))))"

lemma depth_ok_set:
  assumes ok: "depth_ok g depth" and new: "dict_get depth n = None"
    and lt: "\<And>d. d \<in> set (deps_of g n) \<Longrightarrow> \<exists>j < k. dict_get depth d = Some j"
    and tight: "0 < k \<Longrightarrow> \<exists>d \<in> set (deps_of g n). dict_get depth d = Some (k - 1)"
  shows "depth_ok g (dict_set n k depth)"
proof -
  have keep: "dict_get (dict_set n k depth) d = Some j" if "dict_get depth d = Some j" for d j
    using that new by auto
  show ?thesis
    unfolding depth_ok_def
  proof (intro allI impI)
    fix m j assume m: "dict_get (dict_set n k depth) m = Some j"
    show "(\<forall>d \<in> set (deps_of g m). \<exists>i < j. dict_get (dict_set n k depth) d = Some i) \<and>
          (0 < j \<longrightarrow> (\<exists>d \<in> set (deps_of g m). dict_get (dict_set n k depth) d = Some (j - 1)))"
    proof (cases "m = n")
      case True
      then show ?thesis using m lt tight keep by (metis dict_get_set option.inject)
    next
      case False
      then show ?thesis using m ok keep unfolding depth_ok_def by (metis dict_get_set)
    qed
  qed
qed

lemma max_depth:
  fixes f :: "string \<Rightarrow> nat"
  assumes "ds \<noteq> []" defines "k \<equiv> Max (set (map f ds)) + 1"
  shows "\<forall>d \<in> set ds. f d < k" "\<exists>d \<in> set ds. f d = k - 1"
proof -
  show "\<forall>d \<in> set ds. f d < k" by (auto simp: k_def less_Suc_eq_le)
  have "Max (set (map f ds)) \<in> set (map f ds)" using assms(1) by (intro Max_in) auto
  then show "\<exists>d \<in> set ds. f d = k - 1" by (auto simp: k_def)
qed

lemma depths_ok:
  "deps_first g before ns \<Longrightarrow> distinct (before @ ns) \<Longrightarrow> dict_wf depth \<Longrightarrow> set (dict_keys depth) = set before \<Longrightarrow>
   depth_ok g depth \<Longrightarrow>
   \<exists>depth'. depths g ns depth = Inr depth' \<and> dict_wf depth' \<and> set (dict_keys depth') = set (before @ ns) \<and> depth_ok g depth'"
proof (induction ns arbitrary: before depth)
  case (Cons n ns)
  let ?ds = "deps_of g n"
  define k where "k = (if ?ds = [] then 0 else Max (set (map (\<lambda>d. the (dict_get depth d)) ?ds)) + 1)"
  have known: "\<exists>j. dict_get depth d = Some j" if "d \<in> set ?ds" for d
    using that Cons.prems(1,4) dict_get_None_iff [of depth d] by auto
  have "\<not> list_ex (\<lambda>d. dict_get depth d = None) ?ds" using known by (force simp: list_ex_iff)
  then have "depths g (n # ns) depth = depths g ns (dict_set n k depth)" by (auto simp: k_def Let_def)
  moreover have "depth_ok g (dict_set n k depth)"
  proof (rule depth_ok_set [OF Cons.prems(5)])
    show "dict_get depth n = None" using Cons.prems(2,4) by (auto simp: dict_get_None_iff)
    show "\<exists>j<k. dict_get depth d = Some j" if "d \<in> set ?ds" for d
      using that known [OF that] max_depth(1) [of ?ds "\<lambda>d. the (dict_get depth d)"] by (force simp: k_def)
    show "\<exists>d \<in> set ?ds. dict_get depth d = Some (k - 1)" if "0 < k"
      using that known max_depth(2) [of ?ds "\<lambda>d. the (dict_get depth d)"] by (fastforce simp: k_def split: if_splits)
  qed
  moreover have "set (dict_keys (dict_set n k depth)) = set (before @ [n])" using Cons.prems(4) by (auto simp: dict_keys_set)
  ultimately show ?case
    using Cons.IH [of "before @ [n]" "dict_set n k depth"] Cons.prems by auto
qed simp

lemma depth_groups:
  assumes "dict_wf depth" "depth \<noteq> []"
  defines "groups \<equiv> map (\<lambda>d. filter (\<lambda>n. dict_get depth n = Some d) (dict_keys depth)) [0 ..< Suc (Max (set (dict_values depth)))]"
  shows "n \<in> set (dict_keys depth) \<Longrightarrow> \<exists>i < length groups. dict_get depth n = Some i"
    and "i < length groups \<Longrightarrow> n \<in> set (groups ! i) \<longleftrightarrow> dict_get depth n = Some i"
    and "i < length groups \<Longrightarrow> distinct (groups ! i)"
proof -
  assume "n \<in> set (dict_keys depth)"
  then obtain k where k: "dict_get depth n = Some k" using dict_get_None_iff by fastforce
  then have "k \<le> Max (set (dict_values depth))" by (intro Max_ge) (auto dest: dict_get_values)
  then show "\<exists>i < length groups. dict_get depth n = Some i" using k by (auto simp: groups_def)
next
  assume i: "i < length groups"
  show "n \<in> set (groups ! i) \<longleftrightarrow> dict_get depth n = Some i"
    using i by (auto simp: groups_def simp del: upt_Suc dest: dict_get_keys)
  show "distinct (groups ! i)"
    using i assms(1) by (auto simp: groups_def dict_wf_def dict_keys_def simp del: upt_Suc)
qed

lemma parallel_groups_ok:
  assumes "topological_sort (build_graph task_names dependencies) = Inr order"
  shows "\<exists>groups. find_parallel_groups (build_graph task_names dependencies) order = Inr groups \<and>
    (\<forall>n. n \<in> set order \<longleftrightarrow> (\<exists>!i. i < length groups \<and> n \<in> set (groups ! i))) \<and>
    (\<forall>i < length groups. \<forall>n \<in> set (groups ! i). \<forall>d \<in> set (deps_of (build_graph task_names dependencies) n).
       \<exists>j < i. d \<in> set (groups ! j)) \<and>
    (\<forall>i < length groups. 0 < i \<longrightarrow> (\<forall>n \<in> set (groups ! i).
       \<exists>d \<in> set (deps_of (build_graph task_names dependencies) n). d \<in> set (groups ! (i - 1))))"
proof (cases "order = []")
  case True
  then show ?thesis by (auto simp: find_parallel_groups_def)
next
  case False
  let ?g = "build_graph task_names dependencies"
  have "is_order ?g order"
    using topological_sort_cases [OF build_graph_wf] topological_sort_missing assms by (metis Inl_Inr_False sum.inject(2))
  then obtain depth where d: "depths ?g order [] = Inr depth" "dict_wf depth" "set (dict_keys depth) = set order" "depth_ok ?g depth"
    using depths_ok [of ?g "[]" order "[]"] by (auto simp: is_order_def depth_ok_def dict_keys_def)
  then have "depth \<noteq> []" using False by (auto simp: dict_keys_def)
  note g = depth_groups [OF d(2) this]
  define groups where "groups = map (\<lambda>d. filter (\<lambda>n. dict_get depth n = Some d) (dict_keys depth)) [0 ..< Suc (Max (set (dict_values depth)))]"
  note g = g [folded groups_def]
  have "find_parallel_groups ?g order = Inr groups"
    using d(1) False by (simp add: find_parallel_groups_def groups_def)
  moreover have "\<forall>n. n \<in> set order \<longleftrightarrow> (\<exists>!i. i < length groups \<and> n \<in> set (groups ! i))"
    using g(1,2) d(3) dict_get_keys by (metis option.inject)
  moreover have "\<exists>j < i. d \<in> set (groups ! j)"
    if "i < length groups" "n \<in> set (groups ! i)" "d \<in> set (deps_of ?g n)" for i n d
    using that d(4) g(2) unfolding depth_ok_def by (meson order.strict_trans)
  moreover have "\<exists>d \<in> set (deps_of ?g n). d \<in> set (groups ! (i - 1))"
    if "i < length groups" "0 < i" "n \<in> set (groups ! i)" for i n
    using that d(4) g(2) unfolding depth_ok_def by (meson diff_less less_imp_diff_less zero_less_one)
  ultimately show ?thesis by blast
qed

text \<open>
  On the order of a successful sort, \<open>find_parallel_groups\<close> succeeds, and its groups split the
  nodes: every node is in exactly one group. Each dependency of a node is in an earlier group, and
  a node outside the first group has a dependency in the group just before its own, so no node
  could run earlier.
\<close>

theorem find_parallel_groups_correct:
  assumes "topological_sort (build_graph task_names dependencies) = Inr order"
  shows "\<exists>groups. find_parallel_groups (build_graph task_names dependencies) order = Inr groups \<and>
    (\<forall>n. n \<in> set order \<longleftrightarrow> (\<exists>!i. i < length groups \<and> n \<in> set (groups ! i))) \<and>
    (\<forall>i < length groups. \<forall>n \<in> set (groups ! i). \<forall>d \<in> set (deps_of (build_graph task_names dependencies) n).
       \<exists>j < i. d \<in> set (groups ! j)) \<and>
    (\<forall>i < length groups. 0 < i \<longrightarrow> (\<forall>n \<in> set (groups ! i).
       \<exists>d \<in> set (deps_of (build_graph task_names dependencies) n). d \<in> set (groups ! (i - 1))))"
  using assms by (rule parallel_groups_ok)

theorem find_parallel_groups_correct_witness:
  "topological_sort (build_graph [''a'', ''b''] [(''b'', [''a''])]) = Inr [''a'', ''b''] \<and>
   (\<exists>groups. find_parallel_groups (build_graph [''a'', ''b''] [(''b'', [''a''])]) [''a'', ''b''] = Inr groups \<and>
      (\<exists>!i. i < length groups \<and> ''b'' \<in> set (groups ! i)))"
proof -
  have sort: "topological_sort (build_graph [''a'', ''b''] [(''b'', [''a''])]) = Inr [''a'', ''b'']" by code_simp
  from find_parallel_groups_correct [OF sort] obtain groups where
    groups: "find_parallel_groups (build_graph [''a'', ''b''] [(''b'', [''a''])]) [''a'', ''b''] = Inr groups"
    and mem: "\<forall>n. n \<in> set [''a'', ''b''] \<longleftrightarrow> (\<exists>!i. i < length groups \<and> n \<in> set (groups ! i))"
    by (elim exE conjE)
  have "\<exists>!i. i < length groups \<and> ''b'' \<in> set (groups ! i)"
    by (rule mem [rule_format, THEN iffD1]) simp
  with sort groups show ?thesis by (intro conjI exI)
qed

end
