(* ===== verification/Validator.thy ===== *)
theory Validator
  imports Task_Graph "HOL-Library.Char_ord" "HOL-Library.List_Lexorder"
begin

text \<open>
  The workflow data model, \<open>protocols/_types/_task.py\<close>, \<open>protocols/_types/_checks.py\<close> and
  \<open>scheduler/_types.py\<close>, and the static validation of a workflow, \<open>scheduler/_validator.py\<close>.

  A \<open>TaskSpec\<close> is a record of its plain fields together with the fields that hold tasks and
  executions again (\<open>prechecks\<close>, \<open>postchecks\<close>, \<open>subtasks\<close>). An error message is a constructor
  with the names the message mentions. The theorem of this theory characterises the workflows that pass:
  validation returns the empty list if and only if every task of the tree is well formed, the
  names of siblings differ, and the dependencies name known tasks and have no cycle.
\<close>

section \<open>Data\<close>

datatype severity = CRITICAL | MAJOR | MINOR | NIT

record task_fields =
  ts_name :: string
  ts_agent :: "string option"
  ts_task_prompt :: "string option"
  ts_callable :: "string option"
  ts_wait_for :: "string option"
  ts_decision_point :: "bool option"
  ts_orchestrator :: "bool option"
  ts_variables :: "string list"
  ts_depends_on :: "string list option"
  ts_category :: "string option"
  ts_timeout :: "int option"
  ts_context_refinement :: "bool option"
  ts_retry :: int
  ts_retry_resume :: "bool option"
  ts_retry_inject_failure :: "bool option"
  ts_for_each :: "string option"
  ts_for_each_abort_on_failure :: "bool option"
  ts_max_concurrency :: "int option"
  ts_output_schema :: "string option"
  ts_budget :: "decimal option"
  ts_execution_target :: "string option"
  ts_write_paths :: "string list option"
  ts_on_success :: "string option"
  ts_pre_retry :: "string option"

record script_execution =
  se_callable :: string

record agent_execution =
  ae_agent :: string
  ae_task :: string
  ae_block_threshold :: severity
  ae_variables :: "string list"

datatype task_spec =
  TaskSpec (spec_fields: task_fields) (prechecks: "execution list") (postchecks: "execution list")
    (subtasks: "task_spec list option")
and execution =
    ScriptExecution script_execution
  | AgentExecution agent_execution
  | WorkflowExecution (we_name: string) (we_description: string) (we_tasks: "task_spec list")
      (we_postchecks: "execution list") (we_budget: "decimal option")

definition task_defaults :: "string \<Rightarrow> task_fields" where
  "task_defaults name =
     \<lparr>ts_name = name, ts_agent = None, ts_task_prompt = None, ts_callable = None, ts_wait_for = None,
      ts_decision_point = None, ts_orchestrator = None, ts_variables = [], ts_depends_on = None,
      ts_category = None, ts_timeout = None, ts_context_refinement = None, ts_retry = 0,
      ts_retry_resume = None, ts_retry_inject_failure = None, ts_for_each = None,
      ts_for_each_abort_on_failure = None, ts_max_concurrency = None, ts_output_schema = None,
      ts_budget = None, ts_execution_target = None, ts_write_paths = None, ts_on_success = None,
      ts_pre_retry = None\<rparr>"

abbreviation task_name :: "task_spec \<Rightarrow> string" where
  "task_name t \<equiv> ts_name (spec_fields t)"

datatype escalation_policy = CONTINUE_INDEPENDENT | HALT | ABORT_ALL

record service_config =
  sc_name :: string
  sc_start_command :: string
  sc_health_check_command :: "string option"
  sc_stop_command :: string
  sc_port :: "int option"
  sc_ready_timeout :: int

record workflow_config =
  wc_name :: string
  wc_description :: string
  wc_tasks :: "task_spec list"
  wc_dependencies :: "(string, string list) dict"
  wc_escalation_policy :: escalation_policy
  wc_services :: "service_config list"

datatype validation_error =
    AgentWithoutPrompt string
  | PromptWithoutAgent string
  | MissingTimeout string
  | MissingContextRefinement string
  | MissingRetryResume string
  | MissingRetryInjectFailure string
  | MissingForEachAbort string
  | MissingMaxConcurrency string
  | NoExecutionMode string
  | MultipleExecutionModes string
  | HeadlessRefinement string
  | HeadlessDecisionPoint string
  | DuplicateName string
  | UnknownSource string
  | UnknownTarget string
  | DependencyCycle "string list"
  | VariableCollision string

section \<open>Operations\<close>

definition OUTPUT_SUFFIXES :: "string list" where
  "OUTPUT_SUFFIXES = [''_output'', ''_text'', ''_result'']"

definition count_execution_modes :: "task_spec \<Rightarrow> nat" where
  "count_execution_modes t =
     (if ts_agent (spec_fields t) \<noteq> None \<or> ts_task_prompt (spec_fields t) \<noteq> None then 1 else 0) +
     (if ts_callable (spec_fields t) \<noteq> None then 1 else 0) +
     (if subtasks t \<noteq> None then 1 else 0) +
     (if ts_wait_for (spec_fields t) \<noteq> None then 1 else 0) +
     (if ts_decision_point (spec_fields t) \<noteq> None then 1 else 0)"

definition has_agent_mode :: "task_fields \<Rightarrow> bool" where
  "has_agent_mode f = (ts_agent f \<noteq> None \<and> ts_task_prompt f \<noteq> None)"

definition validate_agent_fields :: "task_fields \<Rightarrow> validation_error list" where
  "validate_agent_fields f =
     (if ts_agent f \<noteq> None \<and> ts_task_prompt f = None then [AgentWithoutPrompt (ts_name f)] else []) @
     (if ts_task_prompt f \<noteq> None \<and> ts_agent f = None then [PromptWithoutAgent (ts_name f)] else []) @
     (if has_agent_mode f
      then (if ts_timeout f = None then [MissingTimeout (ts_name f)] else []) @
           (if ts_context_refinement f = None then [MissingContextRefinement (ts_name f)] else [])
      else [])"

definition validate_conditional_fields :: "task_fields \<Rightarrow> validation_error list" where
  "validate_conditional_fields f =
     (if ts_retry f > 0
      then (if ts_retry_resume f = None then [MissingRetryResume (ts_name f)] else []) @
           (if ts_retry_inject_failure f = None then [MissingRetryInjectFailure (ts_name f)] else [])
      else []) @
     (if ts_for_each f \<noteq> None
      then (if ts_for_each_abort_on_failure f = None then [MissingForEachAbort (ts_name f)] else []) @
           (if ts_max_concurrency f = None then [MissingMaxConcurrency (ts_name f)] else [])
      else [])"

text \<open>
  \<open>_validate_task\<close> appends to \<open>errors\<close> and adds to \<open>seen_names\<close>: the model returns the errors
  appended and the names seen. The part before the duplicate check is \<open>validate_own\<close>.
\<close>

definition validate_own :: "bool \<Rightarrow> task_spec \<Rightarrow> validation_error list" where
  "validate_own headless t =
     (let f = spec_fields t; mode_count = count_execution_modes t
      in (if mode_count = 0 then [NoExecutionMode (ts_name f)]
          else if mode_count > 1 then [MultipleExecutionModes (ts_name f)] else []) @
         validate_agent_fields f @ validate_conditional_fields f @
         (if headless
          then (if ts_context_refinement f = Some True then [HeadlessRefinement (ts_name f)] else []) @
               (if ts_decision_point f = Some True then [HeadlessDecisionPoint (ts_name f)] else [])
          else []))"

lemma subtasks_size: "subtasks t = Some subs \<Longrightarrow> size_list size subs < size t"
  by (cases t) auto

function validate_task :: "bool \<Rightarrow> task_spec \<Rightarrow> string list \<Rightarrow> validation_error list \<times> string list"
and validate_tasks :: "bool \<Rightarrow> task_spec list \<Rightarrow> string list \<Rightarrow> validation_error list" where
  "validate_task headless t seen =
     (validate_own headless t @
      (if task_name t \<in> set seen then [DuplicateName (task_name t)] else []) @
      (case subtasks t of None \<Rightarrow> [] | Some subs \<Rightarrow> validate_tasks headless subs []),
      task_name t # seen)"
| "validate_tasks headless [] seen = []"
| "validate_tasks headless (t # ts) seen =
     (let (errors, seen') = validate_task headless t seen
      in errors @ validate_tasks headless ts seen')"
  by pat_completeness auto
termination
  by (relation "measure (case_sum (\<lambda>(h, t, s). size t) (\<lambda>(h, ts, s). size_list size ts))")
    (auto simp: subtasks_size)

fun dependency_errors :: "string list \<Rightarrow> (string, string list) dict \<Rightarrow> validation_error list" where
  "dependency_errors task_names [] = []"
| "dependency_errors task_names ((source_name, deps) # rest) =
     (if source_name \<notin> set task_names then [UnknownSource source_name] else []) @
     map UnknownTarget (filter (\<lambda>dep. dep \<notin> set task_names) deps) @
     dependency_errors task_names rest"

definition validate_dependencies :: "workflow_config \<Rightarrow> validation_error list result" where
  "validate_dependencies cfg =
     (let task_names = map task_name (wc_tasks cfg);
          errors = dependency_errors task_names (wc_dependencies cfg)
      in case topological_sort (build_graph task_names (wc_dependencies cfg)) of
           Inr _ \<Rightarrow> Inr errors
         | Inl (CycleError c) \<Rightarrow> Inr (errors @ [DependencyCycle c])
         | Inl e \<Rightarrow> Inl e)"

definition validate_variable_collisions :: "workflow_config \<Rightarrow> validation_error list" where
  "validate_variable_collisions cfg =
     (let output_vars = concat (map (\<lambda>t. map (\<lambda>suffix. task_name t @ suffix) OUTPUT_SUFFIXES) (wc_tasks cfg));
          workflow_vars = concat (map (\<lambda>t. ts_variables (spec_fields t)) (wc_tasks cfg))
      in map VariableCollision (sort (remdups (filter (\<lambda>v. v \<in> set workflow_vars) output_vars))))"

definition validate_task_tree :: "workflow_config \<Rightarrow> bool \<Rightarrow> validation_error list result" where
  "validate_task_tree cfg headless =
     bind_res (validate_dependencies cfg) (\<lambda>dep_errors.
       Inr (validate_tasks headless (wc_tasks cfg) [] @ dep_errors @ validate_variable_collisions cfg))"

section \<open>Specification\<close>

text \<open>What one task must satisfy by itself.\<close>

definition task_ok :: "bool \<Rightarrow> task_spec \<Rightarrow> bool" where
  "task_ok headless t =
     (let f = spec_fields t
      in count_execution_modes t = 1 \<and>
         (ts_agent f = None \<longleftrightarrow> ts_task_prompt f = None) \<and>
         (has_agent_mode f \<longrightarrow> ts_timeout f \<noteq> None \<and> ts_context_refinement f \<noteq> None) \<and>
         (ts_retry f > 0 \<longrightarrow> ts_retry_resume f \<noteq> None \<and> ts_retry_inject_failure f \<noteq> None) \<and>
         (ts_for_each f \<noteq> None \<longrightarrow> ts_for_each_abort_on_failure f \<noteq> None \<and> ts_max_concurrency f \<noteq> None) \<and>
         (headless \<longrightarrow> ts_context_refinement f \<noteq> Some True \<and> ts_decision_point f \<noteq> Some True))"

text \<open>The tree below a list of sibling tasks: every list of siblings in it, and so every task.\<close>

inductive siblings :: "task_spec list \<Rightarrow> task_spec list \<Rightarrow> bool" for ts where
  siblings_top: "siblings ts ts"
| siblings_sub: "siblings ts us \<Longrightarrow> u \<in> set us \<Longrightarrow> subtasks u = Some subs \<Longrightarrow> siblings ts subs"

text \<open>The workflow that \<open>validate_task_tree\<close> is meant to accept.\<close>

definition workflow_ok :: "bool \<Rightarrow> workflow_config \<Rightarrow> bool" where
  "workflow_ok headless cfg \<longleftrightarrow>
     (\<forall>us. siblings (wc_tasks cfg) us \<longrightarrow> distinct (map task_name us) \<and> list_all (task_ok headless) us) \<and>
     (\<forall>(source, deps) \<in> set (wc_dependencies cfg).
        insert source (set deps) \<subseteq> set (map task_name (wc_tasks cfg))) \<and>
     (\<nexists>c. is_cycle (build_graph (map task_name (wc_tasks cfg)) (wc_dependencies cfg)) c) \<and>
     (\<forall>t \<in> set (wc_tasks cfg). \<forall>u \<in> set (wc_tasks cfg). \<forall>suffix \<in> set OUTPUT_SUFFIXES.
        task_name t @ suffix \<notin> set (ts_variables (spec_fields u)))"

section \<open>Correctness\<close>

lemma validate_agent_fields_ok:
  "validate_agent_fields f = [] \<longleftrightarrow> (ts_agent f = None \<longleftrightarrow> ts_task_prompt f = None) \<and>
     (has_agent_mode f \<longrightarrow> ts_timeout f \<noteq> None \<and> ts_context_refinement f \<noteq> None)"
  by (cases "ts_agent f"; cases "ts_task_prompt f") (simp_all add: validate_agent_fields_def)

lemma validate_conditional_fields_ok:
  "validate_conditional_fields f = [] \<longleftrightarrow>
     (ts_retry f > 0 \<longrightarrow> ts_retry_resume f \<noteq> None \<and> ts_retry_inject_failure f \<noteq> None) \<and>
     (ts_for_each f \<noteq> None \<longrightarrow> ts_for_each_abort_on_failure f \<noteq> None \<and> ts_max_concurrency f \<noteq> None)"
  by (simp add: validate_conditional_fields_def)

lemma validate_own_ok: "validate_own headless t = [] \<longleftrightarrow> task_ok headless t"
proof -
  have "(if n = 0 then [x] else if n > 1 then [y] else []) = [] \<longleftrightarrow> n = 1" for n :: nat and x y :: validation_error
    by auto
  then show ?thesis
    unfolding validate_own_def task_ok_def Let_def append_is_Nil_conv
      validate_agent_fields_ok validate_conditional_fields_ok
    by simp
qed

lemma siblings_trans: "siblings ts us \<Longrightarrow> siblings us vs \<Longrightarrow> siblings ts vs"
proof -
  assume a: "siblings us vs" "siblings ts us"
  from a show ?thesis by induction (auto intro: siblings_sub)
qed

lemma siblings_tree:
  "siblings ts us \<longleftrightarrow> us = ts \<or> (\<exists>t \<in> set ts. \<exists>subs. subtasks t = Some subs \<and> siblings subs us)"
proof
  assume "siblings ts us"
  then show "us = ts \<or> (\<exists>t \<in> set ts. \<exists>subs. subtasks t = Some subs \<and> siblings subs us)"
    by induction (auto intro: siblings.intros)
next
  assume "us = ts \<or> (\<exists>t \<in> set ts. \<exists>subs. subtasks t = Some subs \<and> siblings subs us)"
  then show "siblings ts us"
    using siblings_trans [OF siblings_sub [OF siblings_top]] siblings_top by auto
qed

definition subtree_ok :: "bool \<Rightarrow> task_spec list \<Rightarrow> bool" where
  "subtree_ok headless ts \<longleftrightarrow>
     (\<forall>us. siblings ts us \<longrightarrow> distinct (map task_name us) \<and> list_all (task_ok headless) us)"

lemma subtree_ok_iff:
  "subtree_ok headless ts \<longleftrightarrow> distinct (map task_name ts) \<and>
     (\<forall>t \<in> set ts. task_ok headless t \<and> (\<forall>subs. subtasks t = Some subs \<longrightarrow> subtree_ok headless subs))"
  unfolding subtree_ok_def by (subst siblings_tree) (auto simp: list_all_iff)

lemma validate_task_subtree:
  "fst (validate_task headless t seen) = [] \<longleftrightarrow> task_name t \<notin> set seen \<and> task_ok headless t \<and>
     (\<forall>subs. subtasks t = Some subs \<longrightarrow> subtree_ok headless subs)"
  "validate_tasks headless ts seen = [] \<longleftrightarrow> distinct (map task_name ts) \<and> set (map task_name ts) \<inter> set seen = {} \<and>
     (\<forall>t \<in> set ts. task_ok headless t \<and> (\<forall>subs. subtasks t = Some subs \<longrightarrow> subtree_ok headless subs))"
proof (induction headless t seen and headless ts seen rule: validate_task_validate_tasks.induct)
  case (1 headless t seen)
  then show ?case
    by (cases "subtasks t") (auto simp: validate_own_ok subtree_ok_iff [symmetric] simp: subtree_ok_iff [of headless "the (subtasks t)"])
next
  case (3 headless t ts seen)
  obtain es s where v: "validate_task headless t seen = (es, s)" by force
  then have s: "s = task_name t # seen" by simp
  from 3(1) 3(2) [OF v [symmetric] refl] v s show ?case by (auto simp del: validate_task.simps)
qed simp

lemma validate_tasks_ok: "validate_tasks headless ts [] = [] \<longleftrightarrow> subtree_ok headless ts"
  by (simp add: validate_task_subtree subtree_ok_iff [of headless ts])

lemma set_deps_all:
  "dict_all (\<lambda>_ ds. set ds \<subseteq> K) g \<Longrightarrow> dict_all (\<lambda>_ ds. set ds \<subseteq> K) deps \<Longrightarrow>
   dict_all (\<lambda>_ ds. set ds \<subseteq> K) (set_deps deps g)"
proof (induction deps g rule: set_deps.induct)
  case (2 t ds rest g)
  then have "set ds \<subseteq> K" "dict_all (\<lambda>_ ds. set ds \<subseteq> K) rest" by (auto simp: dict_all_def)
  with 2 show ?case by (simp add: dict_all_set)
qed simp

lemma empty_nodes_all: "dict_all (\<lambda>_ ds. set ds \<subseteq> K) g \<Longrightarrow> dict_all (\<lambda>_ ds. set ds \<subseteq> K) (empty_nodes ns g)"
  by (induction ns g rule: empty_nodes.induct) (simp_all add: dict_all_set)

lemma build_graph_closed:
  assumes "dict_all (\<lambda>_ ds. set ds \<subseteq> set names \<union> set (dict_keys deps)) deps"
  shows "graph_closed (build_graph names deps)"
proof -
  have "dict_all (\<lambda>_ ds. set ds \<subseteq> set names \<union> set (dict_keys deps)) (build_graph names deps)"
    using assms by (simp add: build_graph_def set_deps_all empty_nodes_all)
  then show ?thesis by (auto simp: graph_closed_def dict_all_def list_all_iff build_graph_keys)
qed

lemma build_graph_not_closed:
  assumes "dict_wf deps" "(s, ds) \<in> set deps" "d \<in> set ds" "d \<notin> set names \<union> set (dict_keys deps)"
  shows "\<not> graph_closed (build_graph names deps)"
proof -
  have "d \<in> set (deps_of (build_graph names deps) s)"
    using assms by (simp add: build_graph_deps dict_get_iff [symmetric])
  then show ?thesis using assms(4) deps_of_closed [of "build_graph names deps" s] build_graph_keys [of names deps] by auto
qed

definition deps_known :: "workflow_config \<Rightarrow> bool" where
  "deps_known cfg \<longleftrightarrow> (\<forall>(source, deps) \<in> set (wc_dependencies cfg).
     insert source (set deps) \<subseteq> set (map task_name (wc_tasks cfg)))"

lemma dependency_errors_Nil:
  "dependency_errors names ds = [] \<longleftrightarrow> (\<forall>(source, deps) \<in> set ds. insert source (set deps) \<subseteq> set names)"
  by (induction names ds rule: dependency_errors.induct) (auto simp: filter_empty_conv)

lemma validate_dependencies_ok:
  "validate_dependencies cfg = Inr [] \<longleftrightarrow> deps_known cfg \<and>
     (\<nexists>c. is_cycle (build_graph (map task_name (wc_tasks cfg)) (wc_dependencies cfg)) c)"
  (is "_ = Inr [] \<longleftrightarrow> _ \<and> (\<nexists>c. is_cycle ?g c)")
proof (cases "graph_closed ?g")
  case True
  from topological_sort_cases [OF build_graph_wf True] show ?thesis
  proof
    assume "\<exists>order. topological_sort ?g = Inr order \<and> is_order ?g order"
    then obtain order where order: "topological_sort ?g = Inr order" "is_order ?g order" by blast
    then have "validate_dependencies cfg = Inr [] \<longleftrightarrow> deps_known cfg"
      by (simp add: validate_dependencies_def Let_def dependency_errors_Nil deps_known_def)
    then show ?thesis using is_order_acyclic [OF True order(2)] by simp
  next
    assume "\<exists>c. topological_sort ?g = Inl (CycleError c) \<and> is_cycle ?g c"
    then show ?thesis by (auto simp: validate_dependencies_def Let_def)
  qed
next
  case False
  have "\<not> deps_known cfg"
  proof
    assume "deps_known cfg"
    then have "graph_closed ?g"
      by (intro build_graph_closed) (fastforce simp: deps_known_def dict_all_def list_all_iff)
    with False show False by simp
  qed
  then show ?thesis using topological_sort_missing [OF False] by (simp add: validate_dependencies_def Let_def)
qed

lemma validate_dependencies_error:
  "validate_dependencies cfg = Inl e \<longleftrightarrow>
     e = KeyError \<and> \<not> graph_closed (build_graph (map task_name (wc_tasks cfg)) (wc_dependencies cfg))"
  (is "_ \<longleftrightarrow> _ \<and> \<not> graph_closed ?g")
proof (cases "graph_closed ?g")
  case True
  from topological_sort_cases [OF build_graph_wf True] show ?thesis
    using True by (auto simp: validate_dependencies_def Let_def)
qed (auto simp: validate_dependencies_def Let_def topological_sort_missing)

lemma collisions_Nil:
  "validate_variable_collisions cfg = [] \<longleftrightarrow>
     (\<forall>t \<in> set (wc_tasks cfg). \<forall>u \<in> set (wc_tasks cfg). \<forall>suffix \<in> set OUTPUT_SUFFIXES.
        task_name t @ suffix \<notin> set (ts_variables (spec_fields u)))"
proof -
  have "sort xs = [] \<longleftrightarrow> xs = []" for xs :: "string list" by (metis set_empty set_sort)
  then show ?thesis
    by (auto simp: validate_variable_collisions_def Let_def filter_empty_conv OUTPUT_SUFFIXES_def)
qed

text \<open>
  C32. \<open>validate_task_tree\<close> returns the empty error list if and only if the workflow is well formed:
  in the whole tree of subtasks siblings have different names and every task has exactly one execution
  mode and the fields that mode, \<open>retry\<close> and \<open>for_each\<close> require (and nothing that needs an Overseer when
  headless), every dependency names tasks of the workflow, the dependency graph has no cycle, and
  no task output collides with a workflow variable.
\<close>

theorem validate_task_tree_correct:
  "validate_task_tree cfg headless = Inr [] \<longleftrightarrow> workflow_ok headless cfg"
  unfolding validate_task_tree_def workflow_ok_def bind_res_Inr_iff
  using validate_tasks_ok [of headless "wc_tasks cfg"] validate_dependencies_ok [of cfg] collisions_Nil [of cfg]
  by (auto simp: subtree_ok_def deps_known_def)

text \<open>
  \<open>validate_task_tree\<close> does not always return an error list: it raises \<open>KeyError\<close> exactly when
  some dependency target is neither a task nor the source of another dependency, although the loop
  before has just recorded that target as an error.
\<close>

theorem validate_task_tree_raises:
  assumes "dict_wf (wc_dependencies cfg)"
  shows "validate_task_tree cfg headless = Inl e \<longleftrightarrow> e = KeyError \<and>
    (\<exists>(source, deps) \<in> set (wc_dependencies cfg). \<exists>d \<in> set deps.
       d \<notin> set (map task_name (wc_tasks cfg)) \<union> set (dict_keys (wc_dependencies cfg)))"
    (is "_ \<longleftrightarrow> _ \<and> ?missing")
proof -
  let ?g = "build_graph (map task_name (wc_tasks cfg)) (wc_dependencies cfg)"
  have "?missing \<longleftrightarrow> \<not> graph_closed ?g"
  proof
    assume ?missing then show "\<not> graph_closed ?g" using build_graph_not_closed [OF assms] by blast
  next
    assume "\<not> graph_closed ?g"
    then show ?missing
      using build_graph_closed [of "map task_name (wc_tasks cfg)" "wc_dependencies cfg"]
      by (fastforce simp: dict_all_def list_all_iff)
  qed
  moreover have "validate_task_tree cfg headless = Inl e \<longleftrightarrow> validate_dependencies cfg = Inl e"
    by (cases "validate_dependencies cfg") (simp_all add: validate_task_tree_def)
  ultimately show ?thesis using validate_dependencies_error by blast
qed

definition sample_workflow :: workflow_config where
  "sample_workflow =
     \<lparr>wc_name = ''w'', wc_description = ''d'',
      wc_tasks = [TaskSpec ((task_defaults ''a'')\<lparr>ts_callable := Some ''m.f''\<rparr>) [] [] None],
      wc_dependencies = [(''a'', [''b''])], wc_escalation_policy = HALT, wc_services = []\<rparr>"

theorem validate_task_tree_raises_witness:
  "dict_wf (wc_dependencies sample_workflow) \<and> validate_task_tree sample_workflow False = Inl KeyError"
proof -
  have wf: "dict_wf (wc_dependencies sample_workflow)" by (simp add: sample_workflow_def dict_wf_def)
  then show ?thesis
    using validate_task_tree_raises [OF wf, of False KeyError]
    by (simp add: sample_workflow_def task_defaults_def dict_keys_def)
qed

end
