(* ===== verification/File_Locks.thy ===== *)
theory File_Locks
  imports Prelude
begin

text \<open>
  The registry of write paths claimed by running workflows, \<open>scheduler/_locks.py\<close>, and the resolution
  of an agent's allow list to tool names, \<open>scheduler/_allow_resolver.py\<close>. The overlap
  test is shown to be exact (two paths overlap if and only if some file lies under both), and
  claims of different workflows never overlap, in every state the operations reach.
\<close>

section \<open>Path claims\<close>

definition with_sep :: "string \<Rightarrow> string" where
  "with_sep a = (if endswith a ''/'' then a else a @ ''/'')"

definition paths_overlap :: "string \<Rightarrow> string \<Rightarrow> bool" where
  "paths_overlap a b = (a = b \<or> startswith b (with_sep a) \<or> startswith a (with_sep b))"

type_synonym claims = "(uuid, string list) dict"

fun check_conflict :: "claims \<Rightarrow> string list \<Rightarrow> uuid option" where
  "check_conflict [] paths = None"
| "check_conflict ((wf_id, claimed) # rest) paths =
     (if list_ex (\<lambda>new_path. list_ex (paths_overlap new_path) claimed) paths then Some wf_id
      else check_conflict rest paths)"

definition claim :: "claims \<Rightarrow> uuid \<Rightarrow> string list \<Rightarrow> claims result" where
  "claim cs workflow_id paths =
     (case check_conflict cs paths of
        Some _ \<Rightarrow> Inl ValueError
      | None \<Rightarrow> Inr (dict_set workflow_id (remdups paths) cs))"

definition release :: "claims \<Rightarrow> uuid \<Rightarrow> claims" where
  "release cs workflow_id = dict_pop workflow_id cs"

section \<open>Specification\<close>

text \<open>The files a claimed path covers: itself and everything below it.\<close>

definition covers :: "string \<Rightarrow> string \<Rightarrow> bool" where
  "covers p f = (f = p \<or> startswith f (with_sep p))"

definition exclusive :: "claims \<Rightarrow> bool" where
  "exclusive cs \<longleftrightarrow> dict_wf cs \<and>
     (\<forall>w v ps qs p q. dict_get cs w = Some ps \<longrightarrow> dict_get cs v = Some qs \<longrightarrow> w \<noteq> v \<longrightarrow>
        p \<in> set ps \<longrightarrow> q \<in> set qs \<longrightarrow> \<not> paths_overlap p q)"

inductive lock_step :: "claims \<Rightarrow> claims \<Rightarrow> bool" where
  step_claim: "claim cs w paths = Inr cs' \<Longrightarrow> lock_step cs cs'"
| step_release: "lock_step cs (release cs w)"

inductive_cases lock_stepE: "lock_step cs cs'"

section \<open>The overlap test\<close>

lemma with_sep_cases: "with_sep a = a \<or> with_sep a = a @ ''/''"
  by (simp add: with_sep_def)

lemma with_sep_eq:
  assumes "with_sep a = with_sep b" shows "paths_overlap a b"
  using assms with_sep_cases [of a] with_sep_cases [of b]
  by (auto simp: paths_overlap_def startswith_def)

lemma prefix_with_sep:
  assumes "prefix (with_sep a) (with_sep b)" shows "paths_overlap a b"
proof (cases "with_sep a = with_sep b")
  case False
  with assms have "strict_prefix (with_sep a) (with_sep b)" by simp
  then have "prefix (with_sep a) b"
    using with_sep_cases [of b] by (metis prefix_order.less_imp_le prefix_snoc strict_prefix_def)
  then show ?thesis by (simp add: paths_overlap_def startswith_def)
qed (rule with_sep_eq)

lemma paths_overlap_sym: "paths_overlap a b \<longleftrightarrow> paths_overlap b a"
  by (auto simp: paths_overlap_def)

text \<open>The test is exact: it holds if and only if some file lies under both paths.\<close>

lemma overlap_covers: "paths_overlap a b \<longleftrightarrow> (\<exists>f. covers a f \<and> covers b f)"
proof
  assume "paths_overlap a b"
  then show "\<exists>f. covers a f \<and> covers b f" by (auto simp: paths_overlap_def covers_def)
next
  assume "\<exists>f. covers a f \<and> covers b f"
  then obtain f where f: "covers a f" "covers b f" by blast
  show "paths_overlap a b"
  proof (cases "f = a \<or> f = b")
    case True
    then show ?thesis using f by (auto simp: covers_def paths_overlap_def)
  next
    case False
    then have "prefix (with_sep a) f" "prefix (with_sep b) f" using f by (auto simp: covers_def startswith_def)
    then consider "prefix (with_sep a) (with_sep b)" | "prefix (with_sep b) (with_sep a)"
      using prefix_same_cases by blast
    then show ?thesis using prefix_with_sep paths_overlap_sym by cases blast+
  qed
qed

section \<open>Mutual exclusion\<close>

lemma check_conflict_None:
  "check_conflict cs paths = None \<longleftrightarrow>
     (\<forall>(w, claimed) \<in> set cs. \<forall>p \<in> set paths. \<forall>q \<in> set claimed. \<not> paths_overlap p q)"
  by (induction cs paths rule: check_conflict.induct) (auto simp: list_ex_iff)

lemma claim_exclusive:
  assumes "exclusive cs" "claim cs w paths = Inr cs'" shows "exclusive cs'"
proof -
  from assms(2) have n: "check_conflict cs paths = None" and cs': "cs' = dict_set w (remdups paths) cs"
    by (auto simp: claim_def split: option.splits)
  have free: "\<not> paths_overlap p q" if "dict_get cs v = Some qs" "p \<in> set paths" "q \<in> set qs" for v qs p q
    using that n dict_get_in_set [OF that(1)] by (fastforce simp: check_conflict_None)
  show ?thesis
    using assms(1) free paths_overlap_sym unfolding exclusive_def cs' by (auto split: if_splits) blast+
qed

lemma release_exclusive: "exclusive cs \<Longrightarrow> exclusive (release cs w)"
  unfolding exclusive_def release_def by (auto split: if_splits)

interpretation locks: invariant_system "\<lambda>cs. cs = []" lock_step exclusive
proof unfold_locales
  show "exclusive s" if "s = []" for s using that by (simp add: exclusive_def)
  show "exclusive s'" if "exclusive s" "lock_step s s'" for s s'
    using that(2,1) by cases (auto intro: claim_exclusive release_exclusive)
qed

text \<open>
  \<open>FileLockRegistry.claim\<close> succeeds exactly when no file lies both under a path it asks for
  and under a path already claimed; then the workflow's entry becomes the requested paths and no other
  entry changes. Otherwise it raises \<open>ValueError\<close>.
\<close>

theorem claim_correct:
  "if \<exists>(v, claimed) \<in> set cs. \<exists>p \<in> set paths. \<exists>q \<in> set claimed. \<exists>f. covers p f \<and> covers q f
   then claim cs w paths = Inl ValueError
   else \<exists>cs'. claim cs w paths = Inr cs' \<and>
          (\<forall>v. dict_get cs' v = (if v = w then Some (remdups paths) else dict_get cs v))"
proof (cases "check_conflict cs paths")
  case None
  then have "\<not> (\<exists>(v, claimed) \<in> set cs. \<exists>p \<in> set paths. \<exists>q \<in> set claimed. \<exists>f. covers p f \<and> covers q f)"
    unfolding check_conflict_None overlap_covers by blast
  with None show ?thesis by (simp add: claim_def)
next
  case (Some u)
  then have "\<not> (\<forall>(w, claimed) \<in> set cs. \<forall>p \<in> set paths. \<forall>q \<in> set claimed. \<not> paths_overlap p q)"
    using check_conflict_None [of cs paths] by simp
  then have "\<exists>(v, claimed) \<in> set cs. \<exists>p \<in> set paths. \<exists>q \<in> set claimed. \<exists>f. covers p f \<and> covers q f"
    unfolding overlap_covers by blast
  with Some show ?thesis by (simp add: claim_def)
qed

text \<open>
  C18. After any sequence of successful claims and releases starting from an empty registry, no file
  is covered by the claims of two different workflows.
\<close>

theorem claims_exclusive:
  assumes "lock_step\<^sup>*\<^sup>* [] cs" "dict_get cs w = Some ps" "dict_get cs v = Some qs" "w \<noteq> v"
  shows "\<not> (\<exists>p \<in> set ps. \<exists>q \<in> set qs. \<exists>f. covers p f \<and> covers q f)"
  using locks.reachable_inv [OF refl assms(1)] assms(2-4) overlap_covers
  unfolding exclusive_def by blast

theorem claims_exclusive_witness:
  "lock_step\<^sup>*\<^sup>* [] [(5, [''/src/a'']), (6, [''/src/abc''])] \<and>
   \<not> (\<exists>p \<in> set [''/src/a'']. \<exists>q \<in> set [''/src/abc'']. \<exists>f. covers p f \<and> covers q f)"
proof -
  have "claim [] 5 [''/src/a''] = Inr [(5, [''/src/a''])]"
    "claim [(5, [''/src/a''])] 6 [''/src/abc''] = Inr [(5, [''/src/a'']), (6, [''/src/abc''])]" by code_simp+
  then have "lock_step\<^sup>*\<^sup>* [] [(5, [''/src/a'']), (6, [''/src/abc''])]"
    by (meson r_into_rtranclp rtranclp_trans step_claim)
  then show ?thesis using claims_exclusive [of _ 5 "[''/src/a'']" 6 "[''/src/abc'']"] by (simp add: dict_get_def)
qed

section \<open>Allow lists\<close>

type_synonym tool_table = "(string, string \<times> string list) dict"

definition allow_entry :: "tool_table \<Rightarrow> string \<Rightarrow> string list" where
  "allow_entry tool_names entry =
     (if entry = ''*'' then dict_keys tool_names
      else if startswith entry ''#''
        then map fst (filter (\<lambda>(name, ns, tags). drop 1 entry \<in> set tags) tool_names)
      else if endswith entry ''.*''
        then (let prefix = take (length entry - 2) entry
              in map fst (filter (\<lambda>(name, ns, tags). ns = prefix \<or> startswith ns (prefix @ ''.'')) tool_names))
      else if dict_get tool_names entry \<noteq> None then [entry] else [])"

definition resolve_allow_list :: "string list \<Rightarrow> tool_table \<Rightarrow> string list" where
  "resolve_allow_list allow tool_names = remdups (concat (map (allow_entry tool_names) allow))"

lemma table_filter:
  assumes "dict_wf d" "dict_get d t = Some v"
  shows "t \<in> set (map fst (filter (\<lambda>(name, v). P v) d)) \<longleftrightarrow> P v"
  using assms by (force simp: image_iff dict_get_iff dict_wf_def dest: eq_key_imp_eq_value)

lemma allow_entry_iff:
  assumes t: "dict_wf tool_names" "dict_get tool_names t = Some (ns, tags)"
  shows "t \<in> set (allow_entry tool_names entry) \<longleftrightarrow>
    entry = ''*'' \<or> (\<exists>tag \<in> set tags. entry = ''#'' @ tag) \<or>
    (\<exists>p. entry = p @ ''.*'' \<and> \<not> startswith entry ''#'' \<and> (ns = p \<or> startswith ns (p @ ''.''))) \<or>
    (entry = t \<and> \<not> startswith t ''#'' \<and> \<not> endswith t ''.*'')"
proof -
  consider (all) "entry = ''*''" | (tag) g where "entry = ''#'' @ g"
    | (wild) p where "\<not> startswith entry ''#''" "entry = p @ ''.*''"
    | (name) "entry \<noteq> ''*''" "\<not> startswith entry ''#''" "\<not> endswith entry ''.*''"
    by (auto simp: startswith_def endswith_def prefix_def suffix_def)
  then show ?thesis
  proof cases
    case all
    then show ?thesis using dict_get_keys [OF t(2)] by (simp add: allow_entry_def)
  next
    case tag
    then show ?thesis
      using table_filter [OF t, of "\<lambda>(ns, tags). g \<in> set tags"]
      by (auto simp: allow_entry_def startswith_def case_prod_unfold endswith_def)
  next
    case wild
    have "endswith entry ''.*''" "take (length entry - 2) entry = p" "entry \<noteq> ''*''"
      using wild by (auto simp: endswith_def suffix_def)
    then have "t \<in> set (allow_entry tool_names entry) \<longleftrightarrow> ns = p \<or> startswith ns (p @ ''.'')"
      using table_filter [OF t, of "\<lambda>(ns, tags). ns = p \<or> startswith ns (p @ ''.'')"] wild(1)
      by (simp add: allow_entry_def case_prod_unfold)
    moreover have "entry \<noteq> ''#'' @ tag" for tag using wild(1) by (auto simp: startswith_def)
    ultimately show ?thesis using wild \<open>endswith entry ''.*''\<close> \<open>entry \<noteq> ''*''\<close> by auto
  next
    case name
    then show ?thesis
      using t(2) by (auto simp: allow_entry_def endswith_def startswith_def suffix_def)
  qed
qed

text \<open>
  Resolving an allow list never grants a name that is not a registered tool, and a tool \<open>t\<close> is
  granted if and only if the list holds \<open>*\<close>, one of the tool's tags after \<open>#\<close>, its namespace or one of
  its dotted prefixes followed by \<open>.*\<close>, or its exact name (when that name is not itself of one of the
  special forms).
\<close>

theorem resolve_allow_list_correct:
  assumes "dict_wf tool_names" "dict_get tool_names t = Some (ns, tags)"
  shows "t \<in> set (resolve_allow_list allow tool_names) \<longleftrightarrow>
    ''*'' \<in> set allow \<or> (\<exists>tag \<in> set tags. ''#'' @ tag \<in> set allow) \<or>
    (\<exists>p. p @ ''.*'' \<in> set allow \<and> \<not> startswith (p @ ''.*'') ''#'' \<and> (ns = p \<or> startswith ns (p @ ''.''))) \<or>
    (t \<in> set allow \<and> \<not> startswith t ''#'' \<and> \<not> endswith t ''.*'')"
proof -
  have "t \<in> set (resolve_allow_list allow tool_names) \<longleftrightarrow> (\<exists>e \<in> set allow. t \<in> set (allow_entry tool_names e))"
    by (simp add: resolve_allow_list_def)
  then show ?thesis unfolding allow_entry_iff [OF assms] by blast
qed

theorem resolve_allow_list_correct_witness:
  "''read'' \<in> set (resolve_allow_list [''fs.*''] [(''read'', ''fs.local'', [''ro'']), (''sh'', ''exec'', [])])"
  using resolve_allow_list_correct [of "[(''read'', ''fs.local'', [''ro'']), (''sh'', ''exec'', [])]" "''read''" "''fs.local''" "[''ro'']" "[''fs.*'']"]
  by (simp add: dict_wf_def dict_get_def startswith_def)

end
