(* ===== verification/Verify.thy ===== *)
theory Verify
  imports Validator
begin

text \<open>
  Running the checks of a task, \<open>verify/_execution.py\<close> and \<open>verify/_runner.py\<close>: scripts, read-only
  agents whose verdict is judged against a severity threshold, and whole workflows; with the
  repair function a failed check may carry.

  The functions the code imports by name, the agent it consults, pydantic's verdict parser and the
  scheduler it hands workflow checks to are fields of the parameter \<open>check_env\<close>. They act on a state
  \<open>'s\<close> of their own choosing, so every result holds for arbitrary behaviour of theirs.
\<close>

section \<open>Data\<close>

record check_issue =
  ci_severity :: severity
  ci_file :: "string option"
  ci_line_range :: "(int \<times> int) option"
  ci_description :: string
  ci_blocking :: bool

record criterion_review =
  cr_criterion :: string
  cr_met :: bool
  cr_evidence :: string

record check_verdict =
  cv_verdict :: string
  cv_issues :: "check_issue list"
  cv_criteria_review :: "criterion_review list"
  cv_summary :: string

text \<open>The \<open>details\<close> dictionary of a result: the two shapes the code builds, or a script's own.\<close>

datatype check_details =
    ErrorDetails string
  | RawResponse string
  | VerdictDetails "check_issue list" "criterion_review list"
  | ScriptDetails jobj

record check_result =
  passed :: bool
  message :: string
  details :: "check_details option"
  fix_fn :: "string option"

record check_context =
  cc_variables :: "(string, string) dict"
  cc_agent_output :: "string option"
  cc_run_id :: uuid
  cc_session_id :: "string option"
  cc_task_name :: string
  cc_task_id :: uuid
  cc_attempt :: nat
  cc_parent_task_id :: "uuid option"

text \<open>
  What importing and calling a check function can do: the module or the function is missing, the
  call raises an \<open>Exception\<close>, or it returns. An \<open>Inl\<close> is what no handler catches: an import that raises anything but
  \<open>ImportError\<close>, a consulted agent or a workflow check that raises, the cancellation of the caller while it waits. A repair function is
  named by the string in \<open>fix_fn\<close>.
\<close>

datatype script_outcome = NoModule string | NoFunction | Raised string string | Returned check_result

record 's check_env =
  env_script :: "string \<Rightarrow> string \<Rightarrow> check_context \<Rightarrow> 's \<Rightarrow> script_outcome result \<times> 's"
  env_fix :: "string \<Rightarrow> check_context \<Rightarrow> 's \<Rightarrow> unit result \<times> 's"
  env_consult :: "string \<Rightarrow> string \<Rightarrow> (string, string) dict \<Rightarrow> 's \<Rightarrow> string result \<times> 's"
  env_verdict :: "string \<Rightarrow> check_verdict option"
  env_workflow :: "execution \<Rightarrow> 's \<Rightarrow> check_result result \<times> 's"

section \<open>Operations\<close>

definition SEVERITY_ORDER :: "severity \<Rightarrow> nat" where
  "SEVERITY_ORDER s = (case s of CRITICAL \<Rightarrow> 4 | MAJOR \<Rightarrow> 3 | MINOR \<Rightarrow> 2 | NIT \<Rightarrow> 1)"

definition failed :: "string \<Rightarrow> check_details option \<Rightarrow> check_result" where
  "failed msg d = \<lparr>passed = False, message = msg, details = d, fix_fn = None\<rparr>"

definition format_mechanical_results :: "check_result list \<Rightarrow> string" where
  "format_mechanical_results results =
     (if results = [] then ''No mechanical check results.''
      else join [CHR 0x0A] (map (\<lambda>r. ''- ['' @ (if passed r then ''PASS'' else ''FAIL'') @ ''] '' @ message r) results))"

definition run_script :: "'s check_env \<Rightarrow> script_execution \<Rightarrow> check_context \<Rightarrow> 's \<Rightarrow> check_result result \<times> 's" where
  "run_script env execution ctx =
     (case split_on CHR '':'' (se_callable execution) of
        [module_path, func_name] \<Rightarrow>
          bindS (env_script env module_path func_name ctx) (\<lambda>outcome. returnS
            (case outcome of
               NoModule e \<Rightarrow> failed (''Module not found: '' @ module_path) (Some (ErrorDetails e))
             | NoFunction \<Rightarrow> failed (''Function '' @ func_name @ '' not found in module '' @ module_path) None
             | Raised type_name e \<Rightarrow> failed (''Script check raised '' @ type_name @ '': '' @ e) (Some (ErrorDetails e))
             | Returned r \<Rightarrow> r))
      | _ \<Rightarrow> returnS (failed (''Invalid callable path: '' @ se_callable execution) None))"

fun set_vars :: "(string, string) dict \<Rightarrow> (string, string) dict \<Rightarrow> (string, string) dict" where
  "set_vars [] vs = vs"
| "set_vars ((key, val) # rest) vs = set_vars rest (dict_set (''var_'' @ key) val vs)"

definition derive_issue :: "severity \<Rightarrow> check_issue \<Rightarrow> check_issue" where
  "derive_issue block_threshold issue =
     issue\<lparr>ci_blocking := SEVERITY_ORDER (ci_severity issue) \<ge> SEVERITY_ORDER block_threshold\<rparr>"

definition agent_variables :: "agent_execution \<Rightarrow> check_context \<Rightarrow> check_result list \<Rightarrow> (string, string) dict" where
  "agent_variables execution ctx mechanical_results =
     set_vars (cc_variables ctx)
       [(''task'', ae_task execution),
        (''agent_output'', (case cc_agent_output ctx of None \<Rightarrow> [] | Some t \<Rightarrow> t)),
        (''mechanical_results'', format_mechanical_results mechanical_results),
        (''task_name'', cc_task_name ctx),
        (''attempt'', nat_str (cc_attempt ctx)),
        (''notepad'', [])]"

definition verdict_result :: "'s check_env \<Rightarrow> agent_execution \<Rightarrow> string \<Rightarrow> check_result" where
  "verdict_result env execution response =
     (case env_verdict env response of
        None \<Rightarrow> failed ''Agent returned invalid verdict'' (Some (RawResponse response))
      | Some verdict \<Rightarrow>
          (let derived_issues = map (derive_issue (ae_block_threshold execution)) (cv_issues verdict)
           in \<lparr>passed = \<not> list_ex ci_blocking derived_issues, message = cv_summary verdict,
               details = Some (VerdictDetails derived_issues (cv_criteria_review verdict)),
               fix_fn = None\<rparr>))"

definition run_agent ::
  "'s check_env \<Rightarrow> agent_execution \<Rightarrow> check_context \<Rightarrow> check_result list \<Rightarrow> 's \<Rightarrow> check_result result \<times> 's" where
  "run_agent env execution ctx mechanical_results =
     bindS (env_consult env (ae_agent execution) (ae_task execution) (agent_variables execution ctx mechanical_results))
       (\<lambda>response. returnS (verdict_result env execution response))"

definition execute_check ::
  "'s check_env \<Rightarrow> execution \<Rightarrow> check_context \<Rightarrow> check_result list \<Rightarrow> 's \<Rightarrow> check_result result \<times> 's" where
  "execute_check env execution ctx mechanical_results =
     (case execution of
        ScriptExecution e \<Rightarrow> run_script env e ctx
      | AgentExecution e \<Rightarrow> run_agent env e ctx mechanical_results
      | WorkflowExecution n d ts ps b \<Rightarrow> env_workflow env execution)"

text \<open>\<open>await result.fix(ctx)\<close>: whether it came to an end without an \<open>Exception\<close>.\<close>

definition run_fix :: "'s check_env \<Rightarrow> string \<Rightarrow> check_context \<Rightarrow> 's \<Rightarrow> bool result \<times> 's" where
  "run_fix env f ctx s =
     (case env_fix env f ctx s of
        (Inl e, s') \<Rightarrow> if except_Exception e then (Inr False, s') else (Inl e, s')
      | (Inr _, s') \<Rightarrow> (Inr True, s'))"

fun run_checks ::
  "'s check_env \<Rightarrow> execution list \<Rightarrow> check_context \<Rightarrow> check_result list \<Rightarrow> 's \<Rightarrow> check_result list result \<times> 's" where
  "run_checks env [] ctx results = returnS results"
| "run_checks env (check # checks) ctx results =
     bindS (execute_check env check ctx results) (\<lambda>result.
       if passed result then run_checks env checks ctx (results @ [result])
       else (case fix_fn result of
               None \<Rightarrow> returnS (results @ [result])
             | Some f \<Rightarrow>
                 bindS (run_fix env f ctx) (\<lambda>fixed.
                   if \<not> fixed then returnS (results @ [result])
                   else bindS (execute_check env check ctx results) (\<lambda>rerun.
                          if passed rerun then run_checks env checks ctx (results @ [rerun])
                          else returnS (results @ [rerun])))))"

section \<open>The verdict of a list of checks\<close>

abbreviation all_passed :: "check_result list \<Rightarrow> bool" where
  "all_passed rs \<equiv> list_all passed rs"

text \<open>
  \<open>gate\<close>: the results \<open>new\<close> that come after \<open>results\<close> are results of the checks in order, each but
  the last passed, and the list stops before the end only after a failure.
\<close>

fun gate :: "'s check_env \<Rightarrow> check_context \<Rightarrow> execution list \<Rightarrow> check_result list \<Rightarrow> check_result list \<Rightarrow> bool" where
  "gate env ctx [] results [] = True"
| "gate env ctx (c # cs) results (r # new) =
     ((\<exists>t t'. execute_check env c ctx results t = (Inr r, t')) \<and>
      (if passed r then gate env ctx cs (results @ [r]) new else new = []))"
| "gate env ctx _ results _ = False"

lemma run_checks_gate:
  "run_checks env checks ctx results s = (Inr rs, s') \<Longrightarrow> \<exists>new. rs = results @ new \<and> gate env ctx checks results new"
proof (induction checks arbitrary: results s)
  case (Cons check checks)
  have step: ?case if "execute_check env check ctx results t = (Inr r, t')"
    "if passed r then run_checks env checks ctx (results @ [r]) t' = (Inr rs, s') else rs = results @ [r]" for r t t'
  proof (cases "passed r")
    case True
    with that(2) Cons.IH obtain new where "rs = (results @ [r]) @ new" "gate env ctx checks (results @ [r]) new" by fastforce
    with that True show ?thesis by (intro exI [of _ "r # new"]) auto
  next
    case False
    with that show ?thesis by (intro exI [of _ "[r]"]) auto
  qed
  from Cons.prems obtain r s1 where r: "execute_check env check ctx results s = (Inr r, s1)"
    and rest: "(if passed r then run_checks env checks ctx (results @ [r])
       else (case fix_fn r of None \<Rightarrow> returnS (results @ [r])
             | Some f \<Rightarrow> bindS (run_fix env f ctx) (\<lambda>fixed.
                 if \<not> fixed then returnS (results @ [r])
                 else bindS (execute_check env check ctx results) (\<lambda>rerun.
                        if passed rerun then run_checks env checks ctx (results @ [rerun]) else returnS (results @ [rerun]))))) s1 = (Inr rs, s')"
    by (auto simp: bindS_Inr)
  show ?case
  proof (cases "\<not> passed r \<and> (\<exists>f s2. fix_fn r = Some f \<and> run_fix env f ctx s1 = (Inr True, s2))")
    case True
    with rest obtain r2 s2 s3 where r2: "execute_check env check ctx results s2 = (Inr r2, s3)"
      "if passed r2 then run_checks env checks ctx (results @ [r2]) s3 = (Inr rs, s') else rs = results @ [r2]"
      by (auto simp: bindS_Inr split: if_splits)
    show ?thesis by (rule step [OF r2])
  next
    case False
    show ?thesis
      by (rule step [OF r]) (use rest False in \<open>auto simp: bindS_Inr split: if_splits option.splits\<close>)
  qed
qed simp

lemma gate_length: "gate env ctx checks results new \<Longrightarrow> length new \<le> length checks"
  by (induction env ctx checks results new rule: gate.induct) (auto split: if_splits)

lemma gate_all:
  "gate env ctx checks results new \<Longrightarrow> all_passed new \<Longrightarrow> length new = length checks"
  by (induction env ctx checks results new rule: gate.induct) (auto split: if_splits)

lemma gate_nth:
  "gate env ctx checks results new \<Longrightarrow> i < length new \<Longrightarrow>
   (\<exists>t t'. execute_check env (checks ! i) ctx (results @ take i new) t = (Inr (new ! i), t')) \<and>
   (Suc i < length new \<longrightarrow> passed (new ! i))"
proof (induction env ctx checks results new arbitrary: i rule: gate.induct)
  case (2 env ctx c cs results r new)
  then show ?case by (cases i) (auto split: if_splits)
qed auto

text \<open>
  \<open>run_checks\<close> is a gate: its results are results of the given checks in order (result number \<open>i\<close>
  was returned by executing check \<open>i\<close> with the earlier results), every result but the last passed, and if
  all of them passed then every check was executed. No check is skipped on the way to a pass,
  whatever the check functions, repairs, agents and workflows do. (An exception that no handler catches leaves without results.)
\<close>

theorem run_checks_complete:
  assumes "run_checks env checks ctx [] s = (Inr rs, s')"
  shows "length rs \<le> length checks \<and> (all_passed rs \<longrightarrow> length rs = length checks) \<and>
    (\<forall>i < length rs. (\<exists>t t'. execute_check env (checks ! i) ctx (take i rs) t = (Inr (rs ! i), t')) \<and>
       (Suc i < length rs \<longrightarrow> passed (rs ! i)))"
proof -
  have g: "gate env ctx checks [] rs" using run_checks_gate [OF assms] by simp
  show ?thesis using gate_length [OF g] gate_all [OF g] gate_nth [OF g] by auto
qed

definition sample_env :: "nat check_env" where
  "sample_env =
     \<lparr>env_script = (\<lambda>m f ctx s. (Inr (if s = 0 then Returned \<lparr>passed = False, message = ''dirty'', details = None, fix_fn = Some ''clean''\<rparr>
                                 else Returned \<lparr>passed = True, message = ''ok'', details = None, fix_fn = None\<rparr>), s)),
      env_fix = (\<lambda>f ctx s. (Inr (), Suc s)), env_consult = (\<lambda>a q vs s. (Inr [], s)),
      env_verdict = (\<lambda>_. None), env_workflow = (\<lambda>e s. (Inr (failed [] None), s))\<rparr>"

definition sample_ctx :: check_context where
  "sample_ctx = \<lparr>cc_variables = [], cc_agent_output = None, cc_run_id = 7, cc_session_id = None,
     cc_task_name = ''t'', cc_task_id = 8, cc_attempt = 2, cc_parent_task_id = None\<rparr>"

theorem run_checks_complete_witness:
  "\<exists>rs s'. run_checks sample_env [ScriptExecution \<lparr>se_callable = ''m:f''\<rparr>] sample_ctx [] 0 = (Inr rs, s') \<and> all_passed rs \<and> length rs = 1"
proof -
  have "case run_checks sample_env [ScriptExecution \<lparr>se_callable = ''m:f''\<rparr>] sample_ctx [] 0 of (Inr rs, s') \<Rightarrow> all_passed rs | _ \<Rightarrow> False"
    by code_simp
  then obtain rs s' where r: "run_checks sample_env [ScriptExecution \<lparr>se_callable = ''m:f''\<rparr>] sample_ctx [] 0 = (Inr rs, s')" "all_passed rs"
    by (auto split: prod.splits sum.splits)
  with run_checks_complete [OF r(1)] show ?thesis by auto
qed

text \<open>
  The verdict of an agent check rests on severities alone: it passes if and only if the response
  parses and every issue is strictly below the blocking threshold. The agent's own \<open>verdict\<close> text,
  \<open>blocking\<close> flags and criteria reviews have no influence, and a response that does not parse fails.
\<close>

theorem run_agent_verdict:
  assumes "run_agent env execution ctx mechanical_results s = (Inr r, s')"
  shows "\<exists>response. env_consult env (ae_agent execution) (ae_task execution) (agent_variables execution ctx mechanical_results) s = (Inr response, s') \<and>
    (passed r \<longleftrightarrow> (\<exists>v. env_verdict env response = Some v \<and>
       (\<forall>issue \<in> set (cv_issues v). SEVERITY_ORDER (ci_severity issue) < SEVERITY_ORDER (ae_block_threshold execution))))"
  using assms
  by (auto simp: run_agent_def bindS_Inr verdict_result_def Let_def failed_def derive_issue_def list_ex_iff not_le split: option.split)

definition verdict_env :: "severity \<Rightarrow> nat check_env" where
  "verdict_env sev = sample_env\<lparr>env_verdict := (\<lambda>_. Some \<lparr>cv_verdict = ''pass'',
     cv_issues = [\<lparr>ci_severity = sev, ci_file = None, ci_line_range = None, ci_description = ''d'', ci_blocking = False\<rparr>],
     cv_criteria_review = [], cv_summary = []\<rparr>)\<rparr>"

definition sample_review :: agent_execution where
  "sample_review = \<lparr>ae_agent = ''reviewer'', ae_task = ''review'', ae_block_threshold = MAJOR, ae_variables = []\<rparr>"

theorem run_agent_verdict_witness:
  "\<exists>r s'. run_agent (verdict_env MINOR) sample_review sample_ctx [] 0 = (Inr r, s') \<and> passed r"
proof -
  obtain r where r: "run_agent (verdict_env MINOR) sample_review sample_ctx [] 0 = (Inr r, 0)"
    by (simp add: run_agent_def bindS_def verdict_env_def sample_env_def returnS_def)
  from run_agent_verdict [OF this] have "passed r"
    by (auto simp: verdict_env_def sample_env_def sample_review_def SEVERITY_ORDER_def)
  with r show ?thesis by blast
qed

end
