(* ===== verification/Secrets.thy ===== *)
theory Secrets
  imports Prelude
begin

text \<open>
  The secret registry, \<open>secrets/_registry.py\<close>, and the scrubbing of text, \<open>tool/_scrub.py\<close>: references
  \<open>{{secret:NAME}}\<close> are replaced by values before a tool runs, and values by references before
  anything is stored. The theorems say when scrubbing leaves no value behind and when substitution
  gives the original text back.
\<close>

section \<open>Standard library\<close>

text \<open>\<open>s.replace(old, new)\<close> for a non-empty \<open>old\<close>: left to right, without overlaps.\<close>

function str_replace :: "string \<Rightarrow> string \<Rightarrow> string \<Rightarrow> string" where
  "str_replace old new s =
     (if old \<noteq> [] \<and> prefix old s then new @ str_replace old new (drop (length old) s)
      else (case s of [] \<Rightarrow> [] | c # cs \<Rightarrow> c # str_replace old new cs))"
  by pat_completeness auto
termination
  by (relation "measure (\<lambda>(old, new, s). length s)") (auto simp: prefix_def)

declare str_replace.simps [simp del]

definition name_char :: "char \<Rightarrow> bool" where
  "name_char c =
     (let n = of_char c :: nat
      in (65 \<le> n \<and> n \<le> 90) \<or> (97 \<le> n \<and> n \<le> 122) \<or> (48 \<le> n \<and> n \<le> 57) \<or> c = CHR ''_'' \<or> c = CHR ''-'')"

text \<open>
  A match of \<open>_PATTERN\<close> at the front of a text: the name and the rest. The class of name
  characters has no closing brace, so the greedy repetition never has to give characters back.
\<close>

definition match_ref :: "string \<Rightarrow> (string \<times> string) option" where
  "match_ref s =
     (if prefix ''{{secret:'' s
      then (let t = drop 9 s; name = takeWhile name_char t; rest = dropWhile name_char t
            in if name \<noteq> [] \<and> prefix ''}}'' rest then Some (name, drop 2 rest) else None)
      else None)"

lemma match_ref_shorter: "match_ref s = Some (name, rest) \<Longrightarrow> length rest < length s"
proof -
  assume m: "match_ref s = Some (name, rest)"
  then have r: "rest = drop 2 (dropWhile name_char (drop 9 s))" and p: "prefix ''{{secret:'' s"
    by (auto simp: match_ref_def Let_def split: if_splits)
  have "length rest \<le> length (dropWhile name_char (drop 9 s))" unfolding r by simp
  also have "\<dots> \<le> length (drop 9 s)" by (rule length_dropWhile_le)
  also have "\<dots> < length s" using p by (auto simp: prefix_def)
  finally show ?thesis .
qed

section \<open>Operations\<close>

record secret_registry =
  sr_secrets :: "(string, string) dict"
  sr_scrub_order :: "(string \<times> string) list"

definition SecretRegistry :: "(string, string) dict \<Rightarrow> secret_registry result" where
  "SecretRegistry secrets =
     (if list_ex (\<lambda>(name, val). val = []) secrets then Inl ValueError
      else Inr \<lparr>sr_secrets = secrets,
                sr_scrub_order = sort_key (\<lambda>(name, val). - int (length val)) secrets\<rparr>)"

definition resolve :: "secret_registry \<Rightarrow> string \<Rightarrow> string result" where
  "resolve r name = (case dict_get (sr_secrets r) name of None \<Rightarrow> Inl KeyError | Some v \<Rightarrow> Inr v)"

function references :: "string \<Rightarrow> string list" where
  "references s =
     (case match_ref s of
        Some (name, rest) \<Rightarrow> name # references rest
      | None \<Rightarrow> (case s of [] \<Rightarrow> [] | c # cs \<Rightarrow> references cs))"
  by pat_completeness auto
termination
  by (relation "measure length") (auto dest: match_ref_shorter)

declare references.simps [simp del]

definition validate_references :: "secret_registry \<Rightarrow> string \<Rightarrow> string list result" where
  "validate_references r text =
     (let names = remdups (references text)
      in if list_ex (\<lambda>n. dict_get (sr_secrets r) n = None) names then Inl KeyError else Inr names)"

definition placeholder :: "string \<Rightarrow> string" where
  "placeholder name = ''{{secret:'' @ name @ ''}}''"

function substitute :: "secret_registry \<Rightarrow> string \<Rightarrow> string" where
  "substitute r s =
     (case match_ref s of
        Some (name, rest) \<Rightarrow>
          (case dict_get (sr_secrets r) name of Some v \<Rightarrow> v | None \<Rightarrow> placeholder name) @ substitute r rest
      | None \<Rightarrow> (case s of [] \<Rightarrow> [] | c # cs \<Rightarrow> c # substitute r cs))"
  by pat_completeness auto
termination
  by (relation "measure (length \<circ> snd)") (auto dest: match_ref_shorter)

declare substitute.simps [simp del]

definition scrub :: "secret_registry \<Rightarrow> string \<Rightarrow> string" where
  "scrub r text = foldl (\<lambda>t (name, val). str_replace val (placeholder name) t) text (sr_scrub_order r)"

definition scrub_text :: "secret_registry \<Rightarrow> string \<Rightarrow> string" where
  "scrub_text r text = scrub r text"

section \<open>Texts as literals and references\<close>

text \<open>
  The proofs read a scrubbed text as a list of tokens: literal characters and references.
\<close>

datatype token = Lit char | Ref string

fun token_str :: "token \<Rightarrow> string" where
  "token_str (Lit c) = [c]"
| "token_str (Ref n) = placeholder n"

definition tokens_str :: "token list \<Rightarrow> string" where
  "tokens_str ts = concat (map token_str ts)"

definition no_brace :: "string \<Rightarrow> bool" where
  "no_brace s = (CHR ''{'' \<notin> set s \<and> CHR ''}'' \<notin> set s)"

text \<open>A value that scrubbing can find: not empty, no brace, and not part of any reference.\<close>

definition plain_value :: "string list \<Rightarrow> string \<Rightarrow> bool" where
  "plain_value names v \<longleftrightarrow> v \<noteq> [] \<and> no_brace v \<and> (\<forall>n \<in> set names. \<not> sublist v (placeholder n))"

fun token_ok :: "string list \<Rightarrow> token \<Rightarrow> bool" where
  "token_ok names (Lit c) = True"
| "token_ok names (Ref n) = (n \<in> set names)"

function token_replace :: "string \<Rightarrow> string \<Rightarrow> token list \<Rightarrow> token list" where
  "token_replace v n ts =
     (if v \<noteq> [] \<and> prefix (map Lit v) ts then Ref n # token_replace v n (drop (length v) ts)
      else (case ts of [] \<Rightarrow> [] | t # us \<Rightarrow> t # token_replace v n us))"
  by pat_completeness auto
termination
  by (relation "measure (\<lambda>(v, n, ts). length ts)") (auto simp: prefix_def)

declare token_replace.simps [simp del]

lemma tokens_str_simps [simp]:
  "tokens_str [] = []" "tokens_str (t # ts) = token_str t @ tokens_str ts"
  "tokens_str (ts @ us) = tokens_str ts @ tokens_str us"
  by (simp_all add: tokens_str_def)

lemma tokens_str_Lit [simp]: "tokens_str (map Lit s) = s"
  by (induction s) auto

lemma placeholder_Cons: "placeholder n = CHR ''{'' # tl (placeholder n)"
  by (simp add: placeholder_def)

lemma prefix_tokens:
  "no_brace v \<Longrightarrow> prefix v (tokens_str ts) \<longleftrightarrow> prefix (map Lit v) ts"
proof (induction v arbitrary: ts)
  case (Cons c v)
  then have c: "no_brace v" "c \<noteq> CHR ''{''" by (auto simp: no_brace_def)
  show ?case
  proof (cases ts)
    case ts: (Cons t us)
    show ?thesis
    proof (cases t)
      case (Lit d)
      then show ?thesis using Cons.IH [OF c(1), of us] ts by simp
    next
      case (Ref m)
      then show ?thesis using c(2) ts placeholder_Cons [of m] by (metis Cons_prefix_Cons list.simps(9) token.distinct(1) token_str.simps(2) tokens_str_simps(2) append_Cons)
    qed
  qed simp
qed simp

text \<open>No occurrence of a plain value starts inside a reference.\<close>

lemma plain_not_in_suffix:
  assumes "no_brace v" "v \<noteq> []" "suffix w p" "w \<noteq> []" "last w = CHR ''}''" "prefix v (w @ rest)"
  shows "sublist v p"
proof -
  from assms(6) consider "prefix v w" | us where "v = w @ us" by (auto simp: prefix_append)
  then show ?thesis
  proof cases
    case 1
    then show ?thesis using assms(3) by (meson prefix_imp_sublist sublist_order.order_trans suffix_imp_sublist)
  next
    case 2
    then have "last w \<in> set v" using assms(4) by simp
    then show ?thesis using assms(1,5) by (simp add: no_brace_def)
  qed
qed

lemma str_replace_skip:
  assumes v: "no_brace v" "\<not> sublist v p"
  shows "suffix w p \<Longrightarrow> w = [] \<or> last w = CHR ''}'' \<Longrightarrow>
    str_replace v new (w @ rest) = w @ str_replace v new rest"
proof (induction w)
  case (Cons c w)
  have "\<not> (v \<noteq> [] \<and> prefix v ((c # w) @ rest))"
    using plain_not_in_suffix [OF v(1)] v(2) Cons.prems by blast
  then have "str_replace v new ((c # w) @ rest) = c # str_replace v new (w @ rest)"
    by (subst str_replace.simps) auto
  moreover have "suffix w p" "w = [] \<or> last w = CHR ''}''"
    using Cons.prems suffix_ConsD by (auto split: if_splits)
  ultimately show ?case using Cons.IH by simp
qed simp

lemma placeholder_last: "last (placeholder n) = CHR ''}''"
  by (simp add: placeholder_def)

lemma str_replace_tokens:
  "plain_value names v \<Longrightarrow> list_all (token_ok names) ts \<Longrightarrow>
   str_replace v (placeholder n) (tokens_str ts) = tokens_str (token_replace v n ts)"
proof (induction v n ts rule: token_replace.induct)
  case (1 v n ts)
  have v: "no_brace v" "v \<noteq> []" using 1(3) by (auto simp: plain_value_def)
  show ?case
  proof (cases "prefix (map Lit v) ts")
    case True
    then obtain us where us: "ts = map Lit v @ us" by (auto simp: prefix_def)
    have p: "prefix v (tokens_str ts)" using True v by (simp add: prefix_tokens)
    have "str_replace v (placeholder n) (tokens_str ts) = placeholder n @ str_replace v (placeholder n) (tokens_str us)"
      by (subst str_replace.simps) (use p v us in simp)
    also have "\<dots> = placeholder n @ tokens_str (token_replace v n us)"
      using 1(1) True v us 1(3,4) by simp
    finally show ?thesis by (subst token_replace.simps) (use True v us in simp)
  next
    case False
    then have np: "\<not> prefix v (tokens_str ts)" using v by (simp add: prefix_tokens)
    show ?thesis
    proof (cases ts)
      case Nil
      then show ?thesis using v by (subst str_replace.simps, subst token_replace.simps) (simp add: v)
    next
      case (Cons t us)
      have ih: "str_replace v (placeholder n) (tokens_str us) = tokens_str (token_replace v n us)"
        using 1(2) [OF _ Cons] False 1(3,4) Cons by simp
      have r: "token_replace v n ts = t # token_replace v n us"
        by (subst token_replace.simps) (use False Cons in simp)
      show ?thesis
      proof (cases t)
        case (Lit c)
        have "str_replace v (placeholder n) (c # tokens_str us) = c # str_replace v (placeholder n) (tokens_str us)"
          by (subst str_replace.simps) (use np Cons Lit in simp)
        then show ?thesis using r ih Cons Lit by simp
      next
        case (Ref m)
        have "\<not> sublist v (placeholder m)" using 1(3,4) Cons Ref by (auto simp: plain_value_def)
        from str_replace_skip [OF v(1) this suffix_order.refl] show ?thesis
          using r ih Cons Ref placeholder_last by simp
      qed
    qed
  qed
qed

lemma sublist_skip:
  assumes v: "no_brace v" "v \<noteq> []" "\<not> sublist v p"
  shows "suffix w p \<Longrightarrow> w = [] \<or> last w = CHR ''}'' \<Longrightarrow> sublist v (w @ rest) \<Longrightarrow> sublist v rest"
proof (induction w)
  case (Cons c w)
  have "\<not> prefix v ((c # w) @ rest)"
    using plain_not_in_suffix [OF v(1,2)] v(3) Cons.prems by blast
  with Cons.prems(3) have "sublist v (w @ rest)" by (simp add: sublist_Cons_right)
  moreover have "suffix w p" "w = [] \<or> last w = CHR ''}''"
    using Cons.prems(1,2) suffix_ConsD by (auto split: if_splits)
  ultimately show ?case using Cons.IH by blast
qed simp

lemma sublist_tokens:
  "plain_value names v \<Longrightarrow> list_all (token_ok names) ts \<Longrightarrow> sublist v (tokens_str ts) \<Longrightarrow> sublist (map Lit v) ts"
proof (induction ts)
  case (Cons t ts)
  have v: "no_brace v" "v \<noteq> []" using Cons.prems(1) by (auto simp: plain_value_def)
  show ?case
  proof (cases t)
    case (Lit c)
    with Cons.prems(3) have "prefix v (tokens_str (t # ts)) \<or> sublist v (tokens_str ts)"
      by (simp add: sublist_Cons_right)
    then have "prefix (map Lit v) (t # ts) \<or> sublist (map Lit v) ts"
      unfolding prefix_tokens [OF v(1)] using Cons.IH Cons.prems(1,2) by auto
    then show ?thesis by (simp only: sublist_Cons_right)
  next
    case (Ref m)
    have "\<not> sublist v (placeholder m)" using Cons.prems(1,2) Ref by (auto simp: plain_value_def)
    from sublist_skip [OF v this suffix_order.refl] have "sublist v (tokens_str ts)"
      using Cons.prems(3) Ref placeholder_last by auto
    then show ?thesis using Cons by (auto simp: sublist_Cons_right)
  qed
qed (simp add: plain_value_def)

lemma token_replace_cases:
  "(\<exists>us. v \<noteq> [] \<and> ts = map Lit v @ us \<and> token_replace v n ts = Ref n # token_replace v n us) \<or>
   (ts = [] \<and> token_replace v n ts = []) \<or>
   (\<exists>t us. ts = t # us \<and> \<not> (v \<noteq> [] \<and> prefix (map Lit v) ts) \<and> token_replace v n ts = t # token_replace v n us)"
proof (cases "v \<noteq> [] \<and> prefix (map Lit v) ts")
  case True
  then obtain us where "ts = map Lit v @ us" by (auto simp: prefix_def)
  moreover from this have "token_replace v n ts = Ref n # token_replace v n us"
    by (subst token_replace.simps) (use True in simp)
  ultimately show ?thesis using True by blast
next
  case False
  then have "token_replace v n ts = (case ts of [] \<Rightarrow> [] | t # us \<Rightarrow> t # token_replace v n us)"
    by (subst token_replace.simps) auto
  then show ?thesis using False by (cases ts) simp_all
qed

lemma token_replace_prefix:
  "prefix (map Lit w) (token_replace v n ts) \<Longrightarrow> prefix (map Lit w) ts"
proof (induction w arbitrary: ts)
  case (Cons c w)
  with token_replace_cases [of v ts n] show ?case by auto
qed simp

lemma token_replace_sublist:
  "w \<noteq> [] \<Longrightarrow> sublist (map Lit w) (token_replace v n ts) \<Longrightarrow> sublist (map Lit w) ts \<and> w \<noteq> v"
proof (induction v n ts rule: token_replace.induct)
  case (1 v n ts)
  from token_replace_cases [of v ts n] show ?case
  proof (elim disjE exE conjE)
    fix us assume us: "v \<noteq> []" "ts = map Lit v @ us" "token_replace v n ts = Ref n # token_replace v n us"
    have "\<not> prefix (map Lit w) (Ref n # token_replace v n us)" using 1(3) by (cases w) auto
    with 1(4) us(3) have "sublist (map Lit w) (token_replace v n us)" by (simp add: sublist_Cons_right)
    then have "sublist (map Lit w) us \<and> w \<noteq> v" using 1(1) us(1,2) 1(3) by simp
    then show ?thesis using us(2) by (meson sublist_append_leftI sublist_order.order_trans)
  next
    fix t us assume us: "ts = t # us" "\<not> (v \<noteq> [] \<and> prefix (map Lit v) ts)" "token_replace v n ts = t # token_replace v n us"
    show ?thesis
    proof (cases "prefix (map Lit w) (token_replace v n ts)")
      case True
      then have p: "prefix (map Lit w) ts" by (rule token_replace_prefix)
      then show ?thesis using us(2) 1(3) prefix_imp_sublist by blast
    next
      case False
      then have "sublist (map Lit w) (token_replace v n us)" using 1(4) us(3) by (simp add: sublist_Cons_right)
      then have "sublist (map Lit w) us \<and> w \<noteq> v" using 1(2) [OF us(2) us(1)] 1(3) by simp
      then show ?thesis using us(1) by (simp add: sublist_Cons_right)
    qed
  next
    assume "token_replace v n ts = []"
    then show ?thesis using 1(3,4) by simp
  qed
qed

lemma token_replace_ok:
  "n \<in> set names \<Longrightarrow> list_all (token_ok names) ts \<Longrightarrow> list_all (token_ok names) (token_replace v n ts)"
proof (induction v n ts rule: token_replace.induct)
  case (1 v n ts)
  from token_replace_cases [of v ts n] show ?case
    using 1 by (elim disjE exE conjE) auto
qed

definition scrub_tokens :: "(string \<times> string) list \<Rightarrow> token list \<Rightarrow> token list" where
  "scrub_tokens order ts = foldl (\<lambda>t (name, val). token_replace val name t) ts order"

lemma scrub_tokens_Cons [simp]:
  "scrub_tokens [] ts = ts" "scrub_tokens ((n, v) # order) ts = scrub_tokens order (token_replace v n ts)"
  by (simp_all add: scrub_tokens_def)

lemma scrub_tokens_str:
  "\<forall>(n, v) \<in> set order. n \<in> set names \<and> plain_value names v \<Longrightarrow> list_all (token_ok names) ts \<Longrightarrow>
   foldl (\<lambda>t (name, val). str_replace val (placeholder name) t) (tokens_str ts) order = tokens_str (scrub_tokens order ts) \<and>
   list_all (token_ok names) (scrub_tokens order ts)"
  by (induction order arbitrary: ts) (auto simp: str_replace_tokens token_replace_ok)

lemma scrub_tokens_sublist:
  "w \<noteq> [] \<Longrightarrow> sublist (map Lit w) (scrub_tokens order ts) \<Longrightarrow> sublist (map Lit w) ts \<and> w \<notin> snd ` set order"
proof (induction order arbitrary: ts)
  case (Cons x order)
  obtain n v where x: "x = (n, v)" by force
  with Cons.prems have "sublist (map Lit w) (scrub_tokens order (token_replace v n ts))" by simp
  with Cons.IH Cons.prems(1) have "sublist (map Lit w) (token_replace v n ts)" "w \<notin> snd ` set order" by auto
  with token_replace_sublist [OF Cons.prems(1)] show ?case using x by auto
qed simp

lemma scrub_hides:
  assumes "SecretRegistry secrets = Inr r"
    and "\<forall>v \<in> set (dict_values secrets). plain_value (dict_keys secrets) v"
    and "dict_get secrets name = Some v"
  shows "\<not> sublist v (scrub r text)"
proof
  assume s: "sublist v (scrub r text)"
  have order: "set (sr_scrub_order r) = set secrets"
    using assms(1) by (auto simp: SecretRegistry_def split: if_splits)
  have v: "v \<in> snd ` set secrets" "plain_value (dict_keys secrets) v"
    using assms(2,3) dict_get_values [OF assms(3)] by (auto simp: dict_values_def)
  have "\<forall>(n, v) \<in> set (sr_scrub_order r). n \<in> set (dict_keys secrets) \<and> plain_value (dict_keys secrets) v"
    using assms(2) unfolding order by (force simp: dict_keys_def dict_values_def)
  from scrub_tokens_str [OF this, of "map Lit text"]
  have t: "scrub r text = tokens_str (scrub_tokens (sr_scrub_order r) (map Lit text))"
    "list_all (token_ok (dict_keys secrets)) (scrub_tokens (sr_scrub_order r) (map Lit text))"
    by (simp_all add: scrub_def list_all_iff)
  from sublist_tokens [OF v(2) t(2)] s t(1)
  have "sublist (map Lit v) (scrub_tokens (sr_scrub_order r) (map Lit text))" by simp
  with scrub_tokens_sublist [of v] v order show False by (auto simp: plain_value_def)
qed

text \<open>
  C33. When every value is free of braces and of the text of references, no registered value occurs
  anywhere in a scrubbed text, whatever the text and however the values overlap.
\<close>

theorem scrub_hides_secrets:
  assumes "SecretRegistry secrets = Inr r"
    and "\<forall>v \<in> set (dict_values secrets). plain_value (dict_keys secrets) v"
    and "dict_get secrets name = Some v"
  shows "\<not> sublist v (scrub r text)"
  using assms by (rule scrub_hides)

theorem scrub_hides_secrets_witness:
  "\<not> sublist ''hunter2'' (scrub \<lparr>sr_secrets = [(''pw'', ''hunter2'')], sr_scrub_order = [(''pw'', ''hunter2'')]\<rparr> ''my hunter2!'')"
proof -
  have r: "SecretRegistry [(''pw'', ''hunter2'')] = Inr \<lparr>sr_secrets = [(''pw'', ''hunter2'')], sr_scrub_order = [(''pw'', ''hunter2'')]\<rparr>"
    by (simp add: SecretRegistry_def)
  show ?thesis
    by (rule scrub_hides_secrets [OF r, of "''pw''"])
      (auto simp: dict_values_def dict_keys_def dict_get_def plain_value_def no_brace_def placeholder_def sublist_Cons_right)
qed

section \<open>Round trip\<close>

fun token_value :: "(string, string) dict \<Rightarrow> token \<Rightarrow> string" where
  "token_value secrets (Lit c) = [c]"
| "token_value secrets (Ref n) = the (dict_get secrets n)"

definition tokens_value :: "(string, string) dict \<Rightarrow> token list \<Rightarrow> string" where
  "tokens_value secrets ts = concat (map (token_value secrets) ts)"

definition valid_name :: "string \<Rightarrow> bool" where
  "valid_name n = (n \<noteq> [] \<and> list_all name_char n)"

lemma match_ref_placeholder:
  "valid_name n \<Longrightarrow> match_ref (placeholder n @ rest) = Some (n, rest)"
proof -
  assume n: "valid_name n"
  have b: "\<not> name_char CHR ''}''" by (simp add: name_char_def)
  have "takeWhile name_char (n @ ''}}'' @ rest) = n" "dropWhile name_char (n @ ''}}'' @ rest) = ''}}'' @ rest"
    using n b by (auto simp: valid_name_def list_all_iff takeWhile_append dropWhile_append)
  then show ?thesis using n by (simp add: match_ref_def placeholder_def valid_name_def Let_def)
qed

lemma match_ref_plain: "c \<noteq> CHR ''{'' \<Longrightarrow> match_ref (c # s) = None"
  by (simp add: match_ref_def)

fun token_plain :: "token \<Rightarrow> bool" where
  "token_plain (Lit c) = (c \<noteq> CHR ''{'')"
| "token_plain (Ref n) = valid_name n"

lemma substitute_tokens:
  "list_all token_plain ts \<Longrightarrow> \<forall>n. Ref n \<in> set ts \<longrightarrow> dict_get (sr_secrets r) n \<noteq> None \<Longrightarrow>
   substitute r (tokens_str ts) = tokens_value (sr_secrets r) ts"
proof (induction ts)
  case Nil
  then show ?case by (simp add: substitute.simps tokens_value_def match_ref_def)
next
  case (Cons t ts)
  then have ih: "substitute r (tokens_str ts) = tokens_value (sr_secrets r) ts" by simp
  show ?case
  proof (cases t)
    case (Lit c)
    then show ?thesis
      using Cons.prems(1) ih by (simp add: substitute.simps [of r "c # _"] match_ref_plain tokens_value_def)
  next
    case (Ref n)
    then show ?thesis
      using Cons.prems ih by (auto simp: substitute.simps [of r "placeholder n @ _"] match_ref_placeholder tokens_value_def)
  qed
qed

lemma token_replace_value:
  "dict_get secrets n = Some v \<Longrightarrow> tokens_value secrets (token_replace v n ts) = tokens_value secrets ts"
proof (induction v n ts rule: token_replace.induct)
  case (1 v n ts)
  have lit: "concat (map (token_value secrets) (map Lit s)) = s" for s by (induction s) auto
  from token_replace_cases [of v ts n] show ?case
    using 1 lit by (elim disjE exE conjE) (auto simp: tokens_value_def)
qed

lemma token_replace_plain:
  "valid_name n \<Longrightarrow> list_all token_plain ts \<Longrightarrow> list_all token_plain (token_replace v n ts)"
proof (induction v n ts rule: token_replace.induct)
  case (1 v n ts)
  from token_replace_cases [of v ts n] show ?case using 1 by (elim disjE exE conjE) auto
qed

lemma scrub_tokens_value:
  "\<forall>(n, v) \<in> set order. dict_get secrets n = Some v \<and> valid_name n \<Longrightarrow> list_all token_plain ts \<Longrightarrow>
   tokens_value secrets (scrub_tokens order ts) = tokens_value secrets ts \<and> list_all token_plain (scrub_tokens order ts)"
  by (induction order arbitrary: ts) (auto simp: token_replace_value token_replace_plain)

text \<open>
  Substitution undoes scrubbing: for a text without braces, and a registry with valid names and
  values as in C10, scrubbing the text and then substituting the references gives the text back.
\<close>

theorem substitute_scrub:
  assumes "SecretRegistry secrets = Inr r" and wf: "dict_wf secrets"
    and "\<forall>v \<in> set (dict_values secrets). plain_value (dict_keys secrets) v"
    and names: "\<forall>n \<in> set (dict_keys secrets). valid_name n"
    and plain: "no_brace text"
  shows "substitute r (scrub r text) = text"
proof -
  have r: "set (sr_scrub_order r) = set secrets" "sr_secrets r = secrets"
    using assms(1) by (auto simp: SecretRegistry_def split: if_splits)
  have ok: "\<forall>(n, v) \<in> set (sr_scrub_order r). n \<in> set (dict_keys secrets) \<and> plain_value (dict_keys secrets) v"
    using assms(3) unfolding r by (force simp: dict_keys_def dict_values_def)
  have val: "\<forall>(n, v) \<in> set (sr_scrub_order r). dict_get secrets n = Some v \<and> valid_name n"
    using names wf unfolding r by (auto simp: dict_get_iff) (force simp: dict_keys_def)
  define ts where "ts = scrub_tokens (sr_scrub_order r) (map Lit text)"
  have t: "scrub r text = tokens_str ts" "list_all (token_ok (dict_keys secrets)) ts"
    using scrub_tokens_str [OF ok, of "map Lit text"] by (simp_all add: scrub_def ts_def list_all_iff)
  have p: "tokens_value secrets ts = tokens_value secrets (map Lit text)" "list_all token_plain ts"
    using scrub_tokens_value [OF val, of "map Lit text"] plain by (auto simp: ts_def list_all_iff no_brace_def)
  have "\<forall>n. Ref n \<in> set ts \<longrightarrow> dict_get (sr_secrets r) n \<noteq> None"
    using t(2) r(2) by (auto simp: list_all_iff dict_get_None_iff)
  from substitute_tokens [OF p(2) this] show ?thesis
    using t(1) p(1) r(2) by (simp add: tokens_value_def comp_def)
qed

theorem substitute_scrub_witness:
  "substitute \<lparr>sr_secrets = [(''pw'', ''hunter2'')], sr_scrub_order = [(''pw'', ''hunter2'')]\<rparr>
     (scrub \<lparr>sr_secrets = [(''pw'', ''hunter2'')], sr_scrub_order = [(''pw'', ''hunter2'')]\<rparr> ''my hunter2!'') = ''my hunter2!''"
proof -
  have r: "SecretRegistry [(''pw'', ''hunter2'')] = Inr \<lparr>sr_secrets = [(''pw'', ''hunter2'')], sr_scrub_order = [(''pw'', ''hunter2'')]\<rparr>"
    by (simp add: SecretRegistry_def)
  show ?thesis
    by (rule substitute_scrub [OF r])
      (auto simp: dict_wf_def dict_values_def dict_keys_def plain_value_def no_brace_def placeholder_def sublist_Cons_right valid_name_def name_char_def)
qed

end
