(* ===== verification/Pricing.thy ===== *)
theory Pricing
  imports Prelude
begin

text \<open>
  The price of a model's token usage, \<open>session/_pricing.py\<close>. Amounts are exact rationals. The cost is
  linear in the usage, so adding up the cost of the turns of a task, as the scheduler does, gives the cost
  of the task's total usage.
\<close>

record usage =
  input_tokens :: int
  output_tokens :: int
  reasoning_tokens :: int
  cache_read_tokens :: int
  cache_write_tokens :: int

record token_rates =
  input_per_million :: decimal
  output_per_million :: decimal
  cache_read_per_million :: decimal
  cache_write_per_million :: decimal
  reasoning_per_million :: decimal

definition rates :: "decimal \<Rightarrow> decimal \<Rightarrow> decimal \<Rightarrow> decimal \<Rightarrow> decimal \<Rightarrow> token_rates" where
  "rates i ou cr cw re = \<lparr>input_per_million = i, output_per_million = ou, cache_read_per_million = cr,
     cache_write_per_million = cw, reasoning_per_million = re\<rparr>"

definition PRICING_TABLE :: "(string, token_rates) dict" where
  "PRICING_TABLE =
     [(''anthropic/claude-opus-4-6'', rates 5 25 (1/2) (25/4) 60),
      (''anthropic/claude-sonnet-4-6'', rates 3 15 (3/10) (15/4) 20),
      (''anthropic/claude-haiku-4-5'', rates 1 5 (1/10) (5/4) 2),
      (''openai/gpt-4o'', rates (5/2) 10 (5/4) (5/2) 10),
      (''openai/gpt-4o-mini'', rates (15/100) (6/10) (75/1000) (15/100) (6/10)),
      (''google/gemini-2.5-flash'', rates (3/10) (5/2) (3/100) (3/10) (5/2))]"

definition lookup_rates :: "string \<Rightarrow> (string, token_rates) dict option \<Rightarrow> token_rates option" where
  "lookup_rates model extra_rates =
     (case Option.bind extra_rates (\<lambda>d. dict_get d model) of
        Some r \<Rightarrow> Some r
      | None \<Rightarrow> dict_get PRICING_TABLE model)"

definition compute_cost_usd :: "string \<Rightarrow> usage \<Rightarrow> (string, token_rates) dict option \<Rightarrow> decimal result" where
  "compute_cost_usd model u extra_rates =
     (case lookup_rates model extra_rates of
        None \<Rightarrow> Inl ValueError
      | Some r \<Rightarrow>
          Inr ((input_per_million r * of_int (input_tokens u)
                + output_per_million r * of_int (output_tokens u)
                + reasoning_per_million r * of_int (reasoning_tokens u)
                + cache_read_per_million r * of_int (cache_read_tokens u)
                + cache_write_per_million r * of_int (cache_write_tokens u)) / 1000000))"

section \<open>Linearity\<close>

definition add_usage :: "usage \<Rightarrow> usage \<Rightarrow> usage" where
  "add_usage u v =
     \<lparr>input_tokens = input_tokens u + input_tokens v,
      output_tokens = output_tokens u + output_tokens v,
      reasoning_tokens = reasoning_tokens u + reasoning_tokens v,
      cache_read_tokens = cache_read_tokens u + cache_read_tokens v,
      cache_write_tokens = cache_write_tokens u + cache_write_tokens v\<rparr>"

definition zero_usage :: usage where
  "zero_usage = \<lparr>input_tokens = 0, output_tokens = 0, reasoning_tokens = 0, cache_read_tokens = 0, cache_write_tokens = 0\<rparr>"

fun total_usage :: "usage list \<Rightarrow> usage" where
  "total_usage [] = zero_usage"
| "total_usage (u # us) = add_usage u (total_usage us)"

fun sum_costs :: "string \<Rightarrow> (string, token_rates) dict option \<Rightarrow> usage list \<Rightarrow> decimal result" where
  "sum_costs model extra [] = Inr 0"
| "sum_costs model extra (u # us) =
     bind_res (compute_cost_usd model u extra) (\<lambda>c. bind_res (sum_costs model extra us) (\<lambda>d. Inr (c + d)))"

lemma compute_cost_add:
  "compute_cost_usd model u extra = Inr c \<Longrightarrow> compute_cost_usd model v extra = Inr d \<Longrightarrow>
   compute_cost_usd model (add_usage u v) extra = Inr (c + d)"
  by (auto simp: compute_cost_usd_def add_usage_def algebra_simps add_divide_distrib split: option.splits)

lemma compute_cost_defined:
  "is_ok (compute_cost_usd model u extra) \<longleftrightarrow> lookup_rates model extra \<noteq> None"
  by (auto simp: compute_cost_usd_def split: option.split)

text \<open>
  Pricing is additive and defined per model: for a model with rates, the costs of the turns add up
  to the cost of their total usage; a model in neither the run's rates nor the table raises \<open>ValueError\<close>
  for every usage, so no usage is priced at zero by omission.
\<close>

theorem pricing_additive:
  "if lookup_rates model extra = None
   then \<forall>u. compute_cost_usd model u extra = Inl ValueError
   else \<exists>c. sum_costs model extra us = Inr c \<and> compute_cost_usd model (total_usage us) extra = Inr c"
proof (cases "lookup_rates model extra")
  case None
  then show ?thesis by (simp add: compute_cost_usd_def)
next
  case (Some r)
  have "\<exists>c. sum_costs model extra us = Inr c \<and> compute_cost_usd model (total_usage us) extra = Inr c"
  proof (induction us)
    case Nil
    then show ?case using Some by (simp add: compute_cost_usd_def zero_usage_def)
  next
    case (Cons u us)
    then obtain c where c: "sum_costs model extra us = Inr c" "compute_cost_usd model (total_usage us) extra = Inr c" by blast
    obtain d where d: "compute_cost_usd model u extra = Inr d" using compute_cost_defined Some by (force simp: is_ok_iff)
    show ?case using compute_cost_add [OF d c(2)] c(1) d by simp
  qed
  with Some show ?thesis by simp
qed

end
