(* ===== verification/Constraints.thy ===== *)
theory Constraints
  imports Verify
begin

text \<open>
  The mechanical constraints that a task must satisfy when it ends, from \<open>scheduler/_enforcement.py\<close>.
  Subprocesses, custom checkers and the parsing of source files are outside the sources: their results (exit codes,
  output lines, the exports and signatures found in the files) come from parameters. What is awaited, the subprocesses and the custom checkers, may
  raise and may change the state \<open>'s\<close>; the files are read without waiting, so reading them may raise only.
\<close>

section \<open>Standard library\<close>

text \<open>\<open>re.search(r"\((.*?)\)", s)\<close>: the text between a parenthesis and the next closing one, on one line.\<close>

fun paren_arg :: "string \<Rightarrow> string option" where
  "paren_arg [] = None"
| "paren_arg (c # cs) =
     (if c = CHR ''('' \<and> CHR '')'' \<in> set cs \<and> CHR 0x0A \<notin> set (takeWhile (\<lambda>x. x \<noteq> CHR '')'') cs)
      then Some (takeWhile (\<lambda>x. x \<noteq> CHR '')'') cs)
      else paren_arg cs)"

section \<open>Data\<close>

datatype constraint_kind =
    TESTS_PASS | LINT_CLEAN | NO_REMOVED_EXPORTS | NO_CHANGED_SIGNATURES
  | NO_NEW_DEPENDENCIES | NO_NEW_FILES_OUTSIDE

definition kind_value :: "constraint_kind \<Rightarrow> string" where
  "kind_value k = (case k of
      TESTS_PASS \<Rightarrow> ''tests_pass'' | LINT_CLEAN \<Rightarrow> ''lint_clean''
    | NO_REMOVED_EXPORTS \<Rightarrow> ''no_removed_exports'' | NO_CHANGED_SIGNATURES \<Rightarrow> ''no_changed_signatures''
    | NO_NEW_DEPENDENCIES \<Rightarrow> ''no_new_dependencies'' | NO_NEW_FILES_OUTSIDE \<Rightarrow> ''no_new_files_outside'')"

definition all_kinds :: "constraint_kind list" where
  "all_kinds = [TESTS_PASS, LINT_CLEAN, NO_REMOVED_EXPORTS, NO_CHANGED_SIGNATURES, NO_NEW_DEPENDENCIES, NO_NEW_FILES_OUTSIDE]"

definition kind_of :: "string \<Rightarrow> constraint_kind option" where
  "kind_of s = find (\<lambda>k. kind_value k = s) all_kinds"

definition EXPENSIVE_CONSTRAINTS :: "constraint_kind list" where
  "EXPENSIVE_CONSTRAINTS = [TESTS_PASS, LINT_CLEAN]"

definition ok_result :: "string \<Rightarrow> check_result" where
  "ok_result msg = \<lparr>passed = True, message = msg, details = None, fix_fn = None\<rparr>"

text \<open>
  What the constraints ask of the world: the exit code and stripped output of the two test
  commands, the lines of the two \<open>git\<close> commands, and the snapshots of exports and signatures the code takes
  for a glob pattern (file to names, file to functions with their parameters).
\<close>

type_synonym exports = "(string, string list) dict"
type_synonym signatures = "(string, (string, string list) dict) dict"

record 's world =
  w_pytest :: "'s \<Rightarrow> (int \<times> string) result \<times> 's"
  w_ruff :: "'s \<Rightarrow> (int \<times> string) result \<times> 's"
  w_git_diff :: "'s \<Rightarrow> string list result \<times> 's"
  w_git_status :: "'s \<Rightarrow> string list result \<times> 's"
  w_exports :: "string \<Rightarrow> 's \<Rightarrow> exports result"
  w_signatures :: "string \<Rightarrow> 's \<Rightarrow> signatures result"

definition readS :: "('s \<Rightarrow> 'a result) \<Rightarrow> 's \<Rightarrow> 'a result \<times> 's" where
  "readS f s = (f s, s)"

lemma readS_simps [simp]: "readS f s = (r, s') \<longleftrightarrow> f s = r \<and> s' = s"
  by (auto simp: readS_def)

lemma steady_readS [simp, intro]: "steady I (readS f)"
  by (simp add: steady_def)

datatype snapshot = ExportSnapshot exports | SignatureSnapshot signatures

section \<open>The checkers\<close>

definition check_tests_pass :: "'s world \<Rightarrow> 's \<Rightarrow> check_result result \<times> 's" where
  "check_tests_pass w =
     bindS (w_pytest w) (\<lambda>(returncode, out). returnS
       (if returncode = 0 then ok_result ''All tests passed''
        else failed (''Tests failed (exit '' @ int_str returncode @ ''): '' @ take 500 out) None))"

definition check_lint_clean :: "'s world \<Rightarrow> 's \<Rightarrow> check_result result \<times> 's" where
  "check_lint_clean w =
     bindS (w_ruff w) (\<lambda>(returncode, out). returnS
       (if returncode = 0 then ok_result ''Lint clean''
        else failed (''Lint issues found: '' @ take 500 out) None))"

definition dep_files :: "string list" where
  "dep_files = [''pyproject.toml'', ''requirements.txt'', ''requirements-dev.txt'', ''setup.cfg'', ''setup.py'']"

definition check_no_new_dependencies :: "'s world \<Rightarrow> 's \<Rightarrow> check_result result \<times> 's" where
  "check_no_new_dependencies w =
     bindS (w_git_diff w) (\<lambda>changed.
       (let dep_changed = filter (\<lambda>f. list_ex (endswith f) dep_files) changed
        in returnS (if dep_changed \<noteq> [] then failed (''Dependency files changed: '' @ join '', '' dep_changed) None
                    else ok_result ''No dependency changes detected'')))"

definition new_files :: "string \<Rightarrow> string list \<Rightarrow> string list" where
  "new_files directory lines =
     filter (\<lambda>filepath. \<not> startswith filepath directory)
       (map (\<lambda>line. py_strip (drop 3 line))
         (filter (\<lambda>line. startswith line ''??'' \<or> startswith line ''A '') lines))"

definition check_no_new_files_outside :: "'s world \<Rightarrow> string \<Rightarrow> 's \<Rightarrow> check_result result \<times> 's" where
  "check_no_new_files_outside w constraint_text =
     (case paren_arg constraint_text of
        None \<Rightarrow> returnS (failed ''no_new_files_outside: no directory specified in constraint text'' None)
      | Some directory \<Rightarrow>
          bindS (w_git_status w) (\<lambda>lines.
            (let files = new_files directory lines
             in returnS (if files \<noteq> [] then failed (''New files outside '' @ directory @ '': '' @ join '', '' files) None
                         else ok_result (''No new files outside '' @ directory)))))"

type_synonym snapshots = "(uuid, (string, snapshot) dict) dict"

definition get_or_empty :: "('k, 'v list) dict \<Rightarrow> 'k \<Rightarrow> 'v list" where
  "get_or_empty d k = (case dict_get d k of None \<Rightarrow> [] | Some v \<Rightarrow> v)"

definition removed_exports :: "exports \<Rightarrow> exports \<Rightarrow> string list" where
  "removed_exports before after =
     concat (map (\<lambda>(filepath, old_names).
       map (\<lambda>name. filepath @ '':'' @ name)
         (sort (filter (\<lambda>n. n \<notin> set (get_or_empty after filepath)) old_names))) before)"

definition exports_verdict :: "exports \<Rightarrow> exports \<Rightarrow> check_result" where
  "exports_verdict before after =
     (let removed = removed_exports before after
      in if removed \<noteq> [] then failed (''Removed exports: '' @ join '', '' removed) None else ok_result ''No exports removed'')"

definition check_no_removed_exports :: "'s world \<Rightarrow> ('s \<Rightarrow> snapshots) \<Rightarrow> uuid \<Rightarrow> string \<Rightarrow> 's \<Rightarrow> check_result result \<times> 's" where
  "check_no_removed_exports w snaps task_id constraint_text s =
     (case paren_arg constraint_text of
        None \<Rightarrow> returnS (failed ''no_removed_exports: no glob pattern specified'' None) s
      | Some glob_pattern \<Rightarrow>
          (case dict_get (get_or_empty (snaps s) task_id) (''exports:'' @ glob_pattern) of
             Some (ExportSnapshot before) \<Rightarrow>
               bindS (readS (w_exports w glob_pattern)) (\<lambda>after. returnS (exports_verdict before after)) s
           | _ \<Rightarrow> returnS (ok_result ''no_removed_exports: no pre-task snapshot (constraint added mid-task)'') s))"

definition list_repr :: "string list \<Rightarrow> string" where
  "list_repr xs = ''['' @ join '', '' (map (\<lambda>x. [CHR 0x27] @ x @ [CHR 0x27]) xs) @ '']''"

definition changed_signatures :: "signatures \<Rightarrow> signatures \<Rightarrow> string list" where
  "changed_signatures before after =
     concat (map (\<lambda>(filepath, old_sigs).
       concat (map (\<lambda>(func_name, old_params).
         (case dict_get (get_or_empty after filepath) func_name of
            Some new_params \<Rightarrow> if old_params \<noteq> new_params 
              then [filepath @ '':'' @ func_name @ '' ('' @ list_repr old_params @ '' -> '' @ list_repr new_params @ '')''] else []
          | None \<Rightarrow> [])) old_sigs)) before)"

definition signatures_verdict :: "signatures \<Rightarrow> signatures \<Rightarrow> check_result" where
  "signatures_verdict before after =
     (let changed = changed_signatures before after
      in if changed \<noteq> [] then failed (''Changed signatures: '' @ join ''; '' changed) None else ok_result ''No signatures changed'')"

definition check_no_changed_signatures :: "'s world \<Rightarrow> ('s \<Rightarrow> snapshots) \<Rightarrow> uuid \<Rightarrow> string \<Rightarrow> 's \<Rightarrow> check_result result \<times> 's" where
  "check_no_changed_signatures w snaps task_id constraint_text s =
     (case paren_arg constraint_text of
        None \<Rightarrow> returnS (failed ''no_changed_signatures: no glob pattern specified'' None) s
      | Some glob_pattern \<Rightarrow>
          (case dict_get (get_or_empty (snaps s) task_id) (''signatures:'' @ glob_pattern) of
             Some (SignatureSnapshot before) \<Rightarrow>
               bindS (readS (w_signatures w glob_pattern)) (\<lambda>after. returnS (signatures_verdict before after)) s
           | _ \<Rightarrow> returnS (ok_result ''no_changed_signatures: no pre-task snapshot (constraint added mid-task)'') s))"

definition capture_one :: "'s world \<Rightarrow> string \<Rightarrow> string \<Rightarrow> (string, snapshot) dict \<Rightarrow> 's \<Rightarrow> (string, snapshot) dict result" where
  "capture_one w constraint_text kind_str snaps s =
     (case paren_arg constraint_text of
        None \<Rightarrow> Inr snaps
      | Some glob_pattern \<Rightarrow>
          (case kind_of kind_str of
             None \<Rightarrow> Inr snaps
           | Some kind \<Rightarrow>
               if kind = NO_REMOVED_EXPORTS
               then bind_res (w_exports w glob_pattern s) (\<lambda>ex. Inr (dict_set (''exports:'' @ glob_pattern) (ExportSnapshot ex) snaps))
               else if kind = NO_CHANGED_SIGNATURES
               then bind_res (w_signatures w glob_pattern s) (\<lambda>sg. Inr (dict_set (''signatures:'' @ glob_pattern) (SignatureSnapshot sg) snaps))
               else Inr snaps))"

fun capture_loop :: "'s world \<Rightarrow> (string \<times> string) list \<Rightarrow> (string, snapshot) dict \<Rightarrow> 's \<Rightarrow> (string, snapshot) dict result" where
  "capture_loop w [] snaps s = Inr snaps"
| "capture_loop w ((constraint_text, kind_str) # rest) snaps s =
     (case capture_one w constraint_text kind_str snaps s of
        Inl e \<Rightarrow> Inl e
      | Inr snaps' \<Rightarrow> capture_loop w rest snaps' s)"

definition capture_pre_task_snapshots ::
  "'s world \<Rightarrow> (string \<times> string) list \<Rightarrow> uuid \<Rightarrow> snapshots \<Rightarrow> 's \<Rightarrow> snapshots result" where
  "capture_pre_task_snapshots w mechanical_constraints task_id snaps s =
     bind_res (capture_loop w mechanical_constraints [] s) (\<lambda>captured.
       Inr (if captured \<noteq> [] then dict_set task_id captured snaps else snaps))"

text \<open>Custom checkers come from the caller, so they are an argument: a kind's value to a checker.\<close>

type_synonym 's checkers = "(string, constraint_kind \<Rightarrow> uuid \<Rightarrow> string \<Rightarrow> 's \<Rightarrow> check_result result \<times> 's) dict"

definition check_constraint ::
  "'s world \<Rightarrow> 's checkers \<Rightarrow> ('s \<Rightarrow> snapshots) \<Rightarrow> constraint_kind \<Rightarrow> uuid \<Rightarrow> string \<Rightarrow> 's \<Rightarrow> check_result result \<times> 's" where
  "check_constraint w custom snaps kind task_id constraint_text =
     (case dict_get custom (kind_value kind) of
        Some checker \<Rightarrow> checker kind task_id constraint_text
      | None \<Rightarrow>
          (case kind of
             TESTS_PASS \<Rightarrow> check_tests_pass w
           | LINT_CLEAN \<Rightarrow> check_lint_clean w
           | NO_NEW_DEPENDENCIES \<Rightarrow> check_no_new_dependencies w
           | NO_NEW_FILES_OUTSIDE \<Rightarrow> check_no_new_files_outside w constraint_text
           | NO_REMOVED_EXPORTS \<Rightarrow> check_no_removed_exports w snaps task_id constraint_text
           | NO_CHANGED_SIGNATURES \<Rightarrow> check_no_changed_signatures w snaps task_id constraint_text))"

text \<open>One constraint: its results, none when it is skipped.\<close>

definition run_constraint ::
  "'s world \<Rightarrow> 's checkers \<Rightarrow> ('s \<Rightarrow> snapshots) \<Rightarrow> bool \<Rightarrow> uuid \<Rightarrow> string \<times> string \<Rightarrow> 's \<Rightarrow> check_result list result \<times> 's" where
  "run_constraint w custom snaps has_subtasks task_id entry =
     (case kind_of (snd entry) of
        None \<Rightarrow> returnS [failed (''Unknown constraint kind: '' @ snd entry) None]
      | Some kind \<Rightarrow>
          if kind \<in> set EXPENSIVE_CONSTRAINTS \<and> \<not> has_subtasks then returnS []
          else bindS (check_constraint w custom snaps kind task_id (fst entry)) (\<lambda>r. returnS [r]))"

fun run_mechanical_constraints ::
  "'s world \<Rightarrow> 's checkers \<Rightarrow> ('s \<Rightarrow> snapshots) \<Rightarrow> bool \<Rightarrow> uuid \<Rightarrow> (string \<times> string) list \<Rightarrow> 's \<Rightarrow> check_result list result \<times> 's" where
  "run_mechanical_constraints w custom snaps has_subtasks task_id [] = returnS []"
| "run_mechanical_constraints w custom snaps has_subtasks task_id (entry # rest) =
     bindS (run_constraint w custom snaps has_subtasks task_id entry) (\<lambda>rs.
       bindS (run_mechanical_constraints w custom snaps has_subtasks task_id rest) (\<lambda>rest_rs. returnS (rs @ rest_rs)))"

section \<open>Correctness\<close>

lemma kind_of_value: "kind_of s = Some k \<longleftrightarrow> kind_value k = s"
proof
  assume "kind_of s = Some k"
  then show "kind_value k = s" unfolding kind_of_def by (auto simp: find_Some_iff)
next
  assume "kind_value k = s"
  then show "kind_of s = Some k" by (cases k) (auto simp: kind_of_def all_kinds_def kind_value_def)
qed

lemma removed_exports_Nil:
  "removed_exports before after = [] \<longleftrightarrow>
     (\<forall>(filepath, names) \<in> set before. set names \<subseteq> set (get_or_empty after filepath))"
proof -
  have "sort xs = [] \<longleftrightarrow> xs = []" for xs :: "string list" by (metis set_empty set_sort)
  then show ?thesis by (fastforce simp: removed_exports_def filter_empty_conv)
qed

definition watches :: "(string \<times> string) list \<Rightarrow> constraint_kind \<Rightarrow> string \<Rightarrow> bool" where
  "watches constraints kind glob_pattern =
     list_ex (\<lambda>(constraint_text, kind_str). paren_arg constraint_text = Some glob_pattern \<and> kind_str = kind_value kind) constraints"

lemma capture_one_exports:
  "capture_one w t k snaps s = Inr snaps' \<Longrightarrow>
   if paren_arg t = Some g \<and> kind_of k = Some NO_REMOVED_EXPORTS
   then (\<exists>ex. w_exports w g s = Inr ex \<and> dict_get snaps' (''exports:'' @ g) = Some (ExportSnapshot ex))
   else dict_get snaps' (''exports:'' @ g) = dict_get snaps (''exports:'' @ g)"
  by (auto simp: capture_one_def bind_res_Inr_iff split: option.splits if_splits)

lemma capture_loop_exports:
  "capture_loop w cs snaps s = Inr snaps' \<Longrightarrow>
   if watches cs NO_REMOVED_EXPORTS g
   then (\<exists>ex. w_exports w g s = Inr ex \<and> dict_get snaps' (''exports:'' @ g) = Some (ExportSnapshot ex))
   else dict_get snaps' (''exports:'' @ g) = dict_get snaps (''exports:'' @ g)"
proof (induction w cs snaps s rule: capture_loop.induct)
  case (2 w t k rest snaps s)
  then obtain snaps1 where c: "capture_one w t k snaps s = Inr snaps1" "capture_loop w rest snaps1 s = Inr snaps'"
    by (auto split: sum.splits)
  have kind: "kind_of k = Some NO_REMOVED_EXPORTS \<longleftrightarrow> k = kind_value NO_REMOVED_EXPORTS" using kind_of_value by metis
  show ?case using 2(1) [OF c] capture_one_exports [OF c(1), of g] by (auto simp: watches_def kind split: if_splits)
qed (simp add: watches_def)

lemma capture_exports:
  assumes "watches cs NO_REMOVED_EXPORTS g" "capture_pre_task_snapshots w cs task_id snaps s = Inr snaps'"
  shows "\<exists>ex. w_exports w g s = Inr ex \<and> dict_get (get_or_empty snaps' task_id) (''exports:'' @ g) = Some (ExportSnapshot ex)"
proof -
  from assms(2) obtain captured where c: "capture_loop w cs [] s = Inr captured" "snaps' = (if captured \<noteq> [] then dict_set task_id captured snaps else snaps)"
    by (auto simp: capture_pre_task_snapshots_def bind_res_Inr_iff)
  with capture_loop_exports [OF c(1), of g] assms(1) obtain ex where ex: "w_exports w g s = Inr ex" "dict_get captured (''exports:'' @ g) = Some (ExportSnapshot ex)"
    by auto
  then have "captured \<noteq> []" by auto
  with ex c(2) show ?thesis by (simp add: get_or_empty_def)
qed

text \<open>
  The constraint \<open>no_removed_exports\<close> is exact: with the snapshot taken before a task, where the files matching the pattern defined the
  names \<open>before\<close>, the check at its end passes if and only if every name of every such file is still defined there.
\<close>

theorem no_removed_exports_exact:
  assumes "(constraint_text, ''no_removed_exports'') \<in> set constraints" "paren_arg constraint_text = Some glob_pattern"
    and "capture_pre_task_snapshots w constraints task_id snaps s = Inr snaps'"
    and "check_no_removed_exports w (\<lambda>_. snaps') task_id constraint_text s1 = (Inr r, s2)"
  shows "\<exists>before after. w_exports w glob_pattern s = Inr before \<and> w_exports w glob_pattern s1 = Inr after \<and> s2 = s1 \<and>
    (passed r \<longleftrightarrow> (\<forall>(filepath, names) \<in> set before. set names \<subseteq> set (get_or_empty after filepath)))"
proof -
  have "watches constraints NO_REMOVED_EXPORTS glob_pattern"
    using assms(1,2) by (auto simp: watches_def list_ex_iff kind_value_def)
  from capture_exports [OF this assms(3)] obtain before where b: "w_exports w glob_pattern s = Inr before"
    "dict_get (get_or_empty snaps' task_id) (''exports:'' @ glob_pattern) = Some (ExportSnapshot before)" by blast
  with assms(2,4) obtain after where "w_exports w glob_pattern s1 = Inr after" "s2 = s1" "r = exports_verdict before after"
    by (auto simp: check_no_removed_exports_def bindS_Inr)
  with b show ?thesis by (auto simp: exports_verdict_def removed_exports_Nil [symmetric] failed_def ok_result_def Let_def)
qed

text \<open>A world whose files define the names that the state lists.\<close>

definition sample_world :: "('s \<Rightarrow> string list) \<Rightarrow> 's world" where
  "sample_world names = \<lparr>w_pytest = returnS (0, []), w_ruff = returnS (0, []), w_git_diff = returnS [], w_git_status = returnS [],
     w_exports = (\<lambda>_ s. Inr [(''a.py'', names s)]), w_signatures = (\<lambda>_ _. Inr [])\<rparr>"

theorem no_removed_exports_exact_witness:
  "\<exists>snaps r. capture_pre_task_snapshots (sample_world id) [(''no_removed_exports(*.py)'', ''no_removed_exports'')] 9 [] [''f'', ''g''] = Inr snaps \<and>
     check_no_removed_exports (sample_world id) (\<lambda>_. snaps) 9 ''no_removed_exports(*.py)'' [''f''] = (Inr r, [''f'']) \<and> \<not> passed r"
proof -
  let ?cs = "[(''no_removed_exports(*.py)'', ''no_removed_exports'')]"
  have "is_ok (capture_pre_task_snapshots (sample_world id) ?cs 9 [] [''f'', ''g''])" by code_simp
  then obtain snaps where snaps: "capture_pre_task_snapshots (sample_world id) ?cs 9 [] [''f'', ''g''] = Inr snaps"
    by (auto simp: is_ok_iff)
  have m: "(''no_removed_exports(*.py)'', ''no_removed_exports'') \<in> set ?cs" by simp
  have g: "paren_arg ''no_removed_exports(*.py)'' = Some ''*.py''" by simp
  have "is_ok (fst (check_no_removed_exports (sample_world id) (\<lambda>_. projr (capture_pre_task_snapshots (sample_world id) ?cs 9 [] [''f'', ''g''])) 9
      ''no_removed_exports(*.py)'' [''f'']))" by code_simp
  then obtain r s' where r: "check_no_removed_exports (sample_world id) (\<lambda>_. snaps) 9 ''no_removed_exports(*.py)'' [''f''] = (Inr r, s')"
    using snaps by (auto simp: is_ok_iff) (metis prod.collapse)
  from no_removed_exports_exact [OF m g snaps r] have "s' = [''f'']" "\<not> passed r"
    by (auto simp: sample_world_def get_or_empty_def dict_get_def)
  with snaps r show ?thesis by blast
qed

text \<open>
  The constraint gate fails closed: when the run of the constraints comes to an end without an exception and all results pass, then every
  declared constraint has a known kind and its check was executed and passed, except that the expensive kinds
  (\<open>tests_pass\<close>, \<open>lint_clean\<close>) are not run for a task without subtasks.
\<close>

theorem constraint_gate:
  assumes "run_mechanical_constraints w custom snaps has_subtasks task_id constraints s = (Inr rs, s')" "all_passed rs"
    and "(constraint_text, kind_str) \<in> set constraints"
  shows "\<exists>kind. kind_value kind = kind_str \<and>
    ((kind = TESTS_PASS \<or> kind = LINT_CLEAN) \<and> \<not> has_subtasks \<or>
     (\<exists>t r t'. check_constraint w custom snaps kind task_id constraint_text t = (Inr r, t') \<and> passed r))"
  using assms
proof (induction constraints arbitrary: s rs)
  case (Cons x rest)
  then obtain rs1 s1 rs2 where one: "run_constraint w custom snaps has_subtasks task_id x s = (Inr rs1, s1)"
    and more: "run_mechanical_constraints w custom snaps has_subtasks task_id rest s1 = (Inr rs2, s')" and rs: "rs = rs1 @ rs2"
    by (auto simp: bindS_Inr)
  show ?case
  proof (cases "x = (constraint_text, kind_str)")
    case True
    show ?thesis
    proof (cases "kind_of kind_str")
      case None
      then show ?thesis using one True Cons.prems(2) rs by (auto simp: run_constraint_def failed_def)
    next
      case (Some kind)
      then have "kind_value kind = kind_str" using kind_of_value by blast
      moreover have "(kind = TESTS_PASS \<or> kind = LINT_CLEAN) \<and> \<not> has_subtasks \<or>
          (\<exists>r. check_constraint w custom snaps kind task_id constraint_text s = (Inr r, s1) \<and> passed r)"
        using one True Cons.prems(2) rs Some
        by (auto simp: run_constraint_def EXPENSIVE_CONSTRAINTS_def bindS_Inr split: if_splits)
      ultimately show ?thesis by blast
    qed
  next
    case False
    then show ?thesis using Cons.IH [OF more] Cons.prems rs by auto
  qed
qed simp

theorem constraint_gate_witness:
  "\<exists>rs. run_mechanical_constraints (sample_world (\<lambda>_. [])) [] (\<lambda>_. []) True 9 [(''t'', ''tests_pass''), (''l'', ''lint_clean'')] () = (Inr rs, ()) \<and>
     (\<exists>kind t r t'. kind_value kind = ''lint_clean'' \<and>
        check_constraint (sample_world (\<lambda>_. [])) [] (\<lambda>_. []) kind 9 ''l'' (t :: unit) = (Inr r, t') \<and> passed r)"
proof -
  let ?run = "run_mechanical_constraints (sample_world (\<lambda>_. [])) [] (\<lambda>_. []) True 9 [(''t'', ''tests_pass''), (''l'', ''lint_clean'')] ()"
  have "case ?run of (Inr rs, s') \<Rightarrow> all_passed rs | _ \<Rightarrow> False" by code_simp
  then obtain rs where rs: "?run = (Inr rs, ())" "all_passed rs" by (auto split: prod.splits sum.splits)
  from constraint_gate [OF rs, of "''l''" "''lint_clean''"] rs(1) show ?thesis by auto
qed

end
