(* ===== verification/Scheduler.thy ===== *)
theory Scheduler
  imports Trace_Storage Constraints File_Locks Pricing Secrets
begin

text \<open>
  The scheduler's task lifecycle: the tools an agent calls (\<open>scheduler/_lifecycle_handlers.py\<close>), task
  bookkeeping, abort and pause (\<open>scheduler/_executor.py\<close>), the execution of callable, wait-for and
  decision-point tasks (\<open>scheduler/_task_dispatch.py\<close>), and budgets (\<open>scheduler/_enforcement.py\<close>), over the
  in-memory trace backend.

  An operation maps a state to a result and a state: a Python exception keeps the
  assignments made before it. Agents, checks, git, callbacks, events, processes and clocks are fields of \<open>config\<close>; those
  that run while a handler waits get the whole scheduler state, may change it and may raise, which covers
  other sessions interleaving at those points and the cancellation of the waiting coroutine (\<open>CancelledError\<close>). They are assumed to come
  to an end.

  \<open>s_running\<close> holds the asyncio tasks of \<open>_running_tasks\<close> by number, \<open>s_cancelled\<close> those of them on which \<open>cancel\<close> was called and
  whose \<open>CancelledError\<close> is still to come, \<open>s_spawned\<close> counts the tasks created.
\<close>

section \<open>State and configuration\<close>

record agent_def =
  ag_name :: string
  ag_description :: string
  ag_prompt :: string
  ag_category :: "string option"
  ag_provider :: "string option"
  ag_model :: "string option"
  ag_allow :: "string list"
  ag_deferred :: "string list"
  ag_budget :: "decimal option"
  ag_write_paths :: "string list option"
  ag_timeout :: "int option"

datatype budget_policy = BLOCK_NEW | CANCEL_ALL | TIMEOUT_GRACE | UNLIMITED

record result_meta =
  rm_passed :: bool
  rm_duration :: seconds
  rm_retries :: nat

record budget_event =
  be_task_id :: uuid
  be_task_name :: string
  be_budget :: decimal
  be_spent :: decimal

record lesson =
  ls_text :: string
  ls_stale :: bool

record sched =
  s_db :: trace_db
  s_active_tasks :: "(string, uuid) dict"
  s_task_states :: "(uuid, string) dict"
  s_task_specs :: "(uuid, task_spec) dict"
  s_task_parents :: "(uuid, uuid option) dict"
  s_task_children :: "(uuid, uuid list) dict"
  s_task_outputs :: "(uuid option, (string, string option) dict) dict"
  s_task_structured :: "(uuid option, (string, jobj option) dict) dict"
  s_results_meta :: "(uuid option, (string, result_meta) dict) dict"
  s_task_costs :: "(uuid, decimal) dict"
  s_pending_end_message :: "(uuid, string) dict"
  s_claims :: claims
  s_mechanical_constraints :: "(string \<times> string) list"
  s_active_constraints :: "(string \<times> string) list"
  s_snapshots :: snapshots
  s_pending_advisories :: "string list list"
  s_pending_await :: "(string, string) dict"
  s_threshold_events :: "budget_event list"
  s_exhausted_events :: "budget_event list"
  s_budget_blocked :: bool
  s_paused :: bool
  s_scheduled_aborts :: "nat list"
  s_running :: "nat list"
  s_cancelled :: "nat list"
  s_spawned :: nat
  s_services :: "service_config list"
  s_notepad :: "notepad_row list"
  s_lessons :: "lesson list"
  s_task_sessions :: "(uuid, string) dict"
  s_session_mutations :: "(string, string list) dict"
  s_session_usage :: "(string, usage) dict"
  s_tick :: nat

type_synonym 'a op = "sched \<Rightarrow> 'a result \<times> sched"

record config =
  c_run_id :: uuid
  c_principal :: uuid
  c_agents :: "(string, agent_def) dict"
  c_categories :: "(string, string) dict"
  c_pricing :: "(string, token_rates) dict option"
  c_policy :: budget_policy
  c_secrets :: "secret_registry option"
  c_custom :: "sched checkers"
  c_checks :: "sched check_env"
  c_world :: "sched world"
  c_auto_commit :: "string \<Rightarrow> string \<Rightarrow> unit op"
  c_callback :: "string \<Rightarrow> string \<Rightarrow> uuid \<Rightarrow> unit op"
  c_wait_event :: "string \<Rightarrow> int \<Rightarrow> jobj option op"
  c_notify :: "uuid \<Rightarrow> string \<Rightarrow> unit op"
  c_stop_service :: "service_config \<Rightarrow> unit op"
  c_parse_uuid :: "string \<Rightarrow> uuid option"
  c_ids :: "nat \<Rightarrow> uuid"
  c_clock :: "nat \<Rightarrow> time"

section \<open>States and the trace\<close>

text \<open>\<open>try: ... except Exception: log\<close>.\<close>

definition logged :: "unit op \<Rightarrow> unit op" where
  "logged m s = (case m s of (Inl e, s') \<Rightarrow> if except_Exception e then (Inr (), s') else (Inl e, s') | r \<Rightarrow> r)"

fun forS :: "('a \<Rightarrow> unit op) \<Rightarrow> 'a list \<Rightarrow> unit op" where
  "forS f [] = returnS ()"
| "forS f (x # xs) = bindS (f x) (\<lambda>_. forS f xs)"

text \<open>\<open>self._task_states[task_id] = state\<close>, and \<open>transition_task\<close> on the trace.\<close>

definition set_state :: "uuid \<Rightarrow> string \<Rightarrow> sched \<Rightarrow> sched" where
  "set_state task_id st s = s\<lparr>s_task_states := dict_set task_id st (s_task_states s)\<rparr>"

definition trace_transition :: "config \<Rightarrow> uuid \<Rightarrow> string \<Rightarrow> unit op" where
  "trace_transition c task_id st s =
     (case transition_task (c_ids c (s_tick s)) (c_clock c (s_tick s)) task_id st None (c_principal c) (s_db s) of
        Inl e \<Rightarrow> (Inl e, s)
      | Inr db \<Rightarrow> (Inr (), s\<lparr>s_db := db, s_tick := Suc (s_tick s)\<rparr>))"

definition move_task :: "config \<Rightarrow> uuid \<Rightarrow> string \<Rightarrow> unit op" where
  "move_task c task_id st s = trace_transition c task_id st (set_state task_id st s)"

text \<open>\<open>create_task\<close> on the trace with a fresh identifier.\<close>

definition trace_create_task :: "config \<Rightarrow> uuid option \<Rightarrow> string \<Rightarrow> string \<Rightarrow> jobj option \<Rightarrow> uuid op" where
  "trace_create_task c parent name task_type cfg s =
     (let (task_id, db) = create_task (c_ids c (s_tick s)) (c_clock c (s_tick s)) (c_run_id c) parent name task_type cfg (s_db s)
      in (Inr task_id, s\<lparr>s_db := db, s_tick := Suc (s_tick s)\<rparr>))"

section \<open>Bookkeeping\<close>

definition init_task_state :: "uuid \<Rightarrow> task_spec \<Rightarrow> uuid option \<Rightarrow> sched \<Rightarrow> sched" where
  "init_task_state task_id task parent s =
     s\<lparr>s_task_states := dict_set task_id ''created'' (s_task_states s),
       s_task_specs := dict_set task_id task (s_task_specs s),
       s_task_parents := dict_set task_id parent (s_task_parents s),
       s_task_children := dict_set task_id [] (s_task_children s),
       s_task_costs := dict_set task_id 0 (s_task_costs s)\<rparr>"

definition scoped :: "('p, ('n, 'v) dict) dict \<Rightarrow> 'p \<Rightarrow> ('n, 'v) dict" where
  "scoped d p = (case dict_get d p of None \<Rightarrow> [] | Some e \<Rightarrow> e)"

definition complete_task :: "uuid \<Rightarrow> string \<Rightarrow> string option \<Rightarrow> jobj option \<Rightarrow> seconds \<Rightarrow> nat \<Rightarrow> sched \<Rightarrow> sched" where
  "complete_task task_id name out structured duration retries s =
     (let parent_id = Option.bind (dict_get (s_task_parents s) task_id) id
      in s\<lparr>s_task_states := dict_set task_id ''completed'' (s_task_states s),
           s_claims := release (s_claims s) task_id,
           s_task_outputs := dict_set parent_id (dict_set name out (scoped (s_task_outputs s) parent_id)) (s_task_outputs s),
           s_task_structured := dict_set parent_id (dict_set name structured (scoped (s_task_structured s) parent_id)) (s_task_structured s),
           s_results_meta := dict_set parent_id
             (dict_set name \<lparr>rm_passed = True, rm_duration = duration, rm_retries = retries\<rparr> (scoped (s_results_meta s) parent_id))
             (s_results_meta s)\<rparr>)"

definition add_child :: "uuid \<Rightarrow> uuid \<Rightarrow> sched \<Rightarrow> sched" where
  "add_child parent_id task_id s =
     s\<lparr>s_task_children := dict_set parent_id (get_or_empty (s_task_children s) parent_id @ [task_id]) (s_task_children s)\<rparr>"

definition check_active_task :: "string \<Rightarrow> uuid op" where
  "check_active_task session_id s =
     (case dict_get (s_active_tasks s) session_id of None \<Rightarrow> (Inl ToolError, s) | Some task_id \<Rightarrow> (Inr task_id, s))"

definition analyze_structural_advisories :: "config \<Rightarrow> uuid list \<Rightarrow> sched \<Rightarrow> string list list" where
  "analyze_structural_advisories c task_ids s =
     (let write_tools = [''write'', ''edit'', ''delete'', ''move'', ''copy'', ''mkdir'', ''set_executable''];
          read_only_names = concat (map (\<lambda>task_id.
            (case dict_get (s_task_specs s) task_id of
               None \<Rightarrow> []
             | Some spec \<Rightarrow>
                 (case Option.bind (ts_agent (spec_fields spec)) (dict_get (c_agents c)) of
                    None \<Rightarrow> []
                  | Some agent_def \<Rightarrow>
                      if list_ex (\<lambda>t. t \<in> set write_tools) (ag_allow agent_def) then [] else [task_name spec]))) task_ids)
      in if task_ids = [] \<or> read_only_names = [] then [] else [read_only_names])"

section \<open>Checks\<close>

definition make_check_context :: "config \<Rightarrow> task_spec \<Rightarrow> uuid \<Rightarrow> string option \<Rightarrow> sched \<Rightarrow> check_context" where
  "make_check_context c task task_id agent_output s =
     \<lparr>cc_variables = [], cc_agent_output = agent_output, cc_run_id = c_run_id c, cc_session_id = None,
      cc_task_name = task_name task, cc_task_id = task_id, cc_attempt = 1,
      cc_parent_task_id = Option.bind (dict_get (s_task_parents s) task_id) id\<rparr>"

definition run_prechecks :: "config \<Rightarrow> task_spec \<Rightarrow> uuid \<Rightarrow> check_result list op" where
  "run_prechecks c task task_id s =
     (if prechecks task = [] then returnS [ok_result ''No prechecks defined''] s
      else run_checks (c_checks c) (prechecks task) (make_check_context c task task_id None s) [] s)"

definition run_postchecks :: "config \<Rightarrow> task_spec \<Rightarrow> uuid \<Rightarrow> check_result list op" where
  "run_postchecks c task task_id s =
     (if postchecks task = [] then returnS [ok_result ''No postchecks defined''] s
      else run_checks (c_checks c) (postchecks task)
             (make_check_context c task task_id
               (Some (case dict_get (s_pending_end_message s) task_id of None \<Rightarrow> [] | Some m \<Rightarrow> m)) s) [] s)"

definition run_constraints :: "config \<Rightarrow> uuid \<Rightarrow> check_result list op" where
  "run_constraints c task_id s =
     run_mechanical_constraints (c_world c) (c_custom c) s_snapshots
       (get_or_empty (s_task_children s) task_id \<noteq> []) task_id (s_mechanical_constraints s) s"

definition failure_messages :: "check_result list \<Rightarrow> string" where
  "failure_messages rs = join ''; '' (map message (filter (\<lambda>r. \<not> passed r) rs))"

section \<open>The lifecycle handlers\<close>

definition handle_start_task :: "config \<Rightarrow> string \<Rightarrow> string \<Rightarrow> string op" where
  "handle_start_task c session_id task_id s =
     (case c_parse_uuid c task_id of
        None \<Rightarrow> raiseS ValueError s
      | Some task_uuid \<Rightarrow>
          (case dict_get (s_task_states s) task_uuid of
             None \<Rightarrow> raiseS ToolError s
           | Some state \<Rightarrow>
               if state \<noteq> ''created'' then raiseS ToolError s
               else bindS (move_task c task_uuid ''prechecking'') (\<lambda>_ s1.
                 (case dict_get (s_task_specs s1) task_uuid of
                    None \<Rightarrow> raiseS KeyError s1
                  | Some task \<Rightarrow>
                      bindS (run_prechecks c task task_uuid) (\<lambda>precheck_results.
                        if \<not> all_passed precheck_results
                        then bindS (move_task c task_uuid ''precheck_failed'')
                               (\<lambda>_. returnS (''Prechecks failed: '' @ failure_messages precheck_results))
                        else bindS (move_task c task_uuid ''active'')
                               (\<lambda>_. bindS (modifyS (\<lambda>s. s\<lparr>s_active_tasks := dict_set session_id task_uuid (s_active_tasks s)\<rparr>))
                                 (\<lambda>_. returnS (''Task '' @ task_id @ '' is now active'')))) s1)) s))"

definition incomplete_children :: "uuid \<Rightarrow> sched \<Rightarrow> uuid list" where
  "incomplete_children task_id s =
     filter (\<lambda>cid. dict_get (s_task_states s) cid \<noteq> Some ''completed'') (get_or_empty (s_task_children s) task_id)"

definition call_on_success :: "config \<Rightarrow> task_spec \<Rightarrow> uuid \<Rightarrow> unit op" where
  "call_on_success c task task_id =
     (case ts_on_success (spec_fields task) of
        None \<Rightarrow> returnS ()
      | Some path \<Rightarrow>
          logged (case split_on CHR '':'' path of
             [module_path, func_name] \<Rightarrow> c_callback c module_path func_name task_id
           | _ \<Rightarrow> raiseS ValueError))"

text \<open>The part of \<open>handle_end_task\<close> after the post-checks passed, and the whole handler.\<close>

definition finish_task :: "config \<Rightarrow> string \<Rightarrow> task_spec \<Rightarrow> uuid \<Rightarrow> string \<Rightarrow> string op" where
  "finish_task c session_id task task_id msg =
     bindS (run_constraints c task_id) (\<lambda>constraint_results.
       if \<not> all_passed constraint_results
       then bindS (move_task c task_id ''postcheck_failed'')
              (\<lambda>_. returnS (''Constraint check failed: '' @ failure_messages constraint_results))
       else bindS (modifyS (complete_task task_id (task_name task) (Some msg) None 0 0)) (\<lambda>_.
              bindS (trace_transition c task_id ''completed'') (\<lambda>_ s1.
                if dict_get (s_active_tasks s1) session_id = None then raiseS KeyError s1
                else bindS (call_on_success c task task_id) (\<lambda>_. returnS (''Task '' @ uuid_str task_id @ '' completed''))
                       (s1\<lparr>s_active_tasks := dict_pop session_id (s_active_tasks s1)\<rparr>))))"

definition handle_end_task :: "config \<Rightarrow> string \<Rightarrow> string \<Rightarrow> string op" where
  "handle_end_task c session_id msg0 s =
     bindS (check_active_task session_id) (\<lambda>task_id s0.
       (case dict_get (s_task_specs s0) task_id of
          None \<Rightarrow> raiseS KeyError s0
        | Some task \<Rightarrow>
            if incomplete_children task_id s0 \<noteq> [] then raiseS ToolError s0
            else (let msg = (case c_secrets c of None \<Rightarrow> msg0 | Some r \<Rightarrow> scrub_text r msg0)
                  in bindS (move_task c task_id ''postchecking'') (\<lambda>_.
                       bindS (modifyS (\<lambda>s1. s1\<lparr>s_pending_end_message := dict_set task_id msg (s_pending_end_message s1)\<rparr>)) (\<lambda>_.
                         bindS (c_auto_commit c session_id msg) (\<lambda>_.
                           bindS (run_postchecks c task task_id) (\<lambda>check_results.
                             if all_passed check_results then finish_task c session_id task task_id msg
                             else bindS (move_task c task_id ''postcheck_failed'')
                                    (\<lambda>_. returnS (''Postchecks failed: '' @ failure_messages check_results)))))) s0))) s"

record create_task_params =
  ct_name :: string
  ct_agent :: string
  ct_task_prompt :: string
  ct_prechecks :: "execution list"
  ct_postchecks :: "execution list"
  ct_timeout :: int
  ct_context_refinement :: bool
  ct_budget :: "decimal option"
  ct_write_paths :: "string list option"
  ct_category :: "string option"
  ct_retry :: int
  ct_retry_resume :: "bool option"
  ct_retry_inject_failure :: "bool option"

definition created_spec :: "config \<Rightarrow> create_task_params \<Rightarrow> task_spec" where
  "created_spec c p =
     (let agent_def = (if ct_agent p = [] then None else dict_get (c_agents c) (ct_agent p))
      in TaskSpec
           ((task_defaults (ct_name p))
              \<lparr>ts_agent := Some (ct_agent p), ts_task_prompt := Some (ct_task_prompt p),
               ts_timeout := Some (ct_timeout p), ts_context_refinement := Some (ct_context_refinement p),
               ts_budget := first_some (ct_budget p) (Option.bind agent_def ag_budget),
               ts_write_paths := first_some (ct_write_paths p) (Option.bind agent_def ag_write_paths),
               ts_category := ct_category p, ts_retry := ct_retry p, ts_retry_resume := ct_retry_resume p,
               ts_retry_inject_failure := ct_retry_inject_failure p\<rparr>)
           (ct_prechecks p) (ct_postchecks p) None)"

text \<open>Registration of a child in the dictionaries (\<open>_task_states\<close> first, then the others).\<close>

definition register_child :: "uuid \<Rightarrow> uuid \<Rightarrow> task_spec \<Rightarrow> sched \<Rightarrow> sched" where
  "register_child parent_id task_id spec s =
     (add_child parent_id task_id
       (s\<lparr>s_task_states := dict_set task_id ''created'' (s_task_states s),
          s_task_specs := dict_set task_id spec (s_task_specs s),
          s_task_parents := dict_set task_id (Some parent_id) (s_task_parents s)\<rparr>))
       \<lparr>s_task_costs := dict_set task_id 0 (s_task_costs s)\<rparr>"

definition claim_paths :: "uuid \<Rightarrow> string list option \<Rightarrow> unit op" where
  "claim_paths task_id write_paths s =
     (case write_paths of
        Some (p # ps) \<Rightarrow>
          (case claim (s_claims s) task_id (p # ps) of
             Inl _ \<Rightarrow> (Inl ToolError, s)
           | Inr cs \<Rightarrow> (Inr (), s\<lparr>s_claims := cs\<rparr>))
      | _ \<Rightarrow> (Inr (), s))"

definition add_advisories :: "config \<Rightarrow> uuid \<Rightarrow> sched \<Rightarrow> sched" where
  "add_advisories c parent_id s =
     s\<lparr>s_pending_advisories := s_pending_advisories s @
         analyze_structural_advisories c (get_or_empty (s_task_children s) parent_id) s\<rparr>"

definition handle_create_task :: "config \<Rightarrow> string \<Rightarrow> create_task_params \<Rightarrow> string op" where
  "handle_create_task c session_id p =
     bindS (check_active_task session_id) (\<lambda>parent_id s.
       if s_budget_blocked s then raiseS ToolError s
       else bindS (trace_create_task c (Some parent_id) (ct_name p) ''agent'' None) (\<lambda>task_id.
              bindS (modifyS (register_child parent_id task_id (created_spec c p))) (\<lambda>_.
                bindS (claim_paths task_id (ts_write_paths (spec_fields (created_spec c p)))) (\<lambda>_.
                  bindS (modifyS (add_advisories c parent_id)) (\<lambda>_. returnS (uuid_str task_id))))) s)"

record create_workflow_params =
  cw_name :: string
  cw_description :: string
  cw_goals :: "string list"
  cw_postchecks :: "execution list"
  cw_budget :: "decimal option"

definition handle_create_workflow :: "config \<Rightarrow> string \<Rightarrow> create_workflow_params \<Rightarrow> string op" where
  "handle_create_workflow c session_id p =
     bindS (check_active_task session_id) (\<lambda>parent_id s.
       if s_budget_blocked s then raiseS ToolError s
       else bindS (trace_create_task c (Some parent_id) (cw_name p) ''workflow''
                     (Some [(''description'', JStr (cw_description p)), (''goals'', JArr (map JStr (cw_goals p)))])) (\<lambda>task_id.
              bindS (modifyS (\<lambda>s. (register_child parent_id task_id
                        (TaskSpec ((task_defaults (cw_name p))\<lparr>ts_budget := cw_budget p\<rparr>) [] (cw_postchecks p) (Some [])) s)))
                (\<lambda>_. bindS (modifyS (\<lambda>s. s\<lparr>s_task_children := dict_set task_id [] (s_task_children s)\<rparr>))
                  (\<lambda>_. returnS (uuid_str task_id)))) s)"

definition handle_create_wait_for :: "config \<Rightarrow> string \<Rightarrow> string \<Rightarrow> string \<Rightarrow> int \<Rightarrow> string op" where
  "handle_create_wait_for c session_id name event_name timeout =
     bindS (check_active_task session_id) (\<lambda>parent_id.
       bindS (trace_create_task c (Some parent_id) name ''wait_for'' None) (\<lambda>task_id.
         bindS (modifyS (register_child parent_id task_id
                  (TaskSpec ((task_defaults name)\<lparr>ts_wait_for := Some event_name, ts_timeout := Some timeout\<rparr>) [] [] None)))
           (\<lambda>_. returnS (uuid_str task_id))))"

definition handle_await_task :: "config \<Rightarrow> string \<Rightarrow> string \<Rightarrow> string op" where
  "handle_await_task c session_id task_id s =
     (case c_parse_uuid c task_id of
        None \<Rightarrow> raiseS ValueError s
      | Some task_uuid \<Rightarrow>
          if dict_get (s_task_states s) task_uuid = None then raiseS ToolError s
          else returnS (''Awaiting task '' @ task_id @ ''. Session will suspend and resume with the result.'')
                 (s\<lparr>s_pending_await := dict_set session_id task_id (s_pending_await s)\<rparr>))"

end
