(* ===== verification/Executor.thy ===== *)
theory Executor
  imports Scheduler
begin

text \<open>
  The rest of the scheduler that is modelled: registration of a workflow's tasks, abort, pause and
  resume (\<open>scheduler/_executor.py\<close>), the execution of tasks that need no agent
  (\<open>scheduler/_task_dispatch.py\<close>), the retry reset (\<open>scheduler/_agent_execution.py\<close>) and the budget
  (\<open>scheduler/_enforcement.py\<close>).
\<close>

section \<open>Classification\<close>

datatype error_category = INFRA | CONTEXT_LIMIT | PARSE | FLAKY | BUILD_ENV | LOGIC | UNCLASSIFIED

text \<open>The exceptions the classifier tells apart; \<open>OSError\<close> carries its \<open>errno\<close> (Linux values).\<close>

datatype error_class = TimeoutErr | OSErr int | JSONDecodeErr | ImportErr | AssertionErr | OtherErr

definition NETWORK_ERRNOS :: "int list" where
  "NETWORK_ERRNOS = [111, 104, 103, 101, 113, 110]"

definition classify_error :: "error_class \<Rightarrow> error_category" where
  "classify_error e =
     (case e of
        TimeoutErr \<Rightarrow> INFRA
      | OSErr errno \<Rightarrow> if errno \<in> set NETWORK_ERRNOS then INFRA else UNCLASSIFIED
      | JSONDecodeErr \<Rightarrow> PARSE
      | ImportErr \<Rightarrow> BUILD_ENV
      | AssertionErr \<Rightarrow> LOGIC
      | OtherErr \<Rightarrow> UNCLASSIFIED)"

definition truthy :: "string option \<Rightarrow> bool" where
  "truthy v = (case v of None \<Rightarrow> False | Some t \<Rightarrow> t \<noteq> [])"

definition task_type_for :: "task_spec \<Rightarrow> string" where
  "task_type_for task =
     (let f = spec_fields task
      in if ts_decision_point f = Some True then ''decision_point''
         else if truthy (ts_agent f) then ''agent''
         else if truthy (ts_callable f) then ''callable''
         else if truthy (ts_wait_for f) then ''wait_for''
         else ''workflow'')"

section \<open>Registration of a workflow\<close>

fun register_loop :: "config \<Rightarrow> task_spec list \<Rightarrow> (string, uuid) dict \<Rightarrow> (string, uuid) dict op" where
  "register_loop c [] task_id_map = returnS task_id_map"
| "register_loop c (task # tasks) task_id_map =
     bindS (trace_create_task c None (task_name task) (task_type_for task) None) (\<lambda>task_id.
       bindS (modifyS (init_task_state task_id task None)) (\<lambda>_.
         register_loop c tasks (dict_set (task_name task) task_id task_id_map)))"

definition register_workflow_tasks :: "config \<Rightarrow> bool \<Rightarrow> workflow_config \<Rightarrow> (string, uuid) dict op" where
  "register_workflow_tasks c headless cfg s =
     (case validate_task_tree cfg headless of
        Inl e \<Rightarrow> raiseS e s
      | Inr errors \<Rightarrow> if errors \<noteq> [] then raiseS ValueError s else register_loop c (wc_tasks cfg) [] s)"

section \<open>Abort, pause, resume\<close>

definition ACTIVE_STATES :: "string list" where
  "ACTIVE_STATES = [''active'', ''prechecking'', ''postchecking'']"

definition release_claims :: "uuid \<Rightarrow> sched \<Rightarrow> sched" where
  "release_claims task_id s = s\<lparr>s_claims := release (s_claims s) task_id\<rparr>"

fun abort_loop :: "config \<Rightarrow> (uuid, string) dict \<Rightarrow> unit op" where
  "abort_loop c [] = returnS ()"
| "abort_loop c ((task_id, state) # rest) =
     (if state \<in> set ACTIVE_STATES
      then bindS (modifyS (\<lambda>s. release_claims task_id (set_state task_id ''cancelled'' s)))
             (\<lambda>_. bindS (trace_transition c task_id ''cancelled'') (\<lambda>_. abort_loop c rest))
      else abort_loop c rest)"

text \<open>
  \<open>stop_service\<close> terminates the process of a service and waits for its end, which may raise: the remaining services then run on, and the list keeps all
  of them. \<open>atask.cancel()\<close> for all running tasks is \<open>cancel_running\<close>: each of them gets a \<open>CancelledError\<close> where it waits, at the latest at its end.
\<close>

definition stop_services :: "config \<Rightarrow> unit op" where
  "stop_services c s = bindS (forS (c_stop_service c) (s_services s)) (\<lambda>_. modifyS (\<lambda>s'. s'\<lparr>s_services := []\<rparr>)) s"

definition cancel_running :: "sched \<Rightarrow> sched" where
  "cancel_running s = s\<lparr>s_cancelled := s_cancelled s @ s_running s\<rparr>"

definition abort :: "config \<Rightarrow> unit op" where
  "abort c = bindS (modifyS cancel_running) (\<lambda>_ s. bindS (abort_loop c (s_task_states s)) (\<lambda>_. stop_services c) s)"

text \<open>
  \<open>execute_workflow\<close> subscribes \<open>_handle_control_signal\<close> as the control callback of the run, and
  \<open>transition_run\<close> ends by awaiting the callback, so \<open>pause\<close> re-enters itself through it. \<open>None\<close> of the
  second component of \<open>transition_run\<close> says that nothing is subscribed.
\<close>

definition run_status :: "config \<Rightarrow> sched \<Rightarrow> string option" where
  "run_status c s = map_option r_status (dict_get (db_runs (s_db s)) (c_run_id c))"

definition trace_run_transition :: "config \<Rightarrow> string \<Rightarrow> control_call option op" where
  "trace_run_transition c new_status s =
     (case transition_run (c_ids c (s_tick s)) (c_clock c (s_tick s)) (c_clock c (s_tick s)) (c_run_id c)
             new_status None (c_principal c) (s_db s) of
        Inl e \<Rightarrow> (Inl e, s)
      | Inr (db, call) \<Rightarrow> (Inr call, s\<lparr>s_db := db, s_tick := Suc (s_tick s)\<rparr>))"

lemma trace_run_transition_status:
  "trace_run_transition c st s = (Inr call, s') \<Longrightarrow>
   run_status c s' = Some st \<and> (\<exists>old. run_status c s = Some old \<and> validate_run_transition old st = Inr ())"
  by (auto simp: trace_run_transition_def transition_run_def run_status_def Let_def bind_res_Inr_iff
      split: option.splits sum.splits prod.splits)

lemma run_already_paused: "validate_run_transition ''paused'' ''paused'' = Inl InvalidTransitionError"
  by (simp add: validate_run_transition_def RUN_TERMINAL_STATES_def RUN_TRANSITIONS_def dict_get_def)

lemma pause_measure:
  assumes "trace_run_transition c ''paused'' (cancel_running (s\<lparr>s_paused := True\<rparr>)) = (Inr call, s1)"
  shows "run_status c s1 = Some ''paused'' \<and> run_status c s \<noteq> Some ''paused''"
proof -
  have "run_status c (cancel_running (s\<lparr>s_paused := True\<rparr>)) = run_status c s" by (simp add: run_status_def cancel_running_def)
  then show ?thesis using trace_run_transition_status [OF assms] run_already_paused by auto
qed

function pause :: "config \<Rightarrow> sched \<Rightarrow> unit result \<times> sched" where
  "pause c s =
     (case trace_run_transition c ''paused'' (cancel_running (s\<lparr>s_paused := True\<rparr>)) of
        (Inl e, s1) \<Rightarrow> (Inl e, s1)
      | (Inr None, s1) \<Rightarrow> (Inr (), s1)
      | (Inr (Some _), s1) \<Rightarrow> pause c s1)"
  by pat_completeness auto
termination
  by (relation "measure (\<lambda>(c, s). if run_status c s = Some ''paused'' then 0 else 1)")
    (auto dest!: pause_measure [OF sym])

declare pause.simps [simp del]

definition resume :: "config \<Rightarrow> unit op" where
  "resume c = bindS (modifyS (\<lambda>s. s\<lparr>s_paused := False\<rparr>))
     (\<lambda>_. bindS (trace_run_transition c ''running'') (\<lambda>_. returnS ()))"

definition handle_control_signal :: "config \<Rightarrow> string \<Rightarrow> unit op" where
  "handle_control_signal c new_status =
     (if new_status = ''aborted'' then abort c
      else if new_status = ''paused'' then pause c
      else returnS ())"

section \<open>Tasks without an agent\<close>

record task_result =
  tr_output :: "string option"
  tr_structured :: "jobj option"
  tr_checks :: "check_result list"

definition activate :: "config \<Rightarrow> uuid \<Rightarrow> unit op" where
  "activate c task_id = bindS (move_task c task_id ''prechecking'') (\<lambda>_. move_task c task_id ''active'')"

definition execute_decision_point_task :: "config \<Rightarrow> task_spec \<Rightarrow> uuid \<Rightarrow> task_result op" where
  "execute_decision_point_task c task task_id =
     bindS (activate c task_id) (\<lambda>_ s1.
       (let (_, db) = write_event (c_ids c (s_tick s1)) (c_clock c (s_tick s1)) (Some (c_run_id c)) ''decision_point''
              [(''task_id'', JStr (uuid_str task_id)), (''task_name'', JStr (task_name task))] (Some task_id)
              (c_principal c) None (s_db s1);
            s2 = s1\<lparr>s_db := db, s_tick := Suc (s_tick s1)\<rparr>
        in bindS (c_notify c task_id (task_name task)) (\<lambda>_.
             bindS (modifyS (complete_task task_id (task_name task) None None 0 0)) (\<lambda>_.
               bindS (trace_transition c task_id ''completed'')
                 (\<lambda>_. returnS \<lparr>tr_output = None, tr_structured = None, tr_checks = [ok_result ''Decision point completed'']\<rparr>))) s2))"

text \<open>
  The imported function: module or attribute missing, an exception, or a result. Of its \<open>TaskContext\<close> the
  notepad and the nesting depth are read off the scheduler, whose whole state the function may see and change.
\<close>

record task_context =
  tc_variables :: jobj
  tc_task_name :: string
  tc_task_id :: uuid
  tc_parent_task_id :: "uuid option"
  tc_attempt :: nat

definition task_context :: "task_spec \<Rightarrow> uuid \<Rightarrow> uuid option \<Rightarrow> jobj option \<Rightarrow> task_context" where
  "task_context task task_id parent variables =
     \<lparr>tc_variables = (case variables of None \<Rightarrow> [] | Some v \<Rightarrow> v), tc_task_name = task_name task, tc_task_id = task_id,
      tc_parent_task_id = parent, tc_attempt = 1\<rparr>"

type_synonym task_function = "string \<Rightarrow> string \<Rightarrow> task_context \<Rightarrow> task_result op"

definition execute_function_task ::
  "config \<Rightarrow> task_function \<Rightarrow> task_spec \<Rightarrow> uuid \<Rightarrow> uuid option \<Rightarrow> jobj option \<Rightarrow> task_result op" where
  "execute_function_task c call task task_id parent variables s =
     (case ts_callable (spec_fields task) of
        None \<Rightarrow> raiseS ValueError s
      | Some path \<Rightarrow>
          (let (attempt_id, db) = create_task_attempt (c_ids c (s_tick s)) task_id 1 (s_db s)
           in bindS (activate c task_id) (\<lambda>_ s1.
                (case split_on CHR '':'' path of
                   [module_path, func_name] \<Rightarrow>
                     bindS (call module_path func_name (task_context task task_id parent variables)) (\<lambda>r s2.
                       (case complete_task_attempt attempt_id (case tr_output r of None \<Rightarrow> [] | Some t \<Rightarrow> t)
                               (tr_structured r) None (Some ''pass'') None 0 0 0 0 0 0 0 (s_db s2) of
                          Inl e \<Rightarrow> (Inl e, s2)
                        | Inr db' \<Rightarrow>
                            bindS (trace_transition c task_id ''completed'') (\<lambda>_. returnS r)
                              (complete_task task_id (task_name task) (tr_output r) (tr_structured r) 0 0
                                (s2\<lparr>s_db := db'\<rparr>)))) s1
                 | _ \<Rightarrow> raiseS ValueError s1)) (s\<lparr>s_db := db, s_tick := Suc (s_tick s)\<rparr>)))"

definition execute_wait_for_task :: "config \<Rightarrow> task_spec \<Rightarrow> uuid \<Rightarrow> task_result op" where
  "execute_wait_for_task c task task_id s =
     (case ts_wait_for (spec_fields task) of
        None \<Rightarrow> raiseS ValueError s
      | Some event_name \<Rightarrow>
          bindS (activate c task_id) (\<lambda>_.
            (let seconds = (case ts_timeout (spec_fields task) of None \<Rightarrow> 60 | Some t \<Rightarrow> if t = 0 then 60 else t)
             in bindS (c_wait_event c event_name seconds) (\<lambda>payload.
                  case payload of
                    Some p \<Rightarrow>
                      bindS (move_task c task_id ''completed'')
                        (\<lambda>_. returnS \<lparr>tr_output = Some (py_repr (JObj p)), tr_structured = Some p, tr_checks = [ok_result ''Event received'']\<rparr>)
                  | None \<Rightarrow>
                      bindS (move_task c task_id ''cancelled'')
                        (\<lambda>_. returnS \<lparr>tr_output = None, tr_structured = None, tr_checks = [failed ''Wait timed out'' None]\<rparr>)))) s)"

text \<open>What an exhausted \<open>for_each\<close> does to its own task once \<open>abort\<close> is set.\<close>

definition for_each_aborted :: "config \<Rightarrow> uuid \<Rightarrow> unit op" where
  "for_each_aborted c task_id = move_task c task_id ''postcheck_failed''"

text \<open>The retry loop's reset of a task before its next attempt: the scheduler's state only.\<close>

definition reset_for_retry :: "uuid \<Rightarrow> sched \<Rightarrow> sched" where
  "reset_for_retry task_id s = set_state task_id ''created'' s"

section \<open>Budget\<close>

definition resolve_model_key :: "config \<Rightarrow> task_spec \<Rightarrow> string option" where
  "resolve_model_key c task =
     (case Option.bind (ts_agent (spec_fields task)) (dict_get (c_agents c)) of
        None \<Rightarrow> None
      | Some agent_def \<Rightarrow>
          (case (ag_provider agent_def, ag_model agent_def) of
             (Some p, Some m) \<Rightarrow> Some (p @ ''/'' @ m)
           | _ \<Rightarrow>
               (let category_str = (if truthy (ts_category (spec_fields task)) then ts_category (spec_fields task)
                                    else ag_category agent_def)
                in Option.bind category_str (dict_get (c_categories c)))))"

definition effective_budget :: "config \<Rightarrow> task_spec \<Rightarrow> decimal option" where
  "effective_budget c task =
     first_some (ts_budget (spec_fields task))
       (if truthy (ts_agent (spec_fields task))
        then Option.bind (Option.bind (ts_agent (spec_fields task)) (dict_get (c_agents c))) ag_budget else None)"

text \<open>
  \<open>call_soon\<close> and \<open>call_later\<close> of \<open>abort\<close> are recorded as the delay in seconds. A recorded abort is run by the event loop when it is due
  (\<open>run_scheduled_abort\<close>), as a task of its own whose exception nobody reads, so while some other coroutine waits.
\<close>

definition run_scheduled_abort :: "config \<Rightarrow> sched \<Rightarrow> sched" where
  "run_scheduled_abort c s =
     (case s_scheduled_aborts s of
        [] \<Rightarrow> s
      | delay # rest \<Rightarrow> snd (abort c (s\<lparr>s_scheduled_aborts := rest\<rparr>)))"

definition enforce_policy :: "config \<Rightarrow> sched \<Rightarrow> sched" where
  "enforce_policy c s =
     (case c_policy c of
        BLOCK_NEW \<Rightarrow> s\<lparr>s_budget_blocked := True\<rparr>
      | CANCEL_ALL \<Rightarrow> s\<lparr>s_scheduled_aborts := s_scheduled_aborts s @ [0]\<rparr>
      | TIMEOUT_GRACE \<Rightarrow> s\<lparr>s_budget_blocked := True, s_scheduled_aborts := s_scheduled_aborts s @ [60]\<rparr>
      | UNLIMITED \<Rightarrow> s)"

definition apply_budget :: "config \<Rightarrow> uuid \<Rightarrow> string \<Rightarrow> decimal \<Rightarrow> decimal \<Rightarrow> decimal \<Rightarrow> sched \<Rightarrow> sched" where
  "apply_budget c task_id name budget cost spent s =
     (let ev = \<lparr>be_task_id = task_id, be_task_name = name, be_budget = budget, be_spent = spent\<rparr>;
          s1 = (if spent \<ge> budget * (4 / 5) \<and> spent - cost < budget * (4 / 5)
                then s\<lparr>s_threshold_events := s_threshold_events s @ [ev]\<rparr> else s)
      in if spent \<ge> budget then enforce_policy c (s1\<lparr>s_exhausted_events := s_exhausted_events s1 @ [ev]\<rparr>) else s1)"

definition accumulate_cost :: "config \<Rightarrow> uuid \<Rightarrow> task_spec \<Rightarrow> usage \<Rightarrow> unit op" where
  "accumulate_cost c task_id task u s =
     (case resolve_model_key c task of
        None \<Rightarrow> returnS () s
      | Some model_key \<Rightarrow>
          (case compute_cost_usd model_key u (c_pricing c) of
             Inl e \<Rightarrow> raiseS e s
           | Inr cost \<Rightarrow>
               (case dict_get (s_task_costs s) task_id of
                  None \<Rightarrow> raiseS KeyError s
                | Some old \<Rightarrow>
                    (let s1 = s\<lparr>s_task_costs := dict_set task_id (old + cost) (s_task_costs s)\<rparr>
                     in case effective_budget c task of
                          None \<Rightarrow> returnS () s1
                        | Some budget \<Rightarrow>
                            returnS () (apply_budget c task_id (task_name task) budget cost (old + cost) s1)))))"

text \<open>
  \<open>_send_budget_events\<close>: the events of a task go to the Overseer (the list returned) and leave
  the two queues.
\<close>

datatype overseer_budget = BudgetThresholdCrossed uuid decimal decimal | BudgetExhausted uuid

definition send_budget_events :: "uuid \<Rightarrow> sched \<Rightarrow> overseer_budget list \<times> sched" where
  "send_budget_events task_id s =
     (map (\<lambda>e. BudgetThresholdCrossed (be_task_id e) (be_budget e) (be_spent e))
        (filter (\<lambda>e. be_task_id e = task_id) (s_threshold_events s)) @
      map (\<lambda>e. BudgetExhausted (be_task_id e)) (filter (\<lambda>e. be_task_id e = task_id) (s_exhausted_events s)),
      s\<lparr>s_threshold_events := filter (\<lambda>e. be_task_id e \<noteq> task_id) (s_threshold_events s),
        s_exhausted_events := filter (\<lambda>e. be_task_id e \<noteq> task_id) (s_exhausted_events s)\<rparr>)"

end
