(* ===== verification/Lifecycle.thy ===== *)
theory Lifecycle
  imports Executor
begin

text \<open>
  What the scheduler's lifecycle guarantees: the gates of \<open>start_task\<close> and \<open>end_task\<close>, the agreement of
  the scheduler's task states with the trace, abort, budgets, and the paths on which the two views of a
  task come apart.
\<close>

section \<open>A concrete scheduler\<close>

text \<open>
  A configuration for the witnesses: quiet checks, commits and callbacks, identifiers from 10 on, and
  task identifiers written in decimal digits.
\<close>

definition quiet_checks :: "sched check_env" where
  "quiet_checks =
     \<lparr>env_script = (\<lambda>m f ctx. returnS (if f = ''pass'' then Returned (ok_result ''ok'') else Returned (failed ''no'' None))),
      env_fix = (\<lambda>f ctx. raiseS RuntimeError), env_consult = (\<lambda>a q vs. returnS []),
      env_verdict = (\<lambda>_. None), env_workflow = (\<lambda>e. returnS (ok_result ''ok''))\<rparr>"

definition sample_config :: config where
  "sample_config =
     \<lparr>c_run_id = 7, c_principal = 8, c_agents = [], c_categories = [], c_pricing = None, c_policy = BLOCK_NEW,
      c_secrets = None, c_custom = [], c_checks = quiet_checks, c_world = sample_world (\<lambda>_. []),
      c_auto_commit = (\<lambda>_ _. returnS ()), c_callback = (\<lambda>_ _ _. returnS ()), c_wait_event = (\<lambda>_ _. returnS None),
      c_notify = (\<lambda>_ _. returnS ()), c_stop_service = (\<lambda>_. returnS ()),
      c_parse_uuid = (\<lambda>t. if t = ''10'' then Some 10 else if t = ''11'' then Some 11 else None),
      c_ids = (\<lambda>n. 10 + n), c_clock = int\<rparr>"

definition idle_sched :: sched where
  "idle_sched =
     \<lparr>s_db = empty_db, s_active_tasks = [], s_task_states = [], s_task_specs = [], s_task_parents = [],
      s_task_children = [], s_task_outputs = [], s_task_structured = [], s_results_meta = [],
      s_task_costs = [], s_pending_end_message = [], s_claims = [], s_mechanical_constraints = [], s_active_constraints = [], s_snapshots = [],
      s_pending_advisories = [], s_pending_await = [], s_threshold_events = [], s_exhausted_events = [],
      s_budget_blocked = False, s_paused = False, s_scheduled_aborts = [], s_running = [], s_cancelled = [], s_spawned = 0, s_services = [],
      s_notepad = [], s_lessons = [], s_task_sessions = [], s_session_mutations = [], s_session_usage = [], s_tick = 0\<rparr>"

text \<open>One task with a post-check, registered (identifier 10) and started by the session \<open>s\<close>.\<close>

definition sample_task :: "string \<Rightarrow> task_spec" where
  "sample_task check =
     TaskSpec ((task_defaults ''t'')\<lparr>ts_callable := Some ''m:f''\<rparr>) [] [ScriptExecution \<lparr>se_callable = ''m:'' @ check\<rparr>] None"

definition started :: "string \<Rightarrow> sched" where
  "started check =
     snd (handle_start_task sample_config ''s'' ''10'' (snd (register_loop sample_config [sample_task check] [] idle_sched)))"

section \<open>The two views of a task\<close>

definition mem_status :: "sched \<Rightarrow> uuid \<Rightarrow> string option" where
  "mem_status s task_id = dict_get (s_task_states s) task_id"

definition trace_status :: "sched \<Rightarrow> uuid \<Rightarrow> string option" where
  "trace_status s task_id = map_option t_status (dict_get (db_tasks (s_db s)) task_id)"

definition in_sync :: "sched \<Rightarrow> bool" where
  "in_sync s \<longleftrightarrow> (\<forall>task_id st. mem_status s task_id = Some st \<longrightarrow> trace_status s task_id = Some st)"

lemma trace_transition_ok:
  assumes "trace_transition c task_id st s = (Inr u, s')"
  shows "\<exists>db. s' = s\<lparr>s_db := db, s_tick := Suc (s_tick s)\<rparr>"
    and "trace_status s' t = (if t = task_id then Some st else trace_status s t)"
    and "\<exists>old. trace_status s task_id = Some old \<and> task_step old st"
  using assms
  by (auto simp: trace_transition_def transition_task_def trace_status_def Let_def bind_res_Inr_iff is_ok_iff
      split: option.splits sum.splits)

lemma trace_transition_fail:
  "trace_transition c task_id st s = (Inl e, s') \<longleftrightarrow> s' = s \<and>
     (trace_status s task_id = None \<and> e = ValueError \<or>
      (\<exists>old. trace_status s task_id = Some old \<and> validate_task_transition old st = Inl e))"
  by (auto simp: trace_transition_def transition_task_def trace_status_def Let_def bind_res_def
      split: option.splits sum.splits)

lemma status_set_state [simp]:
  "mem_status (set_state task_id st s) t = (if t = task_id then Some st else mem_status s t)"
  "trace_status (set_state task_id st s) t = trace_status s t"
  by (simp_all add: mem_status_def trace_status_def set_state_def)

lemma move_task_ok:
  assumes "move_task c task_id st s = (Inr u, s')"
  shows "\<exists>db. s' = s\<lparr>s_task_states := dict_set task_id st (s_task_states s), s_db := db, s_tick := Suc (s_tick s)\<rparr>"
    and "mem_status s' t = (if t = task_id then Some st else mem_status s t)"
    and "trace_status s' t = (if t = task_id then Some st else trace_status s t)"
    and "\<exists>old. trace_status s task_id = Some old \<and> task_step old st"
proof -
  note m = assms [unfolded move_task_def]
  show a: "\<exists>db. s' = s\<lparr>s_task_states := dict_set task_id st (s_task_states s), s_db := db, s_tick := Suc (s_tick s)\<rparr>"
    using trace_transition_ok(1) [OF m] by (auto simp: set_state_def)
  show "mem_status s' t = (if t = task_id then Some st else mem_status s t)" using a by (auto simp: mem_status_def)
  show "trace_status s' t = (if t = task_id then Some st else trace_status s t)"
    using trace_transition_ok(2) [OF m, of t] by simp
  show "\<exists>old. trace_status s task_id = Some old \<and> task_step old st"
    using trace_transition_ok(3) [OF m] by simp
qed

lemma move_task_invalid:
  assumes "trace_status s task_id = Some old" "\<not> task_step old st"
  shows "move_task c task_id st s = (Inl InvalidTransitionError, set_state task_id st s)"
proof -
  have "validate_task_transition old st = Inl InvalidTransitionError"
    using assms(2) by (auto simp: validate_task_transition_def split: if_splits option.splits)
  then show ?thesis using assms(1) trace_transition_fail [of c task_id st "set_state task_id st s"] by (simp add: move_task_def)
qed

lemma move_task_sync:
  "move_task c task_id st s = (Inr u, s') \<Longrightarrow> in_sync s \<Longrightarrow> in_sync s'"
  unfolding in_sync_def using move_task_ok(2,3) by metis

lemma in_sync_updates [simp]:
  "in_sync (s\<lparr>s_pending_end_message := a\<rparr>) = in_sync s" "in_sync (s\<lparr>s_active_tasks := b\<rparr>) = in_sync s"
  "in_sync (s\<lparr>s_task_children := d\<rparr>) = in_sync s" "in_sync (s\<lparr>s_pending_await := e\<rparr>) = in_sync s"
  "in_sync (s\<lparr>s_paused := pz\<rparr>) = in_sync s" "in_sync (s\<lparr>s_services := sv\<rparr>) = in_sync s" "in_sync (s\<lparr>s_claims := f\<rparr>) = in_sync s" "in_sync (s\<lparr>s_pending_advisories := g\<rparr>) = in_sync s"
  by (simp_all add: in_sync_def mem_status_def trace_status_def)

section \<open>The exit gate\<close>

lemma run_postchecks_complete:
  assumes "run_postchecks c task task_id s = (Inr rs, s')" "all_passed rs" "postchecks task \<noteq> []"
  shows "length rs = length (postchecks task)"
proof -
  from assms(1,3) obtain ctx where "run_checks (c_checks c) (postchecks task) ctx [] s = (Inr rs, s')"
    by (auto simp: run_postchecks_def)
  from run_checks_gate [OF this] gate_all assms(2) show ?thesis by fastforce
qed

lemma finish_taskE:
  assumes "finish_task c session_id task task_id msg s = (Inr out, s')"
  obtains cs s1 where "run_constraints c task_id s = (Inr cs, s1)"
    "if all_passed cs
     then \<exists>s2. trace_transition c task_id ''completed'' (complete_task task_id (task_name task) (Some msg) None 0 0 s1) = (Inr (), s2) \<and>
       call_on_success c task task_id (s2\<lparr>s_active_tasks := dict_pop session_id (s_active_tasks s2)\<rparr>) = (Inr (), s')
     else move_task c task_id ''postcheck_failed'' s1 = (Inr (), s')"
proof -
  from assms obtain cs s1 where cs: "run_constraints c task_id s = (Inr cs, s1)"
    and rest: "(if \<not> all_passed cs
       then bindS (move_task c task_id ''postcheck_failed'') (\<lambda>_. returnS (''Constraint check failed: '' @ failure_messages cs))
       else bindS (modifyS (complete_task task_id (task_name task) (Some msg) None 0 0)) (\<lambda>_.
              bindS (trace_transition c task_id ''completed'') (\<lambda>_ s1.
                if dict_get (s_active_tasks s1) session_id = None then raiseS KeyError s1
                else bindS (call_on_success c task task_id) (\<lambda>_. returnS (''Task '' @ uuid_str task_id @ '' completed''))
                       (s1\<lparr>s_active_tasks := dict_pop session_id (s_active_tasks s1)\<rparr>)))) s1 = (Inr out, s')"
    by (auto simp: finish_task_def bindS_Inr)
  show thesis
    by (rule that [OF cs]) (use rest in \<open>auto simp: bindS_Inr split: if_splits\<close>)
qed

lemma handle_end_taskE:
  assumes "handle_end_task c session_id msg0 s = (Inr out, s')"
  obtains task_id task msg s1 s2 s3 rs where
    "dict_get (s_active_tasks s) session_id = Some task_id" "dict_get (s_task_specs s) task_id = Some task"
    "incomplete_children task_id s = []" "msg = (case c_secrets c of None \<Rightarrow> msg0 | Some r \<Rightarrow> scrub_text r msg0)"
    "move_task c task_id ''postchecking'' s = (Inr (), s1)"
    "c_auto_commit c session_id msg (s1\<lparr>s_pending_end_message := dict_set task_id msg (s_pending_end_message s1)\<rparr>) = (Inr (), s2)"
    "run_postchecks c task task_id s2 = (Inr rs, s3)"
    "if all_passed rs then finish_task c session_id task task_id msg s3 = (Inr out, s')
     else move_task c task_id ''postcheck_failed'' s3 = (Inr (), s') \<and> out = ''Postchecks failed: '' @ failure_messages rs"
proof -
  from assms obtain task_id where active: "dict_get (s_active_tasks s) session_id = Some task_id"
    by (auto simp: handle_end_task_def bindS_Inr check_active_task_def split: option.splits)
  from assms active obtain task where task: "dict_get (s_task_specs s) task_id = Some task"
    by (cases "dict_get (s_task_specs s) task_id") (auto simp: handle_end_task_def bindS_Inr check_active_task_def)
  define msg where "msg = (case c_secrets c of None \<Rightarrow> msg0 | Some r \<Rightarrow> scrub_text r msg0)"
  from assms active task obtain s1 s2 rs s3 where inc: "incomplete_children task_id s = []"
    and s1: "move_task c task_id ''postchecking'' s = (Inr (), s1)"
    and s2: "c_auto_commit c session_id msg (s1\<lparr>s_pending_end_message := dict_set task_id msg (s_pending_end_message s1)\<rparr>) = (Inr (), s2)"
    and rs: "run_postchecks c task task_id s2 = (Inr rs, s3)"
    and rest: "(if all_passed rs then finish_task c session_id task task_id msg
                else bindS (move_task c task_id ''postcheck_failed'') (\<lambda>_. returnS (''Postchecks failed: '' @ failure_messages rs))) s3 = (Inr out, s')"
    unfolding handle_end_task_def msg_def [symmetric] Let_def
    by (auto simp: bindS_Inr check_active_task_def split: if_splits)
  show thesis
    by (rule that [OF active task inc msg_def s1 s2 rs]) (use rest in \<open>auto simp: bindS_Inr split: if_splits\<close>)
qed



section \<open>Agreement with the trace\<close>

text \<open>What outside code can do to the scheduler's state while an operation waits for it, whether it returns or raises.\<close>

inductive outside_step :: "config \<Rightarrow> sched \<Rightarrow> sched \<Rightarrow> bool" for c where
  out_script: "env_script (c_checks c) m f ctx s = (r1, s') \<Longrightarrow> outside_step c s s'"
| out_fix: "env_fix (c_checks c) f ctx s = (r2, s') \<Longrightarrow> outside_step c s s'"
| out_consult: "env_consult (c_checks c) a q vs s = (r3, s') \<Longrightarrow> outside_step c s s'"
| out_workflow: "env_workflow (c_checks c) e s = (r4, s') \<Longrightarrow> outside_step c s s'"
| out_pytest: "w_pytest (c_world c) s = (r5, s') \<Longrightarrow> outside_step c s s'"
| out_ruff: "w_ruff (c_world c) s = (r5, s') \<Longrightarrow> outside_step c s s'"
| out_diff: "w_git_diff (c_world c) s = (r6, s') \<Longrightarrow> outside_step c s s'"
| out_status: "w_git_status (c_world c) s = (r6, s') \<Longrightarrow> outside_step c s s'"
| out_custom: "dict_get (c_custom c) key = Some checker \<Longrightarrow> checker kind t txt s = (r4, s') \<Longrightarrow> outside_step c s s'"
| out_commit: "c_auto_commit c sid m s = (r2, s') \<Longrightarrow> outside_step c s s'"
| out_callback: "c_callback c m f t s = (r2, s') \<Longrightarrow> outside_step c s s'"
| out_wait: "c_wait_event c n secs s = (r7, s') \<Longrightarrow> outside_step c s s'"
| out_notify: "c_notify c t n s = (r2, s') \<Longrightarrow> outside_step c s s'"
| out_stop: "c_stop_service c svc s = (r2, s') \<Longrightarrow> outside_step c s s'"

definition keeps :: "(sched \<Rightarrow> bool) \<Rightarrow> config \<Rightarrow> bool" where
  "keeps I c \<longleftrightarrow> (\<forall>s s'. outside_step c s s' \<longrightarrow> I s \<longrightarrow> I s')"

lemma keeps_outside:
  assumes "keeps I c"
  shows "steady I (env_script (c_checks c) m f ctx)" "steady I (env_fix (c_checks c) f ctx)" "steady I (env_consult (c_checks c) a q vs)"
    "steady I (env_workflow (c_checks c) e)" "steady I (w_pytest (c_world c))" "steady I (w_ruff (c_world c))"
    "steady I (w_git_diff (c_world c))" "steady I (w_git_status (c_world c))" "steady I (c_auto_commit c sid m)"
    "steady I (c_callback c m f t)" "steady I (c_wait_event c n secs)" "steady I (c_notify c t n)" "steady I (c_stop_service c svc)"
  using assms outside_step.intros [of c] unfolding keeps_def steady_def by metis+

lemma keeps_custom: "keeps I c \<Longrightarrow> dict_get (c_custom c) key = Some checker \<Longrightarrow> steady I (checker kind t txt)"
  using out_custom unfolding keeps_def steady_def by metis

lemma run_script_steady: "keeps I c \<Longrightarrow> steady I (run_script (c_checks c) x ctx)"
  by (auto simp: run_script_def intro!: steady_bindS keeps_outside(1) split: list.split)

lemma execute_check_steady: "keeps I c \<Longrightarrow> steady I (execute_check (c_checks c) e ctx rs)"
  by (cases e) (auto simp: execute_check_def run_agent_def intro!: steady_bindS keeps_outside(3,4) run_script_steady)

lemma run_fix_steady: "keeps I c \<Longrightarrow> steady I (run_fix (c_checks c) f ctx)"
  unfolding steady_def run_fix_def
  by (auto split: prod.splits sum.splits if_splits dest: steadyD [OF keeps_outside(2)])

lemma run_checks_steady:
  assumes "keeps I c" shows "steady I (run_checks (c_checks c) checks ctx rs)"
proof (induction checks arbitrary: rs)
  case (Cons check checks)
  show ?case
    by (auto intro!: steady_bindS execute_check_steady run_fix_steady assms Cons.IH split: option.split)
qed simp

lemma run_prechecks_keeps: "keeps I c \<Longrightarrow> I s \<Longrightarrow> run_prechecks c task t s = (rs, s') \<Longrightarrow> I s'"
  using steadyD [OF run_checks_steady] by (auto simp: run_prechecks_def split: if_splits) blast

lemma run_postchecks_keeps: "keeps I c \<Longrightarrow> I s \<Longrightarrow> run_postchecks c task t s = (rs, s') \<Longrightarrow> I s'"
  using steadyD [OF run_checks_steady] by (auto simp: run_postchecks_def split: if_splits) blast

lemma check_constraint_steady:
  assumes k: "keeps I c" shows "steady I (check_constraint (c_world c) (c_custom c) snaps kind t txt)"
proof (cases "dict_get (c_custom c) (kind_value kind)")
  case None
  have "steady I (check_no_removed_exports (c_world c) snaps t txt)" "steady I (check_no_changed_signatures (c_world c) snaps t txt)"
    unfolding steady_def check_no_removed_exports_def check_no_changed_signatures_def
    by (auto simp: bindS_def returnS_def readS_def split: option.splits snapshot.splits sum.splits)
  then show ?thesis using None keeps_outside [OF k]
    by (auto simp: check_constraint_def check_tests_pass_def check_lint_clean_def check_no_new_dependencies_def check_no_new_files_outside_def
        Let_def split: constraint_kind.split option.split intro!: steady_bindS)
next
  case (Some checker)
  then show ?thesis using keeps_custom [OF k Some] by (simp add: check_constraint_def)
qed

lemma run_constraints_keeps:
  assumes k: "keeps I c" and "I s" "run_constraints c t s = (rs, s')" shows "I s'"
proof -
  have "steady I (run_mechanical_constraints (c_world c) (c_custom c) snaps h t cs)" for snaps h cs
    by (induction cs) (auto simp: run_constraint_def intro!: steady_bindS check_constraint_steady [OF k] split: option.split)
  from steadyD [OF this assms(2)] assms(3) show ?thesis by (simp add: run_constraints_def)
qed

lemma call_on_success_keeps:
  assumes k: "keeps I c" and "I s" "call_on_success c task t s = (r, s')" shows "I s'"
proof -
  have "steady I m \<Longrightarrow> steady I (logged m)" for m :: "unit op"
    unfolding steady_def logged_def by (auto split: prod.splits sum.splits if_splits)
  then have "steady I (call_on_success c task t)"
    by (auto simp: call_on_success_def intro!: keeps_outside(10) [OF k] split: option.split list.split)
  from steadyD [OF this assms(2,3)] show ?thesis .
qed

lemma stop_services_keeps:
  assumes k: "keeps I c" and i: "\<And>s. I s \<Longrightarrow> I (s\<lparr>s_services := []\<rparr>)" and "I s" "stop_services c s = (r, s')" shows "I s'"
proof -
  have "steady I (forS (c_stop_service c) svcs)" for svcs by (induction svcs) (auto intro!: steady_bindS keeps_outside(13) [OF k])
  moreover have "steady I (modifyS (\<lambda>s. s\<lparr>s_services := []\<rparr>))" using i by (simp add: steady_def)
  ultimately show ?thesis using assms(3,4) steadyD [OF steady_bindS] unfolding stop_services_def by metis
qed

lemma register_sync:
  assumes "in_sync s" "trace_create_task c parent name ty cfg s = (Inr t, s1)"
  shows "in_sync (register_child p t spec s1)" "in_sync (init_task_state t spec q s1)"
  using assms
  by (auto simp: in_sync_def mem_status_def trace_status_def trace_create_task_def create_task_def
      register_child_def add_child_def init_task_state_def)

lemma claim_paths_sync: "claim_paths t wp s = (r, s') \<Longrightarrow> in_sync s \<Longrightarrow> in_sync s'"
  by (auto simp: claim_paths_def in_sync_def mem_status_def trace_status_def split: option.splits list.splits sum.splits)

lemma handle_start_taskE:
  assumes "handle_start_task c sid t s = (Inr out, s')"
  obtains u task s1 s2 s3 rs where
    "c_parse_uuid c t = Some u" "mem_status s u = Some ''created''" "move_task c u ''prechecking'' s = (Inr (), s1)"
    "dict_get (s_task_specs s1) u = Some task" "run_prechecks c task u s1 = (Inr rs, s2)"
    "if all_passed rs
     then move_task c u ''active'' s2 = (Inr (), s3) \<and> s' = s3\<lparr>s_active_tasks := dict_set sid u (s_active_tasks s3)\<rparr>
     else move_task c u ''precheck_failed'' s2 = (Inr (), s') \<and> s3 = s'"
proof -
  from assms obtain u where u: "c_parse_uuid c t = Some u"
    by (cases "c_parse_uuid c t") (auto simp: handle_start_task_def)
  from assms u have st: "mem_status s u = Some ''created''"
    by (cases "dict_get (s_task_states s) u") (auto simp: handle_start_task_def mem_status_def split: if_splits)
  from assms u st obtain s1 where s1: "move_task c u ''prechecking'' s = (Inr (), s1)"
    by (auto simp: handle_start_task_def mem_status_def bindS_Inr)
  from assms u st s1 obtain task where task: "dict_get (s_task_specs s1) u = Some task"
    by (cases "dict_get (s_task_specs s1) u") (auto simp: handle_start_task_def mem_status_def bindS_Inr)
  with assms u st s1 obtain rs s2 where rs: "run_prechecks c task u s1 = (Inr rs, s2)"
    and cont: "(if \<not> all_passed rs
      then bindS (move_task c u ''precheck_failed'') (\<lambda>_. returnS (''Prechecks failed: '' @ failure_messages rs))
      else bindS (move_task c u ''active'') (\<lambda>_. bindS (modifyS (\<lambda>s. s\<lparr>s_active_tasks := dict_set sid u (s_active_tasks s)\<rparr>))
             (\<lambda>_. returnS (''Task '' @ t @ '' is now active'')))) s2 = (Inr out, s')"
    by (auto simp: handle_start_task_def mem_status_def bindS_Inr)
  show thesis
  proof (cases "all_passed rs")
    case True
    with cont obtain s3 where s3: "move_task c u ''active'' s2 = (Inr (), s3)" "s' = s3\<lparr>s_active_tasks := dict_set sid u (s_active_tasks s3)\<rparr>"
      by (auto simp: bindS_Inr)
    show ?thesis by (rule that [OF u st s1 task rs, of s3]) (use True s3 in simp)
  next
    case False
    with cont have "move_task c u ''precheck_failed'' s2 = (Inr (), s')" by (auto simp: bindS_Inr)
    then show ?thesis using that [OF u st s1 task rs, of s'] False by simp
  qed
qed

lemma start_task_sync:
  assumes k: "keeps in_sync c" and s: "in_sync s" and h: "handle_start_task c sid t s = (Inr out, s')"
  shows "in_sync s'"
  using h
proof (rule handle_start_taskE)
  fix u task s1 s2 s3 rs
  assume m: "move_task c u ''prechecking'' s = (Inr (), s1)" and r: "run_prechecks c task u s1 = (Inr rs, s2)"
    and e: "if all_passed rs
     then move_task c u ''active'' s2 = (Inr (), s3) \<and> s' = s3\<lparr>s_active_tasks := dict_set sid u (s_active_tasks s3)\<rparr>
     else move_task c u ''precheck_failed'' s2 = (Inr (), s') \<and> s3 = s'"
  have "in_sync s2" using run_prechecks_keeps [OF k move_task_sync [OF m s] r] .
  then have "in_sync s3" using e move_task_sync by (auto split: if_splits)
  then show "in_sync s'" using e by (auto split: if_splits)
qed

lemma complete_task_state [simp]:
  "s_task_states (complete_task t n ou st d r s) = dict_set t ''completed'' (s_task_states s)"
  "s_db (complete_task t n ou st d r s) = s_db s" "s_tick (complete_task t n ou st d r s) = s_tick s"
  by (simp_all add: complete_task_def Let_def)

lemma complete_transition_sync:
  assumes "trace_transition c t ''completed'' (complete_task t n ou st d r s) = (Inr u, s')" "in_sync s"
  shows "in_sync s'"
proof -
  from trace_transition_ok(1) [OF assms(1)] have m: "s_task_states s' = dict_set t ''completed'' (s_task_states s)" by auto
  have "trace_status (complete_task t n ou st d r s) v = trace_status s v" for v by (simp add: trace_status_def)
  with trace_transition_ok(2) [OF assms(1)] have "trace_status s' v = (if v = t then Some ''completed'' else trace_status s v)" for v by simp
  then show ?thesis using assms(2) m by (simp add: in_sync_def mem_status_def)
qed

lemma end_task_sync:
  assumes k: "keeps in_sync c" and s: "in_sync s" and h: "handle_end_task c sid m0 s = (Inr out, s')"
  shows "in_sync s'"
  using h
proof (rule handle_end_taskE)
  fix t task m s1 s2 s3 rs
  assume m: "move_task c t ''postchecking'' s = (Inr (), s1)"
    and s2: "c_auto_commit c sid m (s1\<lparr>s_pending_end_message := dict_set t m (s_pending_end_message s1)\<rparr>) = (Inr (), s2)"
    and r: "run_postchecks c task t s2 = (Inr rs, s3)"
    and e: "if all_passed rs then finish_task c sid task t m s3 = (Inr out, s')
     else move_task c t ''postcheck_failed'' s3 = (Inr (), s') \<and> out = ''Postchecks failed: '' @ failure_messages rs"
  have "in_sync (s1\<lparr>s_pending_end_message := dict_set t m (s_pending_end_message s1)\<rparr>)"
    using move_task_sync [OF m s] by simp
  from steadyD [OF keeps_outside(9) [OF k] this s2] have s3: "in_sync s3" using run_postchecks_keeps [OF k _ r] by blast
  show "in_sync s'"
  proof (cases "all_passed rs")
    case True
    with e have "finish_task c sid task t m s3 = (Inr out, s')" by simp
    then show ?thesis
    proof (rule finish_taskE)
      fix cs s4 assume cs: "run_constraints c t s3 = (Inr cs, s4)"
        and fin: "if all_passed cs
          then \<exists>s5. trace_transition c t ''completed'' (complete_task t (task_name task) (Some m) None 0 0 s4) = (Inr (), s5) \<and>
            call_on_success c task t (s5\<lparr>s_active_tasks := dict_pop sid (s_active_tasks s5)\<rparr>) = (Inr (), s')
          else move_task c t ''postcheck_failed'' s4 = (Inr (), s')"
      have s4: "in_sync s4" by (rule run_constraints_keeps [OF k s3 cs])
      show ?thesis
      proof (cases "all_passed cs")
        case True
        with fin obtain s5 where s5: "trace_transition c t ''completed'' (complete_task t (task_name task) (Some m) None 0 0 s4) = (Inr (), s5)"
          "call_on_success c task t (s5\<lparr>s_active_tasks := dict_pop sid (s_active_tasks s5)\<rparr>) = (Inr (), s')" by auto
        from complete_transition_sync [OF s5(1) s4] have "in_sync (s5\<lparr>s_active_tasks := dict_pop sid (s_active_tasks s5)\<rparr>)" by simp
        from call_on_success_keeps [OF k this s5(2)] show ?thesis .
      qed (use fin s4 move_task_sync in auto)
    qed
  qed (use e s3 move_task_sync in auto)
qed

lemma create_task_sync:
  assumes s: "in_sync s" and h: "handle_create_task c sid p s = (r, s')"
  shows "in_sync s'"
proof (cases "dict_get (s_active_tasks s) sid = None \<or> s_budget_blocked s")
  case True
  then have "s' = s" using h by (cases "dict_get (s_active_tasks s) sid") (auto simp: handle_create_task_def bindS_def check_active_task_def raiseS_def)
  then show ?thesis using s by simp
next
  case False
  then obtain pid where pid: "dict_get (s_active_tasks s) sid = Some pid" "\<not> s_budget_blocked s" by auto
  obtain t s1 where t: "trace_create_task c (Some pid) (ct_name p) ''agent'' None s = (Inr t, s1)"
    by (simp add: trace_create_task_def create_task_def)
  let ?s2 = "register_child pid t (created_spec c p) s1"
  obtain q s3 where q: "claim_paths t (ts_write_paths (spec_fields (created_spec c p))) ?s2 = (q, s3)" by force
  have s3: "in_sync s3" using claim_paths_sync [OF q] register_sync(1) [OF s t] by blast
  have "s' = (case q of Inl _ \<Rightarrow> s3 | Inr _ \<Rightarrow> add_advisories c pid s3)"
    using h pid t q by (auto simp: handle_create_task_def check_active_task_def bindS_def modifyS_def returnS_def split: sum.splits)
  then show ?thesis using s3 by (auto simp: add_advisories_def split: sum.splits)
qed

lemma create_workflow_sync:
  assumes "in_sync s" "handle_create_workflow c sid p s = (Inr out, s')" shows "in_sync s'"
proof -
  from assms(2) obtain pid t s1 spec where
    t: "trace_create_task c (Some pid) (cw_name p) ''workflow'' (Some [(''description'', JStr (cw_description p)), (''goals'', JArr (map JStr (cw_goals p)))]) s = (Inr t, s1)"
    "s' = (register_child pid t spec s1)\<lparr>s_task_children := dict_set t [] (s_task_children (register_child pid t spec s1))\<rparr>"
    by (auto simp: handle_create_workflow_def bindS_Inr check_active_task_def split: option.splits if_splits)
  then show ?thesis using register_sync(1) [OF assms(1) t(1)] by simp
qed

lemma create_wait_for_sync:
  assumes "in_sync s" "handle_create_wait_for c sid n ev tm s = (Inr out, s')" shows "in_sync s'"
proof -
  from assms(2) obtain pid t s1 spec where
    t: "trace_create_task c (Some pid) n ''wait_for'' None s = (Inr t, s1)" "s' = register_child pid t spec s1"
    by (auto simp: handle_create_wait_for_def bindS_Inr check_active_task_def split: option.splits)
  then show ?thesis using register_sync(1) [OF assms(1) t(1)] by simp
qed

lemma await_task_sync:
  assumes "in_sync s" "handle_await_task c sid t s = (r, s')" shows "in_sync s'"
  using assms by (auto simp: handle_await_task_def split: option.splits if_splits)

lemma activate_sync: "activate c t s = (Inr u, s') \<Longrightarrow> in_sync s \<Longrightarrow> in_sync s'"
  unfolding activate_def bindS_Inr using move_task_sync by blast

lemma in_sync_db [simp]:
  "db_tasks db = db_tasks (s_db s) \<Longrightarrow> in_sync (s\<lparr>s_db := db, s_tick := n\<rparr>) = in_sync s"
  "db_tasks db = db_tasks (s_db s) \<Longrightarrow> in_sync (s\<lparr>s_db := db\<rparr>) = in_sync s"
  by (simp_all add: in_sync_def mem_status_def trace_status_def)

lemma write_event_tasks: "db_tasks (snd (write_event i n ru ty d t p k db)) = db_tasks db"
  by (simp add: write_event_def split: option.split)

lemma decision_point_sync:
  assumes k: "keeps in_sync c" and s: "in_sync s" and h: "execute_decision_point_task c task t s = (Inr r, s')"
  shows "in_sync s'"
proof -
  from h obtain s1 where s1: "activate c t s = (Inr (), s1)"
    and rest: "(let (_, db) = write_event (c_ids c (s_tick s1)) (c_clock c (s_tick s1)) (Some (c_run_id c)) ''decision_point''
              [(''task_id'', JStr (uuid_str t)), (''task_name'', JStr (task_name task))] (Some t) (c_principal c) None (s_db s1);
            s2 = s1\<lparr>s_db := db, s_tick := Suc (s_tick s1)\<rparr>
        in bindS (c_notify c t (task_name task)) (\<lambda>_.
             bindS (modifyS (complete_task t (task_name task) None None 0 0)) (\<lambda>_.
               bindS (trace_transition c t ''completed'')
                 (\<lambda>_. returnS \<lparr>tr_output = None, tr_structured = None, tr_checks = [ok_result ''Decision point completed'']\<rparr>))) s2) = (Inr r, s')"
    by (auto simp: execute_decision_point_task_def bindS_Inr)
  obtain e db where w: "write_event (c_ids c (s_tick s1)) (c_clock c (s_tick s1)) (Some (c_run_id c)) ''decision_point''
              [(''task_id'', JStr (uuid_str t)), (''task_name'', JStr (task_name task))] (Some t) (c_principal c) None (s_db s1) = (e, db)" by (meson surj_pair)
  then have "db_tasks db = db_tasks (s_db s1)" using write_event_tasks by (metis snd_conv)
  then have i: "in_sync (s1\<lparr>s_db := db, s_tick := Suc (s_tick s1)\<rparr>)" using activate_sync [OF s1 s] by simp
  from rest w obtain s2 where n: "c_notify c t (task_name task) (s1\<lparr>s_db := db, s_tick := Suc (s_tick s1)\<rparr>) = (Inr (), s2)"
    and fin: "trace_transition c t ''completed'' (complete_task t (task_name task) None None 0 0 s2) = (Inr (), s')"
    by (auto simp: bindS_Inr Let_def)
  from complete_transition_sync [OF fin steadyD [OF keeps_outside(12) [OF k] i n]] show ?thesis .
qed

lemma function_task_sync:
  assumes call: "\<And>m f ctx s r s'. in_sync s \<Longrightarrow> call m f ctx s = (Inr r, s') \<Longrightarrow> in_sync s'"
    and s: "in_sync s" and h: "execute_function_task c call task t parent vars s = (Inr r, s')"
  shows "in_sync s'"
proof -
  from h obtain path where path: "ts_callable (spec_fields task) = Some path"
    by (cases "ts_callable (spec_fields task)") (auto simp: execute_function_task_def)
  obtain a db where a: "create_task_attempt (c_ids c (s_tick s)) t 1 (s_db s) = (a, db)" by force
  then have "in_sync (s\<lparr>s_db := db, s_tick := Suc (s_tick s)\<rparr>)" using s by (auto simp: create_task_attempt_def)
  moreover from h path a obtain s1 where s1: "activate c t (s\<lparr>s_db := db, s_tick := Suc (s_tick s)\<rparr>) = (Inr (), s1)"
    by (auto simp: execute_function_task_def bindS_Inr)
  ultimately have i1: "in_sync s1" using activate_sync by blast
  from h path a s1 obtain m f where "split_on CHR '':'' path = [m, f]"
    by (auto simp: execute_function_task_def bindS_Inr split: list.splits)
  with h path a s1 obtain x s2 where call0: "call m f (task_context task t parent vars) s1 = (Inr x, s2)"
    and rest: "(case complete_task_attempt a (case tr_output x of None \<Rightarrow> [] | Some t \<Rightarrow> t)
                               (tr_structured x) None (Some ''pass'') None 0 0 0 0 0 0 0 (s_db s2) of
                Inl e \<Rightarrow> (Inl e, s2)
              | Inr db' \<Rightarrow> bindS (trace_transition c t ''completed'') (\<lambda>_. returnS x)
                  (complete_task t (task_name task) (tr_output x) (tr_structured x) 0 0 (s2\<lparr>s_db := db'\<rparr>))) = (Inr r, s')"
    by (auto simp: execute_function_task_def bindS_Inr)
  then obtain db' where call1: "call m f (task_context task t parent vars) s1 = (Inr r, s2)"
    and att: "complete_task_attempt a (case tr_output r of None \<Rightarrow> [] | Some t \<Rightarrow> t)
                               (tr_structured r) None (Some ''pass'') None 0 0 0 0 0 0 0 (s_db s2) = Inr db'"
    and fin: "trace_transition c t ''completed'' (complete_task t (task_name task) (tr_output r) (tr_structured r) 0 0 (s2\<lparr>s_db := db'\<rparr>)) = (Inr (), s')"
    by (auto simp: bindS_Inr split: sum.splits)
  have "db_tasks db' = db_tasks (s_db s2)" using att by (auto simp: complete_task_attempt_def split: option.splits)
  then have "in_sync (s2\<lparr>s_db := db'\<rparr>)" using call [OF i1 call1] by simp
  then show ?thesis using complete_transition_sync [OF fin] by blast
qed

lemma wait_for_sync:
  assumes k: "keeps in_sync c" and s: "in_sync s" and h: "execute_wait_for_task c task t s = (Inr r, s')"
  shows "in_sync s'"
proof -
  from h obtain ev where ev: "ts_wait_for (spec_fields task) = Some ev"
    by (cases "ts_wait_for (spec_fields task)") (auto simp: execute_wait_for_task_def)
  from h ev obtain s1 n p s2 st where s1: "activate c t s = (Inr (), s1)" and w: "c_wait_event c ev n s1 = (Inr p, s2)"
    and m: "move_task c t st s2 = (Inr (), s')"
    by (auto simp: execute_wait_for_task_def bindS_Inr Let_def split: option.splits)
  from move_task_sync [OF m steadyD [OF keeps_outside(11) [OF k] activate_sync [OF s1 s] w]] show ?thesis .
qed

lemma register_loop_sync: "register_loop c ts m s = (Inr m', s') \<Longrightarrow> in_sync s \<Longrightarrow> in_sync s'"
  by (induction c ts m arbitrary: s rule: register_loop.induct) (auto simp: bindS_Inr dest: register_sync(2))

lemma cancel_transition_sync:
  assumes "trace_transition c t ''cancelled'' (release_claims t (set_state t ''cancelled'' s)) = (Inr u, s')" "in_sync s"
  shows "in_sync s'"
proof -
  have eq: "trace_status (release_claims t (set_state t ''cancelled'' s)) v = trace_status s v"
    "mem_status (release_claims t (set_state t ''cancelled'' s)) v = (if v = t then Some ''cancelled'' else mem_status s v)" for v
    by (simp_all add: release_claims_def set_state_def trace_status_def mem_status_def)
  show ?thesis
    using assms(2) trace_transition_ok(1,2) [OF assms(1)] eq unfolding in_sync_def mem_status_def by fastforce
qed

lemma abort_loop_sync: "abort_loop c ts s = (Inr u, s') \<Longrightarrow> in_sync s \<Longrightarrow> in_sync s'"
proof (induction c ts arbitrary: s rule: abort_loop.induct)
  case (2 c t st rest)
  show ?case
  proof (cases "st \<in> set ACTIVE_STATES")
    case True
    with 2(3) obtain s1 where s1: "trace_transition c t ''cancelled'' (release_claims t (set_state t ''cancelled'' s)) = (Inr (), s1)"
      "abort_loop c rest s1 = (Inr u, s')" by (auto simp: bindS_Inr)
    from 2(1) [OF True s1(2) cancel_transition_sync [OF s1(1) 2(4)]] show ?thesis .
  qed (use 2 in simp)
qed simp

lemma register_workflow_sync:
  "register_workflow_tasks c headless cfg s = (Inr m, s') \<Longrightarrow> in_sync s \<Longrightarrow> in_sync s'"
  by (auto simp: register_workflow_tasks_def dest: register_loop_sync split: sum.splits if_splits)

lemma cancel_running_sync [simp]: "in_sync (cancel_running s) = in_sync s"
  by (simp add: cancel_running_def in_sync_def mem_status_def trace_status_def)

lemma abort_sync:
  assumes k: "keeps in_sync c" and s: "in_sync s" and h: "abort c s = (Inr u, s')" shows "in_sync s'"
proof -
  from h obtain s1 where l: "abort_loop c (s_task_states (cancel_running s)) (cancel_running s) = (Inr (), s1)"
    and st: "stop_services c s1 = (Inr u, s')" by (auto simp: abort_def bindS_Inr)
  have "in_sync s1" using abort_loop_sync [OF l] s by simp
  from stop_services_keeps [OF k _ this st] show ?thesis by simp
qed

lemma run_transition_tasks:
  assumes "trace_run_transition c st s = (r, s')"
  shows "s_task_states s' = s_task_states s \<and> db_tasks (s_db s') = db_tasks (s_db s)"
  using assms by (auto simp: trace_run_transition_def transition_run_def bind_res_Inr_iff Let_def split: sum.splits option.splits)

lemma run_transition_sync: "trace_run_transition c st s = (r, s') \<Longrightarrow> in_sync s' = in_sync s"
  using run_transition_tasks by (fastforce simp: in_sync_def mem_status_def trace_status_def)

lemma pause_sync: "pause c s = (r, s') \<Longrightarrow> in_sync s' = in_sync s"
proof (induction c s arbitrary: r s' rule: pause.induct)
  case (1 c s)
  obtain q s1 where q: "trace_run_transition c ''paused'' (cancel_running (s\<lparr>s_paused := True\<rparr>)) = (q, s1)" by force
  have s1: "in_sync s1 = in_sync s"
    using run_transition_sync [OF q] by simp
  show ?case
  proof (cases q)
    case (Inr call)
    show ?thesis
    proof (cases call)
      case (Some cb)
      have "pause c s1 = (r, s')" using 1(2) q Inr Some by (simp add: pause.simps [of c s])
      from 1(1) [OF q [unfolded Inr Some, symmetric] refl refl this] s1 show ?thesis by simp
    qed (use 1(2) q Inr s1 in \<open>auto simp: pause.simps [of c s]\<close>)
  qed (use 1(2) q s1 in \<open>auto simp: pause.simps [of c s]\<close>)
qed

lemma resume_sync:
  assumes "resume c s = (r, s')" shows "in_sync s' = in_sync s"
proof -
  obtain q s1 where q: "trace_run_transition c ''running'' (s\<lparr>s_paused := False\<rparr>) = (q, s1)" by force
  then have "s' = s1" using assms by (cases q) (auto simp: resume_def bindS_def modifyS_def returnS_def)
  then show ?thesis using run_transition_sync [OF q] by simp
qed

text \<open>
  One successful operation of the scheduler. \<open>call\<close> stands for the imported functions of callable tasks. Composite tasks are left to
  \<open>Execution\<close>, \<open>for_each\<close> and the reset of a retry break the agreement when they fail.
\<close>

inductive sched_step :: "config \<Rightarrow> task_function \<Rightarrow> sched \<Rightarrow> sched \<Rightarrow> bool" for c call where
  step_register: "register_workflow_tasks c headless cfg s = (Inr m, s') \<Longrightarrow> sched_step c call s s'"
| step_start: "handle_start_task c sid t s = (Inr out, s') \<Longrightarrow> sched_step c call s s'"
| step_end: "handle_end_task c sid m s = (Inr out, s') \<Longrightarrow> sched_step c call s s'"
| step_create: "handle_create_task c sid p s = (r, s') \<Longrightarrow> sched_step c call s s'"
| step_create_workflow: "handle_create_workflow c sid pw s = (Inr out, s') \<Longrightarrow> sched_step c call s s'"
| step_create_wait: "handle_create_wait_for c sid n ev tm s = (Inr out, s') \<Longrightarrow> sched_step c call s s'"
| step_await: "handle_await_task c sid t s = (r, s') \<Longrightarrow> sched_step c call s s'"
| step_decision: "execute_decision_point_task c task u s = (Inr tr, s') \<Longrightarrow> sched_step c call s s'"
| step_function: "execute_function_task c call task u parent vars s = (Inr tr, s') \<Longrightarrow> sched_step c call s s'"
| step_wait: "execute_wait_for_task c task u s = (Inr tr, s') \<Longrightarrow> sched_step c call s s'"
| step_abort: "abort c s = (Inr x, s') \<Longrightarrow> sched_step c call s s'"
| step_pause: "pause c s = (ru, s') \<Longrightarrow> sched_step c call s s'"
| step_resume: "resume c s = (ru, s') \<Longrightarrow> sched_step c call s s'"
| step_signal: "handle_control_signal c new_status s = (Inr x, s') \<Longrightarrow> sched_step c call s s'"

text \<open>
  What outside code is allowed to do while an operation waits: any number of stretches of the scheduler's own code between two awaits (another
  session moves a task, completes it, creates a child, registers a task, cancels it), and anything that leaves the statuses of tasks
  alone on both sides.
\<close>

inductive segment :: "config \<Rightarrow> sched \<Rightarrow> sched \<Rightarrow> bool" for c where
  seg_frame: "s_task_states s' = s_task_states s \<Longrightarrow> db_tasks (s_db s') = db_tasks (s_db s) \<Longrightarrow> segment c s s'"
| seg_move: "move_task c t st s = (Inr u, s') \<Longrightarrow> segment c s s'"
| seg_complete: "trace_transition c t ''completed'' (complete_task t n ou st d k s) = (Inr u, s') \<Longrightarrow> segment c s s'"
| seg_child: "trace_create_task c parent n ty cfg s = (Inr t, s1) \<Longrightarrow> segment c s (register_child p t spec s1)"
| seg_register: "trace_create_task c parent n ty cfg s = (Inr t, s1) \<Longrightarrow> segment c s (init_task_state t spec q s1)"
| seg_cancel: "trace_transition c t ''cancelled'' (release_claims t (set_state t ''cancelled'' s)) = (Inr u, s') \<Longrightarrow> segment c s s'"

definition well_behaved :: "config \<Rightarrow> task_function \<Rightarrow> bool" where
  "well_behaved c call \<longleftrightarrow>
     (\<forall>s s'. outside_step c s s' \<longrightarrow> (segment c)\<^sup>*\<^sup>* s s') \<and> (\<forall>m f ctx s r s'. call m f ctx s = (r, s') \<longrightarrow> (segment c)\<^sup>*\<^sup>* s s')"

lemma segment_sync: assumes "segment c s s'" "in_sync s" shows "in_sync s'"
  using assms(1)
proof cases
  case seg_frame
  then show ?thesis using assms(2) by (simp add: in_sync_def mem_status_def trace_status_def)
next
  case (seg_move t st u)
  from move_task_sync [OF this assms(2)] show ?thesis .
next
  case (seg_complete t n ou st d k u)
  from complete_transition_sync [OF this assms(2)] show ?thesis .
next
  case (seg_child parent n ty cfg t s1 p spec)
  then show ?thesis using register_sync(1) [OF assms(2)] by simp
next
  case (seg_register parent n ty cfg t s1 spec q)
  then show ?thesis using register_sync(2) [OF assms(2)] by simp
next
  case (seg_cancel t u)
  from cancel_transition_sync [OF this assms(2)] show ?thesis .
qed

lemma segments_sync: "(segment c)\<^sup>*\<^sup>* s s' \<Longrightarrow> in_sync s \<Longrightarrow> in_sync s'"
  by (induction rule: rtranclp_induct) (auto intro: segment_sync)

lemma sched_step_sync:
  assumes "sched_step c call s s'" "in_sync s" "well_behaved c call" shows "in_sync s'"
proof -
  have k: "keeps in_sync c" using assms(3) segments_sync unfolding keeps_def well_behaved_def by blast
  have f: "in_sync s1" if "in_sync s0" "call m g ctx s0 = (Inr r, s1)" for m g ctx s0 r s1
    using assms(3) segments_sync that unfolding well_behaved_def by blast
  from assms(1) show ?thesis
  proof cases
    case step_register then show ?thesis using assms(2) by (rule register_workflow_sync)
  next
    case step_start then show ?thesis by (rule start_task_sync [OF k assms(2)])
  next
    case step_end then show ?thesis by (rule end_task_sync [OF k assms(2)])
  next
    case step_create then show ?thesis by (rule create_task_sync [OF assms(2)])
  next
    case step_create_workflow then show ?thesis by (rule create_workflow_sync [OF assms(2)])
  next
    case step_create_wait then show ?thesis by (rule create_wait_for_sync [OF assms(2)])
  next
    case step_await then show ?thesis by (rule await_task_sync [OF assms(2)])
  next
    case step_decision then show ?thesis by (rule decision_point_sync [OF k assms(2)])
  next
    case step_function
    show ?thesis by (rule function_task_sync [of call, OF _ assms(2) step_function]) (rule f)
  next
    case step_wait then show ?thesis by (rule wait_for_sync [OF k assms(2)])
  next
    case step_abort then show ?thesis by (rule abort_sync [OF k assms(2)])
  next
    case step_pause then show ?thesis using assms(2) by (simp add: pause_sync)
  next
    case step_resume then show ?thesis using assms(2) by (simp add: resume_sync)
  next
    case (step_signal new_status x)
    then consider "abort c s = (Inr x, s')" | "pause c s = (Inr x, s')" | "s' = s"
      by (auto simp: handle_control_signal_def split: if_splits)
    then show ?thesis using abort_sync [OF k assms(2)] pause_sync assms(2) by cases auto
  qed
qed

interpretation scheduler: invariant_system "\<lambda>s. s_task_states s = []" "\<lambda>s s'. sched_step c call s s' \<and> well_behaved c call" in_sync for c call
proof unfold_locales
  show "in_sync s" if "s_task_states s = []" for s using that by (simp add: in_sync_def mem_status_def)
  show "in_sync s'" if "in_sync s" "sched_step c call s s' \<and> well_behaved c call" for s s' using that sched_step_sync by blast
qed


lemma sample_outside: "outside_step sample_config s s' \<Longrightarrow> s' = s"
  by (induction rule: outside_step.induct) (auto simp: sample_config_def quiet_checks_def sample_world_def)

lemma sample_behaved: "well_behaved sample_config (\<lambda>_ _ _. raiseS ImportError)"
  using sample_outside by (auto simp: well_behaved_def)

lemma sample_keeps: "keeps I sample_config"
  using sample_outside by (auto simp: keeps_def)


section \<open>Abort\<close>

text \<open>Every task the scheduler knows has a row in the trace.\<close>

definition known_rows :: "sched \<Rightarrow> bool" where
  "known_rows s \<longleftrightarrow> (\<forall>t. mem_status s t \<noteq> None \<longrightarrow> trace_status s t \<noteq> None)"

lemma abort_loop_total:
  assumes "known_rows s" "\<forall>(t, st) \<in> set ts. mem_status s t \<noteq> None"
  shows "\<exists>s'. abort_loop c ts s = (Inr (), s') \<and> s_services s' = s_services s \<and> s_cancelled s' = s_cancelled s \<and>
    (\<forall>t. if \<exists>st. (t, st) \<in> set ts \<and> st \<in> set ACTIVE_STATES
         then mem_status s' t = Some ''cancelled'' \<and> trace_status s' t = Some ''cancelled'' \<and> dict_get (s_claims s') t = None
         else mem_status s' t = mem_status s t \<and> trace_status s' t = trace_status s t \<and> dict_get (s_claims s') t = dict_get (s_claims s) t)"
  using assms
proof (induction c ts arbitrary: s rule: abort_loop.induct)
  case (2 c t st rest)
  show ?case
  proof (cases "st \<in> set ACTIVE_STATES")
    case True
    let ?s1 = "release_claims t (set_state t ''cancelled'' s)"
    obtain old where old: "trace_status s t = Some old" using 2(3,4) unfolding known_rows_def by fastforce
    have eq: "trace_status ?s1 v = trace_status s v" "mem_status ?s1 v = (if v = t then Some ''cancelled'' else mem_status s v)"
      "dict_get (s_claims ?s1) v = (if v = t then None else dict_get (s_claims s) v)" "s_services ?s1 = s_services s" "s_cancelled ?s1 = s_cancelled s" for v
      by (simp_all add: release_claims_def set_state_def trace_status_def mem_status_def release_def)
    have "validate_task_transition old ''cancelled'' = Inr ()" by (simp add: validate_task_transition_def)
    then obtain s2 where s2: "trace_transition c t ''cancelled'' ?s1 = (Inr (), s2)"
      using trace_transition_fail [of c t "''cancelled''" ?s1] eq(1) old
      by (cases "trace_transition c t ''cancelled'' ?s1"; cases "fst (trace_transition c t ''cancelled'' ?s1)") auto
    have s2': "mem_status s2 v = (if v = t then Some ''cancelled'' else mem_status s v)"
      "trace_status s2 v = (if v = t then Some ''cancelled'' else trace_status s v)"
      "dict_get (s_claims s2) v = (if v = t then None else dict_get (s_claims s) v)"
      "s_services s2 = s_services s" "s_cancelled s2 = s_cancelled s" for v
      using trace_transition_ok(1,2) [OF s2] eq(1-3) [of v] eq(4,5) by (auto simp: mem_status_def)
    have "known_rows s2" using 2(3) s2'(1,2) unfolding known_rows_def by auto
    moreover have "\<forall>(v, st) \<in> set rest. mem_status s2 v \<noteq> None" using 2(4) s2'(1) by auto
    ultimately obtain s' where s': "abort_loop c rest s2 = (Inr (), s')" "s_services s' = s_services s2" "s_cancelled s' = s_cancelled s2"
      "\<And>v. if \<exists>st. (v, st) \<in> set rest \<and> st \<in> set ACTIVE_STATES
         then mem_status s' v = Some ''cancelled'' \<and> trace_status s' v = Some ''cancelled'' \<and> dict_get (s_claims s') v = None
         else mem_status s' v = mem_status s2 v \<and> trace_status s' v = trace_status s2 v \<and> dict_get (s_claims s') v = dict_get (s_claims s2) v"
      using 2(1) [OF True] by blast
    have "abort_loop c ((t, st) # rest) s = (Inr (), s')" using True s2 s'(1) by (simp add: bindS_def modifyS_def)
    moreover have "if \<exists>st'. (v, st') \<in> set ((t, st) # rest) \<and> st' \<in> set ACTIVE_STATES
         then mem_status s' v = Some ''cancelled'' \<and> trace_status s' v = Some ''cancelled'' \<and> dict_get (s_claims s') v = None
         else mem_status s' v = mem_status s v \<and> trace_status s' v = trace_status s v \<and> dict_get (s_claims s') v = dict_get (s_claims s) v" for v
      using s'(4) [of v] s2'(1-3) [of v] True by (auto split: if_splits)
    ultimately show ?thesis using s'(2,3) s2'(4,5) by auto
  next
    case False
    then have skip: "(\<exists>st'. (v, st') \<in> set ((t, st) # rest) \<and> st' \<in> set ACTIVE_STATES) \<longleftrightarrow> (\<exists>st'. (v, st') \<in> set rest \<and> st' \<in> set ACTIVE_STATES)" for v
      by auto
    have "abort_loop c ((t, st) # rest) = abort_loop c rest" using False by simp
    moreover have "\<forall>(v, st) \<in> set rest. mem_status s v \<noteq> None" using 2(4) by simp
    ultimately show ?thesis unfolding skip using 2(2) [OF False 2(3)] by simp
  qed
qed (simp add: returnS_def)



section \<open>Where the two views come apart\<close>

lemma postcheck_failed_status:
  assumes "handle_end_task c sid msg s = (Inr out, s')" "dict_get (s_active_tasks s) sid = Some t"
    and "mem_status s' t = Some ''postcheck_failed''"
    and quiet: "\<And>m f s0. call_on_success c m f s0 = (Inr (), s0)"
  shows "trace_status s' t = Some ''postcheck_failed''"
  using assms(1)
proof (rule handle_end_taskE)
  fix tid task m s1 s2 s3 rs
  assume h: "dict_get (s_active_tasks s) sid = Some tid"
    "if all_passed rs then finish_task c sid task tid m s3 = (Inr out, s')
     else move_task c tid ''postcheck_failed'' s3 = (Inr (), s') \<and> out = ''Postchecks failed: '' @ failure_messages rs"
  have tid: "tid = t" using h(1) assms(2) by simp
  have moved: ?thesis if "move_task c t ''postcheck_failed'' s5 = (Inr (), s')" for s5
    using move_task_ok(3) [OF that, of t] by simp
  show ?thesis
  proof (cases "all_passed rs")
    case True
    with h(2) tid have "finish_task c sid task t m s3 = (Inr out, s')" by simp
    then show ?thesis
    proof (rule finish_taskE)
      fix cs s4
      assume fin: "if all_passed cs
        then \<exists>s5. trace_transition c t ''completed'' (complete_task t (task_name task) (Some m) None 0 0 s4) = (Inr (), s5) \<and>
          call_on_success c task t (s5\<lparr>s_active_tasks := dict_pop sid (s_active_tasks s5)\<rparr>) = (Inr (), s')
        else move_task c t ''postcheck_failed'' s4 = (Inr (), s')"
      have "\<not> all_passed cs"
      proof
        assume "all_passed cs"
        with fin obtain s5 where s5: "trace_transition c t ''completed'' (complete_task t (task_name task) (Some m) None 0 0 s4) = (Inr (), s5)"
          "s' = s5\<lparr>s_active_tasks := dict_pop sid (s_active_tasks s5)\<rparr>" by (auto simp: quiet)
        then have "mem_status s' t = Some ''completed''" using trace_transition_ok(1) [OF s5(1)] by (auto simp: mem_status_def)
        with assms(3) show False by simp
      qed
      with fin show ?thesis using moved by simp
    qed
  qed (use h(2) tid moved in auto)
qed

text \<open>
  C40. A retry after failed post-checks cannot start. When \<open>end_task\<close> leaves the task in
  \<open>postcheck_failed\<close> and the retry loop resets the scheduler's state to \<open>created\<close>, the next \<open>start_task\<close>
  raises \<open>InvalidTransitionError\<close>: the trace still says \<open>postcheck_failed\<close>, from which \<open>prechecking\<close> is
  not allowed. The scheduler's state stays at \<open>prechecking\<close>.
\<close>

theorem retry_cannot_start:
  assumes "handle_end_task c sid msg s = (Inr out, s1)" "dict_get (s_active_tasks s) sid = Some t"
    and "mem_status s1 t = Some ''postcheck_failed''"
    and "\<And>task u s0. call_on_success c task u s0 = (Inr (), s0)"
    and "c_parse_uuid c tid = Some t"
  shows "\<exists>s2. handle_start_task c sid' tid (reset_for_retry t s1) = (Inl InvalidTransitionError, s2) \<and>
    mem_status s2 t = Some ''prechecking'' \<and> trace_status s2 t = Some ''postcheck_failed''"
proof -
  have tr: "trace_status s1 t = Some ''postcheck_failed''" using postcheck_failed_status [OF assms(1-3)] assms(4) by blast
  have "\<not> task_step ''postcheck_failed'' ''prechecking''"
    by (simp add: validate_task_transition_def TASK_TERMINAL_STATES_def TASK_TRANSITIONS_def dict_get_def)
  from move_task_invalid [OF _ this, of "reset_for_retry t s1" t c] tr
  have m: "move_task c t ''prechecking'' (reset_for_retry t s1) = (Inl InvalidTransitionError, set_state t ''prechecking'' (reset_for_retry t s1))"
    by (simp add: reset_for_retry_def)
  have "dict_get (s_task_states (reset_for_retry t s1)) t = Some ''created''" by (simp add: reset_for_retry_def set_state_def)
  then have "handle_start_task c sid' tid (reset_for_retry t s1) = (Inl InvalidTransitionError, set_state t ''prechecking'' (reset_for_retry t s1))"
    using assms(5) m by (simp add: handle_start_task_def bindS_def)
  then show ?thesis using tr by (simp add: reset_for_retry_def)
qed

theorem retry_cannot_start_witness:
  "\<exists>s1 s2. handle_end_task sample_config ''s'' ''done'' (started ''fail'') = (Inr ''Postchecks failed: no'', s1) \<and>
     handle_start_task sample_config ''s'' ''10'' (reset_for_retry 10 s1) = (Inl InvalidTransitionError, s2)"
proof -
  obtain r s1 where r: "handle_end_task sample_config ''s'' ''done'' (started ''fail'') = (r, s1)" by force
  have "map_prod id (\<lambda>s. mem_status s 10) (handle_end_task sample_config ''s'' ''done'' (started ''fail'')) =
      (Inr ''Postchecks failed: no'', Some ''postcheck_failed'')" by code_simp
  with r have h: "handle_end_task sample_config ''s'' ''done'' (started ''fail'') = (Inr ''Postchecks failed: no'', s1)"
    "mem_status s1 10 = Some ''postcheck_failed''" by auto
  have a: "dict_get (s_active_tasks (started ''fail'')) ''s'' = Some 10" by code_simp
  have q: "call_on_success sample_config task u s0 = (Inr (), s0)" for task u s0
    by (simp add: call_on_success_def sample_config_def logged_def raiseS_def returnS_def except_Exception_def split: option.split list.split)
  have p: "c_parse_uuid sample_config ''10'' = Some 10" by (simp add: sample_config_def)
  from retry_cannot_start [OF h(1) a h(2) q p] h(1) show ?thesis by blast
qed

end
