(* ===== verification/Admission.thy ===== *)
theory Admission
  imports Lifecycle
begin

text \<open>
  Admission of new work: creating child tasks under a budget and with write claims, the accounting that
  blocks it, and pausing a run. The entry gate comes first. The claims of tasks the scheduler holds stay exclusive, and two
  paths on which an operation fails after it has changed state are exhibited.
\<close>

section \<open>The entry gate\<close>

text \<open>
  C17. The entry gate: if \<open>start_task\<close> returns and the task is active afterwards, then it was
  \<open>created\<close>, its pre-checks were run to the end and all passed, and the session holds the task; and if the
  pre-checks did not all pass, the task is \<open>precheck_failed\<close>.
\<close>

theorem start_task_gate:
  assumes "handle_start_task c session_id task_id s = (Inr out, s')" "c_parse_uuid c task_id = Some t"
  shows "mem_status s t = Some ''created'' \<and>
    (\<exists>task s1 s2 rs. run_prechecks c task t s1 = (Inr rs, s2) \<and> dict_get (s_task_specs s1) t = Some task \<and>
       (prechecks task \<noteq> [] \<and> all_passed rs \<longrightarrow> length rs = length (prechecks task)) \<and>
       (if all_passed rs then mem_status s' t = Some ''active'' \<and> dict_get (s_active_tasks s') session_id = Some t
        else mem_status s' t = Some ''precheck_failed'' \<and> trace_status s' t = Some ''precheck_failed''))"
  using assms(1)
proof (rule handle_start_taskE)
  fix u task s1 s2 s3 rs
  assume h: "c_parse_uuid c task_id = Some u" "mem_status s u = Some ''created''"
    "dict_get (s_task_specs s1) u = Some task" "run_prechecks c task u s1 = (Inr rs, s2)"
    "if all_passed rs
     then move_task c u ''active'' s2 = (Inr (), s3) \<and> s' = s3\<lparr>s_active_tasks := dict_set session_id u (s_active_tasks s3)\<rparr>
     else move_task c u ''precheck_failed'' s2 = (Inr (), s') \<and> s3 = s'"
  have u: "u = t" using h(1) assms(2) by simp
  have len: "prechecks task \<noteq> [] \<and> all_passed rs \<longrightarrow> length rs = length (prechecks task)"
    using h(4) run_checks_gate gate_all by (fastforce simp: run_prechecks_def split: if_splits)
  show ?thesis
  proof (cases "all_passed rs")
    case True
    with h(5) have m: "move_task c t ''active'' s2 = (Inr (), s3)" "s' = s3\<lparr>s_active_tasks := dict_set session_id t (s_active_tasks s3)\<rparr>"
      using u by auto
    have "mem_status s' t = Some ''active''" using move_task_ok(2) [OF m(1), of t] m(2) by (simp add: mem_status_def)
    moreover have "dict_get (s_active_tasks s') session_id = Some t" using m(2) by simp
    ultimately show ?thesis using h(2-4) len True u by auto
  next
    case False
    with h(5) have m: "move_task c t ''precheck_failed'' s2 = (Inr (), s')" using u by auto
    show ?thesis using h(2-4) len False u move_task_ok(2,3) [OF m, of t] by auto
  qed
qed

theorem start_task_gate_witness:
  "mem_status (snd (register_loop sample_config [sample_task ''pass''] [] idle_sched)) 10 = Some ''created'' \<and>
   mem_status (started ''pass'') 10 = Some ''active''"
proof -
  let ?s = "snd (register_loop sample_config [sample_task ''pass''] [] idle_sched)"
  have "is_ok (fst (handle_start_task sample_config ''s'' ''10'' ?s))" by code_simp
  then obtain out where out: "handle_start_task sample_config ''s'' ''10'' ?s = (Inr out, started ''pass'')"
    unfolding started_def is_ok_iff by (metis prod.collapse)
  have p: "c_parse_uuid sample_config ''10'' = Some 10" by (simp add: sample_config_def)
  have "mem_status (started ''pass'') 10 = Some ''active''" by code_simp
  with start_task_gate [OF out p] show ?thesis by blast
qed

section \<open>Claims of tasks\<close>

text \<open>
  A \<open>create_task\<close> that fails because its write paths conflict still leaves the child behind: it is
  registered under the parent in state \<open>created\<close>, without a claim. The caller never learns its
  identifier, and from then on \<open>end_task\<close> of the parent raises \<open>ToolError\<close> because a subtask is
  not complete.
\<close>

theorem conflicting_child_blocks_parent:
  assumes "handle_create_task c session_id p s = (Inl e, s')"
    and "dict_get (s_active_tasks s) session_id = Some parent" "\<not> s_budget_blocked s"
    and "dict_get (s_task_specs s) parent \<noteq> None"
  shows "e = ToolError \<and>
    (\<exists>child \<in> set (get_or_empty (s_task_children s') parent). mem_status s' child = Some ''created'') \<and>
    handle_end_task c session_id msg s' = (Inl ToolError, s')"
proof -
  define t where "t = c_ids c (s_tick s)"
  obtain s1 where t: "trace_create_task c (Some parent) (ct_name p) ''agent'' None s = (Inr t, s1)"
    "s_active_tasks s1 = s_active_tasks s" "s_task_specs s1 = s_task_specs s"
    by (simp add: trace_create_task_def create_task_def t_def)
  let ?s2 = "register_child parent t (created_spec c p) s1"
  have "s' = ?s2 \<and> e = ToolError"
    using assms(1-3) t(1)
    by (auto simp: handle_create_task_def check_active_task_def bindS_def modifyS_def returnS_def claim_paths_def
        split: option.splits list.splits sum.splits)
  then have s': "s' = ?s2" and e: "e = ToolError" by auto
  have child: "t \<in> set (get_or_empty (s_task_children s') parent)" "mem_status s' t = Some ''created''"
    "s_active_tasks s' = s_active_tasks s" "dict_get (s_task_specs s') parent \<noteq> None"
    using t(2,3) assms(4) by (auto simp: s' register_child_def add_child_def get_or_empty_def mem_status_def)
  then have "t \<in> set (incomplete_children parent s')" by (simp add: incomplete_children_def mem_status_def)
  then have "incomplete_children parent s' \<noteq> []" by auto
  then have "handle_end_task c session_id msg s' = (Inl ToolError, s')"
    using child assms(2) by (auto simp: handle_end_task_def bindS_def check_active_task_def raiseS_def)
  with child(1,2) e show ?thesis by blast
qed

definition sample_params :: "string \<Rightarrow> create_task_params" where
  "sample_params path =
     \<lparr>ct_name = ''child'', ct_agent = ''a'', ct_task_prompt = ''p'', ct_prechecks = [], ct_postchecks = [],
      ct_timeout = 5, ct_context_refinement = False, ct_budget = None, ct_write_paths = Some [path],
      ct_category = None, ct_retry = 0, ct_retry_resume = None, ct_retry_inject_failure = None\<rparr>"

definition busy_sched :: sched where
  "busy_sched = (started ''pass'')\<lparr>s_claims := [(5, [''/w''])]\<rparr>"

theorem conflicting_child_blocks_parent_witness:
  "\<exists>s'. handle_create_task sample_config ''s'' (sample_params ''/w/sub'') busy_sched = (Inl ToolError, s') \<and>
     handle_end_task sample_config ''s'' ''done'' s' = (Inl ToolError, s')"
proof -
  have a: "dict_get (s_active_tasks busy_sched) ''s'' = Some 10" by code_simp
  have b: "\<not> s_budget_blocked busy_sched" by code_simp
  have sp: "dict_get (s_task_specs busy_sched) 10 \<noteq> None" by code_simp
  have cl: "s_claims busy_sched = [(5, [''/w''])]" by (simp add: busy_sched_def)
  have cf: "check_conflict [(5, [''/w''])] [''/w/sub''] = Some 5" by code_simp
  have wp: "ts_write_paths (spec_fields (created_spec sample_config (sample_params ''/w/sub''))) = Some [''/w/sub'']"
    by (simp add: created_spec_def sample_params_def first_some_def Let_def)
  obtain r s' where r: "handle_create_task sample_config ''s'' (sample_params ''/w/sub'') busy_sched = (r, s')" by force
  then have "r = Inl ToolError"
    using a b cl cf wp
    by (auto simp: handle_create_task_def check_active_task_def bindS_def trace_create_task_def create_task_def modifyS_def
        register_child_def add_child_def claim_paths_def claim_def)
  with r have h: "handle_create_task sample_config ''s'' (sample_params ''/w/sub'') busy_sched = (Inl ToolError, s')" by simp
  from conflicting_child_blocks_parent [OF h a b sp] h show ?thesis by blast
qed

text \<open>
  When a \<open>for_each\<close> task stops on a failed iteration, recording it fails: the task is active,
  and the move from \<open>active\<close> to \<open>postcheck_failed\<close> is not in the transition table, so
  \<open>InvalidTransitionError\<close> is raised with the scheduler at \<open>postcheck_failed\<close> and the trace at \<open>active\<close>.
\<close>

theorem for_each_abort_raises:
  assumes "trace_status s t = Some ''active''"
  shows "\<exists>s'. for_each_aborted c t s = (Inl InvalidTransitionError, s') \<and>
    mem_status s' t = Some ''postcheck_failed'' \<and> trace_status s' t = Some ''active''"
proof -
  have "\<not> task_step ''active'' ''postcheck_failed''"
    by (simp add: validate_task_transition_def TASK_TERMINAL_STATES_def TASK_TRANSITIONS_def dict_get_def)
  from move_task_invalid [OF assms this, of c] assms show ?thesis by (simp add: for_each_aborted_def)
qed

theorem for_each_abort_raises_witness:
  "\<exists>s'. for_each_aborted sample_config 10 (started ''pass'') = (Inl InvalidTransitionError, s')"
proof -
  have "trace_status (started ''pass'') 10 = Some ''active''" by code_simp
  from for_each_abort_raises [OF this] show ?thesis by blast
qed

section \<open>Pause\<close>

text \<open>
  Pausing a run whose control callback is subscribed always raises: \<open>pause\<close> records
  \<open>running\<close> to \<open>paused\<close>, the callback pauses again, and \<open>paused\<close> to \<open>paused\<close> is refused. The caller sees
  \<open>InvalidTransitionError\<close> although the run is paused in the trace and the scheduler stops admitting tasks.
\<close>

theorem pause_reenters:
  assumes "run_status c s = Some ''running''" "dict_get (db_control_callbacks (s_db s)) (config.c_run_id c) \<noteq> None"
  shows "\<exists>s'. pause c s = (Inl InvalidTransitionError, s') \<and> s_paused s' \<and> run_status c s' = Some ''paused''"
proof -
  obtain run where run: "dict_get (db_runs (s_db s)) (config.c_run_id c) = Some run" "r_status run = ''running''"
    using assms(1) by (auto simp: run_status_def)
  have ok: "validate_run_transition ''running'' ''paused'' = Inr ()"
    by (simp add: validate_run_transition_def RUN_TERMINAL_STATES_def RUN_TRANSITIONS_def dict_get_def)
  obtain cb s1 where s1: "trace_run_transition c ''paused'' (cancel_running (s\<lparr>s_paused := True\<rparr>)) = (Inr (Some cb), s1)"
    using run ok assms(2) by (fastforce simp: trace_run_transition_def transition_run_def Let_def cancel_running_def)
  have st: "run_status c s1 = Some ''paused''" using trace_run_transition_status [OF s1] by simp
  let ?s2 = "cancel_running (s1\<lparr>s_paused := True\<rparr>)"
  have "trace_run_transition c ''paused'' ?s2 = (Inl InvalidTransitionError, ?s2)"
    using run_already_paused st
    by (auto simp: run_status_def trace_run_transition_def transition_run_def Let_def cancel_running_def split: option.splits)
  then have "pause c s1 = (Inl InvalidTransitionError, ?s2)" by (simp add: pause.simps)
  then have "pause c s = (Inl InvalidTransitionError, ?s2)" using s1 by (simp add: pause.simps [of c s])
  then show ?thesis using st by (simp add: run_status_def cancel_running_def)
qed

definition running_sched :: sched where
  "running_sched = idle_sched\<lparr>s_db := fst (subscribe_run_control 7 3
     (case transition_run 20 0 0 7 ''running'' None 8 (snd (projr (create_run 0 ''i'' [] ''high'' 7 8 empty_db))) of Inr (db, _) \<Rightarrow> db | Inl _ \<Rightarrow> empty_db))\<rparr>"

theorem pause_reenters_witness:
  "\<exists>s'. pause sample_config running_sched = (Inl InvalidTransitionError, s') \<and> run_status sample_config s' = Some ''paused''"
proof -
  have "run_status sample_config running_sched = Some ''running''" by code_simp
  moreover have "dict_get (db_control_callbacks (s_db running_sched)) (config.c_run_id sample_config) \<noteq> None" by code_simp
  ultimately show ?thesis using pause_reenters by blast
qed

section \<open>Budget\<close>

fun accumulate_all :: "config \<Rightarrow> uuid \<Rightarrow> task_spec \<Rightarrow> usage list \<Rightarrow> unit op" where
  "accumulate_all c t task [] = returnS ()"
| "accumulate_all c t task (u # us) = bindS (accumulate_cost c t task u) (\<lambda>_. accumulate_all c t task us)"

definition warnings :: "uuid \<Rightarrow> sched \<Rightarrow> nat" where
  "warnings t s = length (filter (\<lambda>e. be_task_id e = t) (s_threshold_events s))"

definition blocks_new :: "config \<Rightarrow> bool" where
  "blocks_new c = (c_policy c \<in> {BLOCK_NEW, TIMEOUT_GRACE})"

lemma enforce_policy_fields [simp]:
  "s_budget_blocked (enforce_policy c s) = (s_budget_blocked s \<or> blocks_new c)"
  "s_task_costs (enforce_policy c s) = s_task_costs s" "s_threshold_events (enforce_policy c s) = s_threshold_events s"
  by (cases "c_policy c"; simp add: enforce_policy_def blocks_new_def)+

lemma apply_budget_fields:
  "s_task_costs (apply_budget c t n b k sp s) = s_task_costs s"
  "s_budget_blocked (apply_budget c t n b k sp s) = (s_budget_blocked s \<or> (sp \<ge> b \<and> blocks_new c))"
  "warnings t (apply_budget c t n b k sp s) = warnings t s + (if sp \<ge> b * (4 / 5) \<and> sp - k < b * (4 / 5) then 1 else 0)"
  by (auto simp: apply_budget_def Let_def warnings_def)

lemma accumulate_cost_step:
  assumes "resolve_model_key c task = Some mk" "effective_budget c task = Some b"
    and "dict_get (s_task_costs s) t = Some old" "compute_cost_usd mk u (c_pricing c) = Inr k"
  shows "\<exists>s'. accumulate_cost c t task u s = (Inr (), s') \<and> dict_get (s_task_costs s') t = Some (old + k) \<and>
    s_budget_blocked s' = (s_budget_blocked s \<or> (old + k \<ge> b \<and> blocks_new c)) \<and>
    warnings t s' = warnings t s + (if old + k \<ge> b * (4 / 5) \<and> old < b * (4 / 5) then 1 else 0)"
  using assms by (auto simp: accumulate_cost_def returnS_def Let_def apply_budget_fields) (simp_all add: warnings_def)

lemma sum_costs_nonneg:
  "\<forall>u \<in> set us. \<exists>k \<ge> 0. compute_cost_usd mk u ex = Inr k \<Longrightarrow> \<exists>total \<ge> 0. sum_costs mk ex us = Inr total"
  by (induction us) force+

lemma accumulate_all_budget:
  assumes mk: "resolve_model_key c task = Some mk" and b: "effective_budget c task = Some b"
  shows "dict_get (s_task_costs s) t = Some old \<Longrightarrow> \<forall>u \<in> set us. \<exists>k \<ge> 0. compute_cost_usd mk u (c_pricing c) = Inr k \<Longrightarrow>
    \<exists>total s'. sum_costs mk (c_pricing c) us = Inr total \<and> accumulate_all c t task us s = (Inr (), s') \<and>
      dict_get (s_task_costs s') t = Some (old + total) \<and>
      s_budget_blocked s' = (s_budget_blocked s \<or> (us \<noteq> [] \<and> old + total \<ge> b \<and> blocks_new c)) \<and>
      warnings t s' = warnings t s + (if old < b * (4 / 5) \<and> old + total \<ge> b * (4 / 5) then 1 else 0)"
proof (induction us arbitrary: s old)
  case (Cons u us)
  from Cons.prems(2) obtain k where k: "k \<ge> 0" "compute_cost_usd mk u (c_pricing c) = Inr k" by auto
  from accumulate_cost_step [OF mk b Cons.prems(1) k(2)] obtain s1 where
    s1: "accumulate_cost c t task u s = (Inr (), s1)" "dict_get (s_task_costs s1) t = Some (old + k)"
    "s_budget_blocked s1 = (s_budget_blocked s \<or> (old + k \<ge> b \<and> blocks_new c))"
    "warnings t s1 = warnings t s + (if old + k \<ge> b * (4 / 5) \<and> old < b * (4 / 5) then 1 else 0)" by blast
  from Cons.IH [OF s1(2)] Cons.prems(2) obtain total s' where
    t: "sum_costs mk (c_pricing c) us = Inr total" "accumulate_all c t task us s1 = (Inr (), s')"
    "dict_get (s_task_costs s') t = Some (old + k + total)"
    "s_budget_blocked s' = (s_budget_blocked s1 \<or> (us \<noteq> [] \<and> old + k + total \<ge> b \<and> blocks_new c))"
    "warnings t s' = warnings t s1 + (if old + k < b * (4 / 5) \<and> old + k + total \<ge> b * (4 / 5) then 1 else 0)" by auto
  have "total \<ge> 0" using sum_costs_nonneg [of us mk "c_pricing c"] Cons.prems(2) t(1) by auto
  moreover have "us = [] \<Longrightarrow> total = 0" using t(1) by simp
  ultimately show ?case using s1 t k
    by (intro exI [of _ "k + total"] exI [of _ s']) (auto simp: bindS_def add.assoc)
qed (simp add: returnS_def)

text \<open>
  C36. Budget accounting over any number of turns with non-negative costs: the task's cost becomes
  its old cost plus the price of the turns; the 80% warning is queued exactly once, when the cost first
  reaches 80% of the budget; and under the policies \<open>block_new\<close> and \<open>timeout_grace\<close>, once the cost
  has reached the budget, every \<open>create_task\<close> raises \<open>ToolError\<close> and changes nothing.
\<close>

theorem budget_enforced:
  assumes "resolve_model_key c task = Some mk" "effective_budget c task = Some b"
    and "dict_get (s_task_costs s) t = Some old" "us \<noteq> []"
    and "\<forall>u \<in> set us. \<exists>k \<ge> 0. compute_cost_usd mk u (c_pricing c) = Inr k"
  shows "\<exists>total s'. sum_costs mk (c_pricing c) us = Inr total \<and> accumulate_all c t task us s = (Inr (), s') \<and>
    dict_get (s_task_costs s') t = Some (old + total) \<and>
    warnings t s' = warnings t s + (if old < b * (4 / 5) \<and> old + total \<ge> b * (4 / 5) then 1 else 0) \<and>
    (old + total \<ge> b \<and> c_policy c \<in> {BLOCK_NEW, TIMEOUT_GRACE} \<longrightarrow>
       (\<forall>sid p. handle_create_task c sid p s' = (Inl ToolError, s')))"
proof -
  have blocked: "handle_create_task c sid p s' = (Inl ToolError, s')" if "s_budget_blocked s'" for s' sid p
    using that by (auto simp: handle_create_task_def bindS_def check_active_task_def raiseS_def split: option.split)
  from accumulate_all_budget [OF assms(1-3,5)] assms(4) show ?thesis
    unfolding blocks_new_def by (metis blocked)
qed

definition budget_config :: config where
  "budget_config = sample_config\<lparr>c_agents := [(''a'', \<lparr>ag_name = ''a'', ag_description = [], ag_prompt = [], ag_category = None,
     ag_provider = Some ''openai'', ag_model = Some ''gpt-4o'', ag_allow = [], ag_deferred = [], ag_budget = Some 20,
     ag_write_paths = None, ag_timeout = None\<rparr>)]\<rparr>"

theorem budget_enforced_witness:
  "\<exists>s'. accumulate_all budget_config 10 (TaskSpec ((task_defaults ''t'')\<lparr>ts_agent := Some ''a''\<rparr>) [] [] None)
      [\<lparr>input_tokens = 10000000, output_tokens = 0, reasoning_tokens = 0, cache_read_tokens = 0, cache_write_tokens = 0\<rparr>]
      (idle_sched\<lparr>s_task_costs := [(10, 0)]\<rparr>) = (Inr (), s') \<and>
    (\<forall>sid p. handle_create_task budget_config sid p s' = (Inl ToolError, s'))"
proof -
  let ?task = "TaskSpec ((task_defaults ''t'')\<lparr>ts_agent := Some ''a''\<rparr>) [] [] None"
  let ?u = "\<lparr>input_tokens = 10000000, output_tokens = 0, reasoning_tokens = 0, cache_read_tokens = 0, cache_write_tokens = 0\<rparr> :: usage"
  have mk: "resolve_model_key budget_config ?task = Some ''openai/gpt-4o''"
    by (simp add: resolve_model_key_def budget_config_def dict_get_def)
  have b: "effective_budget budget_config ?task = Some 20"
    by (simp add: effective_budget_def budget_config_def first_some_def truthy_def task_defaults_def dict_get_def)
  have k: "compute_cost_usd ''openai/gpt-4o'' ?u (c_pricing budget_config) = Inr 25"
    by (simp add: compute_cost_usd_def lookup_rates_def PRICING_TABLE_def rates_def dict_get_def budget_config_def sample_config_def)
  have old: "dict_get (s_task_costs (idle_sched\<lparr>s_task_costs := [(10, 0)]\<rparr>)) 10 = Some 0" by (simp add: dict_get_def)
  have pol: "c_policy budget_config = BLOCK_NEW" by (simp add: budget_config_def sample_config_def)
  have tot: "sum_costs ''openai/gpt-4o'' (c_pricing budget_config) [?u] = Inr 25" using k by simp
  from budget_enforced [OF mk b old, of "[?u]"] k tot pol show ?thesis by auto
qed

end
