(* ===== verification/Dispatch.thy ===== *)
theory Dispatch
  imports Prelude
begin

text \<open>
  Event dispatch: the in-memory backend (\<open>dispatch/_memory_backend.py\<close>), subscription matching and transient
  delivery (\<open>dispatch/_delivery.py\<close>), the execution of actions (\<open>dispatch/_action_executor.py\<close>) and the
  worker that polls events, matches subscriptions, runs actions and advances its cursor
  (\<open>dispatch/_dispatch_worker.py\<close>).

  Imported functions, the workflow executor and the notification port are the parameter \<open>ports\<close>; they act on a world \<open>'w\<close> of
  their own and on the list of the events that a call writes, which are appended to the log the worker polls; the callback of an event
  action writes its event there too. An exception that is not an \<open>Exception\<close> (the cancellation of a run that a workflow action
  started) leaves the worker. Subscriptions and actions are not changed by a call. The worker's LISTEN/NOTIFY wake-up and its inbox
  sweep are not modelled; a stop request is the argument \<open>stop\<close> of a poll.
\<close>

section \<open>Data\<close>

datatype action =
    ScriptAction string
  | LogAction string string
  | WorkflowAction string jobj
  | EventAction string jobj string
  | NotifyAction uuid string jobj

record filter_predicate =
  fp_event_types :: "string list option"
  fp_sources :: "string list option"
  fp_principal_id :: "uuid option"
  fp_data_predicates :: "jobj option"

record subscription =
  sub_id :: uuid
  sub_filter :: filter_predicate
  sub_enabled :: bool
  sub_storage :: string
  sub_principal_id :: uuid
  sub_created_at :: time

record accumulator_config =
  ac_threshold :: int
  ac_flush_interval :: int

record subscription_action =
  sa_id :: uuid
  sa_subscription_id :: uuid
  sa_position :: int
  sa_action :: action
  sa_accumulator :: "accumulator_config option"
  sa_created_at :: time

record source =
  so_id :: uuid
  so_slug :: string
  so_name :: string
  so_credential_id :: "uuid option"
  so_config :: "jobj option"
  so_created_by :: uuid
  so_created_at :: time

record accumulator_entry =
  en_id :: uuid
  en_action_id :: uuid
  en_event_id :: uuid
  en_created_at :: time

record event =
  ev_id :: uuid
  ev_type :: string
  ev_principal_id :: "uuid option"
  ev_data :: "jobj option"

record dispatch_db =
  dd_sources :: "(uuid, source) dict"
  dd_subscriptions :: "(uuid, subscription) dict"
  dd_actions :: "(uuid, subscription_action) dict"
  dd_accumulator :: "(uuid, accumulator_entry) dict"
  dd_claimed :: "uuid list"
  dd_cursors :: "(string, uuid) dict"
  dd_completions :: "(uuid \<times> uuid) list"
  dd_events :: "event list"

definition empty_dispatch :: dispatch_db where
  "empty_dispatch = \<lparr>dd_sources = [], dd_subscriptions = [], dd_actions = [], dd_accumulator = [], dd_claimed = [],
     dd_cursors = [], dd_completions = [], dd_events = []\<rparr>"

section \<open>The backend\<close>

definition create_source :: "source \<Rightarrow> dispatch_db \<Rightarrow> (uuid \<times> dispatch_db) result" where
  "create_source so db =
     (if list_ex (\<lambda>existing. so_slug existing = so_slug so) (dict_values (dd_sources db)) then Inl ValueError
      else Inr (so_id so, db\<lparr>dd_sources := dict_set (so_id so) so (dd_sources db)\<rparr>))"

definition get_source :: "uuid \<Rightarrow> dispatch_db \<Rightarrow> source option" where
  "get_source source_id db = dict_get (dd_sources db) source_id"

definition get_source_by_slug :: "string \<Rightarrow> dispatch_db \<Rightarrow> source option" where
  "get_source_by_slug slug db = find (\<lambda>so. so_slug so = slug) (dict_values (dd_sources db))"

definition list_sources :: "dispatch_db \<Rightarrow> source list" where
  "list_sources db = dict_values (dd_sources db)"

definition delete_source :: "uuid \<Rightarrow> dispatch_db \<Rightarrow> dispatch_db" where
  "delete_source source_id db = db\<lparr>dd_sources := dict_pop source_id (dd_sources db)\<rparr>"

definition create_subscription :: "subscription \<Rightarrow> dispatch_db \<Rightarrow> uuid \<times> dispatch_db" where
  "create_subscription sub db = (sub_id sub, db\<lparr>dd_subscriptions := dict_set (sub_id sub) sub (dd_subscriptions db)\<rparr>)"

definition get_subscription :: "uuid \<Rightarrow> dispatch_db \<Rightarrow> subscription option" where
  "get_subscription i db = dict_get (dd_subscriptions db) i"

definition list_subscriptions :: "bool \<Rightarrow> uuid option \<Rightarrow> dispatch_db \<Rightarrow> subscription list" where
  "list_subscriptions enabled_only principal_id db =
     filter (\<lambda>sub. (enabled_only \<longrightarrow> sub_enabled sub) \<and> (principal_id \<noteq> None \<longrightarrow> principal_id = Some (sub_principal_id sub)))
       (dict_values (dd_subscriptions db))"

definition update_subscription :: "uuid \<Rightarrow> bool \<Rightarrow> dispatch_db \<Rightarrow> dispatch_db result" where
  "update_subscription i enabled db =
     (case dict_get (dd_subscriptions db) i of
        None \<Rightarrow> Inl KeyError
      | Some sub \<Rightarrow> Inr (db\<lparr>dd_subscriptions := dict_set i (sub\<lparr>sub_enabled := enabled\<rparr>) (dd_subscriptions db)\<rparr>))"

definition delete_subscription :: "uuid \<Rightarrow> dispatch_db \<Rightarrow> dispatch_db" where
  "delete_subscription i db = db\<lparr>dd_subscriptions := dict_pop i (dd_subscriptions db)\<rparr>"

definition create_action :: "subscription_action \<Rightarrow> dispatch_db \<Rightarrow> uuid \<times> dispatch_db" where
  "create_action a db = (sa_id a, db\<lparr>dd_actions := dict_set (sa_id a) a (dd_actions db)\<rparr>)"

definition list_actions :: "uuid \<Rightarrow> dispatch_db \<Rightarrow> subscription_action list" where
  "list_actions i db = sort_key sa_position (filter (\<lambda>a. sa_subscription_id a = i) (dict_values (dd_actions db)))"

definition delete_actions :: "uuid \<Rightarrow> dispatch_db \<Rightarrow> dispatch_db" where
  "delete_actions i db = db\<lparr>dd_actions := filter (\<lambda>(aid, a). sa_subscription_id a \<noteq> i) (dd_actions db)\<rparr>"

definition buffer_event :: "accumulator_entry \<Rightarrow> dispatch_db \<Rightarrow> uuid \<times> dispatch_db" where
  "buffer_event e db = (en_id e, db\<lparr>dd_accumulator := dict_set (en_id e) e (dd_accumulator db)\<rparr>)"

definition claim_batch :: "uuid \<Rightarrow> nat \<Rightarrow> dispatch_db \<Rightarrow> accumulator_entry list \<times> dispatch_db" where
  "claim_batch action_id limit db =
     (let unclaimed = filter (\<lambda>e. en_action_id e = action_id \<and> en_id e \<notin> set (dd_claimed db)) (dict_values (dd_accumulator db));
          batch = take limit (sort_key en_created_at unclaimed)
      in (batch, db\<lparr>dd_claimed := fold (\<lambda>e cs. List.insert (en_id e) cs) batch (dd_claimed db)\<rparr>))"

definition confirm_batch :: "uuid list \<Rightarrow> dispatch_db \<Rightarrow> dispatch_db" where
  "confirm_batch entry_ids db =
     db\<lparr>dd_accumulator := fold dict_pop entry_ids (dd_accumulator db),
        dd_claimed := filter (\<lambda>i. i \<notin> set entry_ids) (dd_claimed db)\<rparr>"

definition pending_count :: "uuid \<Rightarrow> dispatch_db \<Rightarrow> int" where
  "pending_count action_id db = int (length (filter (\<lambda>e. en_action_id e = action_id) (dict_values (dd_accumulator db))))"

definition get_cursor_position :: "string \<Rightarrow> dispatch_db \<Rightarrow> uuid option" where
  "get_cursor_position cursor_name db = dict_get (dd_cursors db) cursor_name"

definition advance_cursor :: "string \<Rightarrow> uuid \<Rightarrow> dispatch_db \<Rightarrow> dispatch_db" where
  "advance_cursor cursor_name event_id db = db\<lparr>dd_cursors := dict_set cursor_name event_id (dd_cursors db)\<rparr>"

definition is_action_completed :: "uuid \<Rightarrow> uuid \<Rightarrow> dispatch_db \<Rightarrow> bool" where
  "is_action_completed event_id action_id db = ((event_id, action_id) \<in> set (dd_completions db))"

definition record_completion :: "uuid \<Rightarrow> uuid \<Rightarrow> string \<Rightarrow> dispatch_db \<Rightarrow> dispatch_db" where
  "record_completion event_id action_id result_status db =
     db\<lparr>dd_completions := List.insert (event_id, action_id) (dd_completions db)\<rparr>"

text \<open>The loop of \<open>poll_events_since\<close>: nothing is returned before the cursor's event has been met.\<close>

fun after_event :: "uuid \<Rightarrow> event list \<Rightarrow> event list" where
  "after_event since [] = []"
| "after_event since (e # es) = (if ev_id e = since then es else after_event since es)"

definition poll_events_since :: "uuid option \<Rightarrow> nat \<Rightarrow> dispatch_db \<Rightarrow> event list" where
  "poll_events_since since_id limit db =
     (case since_id of
        None \<Rightarrow> take limit (dd_events db)
      | Some i \<Rightarrow> take (max 1 limit) (after_event i (dd_events db)))"

definition inject_event :: "event \<Rightarrow> dispatch_db \<Rightarrow> dispatch_db" where
  "inject_event e db = db\<lparr>dd_events := dd_events db @ [e]\<rparr>"

section \<open>Transient delivery\<close>

text \<open>
  A waiter is a future: pending, or done with a payload. The registry keeps, per event name, the
  waiters that have registered since the event last fired.
\<close>

record delivery =
  dl_listeners :: "(string, nat list) dict"
  dl_results :: "(nat, jobj option) dict"

definition register_waiter :: "string \<Rightarrow> nat \<Rightarrow> delivery \<Rightarrow> delivery" where
  "register_waiter event_name fut d =
     d\<lparr>dl_listeners := dict_set event_name
         ((case dict_get (dl_listeners d) event_name of None \<Rightarrow> [] | Some fs \<Rightarrow> fs) @ [fut]) (dl_listeners d)\<rparr>"

fun resolve_futures :: "nat list \<Rightarrow> jobj option \<Rightarrow> (nat, jobj option) dict \<Rightarrow> (nat, jobj option) dict" where
  "resolve_futures [] payload rs = rs"
| "resolve_futures (f # fs) payload rs =
     resolve_futures fs payload (if dict_get rs f = None then dict_set f payload rs else rs)"

definition fire :: "string \<Rightarrow> jobj option \<Rightarrow> delivery \<Rightarrow> delivery" where
  "fire event_name payload d =
     d\<lparr>dl_results := resolve_futures (case dict_get (dl_listeners d) event_name of None \<Rightarrow> [] | Some fs \<Rightarrow> fs) payload (dl_results d),
       dl_listeners := dict_pop event_name (dl_listeners d)\<rparr>"

definition match_subscription :: "string \<Rightarrow> uuid option \<Rightarrow> filter_predicate \<Rightarrow> (string list \<Rightarrow> uuid list) \<Rightarrow> bool" where
  "match_subscription event_type principal_id fp resolve_source_principals =
     (if (case fp_event_types fp of None \<Rightarrow> False | Some ts \<Rightarrow> event_type \<notin> set ts) then False
      else if fp_principal_id fp \<noteq> None \<and> principal_id \<noteq> fp_principal_id fp then False
      else (case fp_sources fp of
              None \<Rightarrow> True
            | Some slugs \<Rightarrow>
                (case principal_id of None \<Rightarrow> False | Some p \<Rightarrow> p \<in> set (resolve_source_principals slugs))))"

section \<open>Actions\<close>

text \<open>
  A script call: the module or the function is missing, or it runs and may raise. The three optional
  collaborators are \<open>None\<close> when not provided.
\<close>

datatype call_outcome = NoModule | NoFunction | Raises exn | Done

record 'w ports =
  p_script :: "string \<Rightarrow> string \<Rightarrow> jobj list \<Rightarrow> 'w \<Rightarrow> call_outcome \<times> 'w"
  p_log :: "string \<Rightarrow> string \<Rightarrow> nat \<Rightarrow> 'w \<Rightarrow> 'w"
  p_workflow :: "(string \<Rightarrow> jobj \<Rightarrow> jobj list \<Rightarrow> 'w \<Rightarrow> unit result \<times> 'w) option"
  p_event :: "(string \<Rightarrow> jobj option \<Rightarrow> uuid \<Rightarrow> 'w \<Rightarrow> unit result \<times> 'w) option"
  p_notify :: "(uuid \<Rightarrow> string \<Rightarrow> jobj \<Rightarrow> 'w \<Rightarrow> unit result \<times> 'w) option"

definition run_script_action :: "'w ports \<Rightarrow> string \<Rightarrow> jobj list \<Rightarrow> 'w \<Rightarrow> unit result \<times> 'w" where
  "run_script_action ports path events w =
     (case split_on CHR '':'' path of
        [module_path, func_name] \<Rightarrow>
          (case p_script ports module_path func_name events w of
             (NoModule, w') \<Rightarrow> (Inl ImportError, w')
           | (NoFunction, w') \<Rightarrow> (Inl AttributeError, w')
           | (Raises e, w') \<Rightarrow> (Inl e, w')
           | (Done, w') \<Rightarrow> (Inr (), w'))
      | _ \<Rightarrow> (Inl ValueError, w))"

definition execute_action :: "'w ports \<Rightarrow> uuid \<Rightarrow> action \<Rightarrow> jobj list \<Rightarrow> 'w \<Rightarrow> unit result \<times> 'w" where
  "execute_action ports owner act events w =
     (case act of
        ScriptAction path \<Rightarrow> run_script_action ports path events w
      | LogAction msg level \<Rightarrow> (Inr (), p_log ports level msg (length events) w)
      | WorkflowAction path cfg \<Rightarrow>
          (case p_workflow ports of None \<Rightarrow> (Inl RuntimeError, w) | Some f \<Rightarrow> f path cfg events w)
      | EventAction ty data src \<Rightarrow>
          (case p_event ports of None \<Rightarrow> (Inl RuntimeError, w) | Some f \<Rightarrow> f ty (if data = [] then None else Some data) owner w)
      | NotifyAction target ref payload \<Rightarrow>
          (case p_notify ports of None \<Rightarrow> (Inl RuntimeError, w) | Some f \<Rightarrow> f target ref payload w))"

section \<open>The worker\<close>

record 'w worker_env =
  we_ports :: "('w \<times> event list) ports"
  we_cursor_name :: string
  we_batch_size :: nat
  we_resolver :: "string list \<Rightarrow> uuid list"
  we_ids :: "nat \<Rightarrow> uuid"
  we_clock :: "nat \<Rightarrow> time"
  we_isoformat :: "time \<Rightarrow> string"

text \<open>
  The worker's state: the backend, the world of the actions, the flushes it has scheduled, and
  the calls of \<open>execute_action\<close> it has made (an observation the theorems speak about).
\<close>

record 'w worker =
  wk_db :: dispatch_db
  wk_world :: 'w
  wk_scheduled :: "(int \<times> subscription_action \<times> uuid) list"
  wk_calls :: "(action \<times> jobj list) list"
  wk_tick :: nat

text \<open>The callback of an event action: the new event belongs to the owner of the subscription.\<close>

definition event_fire_callback :: "uuid \<Rightarrow> string \<Rightarrow> jobj option \<Rightarrow> uuid \<Rightarrow> 'w \<times> event list \<Rightarrow> unit result \<times> ('w \<times> event list)" where
  "event_fire_callback new_id event_type data owner st =
     (Inr (), fst st,
      snd st @ [\<lparr>ev_id = new_id, ev_type = event_type, ev_principal_id = Some owner, ev_data = Some (case data of None \<Rightarrow> [] | Some d \<Rightarrow> d)\<rparr>])"

definition worker_ports :: "'w worker_env \<Rightarrow> uuid \<Rightarrow> ('w \<times> event list) ports" where
  "worker_ports env new_id = (we_ports env)\<lparr>p_event := Some (event_fire_callback new_id)\<rparr>"

definition call_action :: "'w worker_env \<Rightarrow> uuid \<Rightarrow> action \<Rightarrow> jobj list \<Rightarrow> 'w worker \<Rightarrow> unit result \<times> 'w worker" where
  "call_action env owner act events k =
     (let (r, w, written) = execute_action (worker_ports env (we_ids env (wk_tick k))) owner act events (wk_world k, [])
      in (r, k\<lparr>wk_world := w, wk_db := (wk_db k)\<lparr>dd_events := dd_events (wk_db k) @ written\<rparr>,
               wk_calls := wk_calls k @ [(act, events)], wk_tick := Suc (wk_tick k)\<rparr>))"

definition event_payload :: "event \<Rightarrow> jobj" where
  "event_payload ev =
     [(''event_type'', JStr (ev_type ev)),
      (''principal_id'', JStr (case ev_principal_id ev of None \<Rightarrow> [] | Some p \<Rightarrow> uuid_str p)),
      (''data'', JObj (case ev_data ev of None \<Rightarrow> [] | Some d \<Rightarrow> d)),
      (''event_id'', JStr (uuid_str (ev_id ev)))]"

definition execute_action_immediate :: "'w worker_env \<Rightarrow> subscription_action \<Rightarrow> event \<Rightarrow> uuid \<Rightarrow> 'w worker \<Rightarrow> unit result \<times> 'w worker" where
  "execute_action_immediate env sa ev owner k =
     (case call_action env owner (sa_action sa) [event_payload ev] k of
        (Inl e, k') \<Rightarrow> if except_Exception e then (Inr (), k') else (Inl e, k')
      | (Inr _, k') \<Rightarrow> (Inr (), k'))"

definition entry_payload :: "'w worker_env \<Rightarrow> accumulator_entry \<Rightarrow> jobj" where
  "entry_payload env e =
     [(''entry_id'', JStr (uuid_str (en_id e))), (''event_id'', JStr (uuid_str (en_event_id e))),
      (''created_at'', JStr (we_isoformat env (en_created_at e)))]"

definition flush_action :: "'w worker_env \<Rightarrow> subscription_action \<Rightarrow> uuid \<Rightarrow> 'w worker \<Rightarrow> unit result \<times> 'w worker" where
  "flush_action env sa owner k =
     (let (batch, db) = claim_batch (sa_id sa) 100 (wk_db k)
      in if batch = [] then (Inr (), k\<lparr>wk_db := db\<rparr>)
         else (case call_action env owner (sa_action sa) (map (entry_payload env) batch) (k\<lparr>wk_db := db\<rparr>) of
                 (Inl e, k') \<Rightarrow> if except_Exception e then (Inr (), k') else (Inl e, k')
               | (Inr _, k') \<Rightarrow> (Inr (), k'\<lparr>wk_db := confirm_batch (map en_id batch) (wk_db k')\<rparr>)))"

definition buffer_or_flush ::
  "'w worker_env \<Rightarrow> accumulator_config \<Rightarrow> subscription_action \<Rightarrow> event \<Rightarrow> uuid \<Rightarrow> 'w worker \<Rightarrow> unit result \<times> 'w worker" where
  "buffer_or_flush env cfg sa ev owner k =
     (let entry = \<lparr>en_id = we_ids env (wk_tick k), en_action_id = sa_id sa, en_event_id = ev_id ev, en_created_at = we_clock env (wk_tick k)\<rparr>;
          k1 = k\<lparr>wk_db := snd (buffer_event entry (wk_db k)), wk_tick := Suc (wk_tick k)\<rparr>
      in if ac_threshold cfg > 0 \<and> pending_count (sa_id sa) (wk_db k1) \<ge> ac_threshold cfg then flush_action env sa owner k1
         else if ac_flush_interval cfg > 0 then (Inr (), k1\<lparr>wk_scheduled := wk_scheduled k1 @ [(ac_flush_interval cfg, sa, owner)]\<rparr>)
         else (Inr (), k1))"

definition handle_action :: "'w worker_env \<Rightarrow> event \<Rightarrow> uuid \<Rightarrow> subscription_action \<Rightarrow> 'w worker \<Rightarrow> unit result \<times> 'w worker" where
  "handle_action env ev owner sa =
     (case sa_accumulator sa of
        Some cfg \<Rightarrow> buffer_or_flush env cfg sa ev owner
      | None \<Rightarrow> execute_action_immediate env sa ev owner)"

definition complete_action :: "event \<Rightarrow> subscription_action \<Rightarrow> 'w worker \<Rightarrow> 'w worker" where
  "complete_action ev sa k = k\<lparr>wk_db := record_completion (ev_id ev) (sa_id sa) ''success'' (wk_db k)\<rparr>"

fun run_actions :: "'w worker_env \<Rightarrow> event \<Rightarrow> uuid \<Rightarrow> subscription_action list \<Rightarrow> 'w worker \<Rightarrow> unit result \<times> 'w worker" where
  "run_actions env ev owner [] k = (Inr (), k)"
| "run_actions env ev owner (sa # rest) k =
     (if is_action_completed (ev_id ev) (sa_id sa) (wk_db k) then run_actions env ev owner rest k
      else bindS (handle_action env ev owner sa) (\<lambda>_ k1. run_actions env ev owner rest (complete_action ev sa k1)) k)"

fun run_subscriptions :: "'w worker_env \<Rightarrow> event \<Rightarrow> subscription list \<Rightarrow> 'w worker \<Rightarrow> unit result \<times> 'w worker" where
  "run_subscriptions env ev [] k = (Inr (), k)"
| "run_subscriptions env ev (sub # rest) k =
     (if match_subscription (ev_type ev) (ev_principal_id ev) (sub_filter sub) (we_resolver env)
      then bindS (run_actions env ev (sub_principal_id sub) (list_actions (sub_id sub) (wk_db k))) (\<lambda>_. run_subscriptions env ev rest) k
      else run_subscriptions env ev rest k)"

definition advance :: "'w worker_env \<Rightarrow> event \<Rightarrow> 'w worker \<Rightarrow> 'w worker" where
  "advance env ev k = k\<lparr>wk_db := advance_cursor (we_cursor_name env) (ev_id ev) (wk_db k)\<rparr>"

fun process_events ::
  "'w worker_env \<Rightarrow> subscription list \<Rightarrow> (nat \<Rightarrow> bool) \<Rightarrow> event list \<Rightarrow> nat \<Rightarrow> 'w worker \<Rightarrow> nat result \<times> 'w worker" where
  "process_events env subs stop [] n k = (Inr n, k)"
| "process_events env subs stop (ev # rest) n k =
     (if stop n then (Inr n, k)
      else bindS (run_subscriptions env ev subs) (\<lambda>_ k1. process_events env subs stop rest (Suc n) (advance env ev k1)) k)"

definition poll_and_process :: "'w worker_env \<Rightarrow> (nat \<Rightarrow> bool) \<Rightarrow> 'w worker \<Rightarrow> nat result \<times> 'w worker" where
  "poll_and_process env stop k =
     (let events = poll_events_since (get_cursor_position (we_cursor_name env) (wk_db k)) (we_batch_size env) (wk_db k)
      in if events = [] then (Inr 0, k)
         else process_events env (list_subscriptions True None (wk_db k)) stop events 0 k)"

section \<open>What a poll leaves alone, and what it records\<close>

definition feed :: "dispatch_db \<Rightarrow> (uuid, subscription) dict \<times> (uuid, subscription_action) dict \<times> (string, uuid) dict" where
  "feed db = (dd_subscriptions db, dd_actions db, dd_cursors db)"

abbreviation completions :: "'w worker \<Rightarrow> (uuid \<times> uuid) set" where
  "completions k \<equiv> set (dd_completions (wk_db k))"

definition grown :: "'w worker \<Rightarrow> 'w worker \<Rightarrow> bool" where
  "grown k k' \<longleftrightarrow> (\<exists>written. dd_events (wk_db k') = dd_events (wk_db k) @ written)"

lemma grown_refl [simp, intro]: "grown k k"
  by (simp add: grown_def)

lemma grown_trans [trans]: "grown k k1 \<Longrightarrow> grown k1 k2 \<Longrightarrow> grown k k2"
  by (auto simp: grown_def)

text \<open>
  An action is attempted for an event when it was called with the event, or, with an accumulator, when an entry for the event is in the
  buffer or was handed over in a call.
\<close>

definition buffered :: "'w worker_env \<Rightarrow> subscription_action \<Rightarrow> accumulator_entry \<Rightarrow> 'w worker \<Rightarrow> bool" where
  "buffered env sa e k \<longleftrightarrow>
     e \<in> set (dict_values (dd_accumulator (wk_db k))) \<or> (\<exists>evs. (sa_action sa, evs) \<in> set (wk_calls k) \<and> entry_payload env e \<in> set evs)"

definition attempted :: "'w worker_env \<Rightarrow> event \<Rightarrow> subscription_action \<Rightarrow> 'w worker \<Rightarrow> bool" where
  "attempted env ev sa k \<longleftrightarrow>
     (if sa_accumulator sa = None then (sa_action sa, [event_payload ev]) \<in> set (wk_calls k)
      else \<exists>e. en_event_id e = ev_id ev \<and> en_action_id e = sa_id sa \<and> buffered env sa e k)"

text \<open>The buffer has every entry under its identifier, and identifiers still to be drawn are not in it.\<close>

definition tidy :: "'w worker_env \<Rightarrow> 'w worker \<Rightarrow> bool" where
  "tidy env k \<longleftrightarrow> inj (we_ids env) \<and> dict_wf (dd_accumulator (wk_db k)) \<and>
     (\<forall>(i, e) \<in> set (dd_accumulator (wk_db k)). en_id e = i \<and> (\<forall>n \<ge> wk_tick k. we_ids env n \<noteq> i))"

text \<open>
  What handling an action may do: the log grows, subscriptions, actions, cursors and completion records stay, and nothing that was
  attempted is lost, for the actions \<open>A\<close> with distinct identifiers.
\<close>

definition acted :: "'w worker_env \<Rightarrow> subscription_action set \<Rightarrow> 'w worker \<Rightarrow> 'w worker \<Rightarrow> bool" where
  "acted env A k k' \<longleftrightarrow> grown k k' \<and> feed (wk_db k') = feed (wk_db k) \<and> dd_completions (wk_db k') = dd_completions (wk_db k) \<and>
     (tidy env k \<and> inj_on sa_id A \<longrightarrow>
        tidy env k' \<and> (\<forall>ev. \<forall>sa \<in> A. attempted env ev sa k \<longrightarrow> attempted env ev sa k'))"

lemma acted_refl [simp, intro]: "acted env A k k"
  by (simp add: acted_def)

lemma acted_trans: "acted env A k k1 \<Longrightarrow> acted env A k1 k2 \<Longrightarrow> acted env A k k2"
  unfolding acted_def using grown_trans by metis

lemma attempted_mono:
  assumes "attempted env ev sa k" "set (wk_calls k) \<subseteq> set (wk_calls k')"
    and "\<And>e. en_action_id e = sa_id sa \<Longrightarrow> e \<in> set (dict_values (dd_accumulator (wk_db k))) \<Longrightarrow> buffered env sa e k'"
  shows "attempted env ev sa k'"
proof (cases "sa_accumulator sa = None")
  case False
  then obtain e where e: "en_event_id e = ev_id ev" "en_action_id e = sa_id sa" "buffered env sa e k"
    using assms(1) by (auto simp: attempted_def)
  then have "buffered env sa e k'" using assms(2,3) unfolding buffered_def by blast
  then show ?thesis using False e by (auto simp: attempted_def)
qed (use assms(1,2) in \<open>auto simp: attempted_def\<close>)

lemma tidy_later: "tidy env k \<Longrightarrow> dd_accumulator (wk_db k') = dd_accumulator (wk_db k) \<Longrightarrow> wk_tick k \<le> wk_tick k' \<Longrightarrow> tidy env k'"
  unfolding tidy_def by (auto dest!: bspec)

lemma call_action_acted:
  assumes "call_action env ow act evs k = (r, k')"
  shows "acted env A k k'" "wk_calls k' = wk_calls k @ [(act, evs)]" "dd_accumulator (wk_db k') = dd_accumulator (wk_db k)"
    "dd_claimed (wk_db k') = dd_claimed (wk_db k)" "wk_tick k' = Suc (wk_tick k)"
proof -
  show c: "wk_calls k' = wk_calls k @ [(act, evs)]" "dd_accumulator (wk_db k') = dd_accumulator (wk_db k)"
    "dd_claimed (wk_db k') = dd_claimed (wk_db k)" "wk_tick k' = Suc (wk_tick k)"
    using assms by (auto simp: call_action_def Let_def split: prod.splits)
  have "grown k k'" "feed (wk_db k') = feed (wk_db k)" "dd_completions (wk_db k') = dd_completions (wk_db k)"
    using assms by (auto simp: call_action_def grown_def feed_def Let_def split: prod.splits)
  moreover have "tidy env k'" if "tidy env k" using tidy_later [OF that] c by simp
  moreover have "attempted env ev sa k'" if "attempted env ev sa k" for ev sa
    by (rule attempted_mono [OF that]) (auto simp: c buffered_def)
  ultimately show "acted env A k k'" by (simp add: acted_def)
qed

lemma claim_batch_frame:
  "claim_batch a n db = (b, db') \<Longrightarrow>
   db' = db\<lparr>dd_claimed := dd_claimed db'\<rparr> \<and> (\<forall>e \<in> set b. e \<in> set (dict_values (dd_accumulator db)) \<and> en_action_id e = a)"
  by (auto simp: claim_batch_def Let_def dest!: in_set_takeD)

lemma pops: "set (fold dict_pop ids d) = {(i, v). (i, v) \<in> set d \<and> i \<notin> set ids}"
proof (induction ids arbitrary: d)
  case (Cons a ids)
  then show ?case by (auto simp: dict_pop_def AList.delete_eq)
qed auto

lemma pops_wf: "dict_wf d \<Longrightarrow> dict_wf (fold dict_pop ids d)"
  by (induction ids arbitrary: d) (auto simp: dict_wf_def dict_pop_def distinct_delete)

lemma confirm_acted:
  assumes "k' = k\<lparr>wk_db := confirm_batch (map en_id b) (wk_db k)\<rparr>" "sa \<in> A"
    and "\<forall>e \<in> set b. e \<in> set (dict_values (dd_accumulator (wk_db k))) \<and> en_action_id e = sa_id sa"
    and "(sa_action sa, map (entry_payload env) b) \<in> set (wk_calls k)"
  shows "acted env A k k'"
proof -
  note acc = assms(1) [THEN arg_cong [of _ _ "\<lambda>k. dd_accumulator (wk_db k)"], unfolded confirm_batch_def, simplified]
  have "tidy env k'" if "tidy env k"
    using that assms(1) by (auto simp: tidy_def confirm_batch_def pops intro: pops_wf)
  moreover have "attempted env ev sa' k'" if t: "tidy env k" "inj_on sa_id A" "sa' \<in> A" "attempted env ev sa' k" for ev sa'
  proof (rule attempted_mono [OF t(4)])
    fix e assume e: "en_action_id e = sa_id sa'" "e \<in> set (dict_values (dd_accumulator (wk_db k)))"
    show "buffered env sa' e k'"
    proof (cases "en_id e \<in> en_id ` set b")
      case True
      then obtain e' where e': "e' \<in> set b" "en_id e' = en_id e" by auto
      then have "(en_id e, e') \<in> set (dd_accumulator (wk_db k))" "(en_id e, e) \<in> set (dd_accumulator (wk_db k))"
        using assms(3) e(2) t(1) by (fastforce simp: dict_values_def tidy_def)+
      then have same: "e' = e" using t(1) by (auto simp: tidy_def dict_wf_def dict_keys_def dest: eq_key_imp_eq_value)
      then have "sa' = sa" using assms(2,3) e(1) e'(1) t(2,3) by (metis inj_onD)
      moreover have "entry_payload env e \<in> set (map (entry_payload env) b)" using e'(1) same by auto
      ultimately show ?thesis using assms(1,4) unfolding buffered_def by (metis worker.select_convs(4) worker.surjective worker.update_convs(1))
    next
      case False
      have "(en_id e, e) \<in> set (dd_accumulator (wk_db k))" using e(2) t(1) by (fastforce simp: dict_values_def tidy_def)
      then have "(en_id e, e) \<in> set (dd_accumulator (wk_db k'))" using False by (auto simp: acc pops)
      then show ?thesis by (force simp: buffered_def dict_values_def)
    qed
  qed (use assms(1) in simp)
  ultimately show ?thesis using assms(1) by (simp add: acted_def grown_def feed_def confirm_batch_def)
qed

lemma claimed_acted: "acted env A k (k\<lparr>wk_db := (wk_db k)\<lparr>dd_claimed := cs\<rparr>\<rparr>)"
  by (auto simp: acted_def grown_def feed_def tidy_def attempted_def buffered_def)

lemma flush_acted:
  assumes "flush_action env sa ow k = (r, k')" "sa \<in> A"
  shows "acted env A k k'" "length (wk_calls k') \<le> Suc (length (wk_calls k))"
proof -
  obtain b db where b: "claim_batch (sa_id sa) 100 (wk_db k) = (b, db)" by force
  note f = claim_batch_frame [OF b]
  have c: "acted env A k (k\<lparr>wk_db := db\<rparr>)" using claimed_acted [of env A k "dd_claimed db"] f by simp
  have "acted env A k k' \<and> length (wk_calls k') \<le> Suc (length (wk_calls k))"
  proof (cases "b = []")
    case True
    then show ?thesis using assms b c by (auto simp: flush_action_def)
  next
    case False
    obtain r1 k1 where k1: "call_action env ow (sa_action sa) (map (entry_payload env) b) (k\<lparr>wk_db := db\<rparr>) = (r1, k1)" by force
    note a = call_action_acted [OF k1]
    have "acted env A k1 (k1\<lparr>wk_db := confirm_batch (map en_id b) (wk_db k1)\<rparr>)"
      by (rule confirm_acted [OF refl assms(2)]) (use f a(2,3) in \<open>auto, metis dispatch_db.select_convs(4) dispatch_db.surjective dispatch_db.update_convs(5)\<close>)
    moreover have "acted env A k k1" using acted_trans [OF c a(1)] .
    moreover have "k' = k1 \<or> k' = k1\<lparr>wk_db := confirm_batch (map en_id b) (wk_db k1)\<rparr>"
      using assms(1) b False k1 by (auto simp: flush_action_def split: sum.splits if_splits)
    ultimately show ?thesis using acted_trans a(2) by auto
  qed
  then show "acted env A k k'" "length (wk_calls k') \<le> Suc (length (wk_calls k))" by auto
qed

lemma immediate_acted:
  assumes "execute_action_immediate env sa ev ow k = (r, k')" "sa_accumulator sa = None"
  shows "acted env A k k' \<and> length (wk_calls k') \<le> Suc (length (wk_calls k)) \<and> attempted env ev sa k'"
proof -
  obtain r1 k1 where c: "call_action env ow (sa_action sa) [event_payload ev] k = (r1, k1)" by force
  then have "k' = k1" using assms by (auto simp: execute_action_immediate_def split: sum.splits if_splits)
  then show ?thesis using call_action_acted [OF c] assms(2) by (simp add: attempted_def)
qed

definition buffer_entry :: "'w worker_env \<Rightarrow> subscription_action \<Rightarrow> event \<Rightarrow> 'w worker \<Rightarrow> accumulator_entry" where
  "buffer_entry env sa ev k = \<lparr>en_id = we_ids env (wk_tick k), en_action_id = sa_id sa, en_event_id = ev_id ev, en_created_at = we_clock env (wk_tick k)\<rparr>"

lemma buffer_acted:
  assumes "k1 = k\<lparr>wk_db := snd (buffer_event (buffer_entry env sa ev k) (wk_db k)), wk_tick := Suc (wk_tick k)\<rparr>"
  shows "acted env A k k1" "tidy env k \<Longrightarrow> sa_accumulator sa \<noteq> None \<Longrightarrow> attempted env ev sa k1"
proof -
  let ?e = "buffer_entry env sa ev k"
  have acc: "dd_accumulator (wk_db k1) = dict_set (en_id ?e) ?e (dd_accumulator (wk_db k))"
    and calls: "wk_calls k1 = wk_calls k" and tick: "wk_tick k1 = Suc (wk_tick k)"
    and frame: "grown k k1" "feed (wk_db k1) = feed (wk_db k)" "dd_completions (wk_db k1) = dd_completions (wk_db k)"
    by (simp_all add: assms buffer_event_def grown_def feed_def)
  have vals: "set (dict_values (dd_accumulator (wk_db k1))) = insert ?e (set (dict_values (dd_accumulator (wk_db k))))" if "tidy env k"
  proof -
    have "dict_get (dd_accumulator (wk_db k)) (en_id ?e) = None"
      using that by (fastforce simp: tidy_def buffer_entry_def dict_get_None_iff dict_keys_def)
    from dict_values_new [OF this] show ?thesis by (simp add: acc)
  qed
  show at: "attempted env ev sa k1" if "tidy env k" "sa_accumulator sa \<noteq> None"
  proof -
    have "buffered env sa ?e k1" using vals [OF that(1)] by (simp add: buffered_def)
    moreover have "en_event_id ?e = ev_id ev" "en_action_id ?e = sa_id sa" by (simp_all add: buffer_entry_def)
    ultimately show ?thesis using that(2) unfolding attempted_def by auto
  qed
  have keep: "attempted env ev' sa' k1" if t: "tidy env k" "attempted env ev' sa' k" for ev' sa'
    by (rule attempted_mono [OF t(2)]) (use vals [OF t(1)] calls in \<open>simp_all add: buffered_def\<close>)
  have "tidy env k1" if t: "tidy env k"
  proof -
    have "we_ids env n \<noteq> en_id ?e" if "wk_tick k1 \<le> n" for n using t that by (auto simp: tidy_def buffer_entry_def tick dest: injD)
    moreover have "set (dd_accumulator (wk_db k1)) \<subseteq> insert (en_id ?e, ?e) (set (dd_accumulator (wk_db k)))"
      unfolding acc by (rule dict_set_entries)
    moreover have "inj (we_ids env)" "dict_wf (dd_accumulator (wk_db k1))" using t by (simp_all add: tidy_def acc)
    moreover have "en_id e = i \<and> (\<forall>n \<ge> wk_tick k1. we_ids env n \<noteq> i)" if "(i, e) \<in> set (dd_accumulator (wk_db k))" for i e
      using t that tick unfolding tidy_def by (auto dest!: bspec)
    ultimately show ?thesis unfolding tidy_def by blast
  qed
  then show "acted env A k k1" using frame keep by (simp add: acted_def)
qed

lemma scheduled_acted: "acted env A k (k\<lparr>wk_scheduled := sch\<rparr>)" "attempted env ev sa (k\<lparr>wk_scheduled := sch\<rparr>) = attempted env ev sa k"
  by (simp_all add: acted_def grown_def tidy_def attempted_def buffered_def)

lemma buffer_or_flush_acted:
  assumes h: "buffer_or_flush env cfg sa ev ow k = (r, k')" and a: "sa \<in> A" and s: "sa_accumulator sa \<noteq> None"
  shows "acted env A k k' \<and> length (wk_calls k') \<le> Suc (length (wk_calls k)) \<and>
    (tidy env k \<longrightarrow> inj_on sa_id A \<longrightarrow> attempted env ev sa k')"
proof -
  define k1 where k1: "k1 = k\<lparr>wk_db := snd (buffer_event (buffer_entry env sa ev k) (wk_db k)), wk_tick := Suc (wk_tick k)\<rparr>"
  note b = buffer_acted [OF k1]
  have calls: "wk_calls k1 = wk_calls k" by (simp add: k1)
  have "flush_action env sa ow k1 = (r, k') \<or> k' = k1\<lparr>wk_scheduled := wk_scheduled k1 @ [(ac_flush_interval cfg, sa, ow)]\<rparr> \<or> k' = k1"
    using h unfolding buffer_or_flush_def buffer_entry_def [symmetric] k1 [symmetric] Let_def by (simp split: if_splits)
  then have k': "acted env A k1 k'" "length (wk_calls k') \<le> Suc (length (wk_calls k1))"
    using flush_acted [OF _ a, of env ow k1 r k'] scheduled_acted(1) [of env A k1] by (elim disjE; simp)+
  have "attempted env ev sa k'" if t: "tidy env k" "inj_on sa_id A"
  proof -
    have "tidy env k1" "attempted env ev sa k1" using b(1) [of A] b(2) [OF t(1) s] t unfolding acted_def by blast+
    then show ?thesis using k'(1) t(2) a unfolding acted_def by blast
  qed
  then show ?thesis using acted_trans [OF b(1) k'(1)] k'(2) calls by simp
qed

lemma handle_acted:
  assumes h: "handle_action env ev ow sa k = (r, k')" and a: "sa \<in> A"
  shows "acted env A k k'" "length (wk_calls k') \<le> Suc (length (wk_calls k))"
    "tidy env k \<Longrightarrow> inj_on sa_id A \<Longrightarrow> attempted env ev sa k'"
proof -
  have "acted env A k k' \<and> length (wk_calls k') \<le> Suc (length (wk_calls k)) \<and> (tidy env k \<longrightarrow> inj_on sa_id A \<longrightarrow> attempted env ev sa k')"
  proof (cases "sa_accumulator sa")
    case None
    then show ?thesis using h immediate_acted [of env sa ev ow k r k' A] by (simp add: handle_action_def)
  next
    case (Some cfg)
    then show ?thesis using h buffer_or_flush_acted [of env cfg sa ev ow k r k' A] a by (simp add: handle_action_def)
  qed
  then show "acted env A k k'" "length (wk_calls k') \<le> Suc (length (wk_calls k))"
    "tidy env k \<Longrightarrow> inj_on sa_id A \<Longrightarrow> attempted env ev sa k'" by auto
qed

text \<open>A stretch of the worker's work: it adds completion records for attempted actions and events of the log only.\<close>

definition recorded :: "'w worker_env \<Rightarrow> subscription_action set \<Rightarrow> 'w worker \<Rightarrow> 'w worker \<Rightarrow> bool" where
  "recorded env A k k' \<longleftrightarrow> grown k k' \<and> dd_subscriptions (wk_db k') = dd_subscriptions (wk_db k) \<and>
     dd_actions (wk_db k') = dd_actions (wk_db k) \<and> completions k \<subseteq> completions k' \<and>
     (tidy env k \<and> inj_on sa_id A \<longrightarrow>
        tidy env k' \<and> (\<forall>ev. \<forall>sa \<in> A. attempted env ev sa k \<longrightarrow> attempted env ev sa k') \<and>
        (\<forall>c \<in> completions k' - completions k.
           \<exists>ev \<in> set (dd_events (wk_db k')). \<exists>sa \<in> A. c = (ev_id ev, sa_id sa) \<and> attempted env ev sa k'))"

lemma recorded_refl [simp, intro]: "recorded env A k k"
  by (simp add: recorded_def)

lemma grown_events: "grown k k' \<Longrightarrow> set (dd_events (wk_db k)) \<subseteq> set (dd_events (wk_db k'))"
  by (auto simp: grown_def)

lemma recorded_trans:
  assumes a: "recorded env A k k1" and b: "recorded env A k1 k2" shows "recorded env A k k2"
proof -
  have "\<exists>ev \<in> set (dd_events (wk_db k2)). \<exists>sa \<in> A. c = (ev_id ev, sa_id sa) \<and> attempted env ev sa k2"
    if t: "tidy env k" "inj_on sa_id A" and c: "c \<in> completions k2 - completions k" for c
  proof (cases "c \<in> completions k1")
    case True
    then obtain ev sa where "ev \<in> set (dd_events (wk_db k1))" "sa \<in> A" "c = (ev_id ev, sa_id sa)" "attempted env ev sa k1"
      using a t c unfolding recorded_def by blast
    moreover have "tidy env k1" using a t unfolding recorded_def by blast
    ultimately show ?thesis using b t(2) grown_events unfolding recorded_def by blast
  next
    case False
    have "tidy env k1" using a t unfolding recorded_def by blast
    then show ?thesis using b t(2) c False unfolding recorded_def by blast
  qed
  then show ?thesis using assms grown_trans [of k k1 k2] unfolding recorded_def by auto
qed

lemma acted_recorded: "acted env A k k' \<Longrightarrow> recorded env A k k'"
  by (auto simp: acted_def recorded_def feed_def)

lemma same_observations [simp]:
  "tidy env (complete_action ev sa k) = tidy env k" "attempted env ev' sa' (complete_action ev sa k) = attempted env ev' sa' k"
  "tidy env (advance env ev k) = tidy env k" "attempted env ev' sa' (advance env ev k) = attempted env ev' sa' k"
  by (simp_all add: complete_action_def record_completion_def advance_def advance_cursor_def tidy_def attempted_def buffered_def)

lemma complete_recorded:
  assumes "recorded env A k0 k" "completions k = completions k0" "ev \<in> set (dd_events (wk_db k))" "sa \<in> A"
    "tidy env k0 \<Longrightarrow> inj_on sa_id A \<Longrightarrow> attempted env ev sa k"
  shows "recorded env A k0 (complete_action ev sa k)"
proof -
  have "completions (complete_action ev sa k) = insert (ev_id ev, sa_id sa) (completions k)" "dd_events (wk_db (complete_action ev sa k)) = dd_events (wk_db k)"
    "dd_subscriptions (wk_db (complete_action ev sa k)) = dd_subscriptions (wk_db k)" "dd_actions (wk_db (complete_action ev sa k)) = dd_actions (wk_db k)"
    by (simp_all add: complete_action_def record_completion_def)
  then show ?thesis using assms unfolding recorded_def grown_def by auto
qed

lemma advance_recorded: "recorded env A k (advance env ev k)"
proof -
  have "completions (advance env ev k) = completions k" "dd_events (wk_db (advance env ev k)) = dd_events (wk_db k)"
    "dd_subscriptions (wk_db (advance env ev k)) = dd_subscriptions (wk_db k)" "dd_actions (wk_db (advance env ev k)) = dd_actions (wk_db k)"
    by (simp_all add: advance_def advance_cursor_def)
  then show ?thesis unfolding recorded_def grown_def by simp
qed

lemma run_actions_recorded:
  assumes "run_actions env ev ow sas k = (r, k')" "set sas \<subseteq> A" "ev \<in> set (dd_events (wk_db k))"
  shows "recorded env A k k' \<and> dd_cursors (wk_db k') = dd_cursors (wk_db k) \<and>
    (r = Inr () \<longrightarrow> (\<forall>sa \<in> set sas. (ev_id ev, sa_id sa) \<in> completions k') \<and>
       length (wk_calls k') + card (completions k) \<le> length (wk_calls k) + card (completions k'))"
  using assms
proof (induction env ev ow sas k rule: run_actions.induct)
  case (2 env ev ow sa rest k)
  show ?case
  proof (cases "is_action_completed (ev_id ev) (sa_id sa) (wk_db k)")
    case True
    then show ?thesis using 2(1) [OF True] 2(3-5) by (auto simp: is_action_completed_def recorded_def)
  next
    case False
    obtain r1 k1 where h: "handle_action env ev ow sa k = (r1, k1)" by force
    have a: "sa \<in> A" using 2(4) by simp
    note acted = handle_acted [OF h a]
    note rec1 = acted_recorded [OF acted(1)]
    have f: "dd_cursors (wk_db k1) = dd_cursors (wk_db k)" "completions k1 = completions k" using acted(1) by (auto simp: acted_def feed_def)
    show ?thesis
    proof (cases r1)
      case (Inl e)
      then show ?thesis using 2(3) False h rec1 f by (auto simp: bindS_def)
    next
      case (Inr u)
      have ev1: "ev \<in> set (dd_events (wk_db k1))" using 2(5) rec1 grown_events by (auto simp: recorded_def)
      let ?k2 = "complete_action ev sa k1"
      have att: "attempted env ev sa k1" if "tidy env k" "inj_on sa_id A" using acted(3) that by simp
      have rec2: "recorded env A k ?k2" by (rule complete_recorded [OF rec1 f(2) ev1 a att])
      have run: "run_actions env ev ow rest ?k2 = (r, k')" using 2(3) False h Inr by (simp add: bindS_def)
      have c2: "completions ?k2 = insert (ev_id ev, sa_id sa) (completions k)" "dd_cursors (wk_db ?k2) = dd_cursors (wk_db k)"
        "wk_calls ?k2 = wk_calls k1" "set (dd_events (wk_db ?k2)) = set (dd_events (wk_db k1))"
        using f by (auto simp: complete_action_def record_completion_def)
      have "card (completions ?k2) = Suc (card (completions k))" using False by (simp add: c2 is_action_completed_def)
      moreover note ih = 2(2) [OF False run]
      moreover have "recorded env A ?k2 k'" using ih 2(4) ev1 c2 by simp
      moreover have "recorded env A k k'" using recorded_trans [OF rec2] calculation(3) by blast
      moreover have "(ev_id ev, sa_id sa) \<in> completions k'" using calculation(3) c2(1) unfolding recorded_def by blast
      moreover have "set rest \<subseteq> A" "ev \<in> set (dd_events (wk_db ?k2))" using 2(4) ev1 c2(4) by auto
      ultimately show ?thesis using c2(2,3) acted(2) by auto
    qed
  qed
qed simp

abbreviation matched :: "'w worker_env \<Rightarrow> event \<Rightarrow> subscription \<Rightarrow> bool" where
  "matched env ev sub \<equiv> match_subscription (ev_type ev) (ev_principal_id ev) (sub_filter sub) (we_resolver env)"

abbreviation all_actions :: "'w worker \<Rightarrow> subscription_action set" where
  "all_actions k \<equiv> set (dict_values (dd_actions (wk_db k)))"

definition delivered :: "'w worker_env \<Rightarrow> subscription list \<Rightarrow> event \<Rightarrow> 'w worker \<Rightarrow> bool" where
  "delivered env subs ev k \<longleftrightarrow>
     (\<forall>sub \<in> set subs. matched env ev sub \<longrightarrow> (\<forall>sa \<in> set (list_actions (sub_id sub) (wk_db k)). (ev_id ev, sa_id sa) \<in> completions k))"

lemma delivered_mono:
  "delivered env subs ev k \<Longrightarrow> dd_actions (wk_db k') = dd_actions (wk_db k) \<Longrightarrow> completions k \<subseteq> completions k' \<Longrightarrow> delivered env subs ev k'"
  by (fastforce simp: delivered_def list_actions_def)

lemma list_actions_all: "set (list_actions i (wk_db k)) \<subseteq> all_actions k"
  by (auto simp: list_actions_def)

lemma run_subscriptions_recorded:
  assumes "run_subscriptions env ev subs k = (r, k')" "A = all_actions k" "ev \<in> set (dd_events (wk_db k))"
  shows "recorded env A k k' \<and> dd_cursors (wk_db k') = dd_cursors (wk_db k) \<and>
    (r = Inr () \<longrightarrow> delivered env subs ev k' \<and>
       length (wk_calls k') + card (completions k) \<le> length (wk_calls k) + card (completions k'))"
  using assms
proof (induction env ev subs k rule: run_subscriptions.induct)
  case (1 env ev k)
  then show ?case by (simp add: delivered_def)
next
  case (2 env ev sub rest k)
  show ?case
  proof (cases "matched env ev sub")
    case True
    obtain r1 k1 where h: "run_actions env ev (sub_principal_id sub) (list_actions (sub_id sub) (wk_db k)) k = (r1, k1)" by force
    have sub: "set (list_actions (sub_id sub) (wk_db k)) \<subseteq> A" using list_actions_all 2(4) by blast
    note a = run_actions_recorded [OF h sub 2(5)]
    show ?thesis
    proof (cases r1)
      case (Inl e)
      then show ?thesis using 2(3) True h a by (auto simp: bindS_def)
    next
      case (Inr u)
      have run: "run_subscriptions env ev rest k1 = (r, k')" using 2(3) True h Inr by (simp add: bindS_def)
      have A1: "A = all_actions k1" "ev \<in> set (dd_events (wk_db k1))" using a 2(4,5) grown_events by (auto simp: recorded_def)
      note ih = 2(1) [OF True run A1]
      have acts: "dd_actions (wk_db k1) = dd_actions (wk_db k)" "dd_actions (wk_db k') = dd_actions (wk_db k1)" "completions k1 \<subseteq> completions k'"
        using a ih by (auto simp: recorded_def)
      have "delivered env (sub # rest) ev k'" if "r = Inr ()"
        using that ih a Inr acts by (auto simp: delivered_def list_actions_def)
      moreover have "recorded env A k k'" using recorded_trans a ih by blast
      ultimately show ?thesis using a ih Inr by auto
    qed
  next
    case False
    then show ?thesis using 2(2) [OF False] 2(3-5) by (auto simp: delivered_def)
  qed
qed

lemma process_events_recorded:
  assumes "process_events env subs (\<lambda>_. False) evs n k = (r, k')" "A = all_actions k" "set evs \<subseteq> set (dd_events (wk_db k))"
  shows "recorded env A k k' \<and>
    (r \<noteq> Inr (n + length evs) \<longrightarrow> (\<exists>e. r = Inl e)) \<and>
    (r = Inr (n + length evs) \<longrightarrow> (\<forall>ev \<in> set evs. delivered env subs ev k') \<and>
       length (wk_calls k') + card (completions k) \<le> length (wk_calls k) + card (completions k') \<and>
       get_cursor_position (we_cursor_name env) (wk_db k') =
         (if evs = [] then get_cursor_position (we_cursor_name env) (wk_db k) else Some (ev_id (last evs))))"
  using assms
proof (induction evs arbitrary: n k)
  case (Cons ev evs)
  obtain r1 k1 where h: "run_subscriptions env ev subs k = (r1, k1)" by force
  have "ev \<in> set (dd_events (wk_db k))" using Cons.prems(3) by simp
  note a = run_subscriptions_recorded [OF h Cons.prems(2) this]
  show ?case
  proof (cases r1)
    case (Inl e)
    then show ?thesis using Cons.prems h a by (auto simp: bindS_def)
  next
    case (Inr u)
    let ?k2 = "advance env ev k1"
    have run: "process_events env subs (\<lambda>_. False) evs (Suc n) ?k2 = (r, k')" using Cons.prems(1) h Inr by (simp add: bindS_def)
    have rec: "recorded env A k ?k2" using recorded_trans [OF _ advance_recorded] a by blast
    have "A = all_actions ?k2" "set evs \<subseteq> set (dd_events (wk_db ?k2))" using Cons.prems(2,3) rec grown_events by (auto simp: recorded_def)
    note ih = Cons.IH [OF run this]
    have k2: "delivered env subs ev ?k2" "completions ?k2 = completions k1" "wk_calls ?k2 = wk_calls k1"
      "get_cursor_position (we_cursor_name env) (wk_db ?k2) = Some (ev_id ev)"
      using a Inr by (auto simp: delivered_def list_actions_def advance_def advance_cursor_def get_cursor_position_def)
    have "delivered env subs ev k'" using delivered_mono [OF k2(1)] ih by (auto simp: recorded_def)
    then show ?thesis using ih recorded_trans [OF rec] a Inr k2 by auto
  qed
qed simp

lemma polled_in_log: "set (poll_events_since i n db) \<subseteq> set (dd_events db)"
proof -
  have "set (after_event j es) \<subseteq> set es" for j es by (induction es) auto
  then show ?thesis by (auto simp: poll_events_since_def split: option.splits dest!: in_set_takeD)
qed

text \<open>
  A poll that is not stopped and returns takes the next batch after the cursor, handles every event of it, and
  moves the cursor to the last one: for each event, each enabled subscription that matches it and
  each of its actions there is a completion record afterwards. During the poll at most one
  action is executed per completion record it adds, so no action runs twice for the same event.
\<close>

theorem poll_complete:
  assumes "poll_and_process env (\<lambda>_. False) k = (Inr n, k')"
  shows "let batch = poll_events_since (get_cursor_position (we_cursor_name env) (wk_db k)) (we_batch_size env) (wk_db k)
    in n = length batch \<and>
      (batch \<noteq> [] \<longrightarrow> get_cursor_position (we_cursor_name env) (wk_db k') = Some (ev_id (last batch))) \<and>
      (\<forall>ev \<in> set batch. delivered env (list_subscriptions True None (wk_db k)) ev k') \<and>
      length (wk_calls k') - length (wk_calls k) \<le> card (completions k' - completions k)"
proof (cases "poll_events_since (get_cursor_position (we_cursor_name env) (wk_db k)) (we_batch_size env) (wk_db k) = []")
  case True
  then show ?thesis using assms by (auto simp: poll_and_process_def Let_def)
next
  case False
  with assms have "process_events env (list_subscriptions True None (wk_db k)) (\<lambda>_. False)
      (poll_events_since (get_cursor_position (we_cursor_name env) (wk_db k)) (we_batch_size env) (wk_db k)) 0 k = (Inr n, k')"
    by (simp add: poll_and_process_def Let_def)
  note q = process_events_recorded [OF this refl polled_in_log]
  have "card (completions k' - completions k) = card (completions k') - card (completions k)"
    using q by (intro card_Diff_subset) (auto simp: recorded_def)
  then show ?thesis using q False by (auto simp: Let_def)
qed

subsection \<open>Draining the log\<close>

text \<open>The worker stands between \<open>pre\<close>, the events behind its cursor, and \<open>rest\<close>.\<close>

definition at_pos :: "'w worker_env \<Rightarrow> 'w worker \<Rightarrow> event list \<Rightarrow> event list \<Rightarrow> bool" where
  "at_pos env k pre rest \<longleftrightarrow> dd_events (wk_db k) = pre @ rest \<and>
     get_cursor_position (we_cursor_name env) (wk_db k) = (if pre = [] then None else Some (ev_id (last pre)))"

lemma after_event_last:
  "distinct (map ev_id (pre @ rest)) \<Longrightarrow> pre \<noteq> [] \<Longrightarrow> after_event (ev_id (last pre)) (pre @ rest) = rest"
  by (induction pre) (auto split: if_splits)

lemma poll_at_pos:
  assumes "at_pos env k pre rest" "0 < we_batch_size env" "distinct (map ev_id (dd_events (wk_db k)))"
  shows "poll_events_since (get_cursor_position (we_cursor_name env) (wk_db k)) (we_batch_size env) (wk_db k) = take (we_batch_size env) rest"
proof -
  have "max 1 (we_batch_size env) = we_batch_size env" using assms(2) by simp
  then show ?thesis
    using assms(1,3) after_event_last [of pre rest] by (cases "pre = []") (auto simp: at_pos_def poll_events_since_def)
qed

text \<open>The calls of the worker do not end with a cancellation.\<close>

definition never_cancelled :: "'w worker_env \<Rightarrow> bool" where
  "never_cancelled env \<longleftrightarrow> (\<forall>new_id owner act events st. fst (execute_action (worker_ports env new_id) owner act events st) \<noteq> Inl CancelledError)"

lemma handle_returns:
  assumes "never_cancelled env" shows "fst (handle_action env ev ow sa k) = Inr ()"
proof -
  have call: "fst (call_action env ow act evs k) \<noteq> Inl CancelledError" for act evs k
    using assms [unfolded never_cancelled_def, rule_format, of "we_ids env (wk_tick k)" ow act evs "(wk_world k, [])"]
    by (auto simp: call_action_def Let_def split: prod.splits)
  have flush: "fst (flush_action env sa ow k) = Inr ()" for k
  proof -
    obtain b db where b: "claim_batch (sa_id sa) 100 (wk_db k) = (b, db)" by force
    obtain r1 k1 where k1: "call_action env ow (sa_action sa) (map (entry_payload env) b) (k\<lparr>wk_db := db\<rparr>) = (r1, k1)" by force
    then have "r1 \<noteq> Inl CancelledError" using call [of "sa_action sa" "map (entry_payload env) b" "k\<lparr>wk_db := db\<rparr>"] by simp
    then show ?thesis using b k1 by (auto simp: flush_action_def except_Exception_def split: sum.splits)
  qed
  obtain r1 k1 where k1: "call_action env ow (sa_action sa) [event_payload ev] k = (r1, k1)" by force
  then have "r1 \<noteq> Inl CancelledError" using call [of "sa_action sa" "[event_payload ev]" k] by simp
  then have "fst (execute_action_immediate env sa ev ow k) = Inr ()"
    using k1 by (auto simp: execute_action_immediate_def except_Exception_def split: sum.splits)
  then show ?thesis using flush by (auto simp: handle_action_def buffer_or_flush_def Let_def split: option.splits)
qed

lemma run_actions_returns: "never_cancelled env \<Longrightarrow> fst (run_actions env ev ow sas k) = Inr ()"
proof (induction sas arbitrary: k)
  case (Cons sa sas)
  then show ?case using handle_returns [OF Cons.prems, of ev ow sa k] by (auto simp: bindS_def split: prod.splits sum.splits)
qed simp

lemma run_subscriptions_returns: "never_cancelled env \<Longrightarrow> fst (run_subscriptions env ev subs k) = Inr ()"
proof (induction subs arbitrary: k)
  case (Cons sub subs)
  then show ?case using run_actions_returns [OF Cons.prems, of ev "sub_principal_id sub" "list_actions (sub_id sub) (wk_db k)" k]
    by (auto simp: bindS_def split: prod.splits sum.splits)
qed simp

lemma process_events_returns: "never_cancelled env \<Longrightarrow> \<exists>m. fst (process_events env subs stop evs n k) = Inr m"
proof (induction evs arbitrary: n k)
  case (Cons ev evs)
  then show ?case using run_subscriptions_returns [OF Cons.prems, of ev subs k] by (auto simp: bindS_def split: prod.splits sum.splits)
qed simp

lemma poll_step:
  assumes pos: "at_pos env k pre rest" and b: "0 < we_batch_size env" and nc: "never_cancelled env"
    and p: "poll_and_process env (\<lambda>_. False) k = (r, k')" and d: "distinct (map ev_id (dd_events (wk_db k')))" and A: "A = all_actions k"
  shows "r = Inr (length (take (we_batch_size env) rest)) \<and> recorded env A k k' \<and>
    (\<exists>written. at_pos env k' (pre @ take (we_batch_size env) rest) (drop (we_batch_size env) rest @ written)) \<and>
    (\<forall>ev \<in> set (take (we_batch_size env) rest). delivered env (list_subscriptions True None (wk_db k)) ev k')"
proof -
  let ?evs = "take (we_batch_size env) rest"
  have p': "poll_and_process env (\<lambda>_. False) k =
      (let events = poll_events_since (get_cursor_position (we_cursor_name env) (wk_db k)) (we_batch_size env) (wk_db k)
       in if events = [] then (Inr 0, k) else process_events env (list_subscriptions True None (wk_db k)) (\<lambda>_. False) events 0 k)"
    by (simp add: poll_and_process_def)
  have "recorded env A k k'"
    using p process_events_recorded [OF _ A polled_in_log] unfolding p' by (auto simp: Let_def split: if_splits)
  then obtain written where w: "dd_events (wk_db k') = dd_events (wk_db k) @ written" unfolding recorded_def grown_def by blast
  have poll: "poll_events_since (get_cursor_position (we_cursor_name env) (wk_db k)) (we_batch_size env) (wk_db k) = ?evs"
    by (rule poll_at_pos [OF pos b]) (use d w in simp)
  show ?thesis
  proof (cases "rest = []")
    case True
    then show ?thesis using p pos unfolding p' poll by (auto intro: exI [of _ "[]"])
  next
    case False
    then have ne: "?evs \<noteq> []" using b by simp
    with p have run: "process_events env (list_subscriptions True None (wk_db k)) (\<lambda>_. False) ?evs 0 k = (r, k')"
      unfolding p' poll by (simp add: Let_def)
    have sub: "set ?evs \<subseteq> set (dd_events (wk_db k))" using pos by (auto simp: at_pos_def dest: in_set_takeD)
    note q = process_events_recorded [OF run A sub]
    obtain m where "r = Inr m" using process_events_returns [OF nc, of "list_subscriptions True None (wk_db k)" "\<lambda>_. False" ?evs 0 k] run by auto
    then have r: "r = Inr (0 + length ?evs)" using q by auto
    have "at_pos env k' (pre @ ?evs) (drop (we_batch_size env) rest @ written)"
      using pos q r ne w unfolding at_pos_def by (simp del: take_eq_Nil)
    then show ?thesis using q r by auto
  qed
qed

fun polls :: "'w worker_env \<Rightarrow> nat \<Rightarrow> 'w worker \<Rightarrow> unit result \<times> 'w worker" where
  "polls env 0 k = (Inr (), k)"
| "polls env (Suc m) k = bindS (poll_and_process env (\<lambda>_. False)) (\<lambda>_. polls env m) k"

lemma poll_recorded: "poll_and_process env (\<lambda>_. False) k = (r, k') \<Longrightarrow> recorded env (all_actions k) k k'"
  using process_events_recorded [of env "list_subscriptions True None (wk_db k)"
      "poll_events_since (get_cursor_position (we_cursor_name env) (wk_db k)) (we_batch_size env) (wk_db k)" 0 k r k', OF _ refl polled_in_log]
  by (auto simp: poll_and_process_def Let_def split: if_splits)

lemma polls_recorded: "polls env m k = (r, k') \<Longrightarrow> recorded env (all_actions k) k k'"
proof (induction m arbitrary: k)
  case (Suc m)
  obtain r1 k1 where p: "poll_and_process env (\<lambda>_. False) k = (r1, k1)" by force
  note s = poll_recorded [OF p]
  then have A: "all_actions k1 = all_actions k" by (simp add: recorded_def)
  show ?case
  proof (cases r1)
    case (Inl e)
    then show ?thesis using Suc.prems p s by (simp add: bindS_def)
  next
    case (Inr n)
    then have "polls env m k1 = (r, k')" using Suc.prems p by (simp add: bindS_def)
    from Suc.IH [OF this] show ?thesis using recorded_trans [OF s] A by simp
  qed
qed simp

lemma polls_at_pos:
  assumes b: "0 < we_batch_size env" and nc: "never_cancelled env"
  shows "at_pos env k pre rest \<Longrightarrow> polls env m k = (r, k') \<Longrightarrow> distinct (map ev_id (dd_events (wk_db k'))) \<Longrightarrow>
    r = Inr () \<and> (\<exists>h rest'. at_pos env k' (pre @ h) rest' \<and> min (m * we_batch_size env) (length rest) \<le> length h \<and>
      (\<forall>ev \<in> set h. delivered env (list_subscriptions True None (wk_db k)) ev k'))"
proof (induction m arbitrary: k pre rest)
  case (Suc m)
  let ?b = "we_batch_size env"
  obtain r1 k1 where p: "poll_and_process env (\<lambda>_. False) k = (r1, k1)" by force
  note s1 = poll_recorded [OF p]
  have run: "r1 = Inr x \<Longrightarrow> polls env m k1 = (r, k')" for x using Suc.prems(2) p by (simp add: bindS_def)
  have "\<exists>written. dd_events (wk_db k') = dd_events (wk_db k1) @ written"
  proof (cases r1)
    case (Inl e)
    then show ?thesis using Suc.prems(2) p by (auto simp: bindS_def)
  next
    case (Inr n)
    then show ?thesis using polls_recorded [OF run] by (auto simp: recorded_def grown_def)
  qed
  then have d1: "distinct (map ev_id (dd_events (wk_db k1)))" using Suc.prems(3) by auto
  note s = poll_step [OF Suc.prems(1) b nc p d1 refl]
  then obtain written where pos: "at_pos env k1 (pre @ take ?b rest) (drop ?b rest @ written)" by blast
  have run1: "polls env m k1 = (r, k')" using run s by simp
  from Suc.IH [OF pos run1 Suc.prems(3)] obtain h rest' where ih: "r = Inr ()" "at_pos env k' (pre @ (take ?b rest @ h)) rest'"
      "min (m * ?b) (length (drop ?b rest @ written)) \<le> length h"
      "\<forall>ev \<in> set h. delivered env (list_subscriptions True None (wk_db k1)) ev k'" by auto
  have l: "list_subscriptions True None (wk_db k1) = list_subscriptions True None (wk_db k)"
    using s1 by (simp add: list_subscriptions_def recorded_def)
  have "delivered env (list_subscriptions True None (wk_db k)) ev k'" if "ev \<in> set (take ?b rest)" for ev
    using delivered_mono [of env _ ev k1 k'] s polls_recorded [OF run1] that by (auto simp: recorded_def)
  then have "\<forall>ev \<in> set (take ?b rest @ h). delivered env (list_subscriptions True None (wk_db k)) ev k'" using ih(4) l by auto
  moreover have "min (Suc m * ?b) (length rest) \<le> length (take ?b rest @ h)" using ih(3) by auto
  ultimately show ?case using ih(1,2) by blast
next
  case 0
  then have "at_pos env k' (pre @ []) rest" "r = Inr ()" by auto
  then show ?case by fastforce
qed


definition sample_worker_env :: "nat worker_env" where
  "sample_worker_env = \<lparr>we_ports = \<lparr>p_script = (\<lambda>_ _ _ w. (Raises ValueError, Suc (fst w), snd w)), p_log = (\<lambda>_ _ _ w. w), p_workflow = None,
       p_event = None, p_notify = None\<rparr>, we_cursor_name = ''c'', we_batch_size = 5, we_resolver = (\<lambda>_. []), we_ids = (\<lambda>n. 50 + n), we_clock = int,
     we_isoformat = (\<lambda>_. [])\<rparr>"

definition script_action :: subscription_action where
  "script_action = \<lparr>sa_id = 4, sa_subscription_id = 3, sa_position = 0, sa_action = ScriptAction ''m:f'', sa_accumulator = None, sa_created_at = 0\<rparr>"

definition firing_action :: subscription_action where
  "firing_action = \<lparr>sa_id = 5, sa_subscription_id = 3, sa_position = 1, sa_action = EventAction ''derived'' [] '''', sa_accumulator = None, sa_created_at = 0\<rparr>"

definition sample_subscription :: subscription where
  "sample_subscription = \<lparr>sub_id = 3, sub_filter = \<lparr>fp_event_types = Some [''e''], fp_sources = None, fp_principal_id = None, fp_data_predicates = None\<rparr>,
     sub_enabled = True, sub_storage = ''persistent'', sub_principal_id = 9, sub_created_at = 0\<rparr>"

definition sample_event :: event where
  "sample_event = \<lparr>ev_id = 20, ev_type = ''e'', ev_principal_id = None, ev_data = None\<rparr>"

text \<open>One event, a subscription to its type, a script that raises and an action that fires another event.\<close>

definition sample_worker :: "nat worker" where
  "sample_worker = \<lparr>wk_db = empty_dispatch
       \<lparr>dd_subscriptions := [(3, sample_subscription)], dd_actions := [(4, script_action), (5, firing_action)], dd_events := [sample_event]\<rparr>,
     wk_world = 0, wk_scheduled = [], wk_calls = [], wk_tick = 0\<rparr>"

lemmas sample_dispatch = sample_worker_def sample_worker_env_def sample_subscription_def script_action_def firing_action_def sample_event_def empty_dispatch_def

lemma sample_never_cancelled: "never_cancelled sample_worker_env"
  by (auto simp: never_cancelled_def execute_action_def run_script_action_def worker_ports_def event_fire_callback_def sample_dispatch
      split: action.splits list.splits)

lemma sample_tidy: "tidy sample_worker_env sample_worker"
  by (simp add: tidy_def sample_dispatch inj_def)

theorem poll_complete_witness:
  "length (wk_calls (snd (poll_and_process sample_worker_env (\<lambda>_. False) sample_worker))) \<le>
     card (completions (snd (poll_and_process sample_worker_env (\<lambda>_. False) sample_worker)))"
proof -
  obtain r k' where p: "poll_and_process sample_worker_env (\<lambda>_. False) sample_worker = (r, k')" by force
  have "fst (poll_and_process sample_worker_env (\<lambda>_. False) sample_worker) = Inr 1" by code_simp
  with p have "poll_and_process sample_worker_env (\<lambda>_. False) sample_worker = (Inr 1, k')" by simp
  from poll_complete [OF this] p show ?thesis by (simp add: sample_worker_def empty_dispatch_def Let_def)
qed


section \<open>Failures\<close>

lemma run_actions_done:
  "\<forall>sa \<in> set sas. (ev_id ev, sa_id sa) \<in> completions k \<Longrightarrow> run_actions env ev ow sas k = (Inr (), k)"
  by (induction env ev ow sas k rule: run_actions.induct) (auto simp: is_action_completed_def)

lemma run_subscriptions_done: "delivered env subs ev k \<Longrightarrow> run_subscriptions env ev subs k = (Inr (), k)"
  by (induction env ev subs k rule: run_subscriptions.induct) (auto simp: delivered_def run_actions_done bindS_def)

lemma process_events_done:
  "\<forall>ev \<in> set evs. delivered env subs ev k \<Longrightarrow> wk_calls (snd (process_events env subs stop evs n k)) = wk_calls k"
proof (induction evs arbitrary: n k)
  case (Cons ev evs)
  have d: "\<forall>ev' \<in> set evs. delivered env subs ev' (advance env ev k)"
    using Cons.prems delivered_mono [of env subs _ k "advance env ev k"] by (auto simp: advance_def advance_cursor_def)
  have "run_subscriptions env ev subs k = (Inr (), k)" using Cons.prems by (simp add: run_subscriptions_done)
  then show ?case using Cons.IH [OF d, of "Suc n"] by (simp add: bindS_def advance_def)
qed simp

text \<open>
  A failed action is not tried again: after a poll, even when every action of it raised, rewinding
  the cursor and polling the same events again executes nothing, because a failure is recorded as a
  completion like a success. Delivery is at most once, not at least once.
\<close>

theorem failed_action_not_retried:
  assumes "poll_and_process env (\<lambda>_. False) k = (Inr n, k1)"
    and "get_cursor_position (we_cursor_name env) (wk_db k) = None"
    and "k2 = k1\<lparr>wk_db := (wk_db k1)\<lparr>dd_cursors := dd_cursors (wk_db k)\<rparr>\<rparr>"
    and "take (we_batch_size env) (dd_events (wk_db k1)) = take (we_batch_size env) (dd_events (wk_db k))"
  shows "wk_calls (snd (poll_and_process env (\<lambda>_. False) k2)) = wk_calls k1"
proof -
  let ?evs = "poll_events_since None (we_batch_size env) (wk_db k)" and ?subs = "list_subscriptions True None (wk_db k)"
  have q: "\<forall>ev \<in> set ?evs. delivered env ?subs ev k1" using poll_complete [OF assms(1)] assms(2) by (auto simp: Let_def)
  have s: "poll_events_since (get_cursor_position (we_cursor_name env) (wk_db k2)) (we_batch_size env) (wk_db k2) = ?evs"
    "list_subscriptions True None (wk_db k2) = ?subs"
    using poll_recorded [OF assms(1)] assms(2-4) by (simp_all add: get_cursor_position_def poll_events_since_def list_subscriptions_def recorded_def)
  have "\<forall>ev \<in> set ?evs. delivered env ?subs ev k2" using q assms(3) delivered_mono [of env ?subs _ k1 k2] by auto
  from process_events_done [OF this] show ?thesis using s assms(3) by (simp add: poll_and_process_def Let_def)
qed

text \<open>A worker with the failing script only.\<close>

definition script_worker :: "nat worker" where
  "script_worker = sample_worker\<lparr>wk_db := (wk_db sample_worker)\<lparr>dd_actions := [(4, script_action)]\<rparr>\<rparr>"

theorem failed_action_not_retried_witness:
  "\<exists>k1. poll_and_process sample_worker_env (\<lambda>_. False) script_worker = (Inr 1, k1) \<and>
     wk_calls (snd (poll_and_process sample_worker_env (\<lambda>_. False) (k1\<lparr>wk_db := (wk_db k1)\<lparr>dd_cursors := dd_cursors (wk_db script_worker)\<rparr>\<rparr>))) = wk_calls k1"
proof -
  have "fst (poll_and_process sample_worker_env (\<lambda>_. False) script_worker) = Inr 1" by code_simp
  then obtain k1 where k1: "poll_and_process sample_worker_env (\<lambda>_. False) script_worker = (Inr 1, k1)" by (metis prod.collapse)
  have c: "get_cursor_position (we_cursor_name sample_worker_env) (wk_db script_worker) = None" by code_simp
  have "dd_events (wk_db (snd (poll_and_process sample_worker_env (\<lambda>_. False) script_worker))) = dd_events (wk_db script_worker)" by code_simp
  then have "take (we_batch_size sample_worker_env) (dd_events (wk_db k1)) = take (we_batch_size sample_worker_env) (dd_events (wk_db script_worker))"
    using k1 by simp
  from failed_action_not_retried [OF k1 c refl this] k1 show ?thesis by blast
qed

text \<open>
  A cancelled call leaves the worker: when the first action of the first event ends with a cancellation, as the workflow of a run that is
  cancelled does, the poll raises it, the cursor stays where it was and nothing is recorded, so that a worker started again meets the same event.
\<close>

theorem cancelled_action_stops_worker:
  assumes "get_cursor_position (we_cursor_name env) (wk_db k) = None" "dd_events (wk_db k) = ev # evs" "0 < we_batch_size env"
    and "list_subscriptions True None (wk_db k) = sub # subs" "matched env ev sub" "list_actions (sub_id sub) (wk_db k) = sa # sas"
    and "\<not> is_action_completed (ev_id ev) (sa_id sa) (wk_db k)" "sa_accumulator sa = None"
    and "\<And>new_id w. \<exists>w'. execute_action (worker_ports env new_id) (sub_principal_id sub) (sa_action sa) [event_payload ev] w = (Inl CancelledError, w')"
  shows "\<exists>k'. poll_and_process env stop k = (if stop 0 then (Inr 0, k) else (Inl CancelledError, k')) \<and>
    dd_cursors (wk_db k') = dd_cursors (wk_db k) \<and> completions k' = completions k"
proof -
  obtain w written where w: "execute_action (worker_ports env (we_ids env (wk_tick k))) (sub_principal_id sub) (sa_action sa) [event_payload ev] (wk_world k, []) =
      (Inl CancelledError, w, written)"
    using assms(9) by (metis prod.collapse)
  obtain k' where k': "execute_action_immediate env sa ev (sub_principal_id sub) k = (Inl CancelledError, k')"
      "dd_cursors (wk_db k') = dd_cursors (wk_db k)" "completions k' = completions k"
    using w by (auto simp: execute_action_immediate_def call_action_def except_Exception_def split: prod.splits)
  obtain b where b: "we_batch_size env = Suc b" using assms(3) by (cases "we_batch_size env") auto
  have "poll_events_since None (we_batch_size env) (wk_db k) = ev # take b evs" by (simp add: poll_events_since_def assms(2) b)
  then show ?thesis using assms(1,4-8) k' by (auto simp: poll_and_process_def handle_action_def bindS_def)
qed

definition cancelling_env :: "nat worker_env" where
  "cancelling_env = sample_worker_env\<lparr>we_ports := (we_ports sample_worker_env)\<lparr>p_script := (\<lambda>_ _ _ w. (Raises CancelledError, w))\<rparr>\<rparr>"

theorem cancelled_action_stops_worker_witness:
  "\<exists>k'. poll_and_process cancelling_env (\<lambda>_. False) script_worker = (Inl CancelledError, k') \<and> completions k' = {}"
proof -
  have ex: "\<exists>w'. execute_action (worker_ports cancelling_env new_id) (sub_principal_id sample_subscription) (sa_action script_action) [event_payload sample_event] w =
      (Inl CancelledError, w')" for new_id w
    by (simp add: execute_action_def run_script_action_def worker_ports_def cancelling_env_def sample_dispatch)
  have "get_cursor_position (we_cursor_name cancelling_env) (wk_db script_worker) = None" "dd_events (wk_db script_worker) = sample_event # []"
      "0 < we_batch_size cancelling_env" "list_subscriptions True None (wk_db script_worker) = sample_subscription # []"
      "matched cancelling_env sample_event sample_subscription" "list_actions (sub_id sample_subscription) (wk_db script_worker) = script_action # []"
      "\<not> is_action_completed (ev_id sample_event) (sa_id script_action) (wk_db script_worker)" "sa_accumulator script_action = None"
    by code_simp+
  from cancelled_action_stops_worker [OF this ex, of "\<lambda>_. False"] show ?thesis by (auto simp: script_worker_def sample_worker_def empty_dispatch_def)
qed

text \<open>
  A failed flush strands its batch: when the call for a claimed batch fails, its entries stay
  claimed, later claims for the action never return them, and the pending count the worker compares with the
  threshold still includes them.
\<close>

theorem failed_flush_strands_batch:
  assumes "claim_batch (sa_id sa) 100 (wk_db k) = (batch, db)" "batch \<noteq> []"
    and "\<And>new_id evs w. \<exists>e w'. execute_action (worker_ports env new_id) owner (sa_action sa) evs w = (Inl e, w')"
    and "flush_action env sa owner k = (r, k')"
  shows "dd_accumulator (wk_db k') = dd_accumulator (wk_db k) \<and>
    pending_count (sa_id sa) (wk_db k') = pending_count (sa_id sa) (wk_db k) \<and>
    (\<forall>e \<in> set batch. \<forall>limit. e \<notin> set (fst (claim_batch (sa_id sa) limit (wk_db k'))))"
proof -
  obtain r1 k1 where c: "call_action env owner (sa_action sa) (map (entry_payload env) batch) (k\<lparr>wk_db := db\<rparr>) = (r1, k1)" by force
  obtain e w where "execute_action (worker_ports env (we_ids env (wk_tick k))) owner (sa_action sa) (map (entry_payload env) batch) (wk_world k, []) = (Inl e, w)"
    using assms(3) by blast
  then have "r1 = Inl e" using c by (auto simp: call_action_def split: prod.splits)
  then have k': "k' = k1" using assms(1,2,4) c by (auto simp: flush_action_def split: if_splits)
  note a = call_action_acted [OF c]
  have acc: "dd_accumulator (wk_db k') = dd_accumulator (wk_db k)" "dd_claimed (wk_db k') = dd_claimed db"
    using a(3,4) assms(1) k' by (auto simp: claim_batch_def Let_def)
  have ins: "set (fold (\<lambda>e cs. List.insert (en_id e) cs) es cs) = en_id ` set es \<union> set cs" for es cs
    by (induction es arbitrary: cs) auto
  have "en_id ` set batch \<subseteq> set (dd_claimed db)" using assms(1) by (auto simp: claim_batch_def Let_def ins)
  then have "\<forall>e \<in> set batch. \<forall>limit. e \<notin> set (fst (claim_batch (sa_id sa) limit (wk_db k')))"
    using acc by (auto simp: claim_batch_def Let_def dest!: in_set_takeD)
  then show ?thesis using acc by (simp add: pending_count_def)
qed

definition stranded_worker :: "nat worker" where
  "stranded_worker = sample_worker\<lparr>wk_db := (wk_db sample_worker)\<lparr>dd_accumulator := [(30, \<lparr>en_id = 30, en_action_id = 4, en_event_id = 20, en_created_at = 0\<rparr>)]\<rparr>\<rparr>"

theorem failed_flush_strands_batch_witness:
  "pending_count 4 (wk_db (snd (flush_action sample_worker_env script_action 9 stranded_worker))) = pending_count 4 (wk_db stranded_worker)"
proof -
  obtain b db where b: "claim_batch (sa_id script_action) 100 (wk_db stranded_worker) = (b, db)" by force
  have "fst (claim_batch (sa_id script_action) 100 (wk_db stranded_worker)) = [\<lparr>en_id = 30, en_action_id = 4, en_event_id = 20, en_created_at = 0\<rparr>]" by code_simp
  with b have ne: "b \<noteq> []" by simp
  have ex: "\<exists>e w'. execute_action (worker_ports sample_worker_env new_id) 9 (sa_action script_action) evs w = (Inl e, w')" for new_id evs w
    by (simp add: execute_action_def run_script_action_def worker_ports_def sample_dispatch)
  obtain r k' where f: "flush_action sample_worker_env script_action 9 stranded_worker = (r, k')" by force
  from failed_flush_strands_batch [OF b ne ex f] f show ?thesis by (simp add: script_action_def)
qed

end
