(* ===== verification/Auth.thy ===== *)
theory Auth
  imports Secrets
begin

text \<open>
  Authentication and identity: consumers and credentials (\<open>auth/_inmemory.py\<close>), the verifiers
  (\<open>auth/_verifiers.py\<close>), the dispatcher over them with its audit events (\<open>auth/_authenticator.py\<close>), scopes
  (\<open>auth/_authorizer.py\<close>), message authentication with rotating keys (\<open>secrets/_mac_provider.py\<close>), principals
  (\<open>identity/_inmemory.py\<close>, \<open>identity/_registry.py\<close>) and the resolution of a caller
  (\<open>identity/_resolver.py\<close>).

  The hash and HMAC functions are the parameters \<open>sha256\<close> and \<open>hmac\<close> (of a text, and of an algorithm, a key and a
  message, as hexadecimal text); every result holds for all of them. One argument \<open>now\<close> stands for the clock
  readings of a call.
\<close>

section \<open>Data\<close>

datatype trust_tier = ANONYMOUS | IDENTIFIED | VERIFIED | SYSTEM

datatype mac_outcome = MATCH | MISMATCH

record mac_verdict =
  mv_outcome :: mac_outcome
  mv_secret_name :: string
  mv_algorithm :: string
  mv_verified_at :: time
  mv_matched_version :: "int option"

record consumer_record =
  cn_id :: uuid
  cn_principal_id :: uuid
  cn_name :: string
  cn_trust_tier :: trust_tier
  cn_scope_grants :: "string list"
  cn_disabled_at :: "time option"
  cn_created_at :: time

record credential_record =
  cd_id :: uuid
  cd_consumer_id :: uuid
  cd_credential_type :: string
  cd_credential_hash :: string
  cd_algorithm :: string
  cd_metadata :: jobj
  cd_secret_ref :: "string option"
  cd_created_at :: time

record auth_context =
  ax_id :: uuid
  ax_consumer_id :: "uuid option"
  ax_scopes :: "string list"
  ax_trust_tier :: trust_tier
  ax_authenticated_via :: string
  ax_issued_at :: time
  ax_expires_at :: "time option"

section \<open>The backend\<close>

record auth_backend =
  ab_consumers :: "(uuid, consumer_record) dict"
  ab_credentials :: "(uuid, credential_record) dict"

definition empty_auth :: auth_backend where
  "empty_auth = \<lparr>ab_consumers = [], ab_credentials = []\<rparr>"

definition create_consumer ::
  "time \<Rightarrow> string \<Rightarrow> trust_tier \<Rightarrow> string list \<Rightarrow> uuid \<Rightarrow> uuid \<Rightarrow> auth_backend \<Rightarrow> uuid \<times> auth_backend" where
  "create_consumer now name trust_tier scope_grants consumer_id principal_id b =
     (consumer_id, b\<lparr>ab_consumers := dict_set consumer_id
        \<lparr>cn_id = consumer_id, cn_principal_id = principal_id, cn_name = name, cn_trust_tier = trust_tier,
         cn_scope_grants = scope_grants, cn_disabled_at = None, cn_created_at = now\<rparr> (ab_consumers b)\<rparr>)"

definition get_consumer :: "uuid \<Rightarrow> auth_backend \<Rightarrow> consumer_record option" where
  "get_consumer consumer_id b = dict_get (ab_consumers b) consumer_id"

definition disable_consumer :: "time \<Rightarrow> uuid \<Rightarrow> auth_backend \<Rightarrow> auth_backend result" where
  "disable_consumer now consumer_id b =
     (case dict_get (ab_consumers b) consumer_id of
        None \<Rightarrow> Inl KeyError
      | Some existing \<Rightarrow>
          Inr (b\<lparr>ab_consumers := dict_set consumer_id (existing\<lparr>cn_disabled_at := Some now\<rparr>) (ab_consumers b)\<rparr>))"

definition create_credential ::
  "(string \<Rightarrow> string) \<Rightarrow> uuid \<Rightarrow> time \<Rightarrow> uuid \<Rightarrow> string \<Rightarrow> string \<Rightarrow> string option \<Rightarrow> auth_backend \<Rightarrow> uuid \<times> auth_backend" where
  "create_credential sha256 credential_id now consumer_id credential_type raw_value secret_ref b =
     (credential_id, b\<lparr>ab_credentials := dict_set credential_id
        \<lparr>cd_id = credential_id, cd_consumer_id = consumer_id, cd_credential_type = credential_type,
         cd_credential_hash = sha256 raw_value, cd_algorithm = ''sha256'', cd_metadata = [],
         cd_secret_ref = secret_ref, cd_created_at = now\<rparr> (ab_credentials b)\<rparr>)"

definition get_credential_by_id :: "uuid \<Rightarrow> auth_backend \<Rightarrow> credential_record option" where
  "get_credential_by_id credential_id b = dict_get (ab_credentials b) credential_id"

definition get_credential_by_hash :: "string \<Rightarrow> auth_backend \<Rightarrow> credential_record option" where
  "get_credential_by_hash credential_hash b =
     find (\<lambda>cred. cd_credential_hash cred = credential_hash) (dict_values (ab_credentials b))"

definition get_credentials_by_consumer :: "uuid \<Rightarrow> string option \<Rightarrow> auth_backend \<Rightarrow> credential_record list" where
  "get_credentials_by_consumer consumer_id credential_type b =
     filter (\<lambda>cred. cd_consumer_id cred = consumer_id \<and>
                    (credential_type \<noteq> None \<longrightarrow> credential_type = Some (cd_credential_type cred)))
       (dict_values (ab_credentials b))"

section \<open>Message authentication\<close>

definition ALGORITHMS :: "(string, string) dict" where
  "ALGORITHMS =
     [(''sha256'', ''sha256''), (''hmac-sha256'', ''sha256''), (''sha1'', ''sha1''), (''hmac-sha1'', ''sha1''),
      (''sha512'', ''sha512''), (''hmac-sha512'', ''sha512'')]"

definition MAX_VERSIONS :: nat where
  "MAX_VERSIONS = 10"

definition build_candidates :: "string \<Rightarrow> (string \<times> int option) list" where
  "build_candidates key_ref =
     (key_ref, None) # map (\<lambda>i. (key_ref @ '':'' @ nat_str i, Some (int i))) [1..<MAX_VERSIONS + 1]"

text \<open>\<open>hmac.compare_digest\<close> on two strings accepts ASCII only.\<close>

definition is_ascii :: "string \<Rightarrow> bool" where
  "is_ascii s = list_all (\<lambda>c. (of_char c :: nat) < 128) s"

definition compare_digest :: "string \<Rightarrow> string \<Rightarrow> bool result" where
  "compare_digest a b = (if is_ascii a \<and> is_ascii b then Inr (a = b) else Inl TypeError)"

fun try_candidates ::
  "(string \<Rightarrow> string \<Rightarrow> string \<Rightarrow> string) \<Rightarrow> secret_registry \<Rightarrow> string \<Rightarrow> string \<Rightarrow> string \<Rightarrow>
   (string \<times> int option) list \<Rightarrow> int option option result" where
  "try_candidates hmac registry algo message signature [] = Inr None"
| "try_candidates hmac registry algo message signature ((secret_name, version) # rest) =
     (case resolve registry secret_name of
        Inl _ \<Rightarrow> try_candidates hmac registry algo message signature rest
      | Inr key_value \<Rightarrow>
          (case compare_digest (hmac algo key_value message) signature of
             Inl e \<Rightarrow> Inl e
           | Inr matches \<Rightarrow>
               if matches then Inr (Some version)
               else try_candidates hmac registry algo message signature rest))"

type_synonym mac_provider = "string \<Rightarrow> string \<Rightarrow> string \<Rightarrow> string \<Rightarrow> mac_verdict result"

definition env_mac_verify ::
  "(string \<Rightarrow> string \<Rightarrow> string \<Rightarrow> string) \<Rightarrow> secret_registry \<Rightarrow> time \<Rightarrow> mac_provider" where
  "env_mac_verify hmac registry now key_ref message signature algorithm =
     (case dict_get ALGORITHMS (str_lower algorithm) of
        None \<Rightarrow> Inl ValueError
      | Some algo \<Rightarrow>
          (case try_candidates hmac registry algo message signature (build_candidates key_ref) of
             Inl e \<Rightarrow> Inl e
           | Inr matched \<Rightarrow>
               Inr \<lparr>mv_outcome = (if matched = None then MISMATCH else MATCH), mv_secret_name = key_ref,
                    mv_algorithm = algorithm, mv_verified_at = now, mv_matched_version = Option.bind matched id\<rparr>))"

section \<open>Verifiers\<close>

text \<open>
  The two verifier classes, and what raising in one means: an \<open>AuthenticationError\<close> with its message, or another
  exception.
\<close>

datatype verifier = HashCredentialVerifier string | HmacCredentialVerifier mac_provider

datatype auth_exn = AuthFailure string | Propagated exn

definition credential_type :: "verifier \<Rightarrow> string" where
  "credential_type v = (case v of HashCredentialVerifier t \<Rightarrow> t | HmacCredentialVerifier _ \<Rightarrow> ''hmac'')"

definition build_auth_context :: "time \<Rightarrow> credential_record \<Rightarrow> consumer_record \<Rightarrow> auth_context" where
  "build_auth_context now cred consumer =
     \<lparr>ax_id = cd_id cred, ax_consumer_id = Some (cn_id consumer), ax_scopes = remdups (cn_scope_grants consumer),
      ax_trust_tier = cn_trust_tier consumer, ax_authenticated_via = cd_credential_type cred,
      ax_issued_at = now, ax_expires_at = None\<rparr>"

text \<open>The last part of both \<open>verify\<close> methods: the consumer must exist and be enabled.\<close>

definition admit_consumer :: "time \<Rightarrow> credential_record \<Rightarrow> auth_backend \<Rightarrow> auth_exn + auth_context" where
  "admit_consumer now cred b =
     (case get_consumer (cd_consumer_id cred) b of
        None \<Rightarrow> Inl (AuthFailure ''Consumer not found for credential'')
      | Some consumer \<Rightarrow>
          if cn_disabled_at consumer \<noteq> None then Inl (AuthFailure ''Consumer is disabled'')
          else Inr (build_auth_context now cred consumer))"

definition hash_verify :: "(string \<Rightarrow> string) \<Rightarrow> time \<Rightarrow> credential_record \<Rightarrow> string \<Rightarrow> auth_backend \<Rightarrow> auth_exn + auth_context" where
  "hash_verify sha256 now cred presented b =
     (if cd_credential_hash cred \<noteq> sha256 presented then Inl (AuthFailure ''Credential hash mismatch'')
      else admit_consumer now cred b)"

definition hmac_verify :: "mac_provider \<Rightarrow> time \<Rightarrow> credential_record \<Rightarrow> string \<Rightarrow> auth_backend \<Rightarrow> auth_exn + auth_context" where
  "hmac_verify provider now cred presented b =
     (case cd_secret_ref cred of
        None \<Rightarrow> Inl (AuthFailure ''HMAC credential has no secret_ref -- cannot verify without a key reference'')
      | Some key_ref \<Rightarrow>
          (case split_max 2 CHR '':'' presented of
             [_, signature, message] \<Rightarrow>
               (case provider key_ref (utf8 message) signature (cd_algorithm cred) of
                  Inl e \<Rightarrow> Inl (Propagated e)
                | Inr verdict \<Rightarrow>
                    if mv_outcome verdict \<noteq> MATCH then Inl (AuthFailure ''HMAC signature mismatch'')
                    else admit_consumer now cred b)
           | _ \<Rightarrow> Inl (AuthFailure (''HMAC credential must be in format 'identifier:signature:message'' @ [CHR 0x27]))))"

definition verify :: "(string \<Rightarrow> string) \<Rightarrow> time \<Rightarrow> verifier \<Rightarrow> credential_record \<Rightarrow> string \<Rightarrow> auth_backend \<Rightarrow> auth_exn + auth_context" where
  "verify sha256 now v cred presented b =
     (case v of
        HashCredentialVerifier _ \<Rightarrow> hash_verify sha256 now cred presented b
      | HmacCredentialVerifier provider \<Rightarrow> hmac_verify provider now cred presented b)"

section \<open>The authenticator\<close>

record audit_event =
  au_credential_id :: string
  au_credential_type :: string
  au_consumer_id :: "string option"
  au_outcome :: string
  au_reason :: "string option"
  au_verified_at :: time

text \<open>
  The registry of verifiers. Calls return the audit events they emit, which go to the sink; a sink that raises
  is ignored.
\<close>

definition Authenticator :: "(string, verifier) dict \<Rightarrow> (string, verifier) dict result" where
  "Authenticator verifiers =
     (if list_ex (\<lambda>(t, v). credential_type v \<noteq> t) verifiers then Inl ValueError else Inr verifiers)"

text \<open>
  The operations return the calls of \<open>_emit_audit\<close> in their order; \<open>emit_audit\<close> is what such a call does: nothing without a sink, and
  an exception of the sink is only logged.
\<close>

definition emit_audit :: "(audit_event \<Rightarrow> 's \<Rightarrow> unit result \<times> 's) option \<Rightarrow> audit_event \<Rightarrow> 's \<Rightarrow> unit result \<times> 's" where
  "emit_audit audit_sink event s =
     (case audit_sink of
        None \<Rightarrow> (Inr (), s)
      | Some on_event \<Rightarrow>
          (case on_event event s of
             (Inl e, s') \<Rightarrow> if except_Exception e then (Inr (), s') else (Inl e, s')
           | (Inr _, s') \<Rightarrow> (Inr (), s')))"

definition audit_call :: "time \<Rightarrow> string \<Rightarrow> string \<Rightarrow> string option \<Rightarrow> string \<Rightarrow> string option \<Rightarrow> audit_event" where
  "audit_call now credential_id ctype consumer_id outcome reason =
     \<lparr>au_credential_id = credential_id, au_credential_type = ctype, au_consumer_id = consumer_id,
      au_outcome = outcome, au_reason = reason, au_verified_at = now\<rparr>"

definition audit_cred :: "time \<Rightarrow> credential_record \<Rightarrow> string \<Rightarrow> string option \<Rightarrow> audit_event" where
  "audit_cred now cred = audit_call now (uuid_str (cd_id cred)) (cd_credential_type cred) (Some (uuid_str (cd_consumer_id cred)))"

definition verify_with_record ::
  "(string \<Rightarrow> string) \<Rightarrow> time \<Rightarrow> (string, verifier) dict \<Rightarrow> credential_record \<Rightarrow> string \<Rightarrow> auth_backend \<Rightarrow>
   (auth_exn + auth_context) \<times> audit_event list" where
  "verify_with_record sha256 now verifiers cred presented b =
     (case dict_get verifiers (cd_credential_type cred) of
        None \<Rightarrow>
          (Inl (AuthFailure (''No verifier registered for credential type '' @ repr_str (cd_credential_type cred))),
           [audit_cred now cred ''failure'' (Some (''No verifier for type '' @ repr_str (cd_credential_type cred)))])
      | Some v \<Rightarrow>
          (case verify sha256 now v cred presented b of
             Inl (AuthFailure msg) \<Rightarrow> (Inl (AuthFailure msg), [audit_cred now cred ''failure'' (Some msg)])
           | Inl (Propagated e) \<Rightarrow> (Inl (Propagated e), [])
           | Inr ctx \<Rightarrow> (Inr ctx, [audit_cred now cred ''success'' None])))"

definition verify_by_credential_id ::
  "(string \<Rightarrow> string) \<Rightarrow> time \<Rightarrow> (string, verifier) dict \<Rightarrow> uuid \<Rightarrow> string \<Rightarrow> auth_backend \<Rightarrow>
   (auth_exn + auth_context) \<times> audit_event list" where
  "verify_by_credential_id sha256 now verifiers credential_id presented b =
     (case get_credential_by_id credential_id b of
        None \<Rightarrow>
          (Inl (AuthFailure ''Credential not found''),
           [audit_call now (uuid_str credential_id) ''unknown'' None ''failure'' (Some ''Credential not found by ID'')])
      | Some cred \<Rightarrow> verify_with_record sha256 now verifiers cred presented b)"

definition identifier_of :: "string \<Rightarrow> string" where
  "identifier_of raw =
     (if CHR '':'' \<in> set raw
      then (let parts = split_max 2 CHR '':'' raw in if length parts = 3 then hd parts else raw)
      else raw)"

definition find_credential :: "(string \<Rightarrow> string) \<Rightarrow> string \<Rightarrow> auth_backend \<Rightarrow> credential_record option" where
  "find_credential sha256 raw b =
     (case get_credential_by_hash (sha256 (identifier_of raw)) b of
        Some cred \<Rightarrow> Some cred
      | None \<Rightarrow> if identifier_of raw \<noteq> raw then get_credential_by_hash (sha256 raw) b else None)"

definition authenticate ::
  "(string \<Rightarrow> string) \<Rightarrow> time \<Rightarrow> (string, verifier) dict \<Rightarrow> string \<Rightarrow> auth_backend \<Rightarrow>
   (auth_exn + auth_context) \<times> audit_event list" where
  "authenticate sha256 now verifiers raw b =
     (case find_credential sha256 raw b of
        None \<Rightarrow>
          (Inl (AuthFailure ''Invalid credential''),
           [audit_call now ''unknown'' ''unknown'' None ''failure'' (Some ''No matching credential found'')])
      | Some cred \<Rightarrow> verify_with_record sha256 now verifiers cred raw b)"

definition authorize :: "auth_context \<Rightarrow> string \<Rightarrow> unit result" where
  "authorize ctx required_scope = (if required_scope \<in> set (ax_scopes ctx) then Inr () else Inl AuthorizationError)"

section \<open>The middleware\<close>

text \<open>
  \<open>auth/_middleware.py\<close>: the token of the first authorization header (bytes read as Latin-1, so the characters
  are the bytes), and what a request leads to: the application runs, with the context attached for HTTP and
  WebSocket, or it is answered with 401 or closed with 4001.
\<close>

fun extract_bearer_token :: "(string \<times> string) list \<Rightarrow> string option" where
  "extract_bearer_token [] = None"
| "extract_bearer_token ((name, val) # rest) =
     (if map (\<lambda>c. let n = of_char c :: nat in if 65 \<le> n \<and> n \<le> 90 then char_of (n + 32) else c) name = ''authorization''
      then (if startswith (str_lower val) ''bearer '' then Some (py_strip (drop 7 val)) else Some (py_strip val))
      else extract_bearer_token rest)"

datatype asgi_outcome = CallApp "auth_context option" | HttpError nat string | WebsocketClose nat

definition handle_http ::
  "(string \<Rightarrow> string) \<Rightarrow> time \<Rightarrow> (string, verifier) dict \<Rightarrow> (string \<times> string) list \<Rightarrow> auth_backend \<Rightarrow> asgi_outcome \<times> audit_event list" where
  "handle_http sha256 now verifiers headers b =
     (case extract_bearer_token headers of
        None \<Rightarrow> (HttpError 401 ''Missing Authorization header'', [])
      | Some raw_token \<Rightarrow>
          (case authenticate sha256 now verifiers raw_token b of
             (Inl _, audit) \<Rightarrow> (HttpError 401 ''Invalid or expired credential'', audit)
           | (Inr ctx, audit) \<Rightarrow> (CallApp (Some ctx), audit)))"

definition handle_websocket ::
  "(string \<Rightarrow> string) \<Rightarrow> time \<Rightarrow> (string, verifier) dict \<Rightarrow> (string \<times> string) list \<Rightarrow> auth_backend \<Rightarrow> asgi_outcome \<times> audit_event list" where
  "handle_websocket sha256 now verifiers headers b =
     (case extract_bearer_token headers of
        None \<Rightarrow> (WebsocketClose 4001, [])
      | Some raw_token \<Rightarrow>
          (case authenticate sha256 now verifiers raw_token b of
             (Inl _, audit) \<Rightarrow> (WebsocketClose 4001, audit)
           | (Inr ctx, audit) \<Rightarrow> (CallApp (Some ctx), audit)))"

definition auth_middleware ::
  "(string \<Rightarrow> string) \<Rightarrow> time \<Rightarrow> (string, verifier) dict \<Rightarrow> string \<Rightarrow> (string \<times> string) list \<Rightarrow> auth_backend \<Rightarrow> asgi_outcome \<times> audit_event list" where
  "auth_middleware sha256 now verifiers scope_type headers b =
     (if scope_type = ''http'' then handle_http sha256 now verifiers headers b
      else if scope_type = ''websocket'' then handle_websocket sha256 now verifiers headers b
      else (CallApp None, []))"

section \<open>Soundness\<close>

text \<open>
  What a verified credential proves: the record is the one presented, its consumer exists, is enabled and has
  the scopes of the context, and the presented value was checked, by its hash or by a message authentication
  code under a key the credential refers to.
\<close>

definition checked :: "(string \<Rightarrow> string) \<Rightarrow> verifier \<Rightarrow> credential_record \<Rightarrow> string \<Rightarrow> bool" where
  "checked sha256 v cred presented =
     (case v of
        HashCredentialVerifier _ \<Rightarrow> cd_credential_hash cred = sha256 presented
      | HmacCredentialVerifier provider \<Rightarrow>
          (\<exists>key_ref identifier signature message verdict. cd_secret_ref cred = Some key_ref \<and>
             split_max 2 CHR '':'' presented = [identifier, signature, message] \<and>
             provider key_ref (utf8 message) signature (cd_algorithm cred) = Inr verdict \<and> mv_outcome verdict = MATCH))"

definition vouched :: "(string \<Rightarrow> string) \<Rightarrow> (string, verifier) dict \<Rightarrow> credential_record \<Rightarrow> string \<Rightarrow> auth_backend \<Rightarrow> auth_context \<Rightarrow> bool" where
  "vouched sha256 verifiers cred presented b ctx =
     (\<exists>v consumer. dict_get verifiers (cd_credential_type cred) = Some v \<and> checked sha256 v cred presented \<and>
        get_consumer (cd_consumer_id cred) b = Some consumer \<and> cn_disabled_at consumer = None \<and>
        ax_id ctx = cd_id cred \<and> ax_consumer_id ctx = Some (cn_id consumer) \<and>
        ax_trust_tier ctx = cn_trust_tier consumer \<and> set (ax_scopes ctx) = set (cn_scope_grants consumer))"

lemma admit_consumer_Inr:
  "admit_consumer now cred b = Inr ctx \<longleftrightarrow>
     (\<exists>consumer. get_consumer (cd_consumer_id cred) b = Some consumer \<and> cn_disabled_at consumer = None \<and>
        ctx = build_auth_context now cred consumer)"
  by (auto simp: admit_consumer_def split: option.splits)

lemma verify_Inr:
  "verify sha256 now v cred presented b = Inr ctx \<longleftrightarrow>
     checked sha256 v cred presented \<and> admit_consumer now cred b = Inr ctx"
  by (cases v)
    (auto simp: verify_def hash_verify_def hmac_verify_def checked_def split: option.splits list.splits sum.splits if_splits)

lemma verify_with_record_Inr:
  "verify_with_record sha256 now verifiers cred presented b = (Inr ctx, audit) \<Longrightarrow>
   vouched sha256 verifiers cred presented b ctx \<and> audit = [audit_cred now cred ''success'' None]"
  by (auto simp: verify_with_record_def vouched_def verify_Inr admit_consumer_Inr build_auth_context_def
      split: option.splits sum.splits auth_exn.splits)

lemma find_credential_hash:
  "find_credential sha256 raw b = Some cred \<Longrightarrow>
   cred \<in> set (dict_values (ab_credentials b)) \<and> cd_credential_hash cred \<in> {sha256 (identifier_of raw), sha256 raw}"
  by (auto simp: find_credential_def get_credential_by_hash_def find_Some_iff split: option.splits if_splits)

text \<open>
  C11. The middleware guards the application: for HTTP and WebSocket requests the application runs only with
  a context, and then the header carried a value for which a stored credential was found by its hash and
  verified, its consumer exists, is not disabled and has exactly the scopes and the tier of the context, and
  one audit event of success was handed over for that credential (to the audit sink, when one is configured).
\<close>

theorem middleware_guards_app:
  assumes "auth_middleware sha256 now verifiers scope_type headers b = (CallApp ctx, audit)"
    and "scope_type = ''http'' \<or> scope_type = ''websocket''"
  shows "\<exists>raw c cred. extract_bearer_token headers = Some raw \<and> ctx = Some c \<and>
    cred \<in> set (dict_values (ab_credentials b)) \<and> cd_credential_hash cred \<in> {sha256 (identifier_of raw), sha256 raw} \<and>
    vouched sha256 verifiers cred raw b c \<and> audit = [audit_cred now cred ''success'' None]"
proof -
  obtain raw c where raw: "extract_bearer_token headers = Some raw" "ctx = Some c"
      "authenticate sha256 now verifiers raw b = (Inr c, audit)"
    using assms by (auto simp: auth_middleware_def handle_http_def handle_websocket_def
        split: if_splits option.splits prod.splits sum.splits)
  then obtain cred where "find_credential sha256 raw b = Some cred"
      "verify_with_record sha256 now verifiers cred raw b = (Inr c, audit)"
    by (auto simp: authenticate_def split: option.splits)
  then show ?thesis using raw(1,2) find_credential_hash verify_with_record_Inr by blast
qed

definition sample_auth :: auth_backend where
  "sample_auth = \<lparr>ab_consumers = [(5, \<lparr>cn_id = 5, cn_principal_id = 6, cn_name = ''app'', cn_trust_tier = VERIFIED,
       cn_scope_grants = [''runs:read''], cn_disabled_at = None, cn_created_at = 0\<rparr>)],
     ab_credentials = [(7, \<lparr>cd_id = 7, cd_consumer_id = 5, cd_credential_type = ''api_key'', cd_credential_hash = ''nekot'',
       cd_algorithm = ''sha256'', cd_metadata = [], cd_secret_ref = None, cd_created_at = 0\<rparr>),
      (8, \<lparr>cd_id = 8, cd_consumer_id = 5, cd_credential_type = ''hmac'', cd_credential_hash = ''di'',
       cd_algorithm = ''sha256'', cd_metadata = [], cd_secret_ref = Some ''hook'', cd_created_at = 0\<rparr>)]\<rparr>"

definition sample_verifiers :: "(string, verifier) dict" where
  "sample_verifiers = [(''api_key'', HashCredentialVerifier ''api_key''),
     (''hmac'', HmacCredentialVerifier (env_mac_verify (\<lambda>algo key msg. key @ ''/'' @ msg)
        \<lparr>sr_secrets = [(''hook:2'', ''k'')], sr_scrub_order = []\<rparr> 9))]"

theorem middleware_guards_app_witness:
  "\<exists>c audit. auth_middleware rev 9 sample_verifiers ''http'' [(''Authorization'', ''Bearer token'')] sample_auth = (CallApp (Some c), audit) \<and>
     set (ax_scopes c) = {''runs:read''}"
proof -
  let ?r = "auth_middleware rev 9 sample_verifiers ''http'' [(''Authorization'', ''Bearer token'')] sample_auth"
  have "case fst ?r of CallApp (Some _) \<Rightarrow> True | _ \<Rightarrow> False" by code_simp
  then obtain c audit where m: "?r = (CallApp (Some c), audit)"
    by (cases ?r) (auto split: asgi_outcome.splits option.splits)
  from middleware_guards_app [OF this disjI1 [OF refl]] obtain raw c' cred where
    *: "extract_bearer_token [(''Authorization'', ''Bearer token'')] = Some raw \<and> Some c = Some c' \<and>
       cred \<in> set (dict_values (ab_credentials sample_auth)) \<and> cd_credential_hash cred \<in> {rev (identifier_of raw), rev raw} \<and>
       vouched rev sample_verifiers cred raw sample_auth c' \<and> audit = [audit_cred 9 cred ''success'' None]"
    by (elim exE) (rule that)
  have consumer: "get_consumer (cd_consumer_id cred) sample_auth = Some (snd (hd (ab_consumers sample_auth)))"
    using * by (auto simp: sample_auth_def dict_values_def get_consumer_def dict_get_def)
  have "vouched rev sample_verifiers cred raw sample_auth c" using * by simp
  then have "set (ax_scopes c) = set (cn_scope_grants (snd (hd (ab_consumers sample_auth))))"
    unfolding vouched_def consumer by auto
  with m show ?thesis by (auto simp: sample_auth_def)
qed

section \<open>The life of a credential\<close>

lemma get_credential_new:
  "dict_get (ab_credentials b) cid = None \<Longrightarrow>
   get_credential_by_hash h (snd (create_credential sha256 cid now k t raw r b)) =
     (case get_credential_by_hash h b of
        Some cred \<Rightarrow> Some cred
      | None \<Rightarrow> if sha256 raw = h then get_credential_by_id cid (snd (create_credential sha256 cid now k t raw r b)) else None)"
  by (auto simp: get_credential_by_hash_def get_credential_by_id_def create_credential_def dict_values_new find_append split: option.split)

lemma get_credential_consumers [simp]:
  "get_credential_by_hash h (b\<lparr>ab_consumers := x\<rparr>) = get_credential_by_hash h b"
  by (simp add: get_credential_by_hash_def)

lemma find_credential_consumers [simp]:
  "find_credential sha256 raw (b\<lparr>ab_consumers := x\<rparr>) = find_credential sha256 raw b"
  by (simp add: find_credential_def split: option.split)

text \<open>
  Round trip of a key: after \<open>create_credential\<close> for an enabled consumer, presenting the same value
  authenticates as that consumer with its scopes, provided that no stored credential has the hash of the
  value or of its first part; any value whose hashes are not stored is rejected; and once the consumer is
  disabled the value is rejected too. Each attempt emits exactly one audit event.
\<close>

theorem credential_lifecycle:
  assumes fresh: "dict_get (ab_credentials b) cid = None"
    and consumer: "get_consumer k b = Some consumer" "cn_disabled_at consumer = None"
    and unused: "get_credential_by_hash (sha256 raw) b = None" "get_credential_by_hash (sha256 (identifier_of raw)) b = None"
    and verifier: "dict_get verifiers t = Some (HashCredentialVerifier t')"
    and other: "get_credential_by_hash (sha256 wrong) b = None" "get_credential_by_hash (sha256 (identifier_of wrong)) b = None"
      "sha256 wrong \<noteq> sha256 raw" "sha256 (identifier_of wrong) \<noteq> sha256 raw"
  shows "\<exists>b1 b2 cred. create_credential sha256 cid now k t raw None b = (cid, b1) \<and>
    get_credential_by_id cid b1 = Some cred \<and>
    authenticate sha256 now verifiers raw b1 = (Inr (build_auth_context now cred consumer), [audit_cred now cred ''success'' None]) \<and>
    (\<exists>a. authenticate sha256 now verifiers wrong b1 = (Inl (AuthFailure ''Invalid credential''), [a])) \<and>
    disable_consumer now k b1 = Inr b2 \<and>
    authenticate sha256 now verifiers raw b2 =
      (Inl (AuthFailure ''Consumer is disabled''), [audit_cred now cred ''failure'' (Some ''Consumer is disabled'')])"
proof -
  let ?b1 = "snd (create_credential sha256 cid now k t raw None b)"
  obtain cred where cred: "get_credential_by_id cid ?b1 = Some cred" "cd_consumer_id cred = k" "cd_credential_type cred = t"
      "cd_credential_hash cred = sha256 raw"
    by (auto simp: get_credential_by_id_def create_credential_def)
  have found: "find_credential sha256 raw ?b1 = Some cred" "find_credential sha256 wrong ?b1 = None"
    using unused other cred(1) by (auto simp: find_credential_def get_credential_new [OF fresh] split: option.split)
  have k: "get_consumer k ?b1 = Some consumer" using consumer by (simp add: get_consumer_def create_credential_def)
  define b2 where "b2 = ?b1\<lparr>ab_consumers := dict_set k (consumer\<lparr>cn_disabled_at := Some now\<rparr>) (ab_consumers ?b1)\<rparr>"
  have b2: "disable_consumer now k ?b1 = Inr b2"
    using k by (simp add: disable_consumer_def get_consumer_def b2_def)
  have found2: "find_credential sha256 raw b2 = Some cred"
    using found(1) by (simp add: b2_def)
  show ?thesis
  proof (intro exI conjI)
    show "create_credential sha256 cid now k t raw None b = (cid, ?b1)" by (simp add: create_credential_def)
    show "get_credential_by_id cid ?b1 = Some cred" by (rule cred)
    show "authenticate sha256 now verifiers raw ?b1 = (Inr (build_auth_context now cred consumer), [audit_cred now cred ''success'' None])"
      using found k consumer cred verifier
      by (simp add: authenticate_def verify_with_record_def verify_def hash_verify_def admit_consumer_def)
    show "authenticate sha256 now verifiers wrong ?b1 = (Inl (AuthFailure ''Invalid credential''),
        [audit_call now ''unknown'' ''unknown'' None ''failure'' (Some ''No matching credential found'')])"
      using found by (simp add: authenticate_def)
    show "disable_consumer now k ?b1 = Inr b2" by (rule b2)
    show "authenticate sha256 now verifiers raw b2 =
        (Inl (AuthFailure ''Consumer is disabled''), [audit_cred now cred ''failure'' (Some ''Consumer is disabled'')])"
      using found2 cred verifier
      by (simp add: authenticate_def verify_with_record_def verify_def hash_verify_def admit_consumer_def get_consumer_def b2_def)
  qed
qed

theorem credential_lifecycle_witness:
  "\<exists>b1 b2 cred. create_credential rev 11 9 5 ''api_key'' ''s3cret'' None sample_auth = (11, b1) \<and>
     get_credential_by_id 11 b1 = Some cred \<and> disable_consumer 9 5 b1 = Inr b2 \<and>
     authenticate rev 9 sample_verifiers ''s3cret'' b2 =
       (Inl (AuthFailure ''Consumer is disabled''), [audit_cred 9 cred ''failure'' (Some ''Consumer is disabled'')])"
  using credential_lifecycle [of sample_auth 11 5 _ rev "''s3cret''" sample_verifiers "''api_key''" "''api_key''" "''guess''" 9]
  by (auto simp: sample_auth_def sample_verifiers_def get_consumer_def get_credential_by_hash_def dict_get_def dict_values_def
      identifier_of_def)

section \<open>Key rotation\<close>

definition signs :: "(string \<Rightarrow> string \<Rightarrow> string \<Rightarrow> string) \<Rightarrow> secret_registry \<Rightarrow> string \<Rightarrow> string \<Rightarrow> string \<Rightarrow> string \<Rightarrow> bool" where
  "signs hmac registry algo message signature name =
     (case resolve registry name of Inl _ \<Rightarrow> False | Inr key \<Rightarrow> hmac algo key message = signature)"

lemma try_candidates_match:
  assumes "is_ascii signature" "\<And>key. is_ascii (hmac algo key message)"
  shows "\<exists>r. try_candidates hmac registry algo message signature cs = Inr r \<and>
    (r \<noteq> None \<longleftrightarrow> list_ex (signs hmac registry algo message signature) (map fst cs))"
  by (induction cs) (auto simp: compare_digest_def signs_def assms split: sum.splits)

lemma try_candidates_sound:
  "try_candidates hmac registry algo message signature cs = Inr (Some v) \<Longrightarrow>
   list_ex (signs hmac registry algo message signature) (map fst cs)"
  by (induction cs) (auto simp: compare_digest_def signs_def split: sum.splits if_splits)

lemma env_mac_verify_match:
  "env_mac_verify hmac registry now key_ref message signature algorithm = Inr verdict \<Longrightarrow> mv_outcome verdict = MATCH \<Longrightarrow>
   \<exists>algo. dict_get ALGORITHMS (str_lower algorithm) = Some algo \<and>
     list_ex (signs hmac registry algo message signature) (map fst (build_candidates key_ref))"
  by (auto simp: env_mac_verify_def dest!: try_candidates_sound split: option.splits sum.splits if_splits)

text \<open>
  Key rotation is exact: for a signature and digests in ASCII and a supported algorithm, the provider
  answers with a match if and only if the base key or one of its versions \<open>1\<close> to \<open>10\<close> is registered and gives
  the signature for the message; a missing version is skipped, not an error.
\<close>

theorem key_rotation_exact:
  assumes "dict_get ALGORITHMS (str_lower algorithm) = Some algo" "is_ascii signature" "\<And>key. is_ascii (hmac algo key message)"
  shows "\<exists>verdict. env_mac_verify hmac registry now key_ref message signature algorithm = Inr verdict \<and>
    (mv_outcome verdict = MATCH \<longleftrightarrow>
       list_ex (signs hmac registry algo message signature) (key_ref # map (\<lambda>i. key_ref @ '':'' @ nat_str i) [1..<11]))"
proof -
  have c: "map fst (build_candidates key_ref) = key_ref # map (\<lambda>i. key_ref @ '':'' @ nat_str i) [1..<11]"
    by (simp add: build_candidates_def MAX_VERSIONS_def comp_def)
  show ?thesis
    using try_candidates_match [of signature hmac algo message registry "build_candidates key_ref", OF assms(2,3)] assms(1)
    unfolding c by (auto simp: env_mac_verify_def)
qed

theorem key_rotation_exact_witness:
  "\<exists>verdict. env_mac_verify (\<lambda>algo key msg. ''d'' @ (if key = ''new'' then ''1'' else ''0''))
       \<lparr>sr_secrets = [(''hook'', ''old''), (''hook:2'', ''new'')], sr_scrub_order = []\<rparr> 9 ''hook'' ''body'' ''d1'' ''sha256'' = Inr verdict \<and>
     mv_outcome verdict = MATCH"
proof -
  let ?h = "\<lambda>algo key msg. ''d'' @ (if key = ''new'' then ''1'' else ''0'')"
  let ?r = "\<lparr>sr_secrets = [(''hook'', ''old''), (''hook:2'', ''new'')], sr_scrub_order = []\<rparr>"
  have a: "dict_get ALGORITHMS (str_lower ''sha256'') = Some ''sha256''" "is_ascii ''d1''" by code_simp+
  have d: "is_ascii (?h algo key msg)" for algo key msg :: string by (simp add: is_ascii_def)
  have "list_ex (signs ?h ?r ''sha256'' ''body'' ''d1'') (''hook'' # map (\<lambda>i. ''hook'' @ '':'' @ nat_str i) [1..<11])"
    by code_simp
  then show ?thesis using key_rotation_exact [of "''sha256''" "''sha256''" "''d1''" ?h "''body''" ?r 9 "''hook''", OF a d] by blast
qed

text \<open>
  Not every verification emits an audit event: presenting a signature with a character outside ASCII for an
  HMAC credential whose key is registered makes the comparison raise \<open>TypeError\<close>, which is neither turned into
  an authentication failure nor audited.
\<close>

theorem audit_gap:
  assumes "get_credential_by_id credential_id b = Some cred" "cd_secret_ref cred = Some key_ref"
    and "dict_get verifiers (cd_credential_type cred) = Some (HmacCredentialVerifier (env_mac_verify hmac registry now))"
    and "dict_get ALGORITHMS (str_lower (cd_algorithm cred)) = Some algo" "resolve registry key_ref = Inr key"
    and "\<not> is_ascii signature" "CHR '':'' \<notin> set signature" "CHR '':'' \<notin> set identifier"
  shows "verify_by_credential_id sha256 now verifiers credential_id (identifier @ '':'' @ signature @ '':'' @ message) b =
    (Inl (Propagated TypeError), [])"
  using assms
  by (simp add: verify_by_credential_id_def verify_with_record_def verify_def hmac_verify_def split_max_two env_mac_verify_def
      build_candidates_def compare_digest_def)

theorem audit_gap_witness:
  "verify_by_credential_id rev 9
     [(''hmac'', HmacCredentialVerifier (env_mac_verify (\<lambda>algo key msg. msg) \<lparr>sr_secrets = [(''hook'', ''k'')], sr_scrub_order = []\<rparr> 9))]
     8 (''_'' @ '':'' @ [CHR 0xE9] @ '':'' @ ''body'') sample_auth = (Inl (Propagated TypeError), [])"
proof -
  have a: "dict_get ALGORITHMS (str_lower ''sha256'') = Some ''sha256''" by code_simp
  show ?thesis
    by (rule audit_gap [where cred = "snd (ab_credentials sample_auth ! 1)" and key_ref = "''hook''" and algo = "''sha256''" and key = "''k''"
          and hmac = "\<lambda>algo key msg. msg" and registry = "\<lparr>sr_secrets = [(''hook'', ''k'')], sr_scrub_order = []\<rparr>"])
      (simp_all add: sample_auth_def get_credential_by_id_def dict_get_def resolve_def is_ascii_def a [unfolded dict_get_def])
qed

end
