(* ===== verification/Identity.thy ===== *)
theory Identity
  imports Auth
begin

text \<open>
  Durable identities: the principals of runs, consumers, sources and the system (\<open>identity/_inmemory.py\<close>,
  \<open>protocols/_types/_identity.py\<close>), the registry of kinds (\<open>identity/_registry.py\<close>), and the principal an
  authenticated request resolves to (\<open>identity/_resolver.py\<close>).
\<close>

section \<open>Data\<close>

record principal =
  pr_id :: uuid
  pr_kind :: string
  pr_external_ref :: uuid
  pr_display_name :: "string option"
  pr_created_at :: time

definition KIND_RUN :: string where "KIND_RUN = ''run''"
definition KIND_CONSUMER :: string where "KIND_CONSUMER = ''consumer''"
definition KIND_SOURCE :: string where "KIND_SOURCE = ''source''"
definition KIND_SYSTEM :: string where "KIND_SYSTEM = ''system''"

definition BUILTIN_KINDS :: "string list" where
  "BUILTIN_KINDS = [KIND_RUN, KIND_CONSUMER, KIND_SOURCE, KIND_SYSTEM]"

definition SYSTEM_PRINCIPAL_EXTERNAL_REF :: uuid where
  "SYSTEM_PRINCIPAL_EXTERNAL_REF = 0"

section \<open>Kinds\<close>

fun add_kinds :: "string list \<Rightarrow> string list \<Rightarrow> string list result" where
  "add_kinds kinds [] = Inr kinds"
| "add_kinds kinds (kind # rest) =
     (if kind = [] \<or> py_strip kind = [] then Inl ValueError
      else if kind \<in> set kinds then Inl ValueError
      else add_kinds (kinds @ [kind]) rest)"

definition KindRegistry :: "string list \<Rightarrow> string list result" where
  "KindRegistry app_kinds = add_kinds BUILTIN_KINDS app_kinds"

definition validate_kind :: "string list \<Rightarrow> string \<Rightarrow> unit result" where
  "validate_kind kinds kind = (if kind \<in> set kinds then Inr () else Inl ValueError)"

section \<open>Storage\<close>

type_synonym principals = "(uuid, principal) dict"

definition find_by_ref :: "string \<Rightarrow> uuid \<Rightarrow> principals \<Rightarrow> principal option" where
  "find_by_ref kind external_ref ps =
     find (\<lambda>p. pr_kind p = kind \<and> pr_external_ref p = external_ref) (dict_values ps)"

definition mint_principal :: "uuid \<Rightarrow> time \<Rightarrow> string \<Rightarrow> uuid \<Rightarrow> string option \<Rightarrow> principals \<Rightarrow> principal \<times> principals" where
  "mint_principal new_id now kind external_ref display_name ps =
     (case find_by_ref kind external_ref ps of
        Some existing \<Rightarrow> (existing, ps)
      | None \<Rightarrow>
          (let principal = \<lparr>pr_id = new_id, pr_kind = kind, pr_external_ref = external_ref,
                            pr_display_name = display_name, pr_created_at = now\<rparr>
           in (principal, dict_set new_id principal ps)))"

definition get_principal :: "uuid \<Rightarrow> principals \<Rightarrow> principal option" where
  "get_principal principal_id ps = dict_get ps principal_id"

definition get_principal_by_ref :: "string \<Rightarrow> uuid \<Rightarrow> principals \<Rightarrow> principal option" where
  "get_principal_by_ref kind external_ref ps = find_by_ref kind external_ref ps"

definition list_principals :: "string option \<Rightarrow> principals \<Rightarrow> principal list" where
  "list_principals kind ps =
     (let sorted_ps = sort_key pr_created_at (dict_values ps)
      in case kind of None \<Rightarrow> sorted_ps | Some k \<Rightarrow> filter (\<lambda>p. pr_kind p = k) sorted_ps)"

definition update_display_name :: "uuid \<Rightarrow> string \<Rightarrow> principals \<Rightarrow> principals result" where
  "update_display_name principal_id display_name ps =
     (case dict_get ps principal_id of
        None \<Rightarrow> Inl KeyError
      | Some existing \<Rightarrow> Inr (dict_set principal_id (existing\<lparr>pr_display_name := Some display_name\<rparr>) ps))"

definition delete_principal :: "uuid \<Rightarrow> principals \<Rightarrow> principals" where
  "delete_principal principal_id ps = dict_pop principal_id ps"

text \<open>\<open>run_ids\<close> is what the provider returns, \<open>None\<close> when none was injected.\<close>

definition orphaned_run_principal :: "uuid list \<Rightarrow> time \<Rightarrow> principal \<Rightarrow> bool" where
  "orphaned_run_principal run_ids cutoff p =
     (pr_kind p = KIND_RUN \<and> pr_external_ref p \<notin> set run_ids \<and> pr_created_at p < cutoff)"

definition sweep_orphaned_run_principals :: "uuid list option \<Rightarrow> time \<Rightarrow> time \<Rightarrow> principals \<Rightarrow> nat \<times> principals" where
  "sweep_orphaned_run_principals provider now older_than ps =
     (case provider of
        None \<Rightarrow> (0, ps)
      | Some run_ids \<Rightarrow>
          (let to_delete = map fst (filter (\<lambda>(pid, p). orphaned_run_principal run_ids (now - older_than) p) ps)
           in (length to_delete, fold dict_pop to_delete ps)))"

section \<open>The caller of a request\<close>

definition resolve_caller_principal :: "auth_context \<Rightarrow> principals \<Rightarrow> principal result" where
  "resolve_caller_principal ctx ps =
     (if ax_trust_tier ctx = SYSTEM
      then (case get_principal_by_ref KIND_SYSTEM SYSTEM_PRINCIPAL_EXTERNAL_REF ps of
              None \<Rightarrow> Inl RuntimeError | Some p \<Rightarrow> Inr p)
      else (case ax_consumer_id ctx of
              None \<Rightarrow> Inl RuntimeError
            | Some consumer_id \<Rightarrow>
                (case get_principal_by_ref KIND_CONSUMER consumer_id ps of
                   None \<Rightarrow> Inl RuntimeError | Some p \<Rightarrow> Inr p)))"

section \<open>One principal per actor\<close>

text \<open>
  The steps of the storage, with \<open>uuid7\<close> giving an identifier that is not in use, and the invariant: a row is
  stored under its own identifier, and no two rows have the same kind and external reference.
\<close>

inductive identity_step :: "principals \<Rightarrow> principals \<Rightarrow> bool" where
  mint: "dict_get ps new_id = None \<Longrightarrow> mint_principal new_id now kind external_ref name ps = (p, ps') \<Longrightarrow> identity_step ps ps'"
| rename: "update_display_name i name ps = Inr ps' \<Longrightarrow> identity_step ps ps'"
| delete: "identity_step ps (delete_principal i ps)"
| sweep: "sweep_orphaned_run_principals provider now older_than ps = (n, ps') \<Longrightarrow> identity_step ps ps'"

definition ref_of :: "principal \<Rightarrow> string \<times> uuid" where
  "ref_of = (\<lambda>p. (pr_kind p, pr_external_ref p))"

definition unique_refs :: "principals \<Rightarrow> bool" where
  "unique_refs ps = (dict_wf ps \<and> dict_all (\<lambda>i p. pr_id p = i) ps \<and> distinct (map ref_of (dict_values ps)))"

lemma find_by_ref_None: "find_by_ref kind ref ps = None \<longleftrightarrow> (kind, ref) \<notin> ref_of ` set (dict_values ps)"
  by (auto simp: find_by_ref_def find_None_iff ref_of_def)

lemma find_by_ref_Some: "find_by_ref kind ref ps = Some p \<Longrightarrow> p \<in> set (dict_values ps) \<and> ref_of p = (kind, ref)"
  by (auto simp: find_by_ref_def find_Some_iff ref_of_def)

lemma dict_set_known_values:
  "dict_get ps i = Some p \<Longrightarrow> f q = f p \<Longrightarrow> map f (dict_values (dict_set i q ps)) = map f (dict_values ps)"
  by (induction ps) (auto simp: dict_get_def dict_set_def dict_values_def split: if_splits)

lemma unique_refs_pop: "unique_refs ps \<Longrightarrow> unique_refs (dict_pop i ps)"
proof -
  assume u: "unique_refs ps"
  have "distinct (map ref_of (dict_values (dict_pop i ps)))"
    using u by (auto simp: unique_refs_def dict_values_def dict_pop_def AList.delete_eq intro: distinct_map_filter)
  then show ?thesis using u by (auto simp: unique_refs_def)
qed

lemma unique_refs_pops: "unique_refs ps \<Longrightarrow> unique_refs (fold dict_pop is ps)"
  by (induction "is" arbitrary: ps) (simp_all add: unique_refs_pop)

lemma identity_step_unique: "identity_step ps ps' \<Longrightarrow> unique_refs ps \<Longrightarrow> unique_refs ps'"
proof (induction rule: identity_step.induct)
  case (mint ps new_id now kind external_ref name p ps')
  show ?case
  proof (cases "find_by_ref kind external_ref ps")
    case None
    then have "ps' = dict_set new_id p ps" "ref_of p = (kind, external_ref)" "pr_id p = new_id"
      using mint.hyps by (auto simp: mint_principal_def ref_of_def Let_def)
    then show ?thesis
      using mint None by (auto simp: unique_refs_def dict_values_new find_by_ref_None)
  qed (use mint in \<open>simp add: mint_principal_def\<close>)
next
  case (rename i name ps ps')
  then obtain p where p: "dict_get ps i = Some p" "ps' = dict_set i (p\<lparr>pr_display_name := Some name\<rparr>) ps"
    by (auto simp: update_display_name_def split: option.splits)
  have "map ref_of (dict_values ps') = map ref_of (dict_values ps)"
    unfolding p(2) by (rule dict_set_known_values [OF p(1)]) (simp add: ref_of_def)
  moreover have "pr_id p = i" using rename.prems p(1) by (auto simp: unique_refs_def)
  ultimately show ?case using rename.prems p by (auto simp: unique_refs_def)
qed (auto simp: delete_principal_def sweep_orphaned_run_principals_def unique_refs_pop unique_refs_pops Let_def split: option.splits)

interpretation identities: invariant_system "\<lambda>ps. ps = []" identity_step unique_refs
  by unfold_locales (simp add: unique_refs_def dict_values_def, rule identity_step_unique)

lemma unique_refs_find:
  "unique_refs ps \<Longrightarrow> p \<in> set (dict_values ps) \<Longrightarrow> find_by_ref (pr_kind p) (pr_external_ref p) ps = Some p"
proof -
  assume u: "unique_refs ps" and p: "p \<in> set (dict_values ps)"
  obtain q where q: "find_by_ref (pr_kind p) (pr_external_ref p) ps = Some q"
    using p find_by_ref_None [of "pr_kind p" "pr_external_ref p" ps] by (cases "find_by_ref (pr_kind p) (pr_external_ref p) ps") (force simp: ref_of_def)+
  then have "q \<in> set (dict_values ps)" "ref_of q = ref_of p" using find_by_ref_Some [OF q] by (auto simp: ref_of_def)
  then have "q = p" using u p by (auto simp: unique_refs_def distinct_map dest: inj_onD)
  then show ?thesis using q by simp
qed

text \<open>
  C37. One principal per actor: after any sequence of minting, renaming, deleting and sweeping, no two
  principals share a kind and an external reference, and minting is idempotent: the principal returned is found
  by its reference and its identifier, and minting again returns it and changes nothing.
\<close>

theorem one_principal_per_actor:
  assumes "identity_step\<^sup>*\<^sup>* [] ps" "dict_get ps new_id = None"
    and "mint_principal new_id now kind external_ref name ps = (p, ps')"
  shows "distinct (map (\<lambda>p. (pr_kind p, pr_external_ref p)) (dict_values ps')) \<and>
    get_principal_by_ref kind external_ref ps' = Some p \<and> get_principal (pr_id p) ps' = Some p \<and>
    mint_principal new_id' now' kind external_ref name' ps' = (p, ps')"
proof -
  have "identity_step\<^sup>*\<^sup>* [] ps'" using assms by (meson identity_step.mint rtranclp.rtrancl_into_rtrancl)
  then have u: "unique_refs ps'" by (rule identities.reachable_inv [OF refl])
  have p: "p \<in> set (dict_values ps')" "pr_kind p = kind" "pr_external_ref p = external_ref"
    using assms(2,3) by (auto simp: mint_principal_def ref_of_def dict_values_new Let_def dest: find_by_ref_Some split: option.splits)
  then have "find_by_ref kind external_ref ps' = Some p" using unique_refs_find [OF u] by blast
  moreover have "dict_get ps' (pr_id p) = Some p"
    using u p(1) by (auto simp: unique_refs_def dict_values_def dict_get_iff dest: dict_all_mem)
  ultimately show ?thesis
    using u by (simp add: unique_refs_def ref_of_def get_principal_by_ref_def get_principal_def mint_principal_def)
qed

theorem one_principal_per_actor_witness:
  "get_principal_by_ref ''user'' 4 (snd (mint_principal 9 5 ''user'' 4 None [])) =
     Some (fst (mint_principal 9 5 ''user'' 4 None []))"
  by (rule one_principal_per_actor [of "[]" 9 5 "''user''" 4 None, OF rtranclp.rtrancl_refl _ prod.collapse [symmetric],
        THEN conjunct2, THEN conjunct1]) simp

section \<open>Sweeping\<close>

lemma fold_dict_pop: "fold dict_pop ks d = filter (\<lambda>(k, v). k \<notin> set ks) d"
  by (induction ks arbitrary: d) (auto simp: dict_pop_def AList.delete_eq intro!: filter_cong)

lemma sweep_exact:
  assumes "dict_wf ps"
  shows "sweep_orphaned_run_principals (Some run_ids) now older_than ps =
    (length (filter (orphaned_run_principal run_ids (now - older_than)) (dict_values ps)),
     filter (\<lambda>(k, p). \<not> orphaned_run_principal run_ids (now - older_than) p) ps)"
proof -
  let ?o = "orphaned_run_principal run_ids (now - older_than)"
  have "k \<in> set (map fst (filter (\<lambda>(pid, p). ?o p) ps)) \<longleftrightarrow> ?o v" if "(k, v) \<in> set ps" for k v
    using that assms by (force simp: dict_wf_def dest: eq_key_imp_eq_value)
  then have "filter (\<lambda>(k, v). k \<notin> set (map fst (filter (\<lambda>(pid, p). ?o p) ps))) ps = filter (\<lambda>(k, p). \<not> ?o p) ps"
    by (intro filter_cong refl) (auto simp del: set_map)
  moreover have "length (filter ?o (dict_values ps)) = length (filter (\<lambda>(pid, p). ?o p) ps)"
    by (simp add: dict_values_def filter_map comp_def case_prod_beta')
  ultimately show ?thesis
    unfolding sweep_orphaned_run_principals_def fold_dict_pop Let_def by simp
qed

end
