(* ===== verification/Incoming.thy ===== *)
theory Incoming
  imports Identity Dispatch Trace_Reader
begin

text \<open>
  External events: the webhook receiver (\<open>incoming/_receiver.py\<close>), the replay endpoint
  (\<open>incoming/_replay.py\<close>) and the event stream with catch-up (\<open>incoming/_stream.py\<close>). They join four components:
  the source is looked up in the dispatch backend, the credential verified by the authenticator, the event
  attributed to the principal of the source, and the trace holds the events.

  The web framework gives a request: its body as bytes and as text decoded from UTF-8, its headers and its query
  parameters. \<open>json.loads\<close> on bytes (\<open>None\<close> for an error) and \<open>UUID(s)\<close> are the parameters \<open>loads\<close> and
  \<open>parse_uuid\<close>. The values of a source's configuration that the code reads are strings.
\<close>

section \<open>Requests and configuration\<close>

record request =
  rq_slug :: string
  rq_body :: string
  rq_text :: string
  rq_header :: "string \<Rightarrow> string option"
  rq_since :: "string option"
  rq_limit :: "int option"

definition config_str :: "jobj \<Rightarrow> string \<Rightarrow> string option" where
  "config_str cfg key = (case dict_get cfg key of Some (JStr s) \<Rightarrow> Some s | _ \<Rightarrow> None)"

definition source_config :: "source \<Rightarrow> jobj" where
  "source_config so = (case so_config so of None \<Rightarrow> [] | Some cfg \<Rightarrow> cfg)"

definition DEFAULT_MAX_BODY_BYTES :: nat where
  "DEFAULT_MAX_BODY_BYTES = 1048576"

section \<open>Extraction\<close>

definition strip_bearer :: "string \<Rightarrow> string" where
  "strip_bearer v = (if startswith (str_lower v) ''bearer '' then drop 7 v else v)"

definition strip_algorithm :: "string \<Rightarrow> string" where
  "strip_algorithm signature =
     (if startswith signature ''sha256='' \<or> startswith signature ''sha1='' \<or> startswith signature ''sha512=''
      then split_max 1 CHR ''='' signature ! 1 else signature)"

definition auth_header_name :: "jobj \<Rightarrow> string" where
  "auth_header_name cfg = (case config_str cfg ''auth_header'' of None \<Rightarrow> ''Authorization'' | Some h \<Rightarrow> h)"

definition build_presented_credential :: "request \<Rightarrow> jobj \<Rightarrow> string + string" where
  "build_presented_credential rq cfg =
     (case config_str cfg ''signature_header'' of
        Some signature_header \<Rightarrow>
          (case rq_header rq signature_header of
             None \<Rightarrow> Inl (''Missing signature header: '' @ signature_header)
           | Some signature \<Rightarrow> Inr (''_:'' @ strip_algorithm signature @ '':'' @ rq_text rq))
      | None \<Rightarrow>
          (case rq_header rq (auth_header_name cfg) of
             None \<Rightarrow> Inl (''Missing authentication header: '' @ auth_header_name cfg)
           | Some auth_value \<Rightarrow> Inr (strip_bearer auth_value)))"

fun walk_path :: "string list \<Rightarrow> json \<Rightarrow> json option" where
  "walk_path [] current = Some current"
| "walk_path (part # parts) current =
     (case current of
        JObj kvs \<Rightarrow> (case dict_get kvs part of None \<Rightarrow> None | Some v \<Rightarrow> walk_path parts v)
      | _ \<Rightarrow> None)"

definition extract_event_type :: "(string \<Rightarrow> json option) \<Rightarrow> request \<Rightarrow> jobj \<Rightarrow> string + string" where
  "extract_event_type loads rq cfg =
     (case (config_str cfg ''event_type_source'', config_str cfg ''event_type_field'') of
        (Some source_type, Some field) \<Rightarrow>
          if source_type = ''header''
          then (case rq_header rq field of
                  None \<Rightarrow> Inl (''Missing event type header: '' @ field) | Some v \<Rightarrow> Inr v)
          else if source_type = ''json_field''
          then (case loads (rq_body rq) of
                  None \<Rightarrow> Inl ''Cannot parse body as JSON for event_type extraction''
                | Some data \<Rightarrow>
                    (case walk_path (split_on CHR ''.'' field) data of
                       None \<Rightarrow> Inl (''Event type field not found in body: '' @ field)
                     | Some (JStr s) \<Rightarrow> Inr s
                     | Some _ \<Rightarrow> Inl (''Event type field is not a string: '' @ field)))
          else if source_type = ''constant'' then Inr field
          else Inl (''Unknown event_type_source: '' @ repr_str source_type)
      | _ \<Rightarrow> Inl ''Source config missing event_type_source or event_type_field; cannot determine event type'')"

definition extract_idempotency_key :: "request \<Rightarrow> jobj \<Rightarrow> string option" where
  "extract_idempotency_key rq cfg =
     (case config_str cfg ''idempotency_header'' of None \<Rightarrow> None | Some h \<Rightarrow> rq_header rq h)"

section \<open>The webhook\<close>

record incoming =
  in_dispatch :: dispatch_db
  in_auth :: auth_backend
  in_verifiers :: "(string, verifier) dict"
  in_principals :: principals

text \<open>
  What the handler does: answer, raise, or fire an event with a principal, a type, a payload and an
  idempotency key. The second component is the audit trail of the authenticator.
\<close>

datatype webhook_outcome = Respond nat string | Raise exn | Fire principal string json "string option"

definition webhook_handler ::
  "(string \<Rightarrow> string) \<Rightarrow> (string \<Rightarrow> json option) \<Rightarrow> time \<Rightarrow> nat \<Rightarrow> incoming \<Rightarrow> request \<Rightarrow> webhook_outcome \<times> audit_event list" where
  "webhook_handler sha256 loads now max_body_bytes inc rq =
     (if length (rq_body rq) > max_body_bytes then (Respond 413 ''Request body too large'', [])
      else (case get_source_by_slug (rq_slug rq) (in_dispatch inc) of
        None \<Rightarrow> (Respond 404 (''Source not found: '' @ rq_slug rq), [])
      | Some so \<Rightarrow>
          (case so_credential_id so of
             None \<Rightarrow> (Respond 403 ''Source has no credential configured'', [])
           | Some credential_id \<Rightarrow>
               (case build_presented_credential rq (source_config so) of
                  Inl msg \<Rightarrow> (Respond 401 msg, [])
                | Inr presented \<Rightarrow>
                    (case verify_by_credential_id sha256 now (in_verifiers inc) credential_id presented (in_auth inc) of
                       (Inl (AuthFailure _), audit) \<Rightarrow> (Respond 401 ''Authentication failed'', audit)
                     | (Inl (Propagated e), audit) \<Rightarrow> (Raise e, audit)
                     | (Inr ctx, audit) \<Rightarrow>
                         (case get_principal_by_ref KIND_SOURCE (so_id so) (in_principals inc) of
                            None \<Rightarrow> (Respond 500 ''Source principal missing'', audit)
                          | Some source_principal \<Rightarrow>
                              (case extract_event_type loads rq (source_config so) of
                                 Inl msg \<Rightarrow> (Respond 400 msg, audit)
                               | Inr event_type \<Rightarrow>
                                   (case loads (rq_body rq) of
                                      None \<Rightarrow> (Respond 400 ''Invalid JSON body'', audit)
                                    | Some data \<Rightarrow>
                                        (Fire source_principal event_type data
                                           (extract_idempotency_key rq (source_config so)), audit)))))))))"

text \<open>
  \<open>fire_event\<close> (\<open>services/_events.py\<close>) on the storage backend, for a payload that is an object: the event of
  the given principal is written outside any run.
\<close>

definition fire_event ::
  "uuid \<Rightarrow> time \<Rightarrow> principal \<Rightarrow> uuid option \<Rightarrow> string \<Rightarrow> jobj option \<Rightarrow> string option \<Rightarrow> trace_db \<Rightarrow> (uuid \<times> bool) \<times> trace_db" where
  "fire_event event_id now caller run_id event_name payload idempotency_key db =
     write_event event_id now run_id event_name (case payload of None \<Rightarrow> [] | Some p \<Rightarrow> p) None (pr_id caller) idempotency_key db"

text \<open>
  C28. The webhook fires only verified events: whenever an event is fired, the body is within the size limit,
  the slug names a source with a credential, that credential is stored and vouches for the presented
  value (verified by its type's verifier, with an existing and enabled consumer), the event is attributed to the
  principal of kind \<open>source\<close> of that source and carries the parsed body, and one success was audited.
\<close>

theorem webhook_verified:
  assumes "webhook_handler sha256 loads now max_body_bytes inc rq = (Fire p event_type data key, audit)"
  shows "\<exists>so credential_id cred presented ctx.
    length (rq_body rq) \<le> max_body_bytes \<and>
    get_source_by_slug (rq_slug rq) (in_dispatch inc) = Some so \<and> so_credential_id so = Some credential_id \<and>
    get_credential_by_id credential_id (in_auth inc) = Some cred \<and>
    build_presented_credential rq (source_config so) = Inr presented \<and>
    vouched sha256 (in_verifiers inc) cred presented (in_auth inc) ctx \<and>
    pr_kind p = KIND_SOURCE \<and> pr_external_ref p = so_id so \<and> loads (rq_body rq) = Some data \<and>
    extract_event_type loads rq (source_config so) = Inr event_type \<and>
    audit = [audit_cred now cred ''success'' None]"
proof -
  obtain so credential_id presented ctx where s:
    "length (rq_body rq) \<le> max_body_bytes" "get_source_by_slug (rq_slug rq) (in_dispatch inc) = Some so"
    "so_credential_id so = Some credential_id" "build_presented_credential rq (source_config so) = Inr presented"
    "verify_by_credential_id sha256 now (in_verifiers inc) credential_id presented (in_auth inc) = (Inr ctx, audit)"
    "get_principal_by_ref KIND_SOURCE (so_id so) (in_principals inc) = Some p"
    "loads (rq_body rq) = Some data" "extract_event_type loads rq (source_config so) = Inr event_type"
    using assms by (auto simp: webhook_handler_def not_less
        split: if_splits option.splits sum.splits prod.splits auth_exn.splits)
  then obtain cred where c: "get_credential_by_id credential_id (in_auth inc) = Some cred"
      "verify_with_record sha256 now (in_verifiers inc) cred presented (in_auth inc) = (Inr ctx, audit)"
    by (auto simp: verify_by_credential_id_def split: option.splits)
  moreover have "pr_kind p = KIND_SOURCE \<and> pr_external_ref p = so_id so"
    using find_by_ref_Some s(6) by (auto simp: get_principal_by_ref_def ref_of_def)
  ultimately show ?thesis using s verify_with_record_Inr [OF c(2)] by blast
qed

definition sample_incoming :: incoming where
  "sample_incoming =
     \<lparr>in_dispatch = empty_dispatch\<lparr>dd_sources := [(3, \<lparr>so_id = 3, so_slug = ''gh'', so_name = ''GitHub'', so_credential_id = Some 8,
        so_config = Some [(''signature_header'', JStr ''X-Sig''), (''event_type_source'', JStr ''constant''), (''event_type_field'', JStr ''push'')],
        so_created_by = 2, so_created_at = 0\<rparr>)]\<rparr>,
      in_auth = sample_auth, in_verifiers = sample_verifiers,
      in_principals = [(4, \<lparr>pr_id = 4, pr_kind = ''source'', pr_external_ref = 3, pr_display_name = None, pr_created_at = 0\<rparr>)]\<rparr>"

definition sample_request :: "string \<Rightarrow> string \<Rightarrow> request" where
  "sample_request signature body = \<lparr>rq_slug = ''gh'', rq_body = body, rq_text = body,
     rq_header = (\<lambda>h. if h = ''X-Sig'' then Some signature else None), rq_since = None, rq_limit = None\<rparr>"

definition sample_loads :: "string \<Rightarrow> json option" where
  "sample_loads s = (if s = ''{}'' then Some (JObj []) else None)"

definition fired :: "webhook_outcome \<Rightarrow> bool" where
  "fired w = (case w of Fire _ _ _ _ \<Rightarrow> True | _ \<Rightarrow> False)"

lemma firedE: "fired (fst r) \<Longrightarrow> (\<And>p et data key audit. r = (Fire p et data key, audit) \<Longrightarrow> thesis) \<Longrightarrow> thesis"
  by (cases r) (auto simp: fired_def split: webhook_outcome.splits)

theorem webhook_verified_witness:
  "\<exists>p et data key audit. webhook_handler rev sample_loads 9 100 sample_incoming (sample_request ''k/{}'' ''{}'') = (Fire p et data key, audit) \<and>
     sample_loads (rq_body (sample_request ''k/{}'' ''{}'')) = Some data"
proof -
  have "fired (fst (webhook_handler rev sample_loads 9 100 sample_incoming (sample_request ''k/{}'' ''{}'')))" by code_simp
  then obtain p et data key audit where
    w: "webhook_handler rev sample_loads 9 100 sample_incoming (sample_request ''k/{}'' ''{}'') = (Fire p et data key, audit)"
    by (rule firedE)
  from webhook_verified [OF w] have "sample_loads (rq_body (sample_request ''k/{}'' ''{}'')) = Some data"
    by (elim exE conjE)
  with w show ?thesis by blast
qed

section \<open>What a signature covers\<close>

lemma hmac_checked:
  assumes "checked sha256 (HmacCredentialVerifier provider) cred (''_:'' @ s @ '':'' @ t)" "CHR '':'' \<notin> set s"
  shows "\<exists>key_ref verdict. cd_secret_ref cred = Some key_ref \<and>
    provider key_ref (utf8 t) s (cd_algorithm cred) = Inr verdict \<and> mv_outcome verdict = MATCH"
proof -
  have "split_max 2 CHR '':'' (''_:'' @ s @ '':'' @ t) = [''_'', s, t]"
    using split_max_two [of "CHR '':''" "''_''" s t] assms(2) by simp
  then show ?thesis using assms(1) by (auto simp: checked_def)
qed

text \<open>
  A signature covers the body: when the source is configured for signatures, its credential is an HMAC
  credential checked with the registered keys, and the signature header has no colon, then an event is fired
  only if the header is the HMAC of exactly the text of the request's body under the credential's key or
  one of its rotated versions.
\<close>

theorem webhook_signature_covers_body:
  assumes "webhook_handler sha256 loads now max_body_bytes inc rq = (Fire p event_type data key, audit)"
    and "get_source_by_slug (rq_slug rq) (in_dispatch inc) = Some so" "so_credential_id so = Some credential_id"
    and "get_credential_by_id credential_id (in_auth inc) = Some cred"
    and "dict_get (in_verifiers inc) (cd_credential_type cred) = Some (HmacCredentialVerifier (env_mac_verify hmac registry now'))"
    and "config_str (source_config so) ''signature_header'' = Some header" "rq_header rq header = Some signature"
    and "CHR '':'' \<notin> set (strip_algorithm signature)"
  shows "\<exists>key_ref algo. cd_secret_ref cred = Some key_ref \<and> dict_get ALGORITHMS (str_lower (cd_algorithm cred)) = Some algo \<and>
    list_ex (signs hmac registry algo (utf8 (rq_text rq)) (strip_algorithm signature)) (map fst (build_candidates key_ref))"
proof -
  have pres: "build_presented_credential rq (source_config so) = Inr (''_:'' @ strip_algorithm signature @ '':'' @ rq_text rq)"
    using assms(6,7) by (simp add: build_presented_credential_def)
  then obtain ctx where "verify_with_record sha256 now (in_verifiers inc) cred
      (''_:'' @ strip_algorithm signature @ '':'' @ rq_text rq) (in_auth inc) = (Inr ctx, audit)"
    using assms(1-4) by (auto simp: webhook_handler_def verify_by_credential_id_def
        split: if_splits option.splits sum.splits prod.splits auth_exn.splits)
  from verify_with_record_Inr [OF this]
  have "checked sha256 (HmacCredentialVerifier (env_mac_verify hmac registry now')) cred
      (''_:'' @ strip_algorithm signature @ '':'' @ rq_text rq)"
    using assms(5) by (auto simp: vouched_def)
  from hmac_checked [OF this assms(8)] obtain key_ref verdict where "cd_secret_ref cred = Some key_ref"
      "env_mac_verify hmac registry now' key_ref (utf8 (rq_text rq)) (strip_algorithm signature) (cd_algorithm cred) = Inr verdict"
      "mv_outcome verdict = MATCH" by blast
  then show ?thesis using env_mac_verify_match by blast
qed

theorem webhook_signature_covers_body_witness:
  "\<exists>key_ref algo. dict_get ALGORITHMS ''sha256'' = Some algo \<and>
    list_ex (signs (\<lambda>algo key msg. key @ ''/'' @ msg) \<lparr>sr_secrets = [(''hook:2'', ''k'')], sr_scrub_order = []\<rparr> algo (utf8 ''{}'') ''k/{}'')
      (map fst (build_candidates key_ref))"
proof -
  let ?rq = "sample_request ''k/{}'' ''{}''" and ?so = "snd (hd (dd_sources (in_dispatch sample_incoming)))"
    and ?cred = "snd (ab_credentials sample_auth ! 1)"
  have "fired (fst (webhook_handler rev sample_loads 9 100 sample_incoming ?rq))" by code_simp
  then obtain p et data key audit where
    w: "webhook_handler rev sample_loads 9 100 sample_incoming ?rq = (Fire p et data key, audit)" by (rule firedE)
  have "get_source_by_slug (rq_slug ?rq) (in_dispatch sample_incoming) = Some ?so" "so_credential_id ?so = Some 8"
      "get_credential_by_id 8 (in_auth sample_incoming) = Some ?cred"
      "dict_get (in_verifiers sample_incoming) (cd_credential_type ?cred) = Some (HmacCredentialVerifier (env_mac_verify (\<lambda>algo key msg. key @ ''/'' @ msg)
        \<lparr>sr_secrets = [(''hook:2'', ''k'')], sr_scrub_order = []\<rparr> 9))"
      "config_str (source_config ?so) ''signature_header'' = Some ''X-Sig''" "rq_header ?rq ''X-Sig'' = Some ''k/{}''"
    by (simp_all add: sample_incoming_def sample_request_def sample_auth_def sample_verifiers_def get_source_by_slug_def
        get_credential_by_id_def config_str_def source_config_def dict_get_def dict_values_def)
  from webhook_signature_covers_body [OF w this] show ?thesis
    by (auto simp: strip_algorithm_def startswith_def sample_request_def sample_auth_def str_lower_def lower_char_def)
qed

text \<open>
  A colon in the signature header moves the boundary: a header \<open>s:x\<close> makes the verifier check \<open>s\<close> as the
  signature of \<open>x\<close>, a colon and the body, while the event fired carries the body alone. Whoever has a valid
  signature for such a longer text can have its tail accepted as a signed event.
\<close>

theorem signature_header_shift:
  assumes "length (rq_body rq) \<le> max_body_bytes" "get_source_by_slug (rq_slug rq) (in_dispatch inc) = Some so"
    and "so_credential_id so = Some credential_id" "get_credential_by_id credential_id (in_auth inc) = Some cred"
    and "config_str (source_config so) ''signature_header'' = Some header" "rq_header rq header = Some (s @ '':'' @ x)"
    and "CHR '':'' \<notin> set s" "strip_algorithm (s @ '':'' @ x) = s @ '':'' @ x"
    and "dict_get (in_verifiers inc) (cd_credential_type cred) = Some (HmacCredentialVerifier provider)"
    and "cd_secret_ref cred = Some key_ref"
    and "provider key_ref (utf8 (x @ '':'' @ rq_text rq)) s (cd_algorithm cred) = Inr verdict" "mv_outcome verdict = MATCH"
    and "get_consumer (cd_consumer_id cred) (in_auth inc) = Some consumer" "cn_disabled_at consumer = None"
    and "get_principal_by_ref KIND_SOURCE (so_id so) (in_principals inc) = Some p"
    and "extract_event_type loads rq (source_config so) = Inr event_type" "loads (rq_body rq) = Some data"
  shows "\<exists>key audit. webhook_handler sha256 loads now max_body_bytes inc rq = (Fire p event_type data key, audit)"
proof -
  have pres: "build_presented_credential rq (source_config so) = Inr (''_:'' @ s @ '':'' @ x @ '':'' @ rq_text rq)"
    using assms(5,6,8) by (simp add: build_presented_credential_def)
  have split: "split_max 2 CHR '':'' (''_:'' @ s @ '':'' @ x @ '':'' @ rq_text rq) = [''_'', s, x @ '':'' @ rq_text rq]"
    using split_max_two [of "CHR '':''" "''_''" s "x @ '':'' @ rq_text rq"] assms(7) by simp
  have "verify_with_record sha256 now (in_verifiers inc) cred (''_:'' @ s @ '':'' @ x @ '':'' @ rq_text rq) (in_auth inc) =
      (Inr (build_auth_context now cred consumer), [audit_cred now cred ''success'' None])"
    unfolding verify_with_record_def verify_def hmac_verify_def split using assms(9-14) by (simp add: admit_consumer_def)
  then show ?thesis
    unfolding webhook_handler_def assms(2) option.case assms(3) pres sum.case verify_by_credential_id_def assms(4)
    using assms(1,15-17) by simp
qed

definition shifted_incoming :: incoming where
  "shifted_incoming = sample_incoming\<lparr>in_verifiers := [(''hmac'', HmacCredentialVerifier
     (env_mac_verify (\<lambda>algo key msg. if msg = ''x:{}'' then ''d1'' else ''d0'') \<lparr>sr_secrets = [(''hook'', ''k'')], sr_scrub_order = []\<rparr> 9))]\<rparr>"

theorem signature_header_shift_witness:
  "\<exists>key audit. webhook_handler rev sample_loads 9 100 shifted_incoming (sample_request ''d1:x'' ''{}'') =
     (Fire (snd (hd (in_principals sample_incoming))) ''push'' (JObj []) key, audit)"
proof -
  let ?so = "snd (hd (dd_sources (in_dispatch sample_incoming)))" and ?cred = "snd (ab_credentials sample_auth ! 1)"
  let ?prov = "env_mac_verify (\<lambda>algo key msg. if msg = ''x:{}'' then ''d1'' else ''d0'') \<lparr>sr_secrets = [(''hook'', ''k'')], sr_scrub_order = []\<rparr> 9"
  let ?rq = "sample_request ''d1:x'' ''{}''"
  have ok: "?prov ''hook'' (utf8 (''x'' @ '':'' @ rq_text ?rq)) ''d1'' (cd_algorithm ?cred) =
      Inr \<lparr>mv_outcome = MATCH, mv_secret_name = ''hook'', mv_algorithm = ''sha256'', mv_verified_at = 9, mv_matched_version = None\<rparr>"
    by code_simp
  have cred: "cd_secret_ref ?cred = Some ''hook''"
    "dict_get (in_verifiers shifted_incoming) (cd_credential_type ?cred) = Some (HmacCredentialVerifier ?prov)"
    by (simp_all add: sample_auth_def shifted_incoming_def dict_get_def)
  have strip: "strip_algorithm (''d1'' @ '':'' @ ''x'') = ''d1'' @ '':'' @ ''x''"
    by (simp add: strip_algorithm_def startswith_def)
  have src: "get_source_by_slug (rq_slug ?rq) (in_dispatch shifted_incoming) = Some ?so" "so_credential_id ?so = Some 8"
      "get_credential_by_id 8 (in_auth shifted_incoming) = Some ?cred"
      "config_str (source_config ?so) ''signature_header'' = Some ''X-Sig''" "rq_header ?rq ''X-Sig'' = Some (''d1'' @ '':'' @ ''x'')"
    by (simp_all add: shifted_incoming_def sample_incoming_def sample_request_def sample_auth_def get_source_by_slug_def
        get_credential_by_id_def config_str_def source_config_def dict_get_def dict_values_def)
  have rest: "length (rq_body ?rq) \<le> 100" "CHR '':'' \<notin> set ''d1''"
      "get_consumer (cd_consumer_id ?cred) (in_auth shifted_incoming) = Some (snd (hd (ab_consumers sample_auth)))"
      "cn_disabled_at (snd (hd (ab_consumers sample_auth))) = None"
      "get_principal_by_ref KIND_SOURCE (so_id ?so) (in_principals shifted_incoming) = Some (snd (hd (in_principals sample_incoming)))"
      "extract_event_type sample_loads ?rq (source_config ?so) = Inr ''push''" "sample_loads (rq_body ?rq) = Some (JObj [])"
    by (simp_all add: shifted_incoming_def sample_incoming_def sample_request_def sample_auth_def config_str_def source_config_def
        dict_get_def dict_values_def get_consumer_def sample_loads_def get_principal_by_ref_def find_by_ref_def KIND_SOURCE_def
        extract_event_type_def)
  show ?thesis
    by (rule signature_header_shift [where provider = ?prov and rq = ?rq and so = ?so and cred = ?cred and s = "''d1''" and x = "''x''",
          OF rest(1) src(1-5) rest(2) strip cred(2,1) ok _ rest(3-7)]) simp
qed

section \<open>Replay\<close>

definition DEFAULT_REPLAY_LIMIT :: int where
  "DEFAULT_REPLAY_LIMIT = 100"

definition MAX_REPLAY_LIMIT :: int where
  "MAX_REPLAY_LIMIT = 1000"

text \<open>
  The steps that the replay and the stream endpoint share: source, credential, header and verification. \<open>Inl\<close> is
  an answer or an exception, \<open>Inr\<close> the principal of the source.
\<close>

definition authorize_reader ::
  "(string \<Rightarrow> string) \<Rightarrow> time \<Rightarrow> incoming \<Rightarrow> request \<Rightarrow> (webhook_outcome + principal) \<times> audit_event list" where
  "authorize_reader sha256 now inc rq =
     (case get_source_by_slug (rq_slug rq) (in_dispatch inc) of
        None \<Rightarrow> (Inl (Respond 404 (''Source not found: '' @ rq_slug rq)), [])
      | Some so \<Rightarrow>
          (case so_credential_id so of
             None \<Rightarrow> (Inl (Respond 403 ''Source has no credential configured''), [])
           | Some credential_id \<Rightarrow>
               (case rq_header rq (auth_header_name (source_config so)) of
                  None \<Rightarrow> (Inl (Respond 401 (''Missing authentication header: '' @ auth_header_name (source_config so))), [])
                | Some auth_value \<Rightarrow>
                    (case verify_by_credential_id sha256 now (in_verifiers inc) credential_id (strip_bearer auth_value) (in_auth inc) of
                       (Inl (AuthFailure _), audit) \<Rightarrow> (Inl (Respond 401 ''Authentication failed''), audit)
                     | (Inl (Propagated e), audit) \<Rightarrow> (Inl (Raise e), audit)
                     | (Inr ctx, audit) \<Rightarrow>
                         (case get_principal_by_ref KIND_SOURCE (so_id so) (in_principals inc) of
                            None \<Rightarrow> (Inl (Respond 500 ''Source principal missing''), audit)
                          | Some source_principal \<Rightarrow> (Inr source_principal, audit))))))"

text \<open>The framework checks the limit against 1 and \<open>MAX_REPLAY_LIMIT\<close> before the handler sees it.\<close>

definition replay_handler ::
  "(string \<Rightarrow> string) \<Rightarrow> (string \<Rightarrow> uuid option) \<Rightarrow> time \<Rightarrow> incoming \<Rightarrow> trace_db \<Rightarrow> request \<Rightarrow>
   (webhook_outcome + event_row list) \<times> audit_event list" where
  "replay_handler sha256 parse_uuid now inc db rq =
     (case authorize_reader sha256 now inc rq of
        (Inl answer, audit) \<Rightarrow> (Inl answer, audit)
      | (Inr source_principal, audit) \<Rightarrow>
          (let limit = (case rq_limit rq of None \<Rightarrow> DEFAULT_REPLAY_LIMIT | Some l \<Rightarrow> l)
           in case rq_since rq of
                None \<Rightarrow> (Inr (replay None (Some (pr_id source_principal)) None limit db), audit)
              | Some since_raw \<Rightarrow>
                  (case parse_uuid since_raw of
                     None \<Rightarrow>
                       (Inl (Respond 400 (''Invalid 'since' parameter: must be a valid UUID, got '' @ repr_str since_raw)), audit)
                   | Some since_id \<Rightarrow> (Inr (replay None (Some (pr_id source_principal)) (Some since_id) limit db), audit))))"

section \<open>The stream\<close>

text \<open>
  The generator subscribes to notifications, then replays the events after the client's last identifier, then
  handles the queued notifications in order, fetching each event and skipping identifiers already
  sent. \<open>db\<close> is the trace at the replay, \<open>db'\<close> the trace the later fetches see, \<open>ns\<close> the
  notifications received since the subscription. Heartbeats carry no event and are left out.
\<close>

record notification =
  nt_event_id :: "string option"
  nt_principal_id :: "string option"

definition read_event :: "uuid \<Rightarrow> trace_db \<Rightarrow> event_row option" where
  "read_event event_id db = find (\<lambda>ev. e_id ev = event_id) (db_events db)"

definition on_notify :: "uuid \<Rightarrow> notification list \<Rightarrow> notification list" where
  "on_notify source_principal_id ns = filter (\<lambda>n. nt_principal_id n = Some (uuid_str source_principal_id)) ns"

definition fetch_live_event ::
  "(string \<Rightarrow> uuid option) \<Rightarrow> trace_db \<Rightarrow> notification \<Rightarrow> string list \<Rightarrow> event_row option \<times> string list" where
  "fetch_live_event parse_uuid db n seen_ids =
     (case nt_event_id n of
        None \<Rightarrow> (None, seen_ids)
      | Some event_id_str \<Rightarrow>
          if event_id_str \<in> set seen_ids then (None, seen_ids)
          else (case parse_uuid event_id_str of
                  None \<Rightarrow> (None, seen_ids)
                | Some event_uuid \<Rightarrow>
                    (case read_event event_uuid db of
                       None \<Rightarrow> (None, seen_ids)
                     | Some full_event \<Rightarrow> (Some full_event, seen_ids @ [event_id_str]))))"

fun live_events :: "(string \<Rightarrow> uuid option) \<Rightarrow> trace_db \<Rightarrow> notification list \<Rightarrow> string list \<Rightarrow> event_row list" where
  "live_events parse_uuid db [] seen_ids = []"
| "live_events parse_uuid db (n # ns) seen_ids =
     (case fetch_live_event parse_uuid db n seen_ids of
        (None, seen) \<Rightarrow> live_events parse_uuid db ns seen
      | (Some ev, seen) \<Rightarrow> ev # live_events parse_uuid db ns seen)"

definition sse_generator ::
  "(string \<Rightarrow> uuid option) \<Rightarrow> uuid \<Rightarrow> uuid option \<Rightarrow> trace_db \<Rightarrow> trace_db \<Rightarrow> notification list \<Rightarrow> event_row list" where
  "sse_generator parse_uuid source_principal_id last_event_id db db' ns =
     (let caught_up = (case last_event_id of
                         None \<Rightarrow> []
                       | Some l \<Rightarrow> replay None (Some source_principal_id) (Some l) 1000 db)
      in caught_up @ live_events parse_uuid db' (on_notify source_principal_id ns) (map (uuid_str \<circ> e_id) caught_up))"

definition stream_handler ::
  "(string \<Rightarrow> string) \<Rightarrow> (string \<Rightarrow> uuid option) \<Rightarrow> time \<Rightarrow> incoming \<Rightarrow> request \<Rightarrow>
   (webhook_outcome + principal \<times> uuid option) \<times> audit_event list" where
  "stream_handler sha256 parse_uuid now inc rq =
     (case authorize_reader sha256 now inc rq of
        (Inl answer, audit) \<Rightarrow> (Inl answer, audit)
      | (Inr source_principal, audit) \<Rightarrow>
          (case rq_header rq ''last-event-id'' of
             None \<Rightarrow> (Inr (source_principal, None), audit)
           | Some raw \<Rightarrow>
               (case parse_uuid raw of
                  None \<Rightarrow> (Inl (Respond 400 (''Invalid Last-Event-ID: '' @ repr_str raw)), audit)
                | Some last_event_id \<Rightarrow> (Inr (source_principal, Some last_event_id), audit))))"

text \<open>The notification the trace publishes for an event.\<close>

definition notice :: "event_row \<Rightarrow> notification" where
  "notice ev = \<lparr>nt_event_id = Some (uuid_str (e_id ev)), nt_principal_id = Some (uuid_str (e_principal_id ev))\<rparr>"

lemma read_event_known:
  "distinct (map e_id (db_events db)) \<Longrightarrow> ev \<in> set (db_events db) \<Longrightarrow> read_event (e_id ev) db = Some ev"
proof -
  assume d: "distinct (map e_id (db_events db))" and ev: "ev \<in> set (db_events db)"
  then obtain e where e: "read_event (e_id ev) db = Some e"
    by (cases "read_event (e_id ev) db") (auto simp: read_event_def find_None_iff)
  then have "e \<in> set (db_events db)" "e_id e = e_id ev" by (auto simp: read_event_def find_Some_iff)
  then have "e = ev" using d ev by (auto simp: distinct_map dest: inj_onD)
  with e show ?thesis by simp
qed

lemma live_events_filter:
  assumes "distinct (map e_id (db_events db))" "set evs \<subseteq> set (db_events db)" "distinct (map e_id evs)"
    and "\<And>ev. ev \<in> set evs \<Longrightarrow> parse_uuid (uuid_str (e_id ev)) = Some (e_id ev)"
  shows "live_events parse_uuid db (map notice evs) seen = filter (\<lambda>ev. uuid_str (e_id ev) \<notin> set seen) evs"
  using assms(2-4)
proof (induction evs arbitrary: seen)
  case (Cons ev evs)
  have other: "uuid_str (e_id x) \<noteq> uuid_str (e_id ev)" if x: "x \<in> set evs" for x
  proof
    assume "uuid_str (e_id x) = uuid_str (e_id ev)"
    then have "Some (e_id x) = Some (e_id ev)"
      using Cons.prems(3) [of x] Cons.prems(3) [of ev] x by (metis list.set_intros(1,2))
    then show False using x Cons.prems(2) by (metis distinct.simps(2) imageI list.simps(9) list.set_map option.inject)
  qed
  have IH: "live_events parse_uuid db (map notice evs) s = filter (\<lambda>ev. uuid_str (e_id ev) \<notin> set s) evs" for s
    using Cons by simp
  have rec: "filter (\<lambda>x. uuid_str (e_id x) \<notin> set (seen @ [uuid_str (e_id ev)])) evs = filter (\<lambda>x. uuid_str (e_id x) \<notin> set seen) evs"
    by (rule filter_cong) (use other in auto)
  have "fetch_live_event parse_uuid db (notice ev) seen =
      (if uuid_str (e_id ev) \<in> set seen then (None, seen) else (Some ev, seen @ [uuid_str (e_id ev)]))"
    using Cons.prems(1) Cons.prems(3) [of ev] read_event_known [OF assms(1), of ev] by (simp add: fetch_live_event_def notice_def)
  then show ?case by (simp add: IH rec del: set_append)
qed simp

lemma on_notify_notes:
  "inj_on uuid_str (insert p (e_principal_id ` set evs)) \<Longrightarrow>
   on_notify p (map notice evs) = map notice (filter (\<lambda>ev. e_principal_id ev = p) evs)"
  by (induction evs) (auto simp: on_notify_def notice_def inj_on_def)

definition missed :: "uuid \<Rightarrow> uuid \<Rightarrow> event_row list \<Rightarrow> event_row list" where
  "missed p l evs = filter (\<lambda>ev. e_principal_id ev = p \<and> l < e_id ev) evs"

lemma replay_missed: "replay None (Some p) (Some l) 1000 db = take 1000 (sort_key e_id (missed p l (db_events db)))"
  by (simp add: replay_def missed_def py_take_def not_le conj_commute)

text \<open>
  The stream loses nothing and repeats nothing within its replay window: a client that reconnects with its
  last identifier, while events \<open>es1\<close> arrive between subscription and replay and \<open>es2\<close> after it, gets every event of its source
  after that identifier and every event that arrives, each exactly once, provided that at most 1000 were missed.
  Beyond that window the rest is lost: without new arrivals the client gets exactly 1000 events however many it missed.
\<close>

theorem stream_no_loss:
  assumes "db_events db = es0 @ es1" "db_events db' = es0 @ es1 @ es2" "distinct (map e_id (es0 @ es1 @ es2))"
    and parse: "\<And>ev. ev \<in> set (es0 @ es1 @ es2) \<Longrightarrow> parse_uuid (uuid_str (e_id ev)) = Some (e_id ev)"
    and "inj_on uuid_str (insert p (e_principal_id ` set (es1 @ es2)))"
  shows "if length (missed p l (es0 @ es1)) \<le> 1000
    then distinct (sse_generator parse_uuid p (Some l) db db' (map notice (es1 @ es2))) \<and>
      set (sse_generator parse_uuid p (Some l) db db' (map notice (es1 @ es2))) =
        set (missed p l es0) \<union> {ev \<in> set (es1 @ es2). e_principal_id ev = p}
    else length (sse_generator parse_uuid p (Some l) db db []) = 1000"
proof (cases "length (missed p l (es0 @ es1)) \<le> 1000")
  case True
  let ?c = "sort_key e_id (missed p l (es0 @ es1))" and ?mine = "filter (\<lambda>ev. e_principal_id ev = p) (es1 @ es2)"
  have d: "distinct (es0 @ es1 @ es2)" using assms(3) by (simp only: distinct_map)
  have c: "replay None (Some p) (Some l) 1000 db = ?c" using True assms(1) by (simp add: replay_missed)
  have live: "live_events parse_uuid db' (map notice ?mine) (map (uuid_str \<circ> e_id) ?c) =
      filter (\<lambda>ev. uuid_str (e_id ev) \<notin> set (map (uuid_str \<circ> e_id) ?c)) ?mine"
  proof (rule live_events_filter)
    show "distinct (map e_id (db_events db'))" using assms(2,3) by simp
    show "set ?mine \<subseteq> set (db_events db')" using assms(2) by auto
    show "distinct (map e_id ?mine)"
      using assms(3) by (intro distinct_map_filter) (simp only: map_append distinct_append)
  qed (auto intro: parse)
  have new: "uuid_str (e_id ev) \<in> set (map (uuid_str \<circ> e_id) ?c) \<longleftrightarrow> ev \<in> set ?c" if "ev \<in> set ?mine" for ev
  proof
    assume "uuid_str (e_id ev) \<in> set (map (uuid_str \<circ> e_id) ?c)"
    then obtain x where x: "x \<in> set ?c" "uuid_str (e_id x) = uuid_str (e_id ev)" by auto
    then have m: "x \<in> set (es0 @ es1 @ es2)" "ev \<in> set (es0 @ es1 @ es2)" using that by (auto simp: missed_def)
    have "Some (e_id x) = Some (e_id ev)" using parse [OF m(1)] parse [OF m(2)] unfolding x(2) by (rule subst)
    then have "x = ev" using assms(3) m by (metis distinct_map inj_onD option.inject)
    then show "ev \<in> set ?c" using x(1) by simp
  qed auto
  have gen: "sse_generator parse_uuid p (Some l) db db' (map notice (es1 @ es2)) = ?c @ filter (\<lambda>ev. ev \<notin> set ?c) ?mine"
    unfolding sse_generator_def Let_def option.case c on_notify_notes [OF assms(5)] live
    by (intro arg_cong2 [where f = "(@)"] refl filter_cong) (use new in auto)
  have "distinct (?c @ filter (\<lambda>ev. ev \<notin> set ?c) ?mine)" using d by (auto simp: missed_def)
  moreover have "set (?c @ filter (\<lambda>ev. ev \<notin> set ?c) ?mine) = set (missed p l es0) \<union> {ev \<in> set (es1 @ es2). e_principal_id ev = p}"
    by (auto simp: missed_def)
  ultimately show ?thesis using True gen by simp
next
  case False
  then show ?thesis using assms(1) by (simp add: sse_generator_def replay_missed on_notify_def)
qed

definition sample_event :: "uuid \<Rightarrow> event_row" where
  "sample_event i = \<lparr>e_id = i, e_run_id = None, e_task_id = None, e_principal_id = 4, e_event_type = ''push'', e_data = [],
     e_idempotency_key = None, e_created_at = 0\<rparr>"

definition sample_parse :: "string \<Rightarrow> uuid option" where
  "sample_parse s = find (\<lambda>u. uuid_str u = s) [5, 6, 7]"

theorem stream_no_loss_witness:
  "set (sse_generator sample_parse 4 (Some 5) (empty_db\<lparr>db_events := [sample_event 5, sample_event 6]\<rparr>)
       (empty_db\<lparr>db_events := [sample_event 5, sample_event 6, sample_event 7]\<rparr>) (map notice [sample_event 6, sample_event 7])) =
     {sample_event 6, sample_event 7}"
proof -
  let ?db = "empty_db\<lparr>db_events := [sample_event 5, sample_event 6]\<rparr>"
    and ?db' = "empty_db\<lparr>db_events := [sample_event 5, sample_event 6, sample_event 7]\<rparr>"
  have p: "sample_parse (uuid_str 5) = Some 5" "sample_parse (uuid_str 6) = Some 6" "sample_parse (uuid_str 7) = Some 7"
    by (simp_all add: sample_parse_def uuid_str_eq)
  have "if length (missed 4 5 ([sample_event 5] @ [sample_event 6])) \<le> 1000
    then distinct (sse_generator sample_parse 4 (Some 5) ?db ?db' (map notice ([sample_event 6] @ [sample_event 7]))) \<and>
      set (sse_generator sample_parse 4 (Some 5) ?db ?db' (map notice ([sample_event 6] @ [sample_event 7]))) =
        set (missed 4 5 [sample_event 5]) \<union> {ev \<in> set ([sample_event 6] @ [sample_event 7]). e_principal_id ev = 4}
    else length (sse_generator sample_parse 4 (Some 5) ?db ?db []) = 1000"
  proof (rule stream_no_loss)
    fix ev assume "ev \<in> set ([sample_event 5] @ [sample_event 6] @ [sample_event 7])"
    then show "sample_parse (uuid_str (e_id ev)) = Some (e_id ev)" using p by (auto simp: sample_event_def)
  qed (simp_all add: sample_event_def)
  moreover have "length (missed 4 5 ([sample_event 5] @ [sample_event 6])) \<le> 1000" by (simp add: missed_def)
  ultimately have "set (sse_generator sample_parse 4 (Some 5) ?db ?db' (map notice ([sample_event 6] @ [sample_event 7]))) =
      set (missed 4 5 [sample_event 5]) \<union> {ev \<in> set ([sample_event 6] @ [sample_event 7]). e_principal_id ev = 4}"
    by (simp only: if_True)
  also have "\<dots> = {sample_event 6, sample_event 7}" by (auto simp: missed_def sample_event_def)
  finally show ?thesis by (simp only: append.simps)
qed

end
