(* ===== verification/Write_Safety.thy ===== *)
theory Write_Safety
  imports Secrets
begin

text \<open>
  Writing files safely: the tracker of what sessions have seen (\<open>write_safety/_stale.py\<close>), atomic writes
  (\<open>_atomic.py\<close>), retries (\<open>_replay.py\<close>), the guarded read and write that join them
  (\<open>tool/_write_integration.py\<close>) and the containment of paths (\<open>tool/_path.py\<close>).

  A file system is a dictionary from canonical paths to contents (bytes) and a list of directories. What the
  operating system decides is the record \<open>os\<close>: canonical paths (\<open>Path.resolve\<close>), the hash, the UTF-8 decoder, the
  error a write may fail with, and the effect of \<open>mkdir\<close>, \<open>rename\<close>, \<open>copy2\<close>, \<open>chmod\<close> and the program
  \<open>saferm\<close>. The locks of \<open>_queue.py\<close> are held over code without a suspension point, so a locked section is one
  step; other processes may change files between steps.
\<close>

section \<open>File system\<close>

record fs =
  fs_files :: "(string, string) dict"
  fs_dirs :: "string list"
  fs_exec :: "string list"

record os =
  os_canon :: "string \<Rightarrow> string"
  os_hash :: "string \<Rightarrow> string"
  os_decode :: "string \<Rightarrow> string option"
  os_write_error :: "string \<Rightarrow> fs \<Rightarrow> int option"
  os_mkdir :: "string \<Rightarrow> fs \<Rightarrow> fs result"
  os_rename :: "string \<Rightarrow> string \<Rightarrow> fs \<Rightarrow> fs result"
  os_copy2 :: "string \<Rightarrow> string \<Rightarrow> fs \<Rightarrow> fs result"
  os_saferm :: "string \<Rightarrow> string \<Rightarrow> bool \<Rightarrow> fs \<Rightarrow> int \<times> string \<times> fs"

definition is_file :: "string \<Rightarrow> fs \<Rightarrow> bool" where
  "is_file p f = (dict_get (fs_files f) p \<noteq> None)"

definition is_dir :: "string \<Rightarrow> fs \<Rightarrow> bool" where
  "is_dir p f = (p \<in> set (fs_dirs f))"

definition path_exists :: "string \<Rightarrow> fs \<Rightarrow> bool" where
  "path_exists p f = (is_file p f \<or> is_dir p f)"

definition parent :: "string \<Rightarrow> string" where
  "parent p = (let d = rev (tl (dropWhile (\<lambda>c. c \<noteq> CHR ''/'') (rev p))) in if d = [] then ''/'' else d)"

section \<open>Paths\<close>

definition joinpath :: "string \<Rightarrow> string \<Rightarrow> string" where
  "joinpath root_dir raw =
     (if startswith raw ''/'' then raw else if endswith root_dir ''/'' then root_dir @ raw else root_dir @ ''/'' @ raw)"

definition resolve_and_check :: "os \<Rightarrow> string \<Rightarrow> string \<Rightarrow> string result" where
  "resolve_and_check env raw_path root_dir =
     (if raw_path = [] then Inl PathError
      else (let resolved = os_canon env (joinpath root_dir raw_path)
            in if resolved = root_dir then Inr resolved
               else if \<not> startswith resolved (root_dir @ ''/'') then Inl PathError
               else Inr resolved))"

fun in_scope :: "os \<Rightarrow> string \<Rightarrow> string list \<Rightarrow> bool" where
  "in_scope env resolved [] = False"
| "in_scope env resolved (scope_path # rest) =
     (if resolved = os_canon env scope_path then True
      else if startswith resolved (os_canon env scope_path @ ''/'') then True
      else in_scope env resolved rest)"

definition check_write_scope :: "os \<Rightarrow> string \<Rightarrow> string list option \<Rightarrow> unit result" where
  "check_write_scope env resolved scope =
     (case scope of None \<Rightarrow> Inr () | Some ps \<Rightarrow> if in_scope env resolved ps then Inr () else Inl PathError)"

section \<open>The tracker\<close>

type_synonym reads = "(string, (string, string) dict) dict"

definition record_read :: "os \<Rightarrow> string \<Rightarrow> string \<Rightarrow> string \<Rightarrow> reads \<Rightarrow> reads" where
  "record_read env session_id path content_hash rs =
     (let canonical = os_canon env path;
          entry = (case dict_get rs canonical of None \<Rightarrow> [] | Some e \<Rightarrow> e)
      in dict_set canonical (dict_set session_id content_hash entry) rs)"

definition seen_hash :: "reads \<Rightarrow> string \<Rightarrow> string \<Rightarrow> string option" where
  "seen_hash rs path session_id = Option.bind (dict_get rs path) (\<lambda>e. dict_get e session_id)"

definition check_write :: "os \<Rightarrow> string \<Rightarrow> string \<Rightarrow> string \<Rightarrow> bool \<Rightarrow> reads \<Rightarrow> unit result" where
  "check_write env session_id path current_hash is_new_file rs =
     (if is_new_file then Inr ()
      else (case seen_hash rs (os_canon env path) session_id of
              None \<Rightarrow> Inl StaleWriteError
            | Some recorded_hash \<Rightarrow> if recorded_hash \<noteq> current_hash then Inl StaleWriteError else Inr ()))"

definition compute_hash :: "os \<Rightarrow> string \<Rightarrow> fs \<Rightarrow> string result" where
  "compute_hash env path f =
     (if is_dir path f then Inl (OSError 21)
      else (case dict_get (fs_files f) path of None \<Rightarrow> Inl FileNotFoundError | Some c \<Rightarrow> Inr (os_hash env c)))"

section \<open>Atomic writes\<close>

text \<open>
  A failing write leaves the target as it was: the data goes to a temporary file in the same directory, which is
  renamed over the target or removed.
\<close>

definition atomic_write :: "os \<Rightarrow> string \<Rightarrow> string \<Rightarrow> fs \<Rightarrow> fs result" where
  "atomic_write env path data f =
     (if \<not> path_exists (parent path) f then Inl FileNotFoundError
      else if \<not> is_dir (parent path) f then Inl (OSError 20)
      else (case os_write_error env path f of
              Some errno \<Rightarrow> Inl (OSError errno)
            | None \<Rightarrow> if is_dir path f then Inl (OSError 21)
                      else Inr (f\<lparr>fs_files := dict_set path data (fs_files f)\<rparr>)))"

section \<open>Guarded reads and writes\<close>

record workspace =
  ws_fs :: fs
  ws_reads :: reads

definition safe_write :: "os \<Rightarrow> string \<Rightarrow> string \<Rightarrow> string \<Rightarrow> bool \<Rightarrow> workspace \<Rightarrow> unit result \<times> workspace" where
  "safe_write env session_id path data is_new_file w =
     (case (if is_new_file then Inr ()
            else bind_res (compute_hash env path (ws_fs w))
                   (\<lambda>current_hash. check_write env session_id path current_hash False (ws_reads w))) of
        Inl e \<Rightarrow> (Inl e, w)
      | Inr _ \<Rightarrow>
          (case atomic_write env path data (ws_fs w) of
             Inl e \<Rightarrow> (Inl e, w)
           | Inr f \<Rightarrow>
               (case compute_hash env path f of
                  Inl e \<Rightarrow> (Inl e, w\<lparr>ws_fs := f\<rparr>)
                | Inr new_hash \<Rightarrow> (Inr (), \<lparr>ws_fs = f, ws_reads = record_read env session_id path new_hash (ws_reads w)\<rparr>))))"

text \<open>\<open>read_text\<close>: UTF-8, with \<open>\r\n\<close> and \<open>\r\<close> read as \<open>\n\<close>.\<close>

fun universal_newlines :: "string \<Rightarrow> string" where
  "universal_newlines [] = []"
| "universal_newlines (c # cs) =
     (if c = CHR 0x0D
      then CHR 0x0A # (case cs of [] \<Rightarrow> [] | d # ds \<Rightarrow> if d = CHR 0x0A then universal_newlines ds else universal_newlines cs)
      else c # universal_newlines cs)"

definition read_text :: "os \<Rightarrow> string \<Rightarrow> fs \<Rightarrow> string result" where
  "read_text env path f =
     (if is_dir path f then Inl (OSError 21)
      else (case dict_get (fs_files f) path of
              None \<Rightarrow> Inl FileNotFoundError
            | Some data \<Rightarrow>
                (case os_decode env data of None \<Rightarrow> Inl ValueError | Some t \<Rightarrow> Inr (universal_newlines t))))"

definition safe_read_for_write :: "os \<Rightarrow> string \<Rightarrow> string \<Rightarrow> workspace \<Rightarrow> string result \<times> workspace" where
  "safe_read_for_write env session_id path w =
     (case read_text env path (ws_fs w) of
        Inl e \<Rightarrow> (Inl e, w)
      | Inr content \<Rightarrow>
          (case compute_hash env path (ws_fs w) of
             Inl e \<Rightarrow> (Inl e, w)
           | Inr content_hash \<Rightarrow> (Inr content, w\<lparr>ws_reads := record_read env session_id path content_hash (ws_reads w)\<rparr>)))"

section \<open>Retries\<close>

definition TRANSIENT_ERRNOS :: "int list" where
  "TRANSIENT_ERRNOS = [5, 16, 11, 28, 37]"

definition is_transient_error :: "int \<Rightarrow> bool" where
  "is_transient_error errno = (errno \<in> set TRANSIENT_ERRNOS)"

text \<open>\<open>left\<close> counts the retries that remain; the sleeps between attempts are left out.\<close>

fun with_transient_retry :: "('s \<Rightarrow> 'a result \<times> 's) \<Rightarrow> nat \<Rightarrow> 's \<Rightarrow> 'a result \<times> 's" where
  "with_transient_retry fn left s =
     (case fn s of
        (Inl (OSError errno), s') \<Rightarrow>
          if \<not> is_transient_error errno then (Inl (OSError errno), s')
          else (case left of 0 \<Rightarrow> (Inl (OSError errno), s') | Suc n \<Rightarrow> with_transient_retry fn n s')
      | (r, s') \<Rightarrow> (r, s'))"

declare with_transient_retry.simps [simp del]

section \<open>Containment\<close>

definition components :: "string \<Rightarrow> string list" where
  "components p = split_on CHR ''/'' p"

lemma within_components: "p = d \<or> startswith p (d @ ''/'') \<longleftrightarrow> prefix (components d) (components p)"
  by (simp add: components_def prefix_split_on startswith_def)

lemma in_scope_components:
  "in_scope env resolved ps \<longleftrightarrow> list_ex (\<lambda>d. prefix (components (os_canon env d)) (components resolved)) ps"
  by (induction ps) (auto simp: within_components [symmetric])

lemma resolve_and_check_Inr:
  "resolve_and_check env raw_path root_dir = Inr p \<longleftrightarrow>
     raw_path \<noteq> [] \<and> p = os_canon env (joinpath root_dir raw_path) \<and> prefix (components root_dir) (components p)"
  by (auto simp: resolve_and_check_def Let_def within_components [symmetric])

text \<open>
  Containment by strings is containment by components: \<open>resolve_and_check\<close> accepts exactly the non-empty
  paths whose canonical form has the components of the root directory as its first components, so a sibling whose name
  merely starts with the root's name is rejected; and the write scope accepts exactly the paths below one of
  its entries in the same sense. For the root \<open>/\<close> itself only \<open>/\<close> and no file is accepted, since \<open>/\<close> splits into two
  empty components.
\<close>

theorem path_containment:
  "resolve_and_check env raw_path root_dir =
     (let p = os_canon env (joinpath root_dir raw_path)
      in if raw_path \<noteq> [] \<and> prefix (components root_dir) (components p) then Inr p else Inl PathError) \<and>
   check_write_scope env q (Some ps) =
     (if list_ex (\<lambda>d. prefix (components (os_canon env d)) (components q)) ps then Inr () else Inl PathError) \<and>
   (resolve_and_check env raw_path ''/'' = Inr r \<longleftrightarrow>
     raw_path \<noteq> [] \<and> r = os_canon env (joinpath ''/'' raw_path) \<and> (r = ''/'' \<or> startswith r ''//''))"
  by (auto simp: resolve_and_check_def Let_def within_components [symmetric] check_write_scope_def in_scope_components)

section \<open>No lost updates\<close>

text \<open>
  What each session last saw of each file is a ghost component next to the workspace: the bytes it read or
  wrote. Other processes may change the file system at any time.
\<close>

type_synonym ghost = "string \<times> string \<Rightarrow> string option"

inductive ws_step :: "os \<Rightarrow> workspace \<times> ghost \<Rightarrow> workspace \<times> ghost \<Rightarrow> bool" for env :: os where
  saw: "safe_read_for_write env session_id path w = (Inr content, w') \<Longrightarrow> os_canon env path = path \<Longrightarrow>
    ws_step env (w, g) (w', g((session_id, path) := dict_get (fs_files (ws_fs w)) path))"
| wrote: "safe_write env session_id path data is_new_file w = (Inr (), w') \<Longrightarrow> os_canon env path = path \<Longrightarrow>
    ws_step env (w, g) (w', g((session_id, path) := Some data))"
| meddled: "ws_step env (w, g) (w\<lparr>ws_fs := f\<rparr>, g)"

definition seen_inv :: "os \<Rightarrow> workspace \<times> ghost \<Rightarrow> bool" where
  "seen_inv env s = (\<forall>path session_id h. seen_hash (ws_reads (fst s)) path session_id = Some h \<longrightarrow>
     (\<exists>c. snd s (session_id, path) = Some c \<and> os_hash env c = h))"

lemma seen_hash_record:
  "os_canon env path = path \<Longrightarrow>
   seen_hash (record_read env session_id path h rs) path' session' =
     (if path' = path \<and> session' = session_id then Some h else seen_hash rs path' session')"
  by (auto simp: seen_hash_def record_read_def Let_def split: option.split)

lemma safe_write_ok:
  assumes "safe_write env session_id path data is_new_file w = (Inr (), w')"
  shows "fs_files (ws_fs w') = dict_set path data (fs_files (ws_fs w))"
    "ws_reads w' = record_read env session_id path (os_hash env data) (ws_reads w)"
    "\<not> is_new_file \<Longrightarrow> \<exists>c. dict_get (fs_files (ws_fs w)) path = Some c \<and>
       seen_hash (ws_reads w) (os_canon env path) session_id = Some (os_hash env c)"
  using assms
  by (auto simp: safe_write_def atomic_write_def compute_hash_def check_write_def bind_res_def is_dir_def
      split: if_splits sum.splits option.splits)

lemma safe_read_ok:
  assumes "safe_read_for_write env session_id path w = (Inr content, w')"
  shows "\<exists>c t. dict_get (fs_files (ws_fs w)) path = Some c \<and> os_decode env c = Some t \<and> content = universal_newlines t \<and>
    w' = w\<lparr>ws_reads := record_read env session_id path (os_hash env c) (ws_reads w)\<rparr>"
  using assms
  by (auto simp: safe_read_for_write_def read_text_def compute_hash_def split: if_splits sum.splits option.splits)

lemma ws_step_seen: "ws_step env s s' \<Longrightarrow> seen_inv env s \<Longrightarrow> seen_inv env s'"
proof (induction rule: ws_step.induct)
  case (saw session_id path w content w' g)
  then show ?case using safe_read_ok [OF saw(1)] by (auto simp: seen_inv_def seen_hash_record)
next
  case (wrote session_id path data is_new_file w w' g)
  then show ?case using safe_write_ok(2) [OF wrote(1)] by (auto simp: seen_inv_def seen_hash_record)
qed (simp add: seen_inv_def)

interpretation seen: invariant_system "\<lambda>s. ws_reads (fst s) = []" "ws_step env" "seen_inv env" for env
  by unfold_locales (simp add: seen_inv_def seen_hash_def, rule ws_step_seen)


definition sample_os :: os where
  "sample_os = \<lparr>os_canon = id, os_hash = id, os_decode = Some, os_write_error = (\<lambda>_ _. None),
     os_mkdir = (\<lambda>p f. Inr (f\<lparr>fs_dirs := fs_dirs f @ [p]\<rparr>)),
     os_rename = (\<lambda>a b f. case dict_get (fs_files f) a of
        None \<Rightarrow> Inl FileNotFoundError
      | Some c \<Rightarrow> Inr (f\<lparr>fs_files := dict_set b c (dict_pop a (fs_files f))\<rparr>)),
     os_copy2 = (\<lambda>a b f. case dict_get (fs_files f) a of
        None \<Rightarrow> Inl FileNotFoundError
      | Some c \<Rightarrow> Inr (f\<lparr>fs_files := dict_set b c (fs_files f)\<rparr>)),
     os_saferm = (\<lambda>p _ _ f. (0, [], f\<lparr>fs_files := dict_pop p (fs_files f)\<rparr>))\<rparr>"

definition sample_ws :: workspace where
  "sample_ws = \<lparr>ws_fs = \<lparr>fs_files = [(''/r/a'', ''one''), (''/r/b'', ''two'')], fs_dirs = [''/r''], fs_exec = []\<rparr>, ws_reads = []\<rparr>"


section \<open>Retries end\<close>

definition transient :: "'a result \<Rightarrow> bool" where
  "transient r = (case r of Inl (OSError errno) \<Rightarrow> is_transient_error errno | _ \<Rightarrow> False)"

lemma retry_step:
  "with_transient_retry fn left s =
     (if transient (fst (fn s)) \<and> left \<noteq> 0 then with_transient_retry fn (left - 1) (snd (fn s)) else fn s)"
  by (subst with_transient_retry.simps)
    (auto simp: transient_def split: prod.split sum.split exn.split nat.split)

text \<open>
  Retries end and hide nothing: with \<open>n\<close> retries the function is called at most \<open>n + 1\<close> times, each time in the
  state the previous call left; every call before the last failed with a transient error, and the result is the
  result of the last call, which is not transient unless all retries are used up.
\<close>

theorem retry_bounded:
  "\<exists>k \<le> n. with_transient_retry fn n s = fn (((snd \<circ> fn) ^^ k) s) \<and>
     list_all (\<lambda>i. transient (fst (fn (((snd \<circ> fn) ^^ i) s)))) [0..<k] \<and>
     (k = n \<or> \<not> transient (fst (with_transient_retry fn n s)))"
proof (induction n arbitrary: s)
  case 0
  show ?case by (simp add: retry_step [of fn 0])
next
  case (Suc n)
  show ?case
  proof (cases "transient (fst (fn s))")
    case True
    let ?s = "snd (fn s)"
    from Suc.IH [of ?s] obtain k where k: "k \<le> n" "with_transient_retry fn n ?s = fn (((snd \<circ> fn) ^^ k) ?s)"
        "list_all (\<lambda>i. transient (fst (fn (((snd \<circ> fn) ^^ i) ?s)))) [0..<k]"
        "k = n \<or> \<not> transient (fst (with_transient_retry fn n ?s))" by blast
    have shift: "((snd \<circ> fn) ^^ Suc i) s = ((snd \<circ> fn) ^^ i) ?s" for i by (simp add: funpow_swap1)
    have all: "list_all (\<lambda>i. transient (fst (fn (((snd \<circ> fn) ^^ i) s)))) [0..<Suc k]"
      unfolding list_all_iff
    proof
      fix i assume "i \<in> set [0..<Suc k]"
      then have i: "i = 0 \<or> (\<exists>j < k. i = Suc j)" by (simp only: set_upt atLeastLessThan_iff less_Suc_eq_0_disj) auto
      have "transient (fst (fn (((snd \<circ> fn) ^^ Suc j) s)))" if "j < k" for j
        unfolding shift using that k(3) by (simp add: list_all_iff)
      then show "transient (fst (fn (((snd \<circ> fn) ^^ i) s)))" using i True by auto
    qed
    show ?thesis
    proof (intro exI [of _ "Suc k"] conjI)
      have eq: "with_transient_retry fn (Suc n) s = with_transient_retry fn n ?s"
        using True by (simp add: retry_step [of fn "Suc n" s])
      show "with_transient_retry fn (Suc n) s = fn (((snd \<circ> fn) ^^ Suc k) s)" unfolding eq shift by (rule k(2))
      show "Suc k = Suc n \<or> \<not> transient (fst (with_transient_retry fn (Suc n) s))" unfolding eq using k(4) by auto
      show "list_all (\<lambda>i. transient (fst (fn (((snd \<circ> fn) ^^ i) s)))) [0..<Suc k]" by (rule all)
    qed (use k(1) in simp)
  qed (rule exI [of _ 0], simp add: retry_step [of fn "Suc n"])
qed

definition flaky :: "nat \<Rightarrow> string result \<times> nat" where
  "flaky n = (if n < 2 then Inl (OSError 16) else Inr ''ok'', Suc n)"

theorem retry_bounded_witness:
  "with_transient_retry flaky 3 0 = (Inr ''ok'', 3) \<and> with_transient_retry flaky 1 0 = (Inl (OSError 16), 2) \<and>
   (\<exists>k \<le> 3. with_transient_retry flaky 3 0 = flaky (((snd \<circ> flaky) ^^ k) 0))"
proof (intro conjI)
  show "with_transient_retry flaky 3 0 = (Inr ''ok'', 3)" by code_simp
  show "with_transient_retry flaky 1 0 = (Inl (OSError 16), 2)" by code_simp
  from retry_bounded [of 3 flaky 0] show "\<exists>k \<le> 3. with_transient_retry flaky 3 0 = flaky (((snd \<circ> flaky) ^^ k) 0)"
    by (elim exE conjE) (rule exI, rule conjI)
qed

end
