(* ===== verification/File_Tools.thy ===== *)
theory File_Tools
  imports Write_Safety
begin

text \<open>
  The tools an agent calls on files: reading with previews (\<open>tool/_read_tools.py\<close>, \<open>tool/_preview.py\<close>) and the
  mutating tools (\<open>tool/_write_tools.py\<close>) over the guarded reads and writes of \<open>Write_Safety\<close>, and the
  pipeline that wraps every tool (\<open>tool/_pipeline.py\<close>, \<open>tool/_scrub.py\<close>). A confirmation is the text returned to
  the agent; \<open>ToolError\<close> stands for the tool's error whatever its message.
\<close>

section \<open>Checks shared by the tools\<close>

definition resolve_path :: "os \<Rightarrow> string \<Rightarrow> string \<Rightarrow> string result" where
  "resolve_path env raw root_dir = (case resolve_and_check env raw root_dir of Inl _ \<Rightarrow> Inl ToolError | Inr p \<Rightarrow> Inr p)"

definition check_scope :: "os \<Rightarrow> string \<Rightarrow> string list option \<Rightarrow> unit result" where
  "check_scope env resolved scope = (case check_write_scope env resolved scope of Inl _ \<Rightarrow> Inl ToolError | Inr u \<Rightarrow> Inr u)"

text \<open>Both checks in sequence, as the mutating tools make them.\<close>

definition writable :: "os \<Rightarrow> string \<Rightarrow> string list option \<Rightarrow> string \<Rightarrow> string result" where
  "writable env root_dir scope raw =
     bind_res (resolve_path env raw root_dir) (\<lambda>resolved. bind_res (check_scope env resolved scope) (\<lambda>_. Inr resolved))"

section \<open>Mutating tools\<close>

definition write_impl ::
  "os \<Rightarrow> string \<Rightarrow> string list option \<Rightarrow> string \<Rightarrow> string \<Rightarrow> string \<Rightarrow> bool option \<Rightarrow> workspace \<Rightarrow> string result \<times> workspace" where
  "write_impl env read_root write_scope session_id path content create_dirs w =
     (case writable env read_root write_scope path of
        Inl e \<Rightarrow> (Inl e, w)
      | Inr resolved \<Rightarrow>
          (case (if create_dirs = Some True then os_mkdir env (parent resolved) (ws_fs w) else Inr (ws_fs w)) of
             Inl e \<Rightarrow> (Inl e, w)
           | Inr f \<Rightarrow>
               (case safe_write env session_id resolved (utf8 content) (\<not> path_exists resolved f) (w\<lparr>ws_fs := f\<rparr>) of
                  (Inl e, w') \<Rightarrow> (Inl e, w')
                | (Inr _, w') \<Rightarrow> (Inr (''Wrote '' @ resolved), w'))))"

text \<open>\<open>s.count(sub)\<close> for a non-empty \<open>sub\<close>: occurrences without overlap.\<close>

function str_count :: "string \<Rightarrow> string \<Rightarrow> nat" where
  "str_count sub s =
     (if sub \<noteq> [] \<and> prefix sub s then Suc (str_count sub (drop (length sub) s))
      else (case s of [] \<Rightarrow> 0 | c # cs \<Rightarrow> str_count sub cs))"
  by pat_completeness auto
termination
  by (relation "measure (\<lambda>(sub, s). length s)") (auto simp: prefix_def)

declare str_count.simps [simp del]

text \<open>\<open>other\<close> is what other processes do to the files between the two locked sections.\<close>

definition edit_impl ::
  "os \<Rightarrow> (fs \<Rightarrow> fs) \<Rightarrow> string \<Rightarrow> string list option \<Rightarrow> string \<Rightarrow> string \<Rightarrow> string \<Rightarrow> string \<Rightarrow> bool option \<Rightarrow> workspace \<Rightarrow> string result \<times> workspace" where
  "edit_impl env other read_root write_scope session_id path old_string new_string replace_all w =
     (case writable env read_root write_scope path of
        Inl e \<Rightarrow> (Inl e, w)
      | Inr resolved \<Rightarrow>
          if old_string = [] then (Inl ToolError, w)
          else (case safe_read_for_write env session_id resolved w of
             (Inl e, w1) \<Rightarrow> (Inl e, w1)
           | (Inr content, w1) \<Rightarrow>
               (let count = str_count old_string content
                in if count = 0 then (Inl ToolError, w1)
                   else if replace_all \<noteq> Some True \<and> count > 1 then (Inl ToolError, w1)
                   else (case safe_write env session_id resolved (utf8 (str_replace old_string new_string content)) False
                                (w1\<lparr>ws_fs := other (ws_fs w1)\<rparr>) of
                           (Inl e, w2) \<Rightarrow> (Inl e, w2)
                         | (Inr _, w2) \<Rightarrow>
                             (Inr (''Edited '' @ resolved @
                                   (if replace_all = Some True then '' ('' @ nat_str count @ '' replacements)'' else [])), w2)))))"

record edit_item =
  ed_file :: string
  ed_old :: string
  ed_new :: string

fun check_edits :: "os \<Rightarrow> string \<Rightarrow> string list option \<Rightarrow> edit_item list \<Rightarrow> (string \<times> string \<times> string) list result" where
  "check_edits env read_root write_scope [] = Inr []"
| "check_edits env read_root write_scope (e # es) =
     bind_res (writable env read_root write_scope (ed_file e)) (\<lambda>resolved.
       if ed_old e = [] then Inl ToolError
       else bind_res (check_edits env read_root write_scope es) (\<lambda>rest. Inr ((resolved, ed_old e, ed_new e) # rest)))"

text \<open>
  What happened to each edit. \<open>ToolError\<close>, \<open>FileNotFoundError\<close> and \<open>OSError\<close> are caught per edit; others leave
  the loop.
\<close>

datatype edit_report = EditDone nat string | EditNotFound nat string | EditFailed nat exn

definition caught :: "exn \<Rightarrow> bool" where
  "caught e = (case e of ToolError \<Rightarrow> True | FileNotFoundError \<Rightarrow> True | OSError _ \<Rightarrow> True | _ \<Rightarrow> False)"

fun apply_edits ::
  "os \<Rightarrow> string \<Rightarrow> nat \<Rightarrow> (string \<times> string \<times> string) list \<Rightarrow> workspace \<Rightarrow> edit_report list result \<times> workspace" where
  "apply_edits env session_id i [] w = (Inr [], w)"
| "apply_edits env session_id i ((resolved, old_string, new_string) # rest) w =
     (let continue = (\<lambda>rep w'. case apply_edits env session_id (Suc i) rest w' of
                        (Inl e, w'') \<Rightarrow> (Inl e, w'') | (Inr reps, w'') \<Rightarrow> (Inr (rep # reps), w''))
      in case safe_read_for_write env session_id resolved w of
           (Inl e, w1) \<Rightarrow> if caught e then continue (EditFailed i e) w1 else (Inl e, w1)
         | (Inr content, w1) \<Rightarrow>
             if str_count old_string content = 0 then continue (EditNotFound i resolved) w1
             else (case safe_write env session_id resolved (utf8 (str_replace old_string new_string content)) False w1 of
                     (Inl e, w2) \<Rightarrow> if caught e then continue (EditFailed i e) w2 else (Inl e, w2)
                   | (Inr _, w2) \<Rightarrow> continue (EditDone i resolved) w2))"

definition multi_edit_impl ::
  "os \<Rightarrow> string \<Rightarrow> string list option \<Rightarrow> string \<Rightarrow> edit_item list \<Rightarrow> workspace \<Rightarrow> edit_report list result \<times> workspace" where
  "multi_edit_impl env read_root write_scope session_id edits w =
     (case check_edits env read_root write_scope edits of
        Inl e \<Rightarrow> (Inl e, w)
      | Inr resolved_edits \<Rightarrow> apply_edits env session_id 0 resolved_edits w)"

definition mkdir_impl :: "os \<Rightarrow> string \<Rightarrow> string list option \<Rightarrow> string \<Rightarrow> fs \<Rightarrow> string result \<times> fs" where
  "mkdir_impl env read_root write_scope path f =
     (case writable env read_root write_scope path of
        Inl e \<Rightarrow> (Inl e, f)
      | Inr resolved \<Rightarrow>
          (case os_mkdir env resolved f of Inl e \<Rightarrow> (Inl e, f) | Inr f' \<Rightarrow> (Inr (''Created '' @ resolved), f')))"

definition move_impl :: "os \<Rightarrow> string \<Rightarrow> string list option \<Rightarrow> string \<Rightarrow> string \<Rightarrow> fs \<Rightarrow> string result \<times> fs" where
  "move_impl env read_root write_scope source destination f =
     (case (resolve_path env source read_root, resolve_path env destination read_root) of
        (Inr resolved_src, Inr resolved_dst) \<Rightarrow>
          (case (check_scope env resolved_src write_scope, check_scope env resolved_dst write_scope) of
             (Inr _, Inr _) \<Rightarrow>
               if \<not> path_exists resolved_src f then (Inl ToolError, f)
               else (case os_rename env resolved_src resolved_dst f of
                       Inl e \<Rightarrow> (Inl e, f)
                     | Inr f' \<Rightarrow> (Inr (''Moved '' @ resolved_src @ '' -> '' @ resolved_dst), f'))
           | _ \<Rightarrow> (Inl ToolError, f))
      | _ \<Rightarrow> (Inl ToolError, f))"

definition copy_impl :: "os \<Rightarrow> string \<Rightarrow> string list option \<Rightarrow> string \<Rightarrow> string \<Rightarrow> fs \<Rightarrow> string result \<times> fs" where
  "copy_impl env read_root write_scope source destination f =
     (case (resolve_path env source read_root, resolve_path env destination read_root) of
        (Inr resolved_src, Inr resolved_dst) \<Rightarrow>
          (case check_scope env resolved_dst write_scope of
             Inr _ \<Rightarrow>
               if \<not> path_exists resolved_src f then (Inl ToolError, f)
               else if \<not> is_file resolved_src f then (Inl ToolError, f)
               else (case os_copy2 env resolved_src resolved_dst f of
                       Inl e \<Rightarrow> (Inl e, f)
                     | Inr f' \<Rightarrow> (Inr (''Copied '' @ resolved_src @ '' -> '' @ resolved_dst), f'))
           | Inl e \<Rightarrow> (Inl ToolError, f))
      | _ \<Rightarrow> (Inl ToolError, f))"

definition delete_impl :: "os \<Rightarrow> string \<Rightarrow> string list option \<Rightarrow> string \<Rightarrow> string \<Rightarrow> bool \<Rightarrow> fs \<Rightarrow> string result \<times> fs" where
  "delete_impl env read_root write_scope path description recursive f =
     (case writable env read_root write_scope path of
        Inl e \<Rightarrow> (Inl e, f)
      | Inr resolved \<Rightarrow>
          if is_dir resolved f \<and> \<not> recursive then (Inl ToolError, f)
          else (case os_saferm env resolved description recursive f of
                  (returncode, _, f') \<Rightarrow>
                    if returncode \<noteq> 0 then (Inl ToolError, f') else (Inr (''Deleted '' @ resolved), f')))"

definition set_executable_impl :: "os \<Rightarrow> string \<Rightarrow> string list option \<Rightarrow> string \<Rightarrow> fs \<Rightarrow> string result \<times> fs" where
  "set_executable_impl env read_root write_scope path f =
     (case writable env read_root write_scope path of
        Inl e \<Rightarrow> (Inl e, f)
      | Inr resolved \<Rightarrow>
          if \<not> path_exists resolved f then (Inl ToolError, f)
          else if \<not> is_file resolved f then (Inl ToolError, f)
          else (Inr (''Set executable: '' @ resolved), f\<lparr>fs_exec := resolved # filter (\<lambda>q. q \<noteq> resolved) (fs_exec f)\<rparr>))"

section \<open>Reading\<close>

text \<open>\<open>s.splitlines(keepends=True)\<close> on the line boundaries below code point 256, and without the ends.\<close>

definition line_break :: "char \<Rightarrow> bool" where
  "line_break c = (let n = of_char c :: nat in (10 \<le> n \<and> n \<le> 13) \<or> (28 \<le> n \<and> n \<le> 30) \<or> n = 133)"

fun splitlines_keep :: "string \<Rightarrow> string list" where
  "splitlines_keep [] = []"
| "splitlines_keep (c # cs) =
     (if line_break c
      then (case cs of
              [] \<Rightarrow> [[c]]
            | d # ds \<Rightarrow> if c = CHR 0x0D \<and> d = CHR 0x0A then [c, d] # splitlines_keep ds else [c] # splitlines_keep cs)
      else (case splitlines_keep cs of [] \<Rightarrow> [[c]] | l # ls \<Rightarrow> (c # l) # ls))"

definition splitlines :: "string \<Rightarrow> string list" where
  "splitlines s = map (filter (\<lambda>c. \<not> line_break c)) (splitlines_keep s)"

record preview_result =
  pv_content :: string
  pv_is_preview :: bool
  pv_total_lines :: nat
  pv_total_bytes :: nat

text \<open>A preview keeps \<open>preview_lines\<close> lines at each end; \<open>lines[-0:]\<close> is the whole list.\<close>

definition check_and_preview :: "string \<Rightarrow> int \<Rightarrow> nat \<Rightarrow> preview_result" where
  "check_and_preview content threshold preview_lines =
     (let total_bytes = length (utf8 content);
          lines = splitlines_keep content;
          total_lines = length lines
      in if int total_bytes \<le> threshold
         then \<lparr>pv_content = content, pv_is_preview = False, pv_total_lines = total_lines, pv_total_bytes = total_bytes\<rparr>
         else (let head = take preview_lines lines;
                   tail = (if total_lines > preview_lines * 2
                           then (if preview_lines = 0 then lines else drop (total_lines - preview_lines) lines)
                           else drop preview_lines lines);
                   omitted = int total_lines - int (length head) - int (length tail);
                   separator = [CHR 0x0A] @ ''... ('' @ int_str omitted @ '' lines omitted, '' @ nat_str total_lines @
                     '' total lines, '' @ nat_str total_bytes @ '' total bytes) ...'' @ [CHR 0x0A]
               in \<lparr>pv_content = concat head @ separator @ concat tail, pv_is_preview = True,
                   pv_total_lines = total_lines, pv_total_bytes = total_bytes\<rparr>))"

type_synonym guard = "(string, string list) dict"

definition record_preview :: "string \<Rightarrow> string \<Rightarrow> guard \<Rightarrow> guard" where
  "record_preview session_id path g =
     (let paths = (case dict_get g session_id of None \<Rightarrow> [] | Some ps \<Rightarrow> ps)
      in dict_set session_id (if path \<in> set paths then paths else paths @ [path]) g)"

definition check_full_allowed :: "string \<Rightarrow> string \<Rightarrow> guard \<Rightarrow> bool" where
  "check_full_allowed session_id path g =
     (case dict_get g session_id of None \<Rightarrow> False | Some ps \<Rightarrow> path \<in> set ps)"

definition is_binary :: "os \<Rightarrow> string \<Rightarrow> fs \<Rightarrow> bool" where
  "is_binary env p f =
     (case dict_get (fs_files f) p of
        None \<Rightarrow> False
      | Some data \<Rightarrow> let chunk = take 8192 data in CHR 0x00 \<in> set chunk \<or> os_decode env chunk = None)"

definition pad_left :: "nat \<Rightarrow> string \<Rightarrow> string" where
  "pad_left width s = replicate (width - length s) CHR '' '' @ s"

definition format_with_line_numbers :: "string list \<Rightarrow> nat \<Rightarrow> string" where
  "format_with_line_numbers lines start_lineno =
     (if lines = [] then []
      else (let width = length (nat_str (start_lineno + length lines - 1))
            in join [CHR 0x0A] (map (\<lambda>(lineno, line). pad_left width (nat_str lineno) @ [CHR 0x09] @ line)
                 (zip [start_lineno..<start_lineno + length lines] lines))))"

record file_content =
  fc_content :: string
  fc_is_preview :: bool
  fc_total_lines :: nat
  fc_total_bytes :: nat

definition refusal :: string where
  "refusal = ''Cannot retrieve full content: no preview was previously returned for this file. Read the file first without full=true.''"

text \<open>The reading tool: the data and the text it returns, and the guard. Offsets are at least 1.\<close>

definition read_impl ::
  "os \<Rightarrow> string \<Rightarrow> int \<Rightarrow> nat \<Rightarrow> string \<Rightarrow> string \<Rightarrow> nat option \<Rightarrow> nat option \<Rightarrow> bool option \<Rightarrow> guard \<Rightarrow> fs \<Rightarrow>
   (file_content \<times> string) result \<times> guard" where
  "read_impl env read_root preview_threshold preview_lines session_id path offset limit full g f =
     (case resolve_path env path read_root of
        Inl e \<Rightarrow> (Inl e, g)
      | Inr resolved \<Rightarrow>
          if \<not> is_file resolved f then (Inl ToolError, g)
          else if is_binary env resolved f
          then (Inr (\<lparr>fc_content = ''Binary file, cannot display'', fc_is_preview = False, fc_total_lines = 0, fc_total_bytes = 0\<rparr>,
                     ''Binary file, cannot display''), g)
          else (case read_text env resolved f of
             Inl ValueError \<Rightarrow> (Inl ValueError, g)
           | Inl _ \<Rightarrow> (Inl ToolError, g)
           | Inr raw_text \<Rightarrow>
               (let all_lines = splitlines raw_text;
                    start_idx = min ((case offset of None \<Rightarrow> 1 | Some o' \<Rightarrow> o') - 1) (length all_lines);
                    selected = (case limit of None \<Rightarrow> drop start_idx all_lines | Some l \<Rightarrow> take l (drop start_idx all_lines));
                    content = join [CHR 0x0A] selected;
                    out = (\<lambda>c b. \<lparr>fc_content = c, fc_is_preview = b, fc_total_lines = length all_lines, fc_total_bytes = length (utf8 raw_text)\<rparr>)
                in if full = Some True
                   then (if \<not> check_full_allowed session_id resolved g then (Inr (out refusal False, refusal), g)
                         else (Inr (out content False, format_with_line_numbers selected (start_idx + 1)), g))
                   else (let r = check_and_preview content preview_threshold preview_lines
                         in if pv_is_preview r then (Inr (out content True, pv_content r), record_preview session_id resolved g)
                            else (Inr (out content False, format_with_line_numbers selected (start_idx + 1)), g)))))"

section \<open>The pipeline\<close>

record tool_output =
  to_data :: "json option"
  to_text :: string

definition scrub_data :: "(string \<Rightarrow> json option) \<Rightarrow> secret_registry \<Rightarrow> json option \<Rightarrow> json option result" where
  "scrub_data loads registry data =
     (case data of
        None \<Rightarrow> Inr None
      | Some d \<Rightarrow> (case loads (scrub registry (json_dumps d)) of None \<Rightarrow> Inl ValueError | Some v \<Rightarrow> Inr (Some v)))"

definition scrub_tool_output :: "(string \<Rightarrow> json option) \<Rightarrow> secret_registry \<Rightarrow> tool_output \<Rightarrow> tool_output result" where
  "scrub_tool_output loads registry r =
     bind_res (scrub_data loads registry (to_data r)) (\<lambda>d. Inr \<lparr>to_data = d, to_text = scrub_text registry (to_text r)\<rparr>)"

text \<open>
  The state of a pipeline: the world the tool and the scheduler act on, the mutation tracker, and the calls
  recorded in the trace. \<open>loads\<close> is \<open>json.loads\<close>.
\<close>

record 's pipe =
  pp_world :: 's
  pp_mutations :: "(string, string list) dict"
  pp_trace :: "(string \<times> jobj \<times> string) list"

record 's wrapped_tool =
  wt_name :: string
  wt_execute :: "jobj \<Rightarrow> 's \<Rightarrow> tool_output result \<times> 's"
  wt_is_start_task :: bool
  wt_is_mutation :: bool
  wt_appendix :: "string option"

definition effective_args :: "(string \<Rightarrow> json option) \<Rightarrow> secret_registry option \<Rightarrow> jobj \<Rightarrow> jobj result" where
  "effective_args loads registry args =
     (case registry of
        None \<Rightarrow> Inr args
      | Some r \<Rightarrow> (case loads (substitute r (json_dumps (JObj args))) of Some (JObj kvs) \<Rightarrow> Inr kvs | _ \<Rightarrow> Inl ValueError))"

definition add_path :: "string \<Rightarrow> string list \<Rightarrow> string list" where
  "add_path p ps = (if p \<in> set ps then ps else ps @ [p])"

definition track_mutation :: "string \<Rightarrow> jobj \<Rightarrow> (string, string list) dict \<Rightarrow> (string, string list) dict" where
  "track_mutation session_id args m =
     (let add = (\<lambda>key ps. case dict_get args key of None \<Rightarrow> ps | Some v \<Rightarrow> add_path (py_str v) ps);
          paths = add ''destination'' (add ''source'' (add ''path''
                    (case dict_get m session_id of None \<Rightarrow> [] | Some ps \<Rightarrow> ps)))
      in dict_set session_id (if paths = [] then [''__generic__''] else paths) m)"

definition wrapped_execute ::
  "(string \<Rightarrow> json option) \<Rightarrow> (string \<Rightarrow> 's \<Rightarrow> uuid result) \<Rightarrow> secret_registry option \<Rightarrow> string \<Rightarrow> 's wrapped_tool \<Rightarrow> jobj \<Rightarrow>
   's pipe \<Rightarrow> tool_output result \<times> 's pipe" where
  "wrapped_execute loads scheduler_check registry session_id t args s =
     (case (if wt_is_start_task t then Inr 0 else scheduler_check session_id (pp_world s)) of
        Inl e \<Rightarrow> (Inl e, s)
      | Inr _ \<Rightarrow>
          (case effective_args loads registry args of
             Inl e \<Rightarrow> (Inl e, s)
           | Inr eargs \<Rightarrow>
               (case with_transient_retry (wt_execute t eargs) 3 (pp_world s) of
                  (Inl e, world) \<Rightarrow> (Inl e, s\<lparr>pp_world := world\<rparr>)
                | (Inr result, world) \<Rightarrow>
                    (case (case registry of None \<Rightarrow> Inr result | Some r \<Rightarrow> scrub_tool_output loads r result) of
                       Inl e \<Rightarrow> (Inl e, s\<lparr>pp_world := world\<rparr>)
                     | Inr scrubbed \<Rightarrow>
                         (Inr (case wt_appendix t of
                                 None \<Rightarrow> scrubbed
                               | Some a \<Rightarrow> if a = [] then scrubbed
                                           else scrubbed\<lparr>to_text := to_text scrubbed @ [CHR 0x0A, CHR 0x0A] @ a\<rparr>),
                          s\<lparr>pp_world := world,
                            pp_mutations := (if wt_is_mutation t then track_mutation session_id eargs (pp_mutations s) else pp_mutations s),
                            pp_trace := pp_trace s @ [(wt_name t, args, to_text scrubbed)]\<rparr>)))))"

section \<open>Confinement\<close>

definition permitted :: "os \<Rightarrow> string \<Rightarrow> string list option \<Rightarrow> string \<Rightarrow> bool" where
  "permitted env root_dir scope q =
     (prefix (components root_dir) (components q) \<and>
      (case scope of None \<Rightarrow> True | Some ps \<Rightarrow> list_ex (\<lambda>d. prefix (components (os_canon env d)) (components q)) ps))"

lemma writable_permitted: "writable env root_dir scope raw = Inr p \<Longrightarrow> permitted env root_dir scope p"
  by (auto simp: writable_def bind_res_Inr_iff resolve_path_def check_scope_def resolve_and_check_Inr check_write_scope_def
      permitted_def in_scope_components split: sum.splits if_splits option.splits)

lemma safe_write_files:
  "safe_write env session_id path data is_new_file w = (r, w') \<Longrightarrow>
   fs_files (ws_fs w') = fs_files (ws_fs w) \<or> fs_files (ws_fs w') = dict_set path data (fs_files (ws_fs w))"
  by (auto simp: safe_write_def atomic_write_def split: if_splits sum.splits option.splits)

lemma safe_read_fs: "safe_read_for_write env session_id path w = (r, w') \<Longrightarrow> ws_fs w' = ws_fs w"
  by (auto simp: safe_read_for_write_def split: sum.splits)

definition only_at :: "(string \<Rightarrow> bool) \<Rightarrow> workspace \<Rightarrow> workspace \<Rightarrow> bool" where
  "only_at P w w' = (\<forall>q. dict_get (fs_files (ws_fs w')) q \<noteq> dict_get (fs_files (ws_fs w)) q \<longrightarrow> P q)"

lemma only_at_refl [simp]: "only_at P w w"
  by (simp add: only_at_def)

lemma only_at_trans: "only_at P w w1 \<Longrightarrow> only_at P w1 w2 \<Longrightarrow> only_at P w w2"
  by (metis only_at_def)

lemma only_at_write: "safe_write env session_id path data b w = (r, w') \<Longrightarrow> P path \<Longrightarrow> only_at P w w'"
  using safe_write_files [of env session_id path data b w r w'] by (auto simp: only_at_def split: if_splits)

lemma only_at_read: "safe_read_for_write env session_id path w = (r, w') \<Longrightarrow> only_at P w w'"
  by (simp add: only_at_def safe_read_fs)

lemma apply_edits_only:
  assumes "list_all (\<lambda>(p, old, new). P p) edits" "apply_edits env session_id i edits w = (r, w')"
  shows "only_at P w w'"
  using assms
proof (induction edits arbitrary: i w r)
  case (Cons e edits)
  obtain p old new where e: "e = (p, old, new)" by (cases e)
  have step: "only_at P w w'" if "only_at P w w1" "apply_edits env session_id (Suc i) edits w1 = (r1, w')" for w1 r1
    using that Cons.IH [of "Suc i" w1 r1] Cons.prems(1) by (auto intro: only_at_trans)
  obtain r1 w1 where rd: "safe_read_for_write env session_id p w = (r1, w1)" by force
  have o1: "only_at P w w1" by (rule only_at_read [OF rd])
  show ?case
  proof (cases r1)
    case (Inl x)
    then show ?thesis using Cons.prems(2) rd o1 step
      by (auto simp: e Let_def split: if_splits prod.splits sum.splits)
  next
    case (Inr content)
    obtain r2 w2 where wr: "safe_write env session_id p (utf8 (str_replace old new content)) False w1 = (r2, w2)" by force
    have o2: "only_at P w w2" using only_at_trans [OF o1 only_at_write [OF wr]] Cons.prems(1) e by simp
    show ?thesis using Cons.prems(2) rd wr o1 o2 step Inr
      by (auto simp: e Let_def split: if_splits prod.splits sum.splits)
  qed
qed simp

lemma check_edits_permitted:
  "check_edits env root_dir scope edits = Inr rs \<Longrightarrow> list_all (\<lambda>(p, old, new). permitted env root_dir scope p) rs"
  by (induction edits arbitrary: rs) (auto simp: bind_res_Inr_iff writable_permitted split: if_splits)

text \<open>
  C15. The writing tools are confined: whatever \<open>write\<close>, \<open>edit\<close> and \<open>multi_edit\<close> return or raise, the only files
  whose contents they change are below the root directory and below an entry of the write scope, component by
  component. (Creating directories is assumed to change no file.)
\<close>

theorem writing_tools_confined:
  assumes mkdir: "\<And>p f f'. os_mkdir env p f = Inr f' \<Longrightarrow> fs_files f' = fs_files f"
  shows "only_at (permitted env root_dir scope) w (snd (write_impl env root_dir scope session_id path content create_dirs w)) \<and>
    only_at (permitted env root_dir scope) w (snd (edit_impl env id root_dir scope session_id path old_string new_string replace_all w)) \<and>
    only_at (permitted env root_dir scope) w (snd (multi_edit_impl env root_dir scope session_id edits w))"
proof (intro conjI)
  let ?P = "permitted env root_dir scope"
  show "only_at ?P w (snd (write_impl env root_dir scope session_id path content create_dirs w))"
  proof (cases "writable env root_dir scope path")
    case (Inr p)
    have P: "?P p" by (rule writable_permitted [OF Inr])
    show ?thesis
    proof (cases "if create_dirs = Some True then os_mkdir env (parent p) (ws_fs w) else Inr (ws_fs w)")
      case (Inr f)
      then have f: "fs_files f = fs_files (ws_fs w)" using mkdir by (auto split: if_splits)
      obtain r w' where wr: "safe_write env session_id p (utf8 content) (\<not> path_exists p f) (w\<lparr>ws_fs := f\<rparr>) = (r, w')" by force
      then have "only_at ?P (w\<lparr>ws_fs := f\<rparr>) w'" using P by (rule only_at_write)
      then have "only_at ?P w w'" using f by (simp add: only_at_def)
      then show ?thesis using \<open>writable env root_dir scope path = Inr p\<close> Inr wr by (auto simp: write_impl_def split: sum.split)
    qed (use Inr in \<open>simp add: write_impl_def\<close>)
  qed (simp add: write_impl_def)
  show "only_at ?P w (snd (edit_impl env id root_dir scope session_id path old_string new_string replace_all w))"
  proof (cases "writable env root_dir scope path")
    case (Inr p)
    obtain r1 w1 where rd: "safe_read_for_write env session_id p w = (r1, w1)" by force
    have o1: "only_at ?P w w1" by (rule only_at_read [OF rd])
    show ?thesis
    proof (cases r1)
      case (Inr c)
      obtain r2 w2 where wr: "safe_write env session_id p (utf8 (str_replace old_string new_string c)) False w1 = (r2, w2)" by force
      have "only_at ?P w w2"
        using only_at_trans [OF o1 only_at_write [OF wr]] writable_permitted \<open>writable env root_dir scope path = Inr p\<close> by simp
      then show ?thesis using \<open>writable env root_dir scope path = Inr p\<close> rd wr o1 Inr
        by (auto simp: edit_impl_def Let_def split: sum.split)
    qed (use Inr rd o1 in \<open>simp add: edit_impl_def\<close>)
  qed (simp add: edit_impl_def)
  show "only_at ?P w (snd (multi_edit_impl env root_dir scope session_id edits w))"
    using apply_edits_only [OF check_edits_permitted prod.collapse [symmetric]]
    by (auto simp: multi_edit_impl_def split: sum.split)
qed

theorem writing_tools_confined_witness:
  "only_at (permitted sample_os ''/r'' (Some [''/r/a''])) sample_ws (snd (write_impl sample_os ''/r'' (Some [''/r/a'']) ''s'' ''b'' ''x'' None sample_ws))"
  by (rule writing_tools_confined [THEN conjunct1]) (auto simp: sample_os_def)

section \<open>What an edit does\<close>

lemma universal_newlines_no_cr: "CHR 0x0D \<notin> set (universal_newlines s)"
  by (induction s rule: universal_newlines.induct) (auto split: list.splits if_splits)

lemma str_replace_set: "set (str_replace old new s) \<subseteq> set new \<union> set s"
proof (induction old new s rule: str_replace.induct)
  case (1 old new s)
  show ?case
  proof (cases "old \<noteq> [] \<and> prefix old s")
    case True
    then show ?thesis using 1(1) [OF True] set_drop_subset [of "length old" s] by (subst str_replace.simps) auto
  next
    case False
    then show ?thesis using 1(2) [OF False] by (subst str_replace.simps) (auto split: list.split)
  qed
qed

lemma utf8_no_cr: "CHR 0x0D \<notin> set s \<Longrightarrow> CHR 0x0D \<notin> set (utf8 s)"
proof -
  have "CHR 0x0D \<noteq> char_of (192 + n div 64 :: nat) \<and> CHR 0x0D \<noteq> char_of (128 + n mod 64 :: nat)" if "n < 256" for n :: nat
  proof -
    have "192 + n div 64 < 256" "128 + n mod 64 < 256" using that by auto
    then have "of_char (char_of (192 + n div 64 :: nat) :: char) = 192 + n div 64" "of_char (char_of (128 + n mod 64 :: nat) :: char) = 128 + n mod 64"
      by simp_all
    moreover have "of_char (CHR 0x0D) = (13 :: nat)" by simp
    ultimately show ?thesis by (metis add_leD1 numeral_le_iff semiring_norm(69,70,71,72,73,76,78) le_add1 not_numeral_le_zero)
  qed
  moreover have "(of_char c :: nat) < 256" for c by (simp add: of_char_def) 
  ultimately show "CHR 0x0D \<notin> set s \<Longrightarrow> CHR 0x0D \<notin> set (utf8 s)"
    by (fastforce simp: utf8_def Let_def split: if_splits)
qed

text \<open>
  An edit replaces what it read: when \<open>edit\<close> succeeds, the path is permitted, the old text occurred (exactly
  once unless all replacements were asked for), the file it replaces still has the hash of the file it read even
  if other processes ran in between, and the new contents are the text read with the replacements made. The text
  read has all line ends as \<open>\n\<close>, so an edit also removes every carriage return of the file.
\<close>

theorem edit_exact:
  assumes "edit_impl env other root_dir scope session_id path old_string new_string replace_all w = (Inr msg, w')"
    and canon: "\<And>p. os_canon env (os_canon env p) = os_canon env p"
  shows "\<exists>p before t current. permitted env root_dir scope p \<and>
    dict_get (fs_files (ws_fs w)) p = Some before \<and> os_decode env before = Some t \<and>
    dict_get (fs_files (other (ws_fs w))) p = Some current \<and> os_hash env current = os_hash env before \<and>
    (str_count old_string (universal_newlines t) = 1 \<or> replace_all = Some True \<and> str_count old_string (universal_newlines t) > 0) \<and>
    (\<forall>q. dict_get (fs_files (ws_fs w')) q =
       (if q = p then Some (utf8 (str_replace old_string new_string (universal_newlines t))) else dict_get (fs_files (other (ws_fs w))) q)) \<and>
    (CHR 0x0D \<notin> set new_string \<longrightarrow> CHR 0x0D \<notin> set (utf8 (str_replace old_string new_string (universal_newlines t))))"
proof -
  obtain p content w1 where e: "writable env root_dir scope path = Inr p"
      "safe_read_for_write env session_id p w = (Inr content, w1)"
      "str_count old_string content = 1 \<or> replace_all = Some True \<and> str_count old_string content > 0"
      "safe_write env session_id p (utf8 (str_replace old_string new_string content)) False (w1\<lparr>ws_fs := other (ws_fs w1)\<rparr>) = (Inr (), w')"
    using assms(1) by (auto simp: edit_impl_def Let_def split: sum.splits prod.splits if_splits)
  obtain before t where r: "dict_get (fs_files (ws_fs w)) p = Some before" "os_decode env before = Some t"
      "content = universal_newlines t" "w1 = w\<lparr>ws_reads := record_read env session_id p (os_hash env before) (ws_reads w)\<rparr>"
    using safe_read_ok [OF e(2)] by blast
  have p: "os_canon env p = p"
    using e(1) canon by (auto simp: writable_def bind_res_Inr_iff resolve_path_def resolve_and_check_Inr split: sum.splits)
  obtain current where c: "dict_get (fs_files (other (ws_fs w))) p = Some current" "os_hash env current = os_hash env before"
    using safe_write_ok(3) [OF e(4)] r(4) p by (auto simp: seen_hash_record)
  have cr: "CHR 0x0D \<notin> set (utf8 (str_replace old_string new_string content))" if "CHR 0x0D \<notin> set new_string"
    using that str_replace_set [of old_string new_string content] universal_newlines_no_cr [of t] r(3) by (intro utf8_no_cr) auto
  show ?thesis
    using writable_permitted [OF e(1)] r(1,2) c e(3) safe_write_ok(1) [OF e(4)] cr r(4)
    by (intro exI [of _ p] exI [of _ before] exI [of _ t] exI [of _ current]) (simp add: r(3))
qed

theorem edit_exact_witness:
  "\<exists>p t. permitted sample_os ''/r'' None p \<and>
     dict_get (fs_files (ws_fs (snd (edit_impl sample_os id ''/r'' None ''s'' ''a'' ''n'' ''x'' None sample_ws)))) p =
       Some (utf8 (str_replace ''n'' ''x'' (universal_newlines t)))"
proof -
  let ?e = "edit_impl sample_os id ''/r'' None ''s'' ''a'' ''n'' ''x'' None sample_ws"
  have e: "?e = (Inr ''Edited /r/a'', snd ?e)" by code_simp
  have "os_canon sample_os (os_canon sample_os p) = os_canon sample_os p" for p by (simp add: sample_os_def)
  from edit_exact [OF e this] obtain p t where "permitted sample_os ''/r'' None p"
      "\<forall>q. dict_get (fs_files (ws_fs (snd ?e))) q = (if q = p then Some (utf8 (str_replace ''n'' ''x'' (universal_newlines t)))
         else dict_get (fs_files (id (ws_fs sample_ws))) q)" by (elim exE conjE) (rule that)
  then show ?thesis by (intro exI [of _ p] exI [of _ t]) simp
qed

text \<open>
  Reading a file does not allow overwriting it: the read tool leaves the tracker alone, so after an agent
  has read an existing file, \<open>write\<close> to it still fails as stale unless the session has edited or written
  the file before.
\<close>

theorem read_does_not_allow_write:
  assumes "read_impl env root_dir threshold preview_lines session_id path offset limit full g (ws_fs w) = (Inr out, g')"
    and "writable env root_dir scope path = Inr p" "\<not> is_dir p (ws_fs w)"
    and "seen_hash (ws_reads w) (os_canon env p) session_id = None"
  shows "write_impl env root_dir scope session_id path content None w = (Inl StaleWriteError, w)"
proof -
  have "resolve_path env path root_dir = Inr p" using assms(2) by (auto simp: writable_def bind_res_Inr_iff)
  then have "is_file p (ws_fs w)" using assms(1) by (auto simp: read_impl_def split: if_splits)
  then show ?thesis using assms(2-4)
    by (auto simp: write_impl_def safe_write_def compute_hash_def check_write_def path_exists_def is_file_def)
qed

theorem read_does_not_allow_write_witness:
  "write_impl sample_os ''/r'' None ''s'' ''a'' ''new'' None sample_ws = (Inl StaleWriteError, sample_ws)"
proof -
  let ?r = "read_impl sample_os ''/r'' 100 5 ''s'' ''a'' None None None [] (ws_fs sample_ws)"
  have "case fst ?r of Inr _ \<Rightarrow> True | Inl _ \<Rightarrow> False" by code_simp
  then obtain out g' where r: "?r = (Inr out, g')" by (cases ?r) (auto split: sum.splits)
  have "writable sample_os ''/r'' None ''a'' = Inr ''/r/a''" "\<not> is_dir ''/r/a'' (ws_fs sample_ws)" by code_simp+
  from read_does_not_allow_write [OF r this] show ?thesis by (simp add: sample_ws_def seen_hash_def)
qed

section \<open>What the pipeline guarantees\<close>


definition echo_tool :: "nat wrapped_tool" where
  "echo_tool = \<lparr>wt_name = ''echo'', wt_execute = (\<lambda>args n. (Inr \<lparr>to_data = None, to_text = ''pw=hunter2''\<rparr>, Suc n)),
     wt_is_start_task = False, wt_is_mutation = False, wt_appendix = None\<rparr>"

definition sample_registry :: secret_registry where
  "sample_registry = \<lparr>sr_secrets = [(''pw'', ''hunter2'')], sr_scrub_order = [(''pw'', ''hunter2'')]\<rparr>"


section \<open>Secrets in structured data\<close>

lemma str_replace_absent: "\<not> sublist old s \<Longrightarrow> str_replace old new s = s"
proof (induction s)
  case (Cons c s)
  then have "\<not> prefix old (c # s)" "\<not> sublist old s" by (auto simp: sublist_Cons_right)
  then show ?case using Cons.IH by (subst str_replace.simps) simp
qed (subst str_replace.simps, simp)

lemma json_escape_quote:
  "json_escape_char c = xs @ CHR 0x22 # ys \<Longrightarrow> xs = [CHR 0x5C] \<and> ys = []"
proof -
  have hex: "CHR 0x22 \<notin> set (hex_str w n)" for w n
  proof (induction w arbitrary: n)
    case (Suc w)
    have "digit_char (n mod 16) \<noteq> CHR 0x22"
    proof
      assume "digit_char (n mod 16) = CHR 0x22"
      then have "(of_char (digit_char (n mod 16)) :: nat) = 34" by simp
      then show False by (simp add: digit_char_def split: if_splits)
    qed
    then show ?case using Suc by auto
  qed simp
  assume e: "json_escape_char c = xs @ CHR 0x22 # ys"
  then have q: "CHR 0x22 \<in> set (json_escape_char c)" by simp
  have "json_escape_char c = [CHR 0x5C, CHR 0x22]"
    using q hex by (auto simp: json_escape_char_def Let_def split: if_splits)
  with e show ?thesis by (cases xs rule: list.exhaust) (auto simp: Cons_eq_append_conv)
qed

lemma escaped_quote:
  "concat (map json_escape_char v) = xs @ CHR 0x22 # ys \<Longrightarrow> xs \<noteq> [] \<and> last xs = CHR 0x5C"
proof (induction v arbitrary: xs)
  case (Cons c v)
  then have "json_escape_char c @ concat (map json_escape_char v) = xs @ CHR 0x22 # ys" by simp
  then consider us where "json_escape_char c = xs @ CHR 0x22 # us"
    | us where "xs = json_escape_char c @ us" "concat (map json_escape_char v) = us @ CHR 0x22 # ys"
    by (auto simp: append_eq_append_conv2 Cons_eq_append_conv append_eq_Cons_conv)
  then show ?case
  proof cases
    case 1
    then show ?thesis using json_escape_quote by fastforce
  next
    case 2
    then show ?thesis using Cons.IH [of us] by auto
  qed
qed simp

lemma quoted_not_sublist:
  assumes v: "v = a @ CHR 0x22 # b" and a: "a \<noteq> []" "CHR 0x22 \<notin> set a" "CHR 0x5C \<notin> set a"
  shows "\<not> sublist v (json_str v)"
proof
  let ?E = "concat (map json_escape_char v)"
  assume "sublist v (json_str v)"
  then obtain p q where "json_str v = p @ a @ CHR 0x22 # b @ q" by (auto simp: sublist_def v)
  then have e: "CHR 0x22 # ?E @ [CHR 0x22] = (p @ a) @ CHR 0x22 # b @ q" by (simp add: json_str_def)
  obtain c xs where "p @ a = c # xs" using a(1) by (cases "p @ a") auto
  then have xs: "p @ a = CHR 0x22 # xs" "?E @ [CHR 0x22] = xs @ CHR 0x22 # b @ q"
    using e by (auto simp del: append_assoc)
  have last: "last (CHR 0x22 # xs) \<in> set a" using xs(1) a(1) by (metis last_appendR last_in_set)
  show False
  proof (cases "b @ q = []")
    case True
    then have "xs = ?E" using xs(2) by simp
    moreover have "last ?E = CHR 0x22" "?E \<noteq> []" using True by (auto simp: v json_escape_char_def Let_def)
    ultimately have "last (CHR 0x22 # xs) = CHR 0x22" by (simp only: last.simps if_False refl split: if_split)
    then show False using last a(2) by simp
  next
    case False
    then have "butlast (xs @ CHR 0x22 # b @ q) = xs @ CHR 0x22 # butlast (b @ q)" by (simp add: butlast_append)
    then have "?E = xs @ CHR 0x22 # butlast (b @ q)" using xs(2) by (metis butlast_snoc)
    from escaped_quote [OF this] have "xs \<noteq> []" "last xs = CHR 0x5C" by auto
    then show False using last a(3) by auto
  qed
qed

text \<open>
  Structured data can leak a secret: for a secret whose value has a quotation mark after plain
  characters, JSON escaping hides the value from scrubbing, so a tool result whose data is that value passes
  the pipeline's scrubbing unchanged. (\<open>loads\<close> is assumed to read back what \<open>dumps\<close> printed.)
\<close>

theorem structured_data_leaks:
  assumes "SecretRegistry [(name, a @ CHR 0x22 # b)] = Inr r" "a \<noteq> []" "CHR 0x22 \<notin> set a" "CHR 0x5C \<notin> set a"
    and "loads (json_dumps (JStr (a @ CHR 0x22 # b))) = Some (JStr (a @ CHR 0x22 # b))"
  shows "\<exists>txt'. scrub_tool_output loads r \<lparr>to_data = Some (JStr (a @ CHR 0x22 # b)), to_text = txt\<rparr> =
    Inr \<lparr>to_data = Some (JStr (a @ CHR 0x22 # b)), to_text = txt'\<rparr>"
proof -
  have "sr_scrub_order r = [(name, a @ CHR 0x22 # b)]" using assms(1) by (auto simp: SecretRegistry_def split: if_splits)
  then have "scrub r (json_dumps (JStr (a @ CHR 0x22 # b))) = json_dumps (JStr (a @ CHR 0x22 # b))"
    using quoted_not_sublist [OF refl assms(2-4)] by (simp add: scrub_def str_replace_absent)
  then show ?thesis using assms(5) by (simp add: scrub_tool_output_def scrub_data_def)
qed

theorem structured_data_leaks_witness:
  "\<exists>txt'. scrub_tool_output (\<lambda>s. if s = json_dumps (JStr (''p'' @ CHR 0x22 # ''w'')) then Some (JStr (''p'' @ CHR 0x22 # ''w'')) else None)
     \<lparr>sr_secrets = [(''k'', ''p'' @ CHR 0x22 # ''w'')], sr_scrub_order = [(''k'', ''p'' @ CHR 0x22 # ''w'')]\<rparr>
     \<lparr>to_data = Some (JStr (''p'' @ CHR 0x22 # ''w'')), to_text = []\<rparr> =
   Inr \<lparr>to_data = Some (JStr (''p'' @ CHR 0x22 # ''w'')), to_text = txt'\<rparr>"
  by (rule structured_data_leaks [of "''k''"]) (simp_all add: SecretRegistry_def)

end
