(* ===== verification/Workflow.thy ===== *)
theory Workflow
  imports Lifecycle
begin

text \<open>
  The execution of a whole workflow: \<open>execute_workflow\<close>, \<open>_execute_task_groups\<close> and \<open>execute_task\<close> of
  \<open>scheduler/_executor.py\<close>, composite and \<open>for_each\<close> tasks of \<open>scheduler/_task_dispatch.py\<close>.

  An execution may wait for ever (a paused run that nobody resumes, a semaphore without permits), so it is a function
  to an option: \<open>None\<close> stands for not returning. \<open>asyncio.gather\<close> runs the coroutines one after the other in an
  arbitrary order given by \<open>ex_order\<close>, up to the first that raises; what other coroutines do while one of them waits is part of the surroundings,
  which may change the whole scheduler at every await of outside code. Each gathered coroutine is an asyncio task that \<open>abort\<close> and \<open>pause\<close>
  cancel: cancelled before its first step it does not run, cancelled later it gets a \<open>CancelledError\<close> where it waits for outside code (an outcome that
  this code may have) and at the latest at its end. The iterations of a \<open>for_each\<close> are gathered too; with several permits an iteration may have looked at
  \<open>abort\<close> while others were still running.
\<close>

section \<open>Executions that may wait\<close>

type_synonym 'a run = "sched \<Rightarrow> ('a result \<times> sched) option"

definition bindR :: "'a run \<Rightarrow> ('a \<Rightarrow> 'b run) \<Rightarrow> 'b run" where
  "bindR m f s = (case m s of None \<Rightarrow> None | Some (Inl e, s') \<Rightarrow> Some (Inl e, s') | Some (Inr x, s') \<Rightarrow> f x s')"

definition liftR :: "'a op \<Rightarrow> 'a run" where
  "liftR m s = Some (m s)"

abbreviation returnR :: "'a \<Rightarrow> 'a run" where
  "returnR x \<equiv> liftR (returnS x)"

definition finallyR :: "'a run \<Rightarrow> unit op \<Rightarrow> 'a run" where
  "finallyR m f s =
     (case m s of
        None \<Rightarrow> None
      | Some (r, s') \<Rightarrow> (case f s' of (Inl e, s'') \<Rightarrow> Some (Inl e, s'') | (Inr _, s'') \<Rightarrow> Some (r, s'')))"

text \<open>
  What is outside: the execution of an agent's task, the imported functions, the order in which gathered coroutines
  finish, what those that are left running have done when \<open>gather\<close> raises, how many of the last iterations were still running when one began,
  the end of a pause, the text of an exception, service processes and their health checks, the Overseer.
\<close>

record exec_env =
  ex_agent :: "task_spec \<Rightarrow> uuid \<Rightarrow> uuid option \<Rightarrow> jobj option \<Rightarrow> task_result run"
  ex_call :: task_function
  ex_order :: "nat \<Rightarrow> sched \<Rightarrow> nat list"
  ex_left :: "sched \<Rightarrow> sched"
  ex_lag :: "nat \<Rightarrow> sched \<Rightarrow> nat"
  ex_resumed :: "unit run"
  ex_message :: "exn \<Rightarrow> string"
  ex_duration :: "uuid \<Rightarrow> sched \<Rightarrow> json"
  ex_start :: "service_config \<Rightarrow> unit op"
  ex_health :: "service_config \<Rightarrow> unit op"
  ex_run_started :: "workflow_config \<Rightarrow> unit op"
  ex_advise :: "string list \<Rightarrow> unit op"
  ex_summary :: "string op"

definition wait_paused :: "exec_env \<Rightarrow> unit run" where
  "wait_paused ev s = (if s_paused s then ex_resumed ev s else Some (Inr (), s))"

text \<open>
  \<open>asyncio.create_task\<close> with the registration in \<open>_running_tasks\<close>, from which a task is removed when it is done; a task on which \<open>cancel\<close>
  was called while its coroutine ran to its end without waiting again is cancelled all the same.
\<close>

definition spawn :: "nat \<Rightarrow> sched \<Rightarrow> sched" where
  "spawn n s = s\<lparr>s_running := s_running s @ [s_spawned s..<s_spawned s + n], s_spawned := s_spawned s + n\<rparr>"

definition task_done :: "nat \<Rightarrow> sched \<Rightarrow> sched" where
  "task_done a s = s\<lparr>s_running := removeAll a (s_running s), s_cancelled := removeAll a (s_cancelled s)\<rparr>"

definition as_task :: "nat \<Rightarrow> 'a run \<Rightarrow> 'a run" where
  "as_task a op s =
     (if a \<in> set (s_cancelled s) then Some (Inl CancelledError, task_done a s)
      else (case op s of
              None \<Rightarrow> None
            | Some (Inl e, s') \<Rightarrow> Some (Inl e, task_done a s')
            | Some (Inr x, s') \<Rightarrow> Some (if a \<in> set (s_cancelled s') then Inl CancelledError else Inr x, task_done a s')))"

text \<open>\<open>asyncio.gather\<close>: any order, results by position, the first exception is raised at once.\<close>

definition order_of :: "nat list \<Rightarrow> nat \<Rightarrow> nat list" where
  "order_of is n = (let ys = remdups (filter (\<lambda>i. i < n) is) in ys @ filter (\<lambda>i. i \<notin> set ys) [0..<n])"

fun run_in_order :: "nat \<Rightarrow> nat list \<Rightarrow> 'a run list \<Rightarrow> (nat, 'a) dict \<Rightarrow> (nat, 'a) dict run" where
  "run_in_order first [] ops acc s = Some (Inr acc, s)"
| "run_in_order first (i # is) ops acc s =
     (case as_task (first + i) (ops ! i) s of
        None \<Rightarrow> None
      | Some (Inl e, s') \<Rightarrow> Some (Inl e, s')
      | Some (Inr x, s') \<Rightarrow> run_in_order first is ops (acc @ [(i, x)]) s')"

fun collect :: "nat list \<Rightarrow> (nat, 'a) dict \<Rightarrow> 'a list" where
  "collect [] acc = []"
| "collect (i # is) acc = (case dict_get acc i of Some x \<Rightarrow> x # collect is acc | None \<Rightarrow> collect is acc)"

definition gather :: "exec_env \<Rightarrow> 'a run list \<Rightarrow> 'a list run" where
  "gather ev ops s =
     (case run_in_order (s_spawned s) (order_of (ex_order ev (length ops) s) (length ops)) ops [] (spawn (length ops) s) of
        None \<Rightarrow> None
      | Some (Inl e, s') \<Rightarrow> Some (Inl e, ex_left ev s')
      | Some (Inr acc, s') \<Rightarrow> Some (Inr (collect [0..<length ops] acc), s'))"

section \<open>Composite tasks\<close>

definition sub_op :: "(task_spec \<Rightarrow> task_result run) \<Rightarrow> (string, task_spec) dict \<Rightarrow> string \<Rightarrow> task_result run" where
  "sub_op exec name_to_sub name = (case dict_get name_to_sub name of None \<Rightarrow> liftR (raiseS KeyError) | Some sub \<Rightarrow> exec sub)"

fun run_groups :: "exec_env \<Rightarrow> (task_spec \<Rightarrow> task_result run) \<Rightarrow> (string, task_spec) dict \<Rightarrow> string list list \<Rightarrow> unit run" where
  "run_groups ev exec name_to_sub [] = returnR ()"
| "run_groups ev exec name_to_sub (grp # rest) =
     bindR (gather ev (map (sub_op exec name_to_sub) grp)) (\<lambda>_. run_groups ev exec name_to_sub rest)"

definition has_deps :: "task_spec \<Rightarrow> bool" where
  "has_deps sub = (case ts_depends_on (spec_fields sub) of None \<Rightarrow> False | Some ds \<Rightarrow> ds \<noteq> [])"

fun collect_deps :: "task_spec list \<Rightarrow> (string, string list) dict \<Rightarrow> (string, string list) dict" where
  "collect_deps [] deps = deps"
| "collect_deps (sub # rest) deps =
     (case ts_depends_on (spec_fields sub) of
        Some (d # ds) \<Rightarrow> collect_deps rest (dict_set (task_name sub) (d # ds) deps)
      | _ \<Rightarrow> collect_deps rest deps)"

fun name_to_sub :: "task_spec list \<Rightarrow> (string, task_spec) dict \<Rightarrow> (string, task_spec) dict" where
  "name_to_sub [] m = m"
| "name_to_sub (sub # rest) m = name_to_sub rest (dict_set (task_name sub) sub m)"

definition run_subtasks :: "exec_env \<Rightarrow> (task_spec \<Rightarrow> task_result run) \<Rightarrow> task_spec list \<Rightarrow> unit run" where
  "run_subtasks ev exec subs =
     (if list_ex has_deps subs
      then (let graph = build_graph (map task_name subs) (collect_deps subs [])
            in case bind_res (topological_sort graph) (find_parallel_groups graph) of
                 Inl e \<Rightarrow> liftR (raiseS e)
               | Inr groups \<Rightarrow> run_groups ev exec (name_to_sub subs []) groups)
      else bindR (gather ev (map exec subs)) (\<lambda>_. returnR ()))"

definition check_outcome :: "check_result list \<Rightarrow> task_result" where
  "check_outcome rs = \<lparr>tr_output = None, tr_structured = None, tr_checks = rs\<rparr>"

definition finish_composite :: "config \<Rightarrow> task_spec \<Rightarrow> uuid \<Rightarrow> task_result op" where
  "finish_composite c task task_id =
     bindS (move_task c task_id ''postchecking'') (\<lambda>_.
       bindS (run_postchecks c task task_id) (\<lambda>rs.
         bindS (move_task c task_id (if all_passed rs then ''completed'' else ''postcheck_failed''))
           (\<lambda>_. returnS (check_outcome rs))))"

definition execute_composite_task :: "config \<Rightarrow> exec_env \<Rightarrow> (task_spec \<Rightarrow> task_result run) \<Rightarrow> task_spec \<Rightarrow> uuid \<Rightarrow> task_result run" where
  "execute_composite_task c ev exec task task_id =
     (case subtasks task of
        None \<Rightarrow> liftR (raiseS ValueError)
      | Some subs \<Rightarrow>
          bindR (liftR (move_task c task_id ''prechecking'')) (\<lambda>_.
            bindR (liftR (run_prechecks c task task_id)) (\<lambda>rs.
              if \<not> all_passed rs
              then liftR (bindS (move_task c task_id ''precheck_failed'') (\<lambda>_. returnS (check_outcome rs)))
              else bindR (liftR (move_task c task_id ''active''))
                     (\<lambda>_. bindR (run_subtasks ev exec subs) (\<lambda>_. liftR (finish_composite c task task_id))))))"

section \<open>For-each tasks\<close>

text \<open>\<open>task.model_copy\<close> for one iteration.\<close>

definition iter_task :: "task_spec \<Rightarrow> nat \<Rightarrow> task_spec" where
  "iter_task task idx =
     (case task of TaskSpec f pre post subs \<Rightarrow>
        TaskSpec (f\<lparr>ts_name := ts_name f @ ''_iter_'' @ nat_str idx, ts_for_each := None,
                   ts_for_each_abort_on_failure := None, ts_max_concurrency := None\<rparr>) pre post subs)"

definition check_dicts :: "task_result \<Rightarrow> jobj list option" where
  "check_dicts r =
     (if tr_checks r = [] then None
      else Some (map (\<lambda>cr. [(''passed'', JBool (passed cr)), (''message'', JStr (message cr))]) (tr_checks r)))"

definition iteration_failed :: "config \<Rightarrow> exec_env \<Rightarrow> uuid \<Rightarrow> exn \<Rightarrow> unit op" where
  "iteration_failed c ev iteration_id e s =
     (case fail_iteration (c_clock c (s_tick s)) iteration_id (ex_message ev e) (s_db s) of
        Inl e' \<Rightarrow> (Inl e', s)
      | Inr db \<Rightarrow> (Inr (), s\<lparr>s_db := db, s_tick := Suc (s_tick s)\<rparr>))"

text \<open>
  One iteration that has found \<open>abort\<close> unset: the task's result if it came so far (\<open>results[idx]\<close> is assigned before the
  iteration is recorded), and whether it sets \<open>abort\<close>. A \<open>CancelledError\<close> is not caught, so the iteration stays recorded as running.
\<close>

definition run_iteration ::
  "config \<Rightarrow> exec_env \<Rightarrow> (task_spec \<Rightarrow> jobj \<Rightarrow> task_result run) \<Rightarrow> task_spec \<Rightarrow> uuid \<Rightarrow> jobj \<Rightarrow> nat \<Rightarrow> json \<Rightarrow>
   (task_result option \<times> bool) run" where
  "run_iteration c ev exec task task_id variables idx item s =
     (let on_failure = (ts_for_each_abort_on_failure (spec_fields task) = Some True);
          (iteration_id, db) = create_iteration (c_ids c (s_tick s)) (c_clock c (s_tick s)) task_id (int idx) item (s_db s)
      in case exec (iter_task task idx) (dict_set ''item'' item variables) (s\<lparr>s_db := db, s_tick := Suc (s_tick s)\<rparr>) of
           None \<Rightarrow> None
         | Some (Inl e, s1) \<Rightarrow>
             if except_Exception e then Some (bindS (iteration_failed c ev iteration_id e) (\<lambda>_. returnS (None, on_failure)) s1)
             else Some (Inl e, s1)
         | Some (Inr r, s1) \<Rightarrow>
             (case complete_iteration (c_clock c (s_tick s1)) iteration_id (tr_output r) (tr_structured r) (check_dicts r) (s_db s1) of
                Inl e \<Rightarrow> Some (bindS (iteration_failed c ev iteration_id e) (\<lambda>_. returnS (Some r, on_failure)) s1)
              | Inr db' \<Rightarrow> Some (Inr (Some r, \<not> all_passed (tr_checks r) \<and> on_failure), s1\<lparr>s_db := db', s_tick := Suc (s_tick s1)\<rparr>)))"

text \<open>
  The gathered iterations in the order in which they end. \<open>flags\<close> holds the values of \<open>abort\<close> after each of the iterations so far, the last one first:
  with \<open>permits\<close> permits up to \<open>permits - 1\<close> of the last iterations may still have been running when the next one looked at \<open>abort\<close>.
\<close>

definition abort_seen :: "int \<Rightarrow> nat \<Rightarrow> bool list \<Rightarrow> bool" where
  "abort_seen permits lag flags = flags ! min lag (min (nat permits - 1) (length flags - 1))"

fun run_iterations ::
  "config \<Rightarrow> exec_env \<Rightarrow> (task_spec \<Rightarrow> jobj \<Rightarrow> task_result run) \<Rightarrow> task_spec \<Rightarrow> uuid \<Rightarrow> jobj \<Rightarrow> json list \<Rightarrow> int \<Rightarrow> nat \<Rightarrow> nat list \<Rightarrow>
   bool list \<Rightarrow> task_result option list \<Rightarrow> (task_result option list \<times> bool) run" where
  "run_iterations c ev exec task task_id variables items permits first [] flags results = returnR (results, hd flags)"
| "run_iterations c ev exec task task_id variables items permits first (i # is) flags results =
     (\<lambda>s. case as_task (first + i)
               (if abort_seen permits (ex_lag ev i s) flags then returnR (None, False)
                else run_iteration c ev exec task task_id variables i (items ! i)) s of
        None \<Rightarrow> None
      | Some (Inl e, s1) \<Rightarrow> Some (Inl e, ex_left ev s1)
      | Some (Inr (r, stop), s1) \<Rightarrow>
          run_iterations c ev exec task task_id variables items permits first is ((hd flags \<or> stop) # flags) (results[i := r]) s1)"

definition outputs_of :: "task_result option list \<Rightarrow> json" where
  "outputs_of rs = JArr (map (\<lambda>r. case Option.bind r tr_output of None \<Rightarrow> JNull | Some t \<Rightarrow> JStr t) rs)"

definition for_each_done :: "config \<Rightarrow> task_spec \<Rightarrow> uuid \<Rightarrow> task_result option list \<Rightarrow> bool \<Rightarrow> task_result op" where
  "for_each_done c task task_id results stop =
     bindS (if stop then for_each_aborted c task_id
            else bindS (modifyS (complete_task task_id (task_name task) (Some (json_dumps (outputs_of results))) None 0 0))
                   (\<lambda>_. trace_transition c task_id ''completed''))
       (\<lambda>_. returnS \<lparr>tr_output = Some (json_dumps (outputs_of results)), tr_structured = Some [(''iterations'', outputs_of results)],
                     tr_checks = [if stop then failed ''for_each complete'' None else ok_result ''for_each complete'']\<rparr>)"

text \<open>\<open>asyncio.Semaphore\<close> refuses a negative number of permits, and with none every iteration waits for ever.\<close>

definition all_iterations ::
  "config \<Rightarrow> exec_env \<Rightarrow> (task_spec \<Rightarrow> jobj \<Rightarrow> task_result run) \<Rightarrow> task_spec \<Rightarrow> uuid \<Rightarrow> jobj \<Rightarrow> json list \<Rightarrow> int \<Rightarrow>
   (task_result option list \<times> bool) run" where
  "all_iterations c ev exec task task_id variables items permits s =
     (let n = length items
      in run_iterations c ev exec task task_id variables items permits (s_spawned s) (order_of (ex_order ev n s) n) [False]
           (replicate n None) (spawn n s))"

definition execute_for_each ::
  "config \<Rightarrow> exec_env \<Rightarrow> (task_spec \<Rightarrow> jobj \<Rightarrow> task_result run) \<Rightarrow> task_spec \<Rightarrow> uuid \<Rightarrow> jobj option \<Rightarrow> task_result run" where
  "execute_for_each c ev exec task task_id variables =
     (case (ts_for_each (spec_fields task), ts_max_concurrency (spec_fields task)) of
        (Some source, Some permits) \<Rightarrow>
          (let vars = (case variables of None \<Rightarrow> [] | Some v \<Rightarrow> v)
           in case (case dict_get vars source of None \<Rightarrow> JArr [] | Some v \<Rightarrow> v) of
                JArr items \<Rightarrow>
                  bindR (liftR (activate c task_id)) (\<lambda>_.
                    if permits < 0 then liftR (raiseS ValueError)
                    else if permits = 0 \<and> items \<noteq> [] then (\<lambda>_. None)
                    else bindR (all_iterations c ev exec task task_id vars items permits)
                           (\<lambda>(results, stop). liftR (for_each_done c task task_id results stop)))
              | _ \<Rightarrow> liftR (raiseS TypeError))
      | _ \<Rightarrow> liftR (raiseS ValueError))"

section \<open>Any task\<close>

definition ensure_created :: "config \<Rightarrow> task_spec \<Rightarrow> uuid option \<Rightarrow> uuid option \<Rightarrow> uuid op" where
  "ensure_created c task parent task_id =
     (case task_id of
        Some t \<Rightarrow> returnS t
      | None \<Rightarrow> bindS (trace_create_task c parent (task_name task) (task_type_for task) None)
                  (\<lambda>t. bindS (modifyS (init_task_state t task parent)) (\<lambda>_. returnS t)))"

text \<open>
  A composite task calls back only on its subtasks, a \<open>for_each\<close> task only on its iterations; the recursion
  of \<open>execute_task\<close> ends because subtasks are nested less deeply and an iteration is no \<open>for_each\<close> task.
\<close>

lemma dict_get_name_to_sub:
  "dict_get (name_to_sub subs m) n = Some sub \<Longrightarrow> sub \<in> set subs \<or> dict_get m n = Some sub"
  by (induction subs m rule: name_to_sub.induct) (auto split: if_splits)

lemma run_groups_cong:
  assumes "\<And>n sub. dict_get m n = Some sub \<Longrightarrow> exec sub = exec' sub"
  shows "run_groups ev exec m groups = run_groups ev exec' m groups"
proof (induction groups)
  case (Cons g gs)
  have eq: "sub_op exec m = sub_op exec' m" using assms by (auto simp: sub_op_def split: option.split)
  show ?case unfolding run_groups.simps eq Cons.IH ..
qed simp

lemma run_subtasks_cong:
  assumes "\<And>sub. sub \<in> set subs \<Longrightarrow> exec sub = exec' sub"
  shows "run_subtasks ev exec subs = run_subtasks ev exec' subs"
proof -
  have groups: "run_groups ev exec (name_to_sub subs []) gs = run_groups ev exec' (name_to_sub subs []) gs" for gs
    by (rule run_groups_cong) (use assms dict_get_name_to_sub [of subs "[]"] in \<open>auto simp: dict_get_def\<close>)
  have all: "map exec subs = map exec' subs" using assms by simp
  show ?thesis unfolding run_subtasks_def groups all ..
qed

lemma execute_composite_task_cong [fundef_cong]:
  assumes "c = c'" "ev = ev'" "task = task'" "task_id = task_id'"
    and "\<And>subs sub. subtasks task' = Some subs \<Longrightarrow> sub \<in> set subs \<Longrightarrow> exec sub = exec' sub"
  shows "execute_composite_task c ev exec task task_id = execute_composite_task c' ev' exec' task' task_id'"
proof (cases "subtasks task'")
  case (Some subs)
  have eq: "run_subtasks ev' exec subs = run_subtasks ev' exec' subs" by (rule run_subtasks_cong) (rule assms(5) [OF Some])
  show ?thesis unfolding execute_composite_task_def assms(1-4) Some option.case eq ..
qed (simp add: execute_composite_task_def assms(3))

lemma run_iteration_cong:
  "(\<And>idx vars. exec (iter_task task idx) vars = exec' (iter_task task idx) vars) \<Longrightarrow>
   run_iteration c ev exec task t vars idx item = run_iteration c ev exec' task t vars idx item"
  by (rule ext) (simp add: run_iteration_def)

lemma run_iterations_cong:
  assumes "\<And>idx vars. exec (iter_task task idx) vars = exec' (iter_task task idx) vars"
  shows "run_iterations c ev exec task t vars items permits first is flags results =
    run_iterations c ev exec' task t vars items permits first is flags results"
proof (induction "is" arbitrary: flags results)
  case (Cons i rest)
  show ?case unfolding run_iterations.simps run_iteration_cong [of exec task exec', OF assms] Cons.IH ..
qed simp

lemma execute_for_each_cong [fundef_cong]:
  assumes "c = c'" "ev = ev'" "task = task'" "task_id = task_id'" "variables = variables'"
    and "\<And>idx vars. exec (iter_task task' idx) vars = exec' (iter_task task' idx) vars"
  shows "execute_for_each c ev exec task task_id variables = execute_for_each c' ev' exec' task' task_id' variables'"
proof -
  have eq: "all_iterations c' ev' exec task' = all_iterations c' ev' exec' task'"
    by (intro ext) (simp add: all_iterations_def run_iterations_cong [of exec task' exec', OF assms(6)])
  show ?thesis unfolding execute_for_each_def assms(1-5) eq ..
qed

lemma bindR_cong [fundef_cong]:
  assumes "m s = m' s'" "\<And>x s1. m' s' = Some (Inr x, s1) \<Longrightarrow> f x s1 = f' x s1" "s = s'"
  shows "bindR m f s = bindR m' f' s'"
  using assms by (auto simp: bindR_def split: option.split sum.split)

fun depth :: "task_spec \<Rightarrow> nat" where
  "depth (TaskSpec f pre post None) = 0"
| "depth (TaskSpec f pre post (Some subs)) = Suc (sum_list (map depth subs))"

lemma depth_sub: "subtasks task = Some subs \<Longrightarrow> sub \<in> set subs \<Longrightarrow> depth sub < depth task"
  by (cases task) (auto intro!: le_imp_less_Suc member_le_sum_list)

lemma iter_task_simps [simp]:
  "depth (iter_task task idx) = depth task" "ts_for_each (spec_fields (iter_task task idx)) = None"
  "subtasks (iter_task task idx) = subtasks task"
  by (cases task; cases "subtasks task"; simp add: iter_task_def)+

function execute_task ::
  "config \<Rightarrow> exec_env \<Rightarrow> task_spec \<Rightarrow> uuid option \<Rightarrow> uuid option \<Rightarrow> jobj option \<Rightarrow> sched \<Rightarrow> (task_result result \<times> sched) option" where
  "execute_task c ev task parent given_id variables s =
     bindR (wait_paused ev) (\<lambda>_. bindR (liftR (ensure_created c task parent given_id)) (\<lambda>task_id.
       if ts_for_each (spec_fields task) \<noteq> None
       then execute_for_each c ev (\<lambda>it vars. execute_task c ev it (Some task_id) None (Some vars)) task task_id variables
       else if ts_callable (spec_fields task) \<noteq> None
       then liftR (execute_function_task c (ex_call ev) task task_id parent variables)
       else if subtasks task \<noteq> None
       then execute_composite_task c ev (\<lambda>sub. execute_task c ev sub (Some task_id) None None) task task_id
       else if ts_wait_for (spec_fields task) \<noteq> None then liftR (execute_wait_for_task c task task_id)
       else if ts_decision_point (spec_fields task) = Some True then liftR (execute_decision_point_task c task task_id)
       else ex_agent ev task task_id parent variables)) s"
  by pat_completeness auto
termination
  by (relation "measures [\<lambda>(c, ev, task, p, t, v, s). depth task, \<lambda>(c, ev, task, p, t, v, s). if ts_for_each (spec_fields task) = None then 0 else 1]")
    (auto intro: depth_sub)

declare execute_task.simps [simp del]

text \<open>What \<open>execute_task\<close> does once the run is not paused and the task has an identifier.\<close>

definition run_mode :: "config \<Rightarrow> exec_env \<Rightarrow> task_spec \<Rightarrow> uuid option \<Rightarrow> jobj option \<Rightarrow> uuid \<Rightarrow> task_result run" where
  "run_mode c ev task parent variables task_id =
     (if ts_for_each (spec_fields task) \<noteq> None
      then execute_for_each c ev (\<lambda>it vars. execute_task c ev it (Some task_id) None (Some vars)) task task_id variables
      else if ts_callable (spec_fields task) \<noteq> None
      then liftR (execute_function_task c (ex_call ev) task task_id parent variables)
      else if subtasks task \<noteq> None
      then execute_composite_task c ev (\<lambda>sub. execute_task c ev sub (Some task_id) None None) task task_id
      else if ts_wait_for (spec_fields task) \<noteq> None then liftR (execute_wait_for_task c task task_id)
      else if ts_decision_point (spec_fields task) = Some True then liftR (execute_decision_point_task c task task_id)
      else ex_agent ev task task_id parent variables)"

lemma execute_task_mode:
  "execute_task c ev task parent given_id variables =
     bindR (wait_paused ev) (\<lambda>_. bindR (liftR (ensure_created c task parent given_id)) (run_mode c ev task parent variables))"
  by (rule ext) (subst execute_task.simps, simp only: run_mode_def [abs_def])

section \<open>The task groups of a workflow\<close>

definition result_value :: "task_result \<Rightarrow> json" where
  "result_value r =
     (case tr_structured r of
        Some (kv # kvs) \<Rightarrow> JObj (kv # kvs)
      | _ \<Rightarrow> (case tr_output r of None \<Rightarrow> JNull | Some t \<Rightarrow> JStr t))"

definition record_result :: "exec_env \<Rightarrow> sched \<Rightarrow> string \<Rightarrow> uuid \<Rightarrow> task_result \<Rightarrow> jobj \<Rightarrow> jobj" where
  "record_result ev s name tid r variables =
     (let retries = (case dict_get (scoped (s_results_meta s) None) name of None \<Rightarrow> 0 | Some meta \<Rightarrow> rm_retries meta)
      in dict_set (name @ ''_result'')
           (JObj [(''passed'', JBool (all_passed (tr_checks r))), (''duration_seconds'', ex_duration ev tid s), (''retries_used'', JInt (int retries))])
         (dict_set (name @ ''_text'') (case tr_output r of None \<Rightarrow> JNull | Some t \<Rightarrow> JStr t)
           (dict_set (name @ ''_output'') (result_value r) variables)))"

fun record_results :: "exec_env \<Rightarrow> sched \<Rightarrow> ((string \<times> uuid \<times> task_spec) \<times> task_result) list \<Rightarrow> jobj \<Rightarrow> jobj" where
  "record_results ev s [] variables = variables"
| "record_results ev s (((name, tid, spec), r) # rest) variables = record_results ev s rest (record_result ev s name tid r variables)"

text \<open>\<open>self._task_specs[task_id_map[name]]\<close> for every name of a group.\<close>

fun resolve_group :: "(string, uuid) dict \<Rightarrow> (uuid, task_spec) dict \<Rightarrow> string list \<Rightarrow> (string \<times> uuid \<times> task_spec) list result" where
  "resolve_group ids specs [] = Inr []"
| "resolve_group ids specs (name # names) =
     (case dict_get ids name of
        None \<Rightarrow> Inl KeyError
      | Some tid \<Rightarrow>
          (case dict_get specs tid of
             None \<Rightarrow> Inl KeyError
           | Some spec \<Rightarrow> bind_res (resolve_group ids specs names) (\<lambda>rest. Inr ((name, tid, spec) # rest))))"

definition escalated :: "(string \<times> uuid \<times> task_spec) list \<Rightarrow> sched \<Rightarrow> bool" where
  "escalated grp s = list_ex (\<lambda>(name, tid, spec). dict_get (s_task_states s) tid = Some ''escalated'') grp"

text \<open>What follows a group: the escalation policy, else the health checks and the remaining groups (\<open>cont\<close>).\<close>

definition after_group :: "config \<Rightarrow> exec_env \<Rightarrow> escalation_policy \<Rightarrow> (string \<times> uuid \<times> task_spec) list \<Rightarrow> unit run \<Rightarrow> unit run" where
  "after_group c ev policy grp cont s =
     (if escalated grp s \<and> policy = HALT then Some (Inr (), s\<lparr>s_paused := True\<rparr>)
      else if escalated grp s \<and> policy = ABORT_ALL then liftR (abort c) s
      else bindR (liftR (\<lambda>s1. forS (ex_health ev) (s_services s1) s1)) (\<lambda>_. cont) s)"

fun group_loop ::
  "config \<Rightarrow> exec_env \<Rightarrow> (uuid \<Rightarrow> task_spec \<Rightarrow> jobj \<Rightarrow> task_result run) \<Rightarrow> escalation_policy \<Rightarrow> (string, uuid) dict \<Rightarrow>
   string list list \<Rightarrow> jobj \<Rightarrow> unit run" where
  "group_loop c ev exec policy ids [] variables = returnR ()"
| "group_loop c ev exec policy ids (names # rest) variables =
     bindR (wait_paused ev) (\<lambda>_ s.
       (case resolve_group ids (s_task_specs s) names of
          Inl e \<Rightarrow> Some (Inl e, s)
        | Inr grp \<Rightarrow>
            bindR (gather ev (map (\<lambda>(name, tid, spec). exec tid spec variables) grp)) (\<lambda>results s1.
              after_group c ev policy grp
                (group_loop c ev exec policy ids rest (record_results ev s1 (zip grp results) variables)) s1) s))"

definition send_pending_advisories :: "exec_env \<Rightarrow> unit op" where
  "send_pending_advisories ev s =
     bindS (forS (ex_advise ev) (s_pending_advisories s)) (\<lambda>_. modifyS (\<lambda>s'. s'\<lparr>s_pending_advisories := []\<rparr>)) s"

definition advise_workflow :: "config \<Rightarrow> uuid list \<Rightarrow> sched \<Rightarrow> sched" where
  "advise_workflow c task_ids s = s\<lparr>s_pending_advisories := s_pending_advisories s @ analyze_structural_advisories c task_ids s\<rparr>"

definition execute_task_groups ::
  "config \<Rightarrow> exec_env \<Rightarrow> (uuid \<Rightarrow> task_spec \<Rightarrow> jobj \<Rightarrow> task_result run) \<Rightarrow> workflow_config \<Rightarrow> (string, uuid) dict \<Rightarrow> unit run" where
  "execute_task_groups c ev exec cfg ids =
     (let graph = build_graph (map task_name (wc_tasks cfg)) (wc_dependencies cfg)
      in case bind_res (topological_sort graph) (find_parallel_groups graph) of
           Inl e \<Rightarrow> liftR (raiseS e)
         | Inr groups \<Rightarrow>
             bindR (liftR (modifyS (advise_workflow c (dict_values ids)))) (\<lambda>_.
               bindR (liftR (send_pending_advisories ev)) (\<lambda>_.
                 group_loop c ev exec (wc_escalation_policy cfg) ids groups [])))"

section \<open>The workflow\<close>

definition crash_recovery :: "config \<Rightarrow> unit op" where
  "crash_recovery c s =
     (case acquire_run_lock (c_run_id c) (s_db s) of
        Inl e \<Rightarrow> (Inl e, s)
      | Inr db \<Rightarrow>
          (let tick = s_tick s;
               (n, db1) = reclaim_interrupted (\<lambda>i. c_ids c (tick + i)) (\<lambda>i. c_clock c (tick + i)) db;
               (m, db2) = clean_orphaned (\<lambda>i. c_ids c (tick + n + i)) (\<lambda>i. (c_clock c (tick + n + i), c_clock c (tick + n + i))) db1
           in (Inr (), s\<lparr>s_db := db2, s_tick := tick + n + m\<rparr>)))"

definition control_callback :: callback where
  "control_callback = 0"

definition subscribe_control :: "config \<Rightarrow> unit op" where
  "subscribe_control c s =
     (let (db, call) = subscribe_run_control (c_run_id c) control_callback (s_db s); s1 = s\<lparr>s_db := db\<rparr>
      in case call of None \<Rightarrow> (Inr (), s1) | Some (_, _, status) \<Rightarrow> handle_control_signal c status s1)"

definition start_service :: "exec_env \<Rightarrow> service_config \<Rightarrow> unit op" where
  "start_service ev svc = bindS (ex_start ev svc) (\<lambda>_. modifyS (\<lambda>s. s\<lparr>s_services := s_services s @ [svc]\<rparr>))"

definition write_summary :: "config \<Rightarrow> exec_env \<Rightarrow> unit op" where
  "write_summary c ev =
     bindS (ex_summary ev) (\<lambda>summary. modifyS (\<lambda>s.
       if summary = [] then s else s\<lparr>s_db := Trace_Storage.write_coherence_summary (c_run_id c) summary (s_db s)\<rparr>))"

definition unsubscribe_control :: "config \<Rightarrow> sched \<Rightarrow> sched" where
  "unsubscribe_control c s = s\<lparr>s_db := unsubscribe_run_control (c_run_id c) (s_db s)\<rparr>"

definition run_registered :: "config \<Rightarrow> exec_env \<Rightarrow> bool \<Rightarrow> workflow_config \<Rightarrow> unit run" where
  "run_registered c ev headless cfg =
     bindR (liftR (register_workflow_tasks c headless cfg)) (\<lambda>ids.
       bindR (execute_task_groups c ev (\<lambda>tid spec variables. execute_task c ev spec None (Some tid) (Some variables)) cfg ids)
         (\<lambda>_. liftR (write_summary c ev)))"

definition execute_workflow :: "config \<Rightarrow> exec_env \<Rightarrow> bool \<Rightarrow> workflow_config \<Rightarrow> unit run" where
  "execute_workflow c ev headless cfg =
     bindR (liftR (crash_recovery c)) (\<lambda>_.
       bindR (liftR (subscribe_control c)) (\<lambda>_.
         bindR (liftR (forS (start_service ev) (wc_services cfg))) (\<lambda>_.
           bindR (liftR (ex_run_started ev cfg)) (\<lambda>_.
             bindR (finallyR (run_registered c ev headless cfg) (stop_services c))
               (\<lambda>_. liftR (modifyS (unsubscribe_control c)))))))"

section \<open>Rules for executions\<close>

lemma bindR_Inr:
  "bindR m f s = Some (Inr y, s') \<longleftrightarrow> (\<exists>x s1. m s = Some (Inr x, s1) \<and> f x s1 = Some (Inr y, s'))"
  by (auto simp: bindR_def split: option.split sum.split)

lemma bindR_None: "bindR m f s = None \<longleftrightarrow> m s = None \<or> (\<exists>x s1. m s = Some (Inr x, s1) \<and> f x s1 = None)"
  by (auto simp: bindR_def split: option.split sum.split)

lemma liftR_simps [simp]: "liftR m s \<noteq> None" "liftR m s = Some r \<longleftrightarrow> m s = r"
  by (auto simp: liftR_def)

lemma order_of_perm: "distinct (order_of is n)" "set (order_of is n) = {..<n}"
  by (auto simp: order_of_def Let_def)

lemma finallyR_Inr:
  "finallyR m f s = Some (Inr x, s') \<longleftrightarrow> (\<exists>s1. m s = Some (Inr x, s1) \<and> f s1 = (Inr (), s'))"
  by (auto simp: finallyR_def split: option.splits sum.splits prod.splits)

lemma as_task_Inr:
  "as_task a op s = Some (Inr x, s') \<longleftrightarrow>
     a \<notin> set (s_cancelled s) \<and> (\<exists>s1. op s = Some (Inr x, s1) \<and> a \<notin> set (s_cancelled s1) \<and> s' = task_done a s1)"
  by (auto simp: as_task_def split: option.splits sum.splits prod.splits)

text \<open>A task on which \<open>cancel\<close> was called before its end never hands out a result.\<close>

lemma as_task_cancelled:
  assumes "op s = Some (r, s1)" "a \<in> set (s_cancelled s) \<or> a \<in> set (s_cancelled s1)"
  shows "\<exists>e s2. as_task a op s = Some (Inl e, s2)"
  using assms by (cases r) (auto simp: as_task_def)

lemma run_in_order_keys:
  "run_in_order first is ops acc s = Some (Inr acc', s') \<Longrightarrow> dict_keys acc' = dict_keys acc @ is"
  by (induction first "is" ops acc s rule: run_in_order.induct) (auto simp: dict_keys_def split: option.splits sum.splits)

lemma collect_length: "set is \<subseteq> set (dict_keys acc) \<Longrightarrow> length (collect is acc) = length is"
proof (induction "is")
  case (Cons i rest)
  then obtain x where "dict_get acc i = Some x" using dict_get_None_iff [of acc i] by auto
  then show ?case using Cons by simp
qed simp

lemma gather_InrE:
  assumes "gather ev ops s = Some (Inr rs, s')"
  obtains acc where "run_in_order (s_spawned s) (order_of (ex_order ev (length ops) s) (length ops)) ops [] (spawn (length ops) s) = Some (Inr acc, s')"
    "rs = collect [0..<length ops] acc"
  using assms by (auto simp: gather_def split: option.splits sum.splits)

lemma gather_length:
  assumes "gather ev ops s = Some (Inr rs, s')" shows "length rs = length ops"
proof -
  obtain acc where acc: "run_in_order (s_spawned s) (order_of (ex_order ev (length ops) s) (length ops)) ops [] (spawn (length ops) s) = Some (Inr acc, s')"
    "rs = collect [0..<length ops] acc"
    using assms by (rule gather_InrE)
  have "dict_keys acc = order_of (ex_order ev (length ops) s) (length ops)"
    using run_in_order_keys [OF acc(1)] by (simp add: dict_keys_def)
  then have "set [0..<length ops] \<subseteq> set (dict_keys acc)" using order_of_perm(2) by auto
  from collect_length [OF this] acc(2) show ?thesis by simp
qed

text \<open>When \<open>gather\<close> returns, every gathered coroutine was run, from some state to some state, and none of them raised.\<close>

lemma run_in_order_each:
  assumes "run_in_order first is ops acc s = Some (Inr acc', s')" "i \<in> set is"
  shows "\<exists>s1 x s2. (ops ! i) s1 = Some (Inr x, s2)"
  using assms
proof (induction first "is" ops acc s rule: run_in_order.induct)
  case (2 first j js ops acc s)
  then obtain x s1 where x: "as_task (first + j) (ops ! j) s = Some (Inr x, s1)" "run_in_order first js ops (acc @ [(j, x)]) s1 = Some (Inr acc', s')"
    by (auto split: option.splits sum.splits)
  show ?case
  proof (cases "i = j")
    case True
    then show ?thesis using x(1) by (auto simp: as_task_Inr)
  next
    case False
    then show ?thesis using 2(1) [OF x(1)] x(2) 2(3) by auto
  qed
qed simp

lemma gather_each:
  assumes "gather ev ops s = Some (Inr rs, s')" "f \<in> set ops"
  shows "\<exists>s1 x s2. f s1 = Some (Inr x, s2)"
proof -
  obtain acc where acc: "run_in_order (s_spawned s) (order_of (ex_order ev (length ops) s) (length ops)) ops [] (spawn (length ops) s) = Some (Inr acc, s')"
    using assms(1) by (rule gather_InrE)
  obtain i where i: "i < length ops" "f = ops ! i" using assms(2) by (auto simp: in_set_conv_nth)
  then show ?thesis using run_in_order_each [OF acc, of i] order_of_perm(2) by auto
qed

lemma as_task_total:
  assumes "op s \<noteq> None" obtains r s' where "as_task a op s = Some (r, s')"
proof -
  obtain r s1 where "op s = Some (r, s1)" using assms by auto
  then have "\<exists>p. as_task a op s = Some p" by (cases r) (simp_all add: as_task_def)
  then show thesis using that by auto
qed

lemma run_in_order_total:
  "(\<And>i s. i \<in> set is \<Longrightarrow> (ops ! i) s \<noteq> None) \<Longrightarrow> run_in_order first is ops acc s \<noteq> None"
proof (induction first "is" ops acc s rule: run_in_order.induct)
  case (2 first i js ops acc s)
  have "(ops ! i) s \<noteq> None" using 2(2) by simp
  then obtain r s1 where r: "as_task (first + i) (ops ! i) s = Some (r, s1)" by (rule as_task_total)
  show ?case using 2(1) [OF r refl] 2(2) r by (cases r) auto
qed simp

lemma gather_total: "(\<And>f s. f \<in> set ops \<Longrightarrow> f s \<noteq> None) \<Longrightarrow> gather ev ops s \<noteq> None"
  using run_in_order_total [of "order_of (ex_order ev (length ops) s) (length ops)" ops "s_spawned s" "[]" "spawn (length ops) s"] order_of_perm(2)
  by (auto simp: gather_def split: option.splits sum.splits prod.splits)

text \<open>A property of the scheduler's state that does not look at the asyncio tasks.\<close>

definition task_blind :: "(sched \<Rightarrow> bool) \<Rightarrow> bool" where
  "task_blind I \<longleftrightarrow> (\<forall>s n a. I s \<longrightarrow> I (spawn n s) \<and> I (task_done a s))"

lemma run_in_order_keeps:
  assumes "task_blind I" "\<And>i s x s'. i \<in> set is \<Longrightarrow> I s \<Longrightarrow> (ops ! i) s = Some (Inr x, s') \<Longrightarrow> I s'"
    and "run_in_order first is ops acc s = Some (Inr acc', s')" "I s"
  shows "I s'"
  using assms(2-4)
proof (induction first "is" ops acc s rule: run_in_order.induct)
  case (2 first j js ops acc s)
  then obtain x s1 where x: "as_task (first + j) (ops ! j) s = Some (Inr x, s1)" "run_in_order first js ops (acc @ [(j, x)]) s1 = Some (Inr acc', s')"
    by (auto split: option.splits sum.splits)
  then obtain s0 where s0: "(ops ! j) s = Some (Inr x, s0)" "s1 = task_done (first + j) s0" by (auto simp: as_task_Inr)
  have "I s0" by (rule 2(2) [OF _ 2(4) s0(1)]) simp
  then have "I s1" using s0(2) assms(1) by (simp add: task_blind_def)
  then show ?case using 2(1) [OF x(1) refl refl _ x(2)] 2(2) by auto
qed simp

lemma gather_keeps:
  assumes "task_blind I" "gather ev ops s = Some (Inr rs, s')" "I s"
    and "\<And>f s x s'. f \<in> set ops \<Longrightarrow> I s \<Longrightarrow> f s = Some (Inr x, s') \<Longrightarrow> I s'"
  shows "I s'"
proof -
  obtain acc where acc: "run_in_order (s_spawned s) (order_of (ex_order ev (length ops) s) (length ops)) ops [] (spawn (length ops) s) = Some (Inr acc, s')"
    using assms(2) by (rule gather_InrE)
  have "I (spawn (length ops) s)" using assms(1,3) by (simp add: task_blind_def)
  from run_in_order_keeps [OF assms(1) _ acc this] assms(4) order_of_perm(2) nth_mem show ?thesis by blast
qed

end
