(* ===== verification/Execution.thy ===== *)
theory Execution
  imports Workflow Trace_Invariants
begin

text \<open>
  What the execution of a workflow guarantees: dependencies come first and every task is executed, an execution returns, the scheduler and
  the trace agree after it, the gates of composite tasks; then starting a run: the services it starts and what crash recovery does to other runs.
\<close>

section \<open>Samples\<close>

text \<open>
  Two agents' tasks, \<open>b\<close> after \<open>a\<close>, for the witnesses: \<open>a\<close> ends escalated, any other task completes; nobody resumes a paused run.
\<close>

definition sample_agent :: "string \<Rightarrow> task_spec" where
  "sample_agent name =
     TaskSpec ((task_defaults name)\<lparr>ts_agent := Some ''g'', ts_task_prompt := Some ''p'', ts_timeout := Some 5, ts_context_refinement := Some False\<rparr>) [] [] None"

definition sample_flow :: "escalation_policy \<Rightarrow> workflow_config" where
  "sample_flow policy =
     \<lparr>wc_name = ''w'', wc_description = ''d'', wc_tasks = [sample_agent ''a'', sample_agent ''b''], wc_dependencies = [(''b'', [''a''])],
      wc_escalation_policy = policy, wc_services = []\<rparr>"

definition agent_result :: task_result where
  "agent_result = \<lparr>tr_output = Some ''out'', tr_structured = None, tr_checks = [ok_result ''ok'']\<rparr>"

definition flow_env :: exec_env where
  "flow_env =
     \<lparr>ex_agent = (\<lambda>task tid parent vars s. Some (Inr agent_result, set_state tid (if task_name task = ''a'' then ''escalated'' else ''completed'') s)),
      ex_call = (\<lambda>m f ctx s. (Inl ImportError, s)), ex_order = (\<lambda>n s. []), ex_left = id, ex_lag = (\<lambda>_ _. 0), ex_resumed = (\<lambda>s. None), ex_message = (\<lambda>e. ''error''),
      ex_duration = (\<lambda>t s. JInt 0), ex_start = (\<lambda>svc s. (if sc_name svc = ''bad'' then Inl (OSError 110) else Inr (), s)),
      ex_health = (\<lambda>svc s. (Inr (), s)), ex_run_started = (\<lambda>cfg s. (Inr (), s)), ex_advise = (\<lambda>names s. (Inr (), s)),
      ex_summary = (\<lambda>s. (Inr [], s))\<rparr>"

definition sample_exec :: "uuid \<Rightarrow> task_spec \<Rightarrow> jobj \<Rightarrow> task_result run" where
  "sample_exec tid spec vars = execute_task sample_config flow_env spec None (Some tid) (Some vars)"

definition sample_registered :: sched where
  "sample_registered = snd (register_loop sample_config [sample_agent ''a'', sample_agent ''b''] [] idle_sched)"

section \<open>Dependencies\<close>

text \<open>The three variables a finished task leaves for later tasks.\<close>

definition supplied :: "string \<Rightarrow> jobj \<Rightarrow> bool" where
  "supplied name variables \<longleftrightarrow>
     dict_get variables (name @ ''_output'') \<noteq> None \<and> dict_get variables (name @ ''_text'') \<noteq> None \<and>
     dict_get variables (name @ ''_result'') \<noteq> None"

lemma supplied_record: "supplied n (record_result ev s name tid r vars) \<longleftrightarrow> n = name \<or> supplied n vars"
  if "n = name \<or> supplied n vars" for n
  using that by (auto simp: supplied_def record_result_def Let_def)

lemma supplied_results:
  "n \<in> fst ` fst ` set grs \<or> supplied n vars \<Longrightarrow> supplied n (record_results ev s grs vars)"
proof (induction ev s grs vars rule: record_results.induct)
  case (2 ev s name tid spec r rest vars)
  then show ?case using supplied_record [of n name vars ev s tid r] by auto
qed simp

lemma resolve_group_names:
  "resolve_group ids specs names = Inr grp \<Longrightarrow> map fst grp = names \<and> (\<forall>(n, tid, spec) \<in> set grp. dict_get ids n = Some tid \<and> dict_get specs tid = Some spec)"
proof (induction names arbitrary: grp)
  case (Cons n ns)
  then show ?case by (auto simp: bind_res_Inr_iff split: option.splits)
qed simp

definition ready :: "(string \<Rightarrow> string list) \<Rightarrow> string list list \<Rightarrow> jobj \<Rightarrow> bool" where
  "ready deps groups vars \<longleftrightarrow>
     (\<forall>i < length groups. \<forall>n \<in> set (groups ! i). \<forall>d \<in> set (deps n). supplied d vars \<or> (\<exists>j < i. d \<in> set (groups ! j)))"

lemma ready_first: "ready deps (g # gs) vars \<Longrightarrow> n \<in> set g \<Longrightarrow> d \<in> set (deps n) \<Longrightarrow> supplied d vars"
  by (fastforce simp: ready_def)

lemma ready_rest:
  assumes "ready deps (g # gs) vars" "\<And>n. n \<in> set g \<or> supplied n vars \<Longrightarrow> supplied n vars'"
  shows "ready deps gs vars'"
  unfolding ready_def
proof (intro allI impI ballI)
  fix i n d assume "i < length gs" "n \<in> set (gs ! i)" "d \<in> set (deps n)"
  then have "supplied d vars \<or> (\<exists>j < Suc i. d \<in> set ((g # gs) ! j))"
    using assms(1) unfolding ready_def by (metis Suc_less_eq length_Cons nth_Cons_Suc)
  then show "supplied d vars' \<or> (\<exists>j < i. d \<in> set (gs ! j))"
    using assms(2) by (metis less_Suc_eq_0_disj nth_Cons_0 nth_Cons_Suc)
qed

lemma results_supply:
  assumes "resolve_group ids specs names = Inr grp" "length results = length grp" "n \<in> set names \<or> supplied n vars"
  shows "supplied n (record_results ev s (zip grp results) vars)"
proof (rule supplied_results)
  have "map fst (map fst (zip grp results)) = names" using resolve_group_names [OF assms(1)] assms(2) by (simp add: map_fst_zip)
  then have "fst ` fst ` set (zip grp results) = set names" by (metis list.set_map)
  then show "n \<in> fst ` fst ` set (zip grp results) \<or> supplied n vars" using assms(3) by simp
qed

lemma group_loop_dependencies:
  assumes "\<And>n tid spec vars. dict_get ids n = Some tid \<Longrightarrow> \<forall>d \<in> set (deps n). supplied d vars \<Longrightarrow> exec tid spec vars = exec' tid spec vars"
    and "ready deps groups vars"
  shows "group_loop c ev exec policy ids groups vars = group_loop c ev exec' policy ids groups vars"
  using assms(2)
proof (induction groups arbitrary: vars)
  case (Cons names rest)
  let ?step = "\<lambda>exec grp results s1. after_group c ev policy grp
    (group_loop c ev exec policy ids rest (record_results ev s1 (zip grp results) vars)) s1"
  have step: "bindR (gather ev (map (\<lambda>(name, tid, spec). exec tid spec vars) grp)) (?step exec grp) s =
      bindR (gather ev (map (\<lambda>(name, tid, spec). exec' tid spec vars) grp)) (?step exec' grp) s"
    if grp: "resolve_group ids specs names = Inr grp" for specs grp s
  proof (rule bindR_cong [OF _ _ refl])
    have "map (\<lambda>(name, tid, spec). exec tid spec vars) grp = map (\<lambda>(name, tid, spec). exec' tid spec vars) grp"
      using assms(1) ready_first [OF Cons.prems] resolve_group_names [OF grp] by fastforce
    then show "gather ev (map (\<lambda>(name, tid, spec). exec tid spec vars) grp) s = gather ev (map (\<lambda>(name, tid, spec). exec' tid spec vars) grp) s"
      by (rule arg_cong)
    fix results s1 assume "gather ev (map (\<lambda>(name, tid, spec). exec' tid spec vars) grp) s = Some (Inr results, s1)"
    then have "length results = length grp" using gather_length by fastforce
    then have "ready deps rest (record_results ev s1 (zip grp results) vars)"
      by (intro ready_rest [OF Cons.prems] results_supply [OF grp])
    from Cons.IH [OF this] show "?step exec grp results s1 = ?step exec' grp results s1" by simp
  qed
  show ?case
    by (rule ext, simp only: group_loop.simps, rule bindR_cong [OF refl _ refl]) (simp add: step split: sum.split)
qed simp

lemma groups_cover:
  assumes "g = build_graph names deps" "bind_res (topological_sort g) (find_parallel_groups g) = Inr groups"
  shows "set names \<subseteq> set (concat groups)"
    and "i < length groups \<Longrightarrow> n \<in> set (groups ! i) \<Longrightarrow> d \<in> set (deps_of g n) \<Longrightarrow> \<exists>j < i. d \<in> set (groups ! j)"
proof -
  from assms(2) obtain order where order: "topological_sort g = Inr order" "find_parallel_groups g order = Inr groups"
    by (auto simp: bind_res_Inr_iff)
  have "is_order g order"
    using topological_sort_cases [of g] topological_sort_missing [of g] build_graph_wf order(1) assms(1)
    by (metis Inl_Inr_False sum.inject(2))
  then have keys: "set order = set names \<union> set (dict_keys deps)" using build_graph_keys assms(1) by (auto simp: is_order_def)
  from parallel_groups_ok [OF order(1) [unfolded assms(1)]] order(2) assms(1)
  have part: "\<And>n. n \<in> set order \<longleftrightarrow> (\<exists>!i. i < length groups \<and> n \<in> set (groups ! i))"
    and before: "\<And>i n d. i < length groups \<Longrightarrow> n \<in> set (groups ! i) \<Longrightarrow> d \<in> set (deps_of g n) \<Longrightarrow> \<exists>j < i. d \<in> set (groups ! j)"
    by auto
  show "set names \<subseteq> set (concat groups)"
  proof
    fix n assume "n \<in> set names"
    then have "\<exists>!i. i < length groups \<and> n \<in> set (groups ! i)" using keys part [of n] by blast
    then show "n \<in> set (concat groups)" by auto
  qed
  show "i < length groups \<Longrightarrow> n \<in> set (groups ! i) \<Longrightarrow> d \<in> set (deps_of g n) \<Longrightarrow> \<exists>j < i. d \<in> set (groups ! j)" by (rule before)
qed

text \<open>
  C3. Dependencies come first, under every escalation policy: the execution of a task is only ever called when, for
  each task it depends on, the variables \<open>_output\<close>, \<open>_text\<close> and \<open>_result\<close> of that task are among the variables it is given, that is after that
  task's execution has returned. (Two executors that agree on all such calls cannot be told apart by \<open>_execute_task_groups\<close>.)
\<close>

theorem dependencies_first:
  assumes "\<And>name tid spec vars. dict_get ids name = Some tid \<Longrightarrow>
      \<forall>d \<in> set (deps_of (build_graph (map task_name (wc_tasks cfg)) (wc_dependencies cfg)) name). supplied d vars \<Longrightarrow>
      exec tid spec vars = exec' tid spec vars"
  shows "execute_task_groups c ev exec cfg ids = execute_task_groups c ev exec' cfg ids"
proof -
  let ?g = "build_graph (map task_name (wc_tasks cfg)) (wc_dependencies cfg)"
  show ?thesis
  proof (cases "bind_res (topological_sort ?g) (find_parallel_groups ?g)")
    case (Inr groups)
    have "ready (deps_of ?g) groups []" using groups_cover(2) [OF refl Inr] by (auto simp: ready_def)
    from group_loop_dependencies [OF assms this]
    have "group_loop c ev exec p ids groups [] = group_loop c ev exec' p ids groups []" for p by simp
    then show ?thesis using Inr by (simp add: execute_task_groups_def Let_def)
  qed (simp add: execute_task_groups_def Let_def)
qed

text \<open>An executor that refuses to run the second task without the outputs of the first.\<close>

definition strict_exec :: "uuid \<Rightarrow> task_spec \<Rightarrow> jobj \<Rightarrow> task_result run" where
  "strict_exec tid spec vars = (if tid = 11 \<and> \<not> supplied ''a'' vars then liftR (raiseS ValueError) else sample_exec tid spec vars)"

theorem dependencies_first_witness:
  "execute_task_groups sample_config flow_env strict_exec (sample_flow HALT) [(''a'', 10), (''b'', 11)] =
   execute_task_groups sample_config flow_env sample_exec (sample_flow HALT) [(''a'', 10), (''b'', 11)]"
proof (rule dependencies_first)
  fix name tid spec vars
  assume id: "dict_get [(''a'', 10), (''b'', 11)] name = Some (tid :: nat)"
    and dep: "\<forall>d \<in> set (deps_of (build_graph (map task_name (wc_tasks (sample_flow HALT))) (wc_dependencies (sample_flow HALT))) name). supplied d vars"
  have d: "deps_of (build_graph (map task_name (wc_tasks (sample_flow HALT))) (wc_dependencies (sample_flow HALT))) ''b'' = [''a'']"
    by code_simp
  from id have "tid = 11 \<Longrightarrow> name = ''b''" by (auto simp: dict_get_def split: if_splits)
  with dep d have "tid = 11 \<Longrightarrow> supplied ''a'' vars" by simp
  then show "strict_exec tid spec vars = sample_exec tid spec vars" by (auto simp: strict_exec_def)
qed

lemma group_loop_runs:
  assumes "group_loop c ev exec CONTINUE_INDEPENDENT ids groups vars s = Some (Inr u, s')" "n \<in> set (concat groups)"
    and "ready deps groups vars"
  shows "\<exists>tid spec vars' s1 r s2. dict_get ids n = Some tid \<and> (\<forall>d \<in> set (deps n). supplied d vars') \<and> exec tid spec vars' s1 = Some (Inr r, s2)"
  using assms
proof (induction groups arbitrary: vars s)
  case (Cons names rest)
  from Cons.prems(1) obtain s0 where "wait_paused ev s = Some (Inr (), s0)"
    and run: "(case resolve_group ids (s_task_specs s0) names of Inl e \<Rightarrow> Some (Inl e, s0)
       | Inr grp \<Rightarrow> bindR (gather ev (map (\<lambda>(name, tid, spec). exec tid spec vars) grp)) (\<lambda>results s1.
              after_group c ev CONTINUE_INDEPENDENT grp
                (group_loop c ev exec CONTINUE_INDEPENDENT ids rest (record_results ev s1 (zip grp results) vars)) s1) s0) = Some (Inr u, s')"
    by (auto simp: bindR_Inr)
  from run obtain grp where grp: "resolve_group ids (s_task_specs s0) names = Inr grp" by (auto split: sum.splits)
  with run obtain results s1 where g: "gather ev (map (\<lambda>(name, tid, spec). exec tid spec vars) grp) s0 = Some (Inr results, s1)"
    and "after_group c ev CONTINUE_INDEPENDENT grp
      (group_loop c ev exec CONTINUE_INDEPENDENT ids rest (record_results ev s1 (zip grp results) vars)) s1 = Some (Inr u, s')"
    by (auto simp: bindR_Inr)
  then obtain s2 where rest: "group_loop c ev exec CONTINUE_INDEPENDENT ids rest (record_results ev s1 (zip grp results) vars) s2 = Some (Inr u, s')"
    by (auto simp: after_group_def bindR_Inr)
  show ?case
  proof (cases "n \<in> set names")
    case True
    then obtain tid spec where e: "(n, tid, spec) \<in> set grp" using resolve_group_names [OF grp] by force
    then have "exec tid spec vars \<in> set (map (\<lambda>(name, tid, spec). exec tid spec vars) grp)" by force
    from gather_each [OF g this] e resolve_group_names [OF grp] ready_first [OF Cons.prems(3) True] show ?thesis by fast
  next
    case False
    have "ready deps rest (record_results ev s1 (zip grp results) vars)"
      using gather_length [OF g] by (intro ready_rest [OF Cons.prems(3)] results_supply [OF grp]) auto
    from Cons.IH [OF rest _ this] False Cons.prems(2) show ?thesis by simp
  qed
qed simp

text \<open>
  Under the policy \<open>continue_independent\<close> every task of the workflow is executed when the workflow returns, also a task
  that depends on an escalated one: whether a task was escalated is not looked at. The configuration guide says that only
  tasks which do not depend on the failed task are continued.
\<close>

theorem continue_runs_all:
  assumes "wc_escalation_policy cfg = CONTINUE_INDEPENDENT"
    and "execute_task_groups c ev exec cfg ids s = Some (Inr u, s')" "task \<in> set (wc_tasks cfg)"
  shows "\<exists>tid spec vars s1 r s2. dict_get ids (task_name task) = Some tid \<and> exec tid spec vars s1 = Some (Inr r, s2) \<and>
    (\<forall>d \<in> set (deps_of (build_graph (map task_name (wc_tasks cfg)) (wc_dependencies cfg)) (task_name task)). supplied d vars)"
proof -
  let ?g = "build_graph (map task_name (wc_tasks cfg)) (wc_dependencies cfg)"
  from assms(2) obtain groups where groups: "bind_res (topological_sort ?g) (find_parallel_groups ?g) = Inr groups"
    by (cases "bind_res (topological_sort ?g) (find_parallel_groups ?g)") (auto simp: execute_task_groups_def Let_def)
  with assms(1,2) obtain s1 where run: "group_loop c ev exec CONTINUE_INDEPENDENT ids groups [] s1 = Some (Inr u, s')"
    by (auto simp: execute_task_groups_def Let_def bindR_Inr)
  have "task_name task \<in> set (concat groups)" using groups_cover(1) [OF refl groups] assms(3) by auto
  moreover have "ready (deps_of ?g) groups []" using groups_cover(2) [OF refl groups] by (auto simp: ready_def)
  ultimately show ?thesis using group_loop_runs [OF run] by blast
qed

theorem continue_runs_all_witness:
  "map_option (\<lambda>(r, s). (r, mem_status s 10, mem_status s 11))
     (execute_task_groups sample_config flow_env sample_exec (sample_flow CONTINUE_INDEPENDENT) [(''a'', 10), (''b'', 11)] sample_registered) =
     Some (Inr (), Some ''escalated'', Some ''completed'') \<and>
   (\<exists>tid spec vars s1 r s2. dict_get [(''a'', 10), (''b'', 11)] ''b'' = Some tid \<and> sample_exec tid spec vars s1 = Some (Inr r, s2) \<and> supplied ''a'' vars)"
proof -
  let ?run = "execute_task_groups sample_config flow_env sample_exec (sample_flow CONTINUE_INDEPENDENT) [(''a'', 10), (''b'', 11)] sample_registered"
  have run: "map_option (\<lambda>(r, s). (r, mem_status s 10, mem_status s 11)) ?run = Some (Inr (), Some ''escalated'', Some ''completed'')"
    by code_simp
  then obtain s' where s': "?run = Some (Inr (), s')" by auto
  have p: "wc_escalation_policy (sample_flow CONTINUE_INDEPENDENT) = CONTINUE_INDEPENDENT" by (simp add: sample_flow_def)
  have t: "sample_agent ''b'' \<in> set (wc_tasks (sample_flow CONTINUE_INDEPENDENT))" by (simp add: sample_flow_def)
  have d: "deps_of (build_graph (map task_name (wc_tasks (sample_flow CONTINUE_INDEPENDENT))) (wc_dependencies (sample_flow CONTINUE_INDEPENDENT))) ''b'' = [''a'']"
    by code_simp
  have n: "task_name (sample_agent ''b'') = ''b''" by (simp add: sample_agent_def task_defaults_def)
  from continue_runs_all [OF p s' t, unfolded n d] run show ?thesis by simp
qed

section \<open>Executions return\<close>

text \<open>No \<open>for_each\<close> in the tree has a semaphore without permits.\<close>

fun permits_ok :: "task_spec \<Rightarrow> bool" where
  "permits_ok (TaskSpec f pre post subs) \<longleftrightarrow>
     (ts_for_each f \<noteq> None \<longrightarrow> ts_max_concurrency f \<noteq> Some 0) \<and>
     (case subs of None \<Rightarrow> True | Some ts \<Rightarrow> list_all permits_ok ts)"

lemma permits_ok_iff:
  "permits_ok task \<longleftrightarrow>
     (ts_for_each (spec_fields task) \<noteq> None \<longrightarrow> ts_max_concurrency (spec_fields task) \<noteq> Some 0) \<and>
     (\<forall>subs. subtasks task = Some subs \<longrightarrow> (\<forall>sub \<in> set subs. permits_ok sub))"
  by (cases task) (auto simp: list_all_iff split: option.split)

lemma permits_ok_iter: "permits_ok task \<Longrightarrow> permits_ok (iter_task task idx)"
  by (simp add: permits_ok_iff [of task] permits_ok_iff [of "iter_task task idx"])

lemma sub_op_cases: "sub_op exec (name_to_sub subs []) n = liftR (raiseS KeyError) \<or> (\<exists>sub \<in> set subs. sub_op exec (name_to_sub subs []) n = exec sub)"
  using dict_get_name_to_sub [of subs "[]" n] by (auto simp: sub_op_def split: option.split)

lemma run_groups_total:
  assumes "\<And>sub s. sub \<in> set subs \<Longrightarrow> exec sub s \<noteq> None"
  shows "run_groups ev exec (name_to_sub subs []) groups s \<noteq> None"
proof (induction groups arbitrary: s)
  case (Cons g gs)
  have "gather ev (map (sub_op exec (name_to_sub subs [])) g) s \<noteq> None"
  proof (rule gather_total)
    fix f s assume "f \<in> set (map (sub_op exec (name_to_sub subs [])) g)"
    then obtain n where "f = sub_op exec (name_to_sub subs []) n" by auto
    then show "f s \<noteq> None" using sub_op_cases [of exec subs n] assms by auto
  qed
  then show ?case using Cons by (auto simp: bindR_None)
qed simp

lemma run_subtasks_total:
  assumes "\<And>sub s. sub \<in> set subs \<Longrightarrow> exec sub s \<noteq> None" shows "run_subtasks ev exec subs s \<noteq> None"
proof -
  have "gather ev (map exec subs) s \<noteq> None" by (rule gather_total) (use assms in auto)
  then have "bindR (gather ev (map exec subs)) (\<lambda>_. returnR ()) s \<noteq> None" unfolding bindR_None by simp
  then show ?thesis using run_groups_total [OF assms] by (simp add: run_subtasks_def Let_def split: sum.split)
qed

lemma composite_total:
  assumes "\<And>subs sub s. subtasks task = Some subs \<Longrightarrow> sub \<in> set subs \<Longrightarrow> exec sub s \<noteq> None"
  shows "execute_composite_task c ev exec task t s \<noteq> None"
proof (cases "subtasks task")
  case (Some subs)
  note sub = run_subtasks_total [OF assms [OF Some]]
  have body: "bindR (liftR (move_task c t ''active'')) (\<lambda>_. bindR (run_subtasks ev exec subs) (\<lambda>_. liftR (finish_composite c task t))) s' \<noteq> None" for s'
    unfolding bindR_None using sub by simp
  show ?thesis
    unfolding execute_composite_task_def Some option.case bindR_None
    using body by (auto simp: bindR_None simp del: not_None_eq)
qed (simp add: execute_composite_task_def)

lemma run_iterations_total:
  assumes "\<And>idx vars s. exec (iter_task task idx) vars s \<noteq> None"
  shows "run_iterations c ev exec task t vars items permits first is flags results s \<noteq> None"
proof (induction "is" arbitrary: flags results s)
  case (Cons i rest)
  have "run_iteration c ev exec task t vars i (items ! i) s \<noteq> None" for s
    unfolding run_iteration_def Let_def by (auto split: option.split prod.split sum.split) (use assms in blast)
  then have "(if abort_seen permits (ex_lag ev i s) flags then returnR (None, False)
      else run_iteration c ev exec task t vars i (items ! i)) s \<noteq> None" by simp
  then obtain r s1 where r: "as_task (first + i) (if abort_seen permits (ex_lag ev i s) flags then returnR (None, False)
      else run_iteration c ev exec task t vars i (items ! i)) s = Some (r, s1)"
    by (rule as_task_total [where op = "if abort_seen permits (ex_lag ev i s) flags then returnR (None, False)
      else run_iteration c ev exec task t vars i (items ! i)"])
  then show ?case using Cons.IH by (simp split: sum.split prod.split)
qed simp

lemma for_each_total:
  assumes "\<And>idx vars s. exec (iter_task task idx) vars s \<noteq> None" "ts_max_concurrency (spec_fields task) \<noteq> Some 0"
  shows "execute_for_each c ev exec task t vars s \<noteq> None"
proof -
  have iter: "all_iterations c ev exec task t vs items permits s' \<noteq> None" for vs items permits s'
    unfolding all_iterations_def Let_def by (rule run_iterations_total) (rule assms(1))
  have loop: "bindR (all_iterations c ev exec task t vs items permits)
      (\<lambda>(results, stop). liftR (for_each_done c task t results stop)) s' \<noteq> None" for vs items permits s'
    unfolding bindR_None using iter by (auto split: prod.split)
  have body: "bindR (liftR (activate c t)) (\<lambda>_. if permits < 0 then liftR (raiseS ValueError)
      else if permits = 0 \<and> items \<noteq> [] then (\<lambda>_. None)
      else bindR (all_iterations c ev exec task t vs items permits)
             (\<lambda>(results, stop). liftR (for_each_done c task t results stop))) s \<noteq> None"
    if "permits \<noteq> 0" for permits vs items
    unfolding bindR_None using that loop by simp
  show ?thesis
  proof (cases "ts_for_each (spec_fields task) = None \<or> ts_max_concurrency (spec_fields task) = None")
    case False
    then obtain source permits where some: "ts_for_each (spec_fields task) = Some source" "ts_max_concurrency (spec_fields task) = Some permits"
      by auto
    have nz: "permits \<noteq> 0" using assms(2) some by simp
    show ?thesis
      unfolding execute_for_each_def some prod.case option.case Let_def
      by (split json.split) (intro conjI allI impI body [OF nz] liftR_simps(1))
  qed (auto simp: execute_for_each_def split: option.split)
qed


definition sample_tree :: task_spec where
  "sample_tree =
     TaskSpec (task_defaults ''p'') [] []
       (Some [sample_agent ''a'',
              TaskSpec ((task_defaults ''f'')\<lparr>ts_callable := Some ''m:f'', ts_for_each := Some ''xs'', ts_max_concurrency := Some 2\<rparr>) [] [] None])"


section \<open>Agreement with the trace\<close>

text \<open>The surroundings of an execution keep a property of the scheduler's state.\<close>

definition exec_keeps :: "(sched \<Rightarrow> bool) \<Rightarrow> exec_env \<Rightarrow> bool" where
  "exec_keeps I ev \<longleftrightarrow>
     (\<forall>task t p vs s r s'. I s \<longrightarrow> ex_agent ev task t p vs s = Some (Inr r, s') \<longrightarrow> I s') \<and>
     (\<forall>m f ctx s r s'. I s \<longrightarrow> ex_call ev m f ctx s = (Inr r, s') \<longrightarrow> I s') \<and>
     (\<forall>s s'. I s \<longrightarrow> ex_resumed ev s = Some (Inr (), s') \<longrightarrow> I s')"

fun no_for_each :: "task_spec \<Rightarrow> bool" where
  "no_for_each (TaskSpec f pre post subs) \<longleftrightarrow>
     ts_for_each f = None \<and> (case subs of None \<Rightarrow> True | Some ts \<Rightarrow> list_all no_for_each ts)"

lemma no_for_each_iff:
  "no_for_each task \<longleftrightarrow> ts_for_each (spec_fields task) = None \<and> (\<forall>subs. subtasks task = Some subs \<longrightarrow> (\<forall>sub \<in> set subs. no_for_each sub))"
  by (cases task) (auto simp: list_all_iff split: option.split)

lemma in_sync_blind: "task_blind in_sync"
  by (simp add: task_blind_def in_sync_def mem_status_def trace_status_def spawn_def task_done_def)

lemma run_groups_keeps:
  assumes "task_blind I" "\<And>sub s x s'. sub \<in> set subs \<Longrightarrow> I s \<Longrightarrow> exec sub s = Some (Inr x, s') \<Longrightarrow> I s'"
    and "run_groups ev exec (name_to_sub subs []) groups s = Some (Inr u, s')" "I s"
  shows "I s'"
  using assms(3,4)
proof (induction groups arbitrary: s)
  case (Cons g gs)
  then obtain rs s1 where g: "gather ev (map (sub_op exec (name_to_sub subs [])) g) s = Some (Inr rs, s1)"
    and rest: "run_groups ev exec (name_to_sub subs []) gs s1 = Some (Inr u, s')" by (auto simp: bindR_Inr)
  have "I s1"
  proof (rule gather_keeps [OF assms(1) g Cons.prems(2)])
    fix f s x s' assume "f \<in> set (map (sub_op exec (name_to_sub subs [])) g)" "I s" "f s = Some (Inr x, s')"
    moreover from this obtain n where f: "f = sub_op exec (name_to_sub subs []) n" by auto
    moreover have "liftR (raiseS KeyError) s \<noteq> Some (Inr x, s')" by simp
    ultimately show "I s'" using sub_op_cases [of exec subs n] assms(2) by metis
  qed
  then show ?case by (rule Cons.IH [OF rest])
qed simp

lemma run_subtasks_keeps:
  assumes blind: "task_blind I" and sub: "\<And>sub s x s'. sub \<in> set subs \<Longrightarrow> I s \<Longrightarrow> exec sub s = Some (Inr x, s') \<Longrightarrow> I s'"
    and run: "run_subtasks ev exec subs s = Some (Inr u, s')" and i: "I s"
  shows "I s'"
proof (cases "list_ex has_deps subs")
  case True
  with run obtain groups where "run_groups ev exec (name_to_sub subs []) groups s = Some (Inr u, s')"
    by (auto simp: run_subtasks_def Let_def split: sum.splits)
  from run_groups_keeps [OF blind sub this i] show ?thesis .
next
  case False
  with run obtain rs where g: "gather ev (map exec subs) s = Some (Inr rs, s')" by (auto simp: run_subtasks_def bindR_Inr)
  show ?thesis by (rule gather_keeps [OF blind g i]) (use sub in auto)
qed

lemma execute_compositeE:
  assumes "execute_composite_task c ev exec task t s = Some (Inr r, s')"
  obtains subs rs s1 s2 where "subtasks task = Some subs" "move_task c t ''prechecking'' s = (Inr (), s1)"
    "run_prechecks c task t s1 = (Inr rs, s2)"
    "if all_passed rs
     then \<exists>s3 s4 s5 ps s6. move_task c t ''active'' s2 = (Inr (), s3) \<and> run_subtasks ev exec subs s3 = Some (Inr (), s4) \<and>
       move_task c t ''postchecking'' s4 = (Inr (), s5) \<and> run_postchecks c task t s5 = (Inr ps, s6) \<and>
       move_task c t (if all_passed ps then ''completed'' else ''postcheck_failed'') s6 = (Inr (), s') \<and> r = check_outcome ps
     else move_task c t ''precheck_failed'' s2 = (Inr (), s') \<and> r = check_outcome rs"
proof -
  from assms obtain subs where subs: "subtasks task = Some subs"
    by (cases "subtasks task") (auto simp: execute_composite_task_def)
  let ?body = "\<lambda>_. bindR (run_subtasks ev exec subs) (\<lambda>_. liftR (finish_composite c task t))"
  from assms subs obtain s1 rs s2 where s1: "move_task c t ''prechecking'' s = (Inr (), s1)"
    and rs: "run_prechecks c task t s1 = (Inr rs, s2)"
    and run: "(if \<not> all_passed rs
        then liftR (bindS (move_task c t ''precheck_failed'') (\<lambda>_. returnS (check_outcome rs)))
        else bindR (liftR (move_task c t ''active'')) ?body) s2 = Some (Inr r, s')"
    by (auto simp: execute_composite_task_def bindR_Inr)
  show thesis
    by (rule that [OF subs s1 rs]) (use run in \<open>auto simp: finish_composite_def bindR_Inr bindS_Inr split: if_splits\<close>)
qed

lemma composite_sync:
  assumes k: "keeps in_sync c" and s: "in_sync s" and h: "execute_composite_task c ev exec task t s = Some (Inr r, s')"
    and sub: "\<And>subs sub s x s'. subtasks task = Some subs \<Longrightarrow> sub \<in> set subs \<Longrightarrow> in_sync s \<Longrightarrow> exec sub s = Some (Inr x, s') \<Longrightarrow> in_sync s'"
  shows "in_sync s'"
  using h
proof (rule execute_compositeE)
  fix subs rs s1 s2
  assume subs: "subtasks task = Some subs" and m: "move_task c t ''prechecking'' s = (Inr (), s1)" and rs: "run_prechecks c task t s1 = (Inr rs, s2)"
    and e: "if all_passed rs
     then \<exists>s3 s4 s5 ps s6. move_task c t ''active'' s2 = (Inr (), s3) \<and> run_subtasks ev exec subs s3 = Some (Inr (), s4) \<and>
       move_task c t ''postchecking'' s4 = (Inr (), s5) \<and> run_postchecks c task t s5 = (Inr ps, s6) \<and>
       move_task c t (if all_passed ps then ''completed'' else ''postcheck_failed'') s6 = (Inr (), s') \<and> r = check_outcome ps
     else move_task c t ''precheck_failed'' s2 = (Inr (), s') \<and> r = check_outcome rs"
  have s2: "in_sync s2" by (rule run_prechecks_keeps [OF k move_task_sync [OF m s] rs])
  show "in_sync s'"
  proof (cases "all_passed rs")
    case True
    with e obtain s3 s4 s5 ps s6 where m: "move_task c t ''active'' s2 = (Inr (), s3)" "run_subtasks ev exec subs s3 = Some (Inr (), s4)"
      "move_task c t ''postchecking'' s4 = (Inr (), s5)" "run_postchecks c task t s5 = (Inr ps, s6)"
      "move_task c t (if all_passed ps then ''completed'' else ''postcheck_failed'') s6 = (Inr (), s')" by auto
    have "in_sync s4"
      by (rule run_subtasks_keeps [OF in_sync_blind sub [OF subs] m(2) move_task_sync [OF m(1) s2]])
    then have "in_sync s6" using run_postchecks_keeps [OF k _ m(4)] move_task_sync [OF m(3)] by blast
    then show ?thesis using move_task_sync [OF m(5)] by blast
  qed (use e s2 move_task_sync in auto)
qed

lemma exec_keepsD:
  assumes "exec_keeps I ev" "I s"
  shows "ex_agent ev task t p vs s = Some (Inr r, s') \<Longrightarrow> I s'" "ex_call ev m f ctx s = (Inr r, s') \<Longrightarrow> I s'"
    "ex_resumed ev s = Some (Inr (), s') \<Longrightarrow> I s'"
  using assms unfolding exec_keeps_def by blast+

lemma wait_paused_keeps: "exec_keeps I ev \<Longrightarrow> I s \<Longrightarrow> wait_paused ev s = Some (Inr u, s') \<Longrightarrow> I s'"
  using exec_keepsD(3) [of I ev s s'] by (auto simp: wait_paused_def split: if_splits)

lemma ensure_created_sync: "ensure_created c task parent given s = (Inr t, s') \<Longrightarrow> in_sync s \<Longrightarrow> in_sync s'"
  using register_sync(2) by (fastforce simp: ensure_created_def bindS_Inr split: option.splits)

text \<open>
  C22. A whole execution keeps the scheduler and the trace in agreement: if \<open>execute_task\<close> returns on a tree of tasks without
  \<open>for_each\<close>, to any depth and in any order of the gathered subtasks, then every task known to the scheduler still has the same status in
  the trace, provided that agents, imported functions, checks and callbacks keep this.
\<close>

theorem execute_task_agrees:
  assumes "keeps in_sync c" "exec_keeps in_sync ev" "no_for_each task" "in_sync s"
    and "execute_task c ev task parent given variables s = Some (Inr r, s')"
  shows "in_sync s'"
  using assms(3-5)
proof (induction "depth task" arbitrary: task parent given variables s r s' rule: less_induct)
  case less
  have plain: "ts_for_each (spec_fields task) = None" using less(2) by (simp add: no_for_each_iff [of task])
  from less(4) obtain u s1 t s2 where w: "wait_paused ev s = Some (Inr u, s1)" and e: "ensure_created c task parent given s1 = (Inr t, s2)"
    and run: "run_mode c ev task parent variables t s2 = Some (Inr r, s')"
    by (auto simp: execute_task_mode bindR_Inr)
  note run = run [unfolded run_mode_def]
  have "in_sync s1" by (rule wait_paused_keeps [OF assms(2) less(3) w])
  then have s2: "in_sync s2" using ensure_created_sync [OF e] by blast
  have sub: "in_sync s'" if "subtasks task = Some subs" "sub \<in> set subs" "in_sync s" "execute_task c ev sub (Some t) None None s = Some (Inr x, s')"
    for subs sub s x s'
    using less(1) [OF depth_sub [OF that(1,2)] _ that(3,4)] less(2) that(1,2) by (auto simp: no_for_each_iff [of task])
  consider (call) "ts_callable (spec_fields task) \<noteq> None" | (composite) "ts_callable (spec_fields task) = None" "subtasks task \<noteq> None"
    | (wait) "ts_callable (spec_fields task) = None" "subtasks task = None" "ts_wait_for (spec_fields task) \<noteq> None"
    | (decision) "ts_callable (spec_fields task) = None" "subtasks task = None" "ts_wait_for (spec_fields task) = None" "ts_decision_point (spec_fields task) = Some True"
    | (agent) "ts_callable (spec_fields task) = None" "subtasks task = None" "ts_wait_for (spec_fields task) = None" "ts_decision_point (spec_fields task) \<noteq> Some True"
    by blast
  then show ?case
  proof cases
    case call
    with run plain have "execute_function_task c (ex_call ev) task t parent variables s2 = (Inr r, s')" by simp
    from function_task_sync [where call = "ex_call ev", OF _ s2 this] exec_keepsD(2) [OF assms(2)] show ?thesis by blast
  next
    case composite
    with run plain have "execute_composite_task c ev (\<lambda>sub. execute_task c ev sub (Some t) None None) task t s2 = Some (Inr r, s')" by simp
    from composite_sync [OF assms(1) s2 this sub] show ?thesis .
  next
    case wait
    then show ?thesis using run plain wait_for_sync [OF assms(1) s2] by simp
  next
    case decision
    then show ?thesis using run plain decision_point_sync [OF assms(1) s2] by simp
  next
    case agent
    then show ?thesis using run plain exec_keepsD(1) [OF assms(2) s2] by simp
  qed
qed

definition quiet_env :: exec_env where
  "quiet_env = flow_env\<lparr>ex_agent := (\<lambda>_ _ _ _ s. Some (Inl ValueError, s))\<rparr>"

definition sample_wait :: task_spec where
  "sample_wait = TaskSpec ((task_defaults ''w'')\<lparr>ts_wait_for := Some ''e''\<rparr>) [] [] None"

theorem execute_task_agrees_witness:
  "\<exists>r s'. execute_task sample_config quiet_env sample_wait None None None idle_sched = Some (Inr r, s') \<and>
     in_sync s' \<and> mem_status s' 10 = Some ''cancelled''"
proof -
  have k: "keeps in_sync sample_config" by (rule sample_keeps)
  have e: "exec_keeps in_sync quiet_env" by (simp add: exec_keeps_def quiet_env_def flow_env_def)
  have i: "in_sync idle_sched" by (simp add: in_sync_def mem_status_def idle_sched_def)
  have n: "no_for_each sample_wait" by (simp add: sample_wait_def task_defaults_def)
  have "map_option (\<lambda>(r, s). (is_ok r, mem_status s 10)) (execute_task sample_config quiet_env sample_wait None None None idle_sched) =
      Some (True, Some ''cancelled'')" by code_simp
  then obtain r s' where run: "execute_task sample_config quiet_env sample_wait None None None idle_sched = Some (Inr r, s')"
    "mem_status s' 10 = Some ''cancelled''" by (auto simp: is_ok_iff)
  from execute_task_agrees [OF k e n i run(1)] run show ?thesis by (intro exI conjI)
qed

section \<open>Composite tasks\<close>

lemma collect_deps_keys: "set (dict_keys (collect_deps subs deps)) \<subseteq> set (map task_name subs) \<union> set (dict_keys deps)"
  by (induction subs deps rule: collect_deps.induct) (auto simp: dict_keys_set split: option.splits list.splits)

lemma name_to_sub_get:
  "distinct (map task_name subs) \<Longrightarrow> sub \<in> set subs \<Longrightarrow> dict_get (name_to_sub subs m) (task_name sub) = Some sub"
proof (induction subs m rule: name_to_sub.induct)
  case (2 s rest m)
  have other: "dict_get (name_to_sub rest m') n = dict_get m' n" if "n \<notin> set (map task_name rest)" for m' n
    using that by (induction rest m' rule: name_to_sub.induct) auto
  show ?case using 2 other [of "task_name s" "dict_set (task_name s) s m"] by auto
qed simp

lemma run_groups_each:
  assumes "run_groups ev exec m groups s = Some (Inr u, s')" "n \<in> set (concat groups)"
  shows "\<exists>s1 x s2. sub_op exec m n s1 = Some (Inr x, s2)"
  using assms
proof (induction groups arbitrary: s)
  case (Cons g gs)
  then obtain rs s1 where g: "gather ev (map (sub_op exec m) g) s = Some (Inr rs, s1)"
    and rest: "run_groups ev exec m gs s1 = Some (Inr u, s')" by (auto simp: bindR_Inr)
  show ?case
  proof (cases "n \<in> set g")
    case True
    then have "sub_op exec m n \<in> set (map (sub_op exec m) g)" by simp
    from gather_each [OF g this] show ?thesis .
  next
    case False
    then show ?thesis using Cons.IH [OF rest] Cons.prems(2) by simp
  qed
qed simp

lemma run_subtasks_each:
  assumes run: "run_subtasks ev exec subs s = Some (Inr u, s')" and d: "distinct (map task_name subs)" and sub: "sub \<in> set subs"
  shows "\<exists>s1 x s2. exec sub s1 = Some (Inr x, s2)"
proof (cases "list_ex has_deps subs")
  case True
  let ?g = "build_graph (map task_name subs) (collect_deps subs [])"
  from run True obtain groups where groups: "bind_res (topological_sort ?g) (find_parallel_groups ?g) = Inr groups"
    "run_groups ev exec (name_to_sub subs []) groups s = Some (Inr u, s')"
    by (auto simp: run_subtasks_def Let_def split: sum.splits)
  have "task_name sub \<in> set (concat groups)" using groups_cover(1) [OF refl groups(1)] sub by auto
  from run_groups_each [OF groups(2) this] name_to_sub_get [OF d sub, of "[]"] show ?thesis by (simp add: sub_op_def)
next
  case False
  with run obtain rs where "gather ev (map exec subs) s = Some (Inr rs, s')" by (auto simp: run_subtasks_def bindR_Inr)
  from gather_each [OF this, of "exec sub"] sub show ?thesis by simp
qed

text \<open>
  The gates of a composite task: if its execution returns with the task completed, then its pre-checks were run and all passed, every
  subtask was executed and returned (in the order of its dependencies), after that its post-checks were run and all passed, and the trace
  records the task as completed. The results of the subtasks are not looked at, so a subtask that failed its own checks does not keep the
  parent from completing.
\<close>

theorem composite_gate:
  assumes "execute_composite_task c ev exec task t s = Some (Inr r, s')" "mem_status s' t = Some ''completed''"
    and "subtasks task = Some subs" "distinct (map task_name subs)"
  shows "(\<exists>s1 s2 rs. run_prechecks c task t s1 = (Inr rs, s2) \<and> all_passed rs) \<and>
    (\<forall>sub \<in> set subs. \<exists>s1 x s2. exec sub s1 = Some (Inr x, s2)) \<and>
    (\<exists>s1 s2. run_postchecks c task t s1 = (Inr (tr_checks r), s2) \<and> all_passed (tr_checks r)) \<and> trace_status s' t = Some ''completed''"
  using assms(1)
proof (rule execute_compositeE)
  fix subs' rs s1 s2
  assume subs: "subtasks task = Some subs'" and rs: "run_prechecks c task t s1 = (Inr rs, s2)"
    and e: "if all_passed rs
     then \<exists>s3 s4 s5 ps s6. move_task c t ''active'' s2 = (Inr (), s3) \<and> run_subtasks ev exec subs' s3 = Some (Inr (), s4) \<and>
       move_task c t ''postchecking'' s4 = (Inr (), s5) \<and> run_postchecks c task t s5 = (Inr ps, s6) \<and>
       move_task c t (if all_passed ps then ''completed'' else ''postcheck_failed'') s6 = (Inr (), s') \<and> r = check_outcome ps
     else move_task c t ''precheck_failed'' s2 = (Inr (), s') \<and> r = check_outcome rs"
  have pre: "all_passed rs"
  proof (rule ccontr)
    assume "\<not> all_passed rs"
    with e have "move_task c t ''precheck_failed'' s2 = (Inr (), s')" by simp
    from move_task_ok(2) [OF this, of t] assms(2) show False by simp
  qed
  with e obtain s3 s4 s5 ps s6 where m: "run_subtasks ev exec subs' s3 = Some (Inr (), s4)" "run_postchecks c task t s5 = (Inr ps, s6)"
    "move_task c t (if all_passed ps then ''completed'' else ''postcheck_failed'') s6 = (Inr (), s')" "r = check_outcome ps" by auto
  have post: "all_passed ps"
    using move_task_ok(2) [OF m(3), of t] assms(2) by (auto split: if_splits)
  moreover have "trace_status s' t = Some ''completed''" using move_task_ok(3) [OF m(3), of t] post by simp
  moreover have "\<forall>sub \<in> set subs. \<exists>s1 x s2. exec sub s1 = Some (Inr x, s2)"
    using run_subtasks_each [OF m(1)] assms(3,4) subs by auto
  ultimately show ?thesis using pre rs m(2,4) by (auto simp: check_outcome_def)
qed

definition sample_composite :: task_spec where
  "sample_composite = TaskSpec (task_defaults ''p'') [] [ScriptExecution \<lparr>se_callable = ''m:pass''\<rparr>] (Some [sample_agent ''a'', sample_agent ''b''])"

text \<open>Both subtasks return a result whose checks failed, and the parent completes.\<close>

definition failing_exec :: "task_spec \<Rightarrow> task_result run" where
  "failing_exec sub s = Some (Inr \<lparr>tr_output = None, tr_structured = None, tr_checks = [failed ''no'' None]\<rparr>, s)"

theorem composite_gate_witness:
  "\<exists>r s'. execute_composite_task sample_config flow_env failing_exec sample_composite 10
       (snd (register_loop sample_config [sample_composite] [] idle_sched)) = Some (Inr r, s') \<and>
     mem_status s' 10 = Some ''completed'' \<and> trace_status s' 10 = Some ''completed'' \<and> all_passed (tr_checks r)"
proof -
  let ?s = "snd (register_loop sample_config [sample_composite] [] idle_sched)"
  have "map_option (\<lambda>(r, s). (is_ok r, mem_status s 10)) (execute_composite_task sample_config flow_env failing_exec sample_composite 10 ?s) =
      Some (True, Some ''completed'')" by code_simp
  then obtain r s' where run: "execute_composite_task sample_config flow_env failing_exec sample_composite 10 ?s = Some (Inr r, s')"
    "mem_status s' 10 = Some ''completed''" by (auto simp: is_ok_iff)
  have subs: "subtasks sample_composite = Some [sample_agent ''a'', sample_agent ''b'']" by (simp add: sample_composite_def)
  have d: "distinct (map task_name [sample_agent ''a'', sample_agent ''b''])" by (simp add: sample_agent_def task_defaults_def)
  from composite_gate [OF run subs d] run show ?thesis by blast
qed

section \<open>Starting and ending a run\<close>

lemma forS_quiet: "(\<And>x s. x \<in> set xs \<Longrightarrow> f x s = (Inr (), g x s)) \<Longrightarrow> forS f xs s = (Inr (), fold g xs s)"
  by (induction xs arbitrary: s) (auto simp: bindS_def returnS_def)

lemma forS_append: "forS f (xs @ ys) = bindS (forS f xs) (\<lambda>_. forS f ys)"
  by (induction xs) (auto simp: bindS_def returnS_def fun_eq_iff split: prod.split sum.split)

lemma fold_services:
  "fold (\<lambda>x s. s\<lparr>s_services := s_services s @ [x]\<rparr>) xs s = s\<lparr>s_services := s_services s @ xs\<rparr>"
  by (induction xs arbitrary: s) simp_all

text \<open>
  A service that does not start leaves the services started before it running: \<open>execute_workflow\<close> starts services
  before it enters the block whose end stops them, so when one of them fails the earlier ones are still
  among the running services when the exception leaves. After a run that returns
  no service is left and the subscription to control signals is gone.
\<close>

theorem failed_service_leaks:
  assumes "crash_recovery c s = (Inr (), s1)" "subscribe_control c s1 = (Inr (), s2)"
    and "wc_services cfg = running @ svc # rest" "\<And>x s. x \<in> set running \<Longrightarrow> ex_start ev x s = (Inr (), s)"
    and "ex_start ev svc (s2\<lparr>s_services := s_services s2 @ running\<rparr>) = (Inl e, s2\<lparr>s_services := s_services s2 @ running\<rparr>)"
  shows "execute_workflow c ev headless cfg s = Some (Inl e, s2\<lparr>s_services := s_services s2 @ running\<rparr>) \<and>
    (\<forall>cfg' s0 u s'. execute_workflow c ev headless cfg' s0 = Some (Inr u, s') \<longrightarrow>
       s_services s' = [] \<and> dict_get (db_control_callbacks (s_db s')) (c_run_id c) = None)"
proof
  have "forS (start_service ev) running s2 = (Inr (), fold (\<lambda>x s. s\<lparr>s_services := s_services s @ [x]\<rparr>) running s2)"
    by (rule forS_quiet) (simp add: start_service_def bindS_def modifyS_def assms(4))
  then have "forS (start_service ev) (wc_services cfg) s2 = (Inl e, s2\<lparr>s_services := s_services s2 @ running\<rparr>)"
    using assms(5) by (simp add: assms(3) forS_append fold_services bindS_def start_service_def)
  then show "execute_workflow c ev headless cfg s = Some (Inl e, s2\<lparr>s_services := s_services s2 @ running\<rparr>)"
    using assms(1,2) by (simp add: execute_workflow_def bindR_def liftR_def)
  show "\<forall>cfg' s0 u s'. execute_workflow c ev headless cfg' s0 = Some (Inr u, s') \<longrightarrow>
       s_services s' = [] \<and> dict_get (db_control_callbacks (s_db s')) (c_run_id c) = None"
    by (auto simp: execute_workflow_def bindR_Inr finallyR_Inr stop_services_def bindS_Inr unsubscribe_control_def unsubscribe_run_control_def)
qed

definition sample_service :: "string \<Rightarrow> service_config" where
  "sample_service name =
     \<lparr>sc_name = name, sc_start_command = ''run'', sc_health_check_command = None, sc_stop_command = ''stop'', sc_port = None, sc_ready_timeout = 5\<rparr>"

theorem failed_service_leaks_witness:
  "\<exists>s'. execute_workflow sample_config flow_env True
       ((sample_flow HALT)\<lparr>wc_services := [sample_service ''db'', sample_service ''bad'']\<rparr>) idle_sched = Some (Inl (OSError 110), s') \<and>
     s_services s' = [sample_service ''db'']"
proof -
  let ?cfg = "(sample_flow HALT)\<lparr>wc_services := [sample_service ''db'', sample_service ''bad'']\<rparr>"
  obtain s1 where s1: "crash_recovery sample_config idle_sched = (Inr (), s1)" "s_services s1 = []" "db_runs (s_db s1) = []"
    by (simp add: crash_recovery_def acquire_run_lock_def run_locked_def idle_sched_def empty_db_def reclaim_interrupted_def clean_orphaned_def)
  then obtain s2 where s2: "subscribe_control sample_config s1 = (Inr (), s2)" "s_services s2 = []"
    by (simp add: subscribe_control_def subscribe_run_control_def)
  have w: "wc_services ?cfg = [sample_service ''db''] @ sample_service ''bad'' # []" by simp
  have q: "\<And>x s. x \<in> set [sample_service ''db''] \<Longrightarrow> ex_start flow_env x s = (Inr (), s)"
    by (simp add: flow_env_def sample_service_def)
  have b: "ex_start flow_env (sample_service ''bad'') s = (Inl (OSError 110), s)" for s by (simp add: flow_env_def sample_service_def)
  from failed_service_leaks [OF s1(1) s2(1) w q b, of True] s2(2) show ?thesis by simp
qed

lemma crash_recovery_ok: "\<not> run_locked (c_run_id c) (s_db s) \<Longrightarrow> \<exists>s'. crash_recovery c s = (Inr (), s')"
  by (auto simp: crash_recovery_def acquire_run_lock_def Let_def split: prod.split)

text \<open>
  Crash recovery at the start of one run cancels the work of every other: tasks that are active, in pre-checks or in post-checks are moved to
  \<open>cancelled\<close> whichever run they belong to, also when that run is alive and holds its lock (its own row is left alone, as the lock
  demands). When the other scheduler then completes the task, the trace refuses the transition.
\<close>

theorem recovery_cancels_live_runs:
  assumes "crash_recovery c s = (Inr (), s')" "dict_get (db_tasks (s_db s)) t = Some row" "t_status row = ''active''"
    and "t_run_id row \<noteq> c_run_id c" "run_locked (t_run_id row) (s_db s)"
  shows "trace_status s' t = Some ''cancelled'' \<and> run_locked (t_run_id row) (s_db s') \<and>
    move_task c' t ''postchecking'' s' = (Inl InvalidTransitionError, set_state t ''postchecking'' s')"
proof -
  let ?db = "(s_db s)\<lparr>db_run_locks := dict_set (c_run_id c) True (db_run_locks (s_db s))\<rparr>"
  have db: "acquire_run_lock (c_run_id c) (s_db s) = Inr ?db"
    using assms(1) by (auto simp: crash_recovery_def acquire_run_lock_def split: if_splits)
  from assms(1) db have s': "db_tasks (s_db s') = dict_map reclaim_row (db_tasks (s_db s)) \<and> db_run_locks (s_db s') = db_run_locks ?db"
    using reclaim_loop_tasks [of "\<lambda>i. c_ids c (s_tick s + i)" "\<lambda>i. c_clock c (s_tick s + i)" "db_tasks (s_db s)" 0]
    by (auto simp: crash_recovery_def reclaim_interrupted_def clean_orphaned_def Let_def split: prod.splits)
  then have st: "trace_status s' t = Some ''cancelled''"
    using assms(2,3) by (simp add: trace_status_def reclaim_row_def interrupted_def)
  have "run_locked (t_run_id row) (s_db s')" using s' assms(4,5) by (simp add: run_locked_def)
  moreover have "\<not> task_step ''cancelled'' ''postchecking''"
    by (simp add: validate_task_transition_def TASK_TERMINAL_STATES_def)
  ultimately show ?thesis using st move_task_invalid [OF st] by blast
qed

theorem recovery_cancels_live_runs_witness:
  "\<exists>s'. crash_recovery (sample_config\<lparr>c_run_id := 5\<rparr>) ((started ''pass'')\<lparr>s_db := (s_db (started ''pass''))\<lparr>db_run_locks := [(7, True)]\<rparr>\<rparr>) = (Inr (), s') \<and>
     trace_status s' 10 = Some ''cancelled'' \<and> run_locked 7 (s_db s')"
proof -
  let ?s = "(started ''pass'')\<lparr>s_db := (s_db (started ''pass''))\<lparr>db_run_locks := [(7, True)]\<rparr>\<rparr>"
  let ?c = "sample_config\<lparr>c_run_id := 5\<rparr>"
  have "map_option (\<lambda>row. (t_status row, t_run_id row)) (dict_get (db_tasks (s_db (started ''pass''))) 10) = Some (''active'', 7)" by code_simp
  then obtain row where row: "dict_get (db_tasks (s_db ?s)) 10 = Some row" "t_status row = ''active''" "t_run_id row = 7" by auto
  have "\<not> run_locked (c_run_id ?c) (s_db ?s)" by (simp add: run_locked_def dict_get_def)
  then obtain s' where s': "crash_recovery ?c ?s = (Inr (), s')" using crash_recovery_ok by blast
  have "t_run_id row \<noteq> c_run_id ?c" "run_locked (t_run_id row) (s_db ?s)" using row(3) by (simp_all add: run_locked_def dict_get_def)
  from recovery_cancels_live_runs [OF s' row(1,2) this] s' row(3) show ?thesis by auto
qed

end
