(* ===== verification/Compose.thy ===== *)
theory Compose
  imports Executor Write_Safety "HOL-Library.Multiset" "HOL-Library.Product_Lexorder"
begin

text \<open>
  The composition of prompts: \<open>compose/_variables.py\<close>, \<open>_includes.py\<close>, \<open>_engine.py\<close>, the fragment providers of
  \<open>scheduler/_prompt_providers.py\<close> and the assembly of an agent's prompt (\<open>_resolve_task_variables\<close> and the layers of
  \<open>_assemble_agent_prompt\<close> in \<open>scheduler/_agent_execution.py\<close>). The texts of the packaged templates are a parameter.
\<close>

section \<open>Variables\<close>

definition var_start :: "char \<Rightarrow> bool" where
  "var_start c = (let n = of_char c :: nat in (65 \<le> n \<and> n \<le> 90) \<or> (97 \<le> n \<and> n \<le> 122) \<or> c = CHR ''_'')"

definition var_char :: "char \<Rightarrow> bool" where
  "var_char c = (var_start c \<or> (let n = of_char c :: nat in 48 \<le> n \<and> n \<le> 57))"

text \<open>
  A match of \<open>_VAR_RE\<close> at the front of a text: the name and the rest. The closing brace is no name character, so the
  repetition never gives characters back.
\<close>

definition match_var :: "string \<Rightarrow> (string \<times> string) option" where
  "match_var s =
     (if prefix ''{'' s
      then (let name = takeWhile var_char (tl s); rest = dropWhile var_char (tl s)
            in if name \<noteq> [] \<and> var_start (hd name) \<and> prefix ''}'' rest then Some (name, tl rest) else None)
      else None)"

lemma match_var_text: "match_var s = Some (name, rest) \<Longrightarrow> s = CHR ''{'' # name @ CHR ''}'' # rest"
  by (auto simp: match_var_def Let_def prefix_def split: if_splits) (metis takeWhile_dropWhile_id)

datatype piece = Raw char | Hole string

function pieces :: "string \<Rightarrow> piece list" where
  "pieces s =
     (case match_var s of
        Some (name, rest) \<Rightarrow> Hole name # pieces rest
      | None \<Rightarrow> (case s of [] \<Rightarrow> [] | c # cs \<Rightarrow> Raw c # pieces cs))"
  by pat_completeness auto
termination
  by (relation "measure length") (auto dest: match_var_text)

declare pieces.simps [simp del]

fun piece_text :: "(string \<Rightarrow> string) \<Rightarrow> piece \<Rightarrow> string" where
  "piece_text f (Raw c) = [c]"
| "piece_text f (Hole n) = f n"

text \<open>\<open>_VAR_RE.findall\<close> and \<open>_VAR_RE.sub\<close>.\<close>

definition find_vars :: "string \<Rightarrow> string list" where
  "find_vars s = concat (map (\<lambda>t. case t of Hole n \<Rightarrow> [n] | Raw _ \<Rightarrow> []) (pieces s))"

definition sub_vars :: "(string \<Rightarrow> string) \<Rightarrow> string \<Rightarrow> string" where
  "sub_vars f s = concat (map (piece_text f) (pieces s))"

definition resolve_variables :: "string \<Rightarrow> (string, string) dict \<Rightarrow> string result" where
  "resolve_variables template variables =
     (let placeholders = find_vars template
      in if list_ex (\<lambda>n. dict_get variables n = None) placeholders then Inl ValueError
         else if list_ex (\<lambda>k. k \<notin> set placeholders) (dict_keys variables) then Inl ValueError
         else if placeholders = [] then Inr template
         else Inr (sub_vars (\<lambda>n. case dict_get variables n of None \<Rightarrow> [] | Some v \<Rightarrow> v) template))"

definition resolve_task_variables :: "string \<Rightarrow> jobj option \<Rightarrow> string result" where
  "resolve_task_variables template variables =
     (case variables of
        Some (kv # kvs) \<Rightarrow>
          resolve_variables template
            (map (\<lambda>(k, v). (k, py_str v)) (filter (\<lambda>(k, v). k \<in> set (find_vars template)) (kv # kvs)))
      | _ \<Rightarrow> resolve_variables template [])"

definition brace :: "string \<Rightarrow> string" where
  "brace n = CHR ''{'' # n @ ''}''"

lemma pieces_text: "concat (map (piece_text brace) (pieces s)) = s"
proof (induction s rule: pieces.induct)
  case (1 s)
  show ?case
  proof (cases "match_var s")
    case None
    show ?thesis
    proof (cases s)
      case Nil
      then show ?thesis using None by (simp add: pieces.simps [of "[]"])
    next
      case (Cons c cs)
      then show ?thesis using 1(1) [OF None Cons] None by (simp add: pieces.simps [of "c # cs"])
    qed
  next
    case (Some p)
    then obtain name rest where p: "match_var s = Some (name, rest)" by (cases p) auto
    have "pieces s = Hole name # pieces rest" using p by (simp add: pieces.simps [of s])
    with 1(2) [OF p refl] match_var_text [OF p] show ?thesis by (simp add: brace_def)
  qed
qed

lemma find_vars_iff: "n \<in> set (find_vars s) \<longleftrightarrow> Hole n \<in> set (pieces s)"
  by (force simp: find_vars_def split: piece.splits)

lemma sub_vars_cong: "(\<And>n. n \<in> set (find_vars s) \<Longrightarrow> f n = g n) \<Longrightarrow> sub_vars f s = sub_vars g s"
proof -
  assume eq: "\<And>n. n \<in> set (find_vars s) \<Longrightarrow> f n = g n"
  have "piece_text f t = piece_text g t" if "t \<in> set (pieces s)" for t
  proof (cases t)
    case (Hole n)
    then show ?thesis using that eq [of n] by (simp add: find_vars_iff)
  qed simp
  then show ?thesis unfolding sub_vars_def by (metis (no_types, lifting) map_eq_conv)
qed

lemma sub_vars_none: "find_vars s = [] \<Longrightarrow> sub_vars f s = s"
  using sub_vars_cong [of s f brace] pieces_text [of s] by (simp add: sub_vars_def)

lemma resolve_variables_iff:
  "resolve_variables template variables =
     (if set (find_vars template) = set (dict_keys variables)
      then Inr (sub_vars (\<lambda>n. case dict_get variables n of None \<Rightarrow> [] | Some v \<Rightarrow> v) template) else Inl ValueError)"
proof -
  have known: "list_ex (\<lambda>n. dict_get variables n = None) (find_vars template) \<longleftrightarrow> \<not> set (find_vars template) \<subseteq> set (dict_keys variables)"
    by (auto simp: list_ex_iff dict_get_None_iff)
  have used: "list_ex (\<lambda>k. k \<notin> set (find_vars template)) (dict_keys variables) \<longleftrightarrow> \<not> set (dict_keys variables) \<subseteq> set (find_vars template)"
    by (auto simp: list_ex_iff)
  show ?thesis unfolding resolve_variables_def Let_def known used using sub_vars_none [of template] by auto
qed

text \<open>
  C38. Substitution is strict in both directions and touches nothing else: \<open>resolve_variables\<close> succeeds exactly when the names in
  the template are the names of the variables; then the result is the template, read as literal characters and placeholders, with each
  placeholder replaced by its value and every other character kept, and values are not expanded again; otherwise it raises
  \<open>ValueError\<close>. Putting the placeholders back in gives the template.
\<close>

theorem resolve_variables_exact:
  "resolve_variables template variables =
     (if set (find_vars template) = set (dict_keys variables)
      then Inr (concat (map (\<lambda>t. case t of Raw c \<Rightarrow> [c] | Hole n \<Rightarrow> (case dict_get variables n of None \<Rightarrow> [] | Some v \<Rightarrow> v)) (pieces template)))
      else Inl ValueError) \<and>
   concat (map (\<lambda>t. case t of Raw c \<Rightarrow> [c] | Hole n \<Rightarrow> CHR ''{'' # n @ ''}'') (pieces template)) = template"
proof
  have case_text: "(\<lambda>t. case t of Raw c \<Rightarrow> [c] | Hole n \<Rightarrow> f n) = piece_text f" for f
    by (rule ext) (simp split: piece.split)
  show "resolve_variables template variables =
     (if set (find_vars template) = set (dict_keys variables)
      then Inr (concat (map (\<lambda>t. case t of Raw c \<Rightarrow> [c] | Hole n \<Rightarrow> (case dict_get variables n of None \<Rightarrow> [] | Some v \<Rightarrow> v)) (pieces template)))
      else Inl ValueError)"
    unfolding case_text resolve_variables_iff sub_vars_def ..
  show "concat (map (\<lambda>t. case t of Raw c \<Rightarrow> [c] | Hole n \<Rightarrow> CHR ''{'' # n @ ''}'') (pieces template)) = template"
    unfolding case_text using pieces_text [of template] unfolding brace_def [abs_def] .
qed

text \<open>A task's prompt is resolved exactly when every placeholder has a variable; variables it does not mention are ignored.\<close>

lemma resolve_task_variables_iff:
  "(\<exists>r. resolve_task_variables template (Some vars) = Inr r) \<longleftrightarrow> set (find_vars template) \<subseteq> set (dict_keys vars)"
proof (cases vars)
  case (Cons kv kvs)
  let ?used = "map (\<lambda>(k, v). (k, py_str v)) (filter (\<lambda>(k, v). k \<in> set (find_vars template)) vars)"
  have keys: "set (dict_keys ?used) = set (find_vars template) \<inter> set (dict_keys vars)" by (force simp: dict_keys_def)
  have "resolve_task_variables template (Some vars) = resolve_variables template ?used" by (simp add: resolve_task_variables_def Cons)
  then show ?thesis using resolve_variables_iff [of template ?used] keys by auto
qed (use resolve_variables_iff [of template "[]"] in \<open>auto simp: resolve_task_variables_def dict_keys_def\<close>)

section \<open>Includes\<close>

definition match_include :: "string \<Rightarrow> (string \<times> string) option" where
  "match_include s =
     (if prefix ''{include:'' s
      then (let path = takeWhile (\<lambda>c. c \<noteq> CHR ''}'') (drop 9 s); rest = dropWhile (\<lambda>c. c \<noteq> CHR ''}'') (drop 9 s)
            in if path \<noteq> [] \<and> rest \<noteq> [] then Some (path, tl rest) else None)
      else None)"

lemma match_include_shorter: "match_include s = Some (path, rest) \<Longrightarrow> length rest < length s"
proof -
  assume m: "match_include s = Some (path, rest)"
  then have r: "rest = tl (dropWhile (\<lambda>c. c \<noteq> CHR ''}'') (drop 9 s))" and p: "prefix ''{include:'' s"
    by (auto simp: match_include_def Let_def split: if_splits)
  have "length rest \<le> length (drop 9 s)" using length_dropWhile_le [of _ "drop 9 s"] unfolding r by (metis diff_le_self le_trans length_tl)
  also have "\<dots> < length s" using p by (auto simp: prefix_def)
  finally show ?thesis .
qed

text \<open>
  \<open>_resolve_includes\<close>: \<open>canon base path\<close> is \<open>(base / path).resolve()\<close> and the files are a finite map. The recursion ends
  because every nested call has one more file among those seen.
\<close>

function resolve_includes_in :: "(string \<Rightarrow> string \<Rightarrow> string) \<Rightarrow> (string, string) dict \<Rightarrow> string \<Rightarrow> string list \<Rightarrow> string \<Rightarrow> string result" where
  "resolve_includes_in canon files base seen s =
     (case match_include s of
        Some (path, rest) \<Rightarrow>
          (let p = canon base path
           in if p \<in> set seen then Inl ValueError
              else (case dict_get files p of
                      None \<Rightarrow> Inl FileNotFoundError
                    | Some content \<Rightarrow>
                        (case resolve_includes_in canon files (parent p) (p # seen) content of
                           Inl e \<Rightarrow> Inl e
                         | Inr text \<Rightarrow>
                             (case resolve_includes_in canon files base seen rest of Inl e \<Rightarrow> Inl e | Inr t \<Rightarrow> Inr (text @ t)))))
      | None \<Rightarrow>
          (case s of
             [] \<Rightarrow> Inr []
           | c # cs \<Rightarrow> (case resolve_includes_in canon files base seen cs of Inl e \<Rightarrow> Inl e | Inr t \<Rightarrow> Inr (c # t))))"
  by pat_completeness auto
termination
  by (relation "measures [\<lambda>(canon, files, base, seen, s). card (set (dict_keys files) - set seen), \<lambda>(canon, files, base, seen, s). length s]")
    (auto dest: match_include_shorter dict_get_keys intro!: psubset_card_mono)

declare resolve_includes_in.simps [simp del]

definition resolve_includes :: "(string \<Rightarrow> string \<Rightarrow> string) \<Rightarrow> (string, string) dict \<Rightarrow> string \<Rightarrow> string \<Rightarrow> string result" where
  "resolve_includes canon files template base = resolve_includes_in canon files base [] template"

text \<open>The files a text names, and the relation between a file and the files its text includes.\<close>

function included :: "(string \<Rightarrow> string) \<Rightarrow> string \<Rightarrow> string list" where
  "included canon s =
     (case match_include s of
        Some (path, rest) \<Rightarrow> canon path # included canon rest
      | None \<Rightarrow> (case s of [] \<Rightarrow> [] | c # cs \<Rightarrow> included canon cs))"
  by pat_completeness auto
termination
  by (relation "measure (length \<circ> snd)") (auto dest: match_include_shorter)

declare included.simps [simp del]

definition file_includes :: "(string \<Rightarrow> string \<Rightarrow> string) \<Rightarrow> (string, string) dict \<Rightarrow> string \<Rightarrow> string \<Rightarrow> bool" where
  "file_includes canon files p q \<longleftrightarrow> (\<exists>content. dict_get files p = Some content \<and> q \<in> set (included (canon (parent p)) content))"

text \<open>The files that a text reaches, through any number of nested includes.\<close>

definition reached :: "(string \<Rightarrow> string \<Rightarrow> string) \<Rightarrow> (string, string) dict \<Rightarrow> string \<Rightarrow> string \<Rightarrow> string \<Rightarrow> bool" where
  "reached canon files base s r \<longleftrightarrow> (\<exists>q \<in> set (included (canon base) s). (file_includes canon files)\<^sup>*\<^sup>* q r)"

lemma reached_include:
  assumes "match_include s = Some (path, rest)"
  shows "reached canon files base s r \<longleftrightarrow> (file_includes canon files)\<^sup>*\<^sup>* (canon base path) r \<or> reached canon files base rest r"
  using assms by (simp add: reached_def included.simps [of _ s])

lemma reached_char: "match_include (c # cs) = None \<Longrightarrow> reached canon files base (c # cs) r \<longleftrightarrow> reached canon files base cs r"
  by (simp add: reached_def included.simps [of _ "c # cs"])

lemma reached_nil: "\<not> reached canon files base [] r"
  by (simp add: reached_def included.simps [of _ "[]"] match_include_def)

lemma include_reaches:
  assumes "dict_get files p = Some content"
  shows "(file_includes canon files)\<^sup>*\<^sup>* p r \<longleftrightarrow> r = p \<or> reached canon files (parent p) content r"
    and "(file_includes canon files)\<^sup>+\<^sup>+ p r \<longleftrightarrow> reached canon files (parent p) content r"
proof -
  have edge: "file_includes canon files p q \<longleftrightarrow> q \<in> set (included (canon (parent p)) content)" for q
    using assms by (simp add: file_includes_def)
  have "(file_includes canon files)\<^sup>+\<^sup>+ p r \<longleftrightarrow> (\<exists>q. file_includes canon files p q \<and> (file_includes canon files)\<^sup>*\<^sup>* q r)"
    by (meson rtranclp_into_tranclp2 tranclpD)
  then show plus: "(file_includes canon files)\<^sup>+\<^sup>+ p r \<longleftrightarrow> reached canon files (parent p) content r"
    by (auto simp: edge reached_def)
  show "(file_includes canon files)\<^sup>*\<^sup>* p r \<longleftrightarrow> r = p \<or> reached canon files (parent p) content r"
    unfolding plus [symmetric] by (auto simp: Nitpick.rtranclp_unfold)
qed

lemma resolve_includes_in_ok:
  assumes "resolve_includes_in canon files base seen s = Inr out" and "reached canon files base s r"
  shows "r \<notin> set seen \<and> dict_get files r \<noteq> None \<and> \<not> (file_includes canon files)\<^sup>+\<^sup>+ r r"
  using assms
proof (induction canon files base seen s arbitrary: out r rule: resolve_includes_in.induct)
  case (1 canon files base seen s)
  show ?case
  proof (cases "match_include s")
    case None
    with 1(5) obtain c cs where s: "s = c # cs" by (cases s) (auto simp: reached_nil)
    with None 1(4) obtain t where "resolve_includes_in canon files base seen cs = Inr t"
      by (auto simp: resolve_includes_in.simps [of _ _ _ _ "c # cs"] split: sum.splits)
    then show ?thesis using 1(1) [OF None s] 1(5) None s reached_char by blast
  next
    case (Some pr)
    then obtain path rest where m: "match_include s = Some (path, rest)" by (cases pr) auto
    define p where "p = canon base path"
    obtain content o1 o2 where ok: "p \<notin> set seen" "dict_get files p = Some content"
        "resolve_includes_in canon files (parent p) (p # seen) content = Inr o1" "resolve_includes_in canon files base seen rest = Inr o2"
      using 1(4) m by (auto simp: resolve_includes_in.simps [of _ _ _ _ s] p_def [symmetric] Let_def split: if_splits option.splits sum.splits)
    have nested: "r \<notin> set (p # seen) \<and> dict_get files r \<noteq> None \<and> \<not> (file_includes canon files)\<^sup>+\<^sup>+ r r"
      if "reached canon files (parent p) content r" for r by (rule 1(2) [OF m refl p_def ok(1-3) that])
    consider (same) "r = p" | (inside) "reached canon files (parent p) content r" | (after) "reached canon files base rest r"
      using 1(5) include_reaches(1) [OF ok(2)] by (auto simp: reached_include [OF m] p_def)
    then show ?thesis
    proof cases
      case same
      then show ?thesis using ok include_reaches(2) [OF ok(2), of canon p] nested [of p] by auto
    next
      case inside
      then show ?thesis using nested by simp
    next
      case after
      show ?thesis by (rule 1(3) [OF m refl p_def ok(1-3) ok(4) after])
    qed
  qed
qed

lemma seen_reaches:
  assumes "successively (\<lambda>p q. file_includes canon files q p) seen" and "q \<in> set seen"
  shows "(file_includes canon files)\<^sup>*\<^sup>* q (hd seen)"
  using assms
proof (induction seen)
  case (Cons x xs)
  show ?case
  proof (cases "q = x")
    case False
    then have "q \<in> set xs" using Cons.prems(2) by simp
    then obtain y ys where "xs = y # ys" by (cases xs) auto
    with Cons show ?thesis using \<open>q \<in> set xs\<close> by auto
  qed simp
qed simp

lemma resolve_includes_in_error:
  assumes "resolve_includes_in canon files base seen s = Inl e"
    and "successively (\<lambda>p q. file_includes canon files q p) seen"
    and "\<And>q. seen \<noteq> [] \<Longrightarrow> q \<in> set (included (canon base) s) \<Longrightarrow> file_includes canon files (hd seen) q"
  shows "\<exists>r. reached canon files base s r \<and>
    (e = ValueError \<and> (file_includes canon files)\<^sup>+\<^sup>+ r r \<or> e = FileNotFoundError \<and> dict_get files r = None)"
  using assms
proof (induction canon files base seen s rule: resolve_includes_in.induct)
  case (1 canon files base seen s)
  show ?case
  proof (cases "match_include s")
    case None
    then obtain c cs where s: "s = c # cs" "resolve_includes_in canon files base seen cs = Inl e"
      using 1(4) by (auto simp: resolve_includes_in.simps [of _ _ _ _ s] split: list.splits sum.splits)
    have "included (canon base) s = included (canon base) cs" using None s(1) by (simp add: included.simps [of _ "c # cs"])
    then show ?thesis using 1(1) [OF None s(1) s(2) 1(5)] 1(6) by (simp add: reached_def)
  next
    case (Some pr)
    then obtain path rest where m: "match_include s = Some (path, rest)" by (cases pr) auto
    define p where "p = canon base path"
    have inc: "included (canon base) s = p # included (canon base) rest" using m by (simp add: included.simps [of _ s] p_def)
    have self: "reached canon files base s p" by (simp add: reached_include [OF m] p_def)
    consider (cycle) "p \<in> set seen" "e = ValueError" | (missing) "dict_get files p = None" "e = FileNotFoundError"
      | (nested) content where "p \<notin> set seen" "dict_get files p = Some content" "resolve_includes_in canon files (parent p) (p # seen) content = Inl e"
      | (later) content out where "p \<notin> set seen" "dict_get files p = Some content" "resolve_includes_in canon files (parent p) (p # seen) content = Inr out"
          "resolve_includes_in canon files base seen rest = Inl e"
      using 1(4) m by (auto simp: resolve_includes_in.simps [of _ _ _ _ s] p_def [symmetric] Let_def split: if_splits option.splits sum.splits)
    then show ?thesis
    proof cases
      case cycle
      then have "file_includes canon files (hd seen) p" using 1(6) [of p] inc by (cases seen) auto
      with seen_reaches [OF 1(5) cycle(1)] show ?thesis using self cycle(2) rtranclp_into_tranclp1 by metis
    next
      case missing
      then show ?thesis using self by auto
    next
      case nested
      have "successively (\<lambda>p q. file_includes canon files q p) (p # seen)" using 1(5,6) inc by (cases seen) auto
      moreover have "file_includes canon files (hd (p # seen)) q" if "q \<in> set (included (canon (parent p)) content)" for q
        using that nested(2) by (auto simp: file_includes_def)
      ultimately obtain r where r: "reached canon files (parent p) content r"
          "e = ValueError \<and> (file_includes canon files)\<^sup>+\<^sup>+ r r \<or> e = FileNotFoundError \<and> dict_get files r = None"
        using 1(2) [OF m refl p_def nested] by blast
      then have "reached canon files base s r"
        using include_reaches(1) [OF nested(2)] by (auto simp: reached_include [OF m] p_def)
      then show ?thesis using r(2) by blast
    next
      case later
      have "\<exists>r. reached canon files base rest r \<and>
          (e = ValueError \<and> (file_includes canon files)\<^sup>+\<^sup>+ r r \<or> e = FileNotFoundError \<and> dict_get files r = None)"
        by (rule 1(3) [OF m refl p_def later(1-3) later(4) 1(5)]) (use 1(6) inc in auto)
      then show ?thesis by (auto simp: reached_include [OF m])
    qed
  qed
qed

text \<open>
  Include resolution always terminates and fails exactly when it must: it succeeds if and only if every file the
  template reaches through nested includes exists and none of them includes itself, directly or indirectly. A
  \<open>ValueError\<close> is raised only when the template reaches a file on an include cycle, a \<open>FileNotFoundError\<close> only when it
  reaches a missing file, and no other error occurs; a file included twice on different branches is not a cycle.
\<close>
theorem resolve_includes_exact:
  "case resolve_includes canon files template base of
     Inr out \<Rightarrow> \<forall>r. reached canon files base template r \<longrightarrow> dict_get files r \<noteq> None \<and> \<not> (file_includes canon files)\<^sup>+\<^sup>+ r r
   | Inl e \<Rightarrow> \<exists>r. reached canon files base template r \<and>
       (e = ValueError \<and> (file_includes canon files)\<^sup>+\<^sup>+ r r \<or> e = FileNotFoundError \<and> dict_get files r = None)"
  using resolve_includes_in_ok [of canon files base "[]" template] resolve_includes_in_error [of canon files base "[]" template]
  by (auto simp: resolve_includes_def split: sum.splits)

definition flat :: "string \<Rightarrow> string \<Rightarrow> string" where "flat base path = path"

theorem resolve_includes_exact_witness:
  "resolve_includes flat [(''a'', ''A{include:b}{include:b}''), (''b'', ''B'')] ''x{include:a}'' [] = Inr ''xABB'' \<and>
   \<not> (file_includes flat [(''a'', ''A{include:b}{include:b}''), (''b'', ''B'')])\<^sup>+\<^sup>+ ''a'' ''a'' \<and>
   resolve_includes flat [(''a'', ''{include:b}''), (''b'', ''{include:a}'')] ''{include:a}'' [] = Inl ValueError"
proof -
  let ?f = "[(''a'', ''A{include:b}{include:b}''), (''b'', ''B'')]"
  have ok: "resolve_includes flat ?f ''x{include:a}'' [] = Inr ''xABB''" by code_simp
  have "included (flat []) ''x{include:a}'' = [''a'']" by code_simp
  then have "reached flat ?f [] ''x{include:a}'' ''a''" by (simp add: reached_def)
  then have "\<not> (file_includes flat ?f)\<^sup>+\<^sup>+ ''a'' ''a''" using resolve_includes_exact [of flat ?f "[]" "''x{include:a}''"] ok by auto
  moreover have "resolve_includes flat [(''a'', ''{include:b}''), (''b'', ''{include:a}'')] ''{include:a}'' [] = Inl ValueError" by code_simp
  ultimately show ?thesis using ok by blast
qed

section \<open>Fragments and the engine\<close>

record fragment =
  fr_name :: string
  fr_content :: string
  fr_priority :: int
  fr_source :: string

definition fragment_key :: "fragment \<Rightarrow> int \<times> string" where
  "fragment_key f = (fr_priority f, fr_name f)"

definition default_separator :: string where
  "default_separator = [CHR 0x0A, CHR 0x0A] @ ''---'' @ [CHR 0x0A, CHR 0x0A]"

type_synonym 'c provider = "'c \<Rightarrow> fragment list result"

fun provide :: "'c provider list \<Rightarrow> 'c \<Rightarrow> fragment list result" where
  "provide [] context = Inr []"
| "provide (p # ps) context = bind_res (p context) (\<lambda>fs. bind_res (provide ps context) (\<lambda>rest. Inr (fs @ rest)))"

definition compose :: "'c provider list \<Rightarrow> string \<Rightarrow> 'c \<Rightarrow> (string, string) dict option \<Rightarrow> string result" where
  "compose providers sep context variables =
     bind_res (provide providers context) (\<lambda>all_fragments.
       (let composed = join sep (map fr_content (sort_key fragment_key all_fragments))
        in case variables of None \<Rightarrow> Inr composed | Some vars \<Rightarrow> resolve_variables composed vars))"

text \<open>
  \<open>FileFragmentProvider\<close>: the directory is the list of its entries with their texts, or \<open>None\<close> when it is no
  directory; \<open>stem\<close> cuts the suffix \<open>.md\<close> off the name, unless nothing would be left.
\<close>

definition is_md :: "string \<Rightarrow> bool" where
  "is_md name = suffix ''.md'' name"

definition stem :: "string \<Rightarrow> string" where
  "stem name = (if length name = 3 then name else take (length name - 3) name)"

fun file_fragments ::
  "(string \<Rightarrow> string \<Rightarrow> string) \<Rightarrow> (string, string) dict \<Rightarrow> string \<Rightarrow> int \<Rightarrow> (string \<times> string) list \<Rightarrow> fragment list result" where
  "file_fragments canon files directory priority [] = Inr []"
| "file_fragments canon files directory priority ((name, raw) # rest) =
     bind_res (resolve_includes canon files raw directory) (\<lambda>content.
       bind_res (file_fragments canon files directory priority rest) (\<lambda>fs.
         Inr (\<lparr>fr_name = stem name, fr_content = content, fr_priority = priority, fr_source = ''file:'' @ directory\<rparr> # fs)))"

definition file_fragment_provider ::
  "(string \<Rightarrow> string \<Rightarrow> string) \<Rightarrow> (string, string) dict \<Rightarrow> string \<Rightarrow> (string \<times> string) list option \<Rightarrow> int \<Rightarrow> 'c provider" where
  "file_fragment_provider canon files directory listing priority context =
     (case listing of
        None \<Rightarrow> Inr []
      | Some entries \<Rightarrow> file_fragments canon files directory priority (sort_key fst (filter (is_md \<circ> fst) entries)))"

lemma provide_mset:
  assumes "mset ps = mset qs" and "provide ps context = Inr fs"
  shows "\<exists>gs. provide qs context = Inr gs \<and> mset gs = mset fs"
proof -
  have ok: "provide ps context = Inr fs \<longleftrightarrow>
      (\<forall>p \<in> set ps. is_ok (p context)) \<and> fs = concat (map (\<lambda>p. projr (p context)) ps)" for ps :: "'a provider list" and fs
    by (induction ps arbitrary: fs) (auto simp: bind_res_Inr_iff is_ok_iff)
  have total: "mset (concat (map f ps)) = sum_mset (image_mset (\<lambda>p. mset (f p)) (mset ps))"
    for f :: "'a provider \<Rightarrow> fragment list" and ps by (induction ps) auto
  have "mset (concat (map (\<lambda>p. projr (p context)) ps)) = mset (concat (map (\<lambda>p. projr (p context)) qs))"
    unfolding total assms(1) ..
  moreover have "set ps = set qs" using assms(1) by (rule mset_eq_setD)
  ultimately show ?thesis using assms(2) unfolding ok by auto
qed

text \<open>
  The composed prompt does not depend on the order in which the providers are registered: for any rearrangement
  of the providers, when no two fragments share priority and name, composition gives the same text, and it fails
  for one order only if it fails for the other.
\<close>
theorem compose_order_irrelevant:
  assumes "mset ps = mset qs" and "provide ps context = Inr fs" and "distinct (map fragment_key fs)"
  shows "compose ps sep context variables = compose qs sep context variables"
proof -
  obtain gs where gs: "provide qs context = Inr gs" "mset gs = mset fs" using provide_mset [OF assms(1,2)] by blast
  have "sort_key fragment_key gs = sort_key fragment_key fs"
    by (rule sort_key_inj_key_eq) (use gs(2) assms(3) mset_eq_setD [OF gs(2)] in \<open>auto simp: distinct_map\<close>)
  then show ?thesis using assms(2) gs(1) by (simp add: compose_def)
qed

definition one_fragment :: "string \<Rightarrow> int \<Rightarrow> unit provider" where
  "one_fragment name priority u = Inr [\<lparr>fr_name = name, fr_content = name, fr_priority = priority, fr_source = []\<rparr>]"

theorem compose_order_irrelevant_witness:
  "compose [one_fragment ''b'' 1, one_fragment ''a'' 1, one_fragment ''c'' 0] ''-'' () None =
   compose [one_fragment ''a'' 1, one_fragment ''b'' 1, one_fragment ''c'' 0] ''-'' () None \<and>
   compose [one_fragment ''b'' 1, one_fragment ''a'' 1, one_fragment ''c'' 0] ''-'' () None = Inr ''c-a-b''"
proof
  let ?f = "\<lambda>n p. \<lparr>fr_name = n, fr_content = n, fr_priority = p, fr_source = []\<rparr>"
  have provided: "provide [one_fragment ''b'' 1, one_fragment ''a'' 1, one_fragment ''c'' 0] () = Inr [?f ''b'' 1, ?f ''a'' 1, ?f ''c'' 0]"
    by (simp add: one_fragment_def)
  show "compose [one_fragment ''b'' 1, one_fragment ''a'' 1, one_fragment ''c'' 0] ''-'' () None =
    compose [one_fragment ''a'' 1, one_fragment ''b'' 1, one_fragment ''c'' 0] ''-'' () None"
    by (rule compose_order_irrelevant [OF _ provided]) (simp_all add: fragment_key_def)
  show "compose [one_fragment ''b'' 1, one_fragment ''a'' 1, one_fragment ''c'' 0] ''-'' () None = Inr ''c-a-b''" by code_simp
qed

section \<open>The prompt of an agent\<close>

abbreviation nl :: string where "nl \<equiv> [CHR 0x0A]"

text \<open>
  The packaged templates \<open>scheduler/prompts/*.md\<close> that the scheduler names (\<open>load_template\<close>, which reads the file without
  its final newline), and \<open>render_template\<close> of \<open>scheduler/_prompt_templates.py\<close>.
\<close>

definition PROMPTS :: "(string, string) dict" where
  "PROMPTS =
     [(''task_preamble'', ''Your task ID is {task_id}. Call start_task first.''),
      (''constraints'', ''## Active Constraints''),
      (''notepad'', ''## Context from previous steps''),
      (''lessons_verified'', ''## Lessons (verified)''),
      (''lessons_stale'', ''## Lessons (may be stale)''),
      (''prior_failures'', ''## Prior Failure Context''),
      (''tool_suggestion'', ''Related tools available: {tool_names}. Use load_tools to load any that are not yet active.''),
      (''escalation_to_parent'', ''[ESCALATION] Task '' @ [CHR 0x27] @ ''{task_name}'' @ [CHR 0x27] @
        '' exhausted {max_attempts} attempt(s). Failed checks: {failed_checks}. Agent summary: Retries exhausted.''),
      (''handoff_request'', ''Your context window is nearly full. Summarize the conversation so far, including: what task you are working on, what you have done, what remains, and any important decisions or context. Be concise but complete.''),
      (''handoff_resume'', ''You are continuing a task from a previous session. Here is a summary of your work so far:'' @ nl @ nl @
        ''{summary}'' @ nl @ nl @ ''Continue from where you left off.''),
      (''orchestrator_resume'', ''Child task {child_task_id} completed. Result: {child_result}'')]"

definition load_template :: "string \<Rightarrow> string" where
  "load_template name = (case dict_get PROMPTS name of None \<Rightarrow> [] | Some t \<Rightarrow> t)"

definition render_template :: "string \<Rightarrow> (string, string) dict \<Rightarrow> string result" where
  "render_template name variables = resolve_variables (load_template name) variables"

record prior_attempt =
  pa_attempt :: nat
  pa_error :: string

record prompt_context =
  px_task_id :: "string option"
  px_task_prompt :: "string option"
  px_constraints :: "(string \<times> string) list"
  px_notepad :: "notepad_row list"
  px_lessons :: "lesson list"
  px_attempt :: nat
  px_inject :: bool
  px_prior :: "prior_attempt list"

definition section_of :: "string \<Rightarrow> string list \<Rightarrow> string" where
  "section_of template lines = join nl (load_template template # lines)"

definition task_preamble_provider :: "prompt_context provider" where
  "task_preamble_provider px =
     (case px_task_id px of
        None \<Rightarrow> Inr []
      | Some task_id \<Rightarrow>
          Inr [\<lparr>fr_name = ''task_preamble'', fr_content = str_replace ''{task_id}'' task_id (load_template ''task_preamble''),
                fr_priority = 10, fr_source = ''scheduler:preamble''\<rparr>])"

definition task_prompt_provider :: "prompt_context provider" where
  "task_prompt_provider px =
     (case px_task_prompt px of
        None \<Rightarrow> Inr []
      | Some prompt \<Rightarrow> Inr [\<lparr>fr_name = ''task_prompt'', fr_content = prompt, fr_priority = 20, fr_source = ''scheduler:task_prompt''\<rparr>])"

definition constraints_provider :: "prompt_context provider" where
  "constraints_provider px =
     Inr (if px_constraints px = [] then []
          else [\<lparr>fr_name = ''constraints'',
                 fr_content = section_of ''constraints'' (map (\<lambda>(txt, tier). ''- '' @ txt @ '' ('' @ tier @ '')'') (px_constraints px)),
                 fr_priority = 30, fr_source = ''scheduler:constraints''\<rparr>])"

definition ENTRY_TYPES :: "(string \<times> string) list" where
  "ENTRY_TYPES = [(''learning'', ''Learnings''), (''decision'', ''Decisions''), (''issue'', ''Issues'')]"

definition render_notepad :: "notepad_row list \<Rightarrow> string" where
  "render_notepad entries =
     join nl (load_template ''notepad'' # concat (map (\<lambda>(entry_type, header).
        (let grp = filter (\<lambda>e. n_entry_type e = entry_type) entries
         in (nl @ ''### '' @ header) #
            (if grp \<noteq> [] then map (\<lambda>e. ''- ['' @ n_task_name e @ ''/'' @ n_agent_name e @ ''] '' @ n_text e) grp
             else [''- (none)'']))) ENTRY_TYPES)) @ nl"

definition notepad_provider :: "prompt_context provider" where
  "notepad_provider px =
     Inr (if px_notepad px = [] then []
          else [\<lparr>fr_name = ''notepad'', fr_content = render_notepad (px_notepad px), fr_priority = 40, fr_source = ''scheduler:notepad''\<rparr>])"

definition lessons_provider :: "prompt_context provider" where
  "lessons_provider px =
     (let fresh = filter (\<lambda>l. \<not> ls_stale l) (px_lessons px); stale = filter ls_stale (px_lessons px)
      in Inr ((if fresh = [] then []
               else [\<lparr>fr_name = ''lessons_verified'', fr_content = section_of ''lessons_verified'' (map (\<lambda>l. ''- '' @ ls_text l) fresh),
                      fr_priority = 50, fr_source = ''scheduler:lessons''\<rparr>]) @
              (if stale = [] then []
               else [\<lparr>fr_name = ''lessons_stale'',
                      fr_content = section_of ''lessons_stale''
                        (map (\<lambda>l. ''- '' @ ls_text l @ '' [stale: source modified after lesson was created]'') stale),
                      fr_priority = 55, fr_source = ''scheduler:lessons''\<rparr>])))"

definition failure_context_provider :: "prompt_context provider" where
  "failure_context_provider px =
     Inr (if px_attempt px \<le> 1 \<or> \<not> px_inject px \<or> px_prior px = [] then []
          else [\<lparr>fr_name = ''prior_failures'',
                 fr_content = section_of ''prior_failures''
                   (map (\<lambda>pa. ''Prior attempt '' @ nat_str (pa_attempt pa) @ '' failed: '' @ pa_error pa) (px_prior px)),
                 fr_priority = 60, fr_source = ''scheduler:failures''\<rparr>])"

definition prompt_providers :: "prompt_context provider list" where
  "prompt_providers =
     [task_preamble_provider, task_prompt_provider, constraints_provider, notepad_provider, lessons_provider, failure_context_provider]"

text \<open>The layers of a prompt, in the order the documentation of \<open>_prompt_providers.py\<close> gives.\<close>

definition prompt_layers :: "string \<Rightarrow> string \<Rightarrow> prompt_context \<Rightarrow> string list" where
  "prompt_layers task_id prompt px =
     [''Your task ID is '' @ task_id @ ''. Call start_task first.'', prompt] @
     (if px_constraints px = [] then []
      else [section_of ''constraints'' (map (\<lambda>(txt, tier). ''- '' @ txt @ '' ('' @ tier @ '')'') (px_constraints px))]) @
     (if px_notepad px = [] then [] else [render_notepad (px_notepad px)]) @
     (let fresh = filter (\<lambda>l. \<not> ls_stale l) (px_lessons px)
      in if fresh = [] then [] else [section_of ''lessons_verified'' (map (\<lambda>l. ''- '' @ ls_text l) fresh)]) @
     (let stale = filter ls_stale (px_lessons px)
      in if stale = [] then []
         else [section_of ''lessons_stale'' (map (\<lambda>l. ''- '' @ ls_text l @ '' [stale: source modified after lesson was created]'') stale)]) @
     (if 1 < px_attempt px \<and> px_inject px \<and> px_prior px \<noteq> []
      then [section_of ''prior_failures'' (map (\<lambda>pa. ''Prior attempt '' @ nat_str (pa_attempt pa) @ '' failed: '' @ pa_error pa) (px_prior px))]
      else [])"


text \<open>
  \<open>_assemble_agent_prompt\<close>. The Overseer's \<open>refine_context\<close> is a parameter (\<open>None\<close>: no Overseer, or one without that
  method), and so is the text of \<open>difflib.unified_diff\<close>.
\<close>

definition agent_prompt_context :: "task_spec \<Rightarrow> uuid \<Rightarrow> string \<Rightarrow> nat \<Rightarrow> prior_attempt list \<Rightarrow> sched \<Rightarrow> prompt_context" where
  "agent_prompt_context task task_id prompt attempt prior s =
     \<lparr>px_task_id = Some (uuid_str task_id), px_task_prompt = Some prompt, px_constraints = s_active_constraints s,
      px_notepad = s_notepad s, px_lessons = s_lessons s, px_attempt = attempt,
      px_inject = (ts_retry_inject_failure (spec_fields task) = Some True), px_prior = prior\<rparr>"

type_synonym refiner = "(string \<Rightarrow> string \<Rightarrow> string op) option"

definition refine_prompt :: "config \<Rightarrow> refiner \<Rightarrow> (string \<Rightarrow> string \<Rightarrow> string) \<Rightarrow> task_spec \<Rightarrow> uuid \<Rightarrow> string \<Rightarrow> string op" where
  "refine_prompt c refine diff task attempt_id prompt =
     (case (ts_context_refinement (spec_fields task), refine) of
        (Some True, Some r) \<Rightarrow>
          bindS (r (task_name task) prompt) (\<lambda>refined s.
            if refined \<noteq> prompt
            then (Inr refined, s\<lparr>s_db := write_context_diff (c_ids c (s_tick s)) attempt_id prompt (diff prompt refined) (s_db s),
                                s_tick := Suc (s_tick s)\<rparr>)
            else (Inr prompt, s))
      | _ \<Rightarrow> returnS prompt)"

definition assemble_agent_prompt ::
  "config \<Rightarrow> refiner \<Rightarrow> (string \<Rightarrow> string \<Rightarrow> string) \<Rightarrow> task_spec \<Rightarrow> uuid \<Rightarrow> jobj option \<Rightarrow> nat \<Rightarrow> uuid \<Rightarrow> prior_attempt list \<Rightarrow> string op" where
  "assemble_agent_prompt c refine diff task task_id variables attempt attempt_id prior s =
     (case ts_task_prompt (spec_fields task) of
        None \<Rightarrow> raiseS AssertionError s
      | Some template \<Rightarrow>
          (case resolve_task_variables template variables of
             Inl e \<Rightarrow> raiseS e s
           | Inr prompt \<Rightarrow>
               (case compose prompt_providers (nl @ nl) (agent_prompt_context task task_id prompt attempt prior s) None of
                  Inl e \<Rightarrow> raiseS e s
                | Inr composed \<Rightarrow> refine_prompt c refine diff task attempt_id composed s)))"

lemma preamble_text: "str_replace ''{task_id}'' t (load_template ''task_preamble'') = ''Your task ID is '' @ t @ ''. Call start_task first.''"
  by (simp add: load_template_def PROMPTS_def dict_get_def str_replace.simps)

lemma sort_key_sorted: "sorted (map f xs) \<Longrightarrow> sort_key f xs = xs"
  by (simp add: sort_key_id_if_sorted)

lemma layers_composed:
  assumes "px_task_id px = Some task_id" "px_task_prompt px = Some prompt"
  shows "compose prompt_providers sep px None = Inr (join sep (prompt_layers task_id prompt px))"
proof -
  note providers = prompt_providers_def task_preamble_provider_def task_prompt_provider_def constraints_provider_def
    notepad_provider_def lessons_provider_def failure_context_provider_def
  let ?stale = "filter ls_stale (px_lessons px)" and ?fresh = "filter (\<lambda>l. \<not> ls_stale l) (px_lessons px)"
  obtain fs where fs: "provide prompt_providers px = Inr fs" unfolding providers by (simp add: assms Let_def)
  have "sorted (map fragment_key fs)"
    using fs unfolding providers
    by (cases "px_constraints px = []"; cases "px_notepad px = []"; cases "?fresh = []"; cases "?stale = []")
      (auto simp: assms Let_def fragment_key_def)
  moreover have "map fr_content fs = prompt_layers task_id prompt px"
    using fs preamble_text [of task_id] unfolding providers
    by (cases "px_constraints px = []"; cases "px_notepad px = []"; cases "?fresh = []"; cases "?stale = []")
      (auto simp: assms Let_def prompt_layers_def not_le)
  ultimately show ?thesis using fs by (simp add: compose_def sort_key_sorted)
qed

text \<open>
  The prompt of an agent, before the Overseer refines it, is exactly the documented layers in the documented
  order: the preamble with the task's identifier, the task's prompt with its variables substituted, then (only
  when there is something to say) constraints, notepad, verified lessons, stale lessons, and the failures of
  earlier attempts, separated by blank lines. It fails only when the prompt is missing or a placeholder in it is unresolved.
\<close>
theorem agent_prompt_layers:
  "assemble_agent_prompt c None diff task task_id variables attempt attempt_id prior s =
     (case map_option (\<lambda>template. resolve_task_variables template variables) (ts_task_prompt (spec_fields task)) of
        None \<Rightarrow> (Inl AssertionError, s)
      | Some (Inl e) \<Rightarrow> (Inl e, s)
      | Some (Inr prompt) \<Rightarrow>
          (Inr (join (nl @ nl) (prompt_layers (uuid_str task_id) prompt (agent_prompt_context task task_id prompt attempt prior s))), s))"
  using layers_composed [of "agent_prompt_context task task_id _ attempt prior s"]
  by (auto simp: assemble_agent_prompt_def raiseS_def returnS_def refine_prompt_def agent_prompt_context_def
      split: option.splits sum.splits bool.splits)

end
