(* ===== verification/Tool_Registry.thy ===== *)
theory Tool_Registry
  imports Compose File_Tools
begin

text \<open>
  The tools of an agent's session: the registry and its built-in entries, the validation of allow lists
  (\<open>scheduler/_tool_registry.py\<close>), the tool set built for a session (\<open>_build_agent_tools\<close> of
  \<open>scheduler/_agent_execution.py\<close>), the meta-tool that loads deferred tools (\<open>tool/_load_tools.py\<close>) and the choice between
  brain and worker (\<open>worker/_pipeline_split.py\<close>). A tool is the constructor that makes it with the arguments it gets; what
  the constructors build is modelled in other theories. Sets of names are lists without a
  meaning of their order; \<open>sorted\<close> is applied where the code applies it.
\<close>

section \<open>Tools and the registry\<close>

datatype tool_location = LOCAL | ANYWHERE

datatype tool_capability = READ | WRITE | GIT | HTTP

record tool_deps =
  td_read_root :: string
  td_write_scope :: "string list option"
  td_session_id :: string
  td_run_id :: uuid
  td_task_id :: uuid
  td_task_name :: string
  td_task_agent :: string
  td_preview_threshold :: nat
  td_preview_lines :: nat

datatype tool_impl =
    ReadTool string nat nat string
  | ListDirTool string
  | GlobTool string
  | GrepTool string nat nat
  | StatTool string
  | DiffTool string
  | WriteTool string "string list option" string
  | EditTool string "string list option" string
  | MultiEditTool string "string list option" string
  | MkdirTool string "string list option"
  | MoveTool string "string list option" string
  | CopyTool string "string list option" string
  | DeleteTool string "string list option"
  | SetExecutableTool string "string list option"
  | NotepadTool string string string
  | HttpTool string
  | GitTool string "string list" uuid uuid
  | ConsultTool "string list"
  | LifecycleTool string
  | LoadTools "string list"
  | DeferredStub
  | CustomTool nat tool_deps

record tool =
  tl_name :: string
  tl_impl :: tool_impl
  tl_deferred :: bool
  tl_location :: tool_location
  tl_capabilities :: "tool_capability list"
  tl_remote :: bool

text \<open>
  \<open>Tool(...)\<close> as the constructors of \<open>orxtra.tool\<close> leave the routing metadata; \<open>tl_remote\<close> says that the tool is wrapped
  to send its calls to a worker.
\<close>

definition made :: "string \<Rightarrow> tool_impl \<Rightarrow> tool" where
  "made name impl = \<lparr>tl_name = name, tl_impl = impl, tl_deferred = False, tl_location = ANYWHERE, tl_capabilities = [], tl_remote = False\<rparr>"

record tool_entry =
  te_name :: string
  te_namespace :: string
  te_tags :: "string list"
  te_factory :: "tool_deps \<Rightarrow> tool"
  te_description :: string
  te_deferred :: bool
  te_location :: tool_location
  te_capabilities :: "tool_capability list"

record edge =
  source_tool :: string
  target_tool :: string
  edge_type :: string

record registry =
  reg_entries :: "(string, tool_entry) dict"
  reg_edges :: "edge list"
  reg_from :: "(string, edge list) dict"
  reg_to :: "(string, edge list) dict"
  reg_by_type :: "(string, edge list) dict"

definition new_registry :: registry where
  "new_registry = \<lparr>reg_entries = [], reg_edges = [], reg_from = [], reg_to = [], reg_by_type = []\<rparr>"

definition register :: "tool_entry \<Rightarrow> registry \<Rightarrow> registry result" where
  "register entry reg =
     (if dict_get (reg_entries reg) (te_name entry) \<noteq> None then Inl ValueError
      else Inr (reg\<lparr>reg_entries := dict_set (te_name entry) entry (reg_entries reg)\<rparr>))"

definition register_custom ::
  "string \<Rightarrow> string \<Rightarrow> string list \<Rightarrow> (tool_deps \<Rightarrow> tool) \<Rightarrow> string \<Rightarrow> bool \<Rightarrow> tool_location \<Rightarrow> tool_capability list \<Rightarrow>
   registry \<Rightarrow> registry result" where
  "register_custom name namespace tags factory description deferred location capabilities reg =
     (if dict_get (reg_entries reg) name \<noteq> None then Inl ValueError
      else Inr (reg\<lparr>reg_entries := dict_set name
             \<lparr>te_name = name, te_namespace = namespace, te_tags = tags, te_factory = factory, te_description = description,
              te_deferred = deferred, te_location = location, te_capabilities = capabilities\<rparr> (reg_entries reg)\<rparr>))"

definition get_metadata :: "registry \<Rightarrow> tool_table" where
  "get_metadata reg = map (\<lambda>(name, entry). (name, te_namespace entry, te_tags entry)) (reg_entries reg)"

definition get_entry :: "registry \<Rightarrow> string \<Rightarrow> tool_entry option" where
  "get_entry reg name = dict_get (reg_entries reg) name"

definition append_edge :: "string \<Rightarrow> edge \<Rightarrow> (string, edge list) dict \<Rightarrow> (string, edge list) dict" where
  "append_edge key e d = dict_set key (get_or_empty d key @ [e]) d"

definition add_edge :: "string \<Rightarrow> string \<Rightarrow> string \<Rightarrow> registry \<Rightarrow> registry" where
  "add_edge source target kind reg =
     (let e = \<lparr>source_tool = source, target_tool = target, edge_type = kind\<rparr>
      in if e \<in> set (reg_edges reg) then reg
         else reg\<lparr>reg_edges := reg_edges reg @ [e], reg_from := append_edge source e (reg_from reg),
                  reg_to := append_edge target e (reg_to reg), reg_by_type := append_edge kind e (reg_by_type reg)\<rparr>)"

definition edges_from :: "registry \<Rightarrow> string \<Rightarrow> edge list" where
  "edges_from reg tool_name = get_or_empty (reg_from reg) tool_name"

definition edges_to :: "registry \<Rightarrow> string \<Rightarrow> edge list" where
  "edges_to reg tool_name = get_or_empty (reg_to reg) tool_name"

definition edges_by_type :: "registry \<Rightarrow> string \<Rightarrow> edge list" where
  "edges_by_type reg kind = get_or_empty (reg_by_type reg) kind"

definition built :: "tool_deps \<Rightarrow> tool_entry \<Rightarrow> tool" where
  "built deps entry = (te_factory entry deps)\<lparr>tl_location := te_location entry, tl_capabilities := te_capabilities entry\<rparr>"

definition build_tools :: "registry \<Rightarrow> string list \<Rightarrow> tool_deps \<Rightarrow> tool list" where
  "build_tools reg names deps = map (built deps) (List.map_filter (get_entry reg) (sort (remdups names)))"

section \<open>Built-in tools\<close>

definition entry_of :: "string \<Rightarrow> string \<Rightarrow> string list \<Rightarrow> (tool_deps \<Rightarrow> tool_impl) \<Rightarrow> string \<Rightarrow> tool_location \<Rightarrow> tool_capability list \<Rightarrow> tool_entry" where
  "entry_of name namespace tags impl description location capabilities =
     \<lparr>te_name = name, te_namespace = namespace, te_tags = tags, te_factory = (\<lambda>deps. made name (impl deps)),
      te_description = description, te_deferred = False, te_location = location, te_capabilities = capabilities\<rparr>"

definition read_entries :: "tool_entry list" where
  "read_entries =
     [entry_of ''read'' ''fs.read'' [''readonly''] (\<lambda>d. ReadTool (td_read_root d) (td_preview_threshold d) (td_preview_lines d) (td_session_id d))
        ''Read a file's contents.'' ANYWHERE [READ],
      entry_of ''list_dir'' ''fs.read'' [''readonly''] (\<lambda>d. ListDirTool (td_read_root d)) ''List directory contents.'' ANYWHERE [READ],
      entry_of ''glob'' ''fs.read'' [''readonly''] (\<lambda>d. GlobTool (td_read_root d)) ''Find files matching a glob pattern.'' ANYWHERE [READ],
      entry_of ''grep'' ''fs.read'' [''readonly''] (\<lambda>d. GrepTool (td_read_root d) (td_preview_threshold d) (td_preview_lines d))
        ''Search file contents with regex.'' ANYWHERE [READ],
      entry_of ''stat'' ''fs.read'' [''readonly''] (\<lambda>d. StatTool (td_read_root d)) ''Get file or directory metadata.'' ANYWHERE [READ],
      entry_of ''diff'' ''fs.read'' [''readonly''] (\<lambda>d. DiffTool (td_read_root d)) ''Show differences between two files.'' ANYWHERE [READ]]"

definition write_entries :: "tool_entry list" where
  "write_entries =
     [entry_of ''write'' ''fs.write'' [''mutation''] (\<lambda>d. WriteTool (td_read_root d) (td_write_scope d) (td_session_id d))
        ''Write content to a file.'' ANYWHERE [WRITE],
      entry_of ''edit'' ''fs.write'' [''mutation''] (\<lambda>d. EditTool (td_read_root d) (td_write_scope d) (td_session_id d))
        ''Apply targeted edits to a file.'' ANYWHERE [WRITE],
      entry_of ''multi_edit'' ''fs.write'' [''mutation''] (\<lambda>d. MultiEditTool (td_read_root d) (td_write_scope d) (td_session_id d))
        ''Apply multiple targeted edits to a file.'' ANYWHERE [WRITE],
      entry_of ''mkdir'' ''fs.write'' [''mutation''] (\<lambda>d. MkdirTool (td_read_root d) (td_write_scope d)) ''Create a directory.'' ANYWHERE [WRITE],
      entry_of ''move'' ''fs.write'' [''mutation''] (\<lambda>d. MoveTool (td_read_root d) (td_write_scope d) (td_session_id d))
        ''Move or rename a file.'' ANYWHERE [WRITE],
      entry_of ''copy'' ''fs.write'' [''mutation''] (\<lambda>d. CopyTool (td_read_root d) (td_write_scope d) (td_session_id d)) ''Copy a file.'' ANYWHERE [WRITE],
      entry_of ''delete'' ''fs.write'' [''mutation''] (\<lambda>d. DeleteTool (td_read_root d) (td_write_scope d)) ''Delete a file or directory.'' ANYWHERE [WRITE],
      entry_of ''set_executable'' ''fs.write'' [''mutation''] (\<lambda>d. SetExecutableTool (td_read_root d) (td_write_scope d))
        ''Set a file's executable permission.'' ANYWHERE [WRITE]]"

definition io_entries :: "tool_entry list" where
  "io_entries =
     [entry_of ''notepad'' ''io.notepad'' [''mutation''] (\<lambda>d. NotepadTool (uuid_str (td_run_id d)) (td_task_name d) (td_task_agent d))
        ''Append entries to the cross-agent notepad.'' LOCAL [],
      entry_of ''http'' ''io.http'' [''readonly'', ''mutation''] (\<lambda>d. HttpTool ''allow_all'') ''Make HTTP requests.'' ANYWHERE [HTTP]]"

fun register_all :: "tool_entry list \<Rightarrow> registry \<Rightarrow> registry result" where
  "register_all [] reg = Inr reg"
| "register_all (e # es) reg = bind_res (register e reg) (register_all es)"

definition seed_builtin_edges :: "registry \<Rightarrow> registry" where
  "seed_builtin_edges reg =
     fold (\<lambda>(source, target). add_edge source target ''related_to'')
       [(''write'', ''read''), (''edit'', ''read''), (''move'', ''read''), (''copy'', ''read'')]
       (fold (\<lambda>(source, target). add_edge source target ''follows'')
         [(''read'', ''edit''), (''read'', ''grep''), (''grep'', ''read''), (''glob'', ''read''), (''list_dir'', ''read''),
          (''diff'', ''edit''), (''stat'', ''read'')] reg)"

definition create_builtin_registry :: "registry result" where
  "create_builtin_registry =
     bind_res (register_all (read_entries @ write_entries @ io_entries) new_registry) (\<lambda>reg. Inr (seed_builtin_edges reg))"

definition SYNTHETIC_ENTRIES :: tool_table where
  "SYNTHETIC_ENTRIES = [(''git'', ''git'', [''readonly'', ''mutation'']), (''consult'', ''meta.consult'', [''readonly''])]"

definition WRITE_TOOL_NAMES :: "string list" where
  "WRITE_TOOL_NAMES = [''write'', ''edit'', ''multi_edit'', ''delete'', ''move'', ''copy'', ''mkdir'', ''set_executable'']"

definition LIFECYCLE_TOOL_NAMES :: "string list" where
  "LIFECYCLE_TOOL_NAMES = [''start_task'', ''end_task'', ''create_task'', ''create_workflow'', ''create_wait_for'', ''await_task'']"

text \<open>\<open>dict(registry.get_metadata())\<close> updated with the synthetic entries.\<close>

definition full_metadata :: "registry \<Rightarrow> tool_table" where
  "full_metadata reg = fold (\<lambda>(name, v). dict_set name v) SYNTHETIC_ENTRIES (get_metadata reg)"

section \<open>Validation of allow lists\<close>

text \<open>
  An inline tool: the validation of its raw definition by \<open>DataToolDefinition\<close>, and its builder, which is chosen by the kind
  of execution (\<open>None\<close>: no builder is registered for it).
\<close>

record inline_tool =
  it_name :: string
  it_namespace :: string
  it_tags :: "string list option"
  it_valid :: "unit result"
  it_build :: "(tool_deps \<Rightarrow> tool) option"

type_synonym tooled_agent = "agent_def \<times> inline_tool list"

fun first_bad :: "('a \<Rightarrow> bool) \<Rightarrow> 'a list \<Rightarrow> unit result" where
  "first_bad bad [] = Inr ()"
| "first_bad bad (x # xs) = (if bad x then Inl ValueError else first_bad bad xs)"

definition known_tags :: "(string, tooled_agent) dict \<Rightarrow> registry \<Rightarrow> string list" where
  "known_tags agents reg =
     concat (map (\<lambda>(name, ns, tags). tags) (full_metadata reg)) @
     concat (map (\<lambda>(a, ag, inline). concat (map (\<lambda>itd. case it_tags itd of None \<Rightarrow> [] | Some ts \<Rightarrow> ts) inline)) agents)"

definition known_names :: "(string, tooled_agent) dict \<Rightarrow> registry \<Rightarrow> string list" where
  "known_names agents reg =
     dict_keys (full_metadata reg) @ LIFECYCLE_TOOL_NAMES @ concat (map (\<lambda>(a, ag, inline). map it_name inline) agents)"

definition bad_entry :: "(string, tooled_agent) dict \<Rightarrow> registry \<Rightarrow> string \<Rightarrow> bool" where
  "bad_entry agents reg entry =
     (if entry = ''*'' then False
      else if startswith entry ''#'' then drop 1 entry \<notin> set (known_tags agents reg)
      else if endswith entry ''.*'' then False
      else entry \<notin> set (known_names agents reg))"

fun validate_agents :: "(string, tooled_agent) dict \<Rightarrow> registry \<Rightarrow> (string, tooled_agent) dict \<Rightarrow> unit result" where
  "validate_agents agents reg [] = Inr ()"
| "validate_agents agents reg ((name, ag, inline) # rest) =
     bind_res (first_bad (bad_entry agents reg) (ag_allow ag)) (\<lambda>_.
       bind_res (first_bad (\<lambda>d. get_entry reg d = None) (ag_deferred ag)) (\<lambda>_. validate_agents agents reg rest))"

definition validate_allow_lists :: "(string, tooled_agent) dict \<Rightarrow> registry \<Rightarrow> unit result" where
  "validate_allow_lists agents reg = validate_agents agents reg agents"

section \<open>The tool set of a session\<close>

definition deferred_stubs :: "registry \<Rightarrow> string list \<Rightarrow> tool list" where
  "deferred_stubs reg deferred =
     List.map_filter (\<lambda>d. map_option (\<lambda>entry.
       \<lparr>tl_name = d, tl_impl = DeferredStub, tl_deferred = True, tl_location = te_location entry,
        tl_capabilities = te_capabilities entry, tl_remote = False\<rparr>) (get_entry reg d)) (sort (remdups deferred))"

definition git_subcommands :: "string list \<Rightarrow> string list" where
  "git_subcommands resolved =
     [''status'', ''diff'', ''log'', ''show'', ''blame'', ''branches'', ''changed_files''] @
     (if list_ex (\<lambda>n. n \<in> set WRITE_TOOL_NAMES) resolved then [''commit''] else [])"

definition git_tools :: "string list \<Rightarrow> tool_deps \<Rightarrow> tool list" where
  "git_tools resolved deps =
     (if ''git'' \<in> set resolved
      then [(made ''git'' (GitTool (td_read_root deps) (git_subcommands resolved) (td_run_id deps) (td_task_id deps)))\<lparr>tl_capabilities := [GIT]\<rparr>]
      else [])"

definition consult_tools :: "string list \<Rightarrow> tool list \<Rightarrow> tool list" where
  "consult_tools resolved raw_tools =
     (if ''consult'' \<in> set resolved then [(made ''consult'' (ConsultTool (remdups (map tl_name raw_tools))))\<lparr>tl_location := LOCAL\<rparr>] else [])"

definition inline_allowed :: "string list \<Rightarrow> string list \<Rightarrow> inline_tool \<Rightarrow> bool" where
  "inline_allowed allow resolved itd =
     (it_name itd \<in> set resolved \<or>
      list_ex (\<lambda>entry. endswith entry ''.*'' \<and> startswith (it_namespace itd) (take (length entry - 2) entry)) allow \<or>
      ''*'' \<in> set allow)"

fun build_inline :: "string list \<Rightarrow> string list \<Rightarrow> tool_deps \<Rightarrow> inline_tool list \<Rightarrow> tool list result" where
  "build_inline allow resolved deps [] = Inr []"
| "build_inline allow resolved deps (itd # rest) =
     bind_res (it_valid itd) (\<lambda>_.
       if \<not> inline_allowed allow resolved itd then build_inline allow resolved deps rest
       else (case it_build itd of
               None \<Rightarrow> Inl TypeError
             | Some build \<Rightarrow> bind_res (build_inline allow resolved deps rest) (\<lambda>ts. Inr (build deps # ts))))"

definition lifecycle_tools :: "string \<Rightarrow> tool list" where
  "lifecycle_tools session_id = map (\<lambda>n. (made n (LifecycleTool session_id))\<lparr>tl_location := LOCAL\<rparr>) LIFECYCLE_TOOL_NAMES"

definition session_deps :: "string \<Rightarrow> uuid \<Rightarrow> uuid \<Rightarrow> string \<Rightarrow> string \<Rightarrow> string \<Rightarrow> tool_deps" where
  "session_deps read_root run_id task_id session_id name agent =
     \<lparr>td_read_root = read_root, td_write_scope = None, td_session_id = session_id, td_run_id = run_id, td_task_id = task_id,
      td_task_name = name, td_task_agent = agent, td_preview_threshold = 10000, td_preview_lines = 50\<rparr>"

definition build_agent_tools :: "registry \<Rightarrow> tooled_agent \<Rightarrow> tool_deps \<Rightarrow> tool list result" where
  "build_agent_tools reg tagent deps =
     (let (ag, inline) = tagent;
          resolved = resolve_allow_list (ag_allow ag) (full_metadata reg);
          standard = build_tools reg (filter (\<lambda>n. n \<notin> set (ag_deferred ag)) resolved) deps @ deferred_stubs reg (ag_deferred ag) @
                     git_tools resolved deps;
          raw_tools = standard @ consult_tools resolved standard
      in bind_res (build_inline (ag_allow ag) resolved deps inline) (\<lambda>ts. Inr (raw_tools @ ts @ lifecycle_tools (td_session_id deps))))"

text \<open>The meta-tool: what \<open>load_tools\<close> does to the tools of the session.\<close>

fun load_each :: "(string \<Rightarrow> tool result) \<Rightarrow> tool list \<Rightarrow> string list \<Rightarrow> tool list result" where
  "load_each build current [] = Inr []"
| "load_each build current (name # names) =
     (if list_ex (\<lambda>t. \<not> tl_deferred t) (take 1 (filter (\<lambda>t. tl_name t = name) (rev current))) then load_each build current names
      else bind_res (build name) (\<lambda>t. bind_res (load_each build current names) (\<lambda>ts. Inr (t # ts))))"

definition load_tools :: "string list \<Rightarrow> (string \<Rightarrow> tool result) \<Rightarrow> string list \<Rightarrow> tool list \<Rightarrow> tool list result" where
  "load_tools allowed build names current =
     (if names = [] then Inl ToolError
      else if list_ex (\<lambda>n. n \<notin> set allowed) names then Inl ToolError
      else bind_res (load_each build current names) (\<lambda>to_add.
        Inr (if to_add = [] then current
             else filter (\<lambda>t. tl_name t \<notin> set (map tl_name to_add)) current @ to_add)))"

definition should_route_to_worker :: "tool_location \<Rightarrow> string option \<Rightarrow> bool" where
  "should_route_to_worker location target = (case target of None \<Rightarrow> False | Some _ \<Rightarrow> location = ANYWHERE)"

text \<open>Wrapping for the local pipeline makes a new \<open>Tool\<close> without location and capabilities, wrapping for a worker keeps them.\<close>

definition wrap_local :: "tool \<Rightarrow> tool" where
  "wrap_local t = t\<lparr>tl_location := ANYWHERE, tl_capabilities := [], tl_remote := False\<rparr>"

definition wrap_for_remote :: "tool \<Rightarrow> tool" where
  "wrap_for_remote t = t\<lparr>tl_remote := True\<rparr>"

definition route_tools :: "string option \<Rightarrow> tool list \<Rightarrow> tool list" where
  "route_tools target raw =
     map wrap_local (filter (\<lambda>t. \<not> should_route_to_worker (tl_location t) target) raw) @
     map wrap_for_remote (filter (\<lambda>t. should_route_to_worker (tl_location t) target) raw)"

text \<open>
  The tool set of \<open>_create_agent_session\<close>: the raw tools, \<open>load_tools\<close> when tools are deferred, and the routing, which
  takes the worker bridge only if the scheduler has one (\<open>workers\<close>, the roots with a registered worker). \<open>build_and_wrap\<close>
  is the builder \<open>load_tools\<close> gets.
\<close>

definition build_and_wrap :: "registry \<Rightarrow> tool_deps \<Rightarrow> string \<Rightarrow> tool result" where
  "build_and_wrap reg deps name =
     (case get_entry reg name of None \<Rightarrow> Inl ToolError | Some entry \<Rightarrow> Inr (wrap_local (te_factory entry deps)))"

definition raw_session_tools :: "registry \<Rightarrow> tooled_agent \<Rightarrow> tool_deps \<Rightarrow> tool list result" where
  "raw_session_tools reg tagent deps =
     bind_res (build_agent_tools reg tagent deps) (\<lambda>raw.
       Inr (if ag_deferred (fst tagent) = [] then raw
            else raw @ [made ''load_tools'' (LoadTools (resolve_allow_list (ag_allow (fst tagent)) (full_metadata reg)))]))"

definition session_tools ::
  "registry \<Rightarrow> string list option \<Rightarrow> string option \<Rightarrow> tooled_agent \<Rightarrow> tool_deps \<Rightarrow> tool list result" where
  "session_tools reg workers target tagent deps =
     bind_res (raw_session_tools reg tagent deps) (\<lambda>raw.
       case (target, workers) of
         (Some root_dir, Some roots) \<Rightarrow> if root_dir \<in> set roots then Inr (route_tools target raw) else Inl RuntimeError
       | _ \<Rightarrow> Inr (map wrap_local raw))"

text \<open>The advisory text after a tool's result; the second component is the set of tools already suggested.\<close>

definition result_appendix :: "registry \<Rightarrow> string \<Rightarrow> string list \<Rightarrow> string option result \<times> string list" where
  "result_appendix reg tool_name suggested =
     (let neighbors = filter (\<lambda>t. t \<notin> set suggested) (map target_tool (edges_from reg tool_name))
      in if neighbors = [] then (Inr None, suggested)
         else (map_sum id Some (render_template ''tool_suggestion'' [(''tool_names'', join '', '' (sort neighbors))]),
               remdups (suggested @ neighbors)))"

section \<open>The registry's indexes\<close>

inductive registry_step :: "registry \<Rightarrow> registry \<Rightarrow> bool" where
  step_register: "register entry reg = Inr reg' \<Longrightarrow> registry_step reg reg'"
| step_register_custom: "register_custom name ns tags factory descr deferred location caps reg = Inr reg' \<Longrightarrow> registry_step reg reg'"
| step_add_edge: "registry_step reg (add_edge source target kind reg)"

definition registry_ok :: "registry \<Rightarrow> bool" where
  "registry_ok reg \<longleftrightarrow>
     dict_wf (reg_entries reg) \<and> (\<forall>name entry. get_entry reg name = Some entry \<longrightarrow> te_name entry = name) \<and>
     distinct (reg_edges reg) \<and>
     (\<forall>t. edges_from reg t = filter (\<lambda>e. source_tool e = t) (reg_edges reg)) \<and>
     (\<forall>t. edges_to reg t = filter (\<lambda>e. target_tool e = t) (reg_edges reg)) \<and>
     (\<forall>t. edges_by_type reg t = filter (\<lambda>e. edge_type e = t) (reg_edges reg))"

lemmas edge_index_defs = edges_from_def edges_to_def edges_by_type_def append_edge_def get_or_empty_def

lemma registry_step_ok:
  assumes "registry_step reg reg'" "registry_ok reg"
  shows "registry_ok reg'"
  using assms
proof (cases rule: registry_step.cases)
  case (step_register entry)
  then have "reg' = reg\<lparr>reg_entries := dict_set (te_name entry) entry (reg_entries reg)\<rparr>"
    by (auto simp: register_def split: if_splits)
  then show ?thesis using assms(2) by (auto simp: registry_ok_def get_entry_def edge_index_defs split: if_splits)
next
  case (step_register_custom name ns tags factory descr deferred location caps)
  then show ?thesis using assms(2)
    by (auto simp: register_custom_def registry_ok_def get_entry_def edge_index_defs split: if_splits)
next
  case (step_add_edge source target kind)
  then show ?thesis using assms(2)
    by (auto simp: add_edge_def Let_def registry_ok_def get_entry_def edge_index_defs)
qed

text \<open>
  Starting from a new registry, whatever sequence of registrations and edges: an entry is always found under its
  own name, no advisory edge is stored twice, and the three indexes agree with the list of edges: the edges from
  a tool, to a tool and of a type are exactly those of the list, in the order they were added.
\<close>
theorem registry_indexes:
  assumes "registry_step\<^sup>*\<^sup>* new_registry reg"
  shows "registry_ok reg"
  using assms
proof (induction rule: rtranclp_induct)
  case base
  show ?case by (simp add: registry_ok_def new_registry_def get_entry_def edge_index_defs dict_get_def dict_wf_def)
qed (rule registry_step_ok)

theorem registry_indexes_witness:
  "registry_ok (add_edge ''a'' ''b'' ''follows'' (add_edge ''a'' ''b'' ''follows'' new_registry)) \<and>
   edges_from (add_edge ''a'' ''b'' ''follows'' (add_edge ''a'' ''b'' ''follows'' new_registry)) ''a'' =
     [\<lparr>source_tool = ''a'', target_tool = ''b'', edge_type = ''follows''\<rparr>]"
proof
  show "registry_ok (add_edge ''a'' ''b'' ''follows'' (add_edge ''a'' ''b'' ''follows'' new_registry))"
    by (rule registry_indexes) (meson step_add_edge r_into_rtranclp rtranclp_trans)
qed code_simp

section \<open>What a session may use\<close>

text \<open>The tool sets a session can have: the one it starts with, and every one \<open>load_tools\<close> makes of it.\<close>

inductive session_has ::
  "registry \<Rightarrow> string list option \<Rightarrow> string option \<Rightarrow> tooled_agent \<Rightarrow> tool_deps \<Rightarrow> tool list \<Rightarrow> bool"
  for reg workers target tagent deps where
  has_initial: "session_tools reg workers target tagent deps = Inr ts \<Longrightarrow> session_has reg workers target tagent deps ts"
| has_loaded: "session_has reg workers target tagent deps ts \<Longrightarrow>
    load_tools (resolve_allow_list (ag_allow (fst tagent)) (full_metadata reg)) (build_and_wrap reg deps) names ts = Inr ts' \<Longrightarrow>
    session_has reg workers target tagent deps ts'"

text \<open>A tool the allow list accounts for: a stub that does nothing, a lifecycle tool, the loader, an allowed tool.\<close>

definition authorised :: "registry \<Rightarrow> tooled_agent \<Rightarrow> tool_deps \<Rightarrow> tool \<Rightarrow> bool" where
  "authorised reg tagent deps t \<longleftrightarrow>
     (let resolved = resolve_allow_list (ag_allow (fst tagent)) (full_metadata reg)
      in tl_impl t = DeferredStub \<or> (\<exists>sid. tl_impl t = LifecycleTool sid) \<or> tl_impl t = LoadTools resolved \<or>
         (\<exists>name \<in> set resolved. \<exists>entry. get_entry reg name = Some entry \<and> tl_impl t = tl_impl (te_factory entry deps)) \<or>
         ''git'' \<in> set resolved \<and> tl_impl t = GitTool (td_read_root deps) (git_subcommands resolved) (td_run_id deps) (td_task_id deps) \<or>
         ''consult'' \<in> set resolved \<and> (\<exists>names. tl_impl t = ConsultTool names) \<or>
         (\<exists>itd \<in> set (snd tagent). \<exists>b. inline_allowed (ag_allow (fst tagent)) resolved itd \<and> it_build itd = Some b \<and> tl_impl t = tl_impl (b deps)))"

lemma authorised_entry:
  "name \<in> set (resolve_allow_list (ag_allow (fst tagent)) (full_metadata reg)) \<Longrightarrow> get_entry reg name = Some entry \<Longrightarrow>
   tl_impl t = tl_impl (te_factory entry deps) \<Longrightarrow> authorised reg tagent deps t"
  by (auto simp: authorised_def Let_def)

lemma authorised_inline:
  "itd \<in> set (snd tagent) \<Longrightarrow> inline_allowed (ag_allow (fst tagent)) (resolve_allow_list (ag_allow (fst tagent)) (full_metadata reg)) itd \<Longrightarrow>
   it_build itd = Some b \<Longrightarrow> tl_impl t = tl_impl (b deps) \<Longrightarrow> authorised reg tagent deps t"
  by (auto simp: authorised_def Let_def)

lemma in_map_filter: "y \<in> set (List.map_filter f xs) \<longleftrightarrow> (\<exists>x \<in> set xs. f x = Some y)"
  by (induction xs) (auto simp: List.map_filter_simps split: option.splits)

lemma built_inline:
  "build_inline allow resolved deps inline = Inr ts \<Longrightarrow> t \<in> set ts \<Longrightarrow>
   \<exists>itd \<in> set inline. \<exists>b. inline_allowed allow resolved itd \<and> it_build itd = Some b \<and> t = b deps"
proof (induction inline arbitrary: ts)
  case (Cons itd rest)
  then show ?case by (cases "inline_allowed allow resolved itd") (fastforce simp: bind_res_Inr_iff split: option.splits)+
qed simp

lemma raw_tools_authorised:
  assumes "raw_session_tools reg tagent deps = Inr raw" "t \<in> set raw"
  shows "authorised reg tagent deps t"
proof -
  obtain ag inline where tagent: "tagent = (ag, inline)" by (cases tagent)
  define resolved where "resolved = resolve_allow_list (ag_allow ag) (full_metadata reg)"
  obtain its where its: "build_inline (ag_allow ag) resolved deps inline = Inr its"
      "t \<in> set (build_tools reg (filter (\<lambda>n. n \<notin> set (ag_deferred ag)) resolved) deps) \<union> set (deferred_stubs reg (ag_deferred ag)) \<union>
        set (git_tools resolved deps) \<union> {u. ''consult'' \<in> set resolved \<and> (\<exists>names. tl_impl u = ConsultTool names)} \<union> set its \<union>
        set (lifecycle_tools (td_session_id deps)) \<union> {made ''load_tools'' (LoadTools resolved)}"
    using assms
    by (auto simp: raw_session_tools_def build_agent_tools_def tagent resolved_def [symmetric] bind_res_Inr_iff Let_def
        consult_tools_def made_def split: if_splits)
  from its(2) consider (standard) "t \<in> set (build_tools reg (filter (\<lambda>n. n \<notin> set (ag_deferred ag)) resolved) deps)"
    | (stub) "t \<in> set (deferred_stubs reg (ag_deferred ag))" | (git) "t \<in> set (git_tools resolved deps)"
    | (consult) names where "''consult'' \<in> set resolved" "tl_impl t = ConsultTool names" | (inline) "t \<in> set its"
    | (lifecycle) "t \<in> set (lifecycle_tools (td_session_id deps))" | (loader) "t = made ''load_tools'' (LoadTools resolved)" by auto
  then show ?thesis
  proof cases
    case standard
    then obtain name entry where "name \<in> set resolved" "get_entry reg name = Some entry" "tl_impl t = tl_impl (te_factory entry deps)"
      by (auto simp: build_tools_def built_def in_map_filter)
    then show ?thesis by (intro authorised_entry) (auto simp: resolved_def tagent)
  next
    case inline
    from built_inline [OF its(1) this] obtain itd b
      where "itd \<in> set inline" "inline_allowed (ag_allow ag) resolved itd" "it_build itd = Some b" "t = b deps" by blast
    then show ?thesis by (intro authorised_inline [of itd]) (simp_all add: resolved_def tagent)
  qed (auto simp: authorised_def tagent resolved_def [symmetric] Let_def deferred_stubs_def in_map_filter git_tools_def made_def
      lifecycle_tools_def split: if_splits)
qed

lemma authorised_wraps [simp]:
  "authorised reg tagent deps (wrap_local t) = authorised reg tagent deps t"
  "authorised reg tagent deps (wrap_for_remote t) = authorised reg tagent deps t"
  by (simp_all add: authorised_def wrap_local_def wrap_for_remote_def)

lemma session_tools_raw:
  assumes "session_tools reg workers target tagent deps = Inr ts"
  obtains raw where "raw_session_tools reg tagent deps = Inr raw" "ts = map wrap_local raw \<or> ts = route_tools target raw"
  using assms by (cases target; cases workers) (auto simp: session_tools_def bind_res_Inr_iff split: if_splits)

lemma load_each_built:
  "load_each build current names = Inr ts \<Longrightarrow> t \<in> set ts \<Longrightarrow> \<exists>name \<in> set names. build name = Inr t"
  by (induction names arbitrary: ts) (fastforce simp: bind_res_Inr_iff split: if_splits)+

lemma load_tools_built:
  assumes "load_tools allowed build names ts = Inr ts'" "t \<in> set ts'"
  shows "t \<in> set ts \<or> (\<exists>name \<in> set allowed. build name = Inr t)"
  using assms load_each_built [of build ts names]
  by (fastforce simp: load_tools_def bind_res_Inr_iff list_ex_iff split: if_splits)

lemma session_has_authorised:
  assumes "session_has reg workers target tagent deps ts" "t \<in> set ts"
  shows "authorised reg tagent deps t"
  using assms
proof (induction arbitrary: t rule: session_has.induct)
  case (has_initial ts)
  from has_initial(1) obtain raw where "raw_session_tools reg tagent deps = Inr raw" "ts = map wrap_local raw \<or> ts = route_tools target raw"
    by (rule session_tools_raw)
  with has_initial(2) show ?case by (auto simp: route_tools_def raw_tools_authorised)
next
  case (has_loaded ts names ts')
  from load_tools_built [OF has_loaded(2,4)] show ?case
    using has_loaded(3) authorised_entry [of _ tagent reg] by (auto simp: build_and_wrap_def split: option.splits)
qed

text \<open>
  C13. An agent never has a tool its allow list does not account for, however often it calls \<open>load_tools\<close>: every tool of its
  session is a lifecycle tool, the loader itself, a stub that only raises, git or consult or a registered tool that
  the allow list resolves to, or an inline tool that passes the inline check; and a stub is replaced only by a tool of the allow list.
\<close>
theorem session_tools_authorised:
  assumes "session_has reg workers target tagent deps ts" "t \<in> set ts"
  shows "authorised reg tagent deps t"
  using assms by (rule session_has_authorised)

definition scoped_agent :: agent_def where
  "scoped_agent =
     \<lparr>ag_name = ''a'', ag_description = [], ag_prompt = [], ag_category = None, ag_provider = None, ag_model = None,
      ag_allow = [''edit'', ''grep''], ag_deferred = [''grep''], ag_budget = None, ag_write_paths = Some [''/repo/docs''], ag_timeout = None\<rparr>"

definition sample_deps :: tool_deps where
  "sample_deps = session_deps ''/repo'' 1 2 ''s'' ''t'' ''a''"

definition builtin_registry :: registry where
  "builtin_registry = (case create_builtin_registry of Inl e \<Rightarrow> new_registry | Inr reg \<Rightarrow> reg)"

lemma register_all_ok:
  "distinct (map te_name es) \<Longrightarrow> set (map te_name es) \<inter> set (dict_keys (reg_entries reg)) = {} \<Longrightarrow>
   register_all es reg = Inr (reg\<lparr>reg_entries := reg_entries reg @ map (\<lambda>e. (te_name e, e)) es\<rparr>)"
proof (induction es arbitrary: reg)
  case (Cons e es)
  have fresh: "dict_get (reg_entries reg) (te_name e) = None"
    using Cons.prems(2) by (auto simp: dict_get_def dict_keys_def map_of_eq_None_iff)
  have eq: "dict_set (te_name e) e (reg_entries reg) = reg_entries reg @ [(te_name e, e)]"
    using fresh by (simp add: dict_set_new)
  show ?case using Cons fresh by (simp add: register_def bind_res_def eq dict_keys_def)
qed simp

lemma add_edge_entries [simp]: "reg_entries (add_edge source target kind reg) = reg_entries reg"
  by (simp add: add_edge_def Let_def)

lemma builtin_names: "distinct (map te_name (read_entries @ write_entries @ io_entries))"
  by (simp add: read_entries_def write_entries_def io_entries_def entry_of_def)

lemma builtin_registry: "create_builtin_registry = Inr builtin_registry"
  and builtin_entries: "reg_entries builtin_registry = map (\<lambda>e. (te_name e, e)) (read_entries @ write_entries @ io_entries)"
  using register_all_ok [OF builtin_names, of new_registry]
  by (simp_all add: create_builtin_registry_def builtin_registry_def bind_res_def new_registry_def dict_keys_def seed_builtin_edges_def)

lemma get_builtin:
  "get_entry builtin_registry name = Some entry \<Longrightarrow> entry \<in> set (read_entries @ write_entries @ io_entries) \<and> te_name entry = name"
  unfolding get_entry_def builtin_entries dict_get_def by (auto dest!: map_of_SomeD)

lemma builtin_edit: "get_entry builtin_registry ''edit'' = Some (write_entries ! 1)"
  and builtin_grep: "get_entry builtin_registry ''grep'' = Some (read_entries ! 3)"
  unfolding get_entry_def builtin_entries
  by (simp_all add: dict_get_def read_entries_def write_entries_def io_entries_def entry_of_def)

lemma metadata_entry:
  "name \<notin> {''git'', ''consult''} \<Longrightarrow>
   dict_get (full_metadata reg) name = map_option (\<lambda>entry. (te_namespace entry, te_tags entry)) (get_entry reg name)"
proof -
  assume "name \<notin> {''git'', ''consult''}"
  then have "dict_get (full_metadata reg) name = dict_get (get_metadata reg) name"
    by (simp add: full_metadata_def SYNTHETIC_ENTRIES_def)
  moreover have "map_of (map (\<lambda>(n, e). (n, f e)) xs) name = map_option f (map_of xs name)" for f :: "tool_entry \<Rightarrow> string \<times> string list" and xs
    by (induction xs) auto
  ultimately show ?thesis by (simp add: get_metadata_def get_entry_def dict_get_def)
qed

lemma allow_by_name:
  "allow_entry table name = (if dict_get table name = None then [] else [name])"
  if "name \<noteq> ''*''" "\<not> startswith name ''#''" "\<not> endswith name ''.*''"
  using that by (simp add: allow_entry_def)

lemma resolve_sample: "resolve_allow_list [''edit'', ''grep''] (full_metadata builtin_registry) = [''edit'', ''grep'']"
proof -
  have "\<not> endswith ''edit'' ''.*''" "\<not> endswith ''grep'' ''.*''" by code_simp+
  then show ?thesis by (simp add: resolve_allow_list_def allow_by_name startswith_def metadata_entry builtin_edit builtin_grep)
qed

lemma sample_deps_session [simp]: "td_session_id sample_deps = ''s''"
  by (simp add: sample_deps_def session_deps_def)

definition sample_edit :: tool where
  "sample_edit = made ''edit'' (EditTool ''/repo'' None ''s'')"

lemma sample_session:
  obtains ts where "session_has builtin_registry None None (scoped_agent, []) sample_deps ts" "sample_edit \<in> set ts"
proof -
  let ?rest = "deferred_stubs builtin_registry [''grep''] @ lifecycle_tools ''s''"
  have edit: "build_tools builtin_registry [''edit''] sample_deps = [sample_edit\<lparr>tl_capabilities := [WRITE]\<rparr>]"
    by (simp add: build_tools_def List.map_filter_simps builtin_edit built_def write_entries_def entry_of_def made_def sample_deps_def
        session_deps_def sample_edit_def)
  have "build_agent_tools builtin_registry (scoped_agent, []) sample_deps = Inr ((sample_edit\<lparr>tl_capabilities := [WRITE]\<rparr>) # ?rest)"
    by (simp add: build_agent_tools_def scoped_agent_def resolve_sample edit git_tools_def consult_tools_def bind_res_def Let_def)
  then obtain ts where ts: "session_tools builtin_registry None None (scoped_agent, []) sample_deps = Inr (wrap_local (sample_edit\<lparr>tl_capabilities := [WRITE]\<rparr>) # ts)"
    by (simp add: session_tools_def raw_session_tools_def bind_res_def scoped_agent_def)
  show ?thesis by (rule that [OF has_initial [OF ts]]) (simp add: wrap_local_def sample_edit_def made_def)
qed

theorem session_tools_authorised_witness: "authorised builtin_registry (scoped_agent, []) sample_deps sample_edit"
proof -
  obtain ts where "session_has builtin_registry None None (scoped_agent, []) sample_deps ts" "sample_edit \<in> set ts" by (rule sample_session)
  then show ?thesis by (rule session_tools_authorised)
qed

text \<open>The scope a writing tool is confined to, of the tools that have one.\<close>

fun write_scope_of :: "tool_impl \<Rightarrow> string list option option" where
  "write_scope_of (WriteTool r scope sid) = Some scope"
| "write_scope_of (EditTool r scope sid) = Some scope"
| "write_scope_of (MultiEditTool r scope sid) = Some scope"
| "write_scope_of (MkdirTool r scope) = Some scope"
| "write_scope_of (MoveTool r scope sid) = Some scope"
| "write_scope_of (CopyTool r scope sid) = Some scope"
| "write_scope_of (DeleteTool r scope) = Some scope"
| "write_scope_of (SetExecutableTool r scope) = Some scope"
| "write_scope_of impl = None"

lemma builtin_scope:
  "get_entry builtin_registry name = Some entry \<Longrightarrow> write_scope_of (tl_impl (te_factory entry deps)) = Some scope \<Longrightarrow>
   scope = td_write_scope deps"
  using get_builtin [of name entry] by (auto simp: read_entries_def write_entries_def io_entries_def entry_of_def made_def)

lemma authorised_scope:
  assumes "authorised builtin_registry (ag, []) deps t" "write_scope_of (tl_impl t) = Some scope"
  shows "scope = td_write_scope deps"
  using assms builtin_scope [of _ _ deps scope] by (auto simp: authorised_def Let_def)

text \<open>
  The \<open>write_paths\<close> of an agent or a task do not restrict what its tools write: whatever the agent's definition says, every
  writing tool of every session is built with no write scope, so the path check accepts every path below the read root.
\<close>
theorem write_paths_not_enforced:
  assumes "create_builtin_registry = Inr reg"
    and "session_has reg workers target (ag, []) (session_deps read_root run_id task_id session_id name agent) ts"
    and "t \<in> set ts" and "write_scope_of (tl_impl t) = Some scope"
  shows "scope = None \<and> (permitted env read_root scope q \<longleftrightarrow> prefix (components read_root) (components q))"
proof -
  have "reg = builtin_registry" using assms(1) unfolding builtin_registry by simp
  then have "authorised builtin_registry (ag, []) (session_deps read_root run_id task_id session_id name agent) t"
    using session_has_authorised [OF assms(2,3)] by simp
  from authorised_scope [OF this assms(4)] show ?thesis by (simp add: session_deps_def permitted_def)
qed

theorem write_paths_not_enforced_witness:
  "ag_write_paths scoped_agent = Some [''/repo/docs''] \<and>
   (\<forall>env. permitted env ''/repo'' None ''/repo/src/main.py'' \<longleftrightarrow> prefix (components ''/repo'') (components ''/repo/src/main.py''))"
proof -
  obtain ts where "session_has builtin_registry None None (scoped_agent, []) (session_deps ''/repo'' 1 2 ''s'' ''t'' ''a'') ts" "sample_edit \<in> set ts"
    using sample_session unfolding sample_deps_def by blast
  from write_paths_not_enforced [OF builtin_registry this, of None _ "''/repo/src/main.py''"]
  show ?thesis by (simp add: sample_edit_def made_def scoped_agent_def)
qed

section \<open>Inline, deferred and remote tools\<close>

lemma explicit_resolved:
  assumes "list_all (\<lambda>e. e \<noteq> ''*'' \<and> \<not> startswith e ''#'' \<and> \<not> endswith e ''.*'') allow"
  shows "n \<in> set (resolve_allow_list allow table) \<longleftrightarrow> n \<in> set allow \<and> dict_get table n \<noteq> None"
  using assms by (induction allow) (auto simp: resolve_allow_list_def allow_by_name)

lemma build_inline_none:
  assumes "list_all (\<lambda>itd. it_valid itd = Inr () \<and> \<not> inline_allowed allow resolved itd) inline"
  shows "build_inline allow resolved deps inline = Inr []"
  using assms by (induction inline) (auto simp: bind_res_def)

text \<open>
  An allow list that names an inline tool is accepted at start-up, but the tool is never built: when the allow list has
  only explicit names and no inline tool shares its name with a registered one, no inline tool of the agent reaches its session,
  although each of the names is valid.
\<close>
theorem inline_by_name_dropped:
  assumes "list_all (\<lambda>e. e \<noteq> ''*'' \<and> \<not> startswith e ''#'' \<and> \<not> endswith e ''.*'') (ag_allow ag)"
    and "list_all (\<lambda>itd. it_valid itd = Inr () \<and> dict_get (full_metadata reg) (it_name itd) = None) inline"
    and "(agent, ag, inline) \<in> set agents" and "itd \<in> set inline" and "it_name itd \<in> set (ag_allow ag)"
  shows "\<not> bad_entry agents reg (it_name itd) \<and> build_agent_tools reg (ag, inline) deps = build_agent_tools reg (ag, []) deps"
proof
  have "it_name itd \<in> set (known_names agents reg)" using assms(3,4) by (force simp: known_names_def)
  then show "\<not> bad_entry agents reg (it_name itd)" using assms(1,5) by (auto simp: bad_entry_def list_all_iff)
  let ?resolved = "resolve_allow_list (ag_allow ag) (full_metadata reg)"
  have "\<not> inline_allowed (ag_allow ag) ?resolved i" if "i \<in> set inline" for i
    using assms(1,2) that explicit_resolved [OF assms(1)] by (auto simp: inline_allowed_def list_all_iff list_ex_iff)
  then have "build_inline (ag_allow ag) ?resolved deps inline = Inr []"
    using assms(2) by (intro build_inline_none) (auto simp: list_all_iff)
  then show "build_agent_tools reg (ag, inline) deps = build_agent_tools reg (ag, []) deps"
    by (simp add: build_agent_tools_def Let_def)
qed

definition inline_agent :: agent_def where
  "inline_agent = scoped_agent\<lparr>ag_allow := [''pytest''], ag_deferred := []\<rparr>"

definition sample_inline :: inline_tool where
  "sample_inline = \<lparr>it_name = ''pytest'', it_namespace = ''custom'', it_tags = None, it_valid = Inr (), it_build = Some (\<lambda>deps. made ''pytest'' (CustomTool 0 deps))\<rparr>"

theorem inline_by_name_dropped_witness:
  "validate_allow_lists [(''a'', inline_agent, [sample_inline])] new_registry = Inr () \<and>
   build_agent_tools new_registry (inline_agent, [sample_inline]) sample_deps = build_agent_tools new_registry (inline_agent, []) sample_deps"
proof
  show "validate_allow_lists [(''a'', inline_agent, [sample_inline])] new_registry = Inr ()" by code_simp
  have "list_all (\<lambda>e. e \<noteq> ''*'' \<and> \<not> startswith e ''#'' \<and> \<not> endswith e ''.*'') (ag_allow inline_agent)"
    "list_all (\<lambda>itd. it_valid itd = Inr () \<and> dict_get (full_metadata new_registry) (it_name itd) = None) [sample_inline]"
    "it_name sample_inline \<in> set (ag_allow inline_agent)" by code_simp+
  from inline_by_name_dropped [OF this(1,2) _ _ this(3), of "''a''" "[(''a'', inline_agent, [sample_inline])]" sample_deps]
  show "build_agent_tools new_registry (inline_agent, [sample_inline]) sample_deps = build_agent_tools new_registry (inline_agent, []) sample_deps"
    by simp
qed

text \<open>
  A deferred tool outside the allow list passes validation and appears in the session, but can never be used: its stub
  is among the tools, the stub only raises, and \<open>load_tools\<close> refuses every request that names it.
\<close>
theorem deferred_outside_allow:
  assumes "validate_allow_lists agents reg = Inr ()" and "(agent, ag, inline) \<in> set agents"
    and "d \<in> set (ag_deferred ag)" and "d \<notin> set (resolve_allow_list (ag_allow ag) (full_metadata reg))"
    and "build_agent_tools reg (ag, inline) deps = Inr raw" and "d \<in> set names"
  shows "(\<exists>t \<in> set raw. tl_name t = d \<and> tl_impl t = DeferredStub) \<and>
    load_tools (resolve_allow_list (ag_allow ag) (full_metadata reg)) build names current = Inl ToolError"
proof
  have bad: "first_bad p xs = Inr () \<longleftrightarrow> list_all (\<lambda>x. \<not> p x) xs" for p and xs :: "string list"
    by (induction xs) auto
  have each: "list_all (\<lambda>d. get_entry reg d \<noteq> None) (ag_deferred ag)"
    if "validate_agents all reg as = Inr ()" "(agent, ag, inline) \<in> set as" for all as
    using that by (induction as) (auto simp: bind_res_Inr_iff bad)
  obtain entry where "get_entry reg d = Some entry"
    using each [of agents agents] assms(1-3) by (auto simp: validate_allow_lists_def list_all_iff)
  then have "\<lparr>tl_name = d, tl_impl = DeferredStub, tl_deferred = True, tl_location = te_location entry,
      tl_capabilities = te_capabilities entry, tl_remote = False\<rparr> \<in> set (deferred_stubs reg (ag_deferred ag))"
    using assms(3) by (auto simp: deferred_stubs_def in_map_filter)
  then have "\<exists>t \<in> set (deferred_stubs reg (ag_deferred ag)). tl_name t = d \<and> tl_impl t = DeferredStub" by force
  then show "\<exists>t \<in> set raw. tl_name t = d \<and> tl_impl t = DeferredStub"
    using assms(5) by (auto simp: build_agent_tools_def Let_def bind_res_Inr_iff)
  show "load_tools (resolve_allow_list (ag_allow ag) (full_metadata reg)) build names current = Inl ToolError"
    using assms(4,6) by (auto simp: load_tools_def list_ex_iff)
qed

definition unlisted_agent :: agent_def where
  "unlisted_agent = scoped_agent\<lparr>ag_allow := [''edit'']\<rparr>"

lemma validate_unlisted: "validate_allow_lists [(''a'', unlisted_agent, [])] builtin_registry = Inr ()"
proof -
  have "\<not> endswith ''edit'' ''.*''" by code_simp
  moreover have "''edit'' \<in> set (dict_keys (full_metadata builtin_registry))"
    using metadata_entry [of "''edit''" builtin_registry] by (simp add: builtin_edit dict_get_keys)
  ultimately show ?thesis
    by (simp add: validate_allow_lists_def unlisted_agent_def scoped_agent_def builtin_grep bad_entry_def known_names_def startswith_def bind_res_def)
qed

theorem deferred_outside_allow_witness:
  "load_tools (resolve_allow_list (ag_allow unlisted_agent) (full_metadata builtin_registry)) (build_and_wrap builtin_registry sample_deps) [''grep''] [] =
   Inl ToolError"
proof -
  have "\<not> endswith ''edit'' ''.*''" by code_simp
  then have resolved: "resolve_allow_list (ag_allow unlisted_agent) (full_metadata builtin_registry) = [''edit'']"
    by (simp add: unlisted_agent_def resolve_allow_list_def allow_by_name startswith_def metadata_entry builtin_edit)
  obtain raw where raw: "build_agent_tools builtin_registry (unlisted_agent, []) sample_deps = Inr raw"
    by (simp add: build_agent_tools_def Let_def bind_res_def)
  from deferred_outside_allow [OF validate_unlisted _ _ _ raw, of "''a''" "''grep''" "[''grep'']"] resolved
  show ?thesis by (simp add: unlisted_agent_def scoped_agent_def)
qed

text \<open>
  Routing to a worker: with an execution target, a session exists only if a worker is registered for it; then exactly
  the tools that may run anywhere are wrapped for the worker, and every other tool, the lifecycle tools among them, stays
  in the brain's process. A deferred tool that \<open>load_tools\<close> builds later always runs in the brain's process, whatever its location.
\<close>
theorem worker_routing:
  assumes "session_tools reg (Some roots) (Some root_dir) tagent deps = Inr ts" and "raw_session_tools reg tagent deps = Inr raw"
  shows "root_dir \<in> set roots \<and>
    {t \<in> set ts. tl_remote t} = wrap_for_remote ` {r \<in> set raw. tl_location r = ANYWHERE} \<and>
    {t \<in> set ts. \<not> tl_remote t} = wrap_local ` {r \<in> set raw. tl_location r = LOCAL} \<and>
    wrap_local ` set (lifecycle_tools (td_session_id deps)) \<subseteq> set ts \<and>
    (\<forall>name t. build_and_wrap reg deps name = Inr t \<longrightarrow> \<not> tl_remote t)"
proof -
  have ts: "root_dir \<in> set roots" "ts = route_tools (Some root_dir) raw"
    using assms by (auto simp: session_tools_def bind_res_def split: if_splits)
  have set_ts: "set ts = wrap_local ` {r \<in> set raw. tl_location r = LOCAL} \<union> wrap_for_remote ` {r \<in> set raw. tl_location r = ANYWHERE}"
    unfolding ts(2) route_tools_def should_route_to_worker_def by (auto intro: tool_location.exhaust)
  have "set (lifecycle_tools (td_session_id deps)) \<subseteq> {r \<in> set raw. tl_location r = LOCAL}"
    using assms(2) by (auto simp: raw_session_tools_def build_agent_tools_def Let_def bind_res_Inr_iff lifecycle_tools_def split: prod.splits if_splits)
  then have "wrap_local ` set (lifecycle_tools (td_session_id deps)) \<subseteq> set ts" unfolding set_ts by blast
  moreover have "{t \<in> set ts. tl_remote t} = wrap_for_remote ` {r \<in> set raw. tl_location r = ANYWHERE}"
    "{t \<in> set ts. \<not> tl_remote t} = wrap_local ` {r \<in> set raw. tl_location r = LOCAL}"
    unfolding set_ts by (auto simp: wrap_local_def wrap_for_remote_def)
  ultimately show ?thesis using ts(1) by (auto simp: build_and_wrap_def wrap_local_def split: option.splits)
qed

theorem worker_routing_witness:
  "\<exists>ts. session_tools new_registry (Some [''/w'']) (Some ''/w'') (inline_agent, []) sample_deps = Inr ts \<and>
     wrap_local ` set (lifecycle_tools ''s'') \<subseteq> set ts"
proof -
  obtain raw where raw: "raw_session_tools new_registry (inline_agent, []) sample_deps = Inr raw"
    by (simp add: raw_session_tools_def build_agent_tools_def Let_def bind_res_def)
  then obtain ts where ts: "session_tools new_registry (Some [''/w'']) (Some ''/w'') (inline_agent, []) sample_deps = Inr ts"
    by (simp add: session_tools_def bind_res_def)
  with worker_routing [OF ts raw] show ?thesis by auto
qed

end
