(* ===== verification/Agent_Loop.thy ===== *)
theory Agent_Loop
  imports Workflow Tool_Registry
begin

text \<open>
  The execution of a task by an agent (\<open>scheduler/_agent_execution.py\<close>): sessions and the model they use, the attempts of a
  task with retry, timeout, cost and output validation, escalation, the context window, orchestrator tasks, and the
  choice of files of the automatic commit.

  Sessions are outside code. A session is known by the identifier its transport gives it, its token counters are in
  \<open>s_session_usage\<close>, and sending a message runs the agent, which may call the lifecycle tools and so change the
  whole scheduler; it may also raise or never return. Closing a session only drains its sinks and is left out.
\<close>

section \<open>Surroundings\<close>

record session_env =
  sx_read_root :: string
  sx_registry :: registry
  sx_inline :: "string \<Rightarrow> inline_tool list"
  sx_transports :: "string list"
  sx_workers :: "string list option"
  sx_open :: "string \<Rightarrow> string \<Rightarrow> string \<Rightarrow> tool list \<Rightarrow> string option \<Rightarrow> string op"
  sx_send :: "int option \<Rightarrow> string \<Rightarrow> string \<Rightarrow> string list run"
  sx_turn :: "string \<Rightarrow> string \<Rightarrow> (string option \<times> string list) run"
  sx_resume :: "string \<Rightarrow> string \<Rightarrow> (string option \<times> string list) run"
  sx_pre_retry :: "string \<Rightarrow> string \<Rightarrow> task_context \<Rightarrow> prior_attempt list \<Rightarrow> unit op"
  sx_refresh_constraints :: "(string \<times> string) list op option"
  sx_refresh_lessons :: "lesson list op option"
  sx_refresh_notepad :: "notepad_row list op option"
  sx_refine :: refiner
  sx_diff :: "string \<Rightarrow> string \<Rightarrow> string"
  sx_context_limit :: int
  sx_percent :: "int \<Rightarrow> json"
  sx_loads :: "string \<Rightarrow> string + json"
  sx_conforms :: "json \<Rightarrow> json \<Rightarrow> string option"
  sx_class :: "exn \<Rightarrow> error_class"
  sx_text :: "exn \<Rightarrow> string"
  sx_type_name :: "exn \<Rightarrow> string"
  sx_duration :: "uuid \<Rightarrow> sched \<Rightarrow> seconds"
  sx_escalated :: "uuid \<Rightarrow> string \<Rightarrow> int \<Rightarrow> check_result list \<Rightarrow> unit op"

definition no_usage :: usage where
  "no_usage = \<lparr>input_tokens = 0, output_tokens = 0, reasoning_tokens = 0, cache_read_tokens = 0, cache_write_tokens = 0\<rparr>"

definition session_usage :: "string \<Rightarrow> sched \<Rightarrow> usage" where
  "session_usage session s = (case dict_get (s_session_usage s) session of None \<Rightarrow> no_usage | Some u \<Rightarrow> u)"

definition usage_since :: "usage \<Rightarrow> usage \<Rightarrow> usage" where
  "usage_since snap u =
     \<lparr>input_tokens = input_tokens u - input_tokens snap, output_tokens = output_tokens u - output_tokens snap,
      reasoning_tokens = reasoning_tokens u - reasoning_tokens snap, cache_read_tokens = cache_read_tokens u - cache_read_tokens snap,
      cache_write_tokens = cache_write_tokens u - cache_write_tokens snap\<rparr>"

section \<open>Sessions\<close>

text \<open>\<open>resolved.split("/", 1)\<close> unpacked into two names: \<open>ValueError\<close> without a slash.\<close>

definition split_model :: "string \<Rightarrow> (string \<times> string) result" where
  "split_model resolved =
     (if CHR ''/'' \<in> set resolved
      then Inr (takeWhile (\<lambda>ch. ch \<noteq> CHR ''/'') resolved, tl (dropWhile (\<lambda>ch. ch \<noteq> CHR ''/'') resolved))
      else Inl ValueError)"

definition resolve_model :: "config \<Rightarrow> task_spec \<Rightarrow> agent_def \<Rightarrow> (string \<times> string) result" where
  "resolve_model c task agent =
     (case (ag_provider agent, ag_model agent) of
        (Some provider, Some model) \<Rightarrow> Inr (provider, model)
      | _ \<Rightarrow>
          (case (if truthy (ts_category (spec_fields task)) then ts_category (spec_fields task) else ag_category agent) of
             None \<Rightarrow> Inl ValueError
           | Some category \<Rightarrow>
               (case dict_get (c_categories c) category of None \<Rightarrow> Inl ValueError | Some resolved \<Rightarrow> split_model resolved)))"

definition session_name :: "uuid \<Rightarrow> nat \<Rightarrow> string" where
  "session_name task_id attempt = ''session-'' @ uuid_str task_id @ ''-'' @ nat_str attempt"

definition previous_session :: "task_spec \<Rightarrow> uuid \<Rightarrow> nat \<Rightarrow> sched \<Rightarrow> string option" where
  "previous_session task task_id attempt s =
     (if attempt > 1 \<and> ts_retry_resume (spec_fields task) = Some True then dict_get (s_task_sessions s) task_id else None)"

text \<open>\<open>_create_agent_session\<close>: the transport's session and the scheduler's name for it.\<close>

definition create_agent_session :: "config \<Rightarrow> session_env \<Rightarrow> task_spec \<Rightarrow> uuid \<Rightarrow> nat \<Rightarrow> (string \<times> string) op" where
  "create_agent_session c sx task task_id attempt s =
     (case ts_agent (spec_fields task) of
        None \<Rightarrow> raiseS ValueError s
      | Some name \<Rightarrow>
          (case dict_get (c_agents c) name of
             None \<Rightarrow> raiseS ValueError s
           | Some agent \<Rightarrow>
               (case resolve_model c task agent of
                  Inl e \<Rightarrow> raiseS e s
                | Inr (provider, model) \<Rightarrow>
                    if provider \<notin> set (sx_transports sx) then raiseS ValueError s
                    else (let sid = session_name task_id attempt;
                              deps = session_deps (sx_read_root sx) (c_run_id c) task_id sid (task_name task) name
                          in case session_tools (sx_registry sx) (sx_workers sx) (ts_execution_target (spec_fields task))
                                    (agent, sx_inline sx name) deps of
                               Inl e \<Rightarrow> raiseS e s
                             | Inr tools \<Rightarrow>
                                 bindS (sx_open sx provider model (ag_prompt agent) tools (previous_session task task_id attempt s))
                                   (\<lambda>session. returnS (session, sid)) s))))"

definition refresh :: "'a op option \<Rightarrow> ('a \<Rightarrow> sched \<Rightarrow> sched) \<Rightarrow> unit op" where
  "refresh callback store = (case callback of None \<Rightarrow> returnS () | Some f \<Rightarrow> bindS f (\<lambda>x. modifyS (store x)))"

definition refresh_injection_data :: "session_env \<Rightarrow> unit op" where
  "refresh_injection_data sx =
     bindS (refresh (sx_refresh_constraints sx) (\<lambda>x s. s\<lparr>s_active_constraints := x\<rparr>)) (\<lambda>_.
       bindS (refresh (sx_refresh_lessons sx) (\<lambda>x s. s\<lparr>s_lessons := x\<rparr>)) (\<lambda>_.
         refresh (sx_refresh_notepad sx) (\<lambda>x s. s\<lparr>s_notepad := x\<rparr>)))"

section \<open>The context window\<close>

text \<open>
  Usage is the quotient of the tokens by the limit, 0 for a limit that is not positive. Against the
  thresholds 0.8 and 0.9 the comparison of Python's floats and of the exact fractions agree for every limit below \<open>10^15\<close>.
\<close>

definition compute_context_usage :: "session_env \<Rightarrow> string \<Rightarrow> sched \<Rightarrow> int \<times> rat" where
  "compute_context_usage sx session s =
     (let tokens = input_tokens (session_usage session s) + output_tokens (session_usage session s)
      in (tokens, if sx_context_limit sx \<le> 0 then 0 else of_int tokens / of_int (sx_context_limit sx)))"

definition context_warning :: "config \<Rightarrow> session_env \<Rightarrow> string \<Rightarrow> uuid \<Rightarrow> int \<Rightarrow> string \<Rightarrow> sched \<Rightarrow> sched" where
  "context_warning c sx sid task_id tokens action s =
     s\<lparr>s_db := snd (write_event (c_ids c (s_tick s)) (c_clock c (s_tick s)) (Some (c_run_id c)) ''context_warning''
         [(''session_id'', JStr sid), (''task_id'', JStr (uuid_str task_id)), (''usage_percent'', sx_percent sx tokens),
          (''tokens_used'', JInt tokens), (''context_limit'', JInt (sx_context_limit sx)), (''action'', JStr action)]
         (Some task_id) (c_principal c) None (s_db s)), s_tick := Suc (s_tick s)\<rparr>"

definition agent_handoff :: "config \<Rightarrow> session_env \<Rightarrow> int option \<Rightarrow> string \<Rightarrow> uuid \<Rightarrow> unit run" where
  "agent_handoff c sx timeout session task_id =
     bindR (sx_send sx timeout session (load_template ''handoff_request'')) (\<lambda>texts s.
       (let summary = (if concat texts = [] then ''Previous conversation context was lost.'' else concat texts)
        in case dict_get (s_task_specs s) task_id of
             None \<Rightarrow> returnR () s
           | Some task \<Rightarrow>
               bindR (liftR (create_agent_session c sx task task_id 1)) (\<lambda>(new_session, _).
                 case render_template ''handoff_resume'' [(''summary'', summary)] of
                   Inl e \<Rightarrow> liftR (raiseS e)
                 | Inr msg \<Rightarrow>
                     bindR (sx_send sx timeout new_session msg)
                       (\<lambda>_. liftR (modifyS (\<lambda>s. s\<lparr>s_task_sessions := dict_set task_id new_session (s_task_sessions s)\<rparr>)))) s))"

definition check_agent_context :: "config \<Rightarrow> session_env \<Rightarrow> int option \<Rightarrow> string \<Rightarrow> string \<Rightarrow> uuid \<Rightarrow> unit run" where
  "check_agent_context c sx timeout session sid task_id s =
     (let (tokens, used) = compute_context_usage sx session s
      in if used \<ge> 9 / 10 then agent_handoff c sx timeout session task_id (context_warning c sx sid task_id tokens ''handoff'' s)
         else if used \<ge> 4 / 5 then returnR () (context_warning c sx sid task_id tokens ''warning'' s)
         else returnR () s)"

text \<open>
  \<open>_run_session\<close>. The deadline of \<open>asyncio.wait_for\<close> is handed to every message: the in-memory trace never suspends, so
  only the sends can be cancelled, and the cancellation surfaces as \<open>TimeoutError\<close>.
\<close>

definition run_session :: "config \<Rightarrow> session_env \<Rightarrow> int option \<Rightarrow> string \<Rightarrow> string \<Rightarrow> string \<Rightarrow> uuid \<Rightarrow> unit run" where
  "run_session c sx timeout session prompt sid task_id =
     bindR (sx_send sx timeout session prompt) (\<lambda>_. check_agent_context c sx timeout session sid task_id)"

section \<open>Attempts\<close>

definition task_cost :: "uuid \<Rightarrow> sched \<Rightarrow> decimal" where
  "task_cost task_id s = (case dict_get (s_task_costs s) task_id of None \<Rightarrow> 0 | Some d \<Rightarrow> d)"

definition complete_attempt :: "session_env \<Rightarrow> uuid \<Rightarrow> string \<Rightarrow> string \<Rightarrow> bool \<Rightarrow> uuid \<Rightarrow> unit op" where
  "complete_attempt sx attempt_id session result_text ok task_id s =
     (let u = session_usage session s
      in case complete_task_attempt attempt_id result_text None None (Some (if ok then ''pass'' else ''fail'')) None
                (input_tokens u) (output_tokens u) (reasoning_tokens u) (cache_read_tokens u) (cache_write_tokens u)
                (task_cost task_id s) (sx_duration sx task_id s) (s_db s) of
           Inl e \<Rightarrow> (Inl e, s)
         | Inr db \<Rightarrow> (Inr (), s\<lparr>s_db := db\<rparr>))"

definition fail_attempt_timeout :: "config \<Rightarrow> session_env \<Rightarrow> uuid \<Rightarrow> string \<Rightarrow> uuid \<Rightarrow> unit op" where
  "fail_attempt_timeout c sx attempt_id session task_id s =
     (let u = session_usage session s
      in case fail_task_attempt attempt_id ''Task timed out'' None (input_tokens u) (output_tokens u) (reasoning_tokens u)
                (cache_read_tokens u) (cache_write_tokens u) (task_cost task_id s) (sx_duration sx task_id s) (s_db s) of
           Inl e \<Rightarrow> (Inl e, s)
         | Inr db \<Rightarrow> move_task c task_id ''cancelled'' (s\<lparr>s_db := db\<rparr>))"

definition validate_output_schema :: "session_env \<Rightarrow> string option \<Rightarrow> string \<Rightarrow> check_result" where
  "validate_output_schema sx out schema =
     (case out of
        None \<Rightarrow> failed ''No output to validate against schema'' None
      | Some txt \<Rightarrow>
          (case sx_loads sx txt of
             Inl m \<Rightarrow> failed (''Output is not valid JSON: '' @ m) None
           | Inr parsed \<Rightarrow>
               (case sx_loads sx schema of
                  Inl m \<Rightarrow> failed (''Output schema is not valid JSON: '' @ m) None
                | Inr sch \<Rightarrow>
                    (case sx_conforms sx parsed sch of
                       Some m \<Rightarrow> failed (''Output validation failed: '' @ m) None
                     | None \<Rightarrow> ok_result ''Output validated''))))"

definition category_name :: "error_category \<Rightarrow> string" where
  "category_name k =
     (case k of INFRA \<Rightarrow> ''infra'' | CONTEXT_LIMIT \<Rightarrow> ''context_limit'' | PARSE \<Rightarrow> ''parse'' | FLAKY \<Rightarrow> ''flaky''
      | BUILD_ENV \<Rightarrow> ''build_env'' | LOGIC \<Rightarrow> ''logic'' | UNCLASSIFIED \<Rightarrow> ''unclassified'')"

definition effective_timeout :: "config \<Rightarrow> task_spec \<Rightarrow> int option" where
  "effective_timeout c task =
     (case ts_timeout (spec_fields task) of
        Some t \<Rightarrow> Some t
      | None \<Rightarrow> if truthy (ts_agent (spec_fields task))
                then Option.bind (Option.bind (ts_agent (spec_fields task)) (dict_get (c_agents c))) ag_timeout else None)"

text \<open>
  What an attempt leads to: the task's result, or another attempt (unless it was the last) with the
  failed checks and the error to remember. \<open>None\<close> for the checks keeps those of an earlier attempt.
\<close>

datatype attempt_end = Finished task_result | Failed "check_result list option" string

definition check_failed :: "string \<Rightarrow> task_result" where
  "check_failed m = check_outcome [failed m None]"

text \<open>The session ended: the task is completed and its output is validated, or it is in some other state; before that, cost and budget events.\<close>

definition completed_output :: "task_spec \<Rightarrow> uuid \<Rightarrow> sched \<Rightarrow> string option" where
  "completed_output task task_id s =
     Option.bind (dict_get (scoped (s_task_outputs s) (Option.bind (dict_get (s_task_parents s) task_id) id)) (task_name task)) id"

definition output_check :: "session_env \<Rightarrow> task_spec \<Rightarrow> string option \<Rightarrow> check_result" where
  "output_check sx task out =
     (case ts_output_schema (spec_fields task) of None \<Rightarrow> ok_result [] | Some schema \<Rightarrow> validate_output_schema sx out schema)"

definition attempt_completed :: "session_env \<Rightarrow> task_spec \<Rightarrow> uuid \<Rightarrow> uuid \<Rightarrow> string \<Rightarrow> attempt_end op" where
  "attempt_completed sx task task_id attempt_id session s =
     (let result_text = completed_output task task_id s; validation = output_check sx task result_text
      in if \<not> passed validation
         then bindS (complete_attempt sx attempt_id session [] False task_id)
                (\<lambda>_. returnS (Failed (Some [validation]) (''Output validation: '' @ message validation))) s
         else bindS (complete_attempt sx attempt_id session (case result_text of None \<Rightarrow> [] | Some t \<Rightarrow> t) True task_id)
                (\<lambda>_. returnS (Finished \<lparr>tr_output = result_text, tr_structured = None, tr_checks = [ok_result ''Task completed'']\<rparr>)) s)"

definition attempt_unfinished :: "session_env \<Rightarrow> uuid \<Rightarrow> uuid \<Rightarrow> string \<Rightarrow> string \<Rightarrow> attempt_end op" where
  "attempt_unfinished sx task_id attempt_id session state =
     bindS (complete_attempt sx attempt_id session [] False task_id) (\<lambda>_. returnS
       (if state = ''postcheck_failed'' then Failed (Some [failed ''Postchecks failed'' None]) ''Postchecks failed''
        else if state = ''precheck_failed'' then Failed (Some [failed ''Prechecks failed'' None]) ''Prechecks failed''
        else Failed None (''Session ended in state '' @ state)))"

definition session_ended :: "config \<Rightarrow> session_env \<Rightarrow> task_spec \<Rightarrow> uuid \<Rightarrow> uuid \<Rightarrow> string \<Rightarrow> usage \<Rightarrow> attempt_end op" where
  "session_ended c sx task task_id attempt_id session snap s =
     bindS (accumulate_cost c task_id task (usage_since snap (session_usage session s))) (\<lambda>_.
       bindS (modifyS (snd \<circ> send_budget_events task_id)) (\<lambda>_ s1.
         (case dict_get (s_task_states s1) task_id of
            None \<Rightarrow> raiseS KeyError s1
          | Some state \<Rightarrow>
              if state = ''completed'' then attempt_completed sx task task_id attempt_id session s1
              else attempt_unfinished sx task_id attempt_id session state s1))) s"

text \<open>The session crashed: the error is recorded as an event and the attempt as failed.\<close>

definition session_crashed :: "config \<Rightarrow> session_env \<Rightarrow> uuid \<Rightarrow> uuid \<Rightarrow> string \<Rightarrow> exn \<Rightarrow> attempt_end op" where
  "session_crashed c sx task_id attempt_id session e s =
     (let category = category_name (classify_error (sx_class sx e));
          msg = ''['' @ category @ ''] '' @ sx_text sx e;
          s1 = s\<lparr>s_db := snd (write_event (c_ids c (s_tick s)) (c_clock c (s_tick s)) (Some (c_run_id c)) ''task_error''
                   [(''task_id'', JStr (uuid_str task_id)), (''error'', JStr (sx_text sx e)), (''error_type'', JStr (sx_type_name sx e)),
                    (''category'', JStr category)] (Some task_id) (c_principal c) None (s_db s)), s_tick := Suc (s_tick s)\<rparr>
      in bindS (complete_attempt sx attempt_id session [] False task_id) (\<lambda>_. returnS (Failed (Some [failed msg None]) msg)) s1)"

definition open_session :: "config \<Rightarrow> session_env \<Rightarrow> task_spec \<Rightarrow> uuid \<Rightarrow> nat \<Rightarrow> (string \<times> string) op" where
  "open_session c sx task task_id attempt =
     bindS (create_agent_session c sx task task_id attempt) (\<lambda>(session, sid).
       bindS (modifyS (\<lambda>s. s\<lparr>s_task_sessions := dict_set task_id session (s_task_sessions s),
                             s_session_mutations := dict_set sid [] (s_session_mutations s)\<rparr>))
         (\<lambda>_. bindS (refresh_injection_data sx) (\<lambda>_. returnS (session, sid))))"

definition session_outcome ::
  "config \<Rightarrow> session_env \<Rightarrow> task_spec \<Rightarrow> uuid \<Rightarrow> uuid \<Rightarrow> string \<Rightarrow> usage \<Rightarrow> unit result \<Rightarrow> attempt_end op" where
  "session_outcome c sx task task_id attempt_id session snap r =
     (case r of
        Inr _ \<Rightarrow> session_ended c sx task task_id attempt_id session snap
      | Inl e \<Rightarrow>
          if e = TimeoutError
          then bindS (fail_attempt_timeout c sx attempt_id session task_id) (\<lambda>_. returnS (Finished (check_failed ''Task timed out'')))
          else if except_Exception e then session_crashed c sx task_id attempt_id session e
          else raiseS e)"

definition run_attempt ::
  "config \<Rightarrow> session_env \<Rightarrow> task_spec \<Rightarrow> uuid \<Rightarrow> jobj option \<Rightarrow> nat \<Rightarrow> uuid \<Rightarrow> prior_attempt list \<Rightarrow> attempt_end run" where
  "run_attempt c sx task task_id variables attempt attempt_id prior =
     bindR (liftR (open_session c sx task task_id attempt)) (\<lambda>(session, sid).
       bindR (liftR (assemble_agent_prompt c (sx_refine sx) (sx_diff sx) task task_id variables attempt attempt_id prior)) (\<lambda>prompt s.
         map_option (\<lambda>(r, s'). session_outcome c sx task task_id attempt_id session (session_usage session s) r s')
           (run_session c sx (effective_timeout c task) session prompt sid task_id s)))"

definition start_attempt :: "config \<Rightarrow> uuid \<Rightarrow> nat \<Rightarrow> uuid op" where
  "start_attempt c task_id attempt s =
     (let (attempt_id, db) = create_task_attempt (c_ids c (s_tick s)) task_id (int attempt) (s_db s)
      in (Inr attempt_id, s\<lparr>s_db := db, s_tick := Suc (s_tick s)\<rparr>))"

text \<open>The callback before a retry; any \<open>Exception\<close> of it, also of an ill-formed path, ends the task.\<close>

definition call_pre_retry ::
  "session_env \<Rightarrow> task_spec \<Rightarrow> uuid \<Rightarrow> uuid option \<Rightarrow> jobj option \<Rightarrow> nat \<Rightarrow> prior_attempt list \<Rightarrow> unit op" where
  "call_pre_retry sx task task_id parent_id variables attempt prior =
     (case ts_pre_retry (spec_fields task) of
        Some path \<Rightarrow>
          if attempt > 1
          then (case split_on CHR '':'' path of
                  [module_path, func_name] \<Rightarrow>
                    sx_pre_retry sx module_path func_name ((task_context task task_id parent_id variables)\<lparr>tc_attempt := attempt\<rparr>) prior
                | _ \<Rightarrow> raiseS ValueError)
          else returnS ()
      | None \<Rightarrow> returnS ())"

section \<open>Escalation\<close>

definition failed_messages :: "check_result list \<Rightarrow> string" where
  "failed_messages rs = py_repr (JArr (map (JStr \<circ> message) (filter (\<lambda>r. \<not> passed r) rs)))"

text \<open>To the session of the parent when the parent is active, else to the Overseer.\<close>

definition notify_escalation :: "session_env \<Rightarrow> task_spec \<Rightarrow> uuid \<Rightarrow> uuid option \<Rightarrow> int \<Rightarrow> check_result list \<Rightarrow> unit run" where
  "notify_escalation sx task task_id parent_id max_attempts rs s =
     (case Option.bind parent_id (dict_get (s_task_sessions s)) of
        Some session \<Rightarrow>
          if Option.bind parent_id (dict_get (s_task_states s)) = Some ''active''
          then (case render_template ''escalation_to_parent''
                      [(''task_name'', task_name task), (''max_attempts'', int_str max_attempts), (''failed_checks'', failed_messages rs)] of
                  Inl e \<Rightarrow> liftR (raiseS e) s
                | Inr msg \<Rightarrow> bindR (sx_send sx None session msg) (\<lambda>_. returnR ()) s)
          else liftR (sx_escalated sx task_id (task_name task) max_attempts rs) s
      | None \<Rightarrow> liftR (sx_escalated sx task_id (task_name task) max_attempts rs) s)"

definition escalation_result :: "task_spec \<Rightarrow> int \<Rightarrow> check_result list \<Rightarrow> task_result" where
  "escalation_result task max_attempts rs =
     \<lparr>tr_output = None,
      tr_structured = Some [(''escalation'', JObj [(''task_name'', JStr (task_name task)), (''attempts'', JInt max_attempts),
                              (''agent_name'', opt_json (ts_agent (spec_fields task)))])],
      tr_checks = rs\<rparr>"

definition escalate :: "config \<Rightarrow> session_env \<Rightarrow> task_spec \<Rightarrow> uuid \<Rightarrow> uuid option \<Rightarrow> int \<Rightarrow> check_result list \<Rightarrow> task_result run" where
  "escalate c sx task task_id parent_id max_attempts rs =
     bindR (liftR (modifyS (\<lambda>s. release_claims task_id (set_state task_id ''escalated'' s)))) (\<lambda>_.
       bindR (liftR (trace_transition c task_id ''escalated'')) (\<lambda>_.
         bindR (notify_escalation sx task task_id parent_id max_attempts rs) (\<lambda>_. returnR (escalation_result task max_attempts rs))))"

section \<open>The loop over the attempts\<close>

text \<open>\<open>left\<close> attempts are left, numbered from \<open>attempt\<close>; with none left the task escalates.\<close>

definition retry_reset :: "nat \<Rightarrow> uuid \<Rightarrow> sched \<Rightarrow> sched" where
  "retry_reset left task_id s = (if left > 0 then reset_for_retry task_id s else s)"

definition pre_retry_aborted :: "config \<Rightarrow> uuid \<Rightarrow> task_result op" where
  "pre_retry_aborted c task_id = bindS (move_task c task_id ''escalated'') (\<lambda>_. returnS (check_failed ''pre_retry aborted''))"

fun attempt_loop ::
  "config \<Rightarrow> session_env \<Rightarrow> task_spec \<Rightarrow> uuid \<Rightarrow> uuid option \<Rightarrow> jobj option \<Rightarrow> int \<Rightarrow> nat \<Rightarrow> nat \<Rightarrow> prior_attempt list \<Rightarrow>
   check_result list \<Rightarrow> task_result run" where
  "attempt_loop c sx task task_id parent_id variables max_attempts 0 attempt prior rs = escalate c sx task task_id parent_id max_attempts rs"
| "attempt_loop c sx task task_id parent_id variables max_attempts (Suc left) attempt prior rs =
     bindR (liftR (start_attempt c task_id attempt)) (\<lambda>attempt_id s.
       (case call_pre_retry sx task task_id parent_id variables attempt prior s of
          (Inl e, s1) \<Rightarrow> if except_Exception e then liftR (pre_retry_aborted c task_id) s1 else Some (Inl e, s1)
        | (Inr _, s1) \<Rightarrow>
            bindR (run_attempt c sx task task_id variables attempt attempt_id prior) (\<lambda>r.
              case r of
                Finished res \<Rightarrow> returnR res
              | Failed checks err \<Rightarrow>
                  bindR (liftR (modifyS (retry_reset left task_id))) (\<lambda>_.
                    attempt_loop c sx task task_id parent_id variables max_attempts left (Suc attempt)
                      (prior @ [\<lparr>pa_attempt = attempt, pa_error = err\<rparr>]) (case checks of None \<Rightarrow> rs | Some ks \<Rightarrow> ks))) s1))"

definition execute_agent_task :: "config \<Rightarrow> session_env \<Rightarrow> task_spec \<Rightarrow> uuid \<Rightarrow> uuid option \<Rightarrow> jobj option \<Rightarrow> task_result run" where
  "execute_agent_task c sx task task_id parent_id variables =
     (if ts_agent (spec_fields task) = None \<or> ts_task_prompt (spec_fields task) = None then liftR (raiseS ValueError)
      else (let max_attempts = ts_retry (spec_fields task) + 1
            in attempt_loop c sx task task_id parent_id variables max_attempts (nat max_attempts) 1 [] []))"

section \<open>Orchestrator tasks\<close>

definition transition_because :: "config \<Rightarrow> uuid \<Rightarrow> string \<Rightarrow> string \<Rightarrow> unit op" where
  "transition_because c task_id st reason s0 =
     (let s = set_state task_id st s0
      in case transition_task (c_ids c (s_tick s)) (c_clock c (s_tick s)) task_id st (Some reason) (c_principal c) (s_db s) of
           Inl e \<Rightarrow> (Inl e, s)
         | Inr db \<Rightarrow> (Inr (), s\<lparr>s_db := db, s_tick := Suc (s_tick s)\<rparr>))"

text \<open>
  A turn of the orchestrator's session: the continuation when it was suspended, and the texts of its results; the last one is
  the output. \<open>await_loop\<close> runs the child a suspended turn waits for (\<open>exec\<close> is \<open>execute_task\<close>) and resumes the
  session, for at most \<open>fuel\<close> turns; running out of fuel is not returning.
\<close>

definition last_text :: "string \<Rightarrow> string list \<Rightarrow> string" where
  "last_text out texts = (if texts = [] then out else last texts)"

fun await_loop ::
  "config \<Rightarrow> session_env \<Rightarrow> (task_spec \<Rightarrow> uuid \<Rightarrow> task_result run) \<Rightarrow> uuid \<Rightarrow> string \<Rightarrow> string \<Rightarrow> nat \<Rightarrow> string option \<Rightarrow> string \<Rightarrow> string run" where
  "await_loop c sx exec task_id session sid fuel None out = returnR out"
| "await_loop c sx exec task_id session sid 0 (Some cont) out = (\<lambda>_. None)"
| "await_loop c sx exec task_id session sid (Suc fuel) (Some cont) out =
     (\<lambda>s. case dict_get (s_pending_await s) sid of
        None \<Rightarrow> returnR out s
      | Some child \<Rightarrow>
          (let s1 = s\<lparr>s_pending_await := dict_pop sid (s_pending_await s)\<rparr>
           in case c_parse_uuid c child of
                None \<Rightarrow> liftR (raiseS ValueError) s1
              | Some child_id \<Rightarrow>
                  (case dict_get (s_task_specs s1) child_id of
                     None \<Rightarrow> returnR out s1
                   | Some spec \<Rightarrow>
                       bindR (liftR (transition_because c task_id ''suspended'' ''awaiting child task'')) (\<lambda>_.
                         bindR (exec spec child_id) (\<lambda>r.
                           bindR (liftR (transition_because c task_id ''active'' ''child task completed'')) (\<lambda>_.
                             case render_template ''orchestrator_resume''
                                    [(''child_task_id'', child), (''child_result'', if truthy (tr_output r) then the (tr_output r) else ''no output'')] of
                               Inl e \<Rightarrow> liftR (raiseS e)
                             | Inr msg \<Rightarrow>
                                 bindR (sx_resume sx cont msg) (\<lambda>(cont', texts).
                                   await_loop c sx exec task_id session sid fuel cont' (last_text out texts))))) s1)))"

definition orchestrator_failed :: "config \<Rightarrow> session_env \<Rightarrow> task_spec \<Rightarrow> uuid \<Rightarrow> check_result list \<Rightarrow> task_result op" where
  "orchestrator_failed c sx task task_id rs =
     bindS (move_task c task_id ''postcheck_failed'') (\<lambda>_.
       bindS (move_task c task_id ''escalated'') (\<lambda>_.
         bindS (sx_escalated sx task_id (task_name task) 1 (filter (\<lambda>r. \<not> passed r) rs)) (\<lambda>_. returnS (check_outcome rs))))"

definition finish_orchestrator :: "config \<Rightarrow> session_env \<Rightarrow> task_spec \<Rightarrow> uuid \<Rightarrow> string \<Rightarrow> task_result op" where
  "finish_orchestrator c sx task task_id out =
     (if postchecks task = []
      then bindS (move_task c task_id ''completed'') (\<lambda>_. returnS \<lparr>tr_output = Some out, tr_structured = None, tr_checks = []\<rparr>)
      else bindS (move_task c task_id ''postchecking'') (\<lambda>_.
             bindS (run_postchecks c task task_id) (\<lambda>rs.
               if \<not> all_passed rs then orchestrator_failed c sx task task_id rs
               else bindS (move_task c task_id ''completed'')
                      (\<lambda>_. returnS \<lparr>tr_output = Some out, tr_structured = None, tr_checks = rs\<rparr>))))"

definition execute_orchestrator_task ::
  "config \<Rightarrow> session_env \<Rightarrow> (task_spec \<Rightarrow> uuid \<Rightarrow> task_result run) \<Rightarrow> nat \<Rightarrow>
   task_spec \<Rightarrow> uuid \<Rightarrow> jobj option \<Rightarrow> task_result run" where
  "execute_orchestrator_task c sx exec fuel task task_id variables =
     bindR (liftR (move_task c task_id ''active'')) (\<lambda>_.
       bindR (liftR (create_agent_session c sx task task_id 1)) (\<lambda>(session, sid).
         bindR (liftR (modifyS (\<lambda>s. s\<lparr>s_active_tasks := dict_set sid task_id (s_active_tasks s)\<rparr>))) (\<lambda>_.
           case resolve_task_variables (case ts_task_prompt (spec_fields task) of None \<Rightarrow> [] | Some p \<Rightarrow> p) variables of
             Inl e \<Rightarrow> liftR (raiseS e)
           | Inr prompt \<Rightarrow>
               bindR (sx_turn sx session prompt) (\<lambda>(cont, texts).
                 bindR (await_loop c sx exec task_id session sid fuel cont (last_text [] texts))
                   (\<lambda>out. liftR (finish_orchestrator c sx task task_id out))))))"

definition execute_orchestrator_or_agent_task ::
  "config \<Rightarrow> session_env \<Rightarrow> (task_spec \<Rightarrow> uuid \<Rightarrow> task_result run) \<Rightarrow> nat \<Rightarrow>
   task_spec \<Rightarrow> uuid \<Rightarrow> uuid option \<Rightarrow> jobj option \<Rightarrow> task_result run" where
  "execute_orchestrator_or_agent_task c sx exec fuel task task_id parent_id variables =
     (if ts_orchestrator (spec_fields task) = Some True
      then execute_orchestrator_task c sx exec fuel task task_id variables
      else execute_agent_task c sx task task_id parent_id variables)"

section \<open>The automatic commit\<close>

text \<open>
  The files \<open>_auto_commit\<close> commits, given the output of \<open>git status --porcelain\<close> and the session's tracked
  mutations; \<open>None\<close> when it runs no commit.
\<close>

function split_arrow :: "string \<Rightarrow> string list" where
  "split_arrow s =
     (if prefix '' -> '' s then [] # split_arrow (drop 4 s)
      else (case s of
              [] \<Rightarrow> [[]]
            | ch # cs \<Rightarrow> (case split_arrow cs of [] \<Rightarrow> [[ch]] | p # ps \<Rightarrow> (ch # p) # ps)))"
  by pat_completeness auto
termination
  by (relation "measure length") (auto simp: prefix_def)

declare split_arrow.simps [simp del]

definition commit_file :: "string list \<Rightarrow> string \<Rightarrow> string list" where
  "commit_file tracked line =
     (let rest = dropWhile is_space (dropWhile (\<lambda>ch. \<not> is_space ch) (py_strip line))
      in if rest = [] then []
         else (let fname = (case split_arrow rest of _ # b # _ \<Rightarrow> b | _ \<Rightarrow> rest)
               in if ''__generic__'' \<in> set tracked \<or> fname \<in> set tracked then [fname] else []))"

definition auto_commit_files :: "string \<Rightarrow> string list \<Rightarrow> string list option" where
  "auto_commit_files status tracked =
     (let dirty = py_strip status; changed = concat (map (commit_file tracked) (splitlines dirty))
      in if tracked = [] \<or> dirty = [] \<or> changed = [] then None else Some changed)"

section \<open>Results of an agent's task\<close>

lemma complete_attempt_Inr:
  assumes "complete_attempt sx attempt_id session txt ok task_id s = (Inr u, s')"
  obtains att db where "s' = s\<lparr>s_db := db\<rparr>" "dict_get (db_task_attempts db) attempt_id = Some att" "a_agent_output att = Some txt"
    "a_check_verdict att = Some (if ok then ''pass'' else ''fail'')" "a_status att = ''completed''"
  using assms by (auto simp: complete_attempt_def complete_task_attempt_def Let_def split: option.splits sum.splits)

text \<open>What the scheduler holds when an agent's task has finished well.\<close>

definition well_finished :: "session_env \<Rightarrow> task_spec \<Rightarrow> uuid \<Rightarrow> task_result \<Rightarrow> sched \<Rightarrow> bool" where
  "well_finished sx task task_id r s \<longleftrightarrow>
     dict_get (s_task_states s) task_id = Some ''completed'' \<and> tr_output r = completed_output task task_id s \<and>
     passed (output_check sx task (tr_output r)) \<and>
     (\<exists>attempt_id att. dict_get (db_task_attempts (s_db s)) attempt_id = Some att \<and> a_status att = ''completed'' \<and>
        a_check_verdict att = Some ''pass'' \<and> a_agent_output att = Some (case tr_output r of None \<Rightarrow> [] | Some t \<Rightarrow> t))"

text \<open>How one attempt can end.\<close>

definition attempt_ok :: "session_env \<Rightarrow> task_spec \<Rightarrow> uuid \<Rightarrow> attempt_end \<Rightarrow> sched \<Rightarrow> bool" where
  "attempt_ok sx task task_id r s \<longleftrightarrow>
     (case r of
        Finished res \<Rightarrow> tr_checks res = [ok_result ''Task completed''] \<and> well_finished sx task task_id res s \<or>
                        tr_checks res = [failed ''Task timed out'' None]
      | Failed checks err \<Rightarrow> list_all (\<lambda>k. \<not> passed k) (case checks of None \<Rightarrow> [] | Some ks \<Rightarrow> ks))"

lemma attempt_completed_ok:
  assumes "attempt_completed sx task task_id attempt_id session s = (Inr r, s')" "dict_get (s_task_states s) task_id = Some ''completed''"
  shows "attempt_ok sx task task_id r s'"
proof (cases "passed (output_check sx task (completed_output task task_id s))")
  case True
  let ?out = "completed_output task task_id s"
  from assms(1) True obtain u where att: "complete_attempt sx attempt_id session (case ?out of None \<Rightarrow> [] | Some t \<Rightarrow> t) True task_id s = (Inr u, s')"
      and r: "r = Finished \<lparr>tr_output = ?out, tr_structured = None, tr_checks = [ok_result ''Task completed'']\<rparr>"
    by (auto simp: attempt_completed_def Let_def bindS_Inr returnS_def)
  from att obtain att db where a: "s' = s\<lparr>s_db := db\<rparr>" "dict_get (db_task_attempts db) attempt_id = Some att"
      "a_agent_output att = Some (case ?out of None \<Rightarrow> [] | Some t \<Rightarrow> t)" "a_check_verdict att = Some ''pass''" "a_status att = ''completed''"
    by (rule complete_attempt_Inr) simp
  then show ?thesis using True assms(2) by (auto simp: r attempt_ok_def well_finished_def completed_output_def)
next
  case False
  then show ?thesis using assms(1) by (auto simp: attempt_completed_def Let_def bindS_Inr returnS_def attempt_ok_def)
qed

lemma session_ended_ok:
  assumes "session_ended c sx task task_id attempt_id session snap s = (Inr r, s')"
  shows "attempt_ok sx task task_id r s'"
proof -
  obtain s1 state where "dict_get (s_task_states s1) task_id = Some state"
      "(if state = ''completed'' then attempt_completed sx task task_id attempt_id session s1
        else attempt_unfinished sx task_id attempt_id session state s1) = (Inr r, s')"
    using assms by (auto simp: session_ended_def bindS_Inr raiseS_def split: option.splits)
  then show ?thesis
    by (cases "state = ''completed''")
      (auto simp: attempt_completed_ok, auto simp: attempt_unfinished_def attempt_ok_def bindS_Inr returnS_def failed_def)
qed

lemma run_attempt_ok:
  assumes "run_attempt c sx task task_id variables attempt attempt_id prior s = Some (Inr r, s')"
  shows "attempt_ok sx task task_id r s'"
proof -
  obtain session snap o1 s1 where "session_outcome c sx task task_id attempt_id session snap o1 s1 = (Inr r, s')"
    using assms by (auto simp: run_attempt_def bindR_Inr)
  then show ?thesis
    by (cases o1) (auto simp: session_outcome_def session_ended_ok, auto simp: session_crashed_def Let_def bindS_Inr returnS_def
        attempt_ok_def failed_def check_failed_def check_outcome_def split: if_splits)
qed

lemma start_attempt_Inr: "\<exists>attempt_id s'. start_attempt c task_id attempt s = (Inr attempt_id, s')"
  by (simp add: start_attempt_def split: prod.split)

text \<open>Every way the loop returns a result.\<close>

lemma attempt_loop_cases:
  assumes "attempt_loop c sx task task_id parent_id variables max_attempts (Suc left) attempt prior rs s = Some (Inr r, s')"
  obtains (aborted) s1 where "pre_retry_aborted c task_id s1 = (Inr r, s')"
  | (finished) attempt_id s1 where "run_attempt c sx task task_id variables attempt attempt_id prior s1 = Some (Inr (Finished r), s')"
  | (again) attempt_id s1 checks err s2 where
      "run_attempt c sx task task_id variables attempt attempt_id prior s1 = Some (Inr (Failed checks err), s2)"
      "attempt_loop c sx task task_id parent_id variables max_attempts left (Suc attempt)
         (prior @ [\<lparr>pa_attempt = attempt, pa_error = err\<rparr>]) (case checks of None \<Rightarrow> rs | Some ks \<Rightarrow> ks) (retry_reset left task_id s2) = Some (Inr r, s')"
proof -
  obtain attempt_id s0 where start: "start_attempt c task_id attempt s = (Inr attempt_id, s0)" using start_attempt_Inr by blast
  obtain pre s1 where pre: "call_pre_retry sx task task_id parent_id variables attempt prior s0 = (pre, s1)" by (rule prod.exhaust)
  show ?thesis
  proof (cases pre)
    case (Inl e)
    then show ?thesis using assms start pre aborted by (auto simp: bindR_Inr split: if_splits)
  next
    case (Inr u)
    with assms start pre obtain a s2 where a: "run_attempt c sx task task_id variables attempt attempt_id prior s1 = Some (Inr a, s2)"
        and rest: "(case a of
                Finished res \<Rightarrow> returnR res
              | Failed checks err \<Rightarrow>
                  bindR (liftR (modifyS (retry_reset left task_id))) (\<lambda>_.
                    attempt_loop c sx task task_id parent_id variables max_attempts left (Suc attempt)
                      (prior @ [\<lparr>pa_attempt = attempt, pa_error = err\<rparr>]) (case checks of None \<Rightarrow> rs | Some ks \<Rightarrow> ks))) s2 = Some (Inr r, s')"
      by (auto simp: bindR_Inr)
    then show ?thesis using finished again by (cases a) (auto simp: bindR_Inr returnS_def modifyS_def)
  qed
qed

lemma attempt_loop_finished:
  assumes "attempt_loop c sx task task_id parent_id variables max_attempts left attempt prior rs s = Some (Inr r, s')"
    and "list_all (\<lambda>k. \<not> passed k) rs"
  shows "list_all (\<lambda>k. \<not> passed k) (tr_checks r) \<or> tr_checks r = [ok_result ''Task completed''] \<and> well_finished sx task task_id r s'"
  using assms
proof (induction left arbitrary: attempt prior rs s)
  case 0
  then show ?case by (auto simp: escalate_def bindR_Inr returnS_def escalation_result_def)
next
  case (Suc left)
  from Suc.prems(1) show ?case
  proof (cases rule: attempt_loop_cases)
    case aborted
    then show ?thesis by (auto simp: pre_retry_aborted_def bindS_Inr returnS_def check_failed_def check_outcome_def failed_def)
  next
    case finished
    from run_attempt_ok [OF this] show ?thesis by (auto simp: attempt_ok_def failed_def)
  next
    case (again attempt_id s1 checks err s2)
    from run_attempt_ok [OF again(1)] Suc.prems(2) have "list_all (\<lambda>k. \<not> passed k) (case checks of None \<Rightarrow> rs | Some ks \<Rightarrow> ks)"
      by (auto simp: attempt_ok_def split: option.splits)
    from Suc.IH [OF again(2) this] show ?thesis .
  qed
qed

section \<open>An example\<close>

definition agent_one :: agent_def where
  "agent_one = scoped_agent\<lparr>ag_provider := Some ''p'', ag_model := Some ''m'', ag_allow := [], ag_deferred := []\<rparr>"

definition agent_config :: config where
  "agent_config = sample_config\<lparr>c_agents := [(''a'', agent_one)],
      c_pricing := Some [(''p/m'', rates 1 1 0 0 0)]\<rparr>"

definition agent_task :: task_spec where
  "agent_task = TaskSpec ((task_defaults ''t'')\<lparr>ts_agent := Some ''a'', ts_task_prompt := Some ''go'', ts_orchestrator := Some False\<rparr>) [] [] None"

definition agent_session :: "string list run \<Rightarrow> session_env" where
  "agent_session send =
     \<lparr>sx_read_root = ''/repo'', sx_registry = new_registry, sx_inline = (\<lambda>_. []), sx_transports = [''p''], sx_workers = None,
      sx_open = (\<lambda>_ _ _ _ _. returnS ''h''), sx_send = (\<lambda>_ _ _. send), sx_turn = (\<lambda>_ _. returnR (None, [])),
      sx_resume = (\<lambda>_ _. returnR (None, [])), sx_pre_retry = (\<lambda>_ _ _ _. returnS ()), sx_refresh_constraints = None,
      sx_refresh_lessons = None, sx_refresh_notepad = None, sx_refine = None, sx_diff = (\<lambda>_ _. []), sx_context_limit = 100,
      sx_percent = JInt, sx_loads = (\<lambda>t. Inr (JStr t)), sx_conforms = (\<lambda>_ _. None), sx_class = (\<lambda>_. OtherErr), sx_text = (\<lambda>_. ''boom''),
      sx_type_name = (\<lambda>_. ''X''), sx_duration = (\<lambda>_ _. 0), sx_escalated = (\<lambda>_ _ _ _. returnS ())\<rparr>"

definition agent_works :: "string list run" where
  "agent_works = liftR (bindS (handle_start_task agent_config ''s'' ''10'') (\<lambda>_. bindS (handle_end_task agent_config ''s'' ''done'') (\<lambda>_. returnS [''done''])))"

definition agent_start :: sched where
  "agent_start = snd (ensure_created agent_config agent_task None None idle_sched)"

text \<open>
  C5. An agent's task reports success only for real success: if executing it returns a result that is not a list of failed
  checks, then the task is completed, the result's output is the text recorded for it, that output satisfies the
  task's output schema (when it has one), and an attempt with exactly this output is recorded with the verdict "pass".
\<close>
theorem agent_result_sound:
  assumes "execute_agent_task c sx task task_id parent_id variables s = Some (Inr r, s')" and "\<not> list_all (\<lambda>k. \<not> passed k) (tr_checks r)"
  shows "tr_checks r = [ok_result ''Task completed''] \<and> well_finished sx task task_id r s'"
  using assms attempt_loop_finished [of c sx task task_id parent_id variables _ _ 1 "[]" "[]" s r s']
  by (auto simp: execute_agent_task_def Let_def raiseS_def split: if_splits)

theorem agent_result_sound_witness:
  "\<exists>r s'. execute_agent_task agent_config (agent_session agent_works) agent_task 10 None None agent_start = Some (Inr r, s') \<and>
     tr_output r = Some ''done'' \<and> well_finished (agent_session agent_works) agent_task 10 r s'"
proof -
  have "case execute_agent_task agent_config (agent_session agent_works) agent_task 10 None None agent_start of
      Some (Inr r, s') \<Rightarrow> tr_output r = Some ''done'' \<and> \<not> list_all (\<lambda>k. \<not> passed k) (tr_checks r) | _ \<Rightarrow> False" by code_simp
  then obtain r s' where r: "execute_agent_task agent_config (agent_session agent_works) agent_task 10 None None agent_start = Some (Inr r, s')"
      "tr_output r = Some ''done''" "\<not> list_all (\<lambda>k. \<not> passed k) (tr_checks r)" by (auto split: option.splits prod.splits sum.splits)
  with agent_result_sound [OF r(1,3)] show ?thesis by blast
qed

section \<open>Escalation, timeouts and orchestrators\<close>

lemma release_claims_status [simp]:
  "mem_status (release_claims task_id s) t = mem_status s t" "trace_status (release_claims task_id s) t = trace_status s t"
  by (simp_all add: release_claims_def mem_status_def trace_status_def)

lemma escalated_from: "task_step old ''escalated'' \<longleftrightarrow> old = ''postcheck_failed''"
  by (auto simp: validate_task_ok)

lemma trace_transition_invalid:
  assumes "trace_status s task_id = Some old" "\<not> task_step old st"
  shows "trace_transition c task_id st s = (Inl InvalidTransitionError, s)"
proof -
  have "validate_task_transition old st = Inl InvalidTransitionError"
    using assms(2) by (auto simp: validate_task_transition_def split: if_splits option.splits)
  then show ?thesis using assms(1) trace_transition_fail [of c task_id st s] by simp
qed

lemma escalate_invalid:
  assumes "trace_status s task_id = Some st" "st \<noteq> ''postcheck_failed''"
  shows "escalate c sx task task_id parent_id max_attempts rs s =
    Some (Inl InvalidTransitionError, release_claims task_id (set_state task_id ''escalated'' s))"
  using trace_transition_invalid [of "release_claims task_id (set_state task_id ''escalated'' s)" task_id st "''escalated''" c] assms
  by (simp add: escalate_def bindR_def liftR_def modifyS_def escalated_from)

text \<open>
  Escalation works only after failed post-checks. When the last attempt of an agent's task fails in any other way (pre-checks
  failed, the session crashed, the output violates the schema, the agent never ended the task), the trace refuses the
  status "escalated": the execution raises \<open>InvalidTransitionError\<close> instead of returning the escalation, nobody
  is notified, and the scheduler has the task as escalated while the trace keeps its old status.
\<close>
theorem escalation_needs_failed_postchecks:
  assumes "start_attempt c task_id attempt s = (Inr attempt_id, s0)"
    and "call_pre_retry sx task task_id parent_id variables attempt prior s0 = (Inr (), s1)"
    and "run_attempt c sx task task_id variables attempt attempt_id prior s1 = Some (Inr (Failed checks err), s2)"
    and "trace_status s2 task_id = Some st" and "st \<noteq> ''postcheck_failed''"
  shows "\<exists>s'. attempt_loop c sx task task_id parent_id variables max_attempts 1 attempt prior rs s = Some (Inl InvalidTransitionError, s') \<and>
    mem_status s' task_id = Some ''escalated'' \<and> trace_status s' task_id = Some st"
proof -
  have "attempt_loop c sx task task_id parent_id variables max_attempts 1 attempt prior rs s =
      escalate c sx task task_id parent_id max_attempts (case checks of None \<Rightarrow> rs | Some ks \<Rightarrow> ks) s2"
    using assms(1-3) by (simp add: bindR_def liftR_def modifyS_def retry_reset_def)
  then show ?thesis using escalate_invalid [OF assms(4,5)] assms(4) by simp
qed

definition agent_idles :: "string list run" where
  "agent_idles = returnR []"

theorem escalation_needs_failed_postchecks_witness:
  "\<exists>s'. attempt_loop agent_config (agent_session agent_idles) agent_task 10 None None 1 1 1 [] [] agent_start = Some (Inl InvalidTransitionError, s') \<and>
     mem_status s' 10 = Some ''escalated'' \<and> trace_status s' 10 = Some ''created''"
proof -
  define s0 where "s0 = snd (start_attempt agent_config 10 1 agent_start)"
  have "fst (start_attempt agent_config 10 1 agent_start) = Inr 11" by code_simp
  then have start: "start_attempt agent_config 10 1 agent_start = (Inr 11, s0)" by (simp add: s0_def prod_eq_iff)
  have pre: "call_pre_retry (agent_session agent_idles) agent_task 10 None None 1 [] s0 = (Inr (), s0)"
    by (simp add: call_pre_retry_def agent_task_def task_defaults_def)
  have "case run_attempt agent_config (agent_session agent_idles) agent_task 10 None 1 11 [] s0 of
      Some (Inr (Failed checks err), s2) \<Rightarrow> trace_status s2 10 = Some ''created'' | _ \<Rightarrow> False" unfolding s0_def by code_simp
  then obtain checks err s2 where run: "run_attempt agent_config (agent_session agent_idles) agent_task 10 None 1 11 [] s0 = Some (Inr (Failed checks err), s2)"
      "trace_status s2 10 = Some ''created''" by (auto split: option.splits prod.splits sum.splits attempt_end.splits)
  show ?thesis by (rule escalation_needs_failed_postchecks [OF start pre run(1,2)]) simp
qed

text \<open>
  A timeout leaks the task's file claims: an attempt whose session runs out of time ends the task as cancelled in the scheduler
  and in the trace, with the failed check "Task timed out", but every path the task had claimed stays claimed, so no other
  task can claim it any more.
\<close>
theorem timeout_keeps_claims:
  assumes "session_outcome c sx task task_id attempt_id session snap (Inl TimeoutError) s = (Inr r, s')"
    and "dict_get (s_claims s) task_id = Some ps" and "p \<in> set ps"
  shows "r = Finished (check_failed ''Task timed out'') \<and> mem_status s' task_id = Some ''cancelled'' \<and>
    trace_status s' task_id = Some ''cancelled'' \<and> claim (s_claims s') other [p] = Inl ValueError"
proof -
  obtain u where u: "fail_attempt_timeout c sx attempt_id session task_id s = (Inr u, s')" and r: "r = Finished (check_failed ''Task timed out'')"
    using assms(1) by (auto simp: session_outcome_def bindS_Inr)
  then obtain db where mv: "move_task c task_id ''cancelled'' (s\<lparr>s_db := db\<rparr>) = (Inr u, s')"
    by (auto simp: fail_attempt_timeout_def Let_def split: sum.splits)
  have "s_claims s' = s_claims s" using move_task_ok(1) [OF mv] by auto
  moreover have "check_conflict (s_claims s) [p] \<noteq> None"
  proof -
    have "(task_id, ps) \<in> set (s_claims s)" using assms(2) by (auto simp: dict_get_iff dict_get_def dest: map_of_SomeD)
    moreover have "paths_overlap p p" by (simp add: paths_overlap_def)
    ultimately show ?thesis using assms(3) check_conflict_None [of "s_claims s" "[p]"] by fastforce
  qed
  ultimately show ?thesis using r move_task_ok(2,3) [OF mv] by (auto simp: claim_def split: option.splits)
qed

theorem timeout_keeps_claims_witness:
  "\<exists>r s'. session_outcome agent_config (agent_session agent_idles) agent_task 10 11 ''h'' no_usage (Inl TimeoutError)
      ((snd (start_attempt agent_config 10 1 agent_start))\<lparr>s_claims := [(10, [''/src''])]\<rparr>) = (Inr r, s') \<and>
    claim (s_claims s') 12 [''/src''] = Inl ValueError"
proof -
  define s where "s = (snd (start_attempt agent_config 10 1 agent_start))\<lparr>s_claims := [(10, [''/src''])]\<rparr>"
  have "is_ok (fst (session_outcome agent_config (agent_session agent_idles) agent_task 10 11 ''h'' no_usage (Inl TimeoutError) s))"
    unfolding s_def by code_simp
  then obtain r s' where run: "session_outcome agent_config (agent_session agent_idles) agent_task 10 11 ''h'' no_usage (Inl TimeoutError) s = (Inr r, s')"
    by (auto simp: is_ok_iff) (metis prod.collapse)
  have "dict_get (s_claims s) 10 = Some [''/src'']" by (simp add: s_def dict_get_def)
  from timeout_keeps_claims [OF run this, of "''/src''" 12] run show ?thesis by (auto simp: s_def)
qed

lemma created_status:
  "ensure_created c task parent_id None s = (Inr t, s') \<Longrightarrow> trace_status s' t = Some ''created''"
  by (auto simp: ensure_created_def bindS_Inr trace_create_task_def create_task_def trace_status_def init_task_state_def Let_def split: prod.splits)

lemma orchestrator_invalid:
  "trace_status s task_id = Some ''created'' \<Longrightarrow>
   execute_orchestrator_task c sx exec fuel task task_id variables s = Some (Inl InvalidTransitionError, set_state task_id ''active'' s)"
  using move_task_invalid [of s task_id "''created''" "''active''" c]
  by (simp add: execute_orchestrator_task_def bindR_def liftR_def validate_task_ok)

text \<open>
  No orchestrator task can ever run: executing one creates it and asks the trace to make it active, but a created task
  must pass pre-checking first, so the execution raises \<open>InvalidTransitionError\<close>; no session is opened and the task stays "created" in the trace.
\<close>
theorem orchestrator_cannot_start:
  assumes "\<And>tid p v. ex_agent ev task tid p v = execute_orchestrator_or_agent_task c sx exec fuel task tid p v"
    and "ts_orchestrator (spec_fields task) = Some True" and "ts_for_each (spec_fields task) = None" and "ts_callable (spec_fields task) = None"
    and "subtasks task = None" and "ts_wait_for (spec_fields task) = None" and "ts_decision_point (spec_fields task) \<noteq> Some True"
    and "\<not> s_paused s"
  shows "\<exists>tid s'. execute_task c ev task parent_id None variables s = Some (Inl InvalidTransitionError, s') \<and>
    mem_status s' tid = Some ''active'' \<and> trace_status s' tid = Some ''created''"
proof -
  obtain tid s1 where t: "ensure_created c task parent_id None s = (Inr tid, s1)"
    by (cases "create_task (c_ids c (s_tick s)) (c_clock c (s_tick s)) (config.c_run_id c) parent_id (task_name task) (task_type_for task) None (s_db s)")
      (simp add: ensure_created_def bindS_def trace_create_task_def returnS_def modifyS_def)
  have "execute_task c ev task parent_id None variables s = run_mode c ev task parent_id variables tid s1"
    using assms(8) t by (simp add: execute_task_mode bindR_def liftR_def wait_paused_def)
  also have "\<dots> = Some (Inl InvalidTransitionError, set_state tid ''active'' s1)"
    using orchestrator_invalid [OF created_status [OF t]] assms(1-7)
    by (simp add: run_mode_def execute_orchestrator_or_agent_task_def)
  finally show ?thesis using created_status [OF t] by (auto intro!: exI [of _ tid])
qed

definition orchestrator_task :: task_spec where
  "orchestrator_task = TaskSpec ((task_defaults ''o'')\<lparr>ts_agent := Some ''a'', ts_task_prompt := Some ''plan'', ts_orchestrator := Some True\<rparr>) [] [] None"

definition agent_env :: "session_env \<Rightarrow> exec_env \<Rightarrow> exec_env" where
  "agent_env sx ev = ev\<lparr>ex_agent := execute_orchestrator_or_agent_task agent_config sx (\<lambda>_ _ _. None) 0\<rparr>"

theorem orchestrator_cannot_start_witness:
  "\<forall>ev. \<exists>s'. execute_task agent_config (agent_env (agent_session agent_idles) ev) orchestrator_task None None None idle_sched =
     Some (Inl InvalidTransitionError, s')"
proof
  fix ev
  show "\<exists>s'. execute_task agent_config (agent_env (agent_session agent_idles) ev) orchestrator_task None None None idle_sched =
     Some (Inl InvalidTransitionError, s')"
    using orchestrator_cannot_start [of "agent_env (agent_session agent_idles) ev" orchestrator_task agent_config "agent_session agent_idles" "\<lambda>_ _ _. None" 0 idle_sched None None]
    by (auto simp: agent_env_def orchestrator_task_def task_defaults_def idle_sched_def)
qed

section \<open>Returning, context window, models\<close>

lemma run_session_total:
  assumes "\<And>t h m s. sx_send sx t h m s \<noteq> None"
  shows "run_session c sx timeout session prompt sid task_id s \<noteq> None"
proof -
  have "agent_handoff c sx timeout session task_id s \<noteq> None" for s
    using assms by (auto simp: agent_handoff_def bindR_None Let_def simp del: not_None_eq split: option.splits sum.splits)
  then show ?thesis using assms
    by (auto simp: run_session_def bindR_None check_agent_context_def Let_def simp del: not_None_eq split: prod.splits)
qed

lemma run_attempt_total:
  assumes "\<And>t h m s. sx_send sx t h m s \<noteq> None"
  shows "run_attempt c sx task task_id variables attempt attempt_id prior s \<noteq> None"
  using run_session_total [OF assms] by (auto simp: run_attempt_def bindR_None simp del: not_None_eq)

lemma escalate_total:
  assumes "\<And>t h m s. sx_send sx t h m s \<noteq> None"
  shows "escalate c sx task task_id parent_id max_attempts rs s \<noteq> None"
  using assms by (auto simp: escalate_def notify_escalation_def bindR_None simp del: not_None_eq split: option.splits sum.splits)

lemma attempt_loop_total:
  assumes "\<And>t h m s. sx_send sx t h m s \<noteq> None"
  shows "attempt_loop c sx task task_id parent_id variables max_attempts left attempt prior rs s \<noteq> None"
proof (induction left arbitrary: attempt prior rs s)
  case 0
  show ?case using escalate_total [OF assms] by simp
next
  case (Suc left)
  then show ?case using run_attempt_total [OF assms]
    by (auto simp: bindR_None simp del: not_None_eq split: prod.splits sum.splits attempt_end.splits)
qed

text \<open>
  An agent's task always comes to an end when its sessions do: if every message to a session eventually returns or raises, then
  executing the task returns or raises, whatever the number of retries, after at most \<open>retry + 1\<close> sessions.
\<close>
theorem execute_agent_task_returns:
  assumes "\<And>t h m s. sx_send sx t h m s \<noteq> None"
  shows "\<exists>r s'. execute_agent_task c sx task task_id parent_id variables s = Some (r, s')"
proof -
  have "execute_agent_task c sx task task_id parent_id variables s \<noteq> None"
    using attempt_loop_total [OF assms] by (auto simp: execute_agent_task_def Let_def simp del: not_None_eq)
  then show ?thesis by auto
qed

theorem execute_agent_task_returns_witness:
  "\<exists>r s'. execute_agent_task agent_config (agent_session agent_idles) agent_task 10 None None agent_start = Some (r, s')"
  by (rule execute_agent_task_returns) (simp add: agent_session_def agent_idles_def)

lemma check_context_iff:
  fixes sx session s
  defines "tokens \<equiv> input_tokens (session_usage session s) + output_tokens (session_usage session s)"
    and "limit \<equiv> sx_context_limit sx"
  shows "check_agent_context c sx timeout session sid task_id s =
    (if limit > 0 \<and> 10 * tokens \<ge> 9 * limit
     then agent_handoff c sx timeout session task_id (context_warning c sx sid task_id tokens ''handoff'' s)
     else if limit > 0 \<and> 10 * tokens \<ge> 8 * limit then Some (Inr (), context_warning c sx sid task_id tokens ''warning'' s)
     else Some (Inr (), s))"
proof (cases "limit > 0")
  case True
  have frac: "of_int tokens / (of_int limit :: rat) \<ge> of_int a / 10 \<longleftrightarrow> 10 * tokens \<ge> a * limit" for a
  proof -
    have "of_int a / 10 \<le> of_int tokens / (of_int limit :: rat) \<longleftrightarrow> of_int (a * limit) \<le> (of_int (10 * tokens) :: rat)"
      using True by (simp add: field_simps)
    then show ?thesis using of_int_le_iff by blast
  qed
  show ?thesis using True frac [of 9] frac [of 8]
    by (simp add: check_agent_context_def compute_context_usage_def Let_def tokens_def limit_def liftR_def returnS_def)
next
  case False
  then show ?thesis
    by (simp add: check_agent_context_def compute_context_usage_def Let_def limit_def liftR_def returnS_def)
qed

text \<open>
  The context window is watched exactly at its thresholds: after a session's run, with a positive limit, a handoff to a new session
  happens if and only if at least 90% of the limit is used, a warning alone if and only if at least 80% and less than
  90% is used, and otherwise the state does not change. With no positive limit nothing is ever done.
\<close>
theorem context_thresholds:
  "check_agent_context c sx timeout session sid task_id s =
    (let tokens = input_tokens (session_usage session s) + output_tokens (session_usage session s); limit = sx_context_limit sx
     in if limit > 0 \<and> 10 * tokens \<ge> 9 * limit
        then agent_handoff c sx timeout session task_id (context_warning c sx sid task_id tokens ''handoff'' s)
        else if limit > 0 \<and> 10 * tokens \<ge> 8 * limit then Some (Inr (), context_warning c sx sid task_id tokens ''warning'' s)
        else Some (Inr (), s))"
  unfolding Let_def by (rule check_context_iff)

text \<open>
  The model that runs is the model that is paid for: whenever a session can resolve the provider and the model of an agent's
  task, the key under which its cost is looked up is exactly "provider/model".
\<close>
theorem model_charged:
  assumes "ts_agent (spec_fields task) = Some name" and "dict_get (c_agents c) name = Some agent"
    and "resolve_model c task agent = Inr (provider, model)"
  shows "resolve_model_key c task = Some (provider @ ''/'' @ model)"
proof -
  have split: "resolved = p @ ''/'' @ m" if "split_model resolved = Inr (p, m)" for resolved p m
    using that takeWhile_dropWhile_id [of "\<lambda>ch. ch \<noteq> CHR ''/''" resolved] hd_dropWhile [of "\<lambda>ch. ch \<noteq> CHR ''/''" resolved]
    by (cases "dropWhile (\<lambda>ch. ch \<noteq> CHR ''/'') resolved") (auto simp: split_model_def split: if_splits)
  show ?thesis using assms
    by (auto simp: resolve_model_def resolve_model_key_def split: option.splits if_splits dest: split)
qed

theorem model_charged_witness:
  "resolve_model_key agent_config agent_task = Some ''p/m''"
  using model_charged [of agent_task "''a''" agent_config agent_one "''p''" "''m''"]
  by (simp add: agent_task_def task_defaults_def agent_config_def agent_one_def dict_get_def resolve_model_def)

end
