(* ===== verification/Overseer.thy ===== *)
theory Overseer
  imports Executor Compose
begin

text \<open>
  The Overseer's side of a run: autonomy levels (\<open>protocols/_autonomy.py\<close>), the gating of its tools, the verification of its
  responses and the fallbacks (\<open>scheduler/_overseer.py\<close>), the health monitor (\<open>overseer/_health.py\<close>), its memory tools
  (\<open>overseer/_tools.py\<close>), the handoff check (\<open>overseer/_handoff.py\<close>) and the delivery of events
  (\<open>_send_overseer_event\<close> of \<open>scheduler/_executor.py\<close>).

  The language model is a parameter: what it does with a message is a list of tool calls and a change of the trace, nothing
  else, since the tools it has write only there. Sinks of events swallow their errors and are left out.
\<close>

section \<open>Autonomy\<close>

datatype autonomy_level = AL_LOW | AL_MEDIUM | AL_HIGH | AL_MAX

definition level_value :: "autonomy_level \<Rightarrow> string" where
  "level_value l = (case l of AL_LOW \<Rightarrow> ''low'' | AL_MEDIUM \<Rightarrow> ''medium'' | AL_HIGH \<Rightarrow> ''high'' | AL_MAX \<Rightarrow> ''max'')"

definition RULES :: "autonomy_level \<Rightarrow> string list" where
  "RULES l =
     (case l of
        AL_LOW \<Rightarrow> [''read_only'']
      | AL_MEDIUM \<Rightarrow> [''read_only'', ''retry'', ''budget_reallocation'', ''concurrency'', ''task_assumption'']
      | AL_HIGH \<Rightarrow> [''read_only'', ''retry'', ''budget_reallocation'', ''concurrency'', ''task_assumption'', ''scope_change'',
                 ''architecture_decision'', ''understanding_assumption'']
      | AL_MAX \<Rightarrow> [''__all__''])"

definition is_autonomous :: "autonomy_level \<Rightarrow> string \<Rightarrow> bool" where
  "is_autonomous l action = (''__all__'' \<in> set (RULES l) \<or> action \<in> set (RULES l))"

definition requires_approval :: "autonomy_level \<Rightarrow> string \<Rightarrow> bool" where
  "requires_approval l action = (\<not> is_autonomous l action)"

definition TOOL_ACTION_TYPES :: "(string, string) dict" where
  "TOOL_ACTION_TYPES =
     [(''read'', ''read_only''), (''list_dir'', ''read_only''), (''glob'', ''read_only''), (''grep'', ''read_only''), (''stat'', ''read_only''),
      (''diff'', ''read_only''), (''notepad'', ''read_only''), (''record_decision'', ''task_assumption''),
      (''record_assumption'', ''task_assumption''), (''write_lesson'', ''task_assumption''), (''update_workflow_status'', ''read_only''),
      (''add_constraint'', ''architecture_decision''), (''create_inbox_item'', ''read_only''), (''create_workflow'', ''scope_change''),
      (''create_task'', ''scope_change''), (''start_task'', ''retry''), (''end_task'', ''retry''), (''create_wait_for'', ''scope_change''),
      (''await_task'', ''retry''), (''consult'', ''read_only'')]"

definition action_type :: "string \<Rightarrow> string" where
  "action_type name = (case dict_get TOOL_ACTION_TYPES name of None \<Rightarrow> ''scope_change'' | Some a \<Rightarrow> a)"

text \<open>A tool of the Overseer: its name and what executing it does to the trace (with a counter for identifiers and times).\<close>

record ostate =
  os_db :: trace_db
  os_tick :: nat

record otool =
  ot_name :: string
  ot_execute :: "jobj \<Rightarrow> ostate \<Rightarrow> string result \<times> ostate"

definition quoted :: "string \<Rightarrow> string" where
  "quoted x = [CHR 0x27] @ x @ [CHR 0x27]"

definition blocked_message :: "autonomy_level \<Rightarrow> string \<Rightarrow> string" where
  "blocked_message l name =
     ''Action blocked: tool '' @ quoted name @ '' requires '' @ quoted (action_type name) @ '' autonomy (current level: '' @ quoted (level_value l) @ '').''"

definition gate_tool :: "autonomy_level \<Rightarrow> otool \<Rightarrow> otool" where
  "gate_tool l t =
     (if is_autonomous l (action_type (ot_name t)) then t
      else t\<lparr>ot_execute := (\<lambda>args s. (Inr (blocked_message l (ot_name t)), s))\<rparr>)"

definition gate_tools :: "autonomy_level \<Rightarrow> otool list \<Rightarrow> otool list" where
  "gate_tools l ts = map (gate_tool l) ts"

section \<open>Memory tools\<close>

text \<open>Strict validation of arguments: no other keys, required keys present, exact types; a nullable field may be null or absent.\<close>

definition only_keys :: "string list \<Rightarrow> jobj \<Rightarrow> bool" where
  "only_keys ks args = list_all (\<lambda>k. k \<in> set ks) (dict_keys args)"

definition req_str :: "jobj \<Rightarrow> string \<Rightarrow> string option" where
  "req_str args k = (case dict_get args k of Some (JStr t) \<Rightarrow> Some t | _ \<Rightarrow> None)"

definition req_bool :: "jobj \<Rightarrow> string \<Rightarrow> bool option" where
  "req_bool args k = (case dict_get args k of Some (JBool b) \<Rightarrow> Some b | _ \<Rightarrow> None)"

definition opt_str :: "jobj \<Rightarrow> string \<Rightarrow> string option option" where
  "opt_str args k = (case dict_get args k of None \<Rightarrow> Some None | Some JNull \<Rightarrow> Some None | Some (JStr t) \<Rightarrow> Some (Some t) | _ \<Rightarrow> None)"

fun str_list :: "json list \<Rightarrow> string list option" where
  "str_list [] = Some []"
| "str_list (JStr t # js) = map_option (\<lambda>ts. t # ts) (str_list js)"
| "str_list (j # js) = None"

fun obj_list :: "json list \<Rightarrow> jobj list option" where
  "obj_list [] = Some []"
| "obj_list (JObj kvs # js) = map_option (\<lambda>os. kvs # os) (obj_list js)"
| "obj_list (j # js) = None"

definition req_strs :: "jobj \<Rightarrow> string \<Rightarrow> string list option" where
  "req_strs args k = (case dict_get args k of Some (JArr js) \<Rightarrow> str_list js | _ \<Rightarrow> None)"

definition opt_strs :: "jobj \<Rightarrow> string \<Rightarrow> string list option" where
  "opt_strs args k = (case dict_get args k of None \<Rightarrow> Some [] | Some (JArr js) \<Rightarrow> str_list js | _ \<Rightarrow> None)"

record overseer_env =
  oe_run_id :: uuid
  oe_principal :: uuid
  oe_ids :: "nat \<Rightarrow> uuid"
  oe_clock :: "nat \<Rightarrow> time"
  oe_parse_uuid :: "string \<Rightarrow> uuid option"
  oe_parse_time :: "string \<Rightarrow> time option"

definition invalid :: "ostate \<Rightarrow> string result \<times> ostate" where
  "invalid s = (Inl ToolError, s)"

definition id_result :: "string \<Rightarrow> uuid \<Rightarrow> string" where
  "id_result key u = json_dumps (JObj [(key, JStr (uuid_str u))])"

definition record_decision :: "overseer_env \<Rightarrow> jobj \<Rightarrow> ostate \<Rightarrow> string result \<times> ostate" where
  "record_decision oe args s =
     (case (req_str args ''decision_type'', dict_get args ''choice'', opt_str args ''rationale'') of
        (Some decision_type, Some (JObj choice), Some rationale) \<Rightarrow>
          if only_keys [''decision_type'', ''choice'', ''rationale''] args
          then (let (u, db) = write_decision (oe_ids oe (os_tick s)) (oe_clock oe (os_tick s)) (oe_run_id oe) decision_type
                       (json_dumps (JObj choice)) rationale (os_db s)
                in (Inr (id_result ''decision_id'' u), \<lparr>os_db = db, os_tick = Suc (os_tick s)\<rparr>))
          else invalid s
      | _ \<Rightarrow> invalid s)"

definition constraint_args :: "jobj \<Rightarrow> jobj option option" where
  "constraint_args args =
     (case dict_get args ''args'' of None \<Rightarrow> Some None | Some JNull \<Rightarrow> Some None | Some (JObj kvs) \<Rightarrow> Some (Some kvs) | _ \<Rightarrow> None)"

definition add_constraint :: "overseer_env \<Rightarrow> jobj \<Rightarrow> ostate \<Rightarrow> string result \<times> ostate" where
  "add_constraint oe args s =
     (case (req_str args ''kind'', req_str args ''text'', req_str args ''tier'', constraint_args args) of
        (Some kind, Some txt, Some tier, Some cargs) \<Rightarrow>
          if only_keys [''kind'', ''text'', ''tier'', ''args''] args \<and> tier \<in> set [''mechanical'', ''advisory'']
          then (let (u, db) = write_constraint (oe_ids oe (os_tick s)) (oe_clock oe (os_tick s)) (oe_run_id oe) txt tier kind cargs (os_db s)
                in (Inr (id_result ''constraint_id'' u), \<lparr>os_db = db, os_tick = Suc (os_tick s)\<rparr>))
          else invalid s
      | _ \<Rightarrow> invalid s)"

definition acknowledge :: "(string \<times> string) list \<Rightarrow> jobj list" where
  "acknowledge opts = map (\<lambda>(label, descr). [(''label'', JStr label), (''description'', JStr descr)]) opts"

definition record_assumption :: "overseer_env \<Rightarrow> jobj \<Rightarrow> ostate \<Rightarrow> string result \<times> ostate" where
  "record_assumption oe args s =
     (case (req_str args ''text'', req_str args ''scope'', req_bool args ''create_inbox_item'') of
        (Some txt, Some scope, Some ask) \<Rightarrow>
          if only_keys [''text'', ''scope'', ''create_inbox_item''] args
          then (let (item, s1) =
                      (if ask
                       then (let (u, db) = create_inbox_item (oe_ids oe (os_tick s)) (oe_clock oe (os_tick s)) (oe_run_id oe) ''assumption_verification''
                                    (''Please verify assumption: '' @ txt)
                                    (acknowledge [(''confirm'', ''Assumption is correct''), (''deny'', ''Assumption is incorrect'')])
                                    (Some ''confirm'') (Some (''Proceeding with assumption: '' @ txt))
                                    (Some ''May need to revise approach if assumption is wrong.'') None None None (os_db s)
                             in (Some u, \<lparr>os_db = db, os_tick = Suc (os_tick s)\<rparr>))
                       else (None, s));
                    (u, db) = write_assumption (oe_ids oe (os_tick s1)) (oe_clock oe (os_tick s1)) (oe_run_id oe) txt scope item (os_db s1)
                in (Inr (json_dumps (JObj [(''assumption_id'', JStr (uuid_str u)), (''inbox_item_id'', opt_json (map_option uuid_str item))])),
                    \<lparr>os_db = db, os_tick = Suc (os_tick s1)\<rparr>))
          else invalid s
      | _ \<Rightarrow> invalid s)"

text \<open>A deadline that is no ISO time makes \<open>fromisoformat\<close> raise outside the handler's try block.\<close>

definition create_inbox_item_tool :: "overseer_env \<Rightarrow> jobj \<Rightarrow> ostate \<Rightarrow> string result \<times> ostate" where
  "create_inbox_item_tool oe args s =
     (case (req_str args ''decision_type'', req_str args ''question'',
            case dict_get args ''options'' of Some (JArr js) \<Rightarrow> obj_list js | _ \<Rightarrow> None,
            (req_str args ''assumed_option'', req_str args ''work_proceeding'', req_str args ''contradiction_impact''),
            (opt_strs args ''tags'', opt_str args ''deadline'', opt_str args ''answer_event'')) of
        (Some decision_type, Some question, Some options, (Some assumed, Some work, Some impact), (Some tags, Some deadline, Some answer_event)) \<Rightarrow>
          if only_keys [''decision_type'', ''question'', ''options'', ''assumed_option'', ''work_proceeding'', ''contradiction_impact'', ''tags'',
                        ''deadline'', ''answer_event''] args
          then (case map_option (oe_parse_time oe) deadline of
                  Some None \<Rightarrow> (Inl ValueError, s)
                | due \<Rightarrow>
                    (let (u, db) = create_inbox_item (oe_ids oe (os_tick s)) (oe_clock oe (os_tick s)) (oe_run_id oe) decision_type question options
                           (Some assumed) (Some work) (Some impact) (Some tags) (Option.bind due id) answer_event (os_db s)
                     in (Inr (id_result ''item_id'' u), \<lparr>os_db = db, os_tick = Suc (os_tick s)\<rparr>)))
          else invalid s
      | _ \<Rightarrow> invalid s)"

definition write_lesson_tool :: "overseer_env \<Rightarrow> jobj \<Rightarrow> ostate \<Rightarrow> string result \<times> ostate" where
  "write_lesson_tool oe args s =
     (case (req_str args ''text'', req_strs args ''relevance_tags'', req_bool args ''permanent'', opt_strs args ''source_files'') of
        (Some txt, Some tags, Some permanent, Some files) \<Rightarrow>
          if only_keys [''text'', ''relevance_tags'', ''permanent'', ''source_files''] args
          then (let (u, db) = write_lesson (oe_ids oe (os_tick s)) (oe_clock oe (os_tick s)) (oe_run_id oe) txt tags permanent
                       (if files = [] then None else Some files) (os_db s)
                in (Inr (id_result ''lesson_id'' u), \<lparr>os_db = db, os_tick = Suc (os_tick s)\<rparr>))
          else invalid s
      | _ \<Rightarrow> invalid s)"

definition update_workflow_status_tool :: "overseer_env \<Rightarrow> jobj \<Rightarrow> ostate \<Rightarrow> string result \<times> ostate" where
  "update_workflow_status_tool oe args s =
     (case (req_str args ''workflow_id'', opt_str args ''current_step'', req_str args ''health'') of
        (Some workflow_id, Some step, Some health) \<Rightarrow>
          if only_keys [''workflow_id'', ''current_step'', ''health''] args
          then (case oe_parse_uuid oe workflow_id of
                  None \<Rightarrow> (Inl ValueError, s)
                | Some u \<Rightarrow>
                    (Inr (json_dumps (JObj [(''status'', JStr ''updated'')])),
                     \<lparr>os_db = update_workflow_status (oe_clock oe (os_tick s)) u (case step of None \<Rightarrow> [] | Some t \<Rightarrow> t) health (os_db s),
                      os_tick = Suc (os_tick s)\<rparr>))
          else invalid s
      | _ \<Rightarrow> invalid s)"

definition memory_tools :: "overseer_env \<Rightarrow> otool list" where
  "memory_tools oe =
     [\<lparr>ot_name = ''record_decision'', ot_execute = record_decision oe\<rparr>, \<lparr>ot_name = ''add_constraint'', ot_execute = add_constraint oe\<rparr>,
      \<lparr>ot_name = ''record_assumption'', ot_execute = record_assumption oe\<rparr>, \<lparr>ot_name = ''create_inbox_item'', ot_execute = create_inbox_item_tool oe\<rparr>,
      \<lparr>ot_name = ''write_lesson'', ot_execute = write_lesson_tool oe\<rparr>,
      \<lparr>ot_name = ''update_workflow_status'', ot_execute = update_workflow_status_tool oe\<rparr>]"

section \<open>Health\<close>

type_synonym window = "(bool \<times> bool) list"

record health =
  hm_threshold :: rat
  hm_window_size :: nat
  hm_windows :: "(string, window) dict"

definition get_window :: "health \<Rightarrow> string \<Rightarrow> window" where
  "get_window h event_type = get_or_empty (hm_windows h) event_type"

text \<open>Appending to a \<open>deque(maxlen=n)\<close> drops from the left. An event is its success and whether it is a repetition.\<close>

definition push_event :: "nat \<Rightarrow> 'a \<Rightarrow> 'a list \<Rightarrow> 'a list" where
  "push_event n x xs = drop (Suc (length xs) - n) (xs @ [x])"

definition record_event :: "string \<Rightarrow> bool \<Rightarrow> bool \<Rightarrow> health \<Rightarrow> health" where
  "record_event event_type success repetition h =
     h\<lparr>hm_windows := dict_set event_type (push_event (hm_window_size h) (success, repetition) (get_window h event_type)) (hm_windows h)\<rparr>"

record health_metrics =
  postcheck_failures :: nat
  repetitions :: nat
  tool_errors :: nat
  total_events :: nat

definition compute_metrics :: "window \<Rightarrow> health_metrics" where
  "compute_metrics w =
     \<lparr>postcheck_failures = length (filter (\<lambda>(ok, rep). \<not> ok) w), repetitions = length (filter (\<lambda>(ok, rep). rep) w),
      tool_errors = length (filter (\<lambda>(ok, rep). \<not> ok \<and> \<not> rep) w), total_events = length w\<rparr>"

definition is_degraded :: "health \<Rightarrow> string \<Rightarrow> bool" where
  "is_degraded h event_type =
     (let w = get_window h event_type; m = compute_metrics w; rate = (\<lambda>n. of_nat n / of_nat (total_events m))
      in w \<noteq> [] \<and> (rate (postcheck_failures m) > hm_threshold h \<or> rate (repetitions m) > hm_threshold h \<or> rate (tool_errors m) > hm_threshold h))"

section \<open>Verification of a response\<close>

record tool_call =
  tc_name :: string
  tc_input :: jobj
  tc_status :: string

record adapter =
  ad_health :: health
  ad_last :: "(string, tool_call list) dict"
  ad_previous :: "(string, tool_call list) dict"
  ad_current :: "tool_call list"
  ad_state :: ostate

text \<open>
  The adapter's configuration and outside code: the session (the calls it made, its texts, and the trace it left), the construction of a
  \<open>TaskSpec\<close> from arguments (or the text of the exception), texts of validation errors and of numbers, \<open>Decimal\<close> of an argument, the
  session's token counts and resume identifier. The limit is present when the scheduler has a handoff checker and performer.
\<close>

record adapter_config =
  ac_level :: autonomy_level
  ac_budget_limit :: "decimal option"
  ac_spent :: "ostate \<Rightarrow> decimal"
  ac_proportionality :: "decimal option"
  ac_session :: "string \<Rightarrow> ostate \<Rightarrow> (tool_call list \<times> string list) result \<times> ostate"
  ac_task_spec :: "jobj \<Rightarrow> string + task_spec"
  ac_error_text :: "validation_error \<Rightarrow> string"
  ac_exn_text :: "exn \<Rightarrow> string"
  ac_decimal :: "json \<Rightarrow> decimal option"
  ac_money :: "decimal \<Rightarrow> string"
  ac_percent :: "decimal \<Rightarrow> string"
  ac_tokens :: "ostate \<Rightarrow> usage"
  ac_resume_id :: "ostate \<Rightarrow> string"
  ac_context_limit :: "nat option"

definition missing_fields :: "string \<Rightarrow> string list \<Rightarrow> jobj \<Rightarrow> string list" where
  "missing_fields tool required args =
     map (\<lambda>f. ''Schema: '' @ tool @ '' missing required field '' @ quoted f) (filter (\<lambda>f. dict_get args f = None) required)"

definition single_task_flow :: "task_spec \<Rightarrow> workflow_config" where
  "single_task_flow task =
     \<lparr>wc_name = ''validation'', wc_description = ''Schema validation'', wc_tasks = [task], wc_dependencies = [],
      wc_escalation_policy = CONTINUE_INDEPENDENT, wc_services = []\<rparr>"

definition validate_create_task_args :: "adapter_config \<Rightarrow> jobj \<Rightarrow> string list" where
  "validate_create_task_args ac args =
     (let missing = missing_fields ''create_task'' [''name'', ''agent'', ''task_prompt'', ''timeout'', ''context_refinement''] args
      in if missing \<noteq> [] then missing
         else (case ac_task_spec ac args of
                 Inl m \<Rightarrow> [''Schema: create_task args invalid: '' @ m]
               | Inr task \<Rightarrow>
                   (case validate_task_tree (single_task_flow task) False of
                      Inl e \<Rightarrow> [''Schema: create_task args invalid: '' @ ac_exn_text ac e]
                    | Inr errors \<Rightarrow> map (\<lambda>e. ''Schema: '' @ ac_error_text ac e) errors)))"

definition falsy :: "json \<Rightarrow> bool" where
  "falsy j = (case j of JNull \<Rightarrow> True | JBool b \<Rightarrow> \<not> b | JInt i \<Rightarrow> i = 0 | JStr t \<Rightarrow> t = [] | JArr js \<Rightarrow> js = [] | JObj kvs \<Rightarrow> kvs = [])"

definition validate_create_workflow_args :: "jobj \<Rightarrow> string list" where
  "validate_create_workflow_args args =
     (let missing = missing_fields ''create_workflow'' [''name'', ''description'', ''goals''] args
      in if missing \<noteq> [] then missing
         else if falsy (case dict_get args ''goals'' of None \<Rightarrow> JArr [] | Some g \<Rightarrow> g) then [''Schema: create_workflow requires at least one goal'']
         else [])"

definition check_schema_validation :: "adapter_config \<Rightarrow> tool_call list \<Rightarrow> string list" where
  "check_schema_validation ac calls =
     concat (map (\<lambda>tc. if tc_name tc = ''create_task'' then validate_create_task_args ac (tc_input tc)
                      else if tc_name tc = ''create_workflow'' then validate_create_workflow_args (tc_input tc) else []) calls)"

definition input_or_empty :: "jobj \<Rightarrow> string \<Rightarrow> json" where
  "input_or_empty args k = (case dict_get args k of None \<Rightarrow> JStr [] | Some v \<Rightarrow> v)"

definition constraint_key :: "tool_call \<Rightarrow> json \<times> json" where
  "constraint_key tc = (input_or_empty (tc_input tc) ''kind'', input_or_empty (tc_input tc) ''glob'')"

fun duplicate_constraints :: "(json \<times> json) list \<Rightarrow> (json \<times> json) list \<Rightarrow> string list" where
  "duplicate_constraints seen [] = []"
| "duplicate_constraints seen ((kind, glob) # rest) =
     (if (kind, glob) \<in> set seen
      then (''Constraint consistency: duplicate mechanical constraint kind='' @ py_repr kind @ '' glob='' @ py_repr glob) # duplicate_constraints seen rest
      else duplicate_constraints ((kind, glob) # seen) rest)"

definition check_constraint_consistency :: "tool_call list \<Rightarrow> string list" where
  "check_constraint_consistency calls =
     duplicate_constraints [] (map constraint_key (filter (\<lambda>tc. tc_name tc = ''add_constraint'') calls))"

text \<open>\<open>json.dumps(..., sort_keys=True)\<close> of two lists of calls is equal exactly when the calls agree up to the order of keys.\<close>

fun sort_json :: "json \<Rightarrow> json" where
  "sort_json (JArr js) = JArr (map sort_json js)"
| "sort_json (JObj kvs) = JObj (sort_key fst (map (\<lambda>(k, v). (k, sort_json v)) kvs))"
| "sort_json j = j"

definition call_signature :: "tool_call list \<Rightarrow> string" where
  "call_signature calls =
     json_dumps (sort_json (JArr (map (\<lambda>tc. JObj [(''tool_name'', JStr (tc_name tc)), (''input'', JObj (tc_input tc))]) calls)))"

definition check_repetition :: "string \<Rightarrow> adapter \<Rightarrow> string list \<times> adapter" where
  "check_repetition event_type ad =
     (if event_type = [] then ([], ad)
      else ((case dict_get (ad_previous ad) event_type of
               None \<Rightarrow> []
             | Some previous \<Rightarrow>
                 if ad_current ad \<noteq> [] \<and> previous \<noteq> [] \<and> call_signature (ad_current ad) = call_signature previous
                 then [''Repetition detected: identical tool calls for event type '' @ repr_str event_type] else []),
            ad\<lparr>ad_previous := dict_set event_type (ad_current ad) (ad_previous ad)\<rparr>))"

definition check_proportionality :: "adapter_config \<Rightarrow> adapter \<Rightarrow> string list" where
  "check_proportionality ac ad =
     (case (ac_proportionality ac, ac_budget_limit ac) of
        (None, Some _) \<Rightarrow> [''proportionality_threshold required when budget is set'']
      | (None, None) \<Rightarrow> []
      | (Some _, None) \<Rightarrow> []
      | (Some fraction, Some limit) \<Rightarrow>
          (let remaining = limit - ac_spent ac (ad_state ad)
           in if remaining \<le> 0 then []
              else concat (map (\<lambda>tc.
                     (case (if tc_name tc = ''create_workflow'' then dict_get (tc_input tc) ''budget'' else None) of
                        None \<Rightarrow> []
                      | Some JNull \<Rightarrow> []
                      | Some b \<Rightarrow>
                          (case ac_decimal ac b of
                             None \<Rightarrow> []
                           | Some budget \<Rightarrow>
                               if budget > remaining * fraction
                               then [''Proportionality: create_workflow budget $'' @ ac_money ac budget @ '' exceeds '' @ ac_percent ac fraction @
                                     '' of remaining run budget $'' @ ac_money ac remaining]
                               else []))) (ad_current ad))))"

definition verify_actions :: "adapter_config \<Rightarrow> string \<Rightarrow> adapter \<Rightarrow> string list \<times> adapter" where
  "verify_actions ac event_type ad =
     (let schema = check_schema_validation ac (ad_current ad);
          consistency = check_constraint_consistency (ad_current ad);
          (repetition, ad1) = check_repetition event_type ad;
          errors = schema @ consistency @ repetition @ check_proportionality ac ad1
      in (errors, ad1\<lparr>ad_health := record_event event_type (errors = []) (list_ex (str_contains ''Repetition'') errors) (ad_health ad1)\<rparr>))"

section \<open>Fallbacks\<close>

text \<open>
  The events of \<open>protocols/_types/_events.py\<close>. A value that is no identifier or text (an escalation payload, a decimal, a float, a
  snapshot) is present as the two things the code makes of it: its JSON-safe form (\<open>_to_json_safe\<close>) and its \<open>str\<close>.
\<close>

record shown =
  sh_json :: json
  sh_str :: string

datatype overseer_event =
    RunStarted string shown
  | TaskFailed uuid string shown
  | TaskEscalated uuid string uuid shown
  | BudgetThresholdCrossed uuid shown shown shown
  | BudgetExhausted uuid
  | InboxAnswered uuid string string bool
  | InboxRejected uuid string
  | StructuralAdvisory uuid string string
  | HealthDegraded string shown shown

definition event_type :: "overseer_event \<Rightarrow> string" where
  "event_type e =
     (case e of RunStarted _ _ \<Rightarrow> ''RunStarted'' | TaskFailed _ _ _ \<Rightarrow> ''TaskFailed'' | TaskEscalated _ _ _ _ \<Rightarrow> ''TaskEscalated''
      | BudgetThresholdCrossed _ _ _ _ \<Rightarrow> ''BudgetThresholdCrossed'' | BudgetExhausted _ \<Rightarrow> ''BudgetExhausted'' | InboxAnswered _ _ _ _ \<Rightarrow> ''InboxAnswered''
      | InboxRejected _ _ \<Rightarrow> ''InboxRejected'' | StructuralAdvisory _ _ _ \<Rightarrow> ''StructuralAdvisory'' | HealthDegraded _ _ _ \<Rightarrow> ''HealthDegraded'')"

definition of_uuid :: "uuid \<Rightarrow> shown" where
  "of_uuid u = \<lparr>sh_json = JStr (hex_str 32 u), sh_str = uuid_str u\<rparr>"

definition of_str :: "string \<Rightarrow> shown" where
  "of_str x = \<lparr>sh_json = JStr x, sh_str = x\<rparr>"

definition of_flag :: "bool \<Rightarrow> shown" where
  "of_flag b = \<lparr>sh_json = JBool b, sh_str = py_repr (JBool b)\<rparr>"

definition event_fields :: "overseer_event \<Rightarrow> (string, shown) dict" where
  "event_fields e =
     (case e of
        RunStarted intent snapshot \<Rightarrow> [(''intent'', of_str intent), (''config_snapshot'', snapshot)]
      | TaskFailed t name payload \<Rightarrow> [(''task_id'', of_uuid t), (''task_name'', of_str name), (''payload'', payload)]
      | TaskEscalated t name child payload \<Rightarrow>
          [(''task_id'', of_uuid t), (''task_name'', of_str name), (''from_child_task_id'', of_uuid child), (''payload'', payload)]
      | BudgetThresholdCrossed w budget spent pct \<Rightarrow>
          [(''workflow_id'', of_uuid w), (''budget_usd'', budget), (''spent_usd'', spent), (''threshold_pct'', pct)]
      | BudgetExhausted w \<Rightarrow> [(''workflow_id'', of_uuid w)]
      | InboxAnswered i assumed answer b \<Rightarrow>
          [(''item_id'', of_uuid i), (''assumed_option'', of_str assumed), (''actual_answer'', of_str answer), (''contradicts'', of_flag b)]
      | InboxRejected i reason \<Rightarrow> [(''item_id'', of_uuid i), (''rejection_reason'', of_str reason)]
      | StructuralAdvisory t obs sug \<Rightarrow> [(''task_id'', of_uuid t), (''observation'', of_str obs), (''suggestion'', of_str sug)]
      | HealthDegraded ty rate thr \<Rightarrow> [(''event_type'', of_str ty), (''failure_rate'', rate), (''threshold'', thr)])"

text \<open>The fields of the event are added after \<open>event_type\<close>, so a field of that name overwrites it; also in \<open>fallback_data\<close>.\<close>

definition format_event :: "overseer_event \<Rightarrow> string" where
  "format_event e = json_dumps (JObj (fold (\<lambda>(k, v). dict_set k (sh_json v)) (event_fields e) [(''event_type'', JStr (event_type e))]))"

definition FALLBACK_BEHAVIORS :: "(string, string) dict" where
  "FALLBACK_BEHAVIORS =
     [(''TaskFailed'', ''write_to_trace''), (''TaskEscalated'', ''write_to_trace''), (''BudgetThresholdCrossed'', ''maintain_current_allocations''),
      (''BudgetExhausted'', ''maintain_current_allocations''), (''RunStarted'', ''log_only''), (''StructuralAdvisory'', ''write_to_trace'')]"

definition DEFAULT_FALLBACK :: string where
  "DEFAULT_FALLBACK = ''escalate_to_human_inbox''"

definition ask_human :: "overseer_env \<Rightarrow> string \<Rightarrow> string \<Rightarrow> ostate \<Rightarrow> ostate" where
  "ask_human oe decision_type question s =
     \<lparr>os_db = snd (create_inbox_item (oe_ids oe (os_tick s)) (oe_clock oe (os_tick s)) (oe_run_id oe) decision_type question
         (acknowledge [(''acknowledge'', ''Acknowledge and continue'')]) None None None None None None (os_db s)), os_tick = Suc (os_tick s)\<rparr>"

definition escalate_to_human_inbox :: "overseer_env \<Rightarrow> overseer_event \<Rightarrow> ostate \<Rightarrow> ostate" where
  "escalate_to_human_inbox oe e =
     ask_human oe ''degraded_escalation'' (''Overseer is degraded. Event '' @ event_type e @ '' needs human review.'')"

definition fallback_data :: "overseer_event \<Rightarrow> jobj" where
  "fallback_data e =
     fold (\<lambda>(k, v). dict_set k (JStr (sh_str v))) (event_fields e) [(''event_type'', JStr (event_type e)), (''headless_fallback'', JBool True)]"

definition failed_task_name :: "overseer_event \<Rightarrow> string option" where
  "failed_task_name e = (case e of TaskFailed _ name _ \<Rightarrow> Some name | TaskEscalated _ name _ _ \<Rightarrow> Some name | _ \<Rightarrow> None)"

definition write_to_trace :: "overseer_env \<Rightarrow> overseer_event \<Rightarrow> ostate \<Rightarrow> ostate" where
  "write_to_trace oe e s =
     (let s1 = \<lparr>os_db = snd (write_event (oe_ids oe (os_tick s)) (oe_clock oe (os_tick s)) (Some (oe_run_id oe)) (''headless_'' @ event_type e)
                  (fallback_data e) None (oe_principal oe) None (os_db s)), os_tick = Suc (os_tick s)\<rparr>
      in case failed_task_name e of
           None \<Rightarrow> s1
         | Some name \<Rightarrow>
             ask_human oe ''headless_escalation'' (''Task '' @ quoted name @ '' escalated in headless mode. Human review required.'') s1)"

definition fallback :: "overseer_env \<Rightarrow> overseer_event \<Rightarrow> ostate \<Rightarrow> ostate" where
  "fallback oe e s =
     (let behavior = (case dict_get FALLBACK_BEHAVIORS (event_type e) of None \<Rightarrow> DEFAULT_FALLBACK | Some b \<Rightarrow> b)
      in if behavior = ''escalate_to_human_inbox'' then escalate_to_human_inbox oe e s
         else if behavior = ''write_to_trace'' then write_to_trace oe e s
         else s)"

section \<open>Delivery of events\<close>

definition send_to_session :: "adapter_config \<Rightarrow> string \<Rightarrow> adapter \<Rightarrow> tool_call list result \<times> adapter" where
  "send_to_session ac msg ad =
     (case ac_session ac msg (ad_state ad) of
        (Inl e, s) \<Rightarrow> (Inl e, ad\<lparr>ad_state := s\<rparr>)
      | (Inr (calls, texts), s) \<Rightarrow> (Inr calls, ad\<lparr>ad_state := s, ad_current := calls\<rparr>))"

definition send_event :: "adapter_config \<Rightarrow> overseer_event \<Rightarrow> adapter \<Rightarrow> unit result \<times> adapter" where
  "send_event ac e ad =
     (case send_to_session ac (format_event e) ad of
        (Inl x, ad1) \<Rightarrow> (Inl x, ad1)
      | (Inr calls, ad1) \<Rightarrow> (Inr (), ad1\<lparr>ad_last := dict_set (event_type e) calls (ad_last ad1)\<rparr>))"

definition send_correction :: "adapter_config \<Rightarrow> string \<Rightarrow> adapter \<Rightarrow> unit result \<times> adapter" where
  "send_correction ac msg ad = (case send_to_session ac msg ad of (Inl x, ad1) \<Rightarrow> (Inl x, ad1) | (Inr _, ad1) \<Rightarrow> (Inr (), ad1))"

text \<open>The loop of at most three attempts: \<open>left\<close> are left, \<open>first\<close> is the sending of the event or of a correction.\<close>

fun verify_loop :: "adapter_config \<Rightarrow> string \<Rightarrow> nat \<Rightarrow> (adapter \<Rightarrow> unit result \<times> adapter) \<Rightarrow> adapter \<Rightarrow> unit result \<times> adapter" where
  "verify_loop ac ty 0 first ad = (Inr (), ad)"
| "verify_loop ac ty (Suc left) first ad =
     (case first ad of
        (Inl x, ad1) \<Rightarrow> (Inl x, ad1)
      | (Inr _, ad1) \<Rightarrow>
          (let (errors, ad2) = verify_actions ac ty ad1
           in if errors = [] then (Inr (), ad2)
              else verify_loop ac ty left (send_correction ac (''Your previous response had issues:'' @ nl @ join nl errors)) ad2))"

text \<open>\<open>int(limit * 0.9)\<close> for a limit that is not negative (and small enough for the product of floats to be the rounded exact one).\<close>

definition check_handoff_needed :: "usage \<Rightarrow> nat \<Rightarrow> bool" where
  "check_handoff_needed u limit = (input_tokens u + output_tokens u \<ge> int (9 * limit div 10))"

definition HANDOFF_REQUEST :: string where
  "HANDOFF_REQUEST =
     ''Produce a detailed summary of this conversation for handoff to a new session. Include: all decisions made, active constraints, '' @
     ''current assumptions, workflow status, and any pending actions.''"

text \<open>The summary is asked of the old session; the new one, which has the same tools, starts with it.\<close>

definition perform_handoff :: "overseer_env \<Rightarrow> adapter_config \<Rightarrow> ostate \<Rightarrow> unit result \<times> ostate" where
  "perform_handoff oe ac s =
     (case ac_session ac HANDOFF_REQUEST s of
        (Inl e, s1) \<Rightarrow> (Inl e, s1)
      | (Inr (calls, texts), s1) \<Rightarrow>
          (let summary = concat texts;
               data = [(''old_session_id'', JStr (ac_resume_id ac s1)), (''summary_length'', JInt (int (length summary)))];
               s2 = \<lparr>os_db = snd (write_event (oe_ids oe (os_tick s1)) (oe_clock oe (os_tick s1)) (Some (oe_run_id oe)) ''session_handoff'' data None
                       (oe_principal oe) None (os_db s1)), os_tick = Suc (os_tick s1)\<rparr>
           in case ac_session ac (''You are continuing from a previous session. Here is the context summary:'' @ nl @ nl @ summary @ nl @ nl @
                     ''Previous session ID: '' @ ac_resume_id ac s1) s2 of
                (Inl e, s3) \<Rightarrow> (Inl e, s3)
              | (Inr _, s3) \<Rightarrow> (Inr (), s3)))"

definition check_session_handoff :: "overseer_env \<Rightarrow> adapter_config \<Rightarrow> adapter \<Rightarrow> unit result \<times> adapter" where
  "check_session_handoff oe ac ad =
     (case ac_context_limit ac of
        None \<Rightarrow> (Inr (), ad)
      | Some limit \<Rightarrow>
          if check_handoff_needed (ac_tokens ac (ad_state ad)) limit
          then (case perform_handoff oe ac (ad_state ad) of (r, s) \<Rightarrow> (r, ad\<lparr>ad_state := s\<rparr>))
          else (Inr (), ad))"

definition send_overseer_event ::
  "overseer_env \<Rightarrow> adapter_config option \<Rightarrow> overseer_event \<Rightarrow> adapter \<Rightarrow> unit result \<times> adapter" where
  "send_overseer_event oe interface e ad =
     (case interface of
        None \<Rightarrow> (Inr (), ad\<lparr>ad_state := fallback oe e (ad_state ad)\<rparr>)
      | Some ac \<Rightarrow>
          if is_degraded (ad_health ad) (event_type e) then (Inr (), ad\<lparr>ad_state := fallback oe e (ad_state ad)\<rparr>)
          else (case verify_loop ac (event_type e) 3 (send_event ac e) ad of
                  (Inl x, ad1) \<Rightarrow> (Inl x, ad1)
                | (Inr _, ad1) \<Rightarrow> check_session_handoff oe ac ad1))"

definition write_coherence_summary_of_run :: "overseer_env \<Rightarrow> adapter_config option \<Rightarrow> adapter \<Rightarrow> unit result \<times> adapter" where
  "write_coherence_summary_of_run oe interface ad =
     (case interface of
        None \<Rightarrow> (Inr (), ad)
      | Some ac \<Rightarrow>
          (case ac_session ac ''The run is complete. Review the work against the original intent and produce a coherence summary.'' (ad_state ad) of
             (Inl e, s) \<Rightarrow> (Inl e, ad\<lparr>ad_state := s\<rparr>)
           | (Inr (calls, texts), s) \<Rightarrow>
               (Inr (), ad\<lparr>ad_state := (if concat texts = [] then s
                                       else s\<lparr>os_db := write_coherence_summary (oe_run_id oe) (concat texts) (os_db s)\<rparr>)\<rparr>)))"

text \<open>Advisories stored before the run starts: a message and perhaps a suggestion. The list is cleared only when all were sent.\<close>

fun deliver_advisories ::
  "overseer_env \<Rightarrow> adapter_config option \<Rightarrow> (string \<times> string option) list \<Rightarrow> adapter \<Rightarrow> unit result \<times> adapter" where
  "deliver_advisories oe interface [] ad = (Inr (), ad)"
| "deliver_advisories oe interface ((observation, suggestion) # rest) ad =
     (case send_overseer_event oe interface
             (StructuralAdvisory 0 observation (case suggestion of None \<Rightarrow> observation | Some t \<Rightarrow> t)) ad of
        (Inl x, ad1) \<Rightarrow> (Inl x, ad1)
      | (Inr _, ad1) \<Rightarrow> deliver_advisories oe interface rest ad1)"

definition refine_context :: "adapter_config \<Rightarrow> (string \<Rightarrow> string \<Rightarrow> string) \<Rightarrow> string \<Rightarrow> string \<Rightarrow> adapter \<Rightarrow> string result \<times> adapter" where
  "refine_context ac msg name raw ad =
     (case ac_session ac (msg name raw) (ad_state ad) of
        (Inl e, s) \<Rightarrow> (Inl e, ad\<lparr>ad_state := s\<rparr>)
      | (Inr (calls, texts), s) \<Rightarrow> (Inr (if concat texts = [] then raw else concat texts), ad\<lparr>ad_state := s\<rparr>))"

section \<open>Knowledge files\<close>

text \<open>
  A file of the knowledge directory: its path, suffix and stem (of \<open>pathlib\<close>), its text, the hash of its bytes, and, for a TOML file, what
  the generated validator and parser make of it: the text of the diagnostics or the constraints as text, tier and kind.
\<close>

record knowledge_file =
  kf_path :: string
  kf_suffix :: string
  kf_stem :: string
  kf_text :: string
  kf_hash :: string
  kf_constraints :: "string + (string \<times> string \<times> string) list"

text \<open>The state of the loop is the trace and \<open>loaded_hashes\<close>, a live dictionary that the recorded hashes are copied into.\<close>

definition load_markdown :: "overseer_env \<Rightarrow> knowledge_file \<Rightarrow> (string, string) dict \<times> ostate \<Rightarrow> unit result \<times> (string, string) dict \<times> ostate" where
  "load_markdown oe f st =
     (case st of (loaded, s) \<Rightarrow>
        if dict_get loaded (kf_path f) = Some (kf_hash f) then (Inr (), loaded, s)
        else (let (u, db) = write_lesson (oe_ids oe (os_tick s)) (oe_clock oe (os_tick s)) (oe_run_id oe) (kf_text f) [kf_stem f] True
                     (Some [kf_path f]) (os_db s)
              in (Inr (), dict_set (kf_path f) (kf_hash f) loaded,
                  \<lparr>os_db = write_knowledge_hash (oe_run_id oe) (kf_path f) (kf_hash f) db, os_tick = Suc (os_tick s)\<rparr>)))"

fun write_constraints :: "overseer_env \<Rightarrow> (string \<times> string \<times> string) list \<Rightarrow> ostate \<Rightarrow> ostate" where
  "write_constraints oe [] s = s"
| "write_constraints oe ((txt, tier, kind) # cs) s =
     write_constraints oe cs
       \<lparr>os_db = snd (write_constraint (oe_ids oe (os_tick s)) (oe_clock oe (os_tick s)) (oe_run_id oe) txt tier kind None (os_db s)),
        os_tick = Suc (os_tick s)\<rparr>"

definition load_toml :: "overseer_env \<Rightarrow> knowledge_file \<Rightarrow> (string, string) dict \<times> ostate \<Rightarrow> unit result \<times> (string, string) dict \<times> ostate" where
  "load_toml oe f st =
     (case st of (loaded, s) \<Rightarrow>
        if dict_get loaded (kf_path f) = Some (kf_hash f) then (Inr (), loaded, s)
        else (case kf_constraints f of
                Inl diagnostics \<Rightarrow> (Inl ValueError, loaded, s)
              | Inr cs \<Rightarrow>
                  (let s1 = write_constraints oe cs s
                   in (Inr (), dict_set (kf_path f) (kf_hash f) loaded,
                       s1\<lparr>os_db := write_knowledge_hash (oe_run_id oe) (kf_path f) (kf_hash f) (os_db s1)\<rparr>))))"

definition load_knowledge_file where
  "load_knowledge_file oe f st =
     (if kf_suffix f = ''.md'' then load_markdown oe f st
      else if kf_suffix f = ''.toml'' then load_toml oe f st
      else (Inr (), st))"

fun load_knowledge_each :: "overseer_env \<Rightarrow> knowledge_file list \<Rightarrow> (string, string) dict \<times> ostate \<Rightarrow> unit result \<times> (string, string) dict \<times> ostate" where
  "load_knowledge_each oe [] st = (Inr (), st)"
| "load_knowledge_each oe (f # fs) st = (case load_knowledge_file oe f st of (Inl e, st1) \<Rightarrow> (Inl e, st1) | (Inr _, st1) \<Rightarrow> load_knowledge_each oe fs st1)"

definition load_knowledge_files :: "overseer_env \<Rightarrow> knowledge_file list option \<Rightarrow> ostate \<Rightarrow> unit result \<times> ostate" where
  "load_knowledge_files oe directory s =
     (case directory of
        None \<Rightarrow> (Inr (), s)
      | Some files \<Rightarrow>
          (let (r, loaded, s1) = load_knowledge_each oe (sort_key kf_path files) (get_or_empty (db_knowledge_hashes (os_db s)) (oe_run_id oe), s)
           in (r, s1)))"

section \<open>What gating guarantees\<close>

text \<open>Everything a session can do with its tools: any number of calls of any of them with any arguments.\<close>

inductive tool_run :: "otool list \<Rightarrow> ostate \<Rightarrow> ostate \<Rightarrow> bool" for tools where
  run_done: "tool_run tools s s"
| run_call: "t \<in> set tools \<Longrightarrow> tool_run tools (snd (ot_execute t args s)) s' \<Longrightarrow> tool_run tools s s'"

lemma gated_run_keeps:
  assumes "tool_run (gate_tools l tools) s s'"
    and "\<And>t args s. t \<in> set tools \<Longrightarrow> is_autonomous l (action_type (ot_name t)) \<Longrightarrow> f (os_db (snd (ot_execute t args s))) = f (os_db s)"
  shows "f (os_db s') = f (os_db s)"
  using assms(1)
proof (induction rule: tool_run.induct)
  case (run_call t args s s')
  obtain u where u: "u \<in> set tools" "t = gate_tool l u" using run_call(1) by (auto simp: gate_tools_def)
  have "f (os_db (snd (ot_execute t args s))) = f (os_db s)"
    using assms(2) [OF u(1)] by (cases "is_autonomous l (action_type (ot_name u))") (simp_all add: u(2) gate_tool_def)
  then show ?case using run_call.IH by simp
qed simp

lemmas memory_tool_defs = record_decision_def add_constraint_def record_assumption_def create_inbox_item_tool_def write_lesson_tool_def
  update_workflow_status_tool_def invalid_def

lemma decision_keeps: "db_constraints (os_db (snd (record_decision oe args s))) = db_constraints (os_db s)"
  by (auto simp: record_decision_def invalid_def write_decision_def Let_def split: option.splits json.splits)

lemma assumption_keeps: "db_constraints (os_db (snd (record_assumption oe args s))) = db_constraints (os_db s)"
  by (auto simp: record_assumption_def invalid_def write_assumption_def create_inbox_item_def Let_def split: option.splits)

lemma lesson_keeps: "db_constraints (os_db (snd (write_lesson_tool oe args s))) = db_constraints (os_db s)"
  by (auto simp: write_lesson_tool_def invalid_def write_lesson_def Let_def split: option.splits)

definition memory_of :: "trace_db \<Rightarrow> decision_row list \<times> assumption_row list \<times> lesson_row list \<times> constraint_row list" where
  "memory_of db = (db_decisions db, db_assumptions db, db_lessons db, db_constraints db)"

lemma inbox_keeps_memory: "memory_of (os_db (snd (create_inbox_item_tool oe args s))) = memory_of (os_db s)"
  by (auto simp: create_inbox_item_tool_def invalid_def create_inbox_item_def memory_of_def Let_def split: option.splits)

lemma status_keeps_memory: "memory_of (os_db (snd (update_workflow_status_tool oe args s))) = memory_of (os_db s)"
  by (auto simp: update_workflow_status_tool_def invalid_def update_workflow_status_def memory_of_def Let_def split: option.splits)

lemma action_types:
  "action_type ''record_decision'' = ''task_assumption''" "action_type ''record_assumption'' = ''task_assumption''"
  "action_type ''write_lesson'' = ''task_assumption''" "action_type ''add_constraint'' = ''architecture_decision''"
  "action_type ''create_inbox_item'' = ''read_only''" "action_type ''update_workflow_status'' = ''read_only''"
  by code_simp+

lemmas autonomy_defs = is_autonomous_def RULES_def action_types

text \<open>A tool that has nothing to do with the memory tables: the file tools, the notepad and the lifecycle tools are such tools.\<close>

definition keeps_memory :: "otool \<Rightarrow> bool" where
  "keeps_memory t = (\<forall>args s. memory_of (os_db (snd (ot_execute t args s))) = memory_of (os_db s))"

lemma low_memory_tools:
  assumes "t \<in> set (memory_tools oe)" "is_autonomous AL_LOW (action_type (ot_name t))"
  shows "memory_of (os_db (snd (ot_execute t args s))) = memory_of (os_db s)"
  using assms by (auto simp: memory_tools_def autonomy_defs inbox_keeps_memory status_keeps_memory)

lemma medium_memory_tools:
  assumes "t \<in> set (memory_tools oe)" "is_autonomous AL_MEDIUM (action_type (ot_name t))"
  shows "db_constraints (os_db (snd (ot_execute t args s))) = db_constraints (os_db s)"
  using assms inbox_keeps_memory [of oe args s] status_keeps_memory [of oe args s]
  by (auto simp: memory_tools_def autonomy_defs memory_of_def decision_keeps assumption_keeps lesson_keeps)

text \<open>
  C7. Whatever the Overseer's session does with its gated tools, in any number of calls with any arguments: at autonomy \<open>low\<close> no
  decision, assumption, lesson or constraint is recorded, and at \<open>medium\<close> no constraint is. The other tools of the session are any
  tools that leave these tables alone.
\<close>

theorem autonomy_gate:
  assumes "list_all keeps_memory extra" "tool_run (gate_tools l (memory_tools oe @ extra)) s s'"
  shows "(l = AL_LOW \<longrightarrow> memory_of (os_db s') = memory_of (os_db s)) \<and>
    (l = AL_MEDIUM \<longrightarrow> db_constraints (os_db s') = db_constraints (os_db s))"
proof -
  have extra: "memory_of (os_db (snd (ot_execute t args s))) = memory_of (os_db s)" if "t \<in> set extra" for t args s
    using assms(1) that by (simp add: list_all_iff keeps_memory_def)
  have low: "memory_of (os_db s') = memory_of (os_db s)" if "l = AL_LOW"
    by (rule gated_run_keeps [OF assms(2)]) (use that extra low_memory_tools in auto)
  have medium: "db_constraints (os_db s') = db_constraints (os_db s)" if "l = AL_MEDIUM"
    by (rule gated_run_keeps [OF assms(2)]) (use that extra medium_memory_tools in \<open>auto simp: memory_of_def\<close>)
  show ?thesis using low medium by blast
qed

definition env_sample :: overseer_env where
  "env_sample = \<lparr>oe_run_id = 1, oe_principal = 2, oe_ids = (\<lambda>n. 100 + n), oe_clock = (\<lambda>n. 0), oe_parse_uuid = (\<lambda>x. None),
     oe_parse_time = (\<lambda>x. None)\<rparr>"

definition state_sample :: ostate where
  "state_sample = \<lparr>os_db = empty_db, os_tick = 0\<rparr>"

definition constraint_call :: jobj where
  "constraint_call = [(''kind'', JStr ''no_new_files''), (''text'', JStr ''x''), (''tier'', JStr ''mechanical'')]"

lemma constraint_run:
  "tool_run (gate_tools l (memory_tools oe @ [])) s
     (snd (ot_execute (gate_tool l \<lparr>ot_name = ''add_constraint'', ot_execute = add_constraint oe\<rparr>) constraint_call s))"
  by (rule run_call [OF _ run_done]) (simp add: gate_tools_def memory_tools_def)

theorem autonomy_gate_witness:
  "db_constraints (os_db (snd (ot_execute (gate_tool AL_MEDIUM \<lparr>ot_name = ''add_constraint'', ot_execute = add_constraint env_sample\<rparr>)
      constraint_call state_sample))) = [] \<and>
   length (db_constraints (os_db (snd (ot_execute (gate_tool AL_HIGH \<lparr>ot_name = ''add_constraint'', ot_execute = add_constraint env_sample\<rparr>)
      constraint_call state_sample)))) = 1"
proof
  show "db_constraints (os_db (snd (ot_execute (gate_tool AL_MEDIUM \<lparr>ot_name = ''add_constraint'', ot_execute = add_constraint env_sample\<rparr>)
      constraint_call state_sample))) = []"
    using autonomy_gate [OF _ constraint_run [of AL_MEDIUM env_sample state_sample]] by (simp add: state_sample_def empty_db_def)
  show "length (db_constraints (os_db (snd (ot_execute (gate_tool AL_HIGH \<lparr>ot_name = ''add_constraint'', ot_execute = add_constraint env_sample\<rparr>)
      constraint_call state_sample)))) = 1"
    by code_simp
qed

section \<open>Health is never regained\<close>

lemma get_window_record:
  "get_window (record_event ty ok rep h) ty' = (if ty' = ty then push_event (hm_window_size h) (ok, rep) (get_window h ty) else get_window h ty')"
  by (simp add: record_event_def get_window_def get_or_empty_def)

lemma threshold_record: "hm_threshold (record_event ty ok rep h) = hm_threshold h" "hm_window_size (record_event ty ok rep h) = hm_window_size h"
  by (simp_all add: record_event_def)

lemma is_degraded_window:
  "get_window h' ty = get_window h ty \<Longrightarrow> hm_threshold h' = hm_threshold h \<Longrightarrow> is_degraded h' ty = is_degraded h ty"
  by (simp add: is_degraded_def)

definition same_except :: "string \<Rightarrow> health \<Rightarrow> health \<Rightarrow> bool" where
  "same_except ty h h' = (hm_threshold h' = hm_threshold h \<and> (\<forall>ty'. ty' \<noteq> ty \<longrightarrow> get_window h' ty' = get_window h ty'))"

lemma verify_actions_health:
  "\<exists>rep. ad_health (snd (verify_actions ac ty ad)) = record_event ty (fst (verify_actions ac ty ad) = []) rep (ad_health ad)"
  by (auto simp: verify_actions_def check_repetition_def Let_def split: prod.splits if_splits)

lemma send_to_session_health: "ad_health (snd (send_to_session ac msg ad)) = ad_health ad"
  by (simp add: send_to_session_def split: prod.splits sum.splits)

lemma send_correction_health [simp]: "ad_health (snd (send_correction ac msg ad)) = ad_health ad"
  using send_to_session_health [of ac msg ad] by (auto simp: send_correction_def split: prod.splits sum.splits)

lemma send_event_health [simp]: "ad_health (snd (send_event ac e ad)) = ad_health ad"
  using send_to_session_health [of ac "format_event e" ad] by (auto simp: send_event_def split: prod.splits sum.splits)

lemma verify_loop_health:
  assumes "\<And>ad. ad_health (snd (first ad)) = ad_health ad"
  shows "same_except ty (ad_health ad) (ad_health (snd (verify_loop ac ty n first ad)))"
  using assms
proof (induction ac ty n first ad rule: verify_loop.induct)
  case (2 ac ty left first ad)
  obtain r ad1 where first: "first ad = (r, ad1)" by fastforce
  obtain errors ad2 where verify: "verify_actions ac ty ad1 = (errors, ad2)" by fastforce
  have h1: "ad_health ad1 = ad_health ad" using "2.prems" [of ad] first by simp
  have h2: "same_except ty (ad_health ad) (ad_health ad2)"
    using verify_actions_health [of ac ty ad1] verify h1 by (auto simp: same_except_def get_window_record threshold_record)
  show ?case
    using "2.IH" [OF first [symmetric] _ verify [symmetric]] first verify h1 h2
    by (cases r) (auto simp: same_except_def)
qed (simp add: same_except_def)

lemma check_session_handoff_health [simp]: "ad_health (snd (check_session_handoff oe ac ad)) = ad_health ad"
  by (simp add: check_session_handoff_def split: option.splits prod.splits)

lemma send_overseer_event_health:
  "same_except (event_type e) (ad_health ad) (ad_health (snd (send_overseer_event oe interface e ad)))"
proof (cases interface)
  case (Some ac)
  then show ?thesis
    using verify_loop_health [of "send_event ac e" "event_type e" ad ac 3] check_session_handoff_health [of oe ac]
    by (auto simp: send_overseer_event_def same_except_def split: prod.splits sum.splits) 
qed (simp add: send_overseer_event_def same_except_def)

lemma degraded_kept:
  assumes "is_degraded (ad_health ad) ty"
  shows "is_degraded (ad_health (snd (send_overseer_event oe (Some ac) e ad))) ty"
proof (cases "event_type e = ty")
  case True
  then show ?thesis using assms by (simp add: send_overseer_event_def)
next
  case False
  then have "is_degraded (ad_health (snd (send_overseer_event oe (Some ac) e ad))) ty = is_degraded (ad_health ad) ty"
    using send_overseer_event_health [of e ad oe "Some ac"] by (intro is_degraded_window) (auto simp: same_except_def)
  then show ?thesis using assms by simp
qed

definition send_all :: "overseer_env \<Rightarrow> adapter_config \<Rightarrow> overseer_event list \<Rightarrow> adapter \<Rightarrow> adapter" where
  "send_all oe ac es ad = fold (\<lambda>e a. snd (send_overseer_event oe (Some ac) e a)) es ad"

lemma send_all_degraded: "is_degraded (ad_health ad) ty \<Longrightarrow> is_degraded (ad_health (send_all oe ac es ad)) ty"
  unfolding send_all_def by (induction es arbitrary: ad) (simp_all add: degraded_kept)

lemma push_two: "2 \<le> n \<Longrightarrow> push_event n y (push_event n x []) = [x, y]"
  by (simp add: push_event_def)

lemma half_failed:
  assumes "get_window h ty = [(False, r1), (True, r2)]" "hm_threshold h < 1 / 2"
  shows "is_degraded h ty"
  using assms by (simp add: is_degraded_def compute_metrics_def)

lemma corrected_slip:
  assumes "get_window (ad_health ad) (event_type e) = []" "hm_threshold (ad_health ad) < 1 / 2" "2 \<le> hm_window_size (ad_health ad)"
    and "send_event ac e ad = (Inr (), ad1)" "verify_actions ac (event_type e) ad1 = (errors, ad2)" "errors \<noteq> []"
    and "send_correction ac (''Your previous response had issues:'' @ nl @ join nl errors) ad2 = (Inr (), ad3)"
    and "verify_actions ac (event_type e) ad3 = ([], ad4)"
  shows "is_degraded (ad_health (snd (send_overseer_event oe (Some ac) e ad))) (event_type e)"
proof -
  have h1: "ad_health ad1 = ad_health ad" using send_event_health [of ac e ad] assms(4) by simp
  obtain r1 where h2: "ad_health ad2 = record_event (event_type e) False r1 (ad_health ad)"
    using verify_actions_health [of ac "event_type e" ad1] assms(5,6) h1 by auto
  have h3: "ad_health ad3 = ad_health ad2" using send_correction_health [of ac _ ad2] assms(7) by (metis snd_conv)
  obtain r2 where h4: "ad_health ad4 = record_event (event_type e) True r2 (ad_health ad2)"
    using verify_actions_health [of ac "event_type e" ad3] assms(8) h3 by auto
  have "\<not> is_degraded (ad_health ad) (event_type e)" using assms(1) by (simp add: is_degraded_def)
  then have "ad_health (snd (send_overseer_event oe (Some ac) e ad)) = ad_health ad4"
    using assms(4-8) by (simp add: send_overseer_event_def numeral_3_eq_3)
  moreover have "get_window (ad_health ad4) (event_type e) = [(False, r1), (True, r2)]"
    using assms(1,3) push_two by (simp add: h2 h4 get_window_record threshold_record)
  moreover have "hm_threshold (ad_health ad4) < 1 / 2" using assms(2) by (simp add: h2 h4 threshold_record)
  ultimately show ?thesis using half_failed by simp
qed

text \<open>
  Degraded mode has no way back, and one corrected slip is enough to enter it. When the first response to the first event of a
  type fails verification and the correction passes, with a threshold below one half (0.3 by default), the Overseer is degraded for that
  type; whatever events follow, every later event of the type goes to the fallback and never to the Overseer, since only verified
  responses are recorded and degraded events have none.
\<close>

theorem one_slip_is_final:
  assumes "get_window (ad_health ad) (event_type e) = []" "hm_threshold (ad_health ad) < 1 / 2" "2 \<le> hm_window_size (ad_health ad)"
    and "send_event ac e ad = (Inr (), ad1)" "verify_actions ac (event_type e) ad1 = (errors, ad2)" "errors \<noteq> []"
    and "send_correction ac (''Your previous response had issues:'' @ nl @ join nl errors) ad2 = (Inr (), ad3)"
    and "verify_actions ac (event_type e) ad3 = ([], ad4)"
    and "event_type e' = event_type e"
  shows "send_overseer_event oe (Some ac) e' (send_all oe ac (e # es) ad) =
    (Inr (), (send_all oe ac (e # es) ad)\<lparr>ad_state := fallback oe e' (ad_state (send_all oe ac (e # es) ad))\<rparr>)"
proof -
  have "is_degraded (ad_health (send_all oe ac es (snd (send_overseer_event oe (Some ac) e ad)))) (event_type e)"
    by (rule send_all_degraded [OF corrected_slip [OF assms(1-8)]])
  then show ?thesis using assms(9) by (simp add: send_overseer_event_def send_all_def)
qed

text \<open>A session that forgets the goals of a workflow and, told so, gives up on it.\<close>

definition forgetful_session :: "string \<Rightarrow> ostate \<Rightarrow> (tool_call list \<times> string list) result \<times> ostate" where
  "forgetful_session msg s =
     (Inr (if startswith msg ''Your previous'' then []
           else [\<lparr>tc_name = ''create_workflow'', tc_input = [(''name'', JStr ''w''), (''description'', JStr ''d'')], tc_status = ''ok''\<rparr>], []), s)"

definition config_sample :: adapter_config where
  "config_sample = \<lparr>ac_level = AL_MAX, ac_budget_limit = None, ac_spent = (\<lambda>s. 0), ac_proportionality = None, ac_session = forgetful_session,
     ac_task_spec = (\<lambda>a. Inl []), ac_error_text = (\<lambda>e. []), ac_exn_text = (\<lambda>e. []), ac_decimal = (\<lambda>j. None), ac_money = (\<lambda>d. []),
     ac_percent = (\<lambda>d. []), ac_tokens = (\<lambda>s. \<lparr>input_tokens = 0, output_tokens = 0, reasoning_tokens = 0, cache_read_tokens = 0, cache_write_tokens = 0\<rparr>),
     ac_resume_id = (\<lambda>s. []), ac_context_limit = None\<rparr>"

definition adapter_sample :: adapter where
  "adapter_sample = \<lparr>ad_health = \<lparr>hm_threshold = 3 / 10, hm_window_size = 10, hm_windows = []\<rparr>, ad_last = [], ad_previous = [], ad_current = [],
     ad_state = state_sample\<rparr>"

definition sent_sample :: adapter where
  "sent_sample = snd (send_event config_sample (BudgetExhausted 7) adapter_sample)"

definition checked_sample :: "string list \<times> adapter" where
  "checked_sample = verify_actions config_sample ''BudgetExhausted'' sent_sample"

definition corrected_sample :: "unit result \<times> adapter" where
  "corrected_sample =
     send_correction config_sample (''Your previous response had issues:'' @ nl @ join nl (fst checked_sample)) (snd checked_sample)"

lemma with_first: "fst p = a \<Longrightarrow> p = (a, snd p)"
  by auto

lemma slip_sample:
  "send_event config_sample (BudgetExhausted 7) adapter_sample = (Inr (), sent_sample)"
  "fst checked_sample \<noteq> []"
  "corrected_sample = (Inr (), snd corrected_sample)"
  "verify_actions config_sample ''BudgetExhausted'' (snd corrected_sample) =
     ([], snd (verify_actions config_sample ''BudgetExhausted'' (snd corrected_sample)))"
  unfolding sent_sample_def by (rule with_first, code_simp, code_simp, rule with_first, code_simp, rule with_first, code_simp)

theorem one_slip_is_final_witness:
  "send_overseer_event env_sample (Some config_sample) (BudgetExhausted 9)
      (send_all env_sample config_sample (BudgetExhausted 7 # [BudgetExhausted 8]) adapter_sample) =
    (Inr (), (send_all env_sample config_sample (BudgetExhausted 7 # [BudgetExhausted 8]) adapter_sample)
       \<lparr>ad_state := fallback env_sample (BudgetExhausted 9)
          (ad_state (send_all env_sample config_sample (BudgetExhausted 7 # [BudgetExhausted 8]) adapter_sample))\<rparr>)"
proof (rule one_slip_is_final)
  show "send_event config_sample (BudgetExhausted 7) adapter_sample = (Inr (), sent_sample)" by (rule slip_sample)
  show "verify_actions config_sample (event_type (BudgetExhausted 7)) sent_sample = (fst checked_sample, snd checked_sample)"
    by (simp add: event_type_def checked_sample_def)
  show "send_correction config_sample (''Your previous response had issues:'' @ nl @ join nl (fst checked_sample)) (snd checked_sample) =
      (Inr (), snd corrected_sample)"
    using slip_sample(3) by (simp add: corrected_sample_def)
  show "verify_actions config_sample (event_type (BudgetExhausted 7)) (snd corrected_sample) =
      ([], snd (verify_actions config_sample ''BudgetExhausted'' (snd corrected_sample)))"
    using slip_sample(4) by (simp add: event_type_def)
qed (use slip_sample(2) in \<open>simp_all add: adapter_sample_def get_window_def get_or_empty_def event_type_def\<close>)

section \<open>Duplicate constraints\<close>

text \<open>
  The arguments of \<open>add_constraint\<close> that its schema admits have no key \<open>glob\<close> (what a constraint applies to is inside \<open>args\<close>), so
  two valid constraints of one kind in one response are always reported as duplicates.
\<close>

lemma accepted_has_no_glob:
  assumes "fst (add_constraint oe args s) = Inr x"
  shows "dict_get args ''glob'' = None"
proof -
  have only: "only_keys [''kind'', ''text'', ''tier'', ''args''] args"
    using assms by (auto simp: add_constraint_def invalid_def split: option.splits if_splits)
  show ?thesis
  proof (rule ccontr)
    assume "dict_get args ''glob'' \<noteq> None"
    then have "''glob'' \<in> set (dict_keys args)" by (simp add: dict_get_None_iff)
    then have "''glob'' \<in> set [''kind'', ''text'', ''tier'', ''args'']" using only unfolding only_keys_def list_all_iff by blast
    then show False by simp
  qed
qed

theorem constraints_of_a_kind_rejected:
  assumes "fst (add_constraint oe (tc_input t1) s1) = Inr x1" "fst (add_constraint oe (tc_input t2) s2) = Inr x2"
    and "tc_name t1 = ''add_constraint''" "tc_name t2 = ''add_constraint''"
    and "dict_get (tc_input t1) ''kind'' = dict_get (tc_input t2) ''kind''"
  shows "check_constraint_consistency [t1, t2] \<noteq> []"
  using assms accepted_has_no_glob [OF assms(1)] accepted_has_no_glob [OF assms(2)]
  by (simp add: check_constraint_consistency_def constraint_key_def input_or_empty_def)

section \<open>Loading knowledge\<close>

definition hashes_of :: "overseer_env \<Rightarrow> ostate \<Rightarrow> (string, string) dict" where
  "hashes_of oe s = get_or_empty (db_knowledge_hashes (os_db s)) (oe_run_id oe)"

definition is_loaded :: "(string, string) dict \<Rightarrow> knowledge_file \<Rightarrow> bool" where
  "is_loaded loaded f = (kf_suffix f \<in> {''.md'', ''.toml''} \<longrightarrow> dict_get loaded (kf_path f) = Some (kf_hash f))"

lemma write_constraints_hashes: "db_knowledge_hashes (os_db (write_constraints oe cs s)) = db_knowledge_hashes (os_db s)"
  by (induction oe cs s rule: write_constraints.induct) (simp_all add: write_constraint_def)

lemma load_one:
  assumes "load_knowledge_file oe f (hashes_of oe s, s) = (Inr (), loaded1, s1)"
  shows "loaded1 = hashes_of oe s1" "is_loaded loaded1 f"
    "p \<noteq> kf_path f \<Longrightarrow> dict_get loaded1 p = dict_get (hashes_of oe s) p"
  using assms
  by (auto simp: load_knowledge_file_def load_markdown_def load_toml_def is_loaded_def write_lesson_def hashes_of_def write_knowledge_hash_def
      write_constraints_hashes get_or_empty_def Let_def split: if_splits sum.splits)

lemma knowledge_each_loads:
  "load_knowledge_each oe fs (hashes_of oe s, s) = (Inr (), loaded1, s1) \<Longrightarrow> distinct (map kf_path fs) \<Longrightarrow>
   loaded1 = hashes_of oe s1 \<and> (\<forall>f \<in> set fs. is_loaded loaded1 f) \<and>
   (\<forall>p. p \<notin> kf_path ` set fs \<longrightarrow> dict_get loaded1 p = dict_get (hashes_of oe s) p)"
proof (induction fs arbitrary: s)
  case (Cons f fs)
  obtain loaded2 s2 where one: "load_knowledge_file oe f (hashes_of oe s, s) = (Inr (), loaded2, s2)"
    and rest: "load_knowledge_each oe fs (loaded2, s2) = (Inr (), loaded1, s1)"
    using Cons.prems(1) by (auto split: prod.splits sum.splits)
  note step = load_one [OF one]
  have IH: "loaded1 = hashes_of oe s1 \<and> (\<forall>f \<in> set fs. is_loaded loaded1 f) \<and>
      (\<forall>p. p \<notin> kf_path ` set fs \<longrightarrow> dict_get loaded1 p = dict_get (hashes_of oe s2) p)"
    using Cons.IH [OF rest [unfolded step(1)]] Cons.prems(2) by force
  have "is_loaded loaded1 f" using IH step(1,2) Cons.prems(2) by (auto simp: is_loaded_def)
  moreover have "dict_get loaded1 p = dict_get (hashes_of oe s) p" if "p \<notin> kf_path ` set (f # fs)" for p
    using IH that step(1) load_one(3) [OF one, of p] by force
  ultimately show ?case using IH by auto
qed simp

lemma knowledge_each_skips: "\<forall>f \<in> set fs. is_loaded loaded f \<Longrightarrow> load_knowledge_each oe fs (loaded, s) = (Inr (), loaded, s)"
  by (induction fs) (auto simp: load_knowledge_file_def load_markdown_def load_toml_def is_loaded_def)

text \<open>
  Loading the knowledge directory twice in one run is loading it once: when the first load succeeds, the second finds every file's
  hash recorded and writes nothing.
\<close>

theorem load_knowledge_idempotent:
  assumes "distinct (map kf_path files)" "load_knowledge_files oe (Some files) s = (Inr (), s1)"
  shows "load_knowledge_files oe (Some files) s1 = (Inr (), s1)"
proof -
  obtain loaded where first: "load_knowledge_each oe (sort_key kf_path files) (hashes_of oe s, s) = (Inr (), loaded, s1)"
    using assms(2) by (auto simp: load_knowledge_files_def hashes_of_def split: prod.splits)
  have "distinct (map kf_path (sort_key kf_path files))"
    using assms(1) by (metis distinct_sort distinct_map set_sort)
  from knowledge_each_loads [OF first this] have "load_knowledge_each oe (sort_key kf_path files) (hashes_of oe s1, s1) = (Inr (), hashes_of oe s1, s1)"
    by (intro knowledge_each_skips) auto
  then show ?thesis by (simp add: load_knowledge_files_def hashes_of_def)
qed

definition file_sample :: knowledge_file where
  "file_sample = \<lparr>kf_path = ''k/api.md'', kf_suffix = ''.md'', kf_stem = ''api'', kf_text = ''Use v2.'', kf_hash = ''h1'', kf_constraints = Inl []\<rparr>"

theorem load_knowledge_idempotent_witness:
  "load_knowledge_files env_sample (Some [file_sample]) (snd (load_knowledge_files env_sample (Some [file_sample]) state_sample)) =
     (Inr (), snd (load_knowledge_files env_sample (Some [file_sample]) state_sample)) \<and>
   length (db_lessons (os_db (snd (load_knowledge_files env_sample (Some [file_sample]) state_sample)))) = 1"
proof
  have "fst (load_knowledge_files env_sample (Some [file_sample]) state_sample) = Inr ()" by code_simp
  from load_knowledge_idempotent [OF _ with_first [OF this]]
  show "load_knowledge_files env_sample (Some [file_sample]) (snd (load_knowledge_files env_sample (Some [file_sample]) state_sample)) =
     (Inr (), snd (load_knowledge_files env_sample (Some [file_sample]) state_sample))" by simp
  show "length (db_lessons (os_db (snd (load_knowledge_files env_sample (Some [file_sample]) state_sample)))) = 1" by code_simp
qed

text \<open>
  The hashes are kept per run, so the first load of every run writes the permanent lessons of unchanged files again, whatever
  earlier runs recorded.
\<close>

theorem lessons_rewritten_each_run:
  assumes "hashes_of oe s = []" "kf_suffix f = ''.md''"
  shows "length (db_lessons (os_db (snd (load_knowledge_files oe (Some [f]) s)))) = Suc (length (db_lessons (os_db s)))"
  using assms by (simp add: load_knowledge_files_def load_knowledge_file_def load_markdown_def hashes_of_def write_lesson_def
      write_knowledge_hash_def)

end
