(* ===== verification/Notification.thy ===== *)
theory Notification
  imports Identity
begin

text \<open>
  Notifications for principals: the in-memory backend (\<open>notification/_inmemory.py\<close>), the stream with catch-up
  (\<open>notification/_stream.py\<close>), its endpoint (\<open>notification/_router.py\<close>) and the service functions
  (\<open>services/_notifications.py\<close>). Times and identifiers are arguments of the operations that draw them.
\<close>

section \<open>Deliveries\<close>

record notification_delivery =
  dl_id :: uuid
  dl_target :: uuid
  dl_source_ref :: string
  dl_payload :: jobj
  dl_created_at :: time
  dl_acknowledged_at :: "time option"

type_synonym deliveries = "(uuid, notification_delivery) dict"

definition create_delivery :: "uuid \<Rightarrow> time \<Rightarrow> uuid \<Rightarrow> string \<Rightarrow> jobj \<Rightarrow> deliveries \<Rightarrow> uuid \<times> deliveries" where
  "create_delivery delivery_id now target source_ref payload ds =
     (delivery_id,
      dict_set delivery_id
        \<lparr>dl_id = delivery_id, dl_target = target, dl_source_ref = source_ref, dl_payload = payload, dl_created_at = now,
         dl_acknowledged_at = None\<rparr> ds)"

text \<open>The loop breaks after an append that reaches the limit, so a limit below one still gives one delivery.\<close>

fun list_loop :: "(notification_delivery \<Rightarrow> bool) \<Rightarrow> int \<Rightarrow> notification_delivery list \<Rightarrow> notification_delivery list \<Rightarrow> notification_delivery list" where
  "list_loop keep limit results [] = results"
| "list_loop keep limit results (d # ds) =
     (if \<not> keep d then list_loop keep limit results ds
      else if int (length (results @ [d])) \<ge> limit then results @ [d]
      else list_loop keep limit (results @ [d]) ds)"

definition listed :: "uuid \<Rightarrow> bool \<Rightarrow> uuid option \<Rightarrow> notification_delivery \<Rightarrow> bool" where
  "listed principal_id unacknowledged_only cursor d =
     (dl_target d = principal_id \<and> \<not> (unacknowledged_only \<and> dl_acknowledged_at d \<noteq> None) \<and>
      (case cursor of None \<Rightarrow> True | Some c \<Rightarrow> \<not> dl_id d \<le> c))"

definition list_for_principal :: "uuid \<Rightarrow> bool \<Rightarrow> uuid option \<Rightarrow> int \<Rightarrow> deliveries \<Rightarrow> notification_delivery list" where
  "list_for_principal principal_id unacknowledged_only cursor limit ds =
     list_loop (listed principal_id unacknowledged_only cursor) limit [] (sort_key dl_created_at (dict_values ds))"

definition acknowledge_row :: "time \<Rightarrow> uuid \<Rightarrow> deliveries \<Rightarrow> deliveries result" where
  "acknowledge_row now delivery_id ds =
     (case dict_get ds delivery_id of
        None \<Rightarrow> Inl KeyError
      | Some existing \<Rightarrow>
          if dl_acknowledged_at existing \<noteq> None then Inl KeyError
          else Inr (dict_set delivery_id (existing\<lparr>dl_acknowledged_at := Some now\<rparr>) ds))"

section \<open>Services\<close>

definition list_deliveries :: "principal \<Rightarrow> bool \<Rightarrow> uuid option \<Rightarrow> int \<Rightarrow> deliveries \<Rightarrow> notification_delivery list" where
  "list_deliveries caller unacknowledged_only cursor limit ds = list_for_principal (pr_id caller) unacknowledged_only cursor limit ds"

definition acknowledge_delivery :: "time \<Rightarrow> principal \<Rightarrow> uuid \<Rightarrow> deliveries \<Rightarrow> deliveries result" where
  "acknowledge_delivery now caller delivery_id ds =
     (if delivery_id \<notin> set (map dl_id (list_for_principal (pr_id caller) False None 1000 ds)) then Inl PermissionError
      else acknowledge_row now delivery_id ds)"

section \<open>The stream\<close>

text \<open>
  The generator subscribes, replays, then handles the queued notices in order; \<open>ds\<close> are the deliveries at the replay, \<open>ds'\<close> those the
  later fetches see, \<open>ns\<close> the notices received since the subscription. Heartbeats carry no delivery and are left out.
\<close>

record delivery_notice =
  dn_id :: "string option"
  dn_target :: "string option"

definition on_delivery_notice :: "uuid \<Rightarrow> delivery_notice list \<Rightarrow> delivery_notice list" where
  "on_delivery_notice principal_id ns = filter (\<lambda>n. dn_target n = Some (uuid_str principal_id)) ns"

definition fetch_live_delivery ::
  "(string \<Rightarrow> uuid option) \<Rightarrow> deliveries \<Rightarrow> delivery_notice \<Rightarrow> string list \<Rightarrow> notification_delivery option \<times> string list" where
  "fetch_live_delivery parse_uuid ds n seen_ids =
     (case dn_id n of
        None \<Rightarrow> (None, seen_ids)
      | Some delivery_id_str \<Rightarrow>
          if delivery_id_str \<in> set seen_ids then (None, seen_ids)
          else (case (parse_uuid delivery_id_str, Option.bind (dn_target n) parse_uuid) of
                  (Some _, Some target) \<Rightarrow>
                    (case find (\<lambda>d. uuid_str (dl_id d) = delivery_id_str) (list_for_principal target False None 50 ds) of
                       None \<Rightarrow> (None, seen_ids)
                     | Some d \<Rightarrow> (Some d, seen_ids @ [delivery_id_str]))
                | _ \<Rightarrow> (None, seen_ids)))"

fun live_deliveries :: "(string \<Rightarrow> uuid option) \<Rightarrow> deliveries \<Rightarrow> delivery_notice list \<Rightarrow> string list \<Rightarrow> notification_delivery list" where
  "live_deliveries parse_uuid ds [] seen_ids = []"
| "live_deliveries parse_uuid ds (n # ns) seen_ids =
     (case fetch_live_delivery parse_uuid ds n seen_ids of
        (None, seen) \<Rightarrow> live_deliveries parse_uuid ds ns seen
      | (Some d, seen) \<Rightarrow> d # live_deliveries parse_uuid ds ns seen)"

text \<open>A last identifier that is no UUID is ignored. The replay uses the default limit of 50.\<close>

definition notification_sse_generator ::
  "(string \<Rightarrow> uuid option) \<Rightarrow> uuid \<Rightarrow> string option \<Rightarrow> deliveries \<Rightarrow> deliveries \<Rightarrow> delivery_notice list \<Rightarrow> notification_delivery list" where
  "notification_sse_generator parse_uuid principal_id last_event_id ds ds' ns =
     (let replayed = list_for_principal principal_id True (Option.bind last_event_id parse_uuid) 50 ds
      in replayed @ live_deliveries parse_uuid ds' (on_delivery_notice principal_id ns) (map (uuid_str \<circ> dl_id) replayed))"

definition serialize_delivery :: "(time \<Rightarrow> string) \<Rightarrow> notification_delivery \<Rightarrow> jobj" where
  "serialize_delivery isoformat d =
     [(''id'', JStr (uuid_str (dl_id d))), (''target_principal_id'', JStr (uuid_str (dl_target d))), (''source_ref'', JStr (dl_source_ref d)),
      (''payload'', JObj (dl_payload d)), (''created_at'', JStr (isoformat (dl_created_at d))),
      (''acknowledged_at'', case dl_acknowledged_at d of None \<Rightarrow> JNull | Some t \<Rightarrow> JStr (isoformat t))]"

definition format_sse_event :: "(time \<Rightarrow> string) \<Rightarrow> notification_delivery \<Rightarrow> string" where
  "format_sse_event isoformat d =
     ''id: '' @ uuid_str (dl_id d) @ [CHR 0x0A] @ ''event: notification'' @ [CHR 0x0A] @ ''data: '' @
     json_dumps (JObj (serialize_delivery isoformat d)) @ [CHR 0x0A, CHR 0x0A]"

section \<open>The endpoint\<close>

text \<open>The answer is a status or the principal and last identifier the generator starts with. A caller without a principal raises.\<close>

datatype stream_answer = Refuse nat | Stream uuid "string option"

definition notification_stream_handler ::
  "(string \<Rightarrow> uuid option) \<Rightarrow> auth_context option \<Rightarrow> string option \<Rightarrow> string option \<Rightarrow> principals \<Rightarrow> stream_answer result" where
  "notification_stream_handler parse_uuid auth requested_raw last_event_id ps =
     (case auth of
        None \<Rightarrow> Inr (Refuse 401)
      | Some ctx \<Rightarrow>
          (case resolve_caller_principal ctx ps of
             Inl e \<Rightarrow> Inl e
           | Inr caller \<Rightarrow>
               (case requested_raw of
                  None \<Rightarrow> Inr (Stream (pr_id caller) last_event_id)
                | Some raw \<Rightarrow>
                    (case parse_uuid raw of
                       None \<Rightarrow> Inr (Refuse 400)
                     | Some requested \<Rightarrow>
                         if requested \<noteq> pr_id caller
                         then if ax_trust_tier ctx \<noteq> SYSTEM then Inr (Refuse 403) else Inr (Stream requested last_event_id)
                         else Inr (Stream (pr_id caller) last_event_id)))))"

section \<open>Listing\<close>

lemma list_loop_take:
  "int (length results) < max 1 limit \<Longrightarrow>
   list_loop keep limit results ds = results @ take (nat (max 1 limit) - length results) (filter keep ds)"
proof (induction ds arbitrary: results)
  case (Cons d ds)
  consider "\<not> keep d" | "keep d" "int (length (results @ [d])) \<ge> limit" | "keep d" "int (length (results @ [d])) < limit" by linarith
  then show ?case
  proof cases
    case 2
    then have "nat (max 1 limit) - length results = 1" using Cons.prems by auto
    then show ?thesis using 2 by simp
  next
    case 3
    then have "nat (max 1 limit) - length results = Suc (nat (max 1 limit) - length (results @ [d]))" by auto
    then show ?thesis using 3 Cons.IH [of "results @ [d]"] by (simp add: max_def split: if_splits)
  qed (use Cons in simp)
qed simp

lemma list_for_principal_take:
  "list_for_principal p un c limit ds = take (nat (max 1 limit)) (filter (listed p un c) (sort_key dl_created_at (dict_values ds)))"
  by (simp add: list_for_principal_def list_loop_take)

definition owned :: "uuid \<Rightarrow> deliveries \<Rightarrow> notification_delivery list" where
  "owned p ds = filter (\<lambda>d. dl_target d = p) (sort_key dl_created_at (dict_values ds))"

lemma owned_list: "1 \<le> limit \<Longrightarrow> list_for_principal p False None limit ds = take (nat limit) (owned p ds)"
  by (simp add: list_for_principal_take owned_def listed_def [abs_def] max_def)

lemma sorted_split:
  fixes f :: "'a \<Rightarrow> 'b :: linorder"
  shows "sorted (map f xs) \<Longrightarrow> filter (\<lambda>x. f x < a) xs @ filter (\<lambda>x. \<not> f x < a) xs = xs"
proof (induction xs)
  case (Cons x xs)
  have "filter (\<lambda>y. f y < a) xs = [] \<and> filter (\<lambda>y. \<not> f y < a) xs = xs" if "\<not> f x < a"
    using Cons.prems that by (auto simp: filter_empty_conv filter_id_conv)
  then show ?case using Cons by auto
qed simp

text \<open>The oldest deliveries come first: one with \<open>n\<close> older ones of the same principal is not among the first \<open>n\<close>.\<close>

lemma unlisted_after:
  assumes "distinct (map dl_id (dict_values ds))" "d \<in> set (dict_values ds)"
    and "n \<le> length (filter (\<lambda>x. dl_target x = p \<and> dl_created_at x < dl_created_at d) (dict_values ds))"
  shows "dl_id d \<notin> dl_id ` set (take n (owned p ds))"
proof
  let ?older = "filter (\<lambda>x. dl_created_at x < dl_created_at d) (owned p ds)"
  assume "dl_id d \<in> dl_id ` set (take n (owned p ds))"
  then obtain x where x: "x \<in> set (take n (owned p ds))" "dl_id x = dl_id d" by auto
  have "sorted (map dl_created_at (owned p ds))" by (simp add: owned_def sorted_filter)
  from sorted_split [OF this, of "dl_created_at d"] obtain rest where rest: "owned p ds = ?older @ rest" by metis
  have "?older = sort_key dl_created_at (filter (\<lambda>x. dl_target x = p \<and> dl_created_at x < dl_created_at d) (dict_values ds))"
    by (simp add: owned_def filter_sort conj_commute)
  then have "n \<le> length ?older" using assms(3) by simp
  then have "take n (owned p ds) = take n ?older" using rest by (metis append_take_drop_id take_append diff_is_0_eq take_0 append_Nil2)
  then have "x \<in> set ?older" using x(1) by (metis in_set_takeD)
  moreover from this have "x = d" using x(2) assms(1,2) by (auto simp: owned_def distinct_map dest: inj_onD)
  ultimately show False by simp
qed

section \<open>What the endpoint guarantees\<close>

lemma fetch_live_listed:
  assumes "fetch_live_delivery parse_uuid ds n seen = (Some d, seen')" "parse_uuid (uuid_str p) = Some p" "dn_target n = Some (uuid_str p)"
  shows "d \<in> set (take 50 (owned p ds))"
proof -
  have "find (\<lambda>x. Some (uuid_str (dl_id x)) = dn_id n) (take 50 (owned p ds)) = Some d"
    using assms by (auto simp: fetch_live_delivery_def owned_list split: option.splits if_splits)
  then show ?thesis by (metis find_Some_iff nth_mem)
qed

lemma live_listed:
  assumes "parse_uuid (uuid_str p) = Some p"
  shows "d \<in> set (live_deliveries parse_uuid ds ns seen) \<Longrightarrow> \<forall>n \<in> set ns. dn_target n = Some (uuid_str p) \<Longrightarrow>
    d \<in> set (take 50 (owned p ds))"
proof (induction ns arbitrary: seen)
  case (Cons n ns)
  obtain r seen' where r: "fetch_live_delivery parse_uuid ds n seen = (r, seen')" by fastforce
  show ?case
  proof (cases "r = Some d")
    case True
    then show ?thesis using fetch_live_listed [OF r [unfolded True] assms] Cons.prems(2) by simp
  next
    case False
    then have "d \<in> set (live_deliveries parse_uuid ds ns seen')" using r Cons.prems(1) by (auto split: option.splits)
    then show ?thesis using Cons.IH Cons.prems(2) by simp
  qed
qed simp

lemma live_of_notices:
  assumes "parse_uuid (uuid_str p) = Some p" "d \<in> set (live_deliveries parse_uuid ds (on_delivery_notice p ns) seen)"
  shows "d \<in> set (take 50 (owned p ds))"
  by (rule live_listed [where ns = "on_delivery_notice p ns", OF assms]) (simp add: on_delivery_notice_def)

text \<open>
  C25. The notification endpoint shows nobody the notifications of others: when a stream is opened, the request was authenticated, its
  caller has a principal, and every delivery of the stream is addressed to that principal, unless the caller has the tier \<open>SYSTEM\<close> and
  asked for another one.
\<close>

theorem notification_stream_confined:
  assumes "notification_stream_handler parse_uuid auth requested last_id ps = Inr (Stream target since)"
    and "parse_uuid (uuid_str target) = Some target"
    and "d \<in> set (notification_sse_generator parse_uuid target since ds ds' ns)"
  shows "\<exists>ctx caller. auth = Some ctx \<and> resolve_caller_principal ctx ps = Inr caller \<and> dl_target d = target \<and>
    (target = pr_id caller \<or> ax_trust_tier ctx = SYSTEM \<and> Option.bind requested parse_uuid = Some target)"
proof -
  have "dl_target d = target"
  proof (cases "d \<in> set (list_for_principal target True (Option.bind since parse_uuid) 50 ds)")
    case True
    then show ?thesis by (auto simp: list_for_principal_take listed_def dest!: in_set_takeD)
  next
    case False
    then have "d \<in> set (take 50 (owned target ds'))"
      using assms(3) live_of_notices [where p = target and parse_uuid = parse_uuid, OF assms(2)] by (auto simp: notification_sse_generator_def Let_def)
    then show ?thesis by (auto simp: owned_def dest: in_set_takeD)
  qed
  then show ?thesis
    using assms(1) by (auto simp: notification_stream_handler_def split: option.splits sum.splits if_splits)
qed

definition sample_consumer :: principal where
  "sample_consumer = \<lparr>pr_id = 9, pr_kind = ''consumer'', pr_external_ref = 3, pr_display_name = None, pr_created_at = 0\<rparr>"

definition sample_reader :: auth_context where
  "sample_reader = \<lparr>ax_id = 1, ax_consumer_id = Some 3, ax_scopes = [], ax_trust_tier = VERIFIED, ax_authenticated_via = ''token'', ax_issued_at = 0,
     ax_expires_at = None\<rparr>"

definition sample_delivery :: "uuid \<Rightarrow> time \<Rightarrow> notification_delivery" where
  "sample_delivery i t = \<lparr>dl_id = i, dl_target = 9, dl_source_ref = [], dl_payload = [], dl_created_at = t, dl_acknowledged_at = None\<rparr>"

definition parse_nine :: "string \<Rightarrow> uuid option" where
  "parse_nine x = (if x = uuid_str 9 then Some 9 else None)"

theorem notification_stream_confined_witness:
  "\<exists>ctx caller. Some sample_reader = Some ctx \<and> resolve_caller_principal ctx [(9, sample_consumer)] = Inr caller \<and>
     dl_target (sample_delivery 20 1) = 9 \<and> (9 = pr_id caller \<or> ax_trust_tier ctx = SYSTEM \<and> Option.bind None parse_nine = Some 9)"
proof (rule notification_stream_confined)
  show "notification_stream_handler parse_nine (Some sample_reader) None None [(9, sample_consumer)] = Inr (Stream 9 None)" by code_simp
  show "parse_nine (uuid_str 9) = Some 9" by (simp add: parse_nine_def)
  show "sample_delivery 20 1 \<in> set (notification_sse_generator parse_nine 9 None [(20, sample_delivery 20 1)] [] [])"
    by (simp add: notification_sse_generator_def list_for_principal_def listed_def sample_delivery_def dict_values_def)
qed

section \<open>The deliveries stay keyed\<close>

text \<open>The steps of the backend, with \<open>uuid7\<close> giving a new identifier, and the invariant: a row is stored under its own identifier.\<close>

inductive delivery_step :: "deliveries \<Rightarrow> deliveries \<Rightarrow> bool" where
  created: "dict_get ds new_id = None \<Longrightarrow> delivery_step ds (snd (create_delivery new_id now target ref payload ds))"
| acknowledged: "acknowledge_row now i ds = Inr ds' \<Longrightarrow> delivery_step ds ds'"

definition keyed :: "deliveries \<Rightarrow> bool" where
  "keyed ds = (dict_wf ds \<and> dict_all (\<lambda>i d. dl_id d = i) ds)"

lemma acknowledge_keyed:
  assumes "acknowledge_row now i ds = Inr ds'" "keyed ds"
  shows "keyed ds'"
proof -
  obtain d where d: "dict_get ds i = Some d" "ds' = dict_set i (d\<lparr>dl_acknowledged_at := Some now\<rparr>) ds"
    using assms(1) by (auto simp: acknowledge_row_def split: option.splits if_splits)
  moreover have "dl_id d = i" using assms(2) d(1) by (auto simp: keyed_def)
  ultimately show ?thesis using assms(2) by (auto simp: keyed_def)
qed

lemma delivery_step_keyed: "delivery_step ds ds' \<Longrightarrow> keyed ds \<Longrightarrow> keyed ds'"
proof (induction rule: delivery_step.induct)
  case (created ds new_id now target ref payload)
  then show ?case by (auto simp: keyed_def create_delivery_def)
qed (rule acknowledge_keyed)

interpretation deliveries: invariant_system "\<lambda>ds. ds = []" delivery_step keyed
  by unfold_locales (simp add: keyed_def, rule delivery_step_keyed)

lemma keyed_get: "keyed ds \<Longrightarrow> d \<in> set (dict_values ds) \<longleftrightarrow> dict_get ds (dl_id d) = Some d"
  by (force simp: keyed_def dict_values_def dict_get_iff dest: dict_all_mem)

lemma keyed_ids: "keyed ds \<Longrightarrow> map dl_id (dict_values ds) = dict_keys ds"
  by (auto simp: keyed_def dict_values_def dict_keys_def dest: dict_all_mem)

lemma keyed_distinct: "keyed ds \<Longrightarrow> distinct (map dl_id (dict_values ds))"
  by (simp add: keyed_ids) (simp add: keyed_def dict_wf_def dict_keys_def)

section \<open>The window of fifty\<close>

definition delivery_notice_of :: "notification_delivery \<Rightarrow> delivery_notice" where
  "delivery_notice_of d = \<lparr>dn_id = Some (uuid_str (dl_id d)), dn_target = Some (uuid_str (dl_target d))\<rparr>"

definition older_than :: "notification_delivery \<Rightarrow> deliveries \<Rightarrow> notification_delivery list" where
  "older_than d ds = filter (\<lambda>x. dl_target x = dl_target d \<and> dl_created_at x < dl_created_at d) (dict_values ds)"

lemma fetch_live_known:
  assumes "distinct (map dl_id (dict_values ds))" "inj_on uuid_str (dl_id ` set (dict_values ds))"
    and "d \<in> set (dict_values ds)" "length (owned (dl_target d) ds) \<le> 50"
    and "parse_uuid (uuid_str (dl_id d)) = Some (dl_id d)" "parse_uuid (uuid_str (dl_target d)) = Some (dl_target d)"
    and "uuid_str (dl_id d) \<notin> set seen"
  shows "fetch_live_delivery parse_uuid ds (delivery_notice_of d) seen = (Some d, seen @ [uuid_str (dl_id d)])"
proof -
  let ?ds = "owned (dl_target d) ds"
  have d: "d \<in> set ?ds" using assms(3) by (simp add: owned_def)
  have same: "x = d" if "x \<in> set ?ds" "uuid_str (dl_id x) = uuid_str (dl_id d)" for x
  proof -
    have "x \<in> set (dict_values ds)" using that(1) by (simp add: owned_def)
    then show ?thesis using that(2) assms(1-3) by (metis (no_types, lifting) distinct_map imageI inj_onD)
  qed
  obtain x where "find (\<lambda>x. uuid_str (dl_id x) = uuid_str (dl_id d)) ?ds = Some x"
    using d by (cases "find (\<lambda>x. uuid_str (dl_id x) = uuid_str (dl_id d)) ?ds") (auto simp: find_None_iff)
  moreover from this have "x = d" using same by (auto simp: find_Some_iff)
  ultimately have "find (\<lambda>x. uuid_str (dl_id x) = uuid_str (dl_id d)) (list_for_principal (dl_target d) False None 50 ds) = Some d"
    using assms(4) by (simp add: owned_list)
  then show ?thesis using assms(5-7) by (simp add: fetch_live_delivery_def delivery_notice_of_def)
qed

lemma live_complete:
  assumes "distinct (map dl_id (dict_values ds))" "inj_on uuid_str (dl_id ` set (dict_values ds))" "length (owned p ds) \<le> 50"
    and "\<And>x. x \<in> set (dict_values ds) \<Longrightarrow> parse_uuid (uuid_str (dl_id x)) = Some (dl_id x)" "parse_uuid (uuid_str p) = Some p"
  shows "set new \<subseteq> set (dict_values ds) \<Longrightarrow> \<forall>x \<in> set new. dl_target x = p \<Longrightarrow> d \<in> set new \<Longrightarrow> uuid_str (dl_id d) \<notin> set seen \<Longrightarrow>
    d \<in> set (live_deliveries parse_uuid ds (map delivery_notice_of new) seen)"
proof (induction new arbitrary: seen)
  case (Cons x new)
  show ?case
  proof (cases "x = d")
    case True
    then have "fetch_live_delivery parse_uuid ds (delivery_notice_of x) seen = (Some d, seen @ [uuid_str (dl_id d)])"
      using Cons.prems assms by (auto intro!: fetch_live_known)
    then show ?thesis by simp
  next
    case False
    then have d: "d \<in> set new" using Cons.prems(3) by simp
    have other: "uuid_str (dl_id x) \<noteq> uuid_str (dl_id d)"
      using False Cons.prems(1,3) assms(1,2) by (metis (no_types, lifting) distinct_map imageI inj_onD list.set_intros(1) subsetD)
    have IH: "d \<in> set (live_deliveries parse_uuid ds (map delivery_notice_of new) s)" if "uuid_str (dl_id d) \<notin> set s" for s
      using Cons.IH [OF _ _ d that] Cons.prems(1,2) by auto
    show ?thesis
    proof (cases "uuid_str (dl_id x) \<in> set seen")
      case True
      then have "fetch_live_delivery parse_uuid ds (delivery_notice_of x) seen = (None, seen)"
        by (simp add: fetch_live_delivery_def delivery_notice_of_def)
      then show ?thesis using IH Cons.prems(4) by simp
    next
      case new: False
      have "fetch_live_delivery parse_uuid ds (delivery_notice_of x) seen = (Some x, seen @ [uuid_str (dl_id x)])"
        using Cons.prems assms new by (auto intro!: fetch_live_known)
      then show ?thesis using IH [of "seen @ [uuid_str (dl_id x)]"] Cons.prems(4) other by simp
    qed
  qed
qed simp

text \<open>
  The live part of the stream sees the fifty oldest deliveries of the principal and no others, since it looks a new delivery up in
  a page of fifty sorted by age. While the principal has at most fifty deliveries in all, every one that arrives is sent; once it has fifty
  older ones, read or unread, a delivery that arrives after the replay is never sent, whatever notices are received.
\<close>

theorem notification_window:
  assumes "keyed ds" "keyed ds'"
    and "\<forall>x \<in> set (dict_values ds @ dict_values ds'). parse_uuid (uuid_str (dl_id x)) = Some (dl_id x)" "parse_uuid (uuid_str p) = Some p"
    and "dict_get ds (dl_id d) = None" "dict_get ds' (dl_id d) = Some d" "dl_target d = p"
    and "set new \<subseteq> set (dict_values ds')" "\<forall>x \<in> set new. dl_target x = p" "d \<in> set new"
  shows "(length (owned p ds') \<le> 50 \<longrightarrow> d \<in> set (notification_sse_generator parse_uuid p since ds ds' (map delivery_notice_of new))) \<and>
    (50 \<le> length (older_than d ds') \<longrightarrow> d \<notin> set (notification_sse_generator parse_uuid p since ds ds' ns))"
proof (intro conjI impI)
  have mine: "on_delivery_notice p (map delivery_notice_of new) = map delivery_notice_of new"
    using assms(9) by (auto simp: on_delivery_notice_def delivery_notice_of_def filter_id_conv)
  let ?replayed = "list_for_principal p True (Option.bind since parse_uuid) 50 ds"
  have inj: "inj_on uuid_str (dl_id ` set (dict_values ds'))"
  proof (rule inj_onI)
    fix a b assume "a \<in> dl_id ` set (dict_values ds')" "b \<in> dl_id ` set (dict_values ds')" "uuid_str a = uuid_str b"
    then show "a = b" using assms(3) by (metis (no_types, lifting) Un_iff imageE option.inject set_append)
  qed
  have d: "d \<in> set (dict_values ds')" using assms(2,6) by (simp add: keyed_get)
  have other: "uuid_str (dl_id x) \<noteq> uuid_str (dl_id d)" if "x \<in> set ?replayed" for x
  proof
    assume eq: "uuid_str (dl_id x) = uuid_str (dl_id d)"
    have x: "x \<in> set (dict_values ds)" using that by (auto simp: list_for_principal_take dest: in_set_takeD)
    then have "parse_uuid (uuid_str (dl_id x)) = Some (dl_id x)" "parse_uuid (uuid_str (dl_id d)) = Some (dl_id d)"
      using assms(3) d by auto
    then have "dl_id x = dl_id d" using eq by (metis option.inject)
    then show False using x assms(1,5) by (simp add: keyed_get)
  qed
  have seen: "uuid_str (dl_id d) \<notin> set (map (uuid_str \<circ> dl_id) ?replayed)"
  proof
    assume "uuid_str (dl_id d) \<in> set (map (uuid_str \<circ> dl_id) ?replayed)"
    then obtain x where "x \<in> set ?replayed" "uuid_str (dl_id d) = uuid_str (dl_id x)" unfolding set_map comp_apply by (elim imageE)
    then show False by (metis other)
  qed
  assume small: "length (owned p ds') \<le> 50"
  have parse: "parse_uuid (uuid_str (dl_id x)) = Some (dl_id x)" if "x \<in> set (dict_values ds')" for x
    using assms(3) that by simp
  have "d \<in> set (live_deliveries parse_uuid ds' (map delivery_notice_of new) (map (uuid_str \<circ> dl_id) ?replayed))"
    by (rule live_complete [where p = p]) (rule keyed_distinct [OF assms(2)] inj small parse assms(4,8,9,10) seen | assumption)+
  then show "d \<in> set (notification_sse_generator parse_uuid p since ds ds' (map delivery_notice_of new))"
    by (simp add: notification_sse_generator_def mine Let_def)
next
  assume many: "50 \<le> length (older_than d ds')"
  have d: "d \<in> set (dict_values ds')" using assms(2,6) by (simp add: keyed_get)
  have "d \<notin> set (list_for_principal p True (Option.bind since parse_uuid) 50 ds)"
    using assms(1,5) by (auto simp: list_for_principal_take keyed_get dest!: in_set_takeD)
  moreover have "d \<notin> set (take 50 (owned p ds'))"
    using unlisted_after [OF keyed_distinct [OF assms(2)] d, of 50 p] many assms(7) by (auto simp: older_than_def)
  ultimately show "d \<notin> set (notification_sse_generator parse_uuid p since ds ds' ns)"
    using live_of_notices [where p = p and parse_uuid = parse_uuid, OF assms(4)] by (auto simp: notification_sse_generator_def Let_def)
qed

text \<open>
  Acknowledging: a delivery is acknowledged only by the principal it is addressed to, only once, and nothing else changes. But the
  ownership check reads the thousand oldest deliveries of the caller, so a caller with a thousand older ones cannot acknowledge their own.
\<close>

theorem acknowledge_owner:
  assumes "keyed ds"
  shows "(\<forall>ds'. acknowledge_delivery now caller i ds = Inr ds' \<longrightarrow>
      (\<exists>d. dict_get ds i = Some d \<and> dl_target d = pr_id caller \<and> dl_acknowledged_at d = None \<and>
        ds' = dict_set i (d\<lparr>dl_acknowledged_at := Some now\<rparr>) ds \<and> (\<forall>now' caller'. \<exists>e. acknowledge_delivery now' caller' i ds' = Inl e))) \<and>
    (\<forall>d. dict_get ds i = Some d \<longrightarrow> dl_target d = pr_id caller \<longrightarrow> 1000 \<le> length (older_than d ds) \<longrightarrow>
      acknowledge_delivery now caller i ds = Inl PermissionError)"
proof (intro conjI allI impI)
  fix ds' assume ack: "acknowledge_delivery now caller i ds = Inr ds'"
  then obtain x where x: "x \<in> set (owned (pr_id caller) ds)" "dl_id x = i"
    by (auto simp: acknowledge_delivery_def owned_list dest!: in_set_takeD split: if_splits)
  then have "dict_get ds i = Some x" "dl_target x = pr_id caller" using assms by (auto simp: owned_def keyed_get)
  then show "\<exists>d. dict_get ds i = Some d \<and> dl_target d = pr_id caller \<and> dl_acknowledged_at d = None \<and>
        ds' = dict_set i (d\<lparr>dl_acknowledged_at := Some now\<rparr>) ds \<and> (\<forall>now' caller'. \<exists>e. acknowledge_delivery now' caller' i ds' = Inl e)"
    using ack by (auto simp: acknowledge_delivery_def acknowledge_row_def split: if_splits)
next
  fix d assume d: "dict_get ds i = Some d" "dl_target d = pr_id caller" "1000 \<le> length (older_than d ds)"
  have "dl_id d = i" using assms d(1) by (auto simp: keyed_def)
  then have "i \<notin> dl_id ` set (take 1000 (owned (pr_id caller) ds))"
    using unlisted_after [OF keyed_distinct [OF assms] dict_get_values [OF d(1)], of 1000 "pr_id caller"] d by (simp add: older_than_def)
  then show "acknowledge_delivery now caller i ds = Inl PermissionError" by (simp add: acknowledge_delivery_def owned_list)
qed

definition sample_rows :: deliveries where
  "sample_rows = [(20, sample_delivery 20 1), (21, sample_delivery 21 2)]"

theorem acknowledge_owner_witness:
  "\<exists>d. dict_get sample_rows 21 = Some d \<and> dl_target d = pr_id sample_consumer \<and> dl_acknowledged_at d = None \<and>
     dict_set 21 (d\<lparr>dl_acknowledged_at := Some 5\<rparr>) sample_rows =
       dict_set 21 ((sample_delivery 21 2)\<lparr>dl_acknowledged_at := Some 5\<rparr>) sample_rows"
proof -
  have k: "keyed sample_rows" by (simp add: keyed_def sample_rows_def dict_wf_def dict_all_def sample_delivery_def)
  have "acknowledge_delivery 5 sample_consumer 21 sample_rows =
      Inr (dict_set 21 ((sample_delivery 21 2)\<lparr>dl_acknowledged_at := Some 5\<rparr>) sample_rows)"
    by (simp add: acknowledge_delivery_def list_for_principal_def listed_def sample_rows_def sample_delivery_def sample_consumer_def
        acknowledge_row_def dict_values_def dict_get_def)
  then show ?thesis using acknowledge_owner [OF k, of 5 sample_consumer 21] by metis
qed

definition parse_rows :: "string \<Rightarrow> uuid option" where
  "parse_rows s = find (\<lambda>u. uuid_str u = s) [9, 20, 21]"

theorem notification_window_witness:
  "sample_delivery 21 2 \<in> set (notification_sse_generator parse_rows 9 None [(20, sample_delivery 20 1)] sample_rows
     (map delivery_notice_of [sample_delivery 21 2]))"
proof -
  have p: "parse_rows (uuid_str 9) = Some 9" "parse_rows (uuid_str 20) = Some 20" "parse_rows (uuid_str 21) = Some 21"
    by (simp_all add: parse_rows_def uuid_str_eq)
  have "keyed [(20, sample_delivery 20 1)]" "keyed sample_rows"
    by (simp_all add: keyed_def sample_rows_def dict_wf_def dict_all_def sample_delivery_def)
  moreover have "length (owned 9 sample_rows) \<le> 50"
    by (simp add: owned_def sample_rows_def sample_delivery_def dict_values_def)
  ultimately show ?thesis
    using notification_window [of "[(20, sample_delivery 20 1)]" sample_rows parse_rows 9 "sample_delivery 21 2" "[sample_delivery 21 2]" None] p
    by (simp add: sample_rows_def sample_delivery_def dict_values_def dict_get_def)
qed

end
