(* ===== verification/Transport.thy ===== *)
theory Transport
  imports Pricing
begin

text \<open>
  The conversation with a model provider: events (\<open>transport/_events.py\<close>), the liveness monitor
  (\<open>transport/_liveness.py\<close>), continuations (\<open>transport/_state_machine.py\<close>) and the transport itself
  (\<open>transport/_transport.py\<close>): requests with retry, the two steps of its state machine, and its runs \<open>send\<close> and \<open>resume\<close>.

  \<open>'w\<close> is the state of the world that HTTP calls and tools read and change. A provider is a record of the functions of the
  \<open>Provider\<close> protocol. A request's outcome is a parameter: the events that \<open>parse_stream\<close> yields or the failure. Measured
  durations and the typed output of a tool are left out of the events; sleeping has no effect of its own.
\<close>

section \<open>Liveness\<close>

record liveness =
  lv_health_threshold :: rat
  lv_stuck_threshold :: rat
  lv_last_event_time :: "rat option"

datatype liveness_status = HEALTHY | WARNING | STUCK

definition live_record :: "rat \<Rightarrow> liveness \<Rightarrow> liveness" where
  "live_record now m = m\<lparr>lv_last_event_time := Some now\<rparr>"

definition live_check :: "rat \<Rightarrow> liveness \<Rightarrow> liveness_status option" where
  "live_check now m =
     (case lv_last_event_time m of
        None \<Rightarrow> None
      | Some t \<Rightarrow>
          if now - t > lv_stuck_threshold m then Some STUCK
          else if now - t > lv_health_threshold m then Some WARNING
          else Some HEALTHY)"

definition live_elapsed :: "rat \<Rightarrow> liveness \<Rightarrow> rat option" where
  "live_elapsed now m = map_option (\<lambda>t. now - t) (lv_last_event_time m)"

definition live_reset :: "liveness \<Rightarrow> liveness" where
  "live_reset m = m\<lparr>lv_last_event_time := None\<rparr>"

section \<open>Events\<close>

record content_block =
  cb_type :: string
  cb_text :: "string option"
  cb_tool_use_id :: "string option"
  cb_tool_name :: "string option"
  cb_tool_input :: "jobj option"

record continuation =
  co_executed_results :: "jobj list"
  co_remaining_blocks :: "content_block list"
  co_session_id :: "string option"
  co_messages :: "jobj list"

record tool_use =
  tu_tool_use_id :: string
  tu_tool_name :: string
  tu_input :: jobj
  tu_output :: string
  tu_status :: string
  tu_error :: "string option"

record final_result =
  fin_text :: string
  fin_session_id :: string
  fin_usage :: usage
  fin_tool_calls :: nat

record rate_limit =
  rl_resets_at :: "string option"
  rl_limit :: "int option"
  rl_remaining :: "int option"
  rl_utilization :: "rat option"

datatype transport_event =
    StepStart string
  | TextEvent string
  | StreamDelta string
  | Thinking string
  | StreamToolUse string string jobj
  | StreamUsage usage
  | ToolUse tool_use
  | StepFinish string usage
  | ApiRetry nat nat int int string
  | ErrorEvent string string int
  | ResultEvent final_result
  | SessionSuspended continuation
  | LivenessWarning rat
  | StuckDetected rat
  | UnknownEvent jobj
  | RateLimit rate_limit
  | ToolExecuting string string jobj

section \<open>Tools\<close>

datatype tool_outcome = ToolOk string | ToolFail string | ToolRaise exn

record 'w agent_tool =
  tt_name :: string
  tt_description :: string
  tt_parameters :: jobj
  tt_deferred :: bool
  tt_suspending :: bool
  tt_execute :: "jobj \<Rightarrow> 'w \<Rightarrow> tool_outcome \<times> 'w"

text \<open>\<open>additionalProperties\<close> counts by its truth value and is true when absent; \<open>required\<close> is a list of names.\<close>

definition truthy_json :: "json \<Rightarrow> bool" where
  "truthy_json j = (case j of JNull \<Rightarrow> False | JBool b \<Rightarrow> b | JInt i \<Rightarrow> i \<noteq> 0 | JStr t \<Rightarrow> t \<noteq> [] | JArr js \<Rightarrow> js \<noteq> [] | JObj kvs \<Rightarrow> kvs \<noteq> [])"

definition required_fields :: "jobj \<Rightarrow> string list" where
  "required_fields schema = (case dict_get schema ''required'' of Some (JArr js) \<Rightarrow> concat (map (\<lambda>j. case j of JStr s \<Rightarrow> [s] | _ \<Rightarrow> []) js) | _ \<Rightarrow> [])"

definition property_names :: "jobj \<Rightarrow> string list" where
  "property_names schema = (case dict_get schema ''properties'' of Some (JObj kvs) \<Rightarrow> dict_keys kvs | _ \<Rightarrow> [])"

definition validate_tool_args :: "jobj \<Rightarrow> jobj \<Rightarrow> string option" where
  "validate_tool_args args schema =
     (case find (\<lambda>f. dict_get args f = None) (required_fields schema) of
        Some f \<Rightarrow> Some (''Missing required field: '' @ f)
      | None \<Rightarrow>
          if truthy_json (case dict_get schema ''additionalProperties'' of None \<Rightarrow> JBool True | Some j \<Rightarrow> j) then None
          else map_option (\<lambda>k. ''Unknown field: '' @ k) (find (\<lambda>k. k \<notin> set (property_names schema)) (dict_keys args)))"

definition tool_spec :: "'w agent_tool \<Rightarrow> jobj" where
  "tool_spec t =
     [(''name'', JStr (tt_name t)), (''description'', JStr (tt_description t)), (''parameters'', JObj (tt_parameters t))] @
     (if tt_deferred t then [(''deferred'', JBool True)] else [])"

text \<open>A later tool of the same name replaces an earlier one.\<close>

definition tool_map :: "'w agent_tool list \<Rightarrow> (string, 'w agent_tool) dict" where
  "tool_map tools = fold (\<lambda>t. dict_set (tt_name t) t) tools []"

section \<open>Configuration\<close>

record model_provider =
  pv_build_request :: "jobj list \<Rightarrow> jobj list \<Rightarrow> string \<Rightarrow> string \<Rightarrow> string \<times> (string, string) dict \<times> jobj"
  pv_format_tool_result :: "string \<Rightarrow> string \<Rightarrow> bool \<Rightarrow> jobj"
  pv_wrap_tool_results :: "jobj list \<Rightarrow> jobj list"
  pv_format_assistant_message :: "content_block list \<Rightarrow> jobj"

record retry_policy =
  rp_max_retries :: nat
  rp_backoff_base_seconds :: rat
  rp_backoff_max_seconds :: rat
  rp_jitter :: bool

text \<open>
  A response with status 200 is the events of its stream with the times of the last event, of the check and of the second reading;
  any other has its status, headers and body. \<open>HttpError\<close> is an \<open>httpx.HTTPError\<close>, also in the middle of a stream;
  \<open>HttpRaise\<close> any other exception.
\<close>

datatype http_answer =
    Streamed "transport_event list" rat rat rat
  | Status int "string \<Rightarrow> string option" string
  | HttpError string
  | HttpRaise exn

record 'w transport_config =
  tc_provider :: model_provider
  tc_retry :: retry_policy
  tc_max_history_turns :: "int option"
  tc_http :: "string \<times> (string, string) dict \<times> jobj \<Rightarrow> 'w \<Rightarrow> http_answer \<times> 'w"
  tc_random :: "nat \<Rightarrow> rat"
  tc_int :: "string \<Rightarrow> int option"
  tc_int_str :: "int \<Rightarrow> string"

section \<open>Requests with retry\<close>

definition TRANSIENT_STATUS_CODES :: "int list" where
  "TRANSIENT_STATUS_CODES = [429, 500, 502, 503]"

definition retry_delay :: "'w transport_config \<Rightarrow> nat \<Rightarrow> rat" where
  "retry_delay cfg attempt =
     (let rp = tc_retry cfg; delay = min (rp_backoff_base_seconds rp * 2 ^ attempt) (rp_backoff_max_seconds rp)
      in if rp_jitter rp then delay * tc_random cfg attempt else delay)"

text \<open>\<open>int()\<close> cuts towards zero.\<close>

definition py_trunc :: "rat \<Rightarrow> int" where
  "py_trunc r = (if r < 0 then - \<lfloor>- r\<rfloor> else \<lfloor>r\<rfloor>)"

definition api_retry :: "'w transport_config \<Rightarrow> nat \<Rightarrow> int \<Rightarrow> string \<Rightarrow> transport_event" where
  "api_retry cfg attempt status err =
     ApiRetry (attempt + 1) (rp_max_retries (tc_retry cfg)) (py_trunc (retry_delay cfg attempt * 1000)) status err"

definition header_int :: "'w transport_config \<Rightarrow> string option \<Rightarrow> int option result" where
  "header_int cfg raw =
     (case raw of None \<Rightarrow> Inr None | Some s \<Rightarrow> (case tc_int cfg s of None \<Rightarrow> Inl ValueError | Some i \<Rightarrow> Inr (Some i)))"

definition parse_rate_limit_headers :: "'w transport_config \<Rightarrow> (string \<Rightarrow> string option) \<Rightarrow> rate_limit option result" where
  "parse_rate_limit_headers cfg headers =
     bind_res (header_int cfg (first_some (headers ''x-ratelimit-limit-requests'') (headers ''x-ratelimit-limit-tokens''))) (\<lambda>limit.
     bind_res (header_int cfg (first_some (headers ''x-ratelimit-remaining-requests'') (headers ''x-ratelimit-remaining-tokens''))) (\<lambda>remaining.
       Inr (if headers ''retry-after'' = None \<and> limit = None \<and> remaining = None then None
            else Some \<lparr>rl_resets_at = headers ''retry-after'', rl_limit = limit, rl_remaining = remaining,
                       rl_utilization = (case (limit, remaining) of
                          (Some l, Some r) \<Rightarrow> if l > 0 then Some (1 - of_int r / of_int l) else None
                        | _ \<Rightarrow> None)\<rparr>)))"

text \<open>The monitor is made when the response arrives and is checked once, after the stream has ended.\<close>

definition stream_liveness :: "transport_event list \<Rightarrow> rat \<Rightarrow> liveness" where
  "stream_liveness evs last_time =
     fold (\<lambda>e. live_record last_time) evs \<lparr>lv_health_threshold = 30, lv_stuck_threshold = 120, lv_last_event_time = None\<rparr>"

definition liveness_events :: "transport_event list \<Rightarrow> rat \<Rightarrow> rat \<Rightarrow> rat \<Rightarrow> transport_event list" where
  "liveness_events evs last_time check_time elapsed_time =
     (let m = stream_liveness evs last_time; elapsed = (case live_elapsed elapsed_time m of None \<Rightarrow> 0 | Some t \<Rightarrow> t)
      in case live_check check_time m of
           Some WARNING \<Rightarrow> [LivenessWarning elapsed]
         | Some STUCK \<Rightarrow> [StuckDetected elapsed]
         | _ \<Rightarrow> [])"

definition is_stuck :: "transport_event list \<Rightarrow> rat \<Rightarrow> rat \<Rightarrow> bool" where
  "is_stuck evs last_time check_time = (live_check check_time (stream_liveness evs last_time) = Some STUCK)"

text \<open>
  The attempts that are left, the number of this one, the last error and status, the events so far. The last attempt is the one with
  none left after it.
\<close>

fun retry_loop ::
  "'w transport_config \<Rightarrow> string \<times> (string, string) dict \<times> jobj \<Rightarrow> nat \<Rightarrow> nat \<Rightarrow> string \<Rightarrow> int \<Rightarrow> transport_event list \<Rightarrow> 'w \<Rightarrow>
   (transport_event list option \<times> transport_event list) result \<times> 'w" where
  "retry_loop cfg rq 0 attempt last_error last_status evs w =
     (Inr (None, evs @ [ErrorEvent ''max_retries_exceeded''
        (''Failed after '' @ tc_int_str cfg (int (rp_max_retries (tc_retry cfg)) + 1) @ '' attempts: '' @ last_error) last_status]), w)"
| "retry_loop cfg rq (Suc left) attempt last_error last_status evs w =
     (case tc_http cfg rq w of
        (Streamed collected t1 t2 t3, w1) \<Rightarrow>
          (let evs1 = evs @ liveness_events collected t1 t2 t3
           in if is_stuck collected t1 t2 \<and> left > 0
              then retry_loop cfg rq left (Suc attempt) last_error last_status
                     (evs1 @ [api_retry cfg attempt 0 ''Stream stuck: no events received'']) w1
              else (Inr (Some collected, evs1), w1))
      | (Status code headers body, w1) \<Rightarrow>
          (case (if code = 429 then parse_rate_limit_headers cfg headers else Inr None) of
             Inl e \<Rightarrow> (Inl e, w1)
           | Inr rl \<Rightarrow>
               (let evs1 = evs @ (case rl of None \<Rightarrow> [] | Some l \<Rightarrow> [RateLimit l])
                in if code \<notin> set TRANSIENT_STATUS_CODES
                   then (Inr (None, evs1 @ [ErrorEvent ''api_error'' (''HTTP '' @ tc_int_str cfg code @ '': '' @ body) code]), w1)
                   else retry_loop cfg rq left (Suc attempt) body code
                          (evs1 @ (if left > 0 then [api_retry cfg attempt code body] else [])) w1))
      | (HttpError e, w1) \<Rightarrow>
          retry_loop cfg rq left (Suc attempt) e 0 (evs @ (if left > 0 then [api_retry cfg attempt 0 e] else [])) w1
      | (HttpRaise x, w1) \<Rightarrow> (Inl x, w1))"

definition send_streaming_with_retry ::
  "'w transport_config \<Rightarrow> string \<times> (string, string) dict \<times> jobj \<Rightarrow> 'w \<Rightarrow> (transport_event list option \<times> transport_event list) result \<times> 'w" where
  "send_streaming_with_retry cfg rq w = retry_loop cfg rq (rp_max_retries (tc_retry cfg) + 1) 0 [] 0 [] w"

section \<open>The state machine\<close>

datatype transport_state = CALLING_API | EXECUTING_TOOLS | SUSPENDED_STATE | DONE

record 'w step_context =
  sc_history :: "jobj list"
  sc_tool_specs :: "jobj list"
  sc_tool_map :: "(string, 'w agent_tool) dict"
  sc_model :: string
  sc_system_prompt :: string
  sc_session_id :: string
  sc_total :: usage
  sc_total_tool_calls :: nat
  sc_pending_tool_blocks :: "content_block list"
  sc_last_usage :: "usage option"
  sc_suspended_tool_results :: "jobj list"

definition accumulate_usage :: "usage \<Rightarrow> 'w step_context \<Rightarrow> 'w step_context" where
  "accumulate_usage u ctx = ctx\<lparr>sc_total := add_usage (sc_total ctx) u, sc_last_usage := Some u\<rparr>"

definition categorize_blocks ::
  "content_block list \<Rightarrow> content_block list \<times> content_block list \<times> content_block list \<times> content_block list" where
  "categorize_blocks blocks =
     (filter (\<lambda>b. cb_type b = ''text'') blocks, filter (\<lambda>b. cb_type b = ''thinking'') blocks, filter (\<lambda>b. cb_type b = ''tool_use'') blocks,
      filter (\<lambda>b. cb_type b \<notin> {''text'', ''thinking'', ''tool_use''}) blocks)"

definition some_texts :: "content_block list \<Rightarrow> string list" where
  "some_texts blocks = concat (map (\<lambda>b. case cb_text b of None \<Rightarrow> [] | Some s \<Rightarrow> [s]) blocks)"

definition build_finish_events :: "'w step_context \<Rightarrow> usage \<Rightarrow> content_block list \<Rightarrow> transport_event list" where
  "build_finish_events ctx u text_blocks =
     [StepFinish ''end_turn'' u,
      ResultEvent \<lparr>fin_text = join '' '' (some_texts text_blocks), fin_session_id = sc_session_id ctx, fin_usage = sc_total ctx,
        fin_tool_calls = sc_total_tool_calls ctx\<rparr>]"

definition text_parts :: "transport_event list \<Rightarrow> string list" where
  "text_parts evs = concat (map (\<lambda>e. case e of StreamDelta s \<Rightarrow> [s] | _ \<Rightarrow> []) evs)"

definition thinking_parts :: "transport_event list \<Rightarrow> string list" where
  "thinking_parts evs = concat (map (\<lambda>e. case e of Thinking s \<Rightarrow> [s] | _ \<Rightarrow> []) evs)"

definition tool_use_parts :: "transport_event list \<Rightarrow> content_block list" where
  "tool_use_parts evs = concat (map (\<lambda>e. case e of
       StreamToolUse i n input \<Rightarrow>
         [\<lparr>cb_type = ''tool_use'', cb_text = None, cb_tool_use_id = Some i, cb_tool_name = Some n, cb_tool_input = Some input\<rparr>]
     | _ \<Rightarrow> []) evs)"

definition stream_usage :: "transport_event list \<Rightarrow> usage" where
  "stream_usage evs = fold (\<lambda>e u. case e of StreamUsage v \<Rightarrow> v | _ \<Rightarrow> u) evs zero_usage"

definition plain_block :: "string \<Rightarrow> string \<Rightarrow> content_block" where
  "plain_block ty s = \<lparr>cb_type = ty, cb_text = Some s, cb_tool_use_id = None, cb_tool_name = None, cb_tool_input = None\<rparr>"

definition stream_blocks :: "transport_event list \<Rightarrow> content_block list" where
  "stream_blocks evs =
     (if thinking_parts evs = [] then [] else [plain_block ''thinking'' (concat (thinking_parts evs))]) @
     (if text_parts evs = [] then [] else [plain_block ''text'' (concat (text_parts evs))]) @ tool_use_parts evs"

definition unknown_raw :: "content_block \<Rightarrow> jobj" where
  "unknown_raw b = (''type'', JStr (cb_type b)) # (case cb_text b of None \<Rightarrow> [] | Some s \<Rightarrow> [(''text'', JStr s)])"

definition api_request :: "'w transport_config \<Rightarrow> 'w step_context \<Rightarrow> string \<times> (string, string) dict \<times> jobj" where
  "api_request cfg ctx =
     (case pv_build_request (tc_provider cfg) (sc_history ctx) (sc_tool_specs ctx) (sc_system_prompt ctx) (sc_model ctx) of
        (url, headers, body) \<Rightarrow> (url, headers, dict_set ''stream'' (JBool True) body))"

definition step_calling_api ::
  "'w transport_config \<Rightarrow> 'w step_context \<Rightarrow> 'w \<Rightarrow> (transport_state \<times> transport_event list) result \<times> 'w step_context \<times> 'w" where
  "step_calling_api cfg ctx w =
     (case send_streaming_with_retry cfg (api_request cfg ctx) w of
        (Inl e, w1) \<Rightarrow> (Inl e, ctx, w1)
      | (Inr (None, retries), w1) \<Rightarrow> (Inr (DONE, retries), ctx, w1)
      | (Inr (Some evs, retries), w1) \<Rightarrow>
          (let blocks = stream_blocks evs;
               (texts, thinkings, tool_uses, unknowns) = categorize_blocks blocks;
               events = retries @ evs @ (if text_parts evs = [] then [] else [TextEvent (concat (text_parts evs))]) @
                 map (UnknownEvent \<circ> unknown_raw) unknowns;
               u = stream_usage evs;
               ctx1 = accumulate_usage u ctx;
               ctx2 = ctx1\<lparr>sc_history := sc_history ctx1 @ [pv_format_assistant_message (tc_provider cfg) blocks]\<rparr>
           in if tool_uses \<noteq> [] then (Inr (EXECUTING_TOOLS, events), ctx2\<lparr>sc_pending_tool_blocks := tool_uses\<rparr>, w1)
              else (Inr (DONE, events @ build_finish_events ctx2 u texts), ctx2, w1)))"

section \<open>Executing tools\<close>

definition or_empty :: "string option \<Rightarrow> string" where
  "or_empty s = (case s of None \<Rightarrow> [] | Some x \<Rightarrow> x)"

definition block_input :: "content_block \<Rightarrow> jobj" where
  "block_input b = (case cb_tool_input b of None \<Rightarrow> [] | Some i \<Rightarrow> i)"

definition tool_use_event :: "content_block \<Rightarrow> string \<Rightarrow> string option \<Rightarrow> transport_event" where
  "tool_use_event b output err =
     ToolUse \<lparr>tu_tool_use_id = or_empty (cb_tool_use_id b), tu_tool_name = or_empty (cb_tool_name b), tu_input = block_input b,
       tu_output = output, tu_status = (if err = None then ''success'' else ''error''), tu_error = err\<rparr>"

definition tool_result :: "model_provider \<Rightarrow> content_block \<Rightarrow> string \<Rightarrow> string option \<Rightarrow> jobj" where
  "tool_result pv b output err =
     pv_format_tool_result pv (or_empty (cb_tool_use_id b)) (case err of None \<Rightarrow> output | Some m \<Rightarrow> ''Error: '' @ m) (err \<noteq> None)"

text \<open>What answers a block: its events, its result and whether its tool suspends the session (a tool that was not run does not).\<close>

definition run_block ::
  "model_provider \<Rightarrow> (string, 'w agent_tool) dict \<Rightarrow> content_block \<Rightarrow> 'w \<Rightarrow> (transport_event list \<times> jobj \<times> bool) result \<times> 'w" where
  "run_block pv tools b w =
     (let name = or_empty (cb_tool_name b); input = block_input b;
          refuse = (\<lambda>m. (Inr ([tool_use_event b [] (Some m)], tool_result pv b [] (Some m), False), w))
      in case dict_get tools name of
           None \<Rightarrow> refuse (''Unknown tool: '' @ name)
         | Some t \<Rightarrow>
             (case validate_tool_args input (tt_parameters t) of
                Some m \<Rightarrow> refuse m
              | None \<Rightarrow>
                  (let executing = ToolExecuting (or_empty (cb_tool_use_id b)) name input
                   in case tt_execute t input w of
                        (ToolOk out, w1) \<Rightarrow> (Inr ([executing, tool_use_event b out None], tool_result pv b out None, tt_suspending t), w1)
                      | (ToolFail m, w1) \<Rightarrow>
                          (Inr ([executing, tool_use_event b [] (Some m)], tool_result pv b [] (Some m), tt_suspending t), w1)
                      | (ToolRaise x, w1) \<Rightarrow> (Inl x, w1))))"

text \<open>The loop of a step: it ends after a suspending tool, whose later blocks are left. It counts the blocks it took.\<close>

fun run_blocks ::
  "model_provider \<Rightarrow> (string, 'w agent_tool) dict \<Rightarrow> content_block list \<Rightarrow> 'w \<Rightarrow>
   (transport_event list \<times> jobj list \<times> nat \<times> content_block list option) result \<times> 'w" where
  "run_blocks pv tools [] w = (Inr ([], [], 0, None), w)"
| "run_blocks pv tools (b # bs) w =
     (case run_block pv tools b w of
        (Inl x, w1) \<Rightarrow> (Inl x, w1)
      | (Inr (evs, r, True), w1) \<Rightarrow> (Inr (evs, [r], 1, Some bs), w1)
      | (Inr (evs, r, False), w1) \<Rightarrow>
          (case run_blocks pv tools bs w1 of
             (Inl x, w2) \<Rightarrow> (Inl x, w2)
           | (Inr (evs', rs, n, rest), w2) \<Rightarrow> (Inr (evs @ evs', r # rs, Suc n, rest), w2)))"

text \<open>The loop of \<open>resume\<close>, which suspends no more. Its events are yielded as they come, also those before an exception.\<close>

fun run_all_blocks ::
  "model_provider \<Rightarrow> (string, 'w agent_tool) dict \<Rightarrow> content_block list \<Rightarrow> 'w \<Rightarrow>
   (transport_event list \<times> (exn + jobj list)) \<times> 'w" where
  "run_all_blocks pv tools [] w = (([], Inr []), w)"
| "run_all_blocks pv tools (b # bs) w =
     (case run_block pv tools b w of
        (Inl x, w1) \<Rightarrow> (([ToolExecuting (or_empty (cb_tool_use_id b)) (or_empty (cb_tool_name b)) (block_input b)], Inl x), w1)
      | (Inr (evs, r, _), w1) \<Rightarrow>
          (case run_all_blocks pv tools bs w1 of ((evs', rs), w2) \<Rightarrow> ((evs @ evs', map_sum id (\<lambda>rs. r # rs) rs), w2)))"

definition step_executing_tools ::
  "'w transport_config \<Rightarrow> 'w step_context \<Rightarrow> 'w \<Rightarrow> (transport_state \<times> transport_event list) result \<times> 'w step_context \<times> 'w" where
  "step_executing_tools cfg ctx w =
     (case run_blocks (tc_provider cfg) (sc_tool_map ctx) (sc_pending_tool_blocks ctx) w of
        (Inl x, w1) \<Rightarrow> (Inl x, ctx, w1)
      | (Inr (evs, results, n, rest), w1) \<Rightarrow>
          (let ctx1 = ctx\<lparr>sc_total_tool_calls := sc_total_tool_calls ctx + n\<rparr>
           in case rest of
                Some bs \<Rightarrow> (Inr (SUSPENDED_STATE, evs), ctx1\<lparr>sc_suspended_tool_results := results, sc_pending_tool_blocks := bs\<rparr>, w1)
              | None \<Rightarrow>
                  (Inr (CALLING_API, evs),
                   ctx1\<lparr>sc_history := sc_history ctx1 @ pv_wrap_tool_results (tc_provider cfg) results, sc_pending_tool_blocks := []\<rparr>, w1)))"

definition transport_step ::
  "'w transport_config \<Rightarrow> transport_state \<Rightarrow> 'w step_context \<Rightarrow> 'w \<Rightarrow>
   (transport_state \<times> transport_event list) result \<times> 'w step_context \<times> 'w" where
  "transport_step cfg st ctx w =
     (case st of
        CALLING_API \<Rightarrow> step_calling_api cfg ctx w
      | EXECUTING_TOOLS \<Rightarrow> step_executing_tools cfg ctx w
      | _ \<Rightarrow> (Inr (st, []), ctx, w))"

text \<open>The loop of \<open>send\<close> and \<open>resume\<close>; it never ends when the model never stops calling tools. \<open>evs\<close> are the events yielded so far.\<close>

partial_function (option) step_loop ::
  "'w transport_config \<Rightarrow> transport_state \<Rightarrow> 'w step_context \<Rightarrow> 'w \<Rightarrow> transport_event list \<Rightarrow>
   (transport_event list \<times> transport_state result \<times> 'w step_context \<times> 'w) option" where
  "step_loop cfg st ctx w evs =
     (if st = DONE \<or> st = SUSPENDED_STATE then Some (evs, Inr st, ctx, w)
      else (case transport_step cfg st ctx w of
              (Inl x, ctx1, w1) \<Rightarrow> Some (evs, Inl x, ctx1, w1)
            | (Inr (st1, new), ctx1, w1) \<Rightarrow> step_loop cfg st1 ctx1 w1 (evs @ new)))"

section \<open>Sending and resuming\<close>

type_synonym sessions = "(string, jobj list) dict"

definition inject_history :: "string \<Rightarrow> jobj list \<Rightarrow> sessions \<Rightarrow> sessions" where
  "inject_history session_id messages ss = dict_set session_id messages ss"

definition is_user :: "jobj \<Rightarrow> bool" where
  "is_user msg = (dict_get msg ''role'' = Some (JStr ''user''))"

definition compact_history :: "jobj list \<Rightarrow> int \<Rightarrow> jobj list" where
  "compact_history history max_turns =
     (let turn_starts = filter (\<lambda>i. is_user (history ! i)) [0..<length history]
      in if max_turns \<le> 0 \<or> int (length turn_starts) \<le> max_turns then history
         else drop (turn_starts ! (length turn_starts - nat max_turns)) history)"

definition user_message :: "string \<Rightarrow> jobj" where
  "user_message msg = [(''role'', JStr ''user''), (''content'', JStr msg)]"

definition new_context :: "string \<Rightarrow> string \<Rightarrow> 'w agent_tool list \<Rightarrow> string \<Rightarrow> jobj list \<Rightarrow> 'w step_context" where
  "new_context model system_prompt tools session_id history =
     \<lparr>sc_history = history, sc_tool_specs = map tool_spec tools, sc_tool_map = tool_map tools, sc_model = model,
      sc_system_prompt = system_prompt, sc_session_id = session_id, sc_total = zero_usage, sc_total_tool_calls = 0,
      sc_pending_tool_blocks = [], sc_last_usage = None, sc_suspended_tool_results = []\<rparr>"

definition suspension :: "'w step_context \<Rightarrow> transport_event" where
  "suspension ctx =
     SessionSuspended \<lparr>co_executed_results = sc_suspended_tool_results ctx, co_remaining_blocks = sc_pending_tool_blocks ctx,
       co_session_id = Some (sc_session_id ctx), co_messages = sc_history ctx\<rparr>"

text \<open>What a run of the generator leaves: the events, the exception if it raised, the histories and the world.\<close>

type_synonym 'w transport_run = "(transport_event list \<times> unit result \<times> sessions \<times> 'w) option"

definition finish_run ::
  "sessions \<Rightarrow> (transport_event list \<times> transport_state result \<times> 'w step_context \<times> 'w) option \<Rightarrow> 'w transport_run" where
  "finish_run ss r =
     map_option (\<lambda>(evs, outcome, ctx, w).
       (evs @ (if outcome = Inr SUSPENDED_STATE then [suspension ctx] else []), map_sum id (\<lambda>_. ()) outcome,
        dict_set (sc_session_id ctx) (sc_history ctx) ss, w)) r"

definition transport_send ::
  "'w transport_config \<Rightarrow> string \<Rightarrow> string \<Rightarrow> string \<Rightarrow> 'w agent_tool list \<Rightarrow> string \<Rightarrow> string option \<Rightarrow> sessions \<Rightarrow> 'w \<Rightarrow> 'w transport_run" where
  "transport_send cfg model system_prompt msg tools fresh_id session_id ss w =
     (let sid = (case session_id of None \<Rightarrow> fresh_id | Some s \<Rightarrow> s);
          history = (case dict_get ss sid of None \<Rightarrow> [] | Some h \<Rightarrow> h) @ [user_message msg];
          kept = (case tc_max_history_turns cfg of None \<Rightarrow> history | Some n \<Rightarrow> compact_history history n)
      in finish_run ss (step_loop cfg CALLING_API (new_context model system_prompt tools sid kept) w [StepStart sid]))"

text \<open>The result that was awaited is an argument that nothing uses.\<close>

definition transport_resume ::
  "'w transport_config \<Rightarrow> string \<Rightarrow> string \<Rightarrow> continuation \<Rightarrow> string \<Rightarrow> 'w agent_tool list \<Rightarrow> sessions \<Rightarrow> 'w \<Rightarrow> 'w transport_run" where
  "transport_resume cfg model system_prompt cont await_result tools ss w =
     (case co_session_id cont of
        None \<Rightarrow> Some ([], Inl ValueError, ss, w)
      | Some sid \<Rightarrow>
          (let ctx = new_context model system_prompt tools sid (co_messages cont)
           in case run_all_blocks (tc_provider cfg) (sc_tool_map ctx) (co_remaining_blocks cont) w of
                ((evs, Inl x), w1) \<Rightarrow> Some (evs, Inl x, dict_set sid (sc_history ctx) ss, w1)
              | ((evs, Inr rs), w1) \<Rightarrow>
                  finish_run ss (step_loop cfg CALLING_API
                    (ctx\<lparr>sc_total_tool_calls := length (co_remaining_blocks cont),
                         sc_history := sc_history ctx @ pv_wrap_tool_results (tc_provider cfg) (co_executed_results cont @ rs)\<rparr>) w1 evs)))"

section \<open>Retrying is bounded\<close>

definition is_retry :: "transport_event \<Rightarrow> bool" where
  "is_retry e = (case e of ApiRetry _ _ _ _ _ \<Rightarrow> True | _ \<Rightarrow> False)"

definition retry_delay_ms :: "transport_event \<Rightarrow> int" where
  "retry_delay_ms e = (case e of ApiRetry _ _ d _ _ \<Rightarrow> d | _ \<Rightarrow> 0)"

definition retries :: "transport_event list \<Rightarrow> transport_event list" where
  "retries evs = filter is_retry evs"

lemma retries_append [simp]: "retries (xs @ ys) = retries xs @ retries ys"
  by (simp add: retries_def)

lemma retries_other [simp]: "retries [] = []" "retries (liveness_events c t1 t2 t3) = []" "retries [ErrorEvent a b s] = []"
  "retries (case rl of None \<Rightarrow> [] | Some l \<Rightarrow> [RateLimit l]) = []" "retries [api_retry cfg n s e] = [api_retry cfg n s e]"
  by (auto simp: retries_def is_retry_def liveness_events_def api_retry_def Let_def split: option.splits liveness_status.splits)

lemma py_trunc_mono: "r \<le> s \<Longrightarrow> py_trunc r \<le> py_trunc s"
  by (auto simp: py_trunc_def floor_mono intro: order.trans [OF _ zero_le_floor [THEN iffD2]])

lemma retry_delay_le:
  assumes "0 \<le> rp_backoff_base_seconds (tc_retry cfg)" "0 \<le> rp_backoff_max_seconds (tc_retry cfg)" "\<forall>n. 0 \<le> tc_random cfg n \<and> tc_random cfg n \<le> 1"
  shows "retry_delay cfg n \<le> rp_backoff_max_seconds (tc_retry cfg)"
proof -
  let ?d = "min (rp_backoff_base_seconds (tc_retry cfg) * 2 ^ n) (rp_backoff_max_seconds (tc_retry cfg))"
  have "0 \<le> ?d" using assms(1,2) by simp
  then have "?d * tc_random cfg n \<le> ?d" using assms(3) by (intro mult_left_le) auto
  moreover have "?d \<le> rp_backoff_max_seconds (tc_retry cfg)" by simp
  ultimately show ?thesis unfolding retry_delay_def Let_def by (metis (full_types) order.trans)
qed

definition retry_events_ok :: "'w transport_config \<Rightarrow> nat \<Rightarrow> 'a option \<Rightarrow> transport_event list \<Rightarrow> bool" where
  "retry_events_ok cfg left answer new =
     (length (retries new) \<le> left - 1 \<and> (\<forall>e \<in> set (retries new). \<exists>n s m. e = api_retry cfg n s m) \<and>
      (answer = None \<longrightarrow> (\<exists>before name m s. new = before @ [ErrorEvent name m s])))"

lemma retry_events_prepend:
  assumes "retry_events_ok cfg left answer new" "length (retries mid) \<le> (if left > 0 then 1 else 0)"
    and "\<forall>e \<in> set (retries mid). \<exists>n s m. e = api_retry cfg n s m"
  shows "retry_events_ok cfg (Suc left) answer (mid @ new)"
  using assms by (auto simp: retry_events_ok_def split: if_splits)

lemma retry_loop_events:
  "retry_loop cfg rq left attempt err status evs w = (Inr (answer, evs1), w1) \<Longrightarrow>
   \<exists>new. evs1 = evs @ new \<and> retry_events_ok cfg left answer new"
proof (induction left arbitrary: attempt err status evs w)
  case 0
  then show ?case by (auto simp: retry_events_ok_def)
next
  case (Suc left)
  obtain http w2 where http: "tc_http cfg rq w = (http, w2)" by fastforce
  have step: ?case
    if "retry_loop cfg rq left (Suc attempt) err' status' (evs @ mid) w2 = (Inr (answer, evs1), w1)"
      and "length (retries mid) \<le> (if left > 0 then 1 else 0)" "\<forall>e \<in> set (retries mid). \<exists>n s m. e = api_retry cfg n s m"
    for err' status' mid
    using Suc.IH [OF that(1)] retry_events_prepend [OF _ that(2,3)] by (metis append.assoc)
  show ?case
  proof (cases http)
    case (Streamed collected t1 t2 t3)
    show ?thesis
    proof (cases "is_stuck collected t1 t2 \<and> left > 0")
      case True
      then have "retry_loop cfg rq left (Suc attempt) err status
          (evs @ (liveness_events collected t1 t2 t3 @ [api_retry cfg attempt 0 ''Stream stuck: no events received''])) w2 = (Inr (answer, evs1), w1)"
        using Suc.prems http Streamed by simp
      then show ?thesis by (rule step) (use True in auto)
    next
      case False
      then show ?thesis using Suc.prems http Streamed by (auto simp: retry_events_ok_def)
    qed
  next
    case (Status code headers body)
    obtain rl where rl: "(if code = 429 then parse_rate_limit_headers cfg headers else Inr None) = Inr rl"
      using Suc.prems http Status by (auto split: sum.splits)
    let ?rl = "case rl of None \<Rightarrow> [] | Some l \<Rightarrow> [RateLimit l]"
    show ?thesis
    proof (cases "code \<in> set TRANSIENT_STATUS_CODES")
      case True
      then have "retry_loop cfg rq left (Suc attempt) body code
          (evs @ (?rl @ (if left > 0 then [api_retry cfg attempt code body] else []))) w2 = (Inr (answer, evs1), w1)"
        using Suc.prems http Status rl by simp
      then show ?thesis by (rule step) auto
    next
      case False
      then have "evs1 = evs @ (?rl @ [ErrorEvent ''api_error'' (''HTTP '' @ tc_int_str cfg code @ '': '' @ body) code])"
        using Suc.prems http Status rl by simp
      then show ?thesis by (intro exI conjI, assumption) (simp add: retry_events_ok_def)
    qed
  next
    case (HttpError e)
    then have "retry_loop cfg rq left (Suc attempt) e 0 (evs @ (if left > 0 then [api_retry cfg attempt 0 e] else [])) w2 = (Inr (answer, evs1), w1)"
      using Suc.prems http by simp
    then show ?thesis by (rule step) auto
  qed (use Suc.prems http in auto)
qed

lemma retry_loop_calls:
  assumes "\<And>w. calls (snd (tc_http cfg rq w)) = Suc (calls w)"
  shows "calls (snd (retry_loop cfg rq left attempt err status evs w)) \<le> calls w + left"
proof (induction left arbitrary: attempt err status evs w)
  case (Suc left)
  obtain http w2 where http: "tc_http cfg rq w = (http, w2)" by fastforce
  have "calls w2 = Suc (calls w)" using assms [of w] http by simp
  then have "calls (snd (retry_loop cfg rq left a e s v w2)) \<le> calls w + Suc left" for a e s v using Suc.IH [of a e s v w2] by simp
  then show ?case using http \<open>calls w2 = Suc (calls w)\<close> by (cases http) (auto simp: Let_def split: sum.splits)
qed simp

text \<open>
  Retrying is bounded. A request makes at most \<open>max_retries + 1\<close> HTTP calls and announces at most \<open>max_retries\<close> retries,
  none waiting longer than the maximal backoff; when it gives up, the last event is an error.
\<close>

theorem stream_retry_bounded:
  assumes "\<forall>w. calls (snd (tc_http cfg rq w)) = Suc (calls w)"
    and "0 \<le> rp_backoff_base_seconds (tc_retry cfg)" "0 \<le> rp_backoff_max_seconds (tc_retry cfg)"
    and "\<forall>n. 0 \<le> tc_random cfg n \<and> tc_random cfg n \<le> 1"
    and "send_streaming_with_retry cfg rq w = (Inr (answer, evs), w1)"
  shows "calls w1 \<le> calls w + rp_max_retries (tc_retry cfg) + 1 \<and> length (retries evs) \<le> rp_max_retries (tc_retry cfg) \<and>
    (\<forall>e \<in> set (retries evs). retry_delay_ms e \<le> py_trunc (rp_backoff_max_seconds (tc_retry cfg) * 1000)) \<and>
    (answer = None \<longrightarrow> (\<exists>before name m s. evs = before @ [ErrorEvent name m s]))"
proof -
  have ok: "retry_events_ok cfg (Suc (rp_max_retries (tc_retry cfg))) answer evs"
    using retry_loop_events assms(5) unfolding send_streaming_with_retry_def by (metis Suc_eq_plus1 append_Nil)
  have "retry_delay_ms (api_retry cfg n s m) \<le> py_trunc (rp_backoff_max_seconds (tc_retry cfg) * 1000)" for n s m
    using retry_delay_le [OF assms(2-4), of n] by (auto simp: retry_delay_ms_def api_retry_def intro: py_trunc_mono)
  then have "\<forall>e \<in> set (retries evs). retry_delay_ms e \<le> py_trunc (rp_backoff_max_seconds (tc_retry cfg) * 1000)"
    using ok by (metis retry_events_ok_def)
  moreover have "calls w1 \<le> calls w + (rp_max_retries (tc_retry cfg) + 1)"
    using retry_loop_calls [where calls = calls and cfg = cfg and rq = rq] assms(1,5) unfolding send_streaming_with_retry_def by (metis snd_conv)
  ultimately show ?thesis using ok by (simp add: retry_events_ok_def)
qed

section \<open>Every tool call is answered\<close>

definition answers :: "model_provider \<Rightarrow> content_block \<Rightarrow> jobj \<Rightarrow> bool" where
  "answers pv b r = (\<exists>output err. r = tool_result pv b output err)"

lemma run_block_answers: "run_block pv tools b w = (Inr (evs, r, susp), w1) \<Longrightarrow> answers pv b r"
  by (auto simp: run_block_def answers_def Let_def split: option.splits prod.splits tool_outcome.splits)

lemma run_blocks_answers:
  "run_blocks pv tools bs w = (Inr (evs, rs, n, rest), w1) \<Longrightarrow>
   n = length rs \<and> (\<exists>taken. bs = taken @ (case rest of None \<Rightarrow> [] | Some r \<Rightarrow> r) \<and> list_all2 (answers pv) taken rs)"
proof (induction bs arbitrary: w evs rs n)
  case (Cons b bs)
  then obtain evs1 r susp w2 where one: "run_block pv tools b w = (Inr (evs1, r, susp), w2)"
    by (cases "run_block pv tools b w") (auto split: sum.splits)
  note ans = run_block_answers [OF one]
  show ?case
  proof (cases susp)
    case True
    then have "rs = [r]" "n = 1" "rest = Some bs" using Cons.prems one by auto
    then show ?thesis using ans by (intro conjI exI [of _ "[b]"]) auto
  next
    case False
    then obtain evs2 rs2 n2 where rec: "run_blocks pv tools bs w2 = (Inr (evs2, rs2, n2, rest), w1)" "rs = r # rs2" "n = Suc n2"
      using Cons.prems one by (auto split: prod.splits sum.splits)
    obtain taken where "bs = taken @ (case rest of None \<Rightarrow> [] | Some r \<Rightarrow> r)" "list_all2 (answers pv) taken rs2" "n2 = length rs2"
      using Cons.IH [OF rec(1)] by blast
    then show ?thesis using rec ans by (intro conjI exI [of _ "b # taken"]) auto
  qed
qed auto

lemma run_all_split:
  "run_blocks pv tools bs w = (Inr (evs, rs, n, Some rest), w1) \<Longrightarrow>
   run_all_blocks pv tools bs w =
     (case run_all_blocks pv tools rest w1 of ((evs', out), w2) \<Rightarrow> ((evs @ evs', map_sum id (\<lambda>rs'. rs @ rs') out), w2))"
proof (induction bs arbitrary: w evs rs n)
  case (Cons b bs)
  then obtain evs1 r susp w2 where one: "run_block pv tools b w = (Inr (evs1, r, susp), w2)"
    by (cases "run_block pv tools b w") (auto split: sum.splits)
  show ?case
  proof (cases susp)
    case True
    then have "evs = evs1" "rs = [r]" "rest = bs" "w1 = w2" using Cons.prems one by auto
    then show ?thesis using one by (cases "snd (fst (run_all_blocks pv tools bs w2))") (auto split: prod.splits)
  next
    case False
    then obtain evs2 rs2 n2 where rec: "run_blocks pv tools bs w2 = (Inr (evs2, rs2, n2, Some rest), w1)" "rs = r # rs2" "evs = evs1 @ evs2"
      using Cons.prems one by (auto split: prod.splits sum.splits)
    show ?thesis using Cons.IH [OF rec(1)] one rec(2,3) by (auto simp: sum.map_comp comp_def split: prod.splits)
  qed
qed auto

lemma run_blocks_all:
  "run_blocks pv tools bs w = (Inr (evs, rs, n, None), w1) \<Longrightarrow> run_all_blocks pv tools bs w = ((evs, Inr rs), w1)"
  by (induction bs arbitrary: w evs rs n) (auto split: prod.splits sum.splits bool.splits)

lemma run_all_answers: "run_all_blocks pv tools bs w = ((evs, Inr rs), w1) \<Longrightarrow> list_all2 (answers pv) bs rs"
proof (induction bs arbitrary: w evs rs)
  case (Cons b bs)
  then show ?case
    by (auto split: prod.splits sum.splits dest!: run_block_answers simp: map_sum_def)
qed auto

text \<open>
  No tool call is left without its answer: when the step that executes the model's tool calls goes on to the next request, the
  history has grown by exactly one result per call, in the order of the calls and each for the call's identifier, whether the tool is
  unknown, its arguments are invalid, it fails or it succeeds; the next request starts with no pending call.
\<close>

theorem tool_calls_answered:
  assumes "step_executing_tools cfg ctx w = (Inr (CALLING_API, evs), ctx1, w1)"
  shows "\<exists>rs. list_all2 (answers (tc_provider cfg)) (sc_pending_tool_blocks ctx) rs \<and>
    sc_history ctx1 = sc_history ctx @ pv_wrap_tool_results (tc_provider cfg) rs \<and> sc_pending_tool_blocks ctx1 = [] \<and>
    sc_total_tool_calls ctx1 = sc_total_tool_calls ctx + length (sc_pending_tool_blocks ctx)"
proof -
  obtain rs n where run: "run_blocks (tc_provider cfg) (sc_tool_map ctx) (sc_pending_tool_blocks ctx) w = (Inr (evs, rs, n, None), w1)"
    and ctx1: "ctx1 = ctx\<lparr>sc_total_tool_calls := sc_total_tool_calls ctx + n,
      sc_history := sc_history ctx @ pv_wrap_tool_results (tc_provider cfg) rs, sc_pending_tool_blocks := []\<rparr>"
    using assms by (auto simp: step_executing_tools_def Let_def split: prod.splits sum.splits option.splits)
  from run_blocks_answers [OF run] have "n = length rs" "list_all2 (answers (tc_provider cfg)) (sc_pending_tool_blocks ctx) rs" by auto
  then show ?thesis using ctx1 by (intro exI [of _ rs]) (auto dest: list_all2_lengthD)
qed

definition sample_provider :: model_provider where
  "sample_provider =
     \<lparr>pv_build_request = (\<lambda>msgs specs system model. (''u'', [], [(''messages'', JArr (map JObj msgs))])),
      pv_format_tool_result = (\<lambda>i content err. [(''id'', JStr i), (''content'', JStr content), (''is_error'', JBool err)]),
      pv_wrap_tool_results = (\<lambda>rs. [[(''role'', JStr ''user''), (''content'', JArr (map JObj rs))]]),
      pv_format_assistant_message = (\<lambda>bs. [(''role'', JStr ''assistant'')])\<rparr>"

definition one_use :: usage where
  "one_use = \<lparr>input_tokens = 100, output_tokens = 10, reasoning_tokens = 0, cache_read_tokens = 0, cache_write_tokens = 0\<rparr>"

text \<open>A model that calls the tools \<open>calls\<close> at its first request and answers with a text at every later one. The world counts the requests.\<close>

definition sample_tc :: "(string \<times> string) list \<Rightarrow> nat transport_config" where
  "sample_tc calls =
     \<lparr>tc_provider = sample_provider,
      tc_retry = \<lparr>rp_max_retries = 2, rp_backoff_base_seconds = 1, rp_backoff_max_seconds = 8, rp_jitter = False\<rparr>,
      tc_max_history_turns = None,
      tc_http = (\<lambda>rq n. (Streamed ((if n = 0 then map (\<lambda>(i, name). StreamToolUse i name []) calls else [StreamDelta ''done'']) @ [StreamUsage one_use])
        0 0 0, Suc n)),
      tc_random = (\<lambda>n. 1), tc_int = (\<lambda>s. None), tc_int_str = (\<lambda>i. [])\<rparr>"

definition sample_tool :: "string \<Rightarrow> bool \<Rightarrow> nat agent_tool" where
  "sample_tool name suspending =
     \<lparr>tt_name = name, tt_description = [], tt_parameters = [], tt_deferred = False, tt_suspending = suspending,
      tt_execute = (\<lambda>args n. (ToolOk name, n))\<rparr>"

definition sample_pending :: "(string \<times> string) list \<Rightarrow> nat step_context" where
  "sample_pending calls =
     (new_context ''m'' [] [sample_tool ''read'' False, sample_tool ''await_task'' True] ''s'' [])
       \<lparr>sc_pending_tool_blocks := tool_use_parts (map (\<lambda>(i, name). StreamToolUse i name []) calls)\<rparr>"

lemmas sample_defs = sample_provider_def sample_tc_def sample_tool_def sample_pending_def one_use_def new_context_def tool_map_def
  tool_use_parts_def step_executing_tools_def run_block_def validate_tool_args_def required_fields_def truthy_json_def or_empty_def
  block_input_def tool_use_event_def tool_result_def dict_set_def dict_get_def Let_def

definition sample_step :: "(string \<times> string) list \<Rightarrow> (transport_state \<times> transport_event list) result \<times> nat step_context \<times> nat" where
  "sample_step calls = step_executing_tools (sample_tc calls) (sample_pending calls) 0"

theorem tool_calls_answered_witness:
  "\<exists>rs. list_all2 (answers sample_provider) (sc_pending_tool_blocks (sample_pending [(''1'', ''read''), (''2'', ''rm'')])) rs \<and> length rs = 2"
proof -
  let ?calls = "[(''1'', ''read''), (''2'', ''rm'')]"
  obtain evs ctx1 where "step_executing_tools (sample_tc ?calls) (sample_pending ?calls) 0 = (Inr (CALLING_API, evs), ctx1, 0)"
    by (simp add: sample_defs)
  from tool_calls_answered [OF this] obtain rs
    where rs: "list_all2 (answers sample_provider) (sc_pending_tool_blocks (sample_pending ?calls)) rs" by (auto simp: sample_tc_def)
  moreover have "length (sc_pending_tool_blocks (sample_pending ?calls)) = 2" by (simp add: sample_pending_def tool_use_parts_def)
  ultimately show ?thesis by (metis list_all2_lengthD)
qed

text \<open>
  C23. Suspending and resuming is executing the tool calls at once. When a step is suspended and the continuation is resumed with the
  same tools, the tools have run as in one uninterrupted pass over the calls, and the conversation goes on with the history that pass
  would have left, one result per call. So nothing of the awaited result reaches the model: whatever is passed to \<open>resume\<close>, the run
  is the same.
\<close>

theorem resume_completes_turn:
  assumes "step_executing_tools cfg ctx w = (Inr (SUSPENDED_STATE, evs), ctx1, w1)" "suspension ctx1 = SessionSuspended cont"
    and "tool_map tools = sc_tool_map ctx"
    and "run_all_blocks (tc_provider cfg) (tool_map tools) (co_remaining_blocks cont) w1 = ((evs', Inr rest), w2)"
  shows "\<exists>rs calls. run_all_blocks (tc_provider cfg) (sc_tool_map ctx) (sc_pending_tool_blocks ctx) w = ((evs @ evs', Inr rs), w2) \<and>
    list_all2 (answers (tc_provider cfg)) (sc_pending_tool_blocks ctx) rs \<and>
    (\<forall>await_result. transport_resume cfg model prompt cont await_result tools ss w1 =
      finish_run ss (step_loop cfg CALLING_API
        ((new_context model prompt tools (sc_session_id ctx) (sc_history ctx @ pv_wrap_tool_results (tc_provider cfg) rs))
          \<lparr>sc_total_tool_calls := calls\<rparr>) w2 evs'))"
proof -
  obtain rs n bs where run: "run_blocks (tc_provider cfg) (sc_tool_map ctx) (sc_pending_tool_blocks ctx) w = (Inr (evs, rs, n, Some bs), w1)"
    and ctx1: "ctx1 = ctx\<lparr>sc_total_tool_calls := sc_total_tool_calls ctx + n, sc_suspended_tool_results := rs, sc_pending_tool_blocks := bs\<rparr>"
    using assms(1) by (auto simp: step_executing_tools_def Let_def split: prod.splits sum.splits option.splits)
  have cont: "co_executed_results cont = rs" "co_remaining_blocks cont = bs" "co_session_id cont = Some (sc_session_id ctx)"
    "co_messages cont = sc_history ctx"
    using assms(2) ctx1 by (auto simp: suspension_def)
  have all: "run_all_blocks (tc_provider cfg) (sc_tool_map ctx) (sc_pending_tool_blocks ctx) w = ((evs @ evs', Inr (rs @ rest)), w2)"
    using run_all_split [OF run] assms(3,4) cont(2) by simp
  have "transport_resume cfg model prompt cont await_result tools ss w1 =
      finish_run ss (step_loop cfg CALLING_API
        ((new_context model prompt tools (sc_session_id ctx) (sc_history ctx @ pv_wrap_tool_results (tc_provider cfg) (rs @ rest)))
          \<lparr>sc_total_tool_calls := length bs\<rparr>) w2 evs')" for await_result
    using assms(3,4) cont by (simp add: transport_resume_def new_context_def)
  then show ?thesis using all run_all_answers [OF all] by blast
qed

definition sample_calls :: "(string \<times> string) list" where
  "sample_calls = [(''1'', ''read''), (''2'', ''await_task''), (''3'', ''read'')]"

definition suspended_sample :: "nat step_context" where
  "suspended_sample = fst (snd (step_executing_tools (sample_tc sample_calls) (sample_pending sample_calls) 0))"

definition sample_continuation :: continuation where
  "sample_continuation =
     \<lparr>co_executed_results = sc_suspended_tool_results suspended_sample, co_remaining_blocks = sc_pending_tool_blocks suspended_sample,
      co_session_id = Some (sc_session_id suspended_sample), co_messages = sc_history suspended_sample\<rparr>"

theorem resume_completes_turn_witness:
  "length (co_executed_results sample_continuation) = 2 \<and> length (co_remaining_blocks sample_continuation) = 1 \<and>
   transport_resume (sample_tc sample_calls) ''m'' [] sample_continuation ''child said yes'' [sample_tool ''read'' False, sample_tool ''await_task'' True] [] 0 =
   transport_resume (sample_tc sample_calls) ''m'' [] sample_continuation ''child said no'' [sample_tool ''read'' False, sample_tool ''await_task'' True] [] 0"
proof -
  let ?tools = "[sample_tool ''read'' False, sample_tool ''await_task'' True]"
  have c: "length (co_executed_results sample_continuation) = 2" "length (co_remaining_blocks sample_continuation) = 1"
    by (simp_all add: sample_continuation_def suspended_sample_def sample_calls_def sample_defs)
  obtain evs where step: "step_executing_tools (sample_tc sample_calls) (sample_pending sample_calls) 0 =
      (Inr (SUSPENDED_STATE, evs), suspended_sample, 0)"
    by (simp add: suspended_sample_def sample_calls_def sample_defs)
  obtain evs' rest where rest: "run_all_blocks (tc_provider (sample_tc sample_calls)) (tool_map ?tools) (co_remaining_blocks sample_continuation) 0 =
      ((evs', Inr rest), 0)"
    by (simp add: sample_continuation_def suspended_sample_def sample_calls_def sample_defs)
  have "suspension suspended_sample = SessionSuspended sample_continuation" by (simp add: suspension_def sample_continuation_def)
  moreover have "tool_map ?tools = sc_tool_map (sample_pending sample_calls)" by (simp add: sample_pending_def new_context_def)
  ultimately show ?thesis using resume_completes_turn [OF step _ _ rest, of "''m''" "[]" "[]"] c by metis
qed

section \<open>Only declared and valid calls run\<close>

text \<open>Two tool maps that differ only in what their tools do with arguments that fail validation, or in tools of other names.\<close>

definition same_on_valid :: "string list \<Rightarrow> (string, 'w agent_tool) dict \<Rightarrow> (string, 'w agent_tool) dict \<Rightarrow> bool" where
  "same_on_valid names tools tools' =
     (\<forall>name \<in> set names. case (dict_get tools name, dict_get tools' name) of
        (None, None) \<Rightarrow> True
      | (Some t, Some t') \<Rightarrow>
          tt_parameters t' = tt_parameters t \<and> tt_suspending t' = tt_suspending t \<and>
          (\<forall>args. validate_tool_args args (tt_parameters t) = None \<longrightarrow> tt_execute t' args = tt_execute t args)
      | _ \<Rightarrow> False)"

lemma run_block_same:
  assumes "same_on_valid names tools tools'" "or_empty (cb_tool_name b) \<in> set names"
  shows "run_block pv tools' b w = run_block pv tools b w"
proof -
  let ?name = "or_empty (cb_tool_name b)"
  have same: "case (dict_get tools ?name, dict_get tools' ?name) of
      (None, None) \<Rightarrow> True
    | (Some t, Some t') \<Rightarrow> tt_parameters t' = tt_parameters t \<and> tt_suspending t' = tt_suspending t \<and>
        (\<forall>args. validate_tool_args args (tt_parameters t) = None \<longrightarrow> tt_execute t' args = tt_execute t args)
    | _ \<Rightarrow> False"
    using assms unfolding same_on_valid_def by blast
  show ?thesis
  proof (cases "dict_get tools ?name")
    case None
    moreover from this same have "dict_get tools' ?name = None" by (simp split: option.splits)
    ultimately show ?thesis by (simp add: run_block_def)
  next
    case (Some t)
    moreover from this same obtain t' where "dict_get tools' ?name = Some t'" "tt_parameters t' = tt_parameters t"
        "tt_suspending t' = tt_suspending t" "\<forall>args. validate_tool_args args (tt_parameters t) = None \<longrightarrow> tt_execute t' args = tt_execute t args"
      by (cases "dict_get tools' ?name") auto
    ultimately show ?thesis by (cases "validate_tool_args (block_input b) (tt_parameters t)") (simp_all add: run_block_def Let_def split: prod.split tool_outcome.split)
  qed
qed

lemma run_blocks_same:
  "same_on_valid names tools tools' \<Longrightarrow> set (map (or_empty \<circ> cb_tool_name) bs) \<subseteq> set names \<Longrightarrow>
   run_blocks pv tools' bs w = run_blocks pv tools bs w"
  by (induction bs arbitrary: w) (simp_all add: run_block_same split: sum.splits prod.splits bool.splits)


definition strict_tool :: "(jobj \<Rightarrow> nat \<Rightarrow> tool_outcome \<times> nat) \<Rightarrow> nat agent_tool" where
  "strict_tool run =
     \<lparr>tt_name = ''read'', tt_description = [], tt_parameters = [(''required'', JArr [JStr ''path''])], tt_deferred = False,
      tt_suspending = False, tt_execute = run\<rparr>"

definition guarded_run :: "jobj \<Rightarrow> nat \<Rightarrow> tool_outcome \<times> nat" where
  "guarded_run args n = (if dict_get args ''path'' = None then (ToolRaise KeyError, n) else (ToolOk [], n))"

definition lenient_run :: "jobj \<Rightarrow> nat \<Rightarrow> tool_outcome \<times> nat" where
  "lenient_run args n = (ToolOk [], n)"

definition strict_pending :: "nat step_context" where
  "strict_pending = (sample_pending [(''1'', ''read'')])\<lparr>sc_tool_map := [(''read'', strict_tool guarded_run)]\<rparr>"


definition flaky_config :: "nat transport_config" where
  "flaky_config = (sample_tc [])\<lparr>tc_http := (\<lambda>rq n. (if n = 0 then HttpError ''reset'' else Streamed [] 0 0 0, Suc n))\<rparr>"

theorem stream_retry_bounded_witness:
  "\<exists>evs. send_streaming_with_retry flaky_config ([], [], []) 0 = (Inr (Some [], evs), 2) \<and> length (retries evs) \<le> 2"
proof -
  obtain evs where sent: "send_streaming_with_retry flaky_config ([], [], []) 0 = (Inr (Some [], evs), 2)"
    by (simp add: send_streaming_with_retry_def flaky_config_def sample_tc_def is_stuck_def stream_liveness_def live_check_def
        eval_nat_numeral)
  have "\<forall>w. (snd (tc_http flaky_config ([], [], []) w)) = Suc w" by (simp add: flaky_config_def)
  then show ?thesis using stream_retry_bounded [where calls = "\<lambda>n. n" and cfg = flaky_config, OF _ _ _ _ sent] sent
    by (simp add: flaky_config_def sample_tc_def)
qed

section \<open>Usage of the calls of a turn\<close>

text \<open>What \<open>parse_stream\<close> of a provider yields.\<close>

definition stream_event :: "transport_event \<Rightarrow> bool" where
  "stream_event e =
     (case e of StreamDelta _ \<Rightarrow> True | Thinking _ \<Rightarrow> True | StreamToolUse _ _ _ \<Rightarrow> True | StreamUsage _ \<Rightarrow> True | UnknownEvent _ \<Rightarrow> True
      | _ \<Rightarrow> False)"

definition streams_ok :: "'w transport_config \<Rightarrow> bool" where
  "streams_ok cfg = (\<forall>rq w. case fst (tc_http cfg rq w) of Streamed evs _ _ _ \<Rightarrow> list_all stream_event evs | _ \<Rightarrow> True)"

text \<open>The usages that the \<open>StepFinish\<close> events report, and the results.\<close>

definition finishes :: "transport_event list \<Rightarrow> usage list" where
  "finishes evs = concat (map (\<lambda>e. case e of StepFinish _ u \<Rightarrow> [u] | _ \<Rightarrow> []) evs)"

definition results :: "transport_event list \<Rightarrow> final_result list" where
  "results evs = concat (map (\<lambda>e. case e of ResultEvent r \<Rightarrow> [r] | _ \<Rightarrow> []) evs)"

text \<open>Rounds of tool calls: each is a request that was answered with tool calls, and their execution. They list the usage of every request.\<close>

inductive tool_rounds :: "'w transport_config \<Rightarrow> 'w step_context \<Rightarrow> 'w \<Rightarrow> usage list \<Rightarrow> transport_event list \<Rightarrow> 'w step_context \<Rightarrow> 'w \<Rightarrow> bool"
  for cfg where
  no_round: "tool_rounds cfg ctx w [] [] ctx w"
| round: "step_calling_api cfg ctx w = (Inr (EXECUTING_TOOLS, evs1), ctx1, w1) \<Longrightarrow> sc_last_usage ctx1 = Some u \<Longrightarrow>
    step_executing_tools cfg ctx1 w1 = (Inr (CALLING_API, evs2), ctx2, w2) \<Longrightarrow> tool_rounds cfg ctx2 w2 us evs3 ctx3 w3 \<Longrightarrow>
    tool_rounds cfg ctx w (u # us) (evs1 @ evs2 @ evs3) ctx3 w3"

lemma add_usage_assoc: "add_usage (add_usage a b) c = add_usage a (add_usage b c)"
  by (simp add: add_usage_def)

lemma add_usage_zero [simp]: "add_usage a zero_usage = a" "add_usage zero_usage a = a"
  by (simp_all add: add_usage_def zero_usage_def)

definition quiet :: "transport_event list \<Rightarrow> bool" where
  "quiet evs = (finishes evs = [] \<and> results evs = [])"

lemma finishes_append [simp]: "finishes (xs @ ys) = finishes xs @ finishes ys"
  by (simp add: finishes_def)

lemma results_append [simp]: "results (xs @ ys) = results xs @ results ys"
  by (simp add: results_def)

lemma quiet_append [simp]: "quiet (xs @ ys) \<longleftrightarrow> quiet xs \<and> quiet ys"
  by (auto simp: quiet_def)

lemma quiet_map: "(\<And>x. x \<in> set xs \<Longrightarrow> quiet [f x]) \<Longrightarrow> quiet (map f xs)"
  by (induction xs) (auto simp: quiet_def finishes_def results_def)

lemma quiet_simps [simp]: "quiet []" "quiet [StepStart s]" "quiet [TextEvent s]" "quiet [ErrorEvent a b n]" "quiet [RateLimit l]"
  "quiet [ToolExecuting a b inp, ToolUse u]" "quiet [ToolUse u]" "quiet [api_retry cfg k code e]" "quiet [UnknownEvent r]"
  by (auto simp: quiet_def finishes_def results_def api_retry_def)

lemma quiet_liveness [simp]: "quiet (liveness_events c t1 t2 t3)"
proof (cases "live_check t2 (stream_liveness c t1)")
  case (Some st)
  then show ?thesis by (cases st) (simp_all add: liveness_events_def Let_def quiet_def finishes_def results_def)
qed (simp add: liveness_events_def Let_def)

lemma quiet_stream: "list_all stream_event evs \<Longrightarrow> quiet evs"
  by (induction evs) (auto simp: quiet_def finishes_def results_def stream_event_def split: transport_event.splits)

lemma retry_loop_quiet:
  assumes "streams_ok cfg"
  shows "quiet evs \<Longrightarrow> retry_loop cfg rq left attempt err status evs w = (Inr (answer, evs1), w1) \<Longrightarrow>
    quiet evs1 \<and> (\<forall>s. answer = Some s \<longrightarrow> list_all stream_event s)"
proof (induction left arbitrary: attempt err status evs w)
  case (Suc left)
  obtain http w2 where http: "tc_http cfg rq w = (http, w2)" by fastforce
  have ok: "case http of Streamed evs _ _ _ \<Rightarrow> list_all stream_event evs | _ \<Rightarrow> True"
    using assms http unfolding streams_ok_def by (metis fst_conv)
  show ?case
  proof (cases http)
    case (Streamed collected t1 t2 t3)
    then show ?thesis
      using Suc.prems http ok Suc.IH [of "evs @ liveness_events collected t1 t2 t3 @ [api_retry cfg attempt 0 ''Stream stuck: no events received'']"]
      by (cases "is_stuck collected t1 t2 \<and> left > 0") auto
  next
    case (Status code headers body)
    then obtain rl where rl: "(if code = 429 then parse_rate_limit_headers cfg headers else Inr None) = Inr rl"
      using Suc.prems http by (auto split: sum.splits)
    have "quiet (case rl of None \<Rightarrow> [] | Some l \<Rightarrow> [RateLimit l])" by (simp split: option.split)
    then show ?thesis
      using Suc.prems http Status rl Suc.IH [of "evs @ (case rl of None \<Rightarrow> [] | Some l \<Rightarrow> [RateLimit l]) @ (if left > 0 then [api_retry cfg attempt code body] else [])"]
      by (cases "code \<in> set TRANSIENT_STATUS_CODES") (auto split: if_splits)
  next
    case (HttpError e)
    then show ?thesis
      using Suc.prems http Suc.IH [of "evs @ (if left > 0 then [api_retry cfg attempt 0 e] else [])"] by (auto split: if_splits)
  qed (use Suc.prems http in auto)
qed auto

lemma unknown_none [simp]: "filter (\<lambda>b. cb_type b \<notin> {''text'', ''thinking'', ''tool_use''}) (stream_blocks evs) = []"
  "filter (\<lambda>b. cb_type b \<noteq> ''text'' \<and> cb_type b \<noteq> ''thinking'' \<and> cb_type b \<noteq> ''tool_use'') (stream_blocks evs) = []"
  by (auto simp: stream_blocks_def plain_block_def tool_use_parts_def filter_empty_conv split: transport_event.splits)

lemma calling_api_tools:
  assumes "streams_ok cfg" "step_calling_api cfg ctx w = (Inr (EXECUTING_TOOLS, evs), ctx1, w1)" "sc_last_usage ctx1 = Some u"
  shows "quiet evs \<and> sc_total ctx1 = add_usage (sc_total ctx) u \<and> sc_session_id ctx1 = sc_session_id ctx"
proof -
  obtain stream retries where sent: "send_streaming_with_retry cfg (api_request cfg ctx) w = (Inr (Some stream, retries), w1)"
    using assms(2) by (auto simp: step_calling_api_def Let_def split: prod.splits sum.splits option.splits if_splits)
  from retry_loop_quiet [OF assms(1) _ sent [unfolded send_streaming_with_retry_def]] have "quiet retries" "quiet stream"
    by (auto intro: quiet_stream)
  then show ?thesis
    using assms(2,3) sent by (auto simp: step_calling_api_def Let_def categorize_blocks_def accumulate_usage_def split: if_splits)
qed

lemma calling_api_done:
  assumes "streams_ok cfg" "step_calling_api cfg ctx w = (Inr (DONE, evs), ctx1, w1)"
  shows "sc_session_id ctx1 = sc_session_id ctx \<and>
    (quiet evs \<or> (\<exists>u r. finishes evs = [u] \<and> results evs = [r] \<and> fin_usage r = add_usage (sc_total ctx) u \<and>
      fin_session_id r = sc_session_id ctx))"
proof -
  obtain answer retries where sent: "send_streaming_with_retry cfg (api_request cfg ctx) w = (Inr (answer, retries), w1)"
    using assms(2) by (auto simp: step_calling_api_def Let_def split: prod.splits sum.splits option.splits if_splits)
  have q: "quiet retries" "\<And>s. answer = Some s \<Longrightarrow> quiet s"
    using retry_loop_quiet [OF assms(1) _ sent [unfolded send_streaming_with_retry_def]] by (auto intro: quiet_stream)
  show ?thesis
  proof (cases answer)
    case None
    then show ?thesis using assms(2) sent q by (simp add: step_calling_api_def)
  next
    case (Some stream)
    then have "evs = (retries @ stream @ (if text_parts stream = [] then [] else [TextEvent (concat (text_parts stream))])) @
        build_finish_events ctx1 (stream_usage stream) (filter (\<lambda>b. cb_type b = ''text'') (stream_blocks stream))"
      and "sc_total ctx1 = add_usage (sc_total ctx) (stream_usage stream)" "sc_session_id ctx1 = sc_session_id ctx"
      using assms(2) sent by (auto simp: step_calling_api_def Let_def categorize_blocks_def accumulate_usage_def build_finish_events_def split: if_splits)
    moreover have "quiet (retries @ stream @ (if text_parts stream = [] then [] else [TextEvent (concat (text_parts stream))]))"
      using q Some by simp
    ultimately show ?thesis by (simp add: quiet_def) (simp add: build_finish_events_def finishes_def results_def)
  qed
qed

lemma run_block_quiet: "run_block pv tools b w = (Inr (evs, r, susp), w1) \<Longrightarrow> quiet evs"
  by (auto simp: run_block_def tool_use_event_def Let_def split: option.splits prod.splits tool_outcome.splits)

lemma run_blocks_quiet: "run_blocks pv tools bs w = (Inr (evs, rs, n, rest), w1) \<Longrightarrow> quiet evs"
proof (induction bs arbitrary: w evs rs n)
  case (Cons b bs)
  then obtain evs1 r susp w2 where one: "run_block pv tools b w = (Inr (evs1, r, susp), w2)"
    by (cases "run_block pv tools b w") (auto split: sum.splits)
  then show ?case
    using Cons.prems Cons.IH run_block_quiet [OF one] by (cases susp) (auto split: prod.splits sum.splits)
qed auto

lemma run_all_quiet: "run_all_blocks pv tools bs w = ((evs, out), w1) \<Longrightarrow> quiet evs"
proof (induction bs arbitrary: w evs out)
  case (Cons b bs)
  then show ?case
    by (auto split: prod.splits sum.splits dest!: run_block_quiet simp: quiet_def finishes_def results_def)
qed auto

lemma executing_tools_keeps:
  "step_executing_tools cfg ctx w = (Inr (st, evs), ctx1, w1) \<Longrightarrow>
   quiet evs \<and> sc_total ctx1 = sc_total ctx \<and> sc_session_id ctx1 = sc_session_id ctx \<and> st \<in> {CALLING_API, SUSPENDED_STATE}"
  by (auto simp: step_executing_tools_def Let_def split: prod.splits sum.splits option.splits dest: run_blocks_quiet)

lemma tool_rounds_usage:
  "tool_rounds cfg ctx w us evs ctx1 w1 \<Longrightarrow> streams_ok cfg \<Longrightarrow>
   quiet evs \<and> sc_total ctx1 = add_usage (sc_total ctx) (total_usage us) \<and> sc_session_id ctx1 = sc_session_id ctx"
proof (induction rule: tool_rounds.induct)
  case (round ctx w evs1 ctx1 w1 u evs2 ctx2 w2 us evs3 ctx3 w3)
  then show ?case
    using calling_api_tools [OF round.prems round.hyps(1,2)] executing_tools_keeps [OF round.hyps(3)] by (simp add: add_usage_assoc)
qed simp

lemma step_loop_once:
  "transport_step cfg st ctx w = (Inr (st1, new), ctx1, w1) \<Longrightarrow> st \<noteq> DONE \<Longrightarrow> st \<noteq> SUSPENDED_STATE \<Longrightarrow>
   step_loop cfg st ctx w evs = step_loop cfg st1 ctx1 w1 (evs @ new)"
  by (subst step_loop.simps) simp

lemma step_loop_end: "step_loop cfg DONE ctx w evs = Some (evs, Inr DONE, ctx, w)"
  "step_loop cfg SUSPENDED_STATE ctx w evs = Some (evs, Inr SUSPENDED_STATE, ctx, w)"
  by (subst step_loop.simps, simp)+

lemma tool_rounds_loop:
  "tool_rounds cfg ctx w us evs ctx1 w1 \<Longrightarrow> step_loop cfg CALLING_API ctx w evs0 = step_loop cfg CALLING_API ctx1 w1 (evs0 @ evs)"
proof (induction arbitrary: evs0 rule: tool_rounds.induct)
  case (round ctx w evs1 ctx1 w1 u evs2 ctx2 w2 us evs3 ctx3 w3)
  have "step_loop cfg CALLING_API ctx w evs0 = step_loop cfg EXECUTING_TOOLS ctx1 w1 (evs0 @ evs1)"
    by (rule step_loop_once) (simp_all add: transport_step_def round.hyps(1))
  also have "\<dots> = step_loop cfg CALLING_API ctx2 w2 ((evs0 @ evs1) @ evs2)"
    by (rule step_loop_once) (simp_all add: transport_step_def round.hyps(3))
  finally show ?case using round.IH [of "(evs0 @ evs1) @ evs2"] by simp
qed simp

text \<open>A turn that ends: rounds of tool calls, then an answer without. The result reports all requests, the finish event the last one only.\<close>

lemma turn_usage:
  assumes "streams_ok cfg" "tool_rounds cfg ctx w us evs ctx1 w1" "step_calling_api cfg ctx1 w1 = (Inr (DONE, last_evs), ctx2, w2)"
    and "finishes last_evs \<noteq> []"
  shows "\<exists>u r. step_loop cfg CALLING_API ctx w evs0 = Some (evs0 @ evs @ last_evs, Inr DONE, ctx2, w2) \<and> quiet evs \<and>
    finishes last_evs = [u] \<and> results last_evs = [r] \<and> fin_usage r = add_usage (sc_total ctx) (total_usage (us @ [u])) \<and>
    fin_session_id r = sc_session_id ctx \<and> sc_session_id ctx2 = sc_session_id ctx"
proof -
  note rounds = tool_rounds_usage [OF assms(2,1)]
  obtain u r where last_ev: "finishes last_evs = [u]" "results last_evs = [r]" "fin_usage r = add_usage (sc_total ctx1) u"
      "fin_session_id r = sc_session_id ctx1" "sc_session_id ctx2 = sc_session_id ctx1"
    using calling_api_done [OF assms(1,3)] assms(4) by (auto simp: quiet_def)
  have "step_loop cfg CALLING_API ctx w evs0 = Some ((evs0 @ evs) @ last_evs, Inr DONE, ctx2, w2)"
    using tool_rounds_loop [OF assms(2), of evs0] step_loop_once [of cfg CALLING_API ctx1 w1 DONE last_evs ctx2 w2 "evs0 @ evs"] assms(3)
    by (simp add: transport_step_def step_loop_end)
  moreover have "total_usage (us @ [u]) = add_usage (total_usage us) u" by (induction us) (simp_all add: add_usage_assoc)
  ultimately show ?thesis using rounds last_ev by (simp add: add_usage_assoc)
qed

end
