(* ===== verification/Conversation.thy ===== *)
theory Conversation
  imports Transport Trace_Reader
begin

text \<open>
  A session (\<open>session/_session.py\<close>): it sends messages over the transport, adds up token counts, and records transcripts;
  and its construction, also from recorded transcripts (\<open>session/_factory.py\<close>). Sinks and event handlers are callbacks that do not
  act on the session and are left out. Of the trace the session uses the transcripts only, so the trace here is apart from the
  world of the transport and the tools.
\<close>

section \<open>Sessions\<close>

record session =
  se_session_id :: "string option"
  se_usage :: usage
  se_turn_count :: nat

text \<open>What stays the same: the model, prompt, tools and run, identifiers and times of transcript rows, and \<open>uuid.UUID\<close> of a text.\<close>

record 'w session_config =
  sn_transport :: "'w transport_config"
  sn_model :: string
  sn_system_prompt :: string
  sn_tools :: "'w agent_tool list"
  sn_run_id :: uuid
  sn_uuid :: "string \<Rightarrow> uuid option"
  sn_ids :: "nat \<Rightarrow> uuid"
  sn_clock :: "nat \<Rightarrow> time"

record 'w session_state =
  ss_session :: session
  ss_sessions :: sessions
  ss_db :: trace_db
  ss_world :: 'w

definition new_session :: "string option \<Rightarrow> session" where
  "new_session session_id = \<lparr>se_session_id = session_id, se_usage = zero_usage, se_turn_count = 0\<rparr>"

definition resume_id :: "session \<Rightarrow> string result" where
  "resume_id s = (case se_session_id s of None \<Rightarrow> Inl RuntimeError | Some i \<Rightarrow> Inr i)"

definition sub_usage :: "usage \<Rightarrow> usage \<Rightarrow> usage" where
  "sub_usage u v =
     \<lparr>input_tokens = input_tokens u - input_tokens v, output_tokens = output_tokens u - output_tokens v,
      reasoning_tokens = reasoning_tokens u - reasoning_tokens v, cache_read_tokens = cache_read_tokens u - cache_read_tokens v,
      cache_write_tokens = cache_write_tokens u - cache_write_tokens v\<rparr>"

definition usage_json :: "usage \<Rightarrow> jobj" where
  "usage_json u =
     [(''input_tokens'', JInt (input_tokens u)), (''output_tokens'', JInt (output_tokens u)), (''reasoning_tokens'', JInt (reasoning_tokens u)),
      (''cache_read_tokens'', JInt (cache_read_tokens u)), (''cache_write_tokens'', JInt (cache_write_tokens u))]"

text \<open>What a turn has gathered: the text of the last result, the tool calls, whether the user's message is recorded.\<close>

record turn =
  tn_result_text :: string
  tn_tool_calls :: "jobj list"
  tn_captured :: bool

definition write_entry ::
  "'w session_config \<Rightarrow> string \<Rightarrow> nat \<Rightarrow> string \<Rightarrow> string \<Rightarrow> jobj option \<Rightarrow> jobj option \<Rightarrow> trace_db \<Rightarrow> unit result \<times> trace_db" where
  "write_entry sc session_id turn role content tool_calls tokens db =
     (case sn_uuid sc session_id of
        None \<Rightarrow> (Inl ValueError, db)
      | Some sid \<Rightarrow>
          (let k = length (db_transcripts db)
           in (Inr (), write_transcript_entry (sn_ids sc k) (sn_clock sc k) sid (sn_run_id sc) (int turn) role content tool_calls tokens db)))"

definition try_capture_session ::
  "'w session_config \<Rightarrow> string \<Rightarrow> string option \<Rightarrow> turn \<Rightarrow> session \<Rightarrow> trace_db \<Rightarrow> unit result \<times> turn \<times> session \<times> trace_db" where
  "try_capture_session sc message session_id tn s db =
     (let s1 = (if session_id \<noteq> None \<and> se_session_id s = None then s\<lparr>se_session_id := session_id\<rparr> else s)
      in case (if tn_captured tn then None else se_session_id s1) of
           None \<Rightarrow> (Inr (), tn, s1, db)
         | Some sid \<Rightarrow>
             (case write_entry sc sid (se_turn_count s1) ''user'' message None None db of
                (Inl x, db1) \<Rightarrow> (Inl x, tn, s1, db1)
              | (Inr _, db1) \<Rightarrow> (Inr (), tn\<lparr>tn_captured := True\<rparr>, s1, db1)))"

definition call_entry :: "tool_use \<Rightarrow> jobj" where
  "call_entry tu =
     [(''tool_name'', JStr (tu_tool_name tu)), (''input'', JObj (tu_input tu)), (''output'', JStr (tu_output tu)), (''status'', JStr (tu_status tu))]"

definition send_event_effect ::
  "'w session_config \<Rightarrow> string \<Rightarrow> transport_event \<Rightarrow> turn \<Rightarrow> session \<Rightarrow> trace_db \<Rightarrow> unit result \<times> turn \<times> session \<times> trace_db" where
  "send_event_effect sc message e tn s db =
     (case e of
        ResultEvent r \<Rightarrow> try_capture_session sc message (Some (fin_session_id r)) (tn\<lparr>tn_result_text := fin_text r\<rparr>) s db
      | StepFinish _ u \<Rightarrow> (Inr (), tn, s\<lparr>se_usage := add_usage (se_usage s) u\<rparr>, db)
      | ToolUse tu \<Rightarrow> (Inr (), tn\<lparr>tn_tool_calls := tn_tool_calls tn @ [call_entry tu]\<rparr>, s, db)
      | SessionSuspended c \<Rightarrow> try_capture_session sc message (co_session_id c) tn s db
      | _ \<Rightarrow> (Inr (), tn, s, db))"

fun each_event ::
  "(transport_event \<Rightarrow> turn \<Rightarrow> session \<Rightarrow> trace_db \<Rightarrow> unit result \<times> turn \<times> session \<times> trace_db) \<Rightarrow> transport_event list \<Rightarrow>
   turn \<Rightarrow> session \<Rightarrow> trace_db \<Rightarrow> unit result \<times> turn \<times> session \<times> trace_db" where
  "each_event f [] tn s db = (Inr (), tn, s, db)"
| "each_event f (e # es) tn s db =
     (case f e tn s db of (Inl x, r) \<Rightarrow> (Inl x, r) | (Inr _, tn1, s1, db1) \<Rightarrow> each_event f es tn1 s1 db1)"

definition is_suspended :: "transport_event \<Rightarrow> bool" where
  "is_suspended e = (case e of SessionSuspended _ \<Rightarrow> True | _ \<Rightarrow> False)"

fun until_suspended :: "transport_event list \<Rightarrow> transport_event list" where
  "until_suspended [] = []"
| "until_suspended (e # es) = (if is_suspended e then [e] else e # until_suspended es)"

definition empty_turn :: turn where
  "empty_turn = \<lparr>tn_result_text = [], tn_tool_calls = [], tn_captured = False\<rparr>"

definition calls_json :: "turn \<Rightarrow> jobj option" where
  "calls_json tn = (if tn_tool_calls tn = [] then None else Some [(''calls'', JArr (map JObj (tn_tool_calls tn)))])"

text \<open>
  The generator's consumer either takes all events (then, unless the transport raised, the assistant's entry is written) or, like the
  orchestrator's loop, leaves at the suspension (\<open>stop\<close>), after which nothing of the generator runs any more. A run of the transport
  that never ends is \<open>None\<close>.
\<close>

definition session_send ::
  "'w session_config \<Rightarrow> bool \<Rightarrow> string \<Rightarrow> string \<Rightarrow> 'w session_state \<Rightarrow> (transport_event list \<times> unit result \<times> 'w session_state) option" where
  "session_send sc stop fresh_id message st =
     (let s0 = (ss_session st)\<lparr>se_turn_count := se_turn_count (ss_session st) + 1\<rparr>
      in map_option (\<lambda>(evs, outcome, histories, w).
           (let left = (stop \<and> list_ex is_suspended evs);
                seen = (if left then until_suspended evs else evs)
            in case each_event (send_event_effect sc message) seen empty_turn s0 (ss_db st) of
                 (Inl x, tn, s1, db1) \<Rightarrow>
                   (seen, Inl x, st\<lparr>ss_session := s1, ss_sessions := histories, ss_db := db1, ss_world := w\<rparr>)
               | (Inr _, tn, s1, db1) \<Rightarrow>
                   (let st1 = st\<lparr>ss_session := s1, ss_sessions := histories, ss_db := db1, ss_world := w\<rparr>
                    in if left then (seen, Inr (), st1)
                       else (case (outcome, if tn_captured tn then se_session_id s1 else None) of
                               (Inl x, _) \<Rightarrow> (seen, Inl x, st1)
                             | (Inr _, None) \<Rightarrow> (seen, Inr (), st1)
                             | (Inr _, Some sid) \<Rightarrow>
                                 (case write_entry sc sid (se_turn_count s1) ''assistant'' (tn_result_text tn) (calls_json tn)
                                         (Some (usage_json (sub_usage (se_usage s1) (se_usage s0)))) db1 of
                                    (r, db2) \<Rightarrow> (seen, r, st1\<lparr>ss_db := db2\<rparr>))))))
         (transport_send (sn_transport sc) (sn_model sc) (sn_system_prompt sc) message (sn_tools sc) fresh_id (se_session_id s0)
            (ss_sessions st) (ss_world st)))"

definition resume_event_effect ::
  "transport_event \<Rightarrow> turn \<Rightarrow> session \<Rightarrow> trace_db \<Rightarrow> unit result \<times> turn \<times> session \<times> trace_db" where
  "resume_event_effect e tn s db =
     (case e of
        ResultEvent r \<Rightarrow> (Inr (), tn\<lparr>tn_result_text := fin_text r\<rparr>, s, db)
      | StepFinish _ u \<Rightarrow> (Inr (), tn, s\<lparr>se_usage := add_usage (se_usage s) u\<rparr>, db)
      | ToolUse tu \<Rightarrow> (Inr (), tn\<lparr>tn_tool_calls := tn_tool_calls tn @ [call_entry tu]\<rparr>, s, db)
      | _ \<Rightarrow> (Inr (), tn, s, db))"

definition session_resume ::
  "'w session_config \<Rightarrow> bool \<Rightarrow> continuation \<Rightarrow> string \<Rightarrow> 'w session_state \<Rightarrow> (transport_event list \<times> unit result \<times> 'w session_state) option" where
  "session_resume sc stop cont answer st =
     (let s0 = (ss_session st)\<lparr>se_turn_count := se_turn_count (ss_session st) + 1\<rparr>
      in map_option (\<lambda>(evs, outcome, histories, w).
           (let left = (stop \<and> list_ex is_suspended evs);
                seen = (if left then until_suspended evs else evs);
                (r, tn, s1, db1) = each_event resume_event_effect seen empty_turn s0 (ss_db st);
                st1 = st\<lparr>ss_session := s1, ss_sessions := histories, ss_db := db1, ss_world := w\<rparr>
            in if left then (seen, Inr (), st1)
               else (case (outcome, se_session_id s1) of
                       (Inl x, _) \<Rightarrow> (seen, Inl x, st1)
                     | (Inr _, None) \<Rightarrow> (seen, Inr (), st1)
                     | (Inr _, Some sid) \<Rightarrow>
                         (case write_entry sc sid (se_turn_count s1) ''user'' (''[resume: '' @ answer @ '']'') None None db1 of
                            (Inl x, db2) \<Rightarrow> (seen, Inl x, st1\<lparr>ss_db := db2\<rparr>)
                          | (Inr _, db2) \<Rightarrow>
                              (case write_entry sc sid (se_turn_count s1) ''assistant'' (tn_result_text tn) (calls_json tn)
                                      (Some (usage_json (sub_usage (se_usage s1) (se_usage s0)))) db2 of
                                 (r2, db3) \<Rightarrow> (seen, r2, st1\<lparr>ss_db := db3\<rparr>))))))
         (transport_resume (sn_transport sc) (sn_model sc) (sn_system_prompt sc) cont answer (sn_tools sc) (ss_sessions st) (ss_world st)))"

section \<open>Sessions from transcripts\<close>

text \<open>The rows are those that sessions write: names and outputs are strings, token counts integers.\<close>

definition str_field :: "string \<Rightarrow> string \<Rightarrow> jobj \<Rightarrow> string" where
  "str_field k other call = (case dict_get call k of Some (JStr s) \<Rightarrow> s | _ \<Rightarrow> other)"

definition call_summary :: "json \<Rightarrow> string" where
  "call_summary c =
     (case c of
        JObj call \<Rightarrow> ''[Tool: '' @ str_field ''tool_name'' ''unknown'' call @ '' -> '' @ str_field ''output'' [] call @ '']''
      | _ \<Rightarrow> [])"

definition entry_content :: "transcript_row \<Rightarrow> string" where
  "entry_content r =
     (case (if x_role r = ''assistant'' then x_tool_calls r else None) of
        None \<Rightarrow> x_content r
      | Some calls \<Rightarrow>
          (case dict_get calls ''calls'' of
             Some (JArr (c # cs)) \<Rightarrow> join [CHR 0x0A] ((if x_content r = [] then [] else [x_content r]) @ map call_summary (c # cs))
           | _ \<Rightarrow> x_content r))"

definition transcript_to_messages :: "transcript_row list \<Rightarrow> jobj list" where
  "transcript_to_messages rows = map (\<lambda>r. [(''role'', JStr (x_role r)), (''content'', JStr (entry_content r))]) rows"

definition int_field :: "string \<Rightarrow> jobj \<Rightarrow> int" where
  "int_field k tokens = (case dict_get tokens k of Some (JInt i) \<Rightarrow> i | _ \<Rightarrow> 0)"

definition usage_of_json :: "jobj \<Rightarrow> usage" where
  "usage_of_json tokens =
     \<lparr>input_tokens = int_field ''input_tokens'' tokens, output_tokens = int_field ''output_tokens'' tokens,
      reasoning_tokens = int_field ''reasoning_tokens'' tokens, cache_read_tokens = int_field ''cache_read_tokens'' tokens,
      cache_write_tokens = int_field ''cache_write_tokens'' tokens\<rparr>"

text \<open>With no backend to read from, or no identifier, the session starts empty.\<close>

definition create_session ::
  "'w session_config \<Rightarrow> string option \<Rightarrow> bool \<Rightarrow> sessions \<Rightarrow> trace_db \<Rightarrow> (session \<times> sessions) result" where
  "create_session sc session_id backend histories db =
     (case (if backend then session_id else None) of
        None \<Rightarrow> Inr (new_session session_id, histories)
      | Some i \<Rightarrow>
          (case sn_uuid sc i of
             None \<Rightarrow> Inl ValueError
           | Some sid \<Rightarrow>
               (let counts = filter (\<lambda>tokens. tokens \<noteq> []) (read_session_token_counts sid db);
                    s = (new_session session_id)\<lparr>se_usage := fold (\<lambda>tokens u. add_usage u (usage_of_json tokens)) counts zero_usage,
                                                  se_turn_count := read_session_turn_count sid db\<rparr>;
                    transcript = read_transcript sid db
                in Inr (s, if transcript = [] then histories else inject_history i (transcript_to_messages transcript) histories))))"

section \<open>What a turn costs\<close>

lemma usage_json_roundtrip [simp]: "usage_of_json (usage_json u) = u"
  by (simp add: usage_of_json_def usage_json_def int_field_def dict_get_def)

lemma try_capture_usage:
  "try_capture_session sc m i tn s db = (Inr (), tn1, s1, db1) \<Longrightarrow> se_usage s1 = se_usage s \<and> se_turn_count s1 = se_turn_count s"
  by (auto simp: try_capture_session_def Let_def split: option.splits prod.splits sum.splits if_splits)

lemma event_effect_usage:
  "send_event_effect sc m e tn s db = (Inr (), tn1, s1, db1) \<Longrightarrow>
   se_usage s1 = add_usage (se_usage s) (total_usage (finishes [e])) \<and> se_turn_count s1 = se_turn_count s"
  by (cases e) (auto simp: send_event_effect_def finishes_def dest: try_capture_usage)

lemma total_usage_append: "total_usage (us @ vs) = add_usage (total_usage us) (total_usage vs)"
  by (induction us) (simp_all add: add_usage_assoc)

lemma each_event_usage:
  "each_event (send_event_effect sc m) evs tn s db = (Inr (), tn1, s1, db1) \<Longrightarrow>
   se_usage s1 = add_usage (se_usage s) (total_usage (finishes evs)) \<and> se_turn_count s1 = se_turn_count s"
proof (induction evs arbitrary: tn s db)
  case Nil
  then show ?case by (simp add: finishes_def)
next
  case (Cons e evs)
  then obtain tn2 s2 db2 where e: "send_event_effect sc m e tn s db = (Inr (), tn2, s2, db2)"
    and rest: "each_event (send_event_effect sc m) evs tn2 s2 db2 = (Inr (), tn1, s1, db1)"
    by (auto split: prod.splits sum.splits)
  have "finishes (e # evs) = finishes [e] @ finishes evs" by (simp add: finishes_def)
  then show ?case using Cons.IH [OF rest] event_effect_usage [OF e] by (simp add: total_usage_append add_usage_assoc)
qed

lemma session_send_ok:
  assumes "session_send sc False fresh_id message st = Some (evs, Inr (), st1)"
  obtains histories w tn s1 db1 where
    "transport_send (sn_transport sc) (sn_model sc) (sn_system_prompt sc) message (sn_tools sc) fresh_id (se_session_id (ss_session st))
       (ss_sessions st) (ss_world st) = Some (evs, Inr (), histories, w)"
    "each_event (send_event_effect sc message) evs empty_turn ((ss_session st)\<lparr>se_turn_count := se_turn_count (ss_session st) + 1\<rparr>) (ss_db st) =
       (Inr (), tn, s1, db1)"
    "ss_session st1 = s1" "ss_sessions st1 = histories" "ss_world st1 = w"
    "case (if tn_captured tn then se_session_id s1 else None) of
       None \<Rightarrow> ss_db st1 = db1
     | Some sid \<Rightarrow> write_entry sc sid (se_turn_count s1) ''assistant'' (tn_result_text tn) (calls_json tn)
         (Some (usage_json (sub_usage (se_usage s1) (se_usage (ss_session st))))) db1 = (Inr (), ss_db st1)"
proof -
  let ?s0 = "(ss_session st)\<lparr>se_turn_count := se_turn_count (ss_session st) + 1\<rparr>"
  obtain evs0 outcome histories w where sent: "transport_send (sn_transport sc) (sn_model sc) (sn_system_prompt sc) message (sn_tools sc) fresh_id
      (se_session_id (ss_session st)) (ss_sessions st) (ss_world st) = Some (evs0, outcome, histories, w)"
    using assms by (auto simp: session_send_def Let_def)
  obtain r tn s1 db1 where each: "each_event (send_event_effect sc message) evs0 empty_turn ?s0 (ss_db st) = (r, tn, s1, db1)"
    by (metis prod_cases4)
  obtain y where r: "r = Inr y" using assms sent each by (cases r) (auto simp: session_send_def Let_def)
  obtain z where out: "outcome = Inr z" using assms sent each r by (cases outcome) (auto simp: session_send_def Let_def)
  show ?thesis
  proof (cases "if tn_captured tn then se_session_id s1 else None")
    case None
    then have "evs = evs0" "st1 = st\<lparr>ss_session := s1, ss_sessions := histories, ss_db := db1, ss_world := w\<rparr>"
      using assms sent each r out by (auto simp: session_send_def Let_def)
    then show ?thesis using that sent each r out None by simp
  next
    case (Some sid)
    obtain r2 db2 where wr: "write_entry sc sid (se_turn_count s1) ''assistant'' (tn_result_text tn) (calls_json tn)
        (Some (usage_json (sub_usage (se_usage s1) (se_usage (ss_session st))))) db1 = (r2, db2)" by fastforce
    then have "evs = evs0" "st1 = st\<lparr>ss_session := s1, ss_sessions := histories, ss_db := db2, ss_world := w\<rparr>" "r2 = Inr ()"
      using assms sent each r out Some by (auto simp: session_send_def Let_def)
    then show ?thesis using that sent each r out Some wr by simp
  qed
qed

text \<open>
  A session counts the tokens of the last request of a turn only. When a turn needed rounds of tool calls, with usages \<open>us\<close>, before
  the request that ended it, with usage \<open>u\<close>, the result reports the usage of all of them, but the session's totals, from which the cost of
  a task is computed, grow by \<open>u\<close> alone.
\<close>

theorem session_counts_last_request:
  assumes "streams_ok (sn_transport sc)" "tc_max_history_turns (sn_transport sc) = None"
    and "tool_rounds (sn_transport sc)
      (new_context (sn_model sc) (sn_system_prompt sc) (sn_tools sc) sid
        ((case dict_get (ss_sessions st) sid of None \<Rightarrow> [] | Some h \<Rightarrow> h) @ [user_message message])) (ss_world st) us evs ctx w"
    and "step_calling_api (sn_transport sc) ctx w = (Inr (DONE, last_evs), ctx', w')" "finishes last_evs \<noteq> []"
    and "se_session_id (ss_session st) = Some sid" "session_send sc False fresh_id message st = Some (all, Inr (), st1)"
  shows "\<exists>u r. finishes all = [u] \<and> results all = [r] \<and> fin_usage r = total_usage (us @ [u]) \<and>
    se_usage (ss_session st1) = add_usage (se_usage (ss_session st)) u"
proof -
  from turn_usage [OF assms(1,3,4,5), of "[StepStart sid]"] obtain u r where
    loop: "step_loop (sn_transport sc) CALLING_API (new_context (sn_model sc) (sn_system_prompt sc) (sn_tools sc) sid
        ((case dict_get (ss_sessions st) sid of None \<Rightarrow> [] | Some h \<Rightarrow> h) @ [user_message message])) (ss_world st) [StepStart sid] =
      Some ([StepStart sid] @ evs @ last_evs, Inr DONE, ctx', w')"
    and q: "quiet evs" and fin: "finishes last_evs = [u]" "results last_evs = [r]" "fin_usage r = total_usage (us @ [u])"
    by (auto simp: new_context_def)
  obtain histories tn s1 db1 where
    sent: "transport_send (sn_transport sc) (sn_model sc) (sn_system_prompt sc) message (sn_tools sc) fresh_id (Some sid)
       (ss_sessions st) (ss_world st) = Some (all, Inr (), histories, ss_world st1)"
    and each: "each_event (send_event_effect sc message) all empty_turn ((ss_session st)\<lparr>se_turn_count := se_turn_count (ss_session st) + 1\<rparr>)
       (ss_db st) = (Inr (), tn, ss_session st1, db1)"
    by (rule session_send_ok [OF assms(7)]) (auto simp: assms(6))
  have all: "all = [StepStart sid] @ evs @ last_evs"
    using sent loop assms(2) by (simp add: transport_send_def finish_run_def)
  have "finishes all = [u]" "results all = [r]" using all q fin quiet_simps(2) [of sid] by (auto simp: quiet_def finishes_def results_def)
  then show ?thesis using each_event_usage [OF each] fin(3) by simp
qed

definition sample_session_config :: "nat session_config" where
  "sample_session_config =
     \<lparr>sn_transport = sample_tc [(''1'', ''read'')], sn_model = ''m'', sn_system_prompt = [], sn_tools = [sample_tool ''read'' False],
      sn_run_id = 1, sn_uuid = (\<lambda>i. if i = ''s'' then Some 7 else None), sn_ids = (\<lambda>n. n), sn_clock = (\<lambda>n. 0)\<rparr>"

definition sample_session_state :: "nat session_state" where
  "sample_session_state = \<lparr>ss_session = new_session (Some ''s''), ss_sessions = [], ss_db = empty_db, ss_world = 0\<rparr>"

definition sample_first :: "nat step_context" where
  "sample_first = new_context ''m'' [] [sample_tool ''read'' False] ''s'' [user_message ''hi'']"

lemmas sample_run_defs = sample_defs sample_first_def step_calling_api_def send_streaming_with_retry_def api_request_def is_stuck_def
  stream_liveness_def live_check_def liveness_events_def live_record_def live_elapsed_def stream_blocks_def text_parts_def thinking_parts_def
  categorize_blocks_def accumulate_usage_def stream_usage_def plain_block_def zero_usage_def add_usage_def build_finish_events_def
  some_texts_def eval_nat_numeral user_message_def

lemma sample_streams_ok: "streams_ok (sample_tc calls)"
  by (auto simp: streams_ok_def sample_tc_def stream_event_def list_all_iff)

definition sample_reply :: final_result where
  "sample_reply = \<lparr>fin_text = ''done'', fin_session_id = ''s'', fin_usage = add_usage one_use one_use, fin_tool_calls = 1\<rparr>"

definition sample_last_events :: "transport_event list" where
  "sample_last_events = [StreamDelta ''done'', StreamUsage one_use, TextEvent ''done'', StepFinish ''end_turn'' one_use, ResultEvent sample_reply]"

definition sample_tool_events :: "transport_event list" where
  "sample_tool_events =
     [StreamToolUse ''1'' ''read'' [], StreamUsage one_use, ToolExecuting ''1'' ''read'' [],
      ToolUse \<lparr>tu_tool_use_id = ''1'', tu_tool_name = ''read'', tu_input = [], tu_output = ''read'', tu_status = ''success'', tu_error = None\<rparr>]"

lemma sample_rounds:
  "\<exists>ctx ctx'. tool_rounds (sample_tc [(''1'', ''read'')]) sample_first 0 [one_use] sample_tool_events ctx 1 \<and>
     step_calling_api (sample_tc [(''1'', ''read'')]) ctx 1 = (Inr (DONE, sample_last_events), ctx', 2) \<and> sc_session_id ctx' = ''s''"
proof -
  let ?cfg = "sample_tc [(''1'', ''read'')]"
  obtain ctx1 where one: "step_calling_api ?cfg sample_first 0 = (Inr (EXECUTING_TOOLS, [StreamToolUse ''1'' ''read'' [], StreamUsage one_use]), ctx1, 1)"
      "sc_last_usage ctx1 = Some one_use" "sc_tool_map ctx1 = tool_map [sample_tool ''read'' False]"
      "sc_pending_tool_blocks ctx1 = tool_use_parts [StreamToolUse ''1'' ''read'' []]" "sc_session_id ctx1 = ''s''"
      "sc_total ctx1 = one_use" "sc_total_tool_calls ctx1 = 0"
    by (simp add: sample_run_defs)
  obtain ctx2 where two: "step_executing_tools ?cfg ctx1 1 = (Inr (CALLING_API, drop 2 sample_tool_events), ctx2, 1)"
      "sc_session_id ctx2 = ''s''" "sc_total ctx2 = one_use" "sc_total_tool_calls ctx2 = 1"
    using one(3-7) by (simp add: sample_defs sample_tool_events_def)
  obtain ctx3 where three: "step_calling_api ?cfg ctx2 1 = (Inr (DONE, sample_last_events), ctx3, 2)" "sc_session_id ctx3 = ''s''"
    using two(2-4) by (simp add: sample_run_defs sample_last_events_def sample_reply_def)
  have "tool_rounds ?cfg sample_first 0 [one_use] ([StreamToolUse ''1'' ''read'' [], StreamUsage one_use] @ drop 2 sample_tool_events @ []) ctx2 1"
    by (rule round [OF one(1,2) two(1) no_round])
  then have "tool_rounds ?cfg sample_first 0 [one_use] sample_tool_events ctx2 1" by (simp add: sample_tool_events_def)
  then show ?thesis using three by blast
qed

lemma sample_transport:
  "\<exists>h. transport_send (sample_tc [(''1'', ''read'')]) ''m'' [] ''hi'' [sample_tool ''read'' False] ''s'' i [] 0 =
     Some ([StepStart ''s''] @ sample_tool_events @ sample_last_events, Inr (), h, 2)" if "i = None \<or> i = Some ''s''"
proof -
  obtain ctx ctx' where run: "tool_rounds (sample_tc [(''1'', ''read'')]) sample_first 0 [one_use] sample_tool_events ctx 1"
    "step_calling_api (sample_tc [(''1'', ''read'')]) ctx 1 = (Inr (DONE, sample_last_events), ctx', 2)"
    using sample_rounds by blast
  have "finishes sample_last_events \<noteq> []" by (simp add: finishes_def sample_last_events_def)
  from turn_usage [OF sample_streams_ok run this, of "[StepStart ''s'']"]
  have "step_loop (sample_tc [(''1'', ''read'')]) CALLING_API sample_first 0 [StepStart ''s''] =
      Some ([StepStart ''s''] @ sample_tool_events @ sample_last_events, Inr DONE, ctx', 2)" by blast
  moreover have "tc_max_history_turns (sample_tc [(''1'', ''read'')]) = None" by (simp add: sample_tc_def)
  ultimately show ?thesis using that by (auto simp: transport_send_def finish_run_def sample_first_def)
qed

definition sample_sent :: "(transport_event list \<times> unit result \<times> nat session_state) option" where
  "sample_sent = session_send sample_session_config False ''s'' ''hi'' sample_session_state"

lemmas sample_session_defs = sample_session_config_def sample_session_state_def new_session_def sample_tool_events_def sample_last_events_def
  sample_reply_def send_event_effect_def try_capture_session_def write_entry_def call_entry_def empty_turn_def

lemma sample_sent_ok: "\<exists>st1. sample_sent = Some ([StepStart ''s''] @ sample_tool_events @ sample_last_events, Inr (), st1)"
proof -
  obtain h where "transport_send (sample_tc [(''1'', ''read'')]) ''m'' [] ''hi'' [sample_tool ''read'' False] ''s'' (Some ''s'') [] 0 =
     Some ([StepStart ''s''] @ sample_tool_events @ sample_last_events, Inr (), h, 2)" using sample_transport [of "Some ''s''"] by blast
  then show ?thesis by (simp add: sample_sent_def session_send_def sample_session_defs Let_def)
qed

theorem session_counts_last_request_witness:
  "\<exists>all st1 u r. sample_sent = Some (all, Inr (), st1) \<and> results all = [r] \<and> fin_usage r = total_usage [one_use, u] \<and>
     se_usage (ss_session st1) = u"
proof -
  obtain all st1 where sent: "sample_sent = Some (all, Inr (), st1)" using sample_sent_ok by blast
  obtain ctx ctx' where run: "tool_rounds (sample_tc [(''1'', ''read'')]) sample_first 0 [one_use] sample_tool_events ctx 1"
    "step_calling_api (sample_tc [(''1'', ''read'')]) ctx 1 = (Inr (DONE, sample_last_events), ctx', 2)"
    using sample_rounds by blast
  have "\<exists>u r. finishes all = [u] \<and> results all = [r] \<and> fin_usage r = total_usage ([one_use] @ [u]) \<and>
    se_usage (ss_session st1) = add_usage (se_usage (ss_session sample_session_state)) u"
  proof (rule session_counts_last_request)
    show "session_send sample_session_config False ''s'' ''hi'' sample_session_state = Some (all, Inr (), st1)"
      using sent by (simp add: sample_sent_def)
    show "tool_rounds (sn_transport sample_session_config)
      (new_context (sn_model sample_session_config) (sn_system_prompt sample_session_config) (sn_tools sample_session_config) ''s''
        ((case dict_get (ss_sessions sample_session_state) ''s'' of None \<Rightarrow> [] | Some h \<Rightarrow> h) @ [user_message ''hi'']))
      (ss_world sample_session_state) [one_use] sample_tool_events ctx 1"
      using run(1) by (simp add: sample_session_config_def sample_session_state_def sample_first_def)
    show "step_calling_api (sn_transport sample_session_config) ctx 1 = (Inr (DONE, sample_last_events), ctx', 2)"
      using run(2) by (simp add: sample_session_config_def)
    show "tc_max_history_turns (sn_transport sample_session_config) = None" by (simp add: sample_session_config_def sample_tc_def)
    show "streams_ok (sn_transport sample_session_config)" by (simp add: sample_session_config_def sample_streams_ok)
  qed (simp_all add: sample_session_state_def new_session_def sample_last_events_def finishes_def)
  then show ?thesis using sent by (auto simp: sample_session_state_def new_session_def)
qed

section \<open>Sessions are restored from their transcripts\<close>

definition captured_id :: "transport_event \<Rightarrow> string option" where
  "captured_id e = (case e of ResultEvent r \<Rightarrow> Some (fin_session_id r) | SessionSuspended c \<Rightarrow> co_session_id c | _ \<Rightarrow> None)"

text \<open>The turns of a session: messages sent to the end whose answer was captured. A new identifier has no transcripts.\<close>

inductive chat_step :: "'w session_config \<Rightarrow> 'w session_state \<Rightarrow> 'w session_state \<Rightarrow> bool" for sc where
  chat: "session_send sc False fresh_id message st = Some (evs, Inr (), st1) \<Longrightarrow> list_ex (\<lambda>e. captured_id e \<noteq> None) evs \<Longrightarrow>
    (\<And>e i sid. e \<in> set evs \<Longrightarrow> captured_id e = Some i \<Longrightarrow> sn_uuid sc i = Some sid \<Longrightarrow> se_session_id (ss_session st) = None \<Longrightarrow>
       read_transcript sid (ss_db st) = []) \<Longrightarrow> chat_step sc st st1"

definition summed_tokens :: "uuid \<Rightarrow> trace_db \<Rightarrow> usage" where
  "summed_tokens sid db =
     fold (\<lambda>tokens u. add_usage u (usage_of_json tokens)) (filter (\<lambda>tokens. tokens \<noteq> []) (read_session_token_counts sid db)) zero_usage"

definition recorded :: "'w session_config \<Rightarrow> 'w session_state \<Rightarrow> bool" where
  "recorded sc st =
     (case se_session_id (ss_session st) of
        None \<Rightarrow> ss_session st = new_session None
      | Some i \<Rightarrow> (\<exists>sid. sn_uuid sc i = Some sid \<and> summed_tokens sid (ss_db st) = se_usage (ss_session st) \<and>
          length (read_transcript sid (ss_db st)) = 2 * se_turn_count (ss_session st)))"

lemma add_sub_usage: "add_usage u (sub_usage v u) = v"
  by (simp add: add_usage_def sub_usage_def)

lemma write_entry_recorded:
  assumes "write_entry sc i turn role content calls tokens db = (Inr (), db1)" "sn_uuid sc i = Some sid"
  shows "length (read_transcript sid db1) = Suc (length (read_transcript sid db))"
    "tokens = None \<Longrightarrow> summed_tokens sid db1 = summed_tokens sid db"
    "tokens = Some (usage_json u) \<Longrightarrow> summed_tokens sid db1 = add_usage (summed_tokens sid db) u"
  using assms by (auto simp: write_entry_def write_transcript_entry_def read_transcript_def summed_tokens_def read_session_token_counts_def
      List.map_filter_def Let_def) (simp add: usage_json_def)

lemma summed_tokens_empty: "read_transcript sid db = [] \<Longrightarrow> summed_tokens sid db = zero_usage"
  by (auto simp: summed_tokens_def read_transcript_def read_session_token_counts_def List.map_filter_def filter_empty_conv)

text \<open>During a turn: nothing is recorded until the session's identifier is captured, then the user's message is.\<close>

definition mid_turn :: "'w session_config \<Rightarrow> session \<Rightarrow> trace_db \<Rightarrow> turn \<Rightarrow> session \<Rightarrow> trace_db \<Rightarrow> bool" where
  "mid_turn sc s0 db0 tn s db =
     (if tn_captured tn
      then \<exists>i sid. se_session_id s = Some i \<and> sn_uuid sc i = Some sid \<and> summed_tokens sid db = summed_tokens sid db0 \<and>
        length (read_transcript sid db) = Suc (length (read_transcript sid db0)) \<and>
        (se_session_id s0 = Some i \<or> se_session_id s0 = None \<and> read_transcript sid db0 = [])
      else db = db0 \<and> se_session_id s = se_session_id s0)"

definition new_ids :: "'w session_config \<Rightarrow> session \<Rightarrow> trace_db \<Rightarrow> transport_event \<Rightarrow> bool" where
  "new_ids sc s0 db0 e =
     (\<forall>i sid. captured_id e = Some i \<longrightarrow> sn_uuid sc i = Some sid \<longrightarrow> se_session_id s0 = None \<longrightarrow> read_transcript sid db0 = [])"

lemma try_capture_mid:
  assumes "try_capture_session sc m i tn s db = (Inr (), tn1, s1, db1)" "mid_turn sc s0 db0 tn s db"
    and "\<And>j sid. i = Some j \<Longrightarrow> sn_uuid sc j = Some sid \<Longrightarrow> se_session_id s0 = None \<Longrightarrow> read_transcript sid db0 = []"
  shows "mid_turn sc s0 db0 tn1 s1 db1 \<and> (i \<noteq> None \<longrightarrow> tn_captured tn1)"
proof (cases "tn_captured tn")
  case True
  then have "tn1 = tn" "se_session_id s1 = se_session_id s" "db1 = db"
    using assms(1,2) by (auto simp: try_capture_session_def mid_turn_def Let_def split: if_splits)
  then show ?thesis using True assms(2) by (simp add: mid_turn_def)
next
  case False
  then have s: "db = db0" "se_session_id s = se_session_id s0" using assms(2) by (simp_all add: mid_turn_def)
  let ?s1 = "if i \<noteq> None \<and> se_session_id s = None then s\<lparr>se_session_id := i\<rparr> else s"
  show ?thesis
  proof (cases "se_session_id ?s1")
    case None
    then show ?thesis using assms(1,2) False by (auto simp: try_capture_session_def Let_def split: if_splits)
  next
    case (Some k)
    then obtain wr: "write_entry sc k (se_turn_count ?s1) ''user'' m None None db = (Inr (), db1)" "s1 = ?s1" "tn1 = tn\<lparr>tn_captured := True\<rparr>"
      using assms(1) False by (auto simp: try_capture_session_def Let_def split: prod.splits sum.splits)
    from wr(1) obtain sid where sid: "sn_uuid sc k = Some sid" by (auto simp: write_entry_def split: option.splits)
    have "se_session_id s0 = Some k \<or> se_session_id s0 = None \<and> read_transcript sid db0 = []"
      using Some s(2) assms(3) sid by (auto split: if_splits)
    then show ?thesis
      using wr(2,3) Some sid s(1) write_entry_recorded(1,2) [OF wr(1) sid] by (auto simp: mid_turn_def)
  qed
qed

lemma event_effect_mid:
  assumes "send_event_effect sc m e tn s db = (Inr (), tn1, s1, db1)" "mid_turn sc s0 db0 tn s db" "new_ids sc s0 db0 e"
  shows "mid_turn sc s0 db0 tn1 s1 db1 \<and> (captured_id e \<noteq> None \<longrightarrow> tn_captured tn1) \<and> (tn_captured tn \<longrightarrow> tn_captured tn1)"
proof -
  have keep: "tn_captured tn1" if "try_capture_session sc m i tn' s db = (Inr (), tn1, s1, db1)" "tn_captured tn'" for i tn'
    using that by (auto simp: try_capture_session_def Let_def split: option.splits prod.splits sum.splits if_splits)
  show ?thesis
  proof (cases e)
    case (ResultEvent r)
    then have t: "try_capture_session sc m (Some (fin_session_id r)) (tn\<lparr>tn_result_text := fin_text r\<rparr>) s db = (Inr (), tn1, s1, db1)"
      using assms(1) by (simp add: send_event_effect_def)
    have "mid_turn sc s0 db0 (tn\<lparr>tn_result_text := fin_text r\<rparr>) s db" using assms(2) by (simp add: mid_turn_def)
    from try_capture_mid [OF t this] show ?thesis
      using assms(3) ResultEvent keep [OF t] by (auto simp: new_ids_def captured_id_def)
  next
    case (SessionSuspended c)
    then have t: "try_capture_session sc m (co_session_id c) tn s db = (Inr (), tn1, s1, db1)"
      using assms(1) by (simp add: send_event_effect_def)
    from try_capture_mid [OF t assms(2)] show ?thesis
      using assms(3) SessionSuspended keep [OF t] by (auto simp: new_ids_def captured_id_def)
  qed (use assms in \<open>auto simp: send_event_effect_def mid_turn_def captured_id_def split: if_splits\<close>)
qed

lemma each_event_mid:
  "each_event (send_event_effect sc m) evs tn s db = (Inr (), tn1, s1, db1) \<Longrightarrow> mid_turn sc s0 db0 tn s db \<Longrightarrow>
   list_all (new_ids sc s0 db0) evs \<Longrightarrow>
   mid_turn sc s0 db0 tn1 s1 db1 \<and> (list_ex (\<lambda>e. captured_id e \<noteq> None) evs \<or> tn_captured tn \<longrightarrow> tn_captured tn1)"
proof (induction evs arbitrary: tn s db)
  case (Cons e evs)
  then obtain tn2 s2 db2 where e: "send_event_effect sc m e tn s db = (Inr (), tn2, s2, db2)"
    and rest: "each_event (send_event_effect sc m) evs tn2 s2 db2 = (Inr (), tn1, s1, db1)"
    by (auto split: prod.splits sum.splits)
  from event_effect_mid [OF e Cons.prems(2)] Cons.prems(3)
  have "mid_turn sc s0 db0 tn2 s2 db2 \<and> (captured_id e \<noteq> None \<longrightarrow> tn_captured tn2) \<and> (tn_captured tn \<longrightarrow> tn_captured tn2)" by simp
  then show ?case using Cons.IH [OF rest] Cons.prems(3) by auto
qed simp

lemma chat_step_recorded: "chat_step sc st st1 \<Longrightarrow> recorded sc st \<Longrightarrow> recorded sc st1"
proof (induction rule: chat_step.induct)
  case (chat fresh_id message st evs st1)
  let ?s0 = "(ss_session st)\<lparr>se_turn_count := se_turn_count (ss_session st) + 1\<rparr>"
  obtain tn s1 db1 where each: "each_event (send_event_effect sc message) evs empty_turn ?s0 (ss_db st) = (Inr (), tn, s1, db1)"
    and s1: "ss_session st1 = s1"
    and fin: "case (if tn_captured tn then se_session_id s1 else None) of
       None \<Rightarrow> ss_db st1 = db1
     | Some sid \<Rightarrow> write_entry sc sid (se_turn_count s1) ''assistant'' (tn_result_text tn) (calls_json tn)
         (Some (usage_json (sub_usage (se_usage s1) (se_usage (ss_session st))))) db1 = (Inr (), ss_db st1)"
    by (rule session_send_ok [OF chat.hyps(1)]) auto
  have "list_all (new_ids sc ?s0 (ss_db st)) evs" using chat.hyps(3) by (auto simp: list_all_iff new_ids_def)
  from each_event_mid [OF each _ this] chat.hyps(2)
  have mid: "mid_turn sc ?s0 (ss_db st) tn s1 db1" "tn_captured tn" by (auto simp: mid_turn_def empty_turn_def)
  then obtain i sid where i: "se_session_id s1 = Some i" "sn_uuid sc i = Some sid" "summed_tokens sid db1 = summed_tokens sid (ss_db st)"
      "length (read_transcript sid db1) = Suc (length (read_transcript sid (ss_db st)))"
      "se_session_id (ss_session st) = Some i \<or> se_session_id (ss_session st) = None \<and> read_transcript sid (ss_db st) = []"
    by (auto simp: mid_turn_def)
  have wr: "write_entry sc i (se_turn_count s1) ''assistant'' (tn_result_text tn) (calls_json tn)
      (Some (usage_json (sub_usage (se_usage s1) (se_usage (ss_session st))))) db1 = (Inr (), ss_db st1)" using fin mid(2) i(1) by simp
  have before: "summed_tokens sid (ss_db st) = se_usage (ss_session st) \<and>
      length (read_transcript sid (ss_db st)) = 2 * se_turn_count (ss_session st)"
    using i(2,5) chat.prems by (auto simp: recorded_def new_session_def summed_tokens_empty split: option.splits)
  have turn: "se_turn_count s1 = Suc (se_turn_count (ss_session st))" using each_event_usage [OF each] by simp
  show ?case
    using i write_entry_recorded(1) [OF wr i(2)] write_entry_recorded(3) [OF wr i(2) refl] before turn s1
    by (simp add: recorded_def add_sub_usage)
qed

interpretation conversations: invariant_system "\<lambda>st. ss_session st = new_session None" "chat_step sc" "recorded sc" for sc
  by unfold_locales (simp add: recorded_def new_session_def, rule chat_step_recorded)


definition fresh_state :: "nat session_state" where
  "fresh_state = sample_session_state\<lparr>ss_session := new_session None\<rparr>"

definition fresh_sent :: "(transport_event list \<times> unit result \<times> nat session_state) option" where
  "fresh_sent = session_send sample_session_config False ''s'' ''hi'' fresh_state"

lemma fresh_sent_ok:
  "\<exists>evs st. fresh_sent = Some (evs, Inr (), st) \<and> list_ex (\<lambda>e. captured_id e \<noteq> None) evs \<and>
     se_session_id (ss_session st) = Some ''s'' \<and> se_turn_count (ss_session st) = 1"
proof -
  obtain h where "transport_send (sample_tc [(''1'', ''read'')]) ''m'' [] ''hi'' [sample_tool ''read'' False] ''s'' None [] 0 =
     Some ([StepStart ''s''] @ sample_tool_events @ sample_last_events, Inr (), h, 2)" using sample_transport [of None] by blast
  then show ?thesis by (simp add: fresh_sent_def fresh_state_def session_send_def sample_session_defs captured_id_def Let_def)
qed


end
