(* ===== verification/Providers.thy ===== *)
theory Providers
  imports Transport
begin

text \<open>
  The three model providers (\<open>transport/providers/_anthropic.py\<close>, \<open>_openai.py\<close> and \<open>_google.py\<close>): requests, responses, the formats of
  tool results and assistant messages, and the parsing of event streams from chunks of bytes.

  A text is its UTF-8 bytes here, so decoding is a check; bytes and texts are character lists. \<open>json.loads\<close> is a parameter that gives
  objects only, as the services send them. A field of a wrong type raises \<open>TypeError\<close>.
\<close>

section \<open>Fields of objects\<close>

definition sub_obj :: "jobj \<Rightarrow> string \<Rightarrow> jobj result" where
  "sub_obj d k = (case dict_get d k of None \<Rightarrow> Inr [] | Some (JObj o1) \<Rightarrow> Inr o1 | _ \<Rightarrow> Inl AttributeError)"

text \<open>\<open>d.get(k, {}) or {}\<close>: null counts as absent.\<close>

definition sub_obj_or :: "jobj \<Rightarrow> string \<Rightarrow> jobj result" where
  "sub_obj_or d k = (case dict_get d k of Some JNull \<Rightarrow> Inr [] | _ \<Rightarrow> sub_obj d k)"

definition need_obj :: "jobj \<Rightarrow> string \<Rightarrow> jobj result" where
  "need_obj d k = (case dict_get d k of None \<Rightarrow> Inl KeyError | Some (JObj o1) \<Rightarrow> Inr o1 | _ \<Rightarrow> Inl TypeError)"

definition need_str :: "jobj \<Rightarrow> string \<Rightarrow> string result" where
  "need_str d k = (case dict_get d k of None \<Rightarrow> Inl KeyError | Some (JStr s) \<Rightarrow> Inr s | _ \<Rightarrow> Inl TypeError)"

definition str_or :: "jobj \<Rightarrow> string \<Rightarrow> string \<Rightarrow> string result" where
  "str_or d k other = (case dict_get d k of None \<Rightarrow> Inr other | Some (JStr s) \<Rightarrow> Inr s | _ \<Rightarrow> Inl TypeError)"

definition int_or :: "jobj \<Rightarrow> string \<Rightarrow> int result" where
  "int_or d k = (case dict_get d k of None \<Rightarrow> Inr 0 | Some (JInt i) \<Rightarrow> Inr i | _ \<Rightarrow> Inl TypeError)"

definition objs_or :: "jobj \<Rightarrow> string \<Rightarrow> jobj list result" where
  "objs_or d k =
     (case dict_get d k of
        None \<Rightarrow> Inr []
      | Some (JArr js) \<Rightarrow>
          (if list_all (\<lambda>j. case j of JObj _ \<Rightarrow> True | _ \<Rightarrow> False) js
           then Inr (map (\<lambda>j. case j of JObj o1 \<Rightarrow> o1 | _ \<Rightarrow> []) js) else Inl TypeError)
      | _ \<Rightarrow> Inl TypeError)"

definition bind_all :: "('a \<Rightarrow> 'b list result) \<Rightarrow> 'a list \<Rightarrow> 'b list result" where
  "bind_all f xs = fold (\<lambda>x r. bind_res r (\<lambda>ys. bind_res (f x) (\<lambda>zs. Inr (ys @ zs)))) xs (Inr [])"

definition usage5 :: "int \<Rightarrow> int \<Rightarrow> int \<Rightarrow> int \<Rightarrow> int \<Rightarrow> usage" where
  "usage5 i ou re cr cw = \<lparr>input_tokens = i, output_tokens = ou, reasoning_tokens = re, cache_read_tokens = cr, cache_write_tokens = cw\<rparr>"

definition opt_str_json :: "string option \<Rightarrow> json" where
  "opt_str_json s = (case s of None \<Rightarrow> JNull | Some x \<Rightarrow> JStr x)"

definition opt_obj_json :: "jobj option \<Rightarrow> json" where
  "opt_obj_json s = (case s of None \<Rightarrow> JNull | Some x \<Rightarrow> JObj x)"

definition call_block :: "string \<Rightarrow> string \<Rightarrow> jobj \<Rightarrow> content_block" where
  "call_block i n input = \<lparr>cb_type = ''tool_use'', cb_text = None, cb_tool_use_id = Some i, cb_tool_name = Some n, cb_tool_input = Some input\<rparr>"

section \<open>Chunks and lines\<close>

text \<open>The lines that are complete, and the rest of the buffer.\<close>

fun complete_lines :: "string \<Rightarrow> string list \<times> string" where
  "complete_lines [] = ([], [])"
| "complete_lines (c # cs) =
     (case complete_lines cs of
        (ls, rest) \<Rightarrow> if c = CHR 0x0A then ([] # ls, rest) else (case ls of [] \<Rightarrow> ([], c # rest) | l # ls' \<Rightarrow> ((c # l) # ls', rest)))"

text \<open>What handling a line does: it raises, ends the stream or goes on in a new state; all after yielding events.\<close>

datatype 's outcome = Raises exn | Ends | Continues 's

type_synonym 's handler = "string \<Rightarrow> 's \<Rightarrow> transport_event list \<times> 's outcome"

fun handle_lines :: "'s handler \<Rightarrow> string list \<Rightarrow> 's \<Rightarrow> transport_event list \<times> 's outcome" where
  "handle_lines h [] s = ([], Continues s)"
| "handle_lines h (l # ls) s =
     (case h l s of
        (evs, Continues s1) \<Rightarrow> (case handle_lines h ls s1 of (evs', r) \<Rightarrow> (evs @ evs', r))
      | (evs, r) \<Rightarrow> (evs, r))"

text \<open>
  The loop over the chunks; \<open>ok\<close> is what a chunk must satisfy to be appended to the buffer (to be valid UTF-8 where chunks are
  decoded one by one). A line that is still incomplete at the end is dropped.
\<close>

fun parse_chunks :: "(string \<Rightarrow> bool) \<Rightarrow> 's handler \<Rightarrow> string list \<Rightarrow> string \<Rightarrow> 's \<Rightarrow> transport_event list \<times> unit result" where
  "parse_chunks ok h [] buffer s = ([], Inr ())"
| "parse_chunks ok h (chunk # chunks) buffer s =
     (if \<not> ok chunk then ([], Inl ValueError)
      else (case complete_lines (buffer @ chunk) of
              (ls, rest) \<Rightarrow>
                (case handle_lines h ls s of
                   (evs, Raises e) \<Rightarrow> (evs, Inl e)
                 | (evs, Ends) \<Rightarrow> (evs, Inr ())
                 | (evs, Continues s1) \<Rightarrow> (case parse_chunks ok h chunks rest s1 of (evs', r) \<Rightarrow> (evs @ evs', r)))))"

definition byte :: "char \<Rightarrow> nat" where
  "byte c = of_char c"

definition cont_byte :: "char \<Rightarrow> bool" where
  "cont_byte c = (128 \<le> byte c \<and> byte c < 192)"

fun utf8_valid :: "string \<Rightarrow> bool" where
  "utf8_valid [] = True"
| "utf8_valid (a # as) =
     (if byte a < 128 then utf8_valid as
      else (case as of
              [] \<Rightarrow> False
            | b # bs \<Rightarrow>
                if 194 \<le> byte a \<and> byte a < 224 then cont_byte b \<and> utf8_valid bs
                else (case bs of
                        [] \<Rightarrow> False
                      | c # cs \<Rightarrow>
                          if 224 \<le> byte a \<and> byte a < 240
                          then cont_byte b \<and> cont_byte c \<and> (byte a = 224 \<longrightarrow> 160 \<le> byte b) \<and> (byte a = 237 \<longrightarrow> byte b < 160) \<and> utf8_valid cs
                          else (case cs of
                                  [] \<Rightarrow> False
                                | d # ds \<Rightarrow>
                                    240 \<le> byte a \<and> byte a < 245 \<and> cont_byte b \<and> cont_byte c \<and> cont_byte d \<and>
                                    (byte a = 240 \<longrightarrow> 144 \<le> byte b) \<and> (byte a = 244 \<longrightarrow> byte b < 144) \<and> utf8_valid ds))))"

definition is_ascii_space :: "char \<Rightarrow> bool" where
  "is_ascii_space c = (byte c \<in> {9, 10, 11, 12, 13, 28, 29, 30, 31, 32})"

definition strip_line :: "string \<Rightarrow> string" where
  "strip_line l = rev (dropWhile is_ascii_space (rev (dropWhile is_ascii_space l)))"

definition rstrip_cr :: "string \<Rightarrow> string" where
  "rstrip_cr l = rev (dropWhile (\<lambda>c. c = CHR 0x0D) (rev l))"

definition of_result :: "'s \<Rightarrow> (transport_event list \<times> 's) result \<Rightarrow> transport_event list \<times> 's outcome" where
  "of_result s r = (case r of Inl e \<Rightarrow> ([], Raises e) | Inr (evs, s1) \<Rightarrow> (evs, Continues s1))"

section \<open>Anthropic\<close>

record anthropic =
  an_api_key :: string
  an_base_url :: string
  an_api_version :: string
  an_max_tokens :: int

definition format_anthropic_tool :: "jobj \<Rightarrow> jobj" where
  "format_anthropic_tool tool =
     [(''name'', the (dict_get tool ''name'')), (''description'', the (dict_get tool ''description'')),
      (''input_schema'', the (dict_get tool ''parameters''))] @
     (if dict_get tool ''deferred'' = Some (JBool True) then [(''defer_loading'', JBool True)] else [])"

definition anthropic_build_request ::
  "anthropic \<Rightarrow> jobj list \<Rightarrow> jobj list \<Rightarrow> string \<Rightarrow> string \<Rightarrow> string \<times> (string, string) dict \<times> jobj" where
  "anthropic_build_request an messages tools system model =
     (an_base_url an @ ''/v1/messages'',
      [(''x-api-key'', an_api_key an), (''anthropic-version'', an_api_version an), (''content-type'', ''application/json'')],
      [(''model'', JStr model), (''max_tokens'', JInt (an_max_tokens an)), (''system'', JStr system),
       (''messages'', JArr (map JObj messages)), (''stream'', JBool True)] @
      (if tools = [] then [] else [(''tools'', JArr (map (JObj \<circ> format_anthropic_tool) tools))]))"

definition anthropic_format_tool_result :: "string \<Rightarrow> string \<Rightarrow> bool \<Rightarrow> jobj" where
  "anthropic_format_tool_result tool_use_id content is_error =
     [(''type'', JStr ''tool_result''), (''tool_use_id'', JStr tool_use_id), (''content'', JStr content)] @
     (if is_error then [(''is_error'', JBool True)] else [])"

definition anthropic_wrap_tool_results :: "jobj list \<Rightarrow> jobj list" where
  "anthropic_wrap_tool_results rs = [[(''role'', JStr ''user''), (''content'', JArr (map JObj rs))]]"

definition anthropic_block :: "content_block \<Rightarrow> jobj list" where
  "anthropic_block b =
     (if cb_type b = ''text'' then [[(''type'', JStr ''text''), (''text'', opt_str_json (cb_text b))]]
      else if cb_type b = ''tool_use''
      then [[(''type'', JStr ''tool_use''), (''id'', opt_str_json (cb_tool_use_id b)), (''name'', opt_str_json (cb_tool_name b)),
             (''input'', opt_obj_json (cb_tool_input b))]]
      else if cb_type b = ''thinking'' then [[(''type'', JStr ''thinking''), (''thinking'', opt_str_json (cb_text b))]]
      else [])"

definition anthropic_format_assistant_message :: "content_block list \<Rightarrow> jobj" where
  "anthropic_format_assistant_message blocks =
     [(''role'', JStr ''assistant''), (''content'', JArr (map JObj (concat (map anthropic_block blocks))))]"

definition anthropic_provider :: "anthropic \<Rightarrow> model_provider" where
  "anthropic_provider an =
     \<lparr>pv_build_request = anthropic_build_request an, pv_format_tool_result = anthropic_format_tool_result,
      pv_wrap_tool_results = anthropic_wrap_tool_results, pv_format_assistant_message = anthropic_format_assistant_message\<rparr>"

definition anthropic_extract_usage :: "jobj \<Rightarrow> usage result" where
  "anthropic_extract_usage response =
     bind_res (need_obj response ''usage'') (\<lambda>u.
     bind_res (int_or u ''input_tokens'') (\<lambda>i. bind_res (int_or u ''output_tokens'') (\<lambda>ou.
     bind_res (int_or u ''reasoning_tokens'') (\<lambda>re. bind_res (int_or u ''cache_read_input_tokens'') (\<lambda>cr.
     bind_res (int_or u ''cache_creation_input_tokens'') (\<lambda>cw. Inr (usage5 i ou re cr cw)))))))"

definition anthropic_parse_item :: "jobj \<Rightarrow> content_block list result" where
  "anthropic_parse_item item =
     bind_res (need_str item ''type'') (\<lambda>ty.
       if ty = ''text'' then bind_res (need_str item ''text'') (\<lambda>t. Inr [plain_block ''text'' t])
       else if ty = ''tool_use''
       then bind_res (need_str item ''id'') (\<lambda>i. bind_res (need_str item ''name'') (\<lambda>n.
              bind_res (need_obj item ''input'') (\<lambda>input. Inr [call_block i n input])))
       else if ty = ''thinking'' then bind_res (need_str item ''thinking'') (\<lambda>t. Inr [plain_block ''thinking'' t])
       else Inr [plain_block ty (json_dumps (JObj item))])"

definition anthropic_parse_response :: "jobj \<Rightarrow> content_block list result" where
  "anthropic_parse_response response =
     (case dict_get response ''content'' of None \<Rightarrow> Inl KeyError | Some _ \<Rightarrow> bind_res (objs_or response ''content'') (bind_all anthropic_parse_item))"

record anthropic_state =
  as_event_type :: string
  as_tool :: "(string \<times> string option) option"
  as_json_parts :: "string list"
  as_input_usage :: "int \<times> int \<times> int"

definition anthropic_start :: anthropic_state where
  "anthropic_start = \<lparr>as_event_type = [], as_tool = None, as_json_parts = [], as_input_usage = (0, 0, 0)\<rparr>"

text \<open>The identifier and name of a tool call that starts; a null identifier counts as none, a null name becomes empty when it stops.\<close>

definition nullable_or :: "jobj \<Rightarrow> string \<Rightarrow> string option result" where
  "nullable_or d k = (case dict_get d k of Some JNull \<Rightarrow> Inr None | _ \<Rightarrow> map_sum id Some (str_or d k []))"

definition block_start :: "jobj \<Rightarrow> anthropic_state \<Rightarrow> (transport_event list \<times> anthropic_state) result" where
  "block_start data s =
     bind_res (sub_obj data ''content_block'') (\<lambda>cb.
       if dict_get cb ''type'' \<noteq> Some (JStr ''tool_use'') then Inr ([], s)
       else bind_res (nullable_or cb ''id'') (\<lambda>i. bind_res (nullable_or cb ''name'') (\<lambda>n.
              Inr ([], s\<lparr>as_tool := map_option (\<lambda>x. (x, n)) i, as_json_parts := []\<rparr>))))"

definition block_delta :: "jobj \<Rightarrow> anthropic_state \<Rightarrow> (transport_event list \<times> anthropic_state) result" where
  "block_delta data s =
     bind_res (need_obj data ''delta'') (\<lambda>delta. bind_res (need_str delta ''type'') (\<lambda>ty.
       if ty = ''text_delta'' then bind_res (need_str delta ''text'') (\<lambda>t. Inr ([StreamDelta t], s))
       else if ty = ''thinking_delta'' then bind_res (need_str delta ''thinking'') (\<lambda>t. Inr ([Thinking t], s))
       else if ty = ''input_json_delta''
       then bind_res (str_or delta ''partial_json'' []) (\<lambda>p. Inr ([], s\<lparr>as_json_parts := as_json_parts s @ [p]\<rparr>))
       else Inr ([UnknownEvent delta], s)))"

definition parsed_input :: "(string \<Rightarrow> jobj option) \<Rightarrow> string \<Rightarrow> jobj" where
  "parsed_input loads js = (if js = [] then [] else case loads js of None \<Rightarrow> [] | Some d \<Rightarrow> d)"

definition block_stop :: "(string \<Rightarrow> jobj option) \<Rightarrow> anthropic_state \<Rightarrow> transport_event list \<times> anthropic_state" where
  "block_stop loads s =
     (case as_tool s of
        None \<Rightarrow> ([], s)
      | Some (i, n) \<Rightarrow>
          ([StreamToolUse i (or_empty n) (parsed_input loads (concat (as_json_parts s)))], s\<lparr>as_tool := None, as_json_parts := []\<rparr>))"

definition message_start :: "jobj \<Rightarrow> anthropic_state \<Rightarrow> (transport_event list \<times> anthropic_state) result" where
  "message_start data s =
     bind_res (sub_obj data ''message'') (\<lambda>m. bind_res (sub_obj m ''usage'') (\<lambda>u.
       if u = [] then Inr ([], s)
       else bind_res (int_or u ''input_tokens'') (\<lambda>i. bind_res (int_or u ''cache_read_input_tokens'') (\<lambda>cr.
            bind_res (int_or u ''cache_creation_input_tokens'') (\<lambda>cw. Inr ([], s\<lparr>as_input_usage := (i, cr, cw)\<rparr>))))))"

definition message_delta :: "jobj \<Rightarrow> anthropic_state \<Rightarrow> (transport_event list \<times> anthropic_state) result" where
  "message_delta data s =
     bind_res (sub_obj data ''usage'') (\<lambda>u.
       if u = [] then Inr ([], s)
       else bind_res (int_or u ''output_tokens'') (\<lambda>ou.
              Inr ([StreamUsage (case as_input_usage s of (i, cr, cw) \<Rightarrow> usage5 i ou 0 cr cw)], s)))"

definition anthropic_data :: "(string \<Rightarrow> jobj option) \<Rightarrow> jobj \<Rightarrow> anthropic_state \<Rightarrow> transport_event list \<times> anthropic_state outcome" where
  "anthropic_data loads data s =
     (let ty = as_event_type s
      in if ty = ''content_block_start'' then of_result s (block_start data s)
         else if ty = ''content_block_delta'' then of_result s (block_delta data s)
         else if ty = ''content_block_stop'' then of_result s (Inr (block_stop loads s))
         else if ty = ''message_start'' then of_result s (message_start data s)
         else if ty = ''message_delta'' then of_result s (message_delta data s)
         else if ty = ''message_stop'' then ([], Ends)
         else if ty \<noteq> ''ping'' then ([UnknownEvent data], Continues s)
         else ([], Continues s))"

definition anthropic_line :: "(string \<Rightarrow> jobj option) \<Rightarrow> anthropic_state handler" where
  "anthropic_line loads line_bytes s =
     (if \<not> utf8_valid line_bytes then ([], Raises ValueError)
      else let line = rstrip_cr line_bytes
           in if startswith line ''event: '' then ([], Continues (s\<lparr>as_event_type := drop 7 line\<rparr>))
              else if startswith line ''data: ''
              then (case loads (drop 6 line) of None \<Rightarrow> ([], Raises JSONDecodeError) | Some data \<Rightarrow> anthropic_data loads data s)
              else ([], Continues s))"

definition anthropic_parse_stream :: "(string \<Rightarrow> jobj option) \<Rightarrow> string list \<Rightarrow> transport_event list \<times> unit result" where
  "anthropic_parse_stream loads chunks = parse_chunks (\<lambda>c. True) (anthropic_line loads) chunks [] anthropic_start"

section \<open>OpenAI\<close>

record openai =
  oa_api_key :: string
  oa_base_url :: string

definition NOT_LOADED :: string where
  "NOT_LOADED = '' (Schema not loaded -- call load_tools to load full schema first.)''"

definition str_of_json :: "json option \<Rightarrow> string" where
  "str_of_json j = (case j of Some (JStr s) \<Rightarrow> s | _ \<Rightarrow> [])"

definition format_openai_tool :: "jobj \<Rightarrow> jobj" where
  "format_openai_tool tool =
     (if dict_get tool ''deferred'' = Some (JBool True)
      then [(''name'', the (dict_get tool ''name'')), (''description'', JStr (str_of_json (dict_get tool ''description'') @ NOT_LOADED)),
            (''parameters'', JObj [(''type'', JStr ''object''), (''properties'', JObj [])])]
      else [(''name'', the (dict_get tool ''name'')), (''description'', the (dict_get tool ''description'')),
            (''parameters'', the (dict_get tool ''parameters''))])"

definition openai_build_request ::
  "openai \<Rightarrow> jobj list \<Rightarrow> jobj list \<Rightarrow> string \<Rightarrow> string \<Rightarrow> string \<times> (string, string) dict \<times> jobj" where
  "openai_build_request oa messages tools system model =
     (oa_base_url oa @ ''/chat/completions'',
      [(''Authorization'', ''Bearer '' @ oa_api_key oa), (''Content-Type'', ''application/json'')],
      [(''model'', JStr model),
       (''messages'', JArr (JObj [(''role'', JStr ''system''), (''content'', JStr system)] # map JObj messages)),
       (''stream'', JBool True), (''stream_options'', JObj [(''include_usage'', JBool True)])] @
      (if tools = [] then []
       else [(''tools'', JArr (map (\<lambda>t. JObj [(''type'', JStr ''function''), (''function'', JObj (format_openai_tool t))]) tools))]))"

definition openai_format_tool_result :: "string \<Rightarrow> string \<Rightarrow> bool \<Rightarrow> jobj" where
  "openai_format_tool_result tool_use_id content is_error =
     [(''role'', JStr ''tool''), (''tool_call_id'', JStr tool_use_id), (''content'', JStr content)]"

definition openai_wrap_tool_results :: "jobj list \<Rightarrow> jobj list" where
  "openai_wrap_tool_results rs = rs"

definition openai_call :: "content_block \<Rightarrow> jobj" where
  "openai_call b =
     [(''id'', opt_str_json (cb_tool_use_id b)), (''type'', JStr ''function''),
      (''function'', JObj [(''name'', opt_str_json (cb_tool_name b)), (''arguments'', JStr (json_dumps (opt_obj_json (cb_tool_input b))))])]"

definition openai_format_assistant_message :: "content_block list \<Rightarrow> jobj" where
  "openai_format_assistant_message blocks =
     (let texts = some_texts (filter (\<lambda>b. cb_type b = ''text'') blocks);
          calls = map openai_call (filter (\<lambda>b. cb_type b = ''tool_use'') blocks)
      in [(''role'', JStr ''assistant''), (''content'', if texts = [] then JNull else JStr (join '' '' texts))] @
         (if calls = [] then [] else [(''tool_calls'', JArr (map JObj calls))]))"

definition openai_provider :: "openai \<Rightarrow> model_provider" where
  "openai_provider oa =
     \<lparr>pv_build_request = openai_build_request oa, pv_format_tool_result = openai_format_tool_result,
      pv_wrap_tool_results = openai_wrap_tool_results, pv_format_assistant_message = openai_format_assistant_message\<rparr>"

definition openai_usage :: "jobj \<Rightarrow> usage result" where
  "openai_usage u =
     bind_res (sub_obj_or u ''completion_tokens_details'') (\<lambda>cd. bind_res (sub_obj_or u ''prompt_tokens_details'') (\<lambda>pd.
     bind_res (int_or u ''prompt_tokens'') (\<lambda>i. bind_res (int_or u ''completion_tokens'') (\<lambda>ou.
     bind_res (int_or cd ''reasoning_tokens'') (\<lambda>re. bind_res (int_or pd ''cached_tokens'') (\<lambda>cr.
       Inr (usage5 i ou re cr 0)))))))"

definition openai_extract_usage :: "jobj \<Rightarrow> usage result" where
  "openai_extract_usage response = bind_res (sub_obj response ''usage'') openai_usage"

definition openai_parse_call :: "(string \<Rightarrow> jobj option) \<Rightarrow> jobj \<Rightarrow> content_block list result" where
  "openai_parse_call loads tc =
     bind_res (need_str tc ''id'') (\<lambda>i. bind_res (need_obj tc ''function'') (\<lambda>f. bind_res (need_str f ''name'') (\<lambda>n.
     bind_res (need_str f ''arguments'') (\<lambda>a. case loads a of None \<Rightarrow> Inl JSONDecodeError | Some input \<Rightarrow> Inr [call_block i n input]))))"

definition openai_parse_response :: "(string \<Rightarrow> jobj option) \<Rightarrow> jobj \<Rightarrow> content_block list result" where
  "openai_parse_response loads response =
     (case dict_get response ''choices'' of
        Some (JArr (JObj choice # _)) \<Rightarrow>
          bind_res (need_obj choice ''message'') (\<lambda>m.
          bind_res (case dict_get m ''content'' of None \<Rightarrow> Inr [] | Some JNull \<Rightarrow> Inr [] | Some (JStr s) \<Rightarrow> Inr [plain_block ''text'' s]
                    | _ \<Rightarrow> Inl TypeError) (\<lambda>texts.
          bind_res (objs_or m ''tool_calls'') (\<lambda>tcs. bind_res (bind_all (openai_parse_call loads) tcs) (\<lambda>calls. Inr (texts @ calls)))))
      | Some (JArr []) \<Rightarrow> Inl ValueError
      | None \<Rightarrow> Inl KeyError
      | _ \<Rightarrow> Inl TypeError)"

text \<open>The tool calls that accumulate by index: identifier, name and arguments.\<close>

type_synonym openai_calls = "(int, string \<times> string \<times> string) dict"

definition pending_calls :: "(string \<Rightarrow> jobj option) \<Rightarrow> openai_calls \<Rightarrow> transport_event list" where
  "pending_calls loads calls =
     map (\<lambda>(idx, i, n, a). StreamToolUse i n (case loads a of None \<Rightarrow> [] | Some d \<Rightarrow> d)) (sort_key fst calls)"

definition openai_call_delta :: "jobj \<Rightarrow> openai_calls \<Rightarrow> openai_calls result" where
  "openai_call_delta tc calls =
     bind_res (int_or tc ''index'') (\<lambda>idx.
       let (i, n, a) = (case dict_get calls idx of None \<Rightarrow> ([], [], []) | Some c \<Rightarrow> c)
       in bind_res (str_or tc ''id'' i) (\<lambda>i1. bind_res (sub_obj tc ''function'') (\<lambda>f.
          bind_res (str_or f ''name'' n) (\<lambda>n1. bind_res (str_or f ''arguments'' []) (\<lambda>a1.
            Inr (dict_set idx (i1, n1, a @ a1) calls))))))"

definition openai_delta :: "jobj \<Rightarrow> openai_calls \<Rightarrow> transport_event list \<times> openai_calls outcome" where
  "openai_delta delta calls =
     (let texts = (case dict_get delta ''content'' of Some (JStr (c # cs)) \<Rightarrow> [StreamDelta (c # cs)] | _ \<Rightarrow> []);
          unknown = filter (\<lambda>(k, v). k \<notin> {''role'', ''content'', ''tool_calls''}) delta;
          evs = texts @ (if unknown = [] then [] else [UnknownEvent unknown])
      in case bind_res (objs_or delta ''tool_calls'') (\<lambda>tcs. fold (\<lambda>tc r. bind_res r (openai_call_delta tc)) tcs (Inr calls)) of
           Inl e \<Rightarrow> (evs, Raises e)
         | Inr calls1 \<Rightarrow> (evs, Continues calls1))"

text \<open>The usage of a chunk comes first, then its choices; \<open>choices\<close> that are absent, null or empty end the line.\<close>

definition openai_data :: "jobj \<Rightarrow> openai_calls \<Rightarrow> transport_event list \<times> openai_calls outcome" where
  "openai_data parsed calls =
     (case (case dict_get parsed ''usage'' of
              Some (JObj (x # u)) \<Rightarrow> map_sum id (\<lambda>u. [StreamUsage u]) (openai_usage (x # u))
            | _ \<Rightarrow> Inr []) of
        Inl e \<Rightarrow> ([], Raises e)
      | Inr evs \<Rightarrow>
          (case dict_get parsed ''choices'' of
             Some (JArr (JObj choice # _)) \<Rightarrow>
               (case sub_obj choice ''delta'' of
                  Inl e \<Rightarrow> (evs, Raises e)
                | Inr delta \<Rightarrow> (case openai_delta delta calls of (evs', r) \<Rightarrow> (evs @ evs', r)))
           | Some (JArr (_ # _)) \<Rightarrow> (evs, Raises AttributeError)
           | _ \<Rightarrow> (evs, Continues calls)))"

definition openai_line :: "(string \<Rightarrow> jobj option) \<Rightarrow> openai_calls handler" where
  "openai_line loads raw calls =
     (let line = strip_line raw
      in if line = [] \<or> startswith line '':'' \<or> \<not> startswith line ''data: '' then ([], Continues calls)
         else if drop 6 line = ''[DONE]'' then (pending_calls loads calls, Ends)
         else (case loads (drop 6 line) of None \<Rightarrow> ([], Raises JSONDecodeError) | Some parsed \<Rightarrow> openai_data parsed calls))"

definition openai_parse_stream :: "(string \<Rightarrow> jobj option) \<Rightarrow> string list \<Rightarrow> transport_event list \<times> unit result" where
  "openai_parse_stream loads chunks = parse_chunks utf8_valid (openai_line loads) chunks [] []"

section \<open>Google\<close>

record google =
  gg_api_key :: string
  gg_base_url :: string

definition map_role :: "string \<Rightarrow> string" where
  "map_role role = (if role \<in> {''assistant'', ''model''} then ''model'' else ''user'')"

definition get_or :: "jobj \<Rightarrow> string \<Rightarrow> json \<Rightarrow> json" where
  "get_or d k other = (case dict_get d k of None \<Rightarrow> other | Some j \<Rightarrow> j)"

definition falsy_json :: "json option \<Rightarrow> bool" where
  "falsy_json j = (case j of None \<Rightarrow> True | Some x \<Rightarrow> \<not> truthy_json x)"

definition convert_content_block :: "jobj \<Rightarrow> jobj list" where
  "convert_content_block block =
     (let ty = get_or block ''type'' (JStr [])
      in if ty = JStr ''text'' then [[(''text'', get_or block ''text'' (JStr []))]]
         else if ty = JStr ''tool_use''
         then [[(''functionCall'', JObj ([(''name'', get_or block ''name'' (JStr [])), (''args'', get_or block ''input'' (JObj []))] @
                (if falsy_json (dict_get block ''id'') then [] else [(''id'', the (dict_get block ''id''))])))]]
         else if ty = JStr ''tool_result''
         then [[(''functionResponse'', JObj [(''name'', get_or block ''tool_use_id'' (JStr [])),
                 (''response'', JObj [(''result'', get_or block ''content'' (JStr []))])])]]
         else [[(''text'', JStr (json_dumps (JObj block)))]])"

definition extract_parts :: "jobj \<Rightarrow> json list" where
  "extract_parts msg =
     (case dict_get msg ''content'' of
        Some (JStr s) \<Rightarrow> [JObj [(''text'', JStr s)]]
      | Some (JArr js) \<Rightarrow>
          concat (map (\<lambda>j. case j of JStr s \<Rightarrow> [JObj [(''text'', JStr s)]] | JObj b \<Rightarrow> map JObj (convert_content_block b) | _ \<Rightarrow> []) js)
      | _ \<Rightarrow> (case dict_get msg ''parts'' of Some (JArr js) \<Rightarrow> js | _ \<Rightarrow> [JObj [(''text'', JStr [])]]))"

definition convert_messages :: "jobj list \<Rightarrow> jobj list" where
  "convert_messages messages =
     map (\<lambda>m. [(''role'', JStr (map_role (str_of_json (Some (get_or m ''role'' (JStr ''user'')))))), (''parts'', JArr (extract_parts m))]) messages"

definition convert_tool :: "jobj \<Rightarrow> jobj" where
  "convert_tool tool =
     (let deferred = \<not> falsy_json (dict_get tool ''deferred'')
      in [(''name'', the (dict_get tool ''name''))] @
         (case dict_get tool ''description'' of
            None \<Rightarrow> []
          | Some d \<Rightarrow> [(''description'', if deferred then JStr (str_of_json (Some d) @ NOT_LOADED) else d)]) @
         (if deferred then []
          else (case dict_get tool ''parameters'' of
                  Some ps \<Rightarrow> [(''parameters'', ps)]
                | None \<Rightarrow> (case dict_get tool ''input_schema'' of Some ps \<Rightarrow> [(''parameters'', ps)] | None \<Rightarrow> []))))"

definition google_build_request ::
  "google \<Rightarrow> jobj list \<Rightarrow> jobj list \<Rightarrow> string \<Rightarrow> string \<Rightarrow> string \<times> (string, string) dict \<times> jobj" where
  "google_build_request gg messages tools system model =
     (gg_base_url gg @ ''/models/'' @ model @ '':streamGenerateContent?alt=sse'',
      [(''x-goog-api-key'', gg_api_key gg), (''Content-Type'', ''application/json'')],
      [(''contents'', JArr (map JObj (convert_messages messages)))] @
      (if system = [] then [] else [(''system_instruction'', JObj [(''parts'', JArr [JObj [(''text'', JStr system)]])])]) @
      (if tools = [] then [] else [(''tools'', JArr [JObj [(''functionDeclarations'', JArr (map (JObj \<circ> convert_tool) tools))]])]))"

definition google_format_tool_result :: "string \<Rightarrow> string \<Rightarrow> bool \<Rightarrow> jobj" where
  "google_format_tool_result tool_use_id content is_error =
     [(''functionResponse'', JObj [(''name'', JStr tool_use_id), (''response'', JObj [(''result'', JStr content)])])]"

definition google_wrap_tool_results :: "jobj list \<Rightarrow> jobj list" where
  "google_wrap_tool_results rs = [[(''role'', JStr ''user''), (''parts'', JArr (map JObj rs))]]"

definition google_part :: "content_block \<Rightarrow> jobj list" where
  "google_part b =
     (if cb_type b = ''text'' \<and> cb_text b \<noteq> None then [[(''text'', opt_str_json (cb_text b))]]
      else if cb_type b = ''tool_use''
      then [[(''functionCall'', JObj ([(''name'', opt_str_json (cb_tool_name b)), (''args'', JObj (block_input b))] @
              (if or_empty (cb_tool_use_id b) \<noteq> [] \<and> cb_tool_use_id b \<noteq> cb_tool_name b
               then [(''id'', opt_str_json (cb_tool_use_id b))] else [])))]]
      else [])"

definition google_format_assistant_message :: "content_block list \<Rightarrow> jobj" where
  "google_format_assistant_message blocks = [(''role'', JStr ''model''), (''parts'', JArr (map JObj (concat (map google_part blocks))))]"

definition google_provider :: "google \<Rightarrow> model_provider" where
  "google_provider gg =
     \<lparr>pv_build_request = google_build_request gg, pv_format_tool_result = google_format_tool_result,
      pv_wrap_tool_results = google_wrap_tool_results, pv_format_assistant_message = google_format_assistant_message\<rparr>"

definition google_usage :: "jobj \<Rightarrow> usage result" where
  "google_usage u = bind_res (int_or u ''promptTokenCount'') (\<lambda>i. bind_res (int_or u ''candidatesTokenCount'') (\<lambda>ou. Inr (usage5 i ou 0 0 0)))"

definition google_extract_usage :: "jobj \<Rightarrow> usage result" where
  "google_extract_usage response = bind_res (sub_obj response ''usageMetadata'') google_usage"

text \<open>A call has the identifier of the service or, without one, the name of its function.\<close>

definition google_call :: "jobj \<Rightarrow> (string \<times> string \<times> jobj) result" where
  "google_call fc =
     bind_res (need_str fc ''name'') (\<lambda>n. bind_res (str_or fc ''id'' n) (\<lambda>i. bind_res (sub_obj fc ''args'') (\<lambda>args. Inr (i, n, args))))"

definition google_part_event :: "jobj \<Rightarrow> transport_event result" where
  "google_part_event part =
     (if dict_get part ''text'' \<noteq> None then bind_res (need_str part ''text'') (\<lambda>s. Inr (StreamDelta s))
      else if dict_get part ''functionCall'' \<noteq> None
      then bind_res (need_obj part ''functionCall'') (\<lambda>fc. bind_res (google_call fc) (\<lambda>(i, n, args). Inr (StreamToolUse i n args)))
      else Inr (UnknownEvent part))"

definition google_part_block :: "jobj \<Rightarrow> content_block list result" where
  "google_part_block part =
     (if dict_get part ''text'' \<noteq> None then bind_res (need_str part ''text'') (\<lambda>s. Inr [plain_block ''text'' s])
      else if dict_get part ''functionCall'' \<noteq> None
      then bind_res (need_obj part ''functionCall'') (\<lambda>fc. bind_res (google_call fc) (\<lambda>(i, n, args). Inr [call_block i n args]))
      else Inr [plain_block ''unknown'' (json_dumps (JObj part))])"

text \<open>The parts of the first candidate; none when there are no candidates.\<close>

definition candidate_parts :: "jobj \<Rightarrow> jobj list result" where
  "candidate_parts data =
     (if falsy_json (dict_get data ''candidates'') then Inr []
      else (case dict_get data ''candidates'' of
              Some (JArr (JObj c # _)) \<Rightarrow> bind_res (sub_obj c ''content'') (\<lambda>content. objs_or content ''parts'')
            | _ \<Rightarrow> Inl AttributeError))"

definition google_parse_response :: "jobj \<Rightarrow> content_block list result" where
  "google_parse_response response = bind_res (candidate_parts response) (bind_all google_part_block)"

fun yield_parts :: "jobj list \<Rightarrow> transport_event list \<times> exn option" where
  "yield_parts [] = ([], None)"
| "yield_parts (p # ps) =
     (case google_part_event p of Inl e \<Rightarrow> ([], Some e) | Inr ev \<Rightarrow> (case yield_parts ps of (evs, r) \<Rightarrow> (ev # evs, r)))"

definition google_data :: "jobj \<Rightarrow> transport_event list \<times> unit outcome" where
  "google_data data =
     (case candidate_parts data of
        Inl e \<Rightarrow> ([], Raises e)
      | Inr parts \<Rightarrow>
          (case yield_parts parts of
             (evs, Some e) \<Rightarrow> (evs, Raises e)
           | (evs, None) \<Rightarrow>
               (case dict_get data ''usageMetadata'' of
                  Some (JObj (x # u)) \<Rightarrow>
                    (case google_usage (x # u) of Inl e \<Rightarrow> (evs, Raises e) | Inr v \<Rightarrow> (evs @ [StreamUsage v], Continues ()))
                | _ \<Rightarrow> (evs, Continues ()))))"

definition google_line :: "(string \<Rightarrow> jobj option) \<Rightarrow> unit handler" where
  "google_line loads raw s =
     (let line = strip_line raw
      in if line = [] \<or> startswith line '':'' \<or> \<not> startswith line ''data: '' then ([], Continues ())
         else (case loads (drop 6 line) of None \<Rightarrow> ([], Continues ()) | Some data \<Rightarrow> google_data data))"

definition google_parse_stream :: "(string \<Rightarrow> jobj option) \<Rightarrow> string list \<Rightarrow> transport_event list \<times> unit result" where
  "google_parse_stream loads chunks = parse_chunks utf8_valid (google_line loads) chunks [] ()"

section \<open>Chunking\<close>

lemma complete_lines_append:
  "complete_lines (a @ b) =
     (case complete_lines a of (ls, rest) \<Rightarrow> (case complete_lines (rest @ b) of (ls', rest') \<Rightarrow> (ls @ ls', rest')))"
proof (induction a)
  case (Cons c a)
  obtain ls rest where a: "complete_lines a = (ls, rest)" by fastforce
  then show ?case using Cons by (cases ls) (auto split: prod.splits list.splits)
qed simp

lemma complete_lines_rest: "complete_lines a = (ls, rest) \<Longrightarrow> complete_lines rest = ([], rest)"
proof (induction a arbitrary: ls rest)
  case (Cons c a)
  obtain ls1 rest1 where a: "complete_lines a = (ls1, rest1)" by fastforce
  from Cons.IH [OF a] show ?case using Cons.prems a by (cases ls1) (auto split: if_splits)
qed simp

lemma handle_lines_append:
  "handle_lines h (ls @ ls') s =
     (case handle_lines h ls s of
        (evs, Continues s1) \<Rightarrow> (case handle_lines h ls' s1 of (evs', r) \<Rightarrow> (evs @ evs', r))
      | (evs, r) \<Rightarrow> (evs, r))"
  by (induction ls arbitrary: s) (simp_all split: prod.splits outcome.splits)

text \<open>The stream as a whole: all complete lines, handled in order.\<close>

definition close_stream :: "transport_event list \<times> 's outcome \<Rightarrow> transport_event list \<times> unit result" where
  "close_stream r = (case r of (evs, Raises e) \<Rightarrow> (evs, Inl e) | (evs, _) \<Rightarrow> (evs, Inr ()))"

lemma parse_chunks_whole:
  "list_all ok chunks \<Longrightarrow> complete_lines buffer = ([], buffer) \<Longrightarrow>
   parse_chunks ok h chunks buffer s = close_stream (handle_lines h (fst (complete_lines (buffer @ concat chunks))) s)"
proof (induction chunks arbitrary: buffer s)
  case Nil
  then show ?case by (simp add: close_stream_def)
next
  case (Cons chunk chunks)
  obtain ls rest where lines: "complete_lines (buffer @ chunk) = (ls, rest)" by fastforce
  note rest = complete_lines_rest [OF lines]
  have all: "fst (complete_lines (buffer @ concat (chunk # chunks))) = ls @ fst (complete_lines (rest @ concat chunks))"
    using lines complete_lines_append [of "buffer @ chunk" "concat chunks"] by (simp split: prod.splits)
  have IH: "parse_chunks ok h chunks rest s1 = close_stream (handle_lines h (fst (complete_lines (rest @ concat chunks))) s1)" for s1
    using Cons.IH [OF _ rest] Cons.prems(1) by simp
  have ok: "ok chunk" using Cons.prems(1) by simp
  show ?case
    unfolding all handle_lines_append using ok lines IH
    by (auto simp: close_stream_def split: prod.splits outcome.splits)
qed

text \<open>A valid text starts with a character of one to four bytes, whatever follows it.\<close>

lemma utf8_head:
  assumes valid: "utf8_valid (a # as)"
  obtains p q where "a # as = p @ q" "p \<noteq> []" "utf8_valid q" "\<And>t. utf8_valid t \<Longrightarrow> utf8_valid (p @ t)"
proof -
  consider (one) "byte a < 128" | (two) "\<not> byte a < 128" "194 \<le> byte a \<and> byte a < 224"
    | (three) "\<not> byte a < 128" "\<not> (194 \<le> byte a \<and> byte a < 224)" "224 \<le> byte a \<and> byte a < 240"
    | (four) "\<not> byte a < 128" "\<not> (194 \<le> byte a \<and> byte a < 224)" "\<not> (224 \<le> byte a \<and> byte a < 240)"
    by blast
  then show thesis
  proof cases
    case one
    then show thesis by (intro that [of "[a]" as]) (use valid in simp_all)
  next
    case two
    then obtain b bs where "as = b # bs" using valid by (cases as) simp_all
    then show thesis by (intro that [of "[a, b]" bs]) (use two valid in simp_all)
  next
    case three
    then obtain b c cs where "as = b # c # cs" using valid by (cases as; cases "tl as") simp_all
    then show thesis by (intro that [of "[a, b, c]" cs]) (use three valid in simp_all)
  next
    case four
    then obtain b c d ds where "as = b # c # d # ds" using four valid by (cases as; cases "tl as"; cases "tl (tl as)") (auto split: if_splits)
    then show thesis by (intro that [of "[a, b, c, d]" ds]) (use four valid in \<open>auto split: if_splits\<close>)
  qed
qed

lemma utf8_valid_append: "utf8_valid a \<Longrightarrow> utf8_valid b \<Longrightarrow> utf8_valid (a @ b)"
proof (induction a rule: length_induct)
  case (1 s)
  show ?case
  proof (cases s)
    case (Cons c cs)
    then have "utf8_valid (c # cs)" using 1 by simp
    then obtain p q where pq: "s = p @ q" "p \<noteq> []" "utf8_valid q" "\<And>t. utf8_valid t \<Longrightarrow> utf8_valid (p @ t)"
      using Cons by (elim utf8_head) metis
    then have "utf8_valid (q @ b)" using 1 by simp
    then show ?thesis using pq(4) [of "q @ b"] pq(1) by simp
  qed (use 1 in simp)
qed

lemma utf8_valid_concat: "list_all utf8_valid chunks \<Longrightarrow> utf8_valid (concat chunks)"
  by (induction chunks) (auto intro: utf8_valid_append)

lemma parse_chunks_one:
  "list_all ok chunks \<Longrightarrow> ok (concat chunks) \<Longrightarrow> parse_chunks ok h chunks [] s = parse_chunks ok h [concat chunks] [] s"
  using parse_chunks_whole [of ok chunks "[]" h s] parse_chunks_whole [of ok "[concat chunks]" "[]" h s] by simp


text \<open>A text that ends with a character of two bytes, cut inside it; a parser that reads every line as a text delta.\<close>

definition e_acute :: string where
  "e_acute = [CHR 0xC3, CHR 0xA9]"

definition delta_loads :: "string \<Rightarrow> jobj option" where
  "delta_loads s =
     (if s = ''[DONE]'' then None
      else Some [(''choices'', JArr [JObj [(''delta'', JObj [(''content'', JStr s)])]])])"


section \<open>What the streams yield\<close>

lemma handle_lines_events:
  assumes "\<And>l s. list_all stream_event (fst (h l s))"
  shows "list_all stream_event (fst (handle_lines h ls s))"
proof (induction ls arbitrary: s)
  case (Cons l ls)
  obtain evs r where h: "h l s = (evs, r)" by fastforce
  then have "list_all stream_event evs" using assms [of l s] by simp
  then show ?case using h Cons.IH by (cases r) (simp_all split: prod.split, metis fst_conv)
qed simp

lemma parse_chunks_events:
  assumes "\<And>l s. list_all stream_event (fst (h l s))"
  shows "list_all stream_event (fst (parse_chunks ok h chunks buffer s))"
proof (induction chunks arbitrary: buffer s)
  case (Cons chunk chunks)
  obtain ls rest where l: "complete_lines (buffer @ chunk) = (ls, rest)" by fastforce
  obtain evs r where h: "handle_lines h ls s = (evs, r)" by fastforce
  then have "list_all stream_event evs" using handle_lines_events [of h ls s, OF assms] by simp
  then show ?case using h l Cons.IH by (cases r) (simp_all split: prod.split, metis fst_conv)
qed simp

lemma bind_res_Inr: "bind_res r f = Inr y \<longleftrightarrow> (\<exists>x. r = Inr x \<and> f x = Inr y)"
  by (cases r) simp_all

lemma of_result_events: "(\<And>evs s1. r = Inr (evs, s1) \<Longrightarrow> list_all stream_event evs) \<Longrightarrow> list_all stream_event (fst (of_result s r))"
  by (cases r) (auto simp: of_result_def)

lemma block_delta_events: "block_delta data s = Inr (evs, s1) \<Longrightarrow> list_all stream_event evs"
proof -
  assume "block_delta data s = Inr (evs, s1)"
  then obtain delta ty where kind:
    "(if ty = ''text_delta'' then bind_res (need_str delta ''text'') (\<lambda>t. Inr ([StreamDelta t], s))
      else if ty = ''thinking_delta'' then bind_res (need_str delta ''thinking'') (\<lambda>t. Inr ([Thinking t], s))
      else if ty = ''input_json_delta''
      then bind_res (str_or delta ''partial_json'' []) (\<lambda>p. Inr ([], s\<lparr>as_json_parts := as_json_parts s @ [p]\<rparr>))
      else Inr ([UnknownEvent delta], s)) = Inr (evs, s1)"
    unfolding block_delta_def bind_res_Inr by blast
  define a b c where "a = (ty = ''text_delta'')" "b = (ty = ''thinking_delta'')" "c = (ty = ''input_json_delta'')"
  show ?thesis using kind unfolding a_b_c_def [symmetric]
    by (cases a; cases b; cases c; cases "need_str delta ''text''"; cases "need_str delta ''thinking''"; cases "str_or delta ''partial_json'' []")
      (auto simp: stream_event_def)
qed

lemma block_start_events: "block_start data s = Inr (evs, s1) \<Longrightarrow> evs = []"
  by (auto simp: block_start_def bind_res_Inr split: if_splits)

lemma message_start_events: "message_start data s = Inr (evs, s1) \<Longrightarrow> evs = []"
  by (auto simp: message_start_def bind_res_Inr split: if_splits)

lemma message_delta_events: "message_delta data s = Inr (evs, s1) \<Longrightarrow> list_all stream_event evs"
  by (auto simp: message_delta_def bind_res_Inr stream_event_def split: if_splits)

lemma block_stop_events: "list_all stream_event (fst (block_stop loads s))"
  by (simp add: block_stop_def stream_event_def split: option.split prod.split)

lemma anthropic_data_events: "list_all stream_event (fst (anthropic_data loads data s))"
proof -
  have "list_all stream_event (fst (of_result s (block_start data s)))" "list_all stream_event (fst (of_result s (block_delta data s)))"
    "list_all stream_event (fst (of_result s (Inr (block_stop loads s))))" "list_all stream_event (fst (of_result s (message_start data s)))"
    "list_all stream_event (fst (of_result s (message_delta data s)))"
    by (rule of_result_events; use block_stop_events [of loads s] in
        \<open>auto dest: block_start_events block_delta_events message_start_events message_delta_events\<close>)+
  then show ?thesis by (simp add: anthropic_data_def Let_def) (simp add: stream_event_def)
qed

lemma anthropic_line_events: "list_all stream_event (fst (anthropic_line loads l s))"
  by (simp add: anthropic_line_def anthropic_data_events Let_def split: option.split)

lemma openai_delta_events: "list_all stream_event (fst (openai_delta delta c))"
proof -
  have "list_all stream_event (case dict_get delta ''content'' of Some (JStr (c # cs)) \<Rightarrow> [StreamDelta (c # cs)] | _ \<Rightarrow> [])"
    by (simp add: stream_event_def split: option.split json.split list.split)
  then show ?thesis by (simp add: openai_delta_def stream_event_def Let_def del: fold_Cons split: sum.split)
qed

lemma openai_data_events: "list_all stream_event (fst (openai_data parsed c))"
proof -
  define usage where "usage =
    (case dict_get parsed ''usage'' of
       Some (JObj (x # u)) \<Rightarrow> map_sum id (\<lambda>u. [StreamUsage u]) (openai_usage (x # u))
     | _ \<Rightarrow> Inr [])"
  define rest where "rest evs =
    (case dict_get parsed ''choices'' of
       Some (JArr (JObj choice # _)) \<Rightarrow>
         (case sub_obj choice ''delta'' of
            Inl e \<Rightarrow> (evs, Raises e)
          | Inr delta \<Rightarrow> (case openai_delta delta c of (evs', r) \<Rightarrow> (evs @ evs', r)))
     | Some (JArr (_ # _)) \<Rightarrow> (evs, Raises AttributeError)
     | _ \<Rightarrow> (evs, Continues c))" for evs
  have data: "openai_data parsed c = (case usage of Inl e \<Rightarrow> ([], Raises e) | Inr evs \<Rightarrow> rest evs)"
    unfolding openai_data_def usage_def rest_def by (rule refl)
  have "list_all stream_event evs" if "usage = Inr evs" for evs
    using that unfolding usage_def
    by (cases "dict_get parsed ''usage''") (auto simp: stream_event_def map_sum_def split: json.splits list.splits sum.splits)
  moreover have "list_all stream_event (fst (case openai_delta delta c of (evs', r) \<Rightarrow> (evs @ evs', r)))"
    if "list_all stream_event evs" for evs delta
    using that openai_delta_events [of delta c] by (cases "openai_delta delta c") simp
  then have "list_all stream_event (fst (rest evs))" if "list_all stream_event evs" for evs
    using that unfolding rest_def
    by (cases "dict_get parsed ''choices''") (simp_all split: json.split list.split sum.split)
  ultimately show ?thesis unfolding data by (cases usage) simp_all
qed

lemma openai_line_events: "list_all stream_event (fst (openai_line loads l s))"
proof -
  have "list_all stream_event (pending_calls loads s)" by (auto simp: pending_calls_def list_all_iff stream_event_def)
  then show ?thesis by (simp add: openai_line_def openai_data_events Let_def split: option.split)
qed

lemma google_part_event_ok: "google_part_event part = Inr ev \<Longrightarrow> stream_event ev"
  by (auto simp: google_part_event_def stream_event_def bind_res_Inr split: if_splits prod.splits)

lemma yield_parts_events: "list_all stream_event (fst (yield_parts ps))"
proof (induction ps)
  case (Cons part ps)
  then show ?case
    using google_part_event_ok [of part] by (cases "google_part_event part"; cases "yield_parts ps") simp_all
qed simp

lemma google_data_events: "list_all stream_event (fst (google_data data))"
proof -
  have last: "list_all stream_event (fst (case google_usage u of Inl e \<Rightarrow> (evs, Raises e) | Inr v \<Rightarrow> (evs @ [StreamUsage v], Continues ())))"
    if "list_all stream_event evs" for u evs
    using that by (cases "google_usage u") (simp_all add: stream_event_def)
  show ?thesis
  proof (cases "candidate_parts data")
    case (Inr parts)
    obtain evs r where parts: "yield_parts parts = (evs, r)" by fastforce
    then have "list_all stream_event evs" using yield_parts_events [of parts] by simp
    then show ?thesis using Inr parts last
      by (cases r; cases "dict_get data ''usageMetadata''") (simp_all add: google_data_def split: json.split list.split)
  qed (simp add: google_data_def)
qed

lemma google_line_events: "list_all stream_event (fst (google_line loads l s))"
  by (simp add: google_line_def google_data_events Let_def split: option.split)

text \<open>What the transport assumes of a stream, which the three parsers give.\<close>

lemma parsed_streams_ok:
  "list_all stream_event (fst (anthropic_parse_stream loads chunks)) \<and> list_all stream_event (fst (openai_parse_stream loads chunks)) \<and>
   list_all stream_event (fst (google_parse_stream loads chunks))"
  unfolding anthropic_parse_stream_def openai_parse_stream_def google_parse_stream_def
  by (intro conjI parse_chunks_events anthropic_line_events openai_line_events google_line_events)

section \<open>Histories\<close>

text \<open>A block as the transport makes them: a text, a thought, or a call with an identifier.\<close>

definition proper_block :: "content_block \<Rightarrow> bool" where
  "proper_block b =
     (if cb_type b = ''tool_use''
      then cb_text b = None \<and> or_empty (cb_tool_use_id b) \<noteq> [] \<and> cb_tool_name b \<noteq> None \<and> cb_tool_input b \<noteq> None
      else cb_type b \<in> {''text'', ''thinking''} \<and> cb_text b \<noteq> None \<and> cb_tool_use_id b = None \<and> cb_tool_name b = None \<and>
           cb_tool_input b = None)"

lemma proper_block_cases:
  assumes "proper_block b"
  obtains s where "b = plain_block ''text'' s" | s where "b = plain_block ''thinking'' s"
    | i n d where "b = call_block i n d" "i \<noteq> []"
  using assms by (cases b) (auto simp: proper_block_def plain_block_def call_block_def or_empty_def split: if_splits option.splits)

lemma bind_all_Inr: "(\<And>x. x \<in> set xs \<Longrightarrow> f x = Inr (g x)) \<Longrightarrow> bind_all f xs = Inr (concat (map g xs))"
proof -
  have "fold (\<lambda>x r. bind_res r (\<lambda>ys. bind_res (f x) (\<lambda>zs. Inr (ys @ zs)))) xs (Inr acc) = Inr (acc @ concat (map g xs))"
    if "\<And>x. x \<in> set xs \<Longrightarrow> f x = Inr (g x)" for acc
    using that by (induction xs arbitrary: acc) simp_all
  then show "(\<And>x. x \<in> set xs \<Longrightarrow> f x = Inr (g x)) \<Longrightarrow> ?thesis" by (simp add: bind_all_def)
qed

lemma objs_or_objs: "dict_get d k = Some (JArr (map JObj xs)) \<Longrightarrow> objs_or d k = Inr xs"
  by (simp add: objs_or_def list_all_iff comp_def)

lemma anthropic_block_item: "proper_block b \<Longrightarrow> \<exists>item. anthropic_block b = [item] \<and> anthropic_parse_item item = Inr [b]"
  by (erule proper_block_cases)
    (simp_all add: anthropic_block_def anthropic_parse_item_def need_str_def need_obj_def plain_block_def call_block_def
      opt_str_json_def opt_obj_json_def dict_get_def)

lemma google_part_item:
  "proper_block b \<Longrightarrow>
   if cb_type b = ''thinking'' then google_part b = [] else \<exists>item. google_part b = [item] \<and> google_part_block item = Inr [b]"
  by (erule proper_block_cases)
    (simp_all add: google_part_def google_part_block_def google_call_def need_str_def need_obj_def str_or_def sub_obj_def plain_block_def
      call_block_def opt_str_json_def block_input_def or_empty_def dict_get_def)

lemma openai_call_item:
  "loads (json_dumps (JObj d)) = Some d \<Longrightarrow> openai_parse_call loads (openai_call (call_block i n d)) = Inr [call_block i n d]"
  by (simp add: openai_call_def openai_parse_call_def need_str_def need_obj_def call_block_def opt_str_json_def opt_obj_json_def dict_get_def
      del: json_dumps.simps)

text \<open>Items that are written one by one are read one by one.\<close>

lemma bind_all_items:
  assumes "\<And>b. b \<in> set bs \<Longrightarrow> if q b then \<exists>item. w b = [item] \<and> f item = Inr [b] else w b = []"
  shows "bind_all f (concat (map w bs)) = Inr (filter q bs)"
proof -
  define g where "g x = (case f x of Inr ys \<Rightarrow> ys | Inl _ \<Rightarrow> [])" for x
  have "\<exists>item. w b = [item] \<and> f item = Inr [b] \<and> g item = [b]" if "b \<in> set bs" "q b" for b
    using that assms [of b] by (auto simp: g_def)
  moreover have "w b = []" if "b \<in> set bs" "\<not> q b" for b using that assms [of b] by simp
  ultimately have "(\<forall>x\<in>set (concat (map w bs)). f x = Inr (g x)) \<and> concat (map g (concat (map w bs))) = filter q bs"
  proof (induction bs)
    case (Cons b bs)
    then have "(\<forall>x\<in>set (concat (map w bs)). f x = Inr (g x)) \<and> concat (map g (concat (map w bs))) = filter q bs" by simp
    then show ?case using Cons.prems(1) [of b] Cons.prems(2) [of b] by (cases "q b") auto
  qed simp
  then show ?thesis using bind_all_Inr [of "concat (map w bs)" f g] by metis
qed


text \<open>A turn with a thought, two texts and a call without arguments.\<close>

definition sample_turn :: "content_block list" where
  "sample_turn = [plain_block ''thinking'' ''hm'', plain_block ''text'' ''a'', call_block ''id1'' ''read_file'' [], plain_block ''text'' ''b'']"

definition empty_loads :: "string \<Rightarrow> jobj option" where
  "empty_loads s = (if s = ''{}'' then Some [] else None)"


section \<open>The interface of the transport\<close>

text \<open>
  What the transport relies on in a provider: a formatted result says which call it answers and with what, and wrapping the results of a
  turn keeps them all, in order. \<open>result_of\<close> and \<open>results_in\<close> read a result and the messages that wrap results, as the service does.
\<close>

locale tool_result_format =
  fixes pv :: model_provider
    and result_of :: "jobj \<Rightarrow> (string \<times> string) option"
    and results_in :: "jobj list \<Rightarrow> jobj list"
  assumes result_of_format: "result_of (pv_format_tool_result pv i content err) = Some (i, content)"
    and results_in_wrap: "results_in (pv_wrap_tool_results pv rs) = rs"
begin

definition calls_answered :: "jobj list \<Rightarrow> string option list" where
  "calls_answered ms = map (map_option fst \<circ> result_of) (results_in ms)"

lemma answer_names_call: "answers pv b r \<Longrightarrow> map_option fst (result_of r) = Some (or_empty (cb_tool_use_id b))"
  by (auto simp: answers_def tool_result_def result_of_format split: option.split)

lemma wrapped_answers:
  "list_all2 (answers pv) bs rs \<Longrightarrow>
   calls_answered (pv_wrap_tool_results pv rs) = map (\<lambda>b. Some (or_empty (cb_tool_use_id b))) bs"
  unfolding calls_answered_def results_in_wrap by (induction rule: list_all2_induct) (simp_all add: answer_names_call)

lemma turn_answers_calls:
  assumes "tc_provider cfg = pv" "step_executing_tools cfg ctx w = (Inr (CALLING_API, evs), ctx1, w1)"
  shows "\<exists>ms. sc_history ctx1 = sc_history ctx @ ms \<and>
    calls_answered ms = map (\<lambda>b. Some (or_empty (cb_tool_use_id b))) (sc_pending_tool_blocks ctx)"
proof -
  obtain rs n where run: "run_blocks pv (sc_tool_map ctx) (sc_pending_tool_blocks ctx) w = (Inr (evs, rs, n, None), w1)"
    and "sc_history ctx1 = sc_history ctx @ pv_wrap_tool_results pv rs"
    using assms by (auto simp: step_executing_tools_def Let_def split: prod.splits sum.splits option.splits)
  moreover from run_blocks_answers [OF run] have "list_all2 (answers pv) (sc_pending_tool_blocks ctx) rs" by auto
  ultimately show ?thesis using wrapped_answers by blast
qed

end

definition anthropic_result_of :: "jobj \<Rightarrow> (string \<times> string) option" where
  "anthropic_result_of r =
     (case (dict_get r ''tool_use_id'', dict_get r ''content'') of (Some (JStr i), Some (JStr c)) \<Rightarrow> Some (i, c) | _ \<Rightarrow> None)"

definition openai_result_of :: "jobj \<Rightarrow> (string \<times> string) option" where
  "openai_result_of r =
     (case (dict_get r ''tool_call_id'', dict_get r ''content'') of (Some (JStr i), Some (JStr c)) \<Rightarrow> Some (i, c) | _ \<Rightarrow> None)"

definition google_result_of :: "jobj \<Rightarrow> (string \<times> string) option" where
  "google_result_of r =
     (case dict_get r ''functionResponse'' of
        Some (JObj f) \<Rightarrow>
          (case (dict_get f ''name'', dict_get f ''response'') of
             (Some (JStr i), Some (JObj d)) \<Rightarrow> (case dict_get d ''result'' of Some (JStr c) \<Rightarrow> Some (i, c) | _ \<Rightarrow> None)
           | _ \<Rightarrow> None)
      | _ \<Rightarrow> None)"

definition listed_under :: "string \<Rightarrow> jobj list \<Rightarrow> jobj list" where
  "listed_under k ms = concat (map (\<lambda>m. case objs_or m k of Inr rs \<Rightarrow> rs | Inl _ \<Rightarrow> []) ms)"

lemma listed_under_one: "dict_get m k = Some (JArr (map JObj rs)) \<Longrightarrow> listed_under k [m] = rs"
  by (simp add: listed_under_def objs_or_objs)

interpretation anthropic_format: tool_result_format "anthropic_provider an" anthropic_result_of "listed_under ''content''" for an
  by unfold_locales
    (simp_all add: anthropic_provider_def anthropic_format_tool_result_def anthropic_wrap_tool_results_def anthropic_result_of_def
      listed_under_one dict_get_def)

interpretation openai_format: tool_result_format "openai_provider oa" openai_result_of "\<lambda>ms. ms" for oa
  by unfold_locales
    (simp_all add: openai_provider_def openai_format_tool_result_def openai_wrap_tool_results_def openai_result_of_def dict_get_def)

interpretation google_format: tool_result_format "google_provider gg" google_result_of "listed_under ''parts''" for gg
  by unfold_locales
    (simp_all add: google_provider_def google_format_tool_result_def google_wrap_tool_results_def google_result_of_def
      listed_under_one dict_get_def)


text \<open>Two calls of OpenAI, one of a tool that does not exist.\<close>

definition openai_tc :: "nat transport_config" where
  "openai_tc = (sample_tc [])\<lparr>tc_provider := openai_provider \<lparr>oa_api_key = ''k'', oa_base_url = ''u''\<rparr>\<rparr>"


end
