(* ===== verification/Workers.thy ===== *)
theory Workers
  imports File_Tools
begin

text \<open>
  Remote execution of tools: the bridge to one worker (\<open>worker/_brain.py\<close>), the registry of workers (\<open>worker/_registry.py\<close>), the
  native worker (\<open>worker/_native.py\<close>) and the split of the pipeline between brain and worker (\<open>worker/_pipeline_split.py\<close>).

  The bridge runs several coroutines. Between two of their awaits nothing else runs, so each such piece of code is one operation, and
  an order of operations is a list of events. Messages are what \<open>json.loads\<close> and the pydantic models make of a text.
\<close>

section \<open>Messages\<close>

record tool_request =
  rq_call_id :: uuid
  rq_tool_name :: string
  rq_args :: jobj

record tool_call_result =
  rs_call_id :: uuid
  rs_output :: string
  rs_data :: "json option"
  rs_mutations :: "string list"
  rs_duration :: rat
  rs_error :: "string option"

text \<open>A payload that its model refuses is \<open>None\<close>.\<close>

datatype worker_message = NoJson | ToolCallResult "tool_call_result option" | HeartbeatAck "rat option" | UnknownType

datatype brain_message = NoBrainJson | ExecuteToolCall "tool_request option" | Heartbeat "rat option" | UnknownBrainType

section \<open>The bridge\<close>

text \<open>
  A call of \<open>send_tool_call\<close> has a number and awaits the future of that number. \<open>Waiting\<close>: the future is not done. \<open>Ready\<close>, \<open>Failed\<close>: it
  has a result or an exception, the caller has not run yet. \<open>Returned\<close>, \<open>Raised\<close>: the call is over.
\<close>

datatype call_state = Waiting | Ready tool_call_result | Failed exn | Returned tool_call_result | Raised exn

record bridge =
  br_connected :: bool
  br_pending :: "(uuid, nat) dict"
  br_calls :: "(uuid \<times> call_state) list"
  br_cache :: "(uuid, tool_call_result) dict"
  br_last_ack :: rat

definition new_bridge :: "rat \<Rightarrow> bridge" where
  "new_bridge now = \<lparr>br_connected = True, br_pending = [], br_calls = [], br_cache = [], br_last_ack = now\<rparr>"

definition set_call :: "nat \<Rightarrow> call_state \<Rightarrow> bridge \<Rightarrow> bridge" where
  "set_call n c b = b\<lparr>br_calls := (br_calls b)[n := (fst (br_calls b ! n), c)]\<rparr>"

definition call_state_of :: "bridge \<Rightarrow> nat \<Rightarrow> call_state option" where
  "call_state_of b n = (if n < length (br_calls b) then Some (snd (br_calls b ! n)) else None)"

text \<open>Up to the await: the call ends at once, or sends its request and waits.\<close>

definition send_tool_call :: "tool_request \<Rightarrow> bridge \<Rightarrow> tool_request option \<times> bridge" where
  "send_tool_call q b =
     (let i = rq_call_id q
      in if \<not> br_connected b then (None, b\<lparr>br_calls := br_calls b @ [(i, Raised WorkerDisconnectedError)]\<rparr>)
         else (case dict_get (br_cache b) i of
                 Some r \<Rightarrow> (None, b\<lparr>br_calls := br_calls b @ [(i, Returned r)]\<rparr>)
               | None \<Rightarrow> (Some q, b\<lparr>br_calls := br_calls b @ [(i, Waiting)], br_pending := dict_set i (length (br_calls b)) (br_pending b)\<rparr>)))"

text \<open>After the await: the future is done, the time is up, or sending failed.\<close>

definition call_resumes :: "nat \<Rightarrow> bridge \<Rightarrow> bridge" where
  "call_resumes n b =
     (case call_state_of b n of
        Some (Ready r) \<Rightarrow> set_call n (Returned r) (b\<lparr>br_cache := dict_set (fst (br_calls b ! n)) r (br_cache b)\<rparr>)
      | Some (Failed e) \<Rightarrow> set_call n (Raised e) (b\<lparr>br_pending := dict_pop (fst (br_calls b ! n)) (br_pending b)\<rparr>)
      | _ \<Rightarrow> b)"

definition call_times_out :: "nat \<Rightarrow> bridge \<Rightarrow> bridge" where
  "call_times_out n b =
     (if call_state_of b n = Some Waiting
      then set_call n (Raised ToolCallTimeoutError) (b\<lparr>br_pending := dict_pop (fst (br_calls b ! n)) (br_pending b)\<rparr>)
      else b)"

definition send_fails :: "nat \<Rightarrow> bridge \<Rightarrow> bridge" where
  "send_fails n b =
     (case call_state_of b n of
        None \<Rightarrow> b
      | Some (Returned r) \<Rightarrow> b
      | Some (Raised e) \<Rightarrow> b
      | _ \<Rightarrow> set_call n (Raised RuntimeError) (b\<lparr>br_pending := dict_pop (fst (br_calls b ! n)) (br_pending b)\<rparr>))"

definition dispatch_message :: "worker_message \<Rightarrow> bridge \<Rightarrow> bridge" where
  "dispatch_message m b =
     (case m of
        ToolCallResult (Some r) \<Rightarrow>
          (let i = rs_call_id r; b1 = b\<lparr>br_pending := dict_pop i (br_pending b)\<rparr>
           in case dict_get (br_pending b) i of
                None \<Rightarrow> b1\<lparr>br_cache := dict_set i r (br_cache b)\<rparr>
              | Some n \<Rightarrow>
                  if call_state_of b n = Some Waiting then set_call n (Ready r) b1 else b1\<lparr>br_cache := dict_set i r (br_cache b)\<rparr>)
      | HeartbeatAck (Some t) \<Rightarrow> b\<lparr>br_last_ack := t\<rparr>
      | _ \<Rightarrow> b)"

definition fail_waiting :: "nat \<Rightarrow> bridge \<Rightarrow> bridge" where
  "fail_waiting n b = (if call_state_of b n = Some Waiting then set_call n (Failed WorkerDisconnectedError) b else b)"

definition fail_pending :: "bridge \<Rightarrow> bridge" where
  "fail_pending b = (fold fail_waiting (dict_values (br_pending b)) b)\<lparr>br_pending := []\<rparr>"

definition mark_disconnected :: "bridge \<Rightarrow> bridge" where
  "mark_disconnected b = (if \<not> br_connected b then b else fail_pending (b\<lparr>br_connected := False\<rparr>))"

definition stop_bridge :: "bridge \<Rightarrow> bridge" where
  "stop_bridge b = fail_pending (b\<lparr>br_connected := False\<rparr>)"

text \<open>The check of a heartbeat that was sent at a time, ten seconds later.\<close>

definition check_heartbeat :: "rat \<Rightarrow> bridge \<Rightarrow> bridge" where
  "check_heartbeat sent_at b = (if br_connected b \<and> br_last_ack b < sent_at then mark_disconnected b else b)"

datatype bridge_event =
    CallStarts tool_request | CallResumes nat | CallTimesOut nat | SendFails nat
  | Received worker_message | ConnectionLost | HeartbeatChecked rat | Stopped

fun bridge_step :: "bridge_event \<Rightarrow> bridge \<Rightarrow> bridge" where
  "bridge_step (CallStarts q) b = snd (send_tool_call q b)"
| "bridge_step (CallResumes n) b = call_resumes n b"
| "bridge_step (CallTimesOut n) b = call_times_out n b"
| "bridge_step (SendFails n) b = send_fails n b"
| "bridge_step (Received m) b = dispatch_message m b"
| "bridge_step ConnectionLost b = mark_disconnected b"
| "bridge_step (HeartbeatChecked t) b = check_heartbeat t b"
| "bridge_step Stopped b = stop_bridge b"

definition bridge_run :: "bridge_event list \<Rightarrow> bridge \<Rightarrow> bridge" where
  "bridge_run evs b = fold bridge_step evs b"

section \<open>The registry\<close>

record worker_info =
  wi_id :: uuid
  wi_consumer_id :: "uuid option"
  wi_root :: string
  wi_capabilities :: "string list"
  wi_bridge :: nat
  wi_assigned_tasks :: "uuid list"

record worker_registry =
  wr_workers :: "(uuid, worker_info) dict"
  wr_roots :: "(string, uuid) dict"

definition empty_workers :: worker_registry where
  "empty_workers = \<lparr>wr_workers = [], wr_roots = []\<rparr>"

definition register_worker ::
  "uuid \<Rightarrow> uuid option \<Rightarrow> string \<Rightarrow> string list \<Rightarrow> nat \<Rightarrow> worker_registry \<Rightarrow> uuid result \<times> worker_registry" where
  "register_worker worker_id consumer_id root_dir capabilities bridge_ref reg =
     (let add = (\<lambda>reg. (Inr worker_id,
            reg\<lparr>wr_workers := dict_set worker_id \<lparr>wi_id = worker_id, wi_consumer_id = consumer_id, wi_root = root_dir,
                    wi_capabilities = capabilities, wi_bridge = bridge_ref, wi_assigned_tasks = []\<rparr> (wr_workers reg),
                wr_roots := dict_set root_dir worker_id (wr_roots reg)\<rparr>))
      in case dict_get (wr_roots reg) root_dir of
           None \<Rightarrow> add reg
         | Some existing \<Rightarrow>
             (case dict_get (wr_workers reg) existing of
                None \<Rightarrow> (Inl WorkerConflictError, reg)
              | Some info \<Rightarrow>
                  if wi_consumer_id info = consumer_id
                  then add (reg\<lparr>wr_workers := dict_pop existing (wr_workers reg), wr_roots := dict_pop root_dir (wr_roots reg)\<rparr>)
                  else (Inl WorkerConflictError, reg)))"

definition unregister_worker :: "uuid \<Rightarrow> worker_registry \<Rightarrow> worker_registry" where
  "unregister_worker worker_id reg =
     (case dict_get (wr_workers reg) worker_id of
        None \<Rightarrow> reg
      | Some info \<Rightarrow> reg\<lparr>wr_workers := dict_pop worker_id (wr_workers reg), wr_roots := dict_pop (wi_root info) (wr_roots reg)\<rparr>)"

definition get_worker_for_root :: "string \<Rightarrow> worker_registry \<Rightarrow> worker_info option" where
  "get_worker_for_root root_dir reg = Option.bind (dict_get (wr_roots reg) root_dir) (dict_get (wr_workers reg))"

definition assign_task :: "uuid \<Rightarrow> uuid \<Rightarrow> worker_registry \<Rightarrow> unit result \<times> worker_registry" where
  "assign_task worker_id task_id reg =
     (case dict_get (wr_workers reg) worker_id of
        None \<Rightarrow> (Inl KeyError, reg)
      | Some info \<Rightarrow>
          (Inr (), reg\<lparr>wr_workers := dict_set worker_id (info\<lparr>wi_assigned_tasks := List.insert task_id (wi_assigned_tasks info)\<rparr>) (wr_workers reg)\<rparr>))"

definition unassign_task :: "uuid \<Rightarrow> uuid \<Rightarrow> worker_registry \<Rightarrow> worker_registry" where
  "unassign_task worker_id task_id reg =
     (case dict_get (wr_workers reg) worker_id of
        None \<Rightarrow> reg
      | Some info \<Rightarrow> reg\<lparr>wr_workers := dict_set worker_id (info\<lparr>wi_assigned_tasks := removeAll task_id (wi_assigned_tasks info)\<rparr>) (wr_workers reg)\<rparr>)"

section \<open>The native worker\<close>

text \<open>
  A worker's tools act on its own file system, the state \<open>'s\<close>; \<open>exn_text\<close> is \<open>str\<close> of an exception, \<open>duration\<close> the measured time.
\<close>

type_synonym 's worker_tools = "(string, jobj \<Rightarrow> 's \<Rightarrow> tool_output result \<times> 's) dict"

definition worker_mutations :: "string \<Rightarrow> jobj \<Rightarrow> string list" where
  "worker_mutations name args =
     (let named = (\<lambda>k names. case dict_get args k of None \<Rightarrow> [] | Some v \<Rightarrow> if name \<in> set names then [py_str v] else [])
      in named ''path'' [''write'', ''edit'', ''multi_edit'', ''delete'', ''move'', ''copy'', ''mkdir'', ''set_executable''] @
         named ''source'' [''move'', ''copy''] @ named ''destination'' [''move'', ''copy''])"

definition worker_execute :: "(exn \<Rightarrow> string) \<Rightarrow> rat \<Rightarrow> 's worker_tools \<Rightarrow> tool_request \<Rightarrow> 's \<Rightarrow> tool_call_result \<times> 's" where
  "worker_execute exn_text duration tools q s =
     (let answer = (\<lambda>out data ms d err.
            \<lparr>rs_call_id = rq_call_id q, rs_output = out, rs_data = data, rs_mutations = ms, rs_duration = d, rs_error = err\<rparr>)
      in case dict_get tools (rq_tool_name q) of
           None \<Rightarrow> (answer [] None [] 0 (Some (''Unknown tool: '' @ rq_tool_name q)), s)
         | Some execute \<Rightarrow>
             (case with_transient_retry (execute (rq_args q)) 3 s of
                (Inr r, s1) \<Rightarrow> (answer (to_text r) (to_data r) (worker_mutations (rq_tool_name q) (rq_args q)) duration None, s1)
              | (Inl e, s1) \<Rightarrow> (answer [] None [] duration (Some (exn_text e)), s1)))"

datatype worker_reply = ReplyResult tool_call_result | ReplyAck rat

text \<open>A payload that its model refuses raises out of the message loop: the connection is lost.\<close>

definition handle_message ::
  "(exn \<Rightarrow> string) \<Rightarrow> rat \<Rightarrow> 's worker_tools \<Rightarrow> brain_message \<Rightarrow> 's \<Rightarrow> worker_reply list result \<times> 's" where
  "handle_message exn_text duration tools m s =
     (case m of
        ExecuteToolCall (Some q) \<Rightarrow> (case worker_execute exn_text duration tools q s of (r, s1) \<Rightarrow> (Inr [ReplyResult r], s1))
      | Heartbeat (Some t) \<Rightarrow> (Inr [ReplyAck t], s)
      | ExecuteToolCall None \<Rightarrow> (Inl ValueError, s)
      | Heartbeat None \<Rightarrow> (Inl ValueError, s)
      | _ \<Rightarrow> (Inr [], s))"

fun message_loop ::
  "(exn \<Rightarrow> string) \<Rightarrow> rat \<Rightarrow> 's worker_tools \<Rightarrow> brain_message list \<Rightarrow> 's \<Rightarrow> worker_reply list \<times> exn option \<times> 's" where
  "message_loop exn_text duration tools [] s = ([], None, s)"
| "message_loop exn_text duration tools (m # ms) s =
     (case handle_message exn_text duration tools m s of
        (Inl e, s1) \<Rightarrow> ([], Some e, s1)
      | (Inr replies, s1) \<Rightarrow> (case message_loop exn_text duration tools ms s1 of (rest, r) \<Rightarrow> (replies @ rest, r)))"

text \<open>
  The loop around the connections: for each, whether it ended without an exception and whether the worker was stopped meanwhile. The
  delays that are slept.
\<close>

fun reconnect_delays :: "rat \<Rightarrow> (bool \<times> bool) list \<Rightarrow> rat list" where
  "reconnect_delays delay [] = []"
| "reconnect_delays delay ((clean, stopped) # rest) =
     (if clean then [] else delay # (if stopped then [] else reconnect_delays (min (delay * 2) 60) rest))"

section \<open>The split pipeline\<close>

text \<open>\<open>send\<close> is the bridge's \<open>send_tool_call\<close>, \<open>call_id\<close> the \<open>uuid4\<close> of the call.\<close>

definition remote_execute ::
  "(string \<Rightarrow> json option) \<Rightarrow> (string \<Rightarrow> 's \<Rightarrow> uuid result) \<Rightarrow> secret_registry option \<Rightarrow> string \<Rightarrow>
   (tool_request \<Rightarrow> 's \<Rightarrow> tool_call_result result \<times> 's) \<Rightarrow> uuid \<Rightarrow> 's wrapped_tool \<Rightarrow> jobj \<Rightarrow> 's pipe \<Rightarrow> tool_output result \<times> 's pipe" where
  "remote_execute loads scheduler_check registry session_id send call_id t args s =
     (case (if wt_is_start_task t then Inr 0 else scheduler_check session_id (pp_world s)) of
        Inl e \<Rightarrow> (Inl e, s)
      | Inr _ \<Rightarrow>
          (case effective_args loads registry args of
             Inl e \<Rightarrow> (Inl e, s)
           | Inr eargs \<Rightarrow>
               (case send \<lparr>rq_call_id = call_id, rq_tool_name = wt_name t, rq_args = eargs\<rparr> (pp_world s) of
                  (Inl e, world) \<Rightarrow> (Inl e, s\<lparr>pp_world := world\<rparr>)
                | (Inr r, world) \<Rightarrow>
                    (let out = \<lparr>to_data = rs_data r, to_text = rs_output r\<rparr>
                     in case (case registry of None \<Rightarrow> Inr out | Some g \<Rightarrow> scrub_tool_output loads g out) of
                          Inl e \<Rightarrow> (Inl e, s\<lparr>pp_world := world\<rparr>)
                        | Inr scrubbed \<Rightarrow>
                            (Inr scrubbed,
                             s\<lparr>pp_world := world,
                               pp_mutations := (if rs_mutations r = [] then pp_mutations s
                                  else dict_set session_id (fold add_path (rs_mutations r)
                                         (case dict_get (pp_mutations s) session_id of None \<Rightarrow> [] | Some ps \<Rightarrow> ps)) (pp_mutations s)),
                               pp_trace := pp_trace s @ [(wt_name t, args, to_text scrubbed)]\<rparr>)))))"

section \<open>Calls and results\<close>

definition call_id_of :: "bridge \<Rightarrow> nat \<Rightarrow> uuid option" where
  "call_id_of b n = (if n < length (br_calls b) then Some (fst (br_calls b ! n)) else None)"

named_theorems bridge_simps

lemma set_call_of [bridge_simps]:
  "call_id_of (set_call n c b) m = call_id_of b m"
  "call_state_of (set_call n c b) m = (if m = n \<and> n < length (br_calls b) then Some c else call_state_of b m)"
  "br_pending (set_call n c b) = br_pending b" "br_cache (set_call n c b) = br_cache b" "br_connected (set_call n c b) = br_connected b"
  "length (br_calls (set_call n c b)) = length (br_calls b)"
  by (cases "m = n"; auto simp: set_call_def call_id_of_def call_state_of_def)+

lemma new_call_of [bridge_simps]:
  "call_id_of (b\<lparr>br_calls := br_calls b @ [(i, c)]\<rparr>) m = (if m = length (br_calls b) then Some i else call_id_of b m)"
  "call_state_of (b\<lparr>br_calls := br_calls b @ [(i, c)]\<rparr>) m = (if m = length (br_calls b) then Some c else call_state_of b m)"
  by (auto simp: call_id_of_def call_state_of_def nth_append)

lemma other_field_of [bridge_simps]:
  "call_id_of (b\<lparr>br_pending := p\<rparr>) = call_id_of b" "call_state_of (b\<lparr>br_pending := p\<rparr>) = call_state_of b"
  "call_id_of (b\<lparr>br_cache := d\<rparr>) = call_id_of b" "call_state_of (b\<lparr>br_cache := d\<rparr>) = call_state_of b"
  "call_id_of (b\<lparr>br_connected := x\<rparr>) = call_id_of b" "call_state_of (b\<lparr>br_connected := x\<rparr>) = call_state_of b"
  "call_id_of (b\<lparr>br_last_ack := t\<rparr>) = call_id_of b" "call_state_of (b\<lparr>br_last_ack := t\<rparr>) = call_state_of b"
  by (simp_all add: fun_eq_iff call_id_of_def call_state_of_def)

lemma call_number: "call_state_of b n = Some c \<Longrightarrow> n < length (br_calls b) \<and> call_id_of b n = Some (fst (br_calls b ! n))"
  by (auto simp: call_state_of_def call_id_of_def split: if_splits)

lemma fail_waiting_fold [bridge_simps]:
  "call_id_of (fold fail_waiting ns b) m = call_id_of b m" "br_pending (fold fail_waiting ns b) = br_pending b"
  "br_cache (fold fail_waiting ns b) = br_cache b" "br_connected (fold fail_waiting ns b) = br_connected b"
  "length (br_calls (fold fail_waiting ns b)) = length (br_calls b)"
  "call_state_of (fold fail_waiting ns b) m =
     (if m \<in> set ns \<and> call_state_of b m = Some Waiting then Some (Failed WorkerDisconnectedError) else call_state_of b m)"
proof -
  have "call_id_of (fold fail_waiting ns b) m = call_id_of b m \<and> br_pending (fold fail_waiting ns b) = br_pending b \<and>
    br_cache (fold fail_waiting ns b) = br_cache b \<and> br_connected (fold fail_waiting ns b) = br_connected b \<and>
    length (br_calls (fold fail_waiting ns b)) = length (br_calls b) \<and>
    call_state_of (fold fail_waiting ns b) m =
     (if m \<in> set ns \<and> call_state_of b m = Some Waiting then Some (Failed WorkerDisconnectedError) else call_state_of b m)"
    by (induction ns arbitrary: b) (auto simp: fail_waiting_def bridge_simps dest: call_number)
  then show
    "call_id_of (fold fail_waiting ns b) m = call_id_of b m" "br_pending (fold fail_waiting ns b) = br_pending b"
    "br_cache (fold fail_waiting ns b) = br_cache b" "br_connected (fold fail_waiting ns b) = br_connected b"
    "length (br_calls (fold fail_waiting ns b)) = length (br_calls b)"
    "call_state_of (fold fail_waiting ns b) m =
     (if m \<in> set ns \<and> call_state_of b m = Some Waiting then Some (Failed WorkerDisconnectedError) else call_state_of b m)"
    by blast+
qed

lemma fail_pending_of [bridge_simps]:
  "call_id_of (fail_pending b) m = call_id_of b m" "br_pending (fail_pending b) = []" "br_cache (fail_pending b) = br_cache b"
  "br_connected (fail_pending b) = br_connected b" "length (br_calls (fail_pending b)) = length (br_calls b)"
  "call_state_of (fail_pending b) m =
     (if m \<in> set (dict_values (br_pending b)) \<and> call_state_of b m = Some Waiting then Some (Failed WorkerDisconnectedError)
      else call_state_of b m)"
  by (simp_all add: fail_pending_def bridge_simps)

text \<open>A result belongs to an identifier if it carries it and the worker sent it.\<close>

definition result_ok :: "bridge_event list \<Rightarrow> uuid \<Rightarrow> tool_call_result \<Rightarrow> bool" where
  "result_ok evs i r = (rs_call_id r = i \<and> Received (ToolCallResult (Some r)) \<in> set evs)"

definition bridge_ok :: "bridge_event list \<Rightarrow> bridge \<Rightarrow> bool" where
  "bridge_ok evs b =
     ((\<forall>i r. dict_get (br_cache b) i = Some r \<longrightarrow> result_ok evs i r) \<and>
      (\<forall>n i r. call_id_of b n = Some i \<longrightarrow> call_state_of b n = Some (Ready r) \<longrightarrow> result_ok evs i r) \<and>
      (\<forall>n i r. call_id_of b n = Some i \<longrightarrow> call_state_of b n = Some (Returned r) \<longrightarrow> result_ok evs i r \<and> dict_get (br_cache b) i \<noteq> None) \<and>
      (\<forall>i n. dict_get (br_pending b) i = Some n \<longrightarrow> call_id_of b n = Some i))"

lemma bridge_ok_more: "bridge_ok evs b \<Longrightarrow> bridge_ok (evs @ [ev]) b"
  unfolding bridge_ok_def result_ok_def by simp

lemma bridge_ok_step:
  assumes ok: "bridge_ok evs b"
  shows "bridge_ok (evs @ [ev]) (bridge_step ev b)"
proof -
  have ok1: "bridge_ok (evs @ [ev]) b" using ok by (rule bridge_ok_more)
  have fail: "bridge_ok (evs @ [ev]) (fail_pending (b\<lparr>br_connected := x\<rparr>))" for x
    using ok1 unfolding bridge_ok_def by (auto simp: bridge_simps)
  show ?thesis
  proof (cases ev)
    case (CallStarts q)
    have "call_id_of b (length (br_calls b)) = None" by (simp add: call_id_of_def)
    then show ?thesis using ok1 CallStarts unfolding bridge_ok_def
      by (auto simp: send_tool_call_def Let_def bridge_simps split: option.split)
  next
    case (CallResumes n)
    show ?thesis
    proof (cases "call_state_of b n")
      case (Some c)
      note n = call_number [OF Some]
      show ?thesis using ok1 CallResumes Some n unfolding bridge_ok_def
        by (cases c) (auto simp: call_resumes_def bridge_simps)
    qed (use ok1 CallResumes in \<open>simp add: call_resumes_def\<close>)
  next
    case (CallTimesOut n)
    then show ?thesis using ok1 unfolding bridge_ok_def by (auto simp: call_times_out_def bridge_simps)
  next
    case (SendFails n)
    show ?thesis
    proof (cases "call_state_of b n")
      case (Some c)
      show ?thesis using ok1 SendFails Some unfolding bridge_ok_def by (cases c) (auto simp: send_fails_def bridge_simps)
    qed (use ok1 SendFails in \<open>simp add: send_fails_def\<close>)
  next
    case (Received m)
    show ?thesis
    proof (cases "\<exists>r. m = ToolCallResult (Some r)")
      case True
      then obtain r where m: "m = ToolCallResult (Some r)" by blast
      have r: "result_ok (evs @ [ev]) (rs_call_id r) r" using Received m by (simp add: result_ok_def)
      show ?thesis
      proof (cases "dict_get (br_pending b) (rs_call_id r)")
        case None
        then show ?thesis using ok1 r Received m unfolding bridge_ok_def
          by (auto simp: dispatch_message_def Let_def bridge_simps)
      next
        case (Some n)
        then have "call_id_of b n = Some (rs_call_id r)" using ok1 unfolding bridge_ok_def by blast
        then show ?thesis using ok1 r Received m Some unfolding bridge_ok_def
          by (auto simp: dispatch_message_def Let_def bridge_simps)
      qed
    qed (use ok1 Received in \<open>auto simp: dispatch_message_def bridge_ok_def bridge_simps split: worker_message.split option.split\<close>)
  next
    case ConnectionLost
    then show ?thesis using fail ok1 by (simp add: mark_disconnected_def)
  next
    case (HeartbeatChecked t)
    then show ?thesis using fail ok1 by (simp add: check_heartbeat_def mark_disconnected_def)
  next
    case Stopped
    then show ?thesis using fail by (simp add: stop_bridge_def)
  qed
qed

lemma bridge_run_ok: "bridge_ok evs (bridge_run evs (new_bridge t))"
proof (induction evs rule: rev_induct)
  case Nil
  show ?case by (simp add: bridge_run_def new_bridge_def bridge_ok_def call_id_of_def)
next
  case (snoc ev evs)
  from bridge_ok_step [OF snoc, of ev] show ?case by (simp add: bridge_run_def)
qed


definition sample_request :: "uuid \<Rightarrow> tool_request" where
  "sample_request i = \<lparr>rq_call_id = i, rq_tool_name = ''read'', rq_args = []\<rparr>"

definition sample_result :: "uuid \<Rightarrow> string \<Rightarrow> tool_call_result" where
  "sample_result i out = \<lparr>rs_call_id = i, rs_output = out, rs_data = None, rs_mutations = [], rs_duration = 1, rs_error = None\<rparr>"

text \<open>Two calls whose results come in the other order.\<close>

definition crossing :: "bridge_event list" where
  "crossing =
     [CallStarts (sample_request 1), CallStarts (sample_request 2), Received (ToolCallResult (Some (sample_result 2 ''b''))),
      Received (ToolCallResult (Some (sample_result 1 ''a''))), CallResumes 0, CallResumes 1]"


section \<open>Every call ends\<close>

definition call_ids :: "bridge_event list \<Rightarrow> uuid list" where
  "call_ids evs = concat (map (\<lambda>ev. case ev of CallStarts q \<Rightarrow> [rq_call_id q] | _ \<Rightarrow> []) evs)"

definition waiting_ok :: "bridge \<Rightarrow> bool" where
  "waiting_ok b =
     ((\<forall>n i. call_id_of b n = Some i \<longrightarrow> call_state_of b n = Some Waiting \<longrightarrow> dict_get (br_pending b) i = Some n) \<and>
      (\<not> br_connected b \<longrightarrow> br_pending b = []))"

definition unique_calls :: "bridge \<Rightarrow> bool" where
  "unique_calls b = (\<forall>n m i. call_id_of b n = Some i \<longrightarrow> call_id_of b m = Some i \<longrightarrow> n = m)"

lemma fst_set_call: "map fst ((br_calls b)[n := (fst (br_calls b ! n), c)]) = map fst (br_calls b)"
  by (cases "n < length (br_calls b)") (simp_all add: map_update list_update_same_conv list_update_beyond)

lemma fst_calls_fold: "map fst (br_calls (fold fail_waiting ns b)) = map fst (br_calls b)"
  by (induction ns arbitrary: b) (simp_all add: fail_waiting_def set_call_def fst_set_call)

lemma fst_calls_step: "map fst (br_calls (bridge_step ev b)) = map fst (br_calls b) @ call_ids [ev]"
  by (cases ev)
    (auto simp: call_ids_def send_tool_call_def Let_def call_resumes_def call_times_out_def send_fails_def dispatch_message_def set_call_def
      fst_set_call check_heartbeat_def mark_disconnected_def stop_bridge_def fail_pending_def fst_calls_fold
      split: option.split call_state.split worker_message.split)

lemma fst_calls_run: "map fst (br_calls (bridge_run evs (new_bridge t))) = call_ids evs"
proof (induction evs rule: rev_induct)
  case (snoc ev evs)
  then show ?case by (simp add: bridge_run_def fst_calls_step call_ids_def)
qed (simp add: bridge_run_def new_bridge_def call_ids_def)

lemma unique_calls_distinct:
  assumes "distinct (map fst (br_calls b))"
  shows "unique_calls b"
  unfolding unique_calls_def
proof (intro allI impI)
  fix n m i assume "call_id_of b n = Some i" "call_id_of b m = Some i"
  then have "n < length (br_calls b)" "m < length (br_calls b)" "map fst (br_calls b) ! n = map fst (br_calls b) ! m"
    by (auto simp: call_id_of_def split: if_splits)
  then show "n = m" using assms by (simp add: nth_eq_iff_index_eq del: nth_map)
qed

lemma dict_pop_Nil [simp]: "dict_pop k [] = []"
  by (simp add: dict_pop_def)

lemma waiting_ok_fail: "waiting_ok b \<Longrightarrow> waiting_ok (fail_pending (b\<lparr>br_connected := x\<rparr>))"
  unfolding waiting_ok_def by (auto simp: bridge_simps dest!: dict_get_values dest: call_number)

text \<open>An identifier may leave the pending ones when its call does not wait, since no other call has it.\<close>

lemma waiting_ok_pop:
  assumes "waiting_ok b" "unique_calls b" "call_id_of b n = Some i" "call_state_of b n \<noteq> Some Waiting"
  shows "waiting_ok (b\<lparr>br_pending := dict_pop i (br_pending b)\<rparr>)"
proof -
  have "m \<noteq> n \<Longrightarrow> call_id_of b m = Some j \<Longrightarrow> j \<noteq> i" for m j
    using assms(2,3) unfolding unique_calls_def by blast
  then show ?thesis using assms(1,4) unfolding waiting_ok_def by (simp add: bridge_simps) metis
qed

lemma waiting_ok_other [simp]:
  "waiting_ok (b\<lparr>br_cache := d\<rparr>) = waiting_ok b" "waiting_ok (b\<lparr>br_last_ack := x\<rparr>) = waiting_ok b"
  by (simp_all add: waiting_ok_def bridge_simps)

lemma waiting_ok_set: "waiting_ok b \<Longrightarrow> c \<noteq> Waiting \<Longrightarrow> waiting_ok (set_call n c b)"
  unfolding waiting_ok_def by (auto simp: bridge_simps)

lemma unique_calls_set: "unique_calls (set_call n c b) = unique_calls b"
  by (simp add: unique_calls_def bridge_simps)

lemma waiting_ok_end:
  assumes "waiting_ok b" "unique_calls b" "call_id_of b n = Some i" "c \<noteq> Waiting"
  shows "waiting_ok (set_call n c (b\<lparr>br_pending := dict_pop i (br_pending b)\<rparr>))"
proof -
  have "call_state_of (set_call n c b) n \<noteq> Some Waiting" using assms(3,4) by (auto simp: bridge_simps call_id_of_def split: if_splits)
  then have "waiting_ok ((set_call n c b)\<lparr>br_pending := dict_pop i (br_pending b)\<rparr>)"
    using waiting_ok_pop [of "set_call n c b" n i] waiting_ok_set [OF assms(1,4)] assms(2,3) by (simp add: unique_calls_set bridge_simps)
  moreover have "(set_call n c b)\<lparr>br_pending := p\<rparr> = set_call n c (b\<lparr>br_pending := p\<rparr>)" for p by (cases b) (simp add: set_call_def)
  ultimately show ?thesis by simp
qed

lemma waiting_ok_start:
  assumes ok: "waiting_ok b" and unique: "unique_calls (snd (send_tool_call q b))"
  shows "waiting_ok (snd (send_tool_call q b))"
proof (cases "br_connected b \<and> dict_get (br_cache b) (rq_call_id q) = None")
  case True
  let ?n = "length (br_calls b)"
  let ?b1 = "b\<lparr>br_calls := br_calls b @ [(rq_call_id q, Waiting)]\<rparr>"
  have sent: "snd (send_tool_call q b) = ?b1\<lparr>br_pending := dict_set (rq_call_id q) ?n (br_pending b)\<rparr>"
    using True by (simp add: send_tool_call_def Let_def)
  have "call_id_of ?b1 ?n = Some (rq_call_id q)" by (simp add: bridge_simps)
  then have "m = ?n" if "call_id_of ?b1 m = Some (rq_call_id q)" for m
    using unique that unfolding sent unique_calls_def other_field_of by blast
  then have "dict_get (dict_set (rq_call_id q) ?n (br_pending b)) i = Some m"
    if m: "call_id_of ?b1 m = Some i" "call_state_of ?b1 m = Some Waiting" for m i
  proof (cases "m = ?n")
    case True
    then have "i = rq_call_id q" using m(1) by (simp add: bridge_simps)
    then show ?thesis using True by simp
  next
    case False
    then have "call_id_of b m = Some i" "call_state_of b m = Some Waiting" using m by (simp_all only: new_call_of if_False)
    then have "dict_get (br_pending b) i = Some m" using ok unfolding waiting_ok_def by blast
    moreover have "i \<noteq> rq_call_id q" using \<open>\<And>m. call_id_of ?b1 m = Some (rq_call_id q) \<Longrightarrow> m = ?n\<close> m(1) False by blast
    ultimately show ?thesis by simp
  qed
  then show ?thesis using True unfolding sent waiting_ok_def by (simp add: other_field_of)
next
  case False
  have "waiting_ok (b\<lparr>br_calls := br_calls b @ [(i, c)]\<rparr>)" if "c \<noteq> Waiting" for i c
    using ok that unfolding waiting_ok_def by (simp add: bridge_simps)
  then show ?thesis using False by (auto simp: send_tool_call_def Let_def split: option.split)
qed

lemma waiting_ok_dispatch:
  assumes "bridge_ok evs b" "waiting_ok b" "unique_calls b"
  shows "waiting_ok (dispatch_message (ToolCallResult (Some r)) b)"
proof (cases "dict_get (br_pending b) (rs_call_id r)")
  case None
  then have "dict_pop (rs_call_id r) (br_pending b) = br_pending b"
    by (simp add: dict_pop_def dict_get_None_iff dict_keys_def delete_id)
  then show ?thesis using assms(2) None by (simp add: dispatch_message_def Let_def waiting_ok_def bridge_simps)
next
  case (Some n)
  then have n: "call_id_of b n = Some (rs_call_id r)" using assms(1) unfolding bridge_ok_def by blast
  show ?thesis
  proof (cases "call_state_of b n = Some Waiting")
    case True
    then show ?thesis using waiting_ok_end [OF assms(2,3) n, of "Ready r"] Some by (simp add: dispatch_message_def Let_def)
  next
    case False
    let ?b1 = "b\<lparr>br_pending := dict_pop (rs_call_id r) (br_pending b)\<rparr>"
    have "waiting_ok (?b1\<lparr>br_cache := dict_set (rs_call_id r) r (br_cache b)\<rparr>)"
      using waiting_ok_pop [OF assms(2,3) n False] by (simp only: waiting_ok_other)
    then show ?thesis using Some False by (simp add: dispatch_message_def Let_def)
  qed
qed

lemma waiting_ok_resume:
  assumes "waiting_ok b" "unique_calls b"
  shows "waiting_ok (call_resumes n b)"
proof (cases "call_state_of b n")
  case (Some c)
  have i: "call_id_of b n = Some (fst (br_calls b ! n))" using call_number [OF Some] by simp
  show ?thesis
  proof (cases c)
    case (Ready r)
    then show ?thesis using waiting_ok_set [of "b\<lparr>br_cache := d\<rparr>" "Returned r" n for d] assms(1) Some by (simp add: call_resumes_def)
  next
    case (Failed e)
    then show ?thesis using waiting_ok_end [OF assms i, of "Raised e"] Some by (simp add: call_resumes_def)
  qed (use assms(1) Some in \<open>simp_all add: call_resumes_def\<close>)
qed (use assms(1) in \<open>simp add: call_resumes_def\<close>)

lemma waiting_ok_send_fails:
  assumes "waiting_ok b" "unique_calls b"
  shows "waiting_ok (send_fails n b)"
proof (cases "call_state_of b n")
  case (Some c)
  have i: "call_id_of b n = Some (fst (br_calls b ! n))" using call_number [OF Some] by simp
  show ?thesis using waiting_ok_end [OF assms i, of "Raised RuntimeError"] assms(1) Some by (cases c) (simp_all add: send_fails_def)
qed (use assms(1) in \<open>simp add: send_fails_def\<close>)

lemma waiting_ok_times_out:
  assumes "waiting_ok b" "unique_calls b"
  shows "waiting_ok (call_times_out n b)"
proof (cases "call_state_of b n = Some Waiting")
  case True
  then have i: "call_id_of b n = Some (fst (br_calls b ! n))" using call_number by blast
  show ?thesis using waiting_ok_end [OF assms i, of "Raised ToolCallTimeoutError"] True by (simp add: call_times_out_def)
qed (use assms(1) in \<open>simp add: call_times_out_def\<close>)

lemma waiting_ok_step:
  assumes "bridge_ok evs b" "waiting_ok b" "unique_calls b" "unique_calls (bridge_step ev b)"
  shows "waiting_ok (bridge_step ev b)"
proof (cases ev)
  case (Received m)
  then show ?thesis using waiting_ok_dispatch [OF assms(1-3)] assms(2)
    by (cases "\<exists>r. m = ToolCallResult (Some r)")
      (auto simp: dispatch_message_def split: worker_message.split option.split)
qed (use assms waiting_ok_start waiting_ok_resume waiting_ok_send_fails waiting_ok_times_out waiting_ok_fail in
     \<open>simp_all add: mark_disconnected_def check_heartbeat_def stop_bridge_def\<close>)

lemma call_ids_append: "call_ids (evs @ evs') = call_ids evs @ call_ids evs'"
  by (simp add: call_ids_def)

lemma bridge_run_waiting_ok: "distinct (call_ids evs) \<Longrightarrow> waiting_ok (bridge_run evs (new_bridge t))"
proof (induction evs rule: rev_induct)
  case Nil
  show ?case by (simp add: bridge_run_def new_bridge_def waiting_ok_def call_id_of_def)
next
  case (snoc ev evs)
  have "unique_calls (bridge_run evs (new_bridge t))" "unique_calls (bridge_run (evs @ [ev]) (new_bridge t))"
    using snoc.prems by (auto intro!: unique_calls_distinct simp: fst_calls_run call_ids_append)
  then show ?case using waiting_ok_step [OF bridge_run_ok, of evs t ev] snoc by (simp add: bridge_run_def call_ids_append)
qed



text \<open>
  Identifiers have to be fresh: a second call with the identifier of a waiting one takes its place among the pending ones, and the
  first then waits until its own time is up, whatever the worker sends, also when the connection is lost.
\<close>

lemma dict_values_pop: "set (dict_values (dict_pop k d)) \<subseteq> set (dict_values d)"
  using dict_pop_entries [of k d] by (auto simp: dict_values_def)

lemma dict_values_set: "set (dict_values (dict_set k v d)) \<subseteq> insert v (set (dict_values d))"
  using dict_set_entries [of k v d] by (fastforce simp: dict_values_def)

definition stranded :: "nat \<Rightarrow> bridge \<Rightarrow> bool" where
  "stranded n b = (call_state_of b n = Some Waiting \<and> n \<notin> set (dict_values (br_pending b)))"

lemma stranded_step:
  assumes "stranded n b" "ev \<noteq> CallTimesOut n" "ev \<noteq> SendFails n"
  shows "stranded n (bridge_step ev b)"
proof -
  have n: "n < length (br_calls b)" "call_state_of b n = Some Waiting" "n \<notin> set (dict_values (br_pending b))"
    using assms(1) call_number [of b n Waiting] by (simp_all add: stranded_def)
  have pop: "n \<notin> set (dict_values (dict_pop k (br_pending b)))" for k
    using n(3) dict_values_pop [of k "br_pending b"] by blast
  have fail: "stranded n (fail_pending (b\<lparr>br_connected := x\<rparr>))" for x
    using n by (simp add: stranded_def bridge_simps dict_values_def)
  show ?thesis
  proof (cases ev)
    case (CallStarts q)
    have "n \<notin> set (dict_values (dict_set k (length (br_calls b)) (br_pending b)))" for k
      using n(1,3) dict_values_set [of k "length (br_calls b)" "br_pending b"] by fastforce
    then show ?thesis using CallStarts n by (auto simp: stranded_def send_tool_call_def Let_def bridge_simps split: option.split)
  next
    case (CallResumes m)
    then show ?thesis using n pop by (auto simp: stranded_def call_resumes_def bridge_simps split: option.split call_state.split)
  next
    case (CallTimesOut m)
    then show ?thesis using n pop assms(2) by (auto simp: stranded_def call_times_out_def bridge_simps)
  next
    case (SendFails m)
    then show ?thesis using n pop assms(3) by (auto simp: stranded_def send_fails_def bridge_simps split: option.split call_state.split)
  next
    case (Received m)
    have "dict_get (br_pending b) i = Some k \<Longrightarrow> k \<noteq> n" for i k
      using n(3) dict_get_values [of "br_pending b" i k] by blast
    then show ?thesis using Received n pop
      by (auto simp: stranded_def dispatch_message_def Let_def bridge_simps split: worker_message.split option.split)
  qed (use assms(1) fail in \<open>simp_all add: mark_disconnected_def check_heartbeat_def stop_bridge_def\<close>)
qed

lemma stranded_run: "stranded n b \<Longrightarrow> CallTimesOut n \<notin> set evs \<Longrightarrow> SendFails n \<notin> set evs \<Longrightarrow> stranded n (bridge_run evs b)"
proof (induction evs arbitrary: b)
  case (Cons ev evs)
  then have "stranded n (bridge_step ev b)" by (intro stranded_step) auto
  then show ?case using Cons by (simp add: bridge_run_def del: bridge_step.simps)
qed (simp add: bridge_run_def)

theorem same_identifier_strands:
  assumes "br_connected b" "dict_get (br_cache b) (rq_call_id q) = None" "rq_call_id q' = rq_call_id q" "dict_wf (br_pending b)"
    "\<forall>i m. dict_get (br_pending b) i = Some m \<longrightarrow> m < length (br_calls b)"
    and "CallTimesOut (length (br_calls b)) \<notin> set evs" "SendFails (length (br_calls b)) \<notin> set evs"
  shows "call_state_of (bridge_run (CallStarts q # CallStarts q' # evs) b) (length (br_calls b)) = Some Waiting"
proof -
  let ?n = "length (br_calls b)"
  let ?b = "bridge_step (CallStarts q') (bridge_step (CallStarts q) b)"
  have pending: "br_pending ?b = dict_set (rq_call_id q) (Suc ?n) (dict_set (rq_call_id q) ?n (br_pending b))"
    using assms(1-3) by (simp add: send_tool_call_def Let_def)
  have "dict_wf (br_pending ?b)" using assms(4) unfolding pending by simp
  moreover have "dict_get (br_pending ?b) i = Some m \<Longrightarrow> m \<noteq> ?n" for i m using assms(5) unfolding pending by (auto split: if_splits)
  ultimately have "(i, ?n) \<notin> set (br_pending ?b)" for i using dict_get_iff [of "br_pending ?b" i ?n] by blast
  then have "?n \<notin> set (dict_values (br_pending ?b))" unfolding dict_values_def by force
  moreover have "call_state_of ?b ?n = Some Waiting" using assms(1-3) by (simp add: send_tool_call_def Let_def call_state_of_def nth_append)
  ultimately have "stranded ?n ?b" by (simp add: stranded_def)
  then show ?thesis using stranded_run [of ?n ?b evs] assms(6,7) by (simp add: stranded_def bridge_run_def)
qed

section \<open>One worker per root\<close>

text \<open>New workers get fresh identifiers (\<open>uuid4\<close>).\<close>

inductive worker_registry_step :: "worker_registry \<Rightarrow> worker_registry \<Rightarrow> bool" where
  registers: "dict_get (wr_workers reg) worker_id = None \<Longrightarrow>
    worker_registry_step reg (snd (register_worker worker_id consumer_id root_dir capabilities bridge_ref reg))"
| unregisters: "worker_registry_step reg (unregister_worker worker_id reg)"
| assigns: "worker_registry_step reg (snd (assign_task worker_id task_id reg))"
| unassigns: "worker_registry_step reg (unassign_task worker_id task_id reg)"

definition registry_ok :: "worker_registry \<Rightarrow> bool" where
  "registry_ok reg =
     ((\<forall>u w. dict_get (wr_workers reg) u = Some w \<longrightarrow> wi_id w = u \<and> dict_get (wr_roots reg) (wi_root w) = Some u) \<and>
      (\<forall>r u. dict_get (wr_roots reg) r = Some u \<longrightarrow> (\<exists>w. dict_get (wr_workers reg) u = Some w \<and> wi_root w = r)))"

lemma registry_ok_add:
  assumes "registry_ok reg" "dict_get (wr_workers reg) u = None" "dict_get (wr_roots reg) (wi_root w) = None" "wi_id w = u"
  shows "registry_ok (reg\<lparr>wr_workers := dict_set u w (wr_workers reg), wr_roots := dict_set (wi_root w) u (wr_roots reg)\<rparr>)"
proof -
  have "dict_get (wr_workers reg) v = Some x \<Longrightarrow> v \<noteq> u \<and> wi_root x \<noteq> wi_root w" for v x
    using assms unfolding registry_ok_def by (metis option.distinct(1))
  moreover have "dict_get (wr_roots reg) r = Some v \<Longrightarrow> v \<noteq> u" for r v
    using assms unfolding registry_ok_def by (metis option.distinct(1))
  ultimately show ?thesis using assms unfolding registry_ok_def by simp
qed

lemma registry_ok_remove:
  assumes "registry_ok reg" "dict_get (wr_workers reg) u = Some w"
  shows "registry_ok (reg\<lparr>wr_workers := dict_pop u (wr_workers reg), wr_roots := dict_pop (wi_root w) (wr_roots reg)\<rparr>)"
proof -
  have root: "dict_get (wr_roots reg) (wi_root w) = Some u" using assms unfolding registry_ok_def by blast
  have "dict_get (wr_workers reg) v = Some x \<Longrightarrow> v \<noteq> u \<Longrightarrow> wi_root x \<noteq> wi_root w" for v x
    using assms root unfolding registry_ok_def by (metis option.inject)
  moreover have "dict_get (wr_roots reg) r = Some u \<Longrightarrow> r = wi_root w" for r
    using assms unfolding registry_ok_def by (metis option.inject)
  ultimately show ?thesis using assms(1) unfolding registry_ok_def by auto
qed

lemma registry_ok_change:
  assumes "registry_ok reg" "dict_get (wr_workers reg) u = Some w" "wi_id w' = wi_id w" "wi_root w' = wi_root w"
  shows "registry_ok (reg\<lparr>wr_workers := dict_set u w' (wr_workers reg)\<rparr>)"
proof -
  have old: "\<And>v x. dict_get (wr_workers reg) v = Some x \<Longrightarrow> wi_id x = v \<and> dict_get (wr_roots reg) (wi_root x) = Some v"
    "\<And>r v. dict_get (wr_roots reg) r = Some v \<Longrightarrow> \<exists>x. dict_get (wr_workers reg) v = Some x \<and> wi_root x = r"
    using assms(1) unfolding registry_ok_def by blast+
  have "wi_id x = v \<and> dict_get (wr_roots reg) (wi_root x) = Some v" if "dict_get (dict_set u w' (wr_workers reg)) v = Some x" for v x
    using that old(1) [of v x] old(1) [OF assms(2)] assms(3,4) by (cases "v = u") auto
  moreover have "\<exists>x. dict_get (dict_set u w' (wr_workers reg)) v = Some x \<and> wi_root x = r" if "dict_get (wr_roots reg) r = Some v" for r v
    using old(2) [OF that] assms(2,4) by (cases "v = u") auto
  ultimately show ?thesis unfolding registry_ok_def by simp
qed

lemma registry_ok_register:
  assumes ok: "registry_ok reg" and fresh: "dict_get (wr_workers reg) u = None"
  shows "registry_ok (snd (register_worker u consumer_id root_dir capabilities bridge_ref reg))"
proof -
  let ?w = "\<lparr>wi_id = u, wi_consumer_id = consumer_id, wi_root = root_dir, wi_capabilities = capabilities, wi_bridge = bridge_ref,
    wi_assigned_tasks = []\<rparr>"
  show ?thesis
  proof (cases "dict_get (wr_roots reg) root_dir")
    case None
    then show ?thesis using registry_ok_add [of reg u ?w] ok fresh by (simp add: register_worker_def Let_def)
  next
    case (Some v)
    then obtain info where info: "dict_get (wr_workers reg) v = Some info" "wi_root info = root_dir"
      using ok unfolding registry_ok_def by blast
    let ?reg = "reg\<lparr>wr_workers := dict_pop v (wr_workers reg), wr_roots := dict_pop root_dir (wr_roots reg)\<rparr>"
    have "registry_ok ?reg" using registry_ok_remove [OF ok info(1)] info(2) by simp
    then have "registry_ok (?reg\<lparr>wr_workers := dict_set u ?w (wr_workers ?reg), wr_roots := dict_set (wi_root ?w) u (wr_roots ?reg)\<rparr>)"
      using fresh by (intro registry_ok_add) auto
    then show ?thesis using Some info ok by (simp add: register_worker_def Let_def)
  qed
qed

interpretation workers: invariant_system "\<lambda>reg. reg = empty_workers" worker_registry_step registry_ok
proof unfold_locales
  fix reg :: worker_registry assume "reg = empty_workers"
  then show "registry_ok reg" by (simp add: registry_ok_def empty_workers_def)
next
  fix reg reg' assume ok: "registry_ok reg" and "worker_registry_step reg reg'"
  from this(2) show "registry_ok reg'"
  proof cases
    case (registers u consumer_id root_dir capabilities bridge_ref)
    then show ?thesis using registry_ok_register [OF ok] by simp
  next
    case (unregisters u)
    then show ?thesis using registry_ok_remove [OF ok] ok by (auto simp: unregister_worker_def split: option.split)
  next
    case (assigns u t)
    then show ?thesis using registry_ok_change [OF ok] ok by (auto simp: assign_task_def split: option.split)
  next
    case (unassigns u t)
    then show ?thesis using registry_ok_change [OF ok] ok by (auto simp: unassign_task_def split: option.split)
  qed
qed

text \<open>
  After every sequence of registrations, removals and assignments a root has at most one worker, and looking the root up finds it.
  Another consumer cannot register for the root and the attempt changes nothing. The same consumer replaces its worker; so do two
  connections without authentication, which both have no consumer. The late removal of a replaced worker does not remove the new one.
\<close>

theorem one_worker_per_root:
  assumes "worker_registry_step\<^sup>*\<^sup>* empty_workers reg" "dict_get (wr_workers reg) u = Some w"
  shows "get_worker_for_root (wi_root w) reg = Some w \<and>
    (\<forall>v w'. dict_get (wr_workers reg) v = Some w' \<longrightarrow> wi_root w' = wi_root w \<longrightarrow> v = u) \<and>
    (consumer_id \<noteq> wi_consumer_id w \<longrightarrow>
       register_worker v consumer_id (wi_root w) capabilities bridge_ref reg = (Inl WorkerConflictError, reg)) \<and>
    (dict_get (wr_workers reg) v = None \<longrightarrow>
       (case register_worker v (wi_consumer_id w) (wi_root w) capabilities bridge_ref reg of
          (r, reg') \<Rightarrow> r = Inr v \<and> unregister_worker u reg' = reg' \<and>
            map_option wi_bridge (get_worker_for_root (wi_root w) reg') = Some bridge_ref))"
proof (intro conjI allI impI)
  have ok: "registry_ok reg" using workers.reachable_inv assms(1) by blast
  then have w: "wi_id w = u" "dict_get (wr_roots reg) (wi_root w) = Some u" using assms(2) unfolding registry_ok_def by blast+
  then show "get_worker_for_root (wi_root w) reg = Some w" using assms(2) by (simp add: get_worker_for_root_def)
  show "v = u" if "dict_get (wr_workers reg) v = Some w'" "wi_root w' = wi_root w" for v w'
    using ok that w(2) unfolding registry_ok_def by (metis option.inject)
  show "register_worker v consumer_id (wi_root w) capabilities bridge_ref reg = (Inl WorkerConflictError, reg)"
    if "consumer_id \<noteq> wi_consumer_id w"
    using that w(2) assms(2) by (simp add: register_worker_def Let_def)
  show "case register_worker v (wi_consumer_id w) (wi_root w) capabilities bridge_ref reg of
          (r, reg') \<Rightarrow> r = Inr v \<and> unregister_worker u reg' = reg' \<and>
            map_option wi_bridge (get_worker_for_root (wi_root w) reg') = Some bridge_ref"
    if "dict_get (wr_workers reg) v = None"
    using that w(2) assms(2) by (auto simp: register_worker_def Let_def unregister_worker_def get_worker_for_root_def)
qed

text \<open>Two connections without authentication: the second takes the root over.\<close>

definition one_worker :: worker_registry where
  "one_worker = snd (register_worker 1 None ''/p'' [] 7 empty_workers)"

theorem one_worker_per_root_witness:
  "register_worker 2 (Some 5) ''/p'' [] 8 one_worker = (Inl WorkerConflictError, one_worker) \<and>
   (case register_worker 2 None ''/p'' [] 8 one_worker of
      (r, reg') \<Rightarrow> r = Inr 2 \<and> unregister_worker 1 reg' = reg' \<and> map_option wi_bridge (get_worker_for_root ''/p'' reg') = Some 8)"
proof -
  have "worker_registry_step empty_workers one_worker" unfolding one_worker_def by (rule registers) (simp add: empty_workers_def)
  then have reach: "worker_registry_step\<^sup>*\<^sup>* empty_workers one_worker" by blast
  obtain w where w: "dict_get (wr_workers one_worker) 1 = Some w" "wi_root w = ''/p''" "wi_consumer_id w = None"
    by (simp add: one_worker_def register_worker_def empty_workers_def Let_def)
  have fresh: "dict_get (wr_workers one_worker) 2 = None" by (simp add: one_worker_def register_worker_def empty_workers_def Let_def)
  note all = one_worker_per_root [OF reach w(1), of "Some 5" 2 "[]" 8, unfolded w(2,3), THEN conjunct2, THEN conjunct2]
  have "register_worker 2 (Some 5) ''/p'' [] 8 one_worker = (Inl WorkerConflictError, one_worker)"
    by (rule mp [OF conjunct1 [OF all]]) simp
  then show ?thesis using mp [OF conjunct2 [OF all] fresh] by (rule conjI)
qed

section \<open>Reconnecting\<close>

text \<open>The delays double up to a minute. They are not reset by a connection that worked for a while.\<close>

lemma reconnect_delays_exact:
  "k < length (reconnect_delays 1 runs) \<Longrightarrow> reconnect_delays 1 runs ! k = min (2 ^ k) 60"
proof -
  have "k < length (reconnect_delays (min d 60) runs) \<Longrightarrow> 0 < d \<Longrightarrow> reconnect_delays (min d 60) runs ! k = min (2 ^ k * d) 60" for d
  proof (induction runs arbitrary: k d)
    case (Cons run runs)
    have doubled: "min (min d 60 * 2) 60 = min (d * 2) (60 :: rat)" using Cons.prems(2) by (simp add: min_def)
    show ?case
    proof (cases k)
      case (Suc j)
      then show ?thesis using Cons.prems Cons.IH [of j "d * 2"] doubled
        by (cases run) (auto simp: ac_simps split: if_splits)
    qed (use Cons.prems in \<open>cases run; simp split: if_splits\<close>)
  qed simp
  from this [of 1] show "k < length (reconnect_delays 1 runs) \<Longrightarrow> ?thesis" by simp
qed

section \<open>Remote calls and local calls\<close>

text \<open>
  A tool that succeeds on the worker gives the agent the output, the scrubbed text and data, and the trace entry that the local
  pipeline gives. A tool that fails does not: the local pipeline raises the exception, but the error of a remote result is never read,
  so the agent gets an empty text as if the tool had succeeded.
\<close>

theorem remote_execution:
  assumes "dict_get tools (wt_name t) = Some (wt_execute t)" "wt_appendix t = None"
    and "effective_args loads registry args = Inr eargs" "wt_is_start_task t \<or> is_ok (scheduler_check session_id (pp_world s))"
  shows "case with_transient_retry (wt_execute t eargs) 3 (pp_world s) of
      (Inr _, world) \<Rightarrow>
        (case (remote_execute loads scheduler_check registry session_id
                 (\<lambda>q world. map_prod Inr id (worker_execute exn_text d tools q world)) call_id t args s,
               wrapped_execute loads scheduler_check registry session_id t args s) of
           ((r, s1), (r', s2)) \<Rightarrow> r = r' \<and> pp_world s1 = pp_world s2 \<and> pp_trace s1 = pp_trace s2)
    | (Inl e, world) \<Rightarrow>
        fst (wrapped_execute loads scheduler_check registry session_id t args s) = Inl e \<and>
        fst (remote_execute loads scheduler_check registry session_id
               (\<lambda>q world. map_prod Inr id (worker_execute exn_text d tools q world)) call_id t args s) =
          Inr \<lparr>to_data = None, to_text = (case registry of None \<Rightarrow> [] | Some g \<Rightarrow> scrub_text g [])\<rparr>"
proof -
  obtain u where check: "(if wt_is_start_task t then Inr 0 else scheduler_check session_id (pp_world s)) = Inr u"
    using assms(4) by (cases "wt_is_start_task t") (auto simp: is_ok_iff)
  obtain r world where run: "with_transient_retry (wt_execute t eargs) 3 (pp_world s) = (r, world)" by fastforce
  show ?thesis
  proof (cases r)
    case (Inl e)
    then show ?thesis using assms(1-3) check run
      by (simp add: remote_execute_def wrapped_execute_def worker_execute_def Let_def scrub_tool_output_def scrub_data_def split: option.split)
  next
    case (Inr out)
    show ?thesis
    proof (cases registry)
      case None
      then show ?thesis using assms(1-3) check run Inr
        by (simp add: remote_execute_def wrapped_execute_def worker_execute_def Let_def)
    next
      case (Some g)
      then show ?thesis using assms(1-3) check run Inr
        by (cases out; cases "scrub_tool_output loads g out") (simp_all add: remote_execute_def wrapped_execute_def worker_execute_def Let_def)
    qed
  qed
qed

definition broken_tool :: "nat wrapped_tool" where
  "broken_tool = \<lparr>wt_name = ''read'', wt_execute = (\<lambda>args n. (Inl ToolError, Suc n)), wt_is_start_task = False, wt_is_mutation = False,
     wt_appendix = None\<rparr>"

theorem remote_execution_witness:
  "fst (wrapped_execute (\<lambda>_. None) (\<lambda>_ _. Inr 3) None ''s'' broken_tool [] \<lparr>pp_world = 0, pp_mutations = [], pp_trace = []\<rparr>) = Inl ToolError \<and>
   fst (remote_execute (\<lambda>_. None) (\<lambda>_ _. Inr 3) None ''s''
          (\<lambda>q world. map_prod Inr id (worker_execute (\<lambda>_. ''failed'') 1 [(''read'', wt_execute broken_tool)] q world)) 9 broken_tool []
          \<lparr>pp_world = 0, pp_mutations = [], pp_trace = []\<rparr>) = Inr \<lparr>to_data = None, to_text = []\<rparr>"
proof -
  have "dict_get [(''read'', wt_execute broken_tool)] (wt_name broken_tool) = Some (wt_execute broken_tool)" "wt_appendix broken_tool = None"
    "effective_args (\<lambda>_. None) None [] = Inr []" "is_ok (Inr 3 :: uuid result)"
    by (simp_all add: broken_tool_def dict_get_def effective_args_def is_ok_def)
  moreover have "with_transient_retry (wt_execute broken_tool []) 3 0 = (Inl ToolError, 1)"
    by (subst with_transient_retry.simps) (simp add: broken_tool_def)
  ultimately show ?thesis
    using remote_execution [of "[(''read'', wt_execute broken_tool)]" broken_tool "\<lambda>_. None" None "[]" "[]" "\<lambda>_ _. Inr 3" "''s''"
        "\<lparr>pp_world = 0, pp_mutations = [], pp_trace = []\<rparr>" "\<lambda>_. ''failed''" 1 9] by simp
qed

end
