(* ===== verification/Services.thy ===== *)
theory Services
  imports Incoming Notification Trace_Reader Pricing
begin

text \<open>
  The capabilities: the parameter models (\<open>services/_params.py\<close>), the registry (\<open>services/_registry.py\<close>), the service
  functions behind it (\<open>services/_run.py\<close>, \<open>_inbox.py\<close>, \<open>_trace.py\<close>, \<open>_events.py\<close>, \<open>_config.py\<close>, \<open>_dispatch.py\<close>,
  \<open>_identity.py\<close>, \<open>_notifications.py\<close>) and the one place that calls them, \<open>dispatch\<close> (\<open>services/_dispatcher.py\<close>).
  The stores behind the pool and the ports are those of the storage contracts: \<^typ>\<open>trace_db\<close>, \<^typ>\<open>dispatch_db\<close>,
  \<^typ>\<open>principals\<close>, \<^typ>\<open>deliveries\<close> and \<^typ>\<open>auth_backend\<close>. Pydantic, the parsers of identifiers and times, the start of a
  run and the reading of files to validate are fields of \<open>service_env\<close>.
\<close>

section \<open>Scopes and tokens\<close>

definition SCOPE_RUNS_READ :: string where "SCOPE_RUNS_READ = ''runs:read''"
definition SCOPE_RUNS_MANAGE :: string where "SCOPE_RUNS_MANAGE = ''runs:manage''"
definition SCOPE_INBOX_READ :: string where "SCOPE_INBOX_READ = ''inbox:read''"
definition SCOPE_INBOX_RESPOND :: string where "SCOPE_INBOX_RESPOND = ''inbox:respond''"
definition SCOPE_NOTIFICATIONS_READ :: string where "SCOPE_NOTIFICATIONS_READ = ''notifications:read''"
definition SCOPE_NOTIFICATIONS_MANAGE :: string where "SCOPE_NOTIFICATIONS_MANAGE = ''notifications:manage''"
definition SCOPE_TRACE_READ :: string where "SCOPE_TRACE_READ = ''trace:read''"
definition SCOPE_EVENTS_READ :: string where "SCOPE_EVENTS_READ = ''events:read''"
definition SCOPE_EVENTS_WRITE :: string where "SCOPE_EVENTS_WRITE = ''events:write''"
definition SCOPE_CONFIG_READ :: string where "SCOPE_CONFIG_READ = ''config:read''"
definition SCOPE_VALIDATE_READ :: string where "SCOPE_VALIDATE_READ = ''validate:read''"
definition SCOPE_SOURCES_READ :: string where "SCOPE_SOURCES_READ = ''sources:read''"
definition SCOPE_SOURCES_MANAGE :: string where "SCOPE_SOURCES_MANAGE = ''sources:manage''"
definition SCOPE_SUBSCRIPTIONS_READ :: string where "SCOPE_SUBSCRIPTIONS_READ = ''subscriptions:read''"
definition SCOPE_SUBSCRIPTIONS_MANAGE :: string where "SCOPE_SUBSCRIPTIONS_MANAGE = ''subscriptions:manage''"
definition SCOPE_PRINCIPALS_READ :: string where "SCOPE_PRINCIPALS_READ = ''principals:read''"
definition SCOPE_PRINCIPALS_MANAGE :: string where "SCOPE_PRINCIPALS_MANAGE = ''principals:manage''"

definition VALID_INJECT_TOKENS :: "string list" where
  "VALID_INJECT_TOKENS =
     [''pool'', ''dispatch_backend'', ''principal_storage'', ''kind_registry'', ''notification_port'',
      ''get_worker_bridge'', ''run_manager'', ''caller_principal'']"

definition INJECT_ORDER :: "string list" where
  "INJECT_ORDER =
     [''pool'', ''dispatch_backend'', ''principal_storage'', ''kind_registry'', ''notification_port'',
      ''get_worker_bridge'', ''run_manager'', ''caller_principal'']"

definition INJECT_POOL :: "string list" where "INJECT_POOL = [''pool'']"
definition INJECT_DISPATCH_BACKEND :: "string list" where "INJECT_DISPATCH_BACKEND = [''dispatch_backend'']"
definition INJECT_PRINCIPAL_STORAGE :: "string list" where "INJECT_PRINCIPAL_STORAGE = [''principal_storage'']"
definition INJECT_PRINCIPAL_STORAGE_AND_KIND_REGISTRY :: "string list" where "INJECT_PRINCIPAL_STORAGE_AND_KIND_REGISTRY = [''principal_storage'', ''kind_registry'']"
definition INJECT_PRINCIPAL_CREATE :: "string list" where "INJECT_PRINCIPAL_CREATE = [''dispatch_backend'', ''principal_storage'', ''kind_registry'']"
definition INJECT_POOL_STORAGE_WORKER_AND_CALLER :: "string list" where "INJECT_POOL_STORAGE_WORKER_AND_CALLER = [''pool'', ''principal_storage'', ''get_worker_bridge'', ''run_manager'', ''caller_principal'']"
definition INJECT_SOURCE_CREATE :: "string list" where "INJECT_SOURCE_CREATE = [''pool'', ''dispatch_backend'', ''principal_storage'', ''caller_principal'']"
definition INJECT_POOL_AND_CALLER :: "string list" where "INJECT_POOL_AND_CALLER = [''pool'', ''caller_principal'']"
definition INJECT_DISPATCH_BACKEND_AND_CALLER :: "string list" where "INJECT_DISPATCH_BACKEND_AND_CALLER = [''dispatch_backend'', ''caller_principal'']"
definition INJECT_NOTIFICATION_AND_CALLER :: "string list" where "INJECT_NOTIFICATION_AND_CALLER = [''notification_port'', ''caller_principal'']"
definition INJECT_NONE :: "string list" where "INJECT_NONE = []"

section \<open>Parameter models\<close>

text \<open>
  A field of a model: its name, its annotation, its default (\<open>None\<close> for a required field) and the \<open>format\<close> of its
  \<open>json_schema_extra\<close>. Every model is strict and forbids other keys.
\<close>

datatype param_type = PStr | PInt | PBool | PDict | PList param_type | POpt param_type

datatype param = Param (p_name: string) (p_type: param_type) (p_default: "json option") (p_format: "string option")

type_synonym params_model = "param list"

definition StartRunParams :: params_model where
  "StartRunParams = [Param ''config_path'' PStr None None,
     Param ''intent'' PStr None None]"

definition ListRunsParams :: params_model where
  "ListRunsParams = []"

definition GetRunParams :: params_model where
  "GetRunParams = [Param ''run_id'' PStr None (Some ''uuid'')]"

definition AbortRunParams :: params_model where
  "AbortRunParams = [Param ''run_id'' PStr None (Some ''uuid'')]"

definition PauseRunParams :: params_model where
  "PauseRunParams = [Param ''run_id'' PStr None (Some ''uuid'')]"

definition ResumeRunParams :: params_model where
  "ResumeRunParams = [Param ''run_id'' PStr None (Some ''uuid'')]"

definition ListInboxParams :: params_model where
  "ListInboxParams = [Param ''run_id'' PStr None (Some ''uuid''),
     Param ''status'' (POpt PStr) (Some JNull) None]"

definition GetInboxItemParams :: params_model where
  "GetInboxItemParams = [Param ''item_id'' PStr None (Some ''uuid'')]"

definition RespondToInboxParams :: params_model where
  "RespondToInboxParams = [Param ''item_id'' PStr None (Some ''uuid''),
     Param ''answer'' PStr None None]"

definition SkipInboxItemParams :: params_model where
  "SkipInboxItemParams = [Param ''item_id'' PStr None (Some ''uuid'')]"

definition RejectInboxItemParams :: params_model where
  "RejectInboxItemParams = [Param ''item_id'' PStr None (Some ''uuid''),
     Param ''reason'' PStr None None]"

definition ListTasksParams :: params_model where
  "ListTasksParams = [Param ''run_id'' PStr None (Some ''uuid'')]"

definition GetTaskAttemptsParams :: params_model where
  "GetTaskAttemptsParams = [Param ''task_id'' PStr None (Some ''uuid'')]"

definition GetTranscriptParams :: params_model where
  "GetTranscriptParams = [Param ''session_id'' PStr None (Some ''uuid'')]"

definition SearchTranscriptParams :: params_model where
  "SearchTranscriptParams = [Param ''session_id'' PStr None (Some ''uuid''),
     Param ''query'' PStr None None]"

definition QueryEventsParams :: params_model where
  "QueryEventsParams = [Param ''run_id'' PStr None (Some ''uuid''),
     Param ''event_type'' (POpt PStr) (Some JNull) None,
     Param ''since'' (POpt PStr) (Some JNull) (Some ''date-time''),
     Param ''limit'' PInt (Some (JInt 100)) None]"

definition GetNotepadParams :: params_model where
  "GetNotepadParams = [Param ''run_id'' PStr None (Some ''uuid'')]"

definition FireEventParams :: params_model where
  "FireEventParams = [Param ''run_id'' PStr None (Some ''uuid''),
     Param ''event_name'' PStr None None,
     Param ''payload'' (POpt PDict) (Some JNull) None]"

definition ShowConfigParams :: params_model where
  "ShowConfigParams = [Param ''run_id'' PStr None (Some ''uuid'')]"

definition ShowPricingParams :: params_model where
  "ShowPricingParams = []"

definition ValidateAgentParams :: params_model where
  "ValidateAgentParams = [Param ''path'' PStr None None]"

definition ValidateWorkflowParams :: params_model where
  "ValidateWorkflowParams = [Param ''path'' PStr None None]"

definition ValidateCategoriesParams :: params_model where
  "ValidateCategoriesParams = [Param ''path'' PStr None None]"

definition SubscribeParams :: params_model where
  "SubscribeParams = [Param ''filter'' PDict None None,
     Param ''actions'' (PList PDict) None None,
     Param ''storage'' PStr (Some (JStr ''persistent'')) None]"

definition UnsubscribeParams :: params_model where
  "UnsubscribeParams = [Param ''subscription_id'' PStr None (Some ''uuid'')]"

definition ListSubscriptionsParams :: params_model where
  "ListSubscriptionsParams = [Param ''enabled_only'' PBool (Some (JBool True)) None,
     Param ''principal_id'' (POpt PStr) (Some JNull) (Some ''uuid'')]"

definition CreateSourceParams :: params_model where
  "CreateSourceParams = [Param ''slug'' PStr None None,
     Param ''name'' PStr None None,
     Param ''credential_id'' (POpt PStr) (Some JNull) (Some ''uuid''),
     Param ''config'' (POpt PDict) (Some JNull) None]"

definition GetSourceParams :: params_model where
  "GetSourceParams = [Param ''source_id'' PStr None (Some ''uuid'')]"

definition GetSourceBySlugParams :: params_model where
  "GetSourceBySlugParams = [Param ''slug'' PStr None None]"

definition ListSourcesParams :: params_model where
  "ListSourcesParams = []"

definition DeleteSourceParams :: params_model where
  "DeleteSourceParams = [Param ''source_id'' PStr None (Some ''uuid'')]"

definition CreatePrincipalParams :: params_model where
  "CreatePrincipalParams = [Param ''kind'' PStr None None,
     Param ''external_ref'' PStr None (Some ''uuid''),
     Param ''display_name'' (POpt PStr) (Some JNull) None,
     Param ''notification_event_types'' (POpt (PList PStr)) (Some JNull) None]"

definition GetPrincipalParams :: params_model where
  "GetPrincipalParams = [Param ''principal_id'' PStr None (Some ''uuid'')]"

definition ListPrincipalsParams :: params_model where
  "ListPrincipalsParams = [Param ''kind'' (POpt PStr) (Some JNull) None]"

definition DeletePrincipalParams :: params_model where
  "DeletePrincipalParams = [Param ''principal_id'' PStr None (Some ''uuid'')]"

definition ListDeliveriesParams :: params_model where
  "ListDeliveriesParams = [Param ''unacknowledged_only'' PBool (Some (JBool True)) None,
     Param ''cursor'' (POpt PStr) (Some JNull) (Some ''uuid''),
     Param ''limit'' PInt (Some (JInt 50)) None]"

definition AcknowledgeDeliveryParams :: params_model where
  "AcknowledgeDeliveryParams = [Param ''delivery_id'' PStr None (Some ''uuid'')]"

section \<open>The registry\<close>

datatype capability = Capability (cap_name: string) (cap_namespace: string) (cap_description: string)
  (cap_params_model: params_model) (cap_tags: "string list") (cap_required_scope: string) (cap_injects: "string list")

definition run_capabilities :: "capability list" where
  "run_capabilities =
     [Capability ''start_run'' ''run'' ''Start a run from a config file'' StartRunParams [''mutating''] SCOPE_RUNS_MANAGE INJECT_POOL_STORAGE_WORKER_AND_CALLER,
      Capability ''list_runs'' ''run'' ''List all runs'' ListRunsParams [''readonly''] SCOPE_RUNS_READ INJECT_POOL,
      Capability ''get_run'' ''run'' ''Get a run's full report'' GetRunParams [''readonly''] SCOPE_RUNS_READ INJECT_POOL,
      Capability ''abort_run'' ''run'' ''Abort a running run'' AbortRunParams [''mutating''] SCOPE_RUNS_MANAGE INJECT_POOL,
      Capability ''pause_run'' ''run'' ''Pause a running run'' PauseRunParams [''mutating''] SCOPE_RUNS_MANAGE INJECT_POOL,
      Capability ''resume_run'' ''run'' ''Resume a paused run'' ResumeRunParams [''mutating''] SCOPE_RUNS_MANAGE INJECT_POOL]"

definition inbox_capabilities :: "capability list" where
  "inbox_capabilities =
     [Capability ''list_inbox'' ''inbox'' ''List inbox items for a run'' ListInboxParams [''readonly''] SCOPE_INBOX_READ INJECT_POOL,
      Capability ''get_inbox_item'' ''inbox'' ''Get a single inbox item'' GetInboxItemParams [''readonly''] SCOPE_INBOX_READ INJECT_POOL,
      Capability ''respond_to_inbox'' ''inbox'' ''Answer an inbox item'' RespondToInboxParams [''mutating''] SCOPE_INBOX_RESPOND INJECT_POOL_AND_CALLER,
      Capability ''skip_inbox_item'' ''inbox'' ''Skip an inbox item'' SkipInboxItemParams [''mutating''] SCOPE_INBOX_RESPOND INJECT_POOL_AND_CALLER,
      Capability ''reject_inbox_item'' ''inbox'' ''Reject an inbox item'' RejectInboxItemParams [''mutating''] SCOPE_INBOX_RESPOND INJECT_POOL_AND_CALLER]"

definition trace_capabilities :: "capability list" where
  "trace_capabilities =
     [Capability ''list_tasks'' ''trace'' ''List tasks for a run'' ListTasksParams [''readonly''] SCOPE_TRACE_READ INJECT_POOL,
      Capability ''get_task_attempts'' ''trace'' ''Get attempts for a task'' GetTaskAttemptsParams [''readonly''] SCOPE_TRACE_READ INJECT_POOL,
      Capability ''get_transcript'' ''trace'' ''Get a session transcript'' GetTranscriptParams [''readonly''] SCOPE_TRACE_READ INJECT_POOL,
      Capability ''search_transcript'' ''trace'' ''Search a transcript'' SearchTranscriptParams [''readonly''] SCOPE_TRACE_READ INJECT_POOL,
      Capability ''query_events'' ''trace'' ''Query events for a run'' QueryEventsParams [''readonly''] SCOPE_TRACE_READ INJECT_POOL,
      Capability ''get_notepad'' ''trace'' ''Get notepad entries for a run'' GetNotepadParams [''readonly''] SCOPE_TRACE_READ INJECT_POOL]"

definition event_capabilities :: "capability list" where
  "event_capabilities =
     [Capability ''fire_event'' ''event'' ''Fire a named event for wait-for tasks'' FireEventParams [''mutating''] SCOPE_EVENTS_WRITE INJECT_POOL_AND_CALLER]"

definition config_capabilities :: "capability list" where
  "config_capabilities =
     [Capability ''show_config'' ''config'' ''Show a run's config snapshot'' ShowConfigParams [''readonly''] SCOPE_CONFIG_READ INJECT_POOL,
      Capability ''show_pricing'' ''config'' ''Show the pricing table'' ShowPricingParams [''readonly''] SCOPE_CONFIG_READ INJECT_NONE]"

definition validate_capabilities :: "capability list" where
  "validate_capabilities =
     [Capability ''validate_agent'' ''validate'' ''Validate an agent TOML file'' ValidateAgentParams [''readonly''] SCOPE_VALIDATE_READ INJECT_NONE,
      Capability ''validate_workflow'' ''validate'' ''Validate a workflow TOML file'' ValidateWorkflowParams [''readonly''] SCOPE_VALIDATE_READ INJECT_NONE,
      Capability ''validate_categories'' ''validate'' ''Validate a categories TOML file'' ValidateCategoriesParams [''readonly''] SCOPE_VALIDATE_READ INJECT_NONE]"

definition dispatch_capabilities :: "capability list" where
  "dispatch_capabilities =
     [Capability ''subscribe'' ''dispatch'' ''Create a subscription with filter and actions'' SubscribeParams [''mutating''] SCOPE_SUBSCRIPTIONS_MANAGE INJECT_DISPATCH_BACKEND_AND_CALLER,
      Capability ''unsubscribe'' ''dispatch'' ''Delete a subscription'' UnsubscribeParams [''mutating''] SCOPE_SUBSCRIPTIONS_MANAGE INJECT_DISPATCH_BACKEND,
      Capability ''list_subscriptions'' ''dispatch'' ''List subscriptions'' ListSubscriptionsParams [''readonly''] SCOPE_SUBSCRIPTIONS_READ INJECT_DISPATCH_BACKEND,
      Capability ''create_source'' ''dispatch'' ''Create a new event source'' CreateSourceParams [''mutating''] SCOPE_SOURCES_MANAGE INJECT_SOURCE_CREATE,
      Capability ''get_source'' ''dispatch'' ''Get a source by ID'' GetSourceParams [''readonly''] SCOPE_SOURCES_READ INJECT_DISPATCH_BACKEND,
      Capability ''get_source_by_slug'' ''dispatch'' ''Get a source by slug'' GetSourceBySlugParams [''readonly''] SCOPE_SOURCES_READ INJECT_DISPATCH_BACKEND,
      Capability ''list_sources'' ''dispatch'' ''List all registered sources'' ListSourcesParams [''readonly''] SCOPE_SOURCES_READ INJECT_DISPATCH_BACKEND,
      Capability ''delete_source'' ''dispatch'' ''Delete a source by ID'' DeleteSourceParams [''mutating''] SCOPE_SOURCES_MANAGE INJECT_DISPATCH_BACKEND]"

definition notification_capabilities :: "capability list" where
  "notification_capabilities =
     [Capability ''list_deliveries'' ''notification'' ''List notification deliveries for the caller'' ListDeliveriesParams [''readonly''] SCOPE_NOTIFICATIONS_READ INJECT_NOTIFICATION_AND_CALLER,
      Capability ''acknowledge_delivery'' ''notification'' ''Acknowledge a notification delivery'' AcknowledgeDeliveryParams [''mutating''] SCOPE_NOTIFICATIONS_MANAGE INJECT_NOTIFICATION_AND_CALLER]"

definition principal_capabilities :: "capability list" where
  "principal_capabilities =
     [Capability ''create_principal'' ''principal'' ''Create (idempotently mint) a principal'' CreatePrincipalParams [''mutating''] SCOPE_PRINCIPALS_MANAGE INJECT_PRINCIPAL_CREATE,
      Capability ''get_principal'' ''principal'' ''Get a principal by ID'' GetPrincipalParams [''readonly''] SCOPE_PRINCIPALS_READ INJECT_PRINCIPAL_STORAGE,
      Capability ''list_principals'' ''principal'' ''List principals, optionally filtered by kind'' ListPrincipalsParams [''readonly''] SCOPE_PRINCIPALS_READ INJECT_PRINCIPAL_STORAGE,
      Capability ''delete_principal'' ''principal'' ''Delete a principal (refuses the system principal)'' DeletePrincipalParams [''mutating''] SCOPE_PRINCIPALS_MANAGE INJECT_PRINCIPAL_STORAGE]"

definition CAPABILITIES :: "capability list" where
  "CAPABILITIES = run_capabilities @ inbox_capabilities @ trace_capabilities @ event_capabilities @ config_capabilities @
     validate_capabilities @ dispatch_capabilities @ notification_capabilities @ principal_capabilities"

definition CAPABILITIES_BY_NAME :: "(string, capability) dict" where
  "CAPABILITIES_BY_NAME = fold (\<lambda>c. dict_set (cap_name c) c) CAPABILITIES []"

definition get_capability :: "string \<Rightarrow> capability option" where
  "get_capability name = dict_get CAPABILITIES_BY_NAME name"

section \<open>Keyword arguments\<close>

datatype kwarg = KNone | KUuid uuid | KPath string | KTime time | KFilter filter_predicate | KJson json

datatype action_model = ScriptModel | LogModel | WorkflowModel | EventModel | NotifyModel

record services =
  sv_trace :: trace_db
  sv_dispatch :: dispatch_db
  sv_principals :: principals
  sv_deliveries :: deliveries
  sv_auth :: auth_backend
  sv_control :: "control_call list"
  sv_tick :: nat

type_synonym 'a service = "services \<Rightarrow> 'a result \<times> services"

text \<open>
  \<open>se_validate m raw\<close> is the dump of \<open>m(**raw)\<close>, \<open>None\<close> for a \<open>ValidationError\<close> (a \<open>ValueError\<close>); \<open>se_filter\<close> and \<open>se_action\<close> are the
  construction of a filter and of an action in the same way.
\<close>

record service_env =
  se_validate :: "params_model \<Rightarrow> jobj \<Rightarrow> jobj option"
  se_filter :: "jobj \<Rightarrow> filter_predicate option"
  se_action :: "action_model \<Rightarrow> json \<Rightarrow> action option"
  se_uuid :: "string \<Rightarrow> uuid option"
  se_fromisoformat :: "string \<Rightarrow> time option"
  se_ids :: "nat \<Rightarrow> uuid"
  se_clock :: "nat \<Rightarrow> time"
  se_start_run :: "principal \<Rightarrow> string \<Rightarrow> string \<Rightarrow> uuid service"
  se_problems :: "string \<Rightarrow> string \<Rightarrow> string list"

definition param_format :: "params_model \<Rightarrow> string \<Rightarrow> string option" where
  "param_format m key = Option.bind (find (\<lambda>f. p_name f = key) m) p_format"

definition opt_result :: "('a \<Rightarrow> 'b) \<Rightarrow> 'a option \<Rightarrow> 'b result" where
  "opt_result f x = (case x of None \<Rightarrow> Inl ValueError | Some y \<Rightarrow> Inr (f y))"

definition prepare_kwarg :: "service_env \<Rightarrow> params_model \<Rightarrow> string \<Rightarrow> json \<Rightarrow> (string \<times> kwarg) result" where
  "prepare_kwarg env m key v =
     (case v of
        JNull \<Rightarrow> Inr (key, KNone)
      | JStr text \<Rightarrow>
          if param_format m key = Some ''uuid'' then opt_result (\<lambda>u. (key, KUuid u)) (se_uuid env text)
          else if key \<in> {''config_path'', ''path''} then Inr (key, KPath text)
          else if key = ''since'' then opt_result (\<lambda>t. (key, KTime t)) (se_fromisoformat env text)
          else Inr (key, KJson v)
      | JObj d \<Rightarrow>
          if key = ''filter'' then opt_result (\<lambda>f. (''filter_pred'', KFilter f)) (se_filter env d) else Inr (key, KJson v)
      | _ \<Rightarrow> Inr (key, KJson v))"

fun prepare_loop :: "service_env \<Rightarrow> params_model \<Rightarrow> jobj \<Rightarrow> (string, kwarg) dict \<Rightarrow> (string, kwarg) dict result" where
  "prepare_loop env m [] kwargs = Inr kwargs"
| "prepare_loop env m ((key, v) # rest) kwargs =
     bind_res (prepare_kwarg env m key v) (\<lambda>(k, a). prepare_loop env m rest (dict_set k a kwargs))"

definition prepare_kwargs :: "service_env \<Rightarrow> params_model \<Rightarrow> jobj \<Rightarrow> (string, kwarg) dict result" where
  "prepare_kwargs env m validated = prepare_loop env m validated []"

section \<open>The context and the injections\<close>

text \<open>A port of the context is present or not; the stores behind the ports are the state of the services.\<close>

record dispatch_context =
  dc_pool :: bool
  dc_dispatch_backend :: bool
  dc_principal_storage :: bool
  dc_kind_registry :: "string list option"
  dc_notification_port :: bool
  dc_get_worker_bridge :: bool
  dc_run_manager :: bool
  dc_auth_context :: "auth_context option"

datatype infra = Port string | Kinds "string list" | Caller principal

fun infra_token :: "infra \<Rightarrow> string" where
  "infra_token (Port t) = t"
| "infra_token (Kinds ks) = ''kind_registry''"
| "infra_token (Caller p) = ''caller_principal''"

definition resolve_caller_principal_arg :: "dispatch_context \<Rightarrow> services \<Rightarrow> principal result" where
  "resolve_caller_principal_arg ctx s =
     (case dc_auth_context ctx of
        None \<Rightarrow> Inl ValueError
      | Some ax \<Rightarrow> if \<not> dc_principal_storage ctx then Inl ValueError else resolve_caller_principal ax (sv_principals s))"

definition context_field :: "dispatch_context \<Rightarrow> string \<Rightarrow> infra option" where
  "context_field ctx token =
     (if token = ''kind_registry'' then map_option Kinds (dc_kind_registry ctx)
      else if (token = ''pool'' \<and> dc_pool ctx) \<or> (token = ''dispatch_backend'' \<and> dc_dispatch_backend ctx) \<or>
              (token = ''principal_storage'' \<and> dc_principal_storage ctx) \<or> (token = ''notification_port'' \<and> dc_notification_port ctx) \<or>
              (token = ''get_worker_bridge'' \<and> dc_get_worker_bridge ctx) \<or> (token = ''run_manager'' \<and> dc_run_manager ctx)
      then Some (Port token) else None)"

fun resolve_tokens :: "dispatch_context \<Rightarrow> string list \<Rightarrow> services \<Rightarrow> string list \<Rightarrow> infra list result" where
  "resolve_tokens ctx injects s [] = Inr []"
| "resolve_tokens ctx injects s (token # rest) =
     (if token \<notin> set injects then resolve_tokens ctx injects s rest
      else bind_res
        (if token = ''caller_principal'' then map_sum id Caller (resolve_caller_principal_arg ctx s)
         else (case context_field ctx token of None \<Rightarrow> Inl ValueError | Some x \<Rightarrow> Inr x))
        (\<lambda>x. map_sum id ((#) x) (resolve_tokens ctx injects s rest)))"

definition resolve_injections :: "dispatch_context \<Rightarrow> string list \<Rightarrow> services \<Rightarrow> infra list result" where
  "resolve_injections ctx injects s =
     bind_res (resolve_tokens ctx injects s INJECT_ORDER) (\<lambda>args.
       if set injects - set INJECT_ORDER \<noteq> {} then Inl ValueError else Inr args)"

section \<open>Runs, inbox, events\<close>

definition resolve_run_principal_id :: "uuid \<Rightarrow> services \<Rightarrow> uuid result" where
  "resolve_run_principal_id run_id s =
     (case get_principal_by_ref KIND_RUN run_id (sv_principals s) of None \<Rightarrow> Inl RuntimeError | Some p \<Rightarrow> Inr (pr_id p))"

definition transition_service :: "service_env \<Rightarrow> uuid \<Rightarrow> string \<Rightarrow> uuid \<Rightarrow> unit service" where
  "transition_service env run_id new_status principal_id s =
     (case transition_run (se_ids env (sv_tick s)) (se_clock env (sv_tick s)) (se_clock env (sv_tick s)) run_id new_status None
             principal_id (sv_trace s) of
        Inl e \<Rightarrow> (Inl e, s)
      | Inr (db, call) \<Rightarrow>
          (Inr (), s\<lparr>sv_trace := db, sv_control := sv_control s @ (case call of None \<Rightarrow> [] | Some c \<Rightarrow> [c]), sv_tick := Suc (sv_tick s)\<rparr>))"

definition control_run :: "service_env \<Rightarrow> string \<Rightarrow> uuid \<Rightarrow> unit service" where
  "control_run env new_status run_id s =
     (case resolve_run_principal_id run_id s of
        Inl e \<Rightarrow> (Inl e, s)
      | Inr principal_id \<Rightarrow> transition_service env run_id new_status principal_id s)"

definition abort_run :: "service_env \<Rightarrow> uuid \<Rightarrow> unit service" where
  "abort_run env = control_run env ''aborted''"

definition pause_run :: "service_env \<Rightarrow> uuid \<Rightarrow> unit service" where
  "pause_run env = control_run env ''paused''"

definition resume_run :: "service_env \<Rightarrow> uuid \<Rightarrow> unit service" where
  "resume_run env = control_run env ''running''"

definition get_inbox_item :: "uuid \<Rightarrow> inbox_row service" where
  "get_inbox_item item_id s = (case read_inbox_item item_id (sv_trace s) of None \<Rightarrow> (Inl ValueError, s) | Some item \<Rightarrow> (Inr item, s))"

definition then_get_item :: "uuid \<Rightarrow> trace_db result \<Rightarrow> inbox_row service" where
  "then_get_item item_id r s = (case r of Inl e \<Rightarrow> (Inl e, s) | Inr db \<Rightarrow> get_inbox_item item_id (s\<lparr>sv_trace := db\<rparr>))"

definition respond_to_inbox :: "service_env \<Rightarrow> principal \<Rightarrow> uuid \<Rightarrow> string \<Rightarrow> inbox_row service" where
  "respond_to_inbox env caller item_id answer s =
     then_get_item item_id (answer_inbox_item (se_clock env (sv_tick s)) item_id answer (pr_id caller) (sv_trace s)) s"

definition skip_item :: "principal \<Rightarrow> uuid \<Rightarrow> inbox_row service" where
  "skip_item caller item_id s = then_get_item item_id (skip_inbox_item item_id (pr_id caller) (sv_trace s)) s"

definition reject_item :: "principal \<Rightarrow> uuid \<Rightarrow> string \<Rightarrow> inbox_row service" where
  "reject_item caller item_id reason s = then_get_item item_id (reject_inbox_item item_id reason (pr_id caller) (sv_trace s)) s"

definition fire_service :: "service_env \<Rightarrow> principal \<Rightarrow> uuid option \<Rightarrow> string \<Rightarrow> jobj option \<Rightarrow> (uuid \<times> bool) service" where
  "fire_service env caller run_id event_name payload s =
     (let (fired, db) = fire_event (se_ids env (sv_tick s)) (se_clock env (sv_tick s)) caller run_id event_name payload None (sv_trace s)
      in (Inr fired, s\<lparr>sv_trace := db, sv_tick := Suc (sv_tick s)\<rparr>))"

text \<open>\<open>show_pricing\<close>, before the rates are written as text.\<close>

definition show_pricing :: "(string, (string, decimal) dict) dict" where
  "show_pricing =
     dict_map (\<lambda>rates. [(''input_per_million'', input_per_million rates), (''output_per_million'', output_per_million rates),
                        (''cache_read_per_million'', cache_read_per_million rates), (''cache_write_per_million'', cache_write_per_million rates)])
       PRICING_TABLE"

section \<open>Subscriptions and sources\<close>

text \<open>\<open>k in x\<close> for a value of a request, \<open>None\<close> when the test raises \<open>TypeError\<close>.\<close>

fun json_in :: "string \<Rightarrow> json \<Rightarrow> bool option" where
  "json_in k (JObj d) = Some (k \<in> set (dict_keys d))"
| "json_in k (JArr xs) = Some (JStr k \<in> set xs)"
| "json_in k (JStr s) = Some (str_contains k s)"
| "json_in k _ = None"

fun resolve_models :: "service_env \<Rightarrow> json \<Rightarrow> (string \<times> action_model) list \<Rightarrow> action result" where
  "resolve_models env data [] = Inl (case data of JObj d \<Rightarrow> ValueError | _ \<Rightarrow> AttributeError)"
| "resolve_models env data ((key, m) # rest) =
     (case json_in key data of
        None \<Rightarrow> Inl TypeError
      | Some found \<Rightarrow> if found then opt_result id (se_action env m data) else resolve_models env data rest)"

definition resolve_action_from_dict :: "service_env \<Rightarrow> json \<Rightarrow> action result" where
  "resolve_action_from_dict env data =
     resolve_models env data
       [(''callable'', ScriptModel), (''message'', LogModel), (''workflow_path'', WorkflowModel), (''event_type'', EventModel),
        (''target_principal_id'', NotifyModel)]"

text \<open>The accumulator settings, with the two integers the worker reads from them.\<close>

definition json_int_or :: "jobj \<Rightarrow> string \<Rightarrow> int \<Rightarrow> int" where
  "json_int_or d k v = (case dict_get d k of Some (JInt i) \<Rightarrow> i | _ \<Rightarrow> v)"

definition accumulator_of :: "json \<Rightarrow> accumulator_config option result" where
  "accumulator_of j =
     (case j of
        JNull \<Rightarrow> Inr None
      | JObj d \<Rightarrow> Inr (Some \<lparr>ac_threshold = json_int_or d ''threshold'' 0, ac_flush_interval = json_int_or d ''flush_interval_s'' 0\<rparr>)
      | _ \<Rightarrow> Inl ValueError)"

definition json_or :: "jobj \<Rightarrow> string \<Rightarrow> json \<Rightarrow> json" where
  "json_or d k v = (case dict_get d k of None \<Rightarrow> v | Some j \<Rightarrow> j)"

fun create_actions :: "service_env \<Rightarrow> time \<Rightarrow> uuid \<Rightarrow> nat \<Rightarrow> jobj list \<Rightarrow> unit service" where
  "create_actions env now sub position [] s = (Inr (), s)"
| "create_actions env now sub position (action_config # rest) s =
     (let rest_config = dict_pop ''accumulator_config'' action_config in
      case resolve_action_from_dict env (json_or rest_config ''action'' (JObj rest_config)) of
        Inl e \<Rightarrow> (Inl e, s)
      | Inr action \<Rightarrow>
          (case accumulator_of (json_or action_config ''accumulator_config'' JNull) of
             Inl e \<Rightarrow> (Inl e, s)
           | Inr accumulator \<Rightarrow>
               create_actions env now sub (Suc position) rest
                 (s\<lparr>sv_dispatch := snd (create_action
                      \<lparr>sa_id = se_ids env (sv_tick s), sa_subscription_id = sub, sa_position = position, sa_action = action,
                       sa_accumulator = accumulator, sa_created_at = now\<rparr> (sv_dispatch s)),
                    sv_tick := Suc (sv_tick s)\<rparr>)))"

definition store_subscription :: "service_env \<Rightarrow> filter_predicate \<Rightarrow> string \<Rightarrow> uuid \<Rightarrow> services \<Rightarrow> uuid \<times> services" where
  "store_subscription env filter_pred storage principal_id s =
     (let sub = \<lparr>sub_id = se_ids env (sv_tick s), sub_filter = filter_pred, sub_enabled = True, sub_storage = storage,
                 sub_principal_id = principal_id, sub_created_at = se_clock env (sv_tick s)\<rparr>
      in (sub_id sub, s\<lparr>sv_dispatch := snd (create_subscription sub (sv_dispatch s)), sv_tick := Suc (sv_tick s)\<rparr>))"

definition subscribe :: "service_env \<Rightarrow> principal \<Rightarrow> filter_predicate \<Rightarrow> jobj list \<Rightarrow> string \<Rightarrow> uuid service" where
  "subscribe env caller filter_pred actions storage s =
     (let (sub, s1) = store_subscription env filter_pred storage (pr_id caller) s
      in (case create_actions env (se_clock env (sv_tick s)) sub 0 actions s1 of (Inl e, s2) \<Rightarrow> (Inl e, s2) | (Inr _, s2) \<Rightarrow> (Inr sub, s2)))"

definition unsubscribe :: "uuid \<Rightarrow> unit service" where
  "unsubscribe subscription_id s =
     (case get_subscription subscription_id (sv_dispatch s) of
        None \<Rightarrow> (Inl ValueError, s)
      | Some existing \<Rightarrow>
          (Inr (), s\<lparr>sv_dispatch := delete_subscription subscription_id (delete_actions subscription_id (sv_dispatch s))\<rparr>))"

definition create_source_service ::
  "service_env \<Rightarrow> principal \<Rightarrow> string \<Rightarrow> string \<Rightarrow> uuid option \<Rightarrow> jobj option \<Rightarrow> uuid service" where
  "create_source_service env caller slug name credential_id config s =
     (if credential_id \<noteq> None \<and> get_credential_by_id (the credential_id) (sv_auth s) = None then (Inl ValueError, s)
      else
        (let t = sv_tick s; source_id = se_ids env t;
             (p, ps) = mint_principal (se_ids env (Suc t)) (se_clock env t) KIND_SOURCE source_id (Some slug) (sv_principals s);
             s1 = s\<lparr>sv_principals := ps, sv_tick := Suc (Suc t)\<rparr>;
             so = \<lparr>so_id = source_id, so_slug = slug, so_name = name, so_credential_id = credential_id, so_config = config,
                   so_created_by = pr_id caller, so_created_at = se_clock env (Suc t)\<rparr>
         in (case create_source so (sv_dispatch s1) of
               Inl e \<Rightarrow> (Inl e, s1) | Inr (i, db) \<Rightarrow> (Inr i, s1\<lparr>sv_dispatch := db\<rparr>))))"

definition delete_source_service :: "uuid \<Rightarrow> unit service" where
  "delete_source_service source_id s = (Inr (), s\<lparr>sv_dispatch := delete_source source_id (sv_dispatch s)\<rparr>)"

section \<open>Principals and notifications\<close>

definition NO_SELF_SUBSCRIPTION_KINDS :: "string list" where
  "NO_SELF_SUBSCRIPTION_KINDS = [KIND_RUN, KIND_SOURCE, KIND_SYSTEM]"

definition create_self_subscription :: "service_env \<Rightarrow> principal \<Rightarrow> string list \<Rightarrow> services \<Rightarrow> services" where
  "create_self_subscription env p event_types s =
     (let now = se_clock env (sv_tick s);
          (sub, s1) = store_subscription env
            \<lparr>fp_event_types = Some event_types, fp_sources = None, fp_principal_id = Some (pr_id p), fp_data_predicates = None\<rparr>
            ''persistent'' (pr_id p) s
      in s1\<lparr>sv_dispatch := snd (create_action
              \<lparr>sa_id = se_ids env (sv_tick s1), sa_subscription_id = sub, sa_position = 0,
               sa_action = NotifyAction (pr_id p) ''self-subscription'' [], sa_accumulator = None, sa_created_at = now\<rparr>
              (sv_dispatch s1)),
            sv_tick := Suc (sv_tick s1)\<rparr>)"

definition create_principal ::
  "service_env \<Rightarrow> string list \<Rightarrow> string \<Rightarrow> uuid \<Rightarrow> string option \<Rightarrow> string list option \<Rightarrow> principal service" where
  "create_principal env kinds kind external_ref display_name event_types s =
     (if kind = KIND_SYSTEM then (Inl ValueError, s)
      else (case validate_kind kinds kind of
              Inl e \<Rightarrow> (Inl e, s)
            | Inr _ \<Rightarrow>
                if (if kind \<in> set NO_SELF_SUBSCRIPTION_KINDS then event_types \<noteq> None else event_types = None) then (Inl ValueError, s)
                else
                  (let (p, ps) = mint_principal (se_ids env (sv_tick s)) (se_clock env (sv_tick s)) kind external_ref display_name (sv_principals s);
                       s1 = s\<lparr>sv_principals := ps, sv_tick := Suc (sv_tick s)\<rparr>
                   in (Inr p, case event_types of None \<Rightarrow> s1 | Some ts \<Rightarrow> create_self_subscription env p ts s1))))"

definition delete_principal_service :: "uuid \<Rightarrow> unit service" where
  "delete_principal_service principal_id s =
     (case get_principal principal_id (sv_principals s) of
        Some existing \<Rightarrow>
          if pr_kind existing = KIND_SYSTEM then (Inl ValueError, s)
          else (Inr (), s\<lparr>sv_principals := delete_principal principal_id (sv_principals s)\<rparr>)
      | None \<Rightarrow> (Inr (), s\<lparr>sv_principals := delete_principal principal_id (sv_principals s)\<rparr>))"

definition acknowledge_service :: "service_env \<Rightarrow> principal \<Rightarrow> uuid \<Rightarrow> unit service" where
  "acknowledge_service env caller delivery_id s =
     (case acknowledge_delivery (se_clock env (sv_tick s)) caller delivery_id (sv_deliveries s) of
        Inl e \<Rightarrow> (Inl e, s)
      | Inr ds \<Rightarrow> (Inr (), s\<lparr>sv_deliveries := ds, sv_tick := Suc (sv_tick s)\<rparr>))"

section \<open>The service functions by name\<close>

datatype service_fn =
    StartRunFromFileFn | ListRunsFn | GetRunFn | AbortRunFn | PauseRunFn | ResumeRunFn | ListInboxFn | GetInboxItemFn
  | RespondToInboxFn | SkipInboxItemFn | RejectInboxItemFn | ListTasksFn | GetTaskAttemptsFn | GetTranscriptFn | SearchTranscriptFn | QueryEventsFn
  | GetNotepadFn | FireEventFn | ShowConfigFn | ShowPricingFn | ValidateAgentFn | ValidateWorkflowFn | ValidateCategoriesFn | SubscribeFn
  | UnsubscribeFn | ListSubscriptionsFn | CreateSourceFn | GetSourceFn | GetSourceBySlugFn | ListSourcesFn | DeleteSourceFn | ListDeliveriesFn
  | AcknowledgeDeliveryFn | CreatePrincipalFn | GetPrincipalFn | ListPrincipalsFn | DeletePrincipalFn

definition FN_MAP :: "(string, service_fn) dict" where
  "FN_MAP =
     [(''start_run'', StartRunFromFileFn),
      (''list_runs'', ListRunsFn),
      (''get_run'', GetRunFn),
      (''abort_run'', AbortRunFn),
      (''pause_run'', PauseRunFn),
      (''resume_run'', ResumeRunFn),
      (''list_inbox'', ListInboxFn),
      (''get_inbox_item'', GetInboxItemFn),
      (''respond_to_inbox'', RespondToInboxFn),
      (''skip_inbox_item'', SkipInboxItemFn),
      (''reject_inbox_item'', RejectInboxItemFn),
      (''list_tasks'', ListTasksFn),
      (''get_task_attempts'', GetTaskAttemptsFn),
      (''get_transcript'', GetTranscriptFn),
      (''search_transcript'', SearchTranscriptFn),
      (''query_events'', QueryEventsFn),
      (''get_notepad'', GetNotepadFn),
      (''fire_event'', FireEventFn),
      (''show_config'', ShowConfigFn),
      (''show_pricing'', ShowPricingFn),
      (''validate_agent'', ValidateAgentFn),
      (''validate_workflow'', ValidateWorkflowFn),
      (''validate_categories'', ValidateCategoriesFn),
      (''subscribe'', SubscribeFn),
      (''unsubscribe'', UnsubscribeFn),
      (''list_subscriptions'', ListSubscriptionsFn),
      (''create_source'', CreateSourceFn),
      (''get_source'', GetSourceFn),
      (''get_source_by_slug'', GetSourceBySlugFn),
      (''list_sources'', ListSourcesFn),
      (''delete_source'', DeleteSourceFn),
      (''list_deliveries'', ListDeliveriesFn),
      (''acknowledge_delivery'', AcknowledgeDeliveryFn),
      (''create_principal'', CreatePrincipalFn),
      (''get_principal'', GetPrincipalFn),
      (''list_principals'', ListPrincipalsFn),
      (''delete_principal'', DeletePrincipalFn)]"

text \<open>
  The parameters of each function as it is declared: the positional ones that take an injected dependency, and the others, which are
  passed by keyword, with whether they are required.
\<close>

fun signature :: "service_fn \<Rightarrow> string list \<times> (string \<times> bool) list" where
  "signature StartRunFromFileFn = ([''pool'', ''principal_storage'', ''get_worker_bridge'', ''run_manager'', ''caller_principal''], [(''intent'', True), (''config_path'', True)])"
| "signature ListRunsFn = ([''pool''], [])"
| "signature GetRunFn = ([''pool''], [(''run_id'', True)])"
| "signature AbortRunFn = ([''pool''], [(''run_id'', True)])"
| "signature PauseRunFn = ([''pool''], [(''run_id'', True)])"
| "signature ResumeRunFn = ([''pool''], [(''run_id'', True)])"
| "signature ListInboxFn = ([''pool''], [(''run_id'', True), (''status'', False)])"
| "signature GetInboxItemFn = ([''pool''], [(''item_id'', True)])"
| "signature RespondToInboxFn = ([''pool'', ''caller_principal''], [(''item_id'', True), (''answer'', True)])"
| "signature SkipInboxItemFn = ([''pool'', ''caller_principal''], [(''item_id'', True)])"
| "signature RejectInboxItemFn = ([''pool'', ''caller_principal''], [(''item_id'', True), (''reason'', True)])"
| "signature ListTasksFn = ([''pool''], [(''run_id'', True)])"
| "signature GetTaskAttemptsFn = ([''pool''], [(''task_id'', True)])"
| "signature GetTranscriptFn = ([''pool''], [(''session_id'', True)])"
| "signature SearchTranscriptFn = ([''pool''], [(''session_id'', True), (''query'', True)])"
| "signature QueryEventsFn = ([''pool''], [(''run_id'', True), (''event_type'', False), (''since'', False), (''limit'', False)])"
| "signature GetNotepadFn = ([''pool''], [(''run_id'', True)])"
| "signature FireEventFn = ([''pool'', ''caller_principal''], [(''run_id'', True), (''event_name'', True), (''payload'', False), (''idempotency_key'', False)])"
| "signature ShowConfigFn = ([''pool''], [(''run_id'', True)])"
| "signature ShowPricingFn = ([], [])"
| "signature ValidateAgentFn = ([], [(''path'', True)])"
| "signature ValidateWorkflowFn = ([], [(''path'', True)])"
| "signature ValidateCategoriesFn = ([], [(''path'', True)])"
| "signature SubscribeFn = ([''dispatch_backend'', ''caller_principal''], [(''filter_pred'', True), (''actions'', True), (''storage'', False)])"
| "signature UnsubscribeFn = ([''dispatch_backend''], [(''subscription_id'', True)])"
| "signature ListSubscriptionsFn = ([''dispatch_backend''], [(''enabled_only'', False), (''principal_id'', False)])"
| "signature CreateSourceFn = ([''pool'', ''dispatch_backend'', ''principal_storage'', ''caller_principal''], [(''slug'', True), (''name'', True), (''credential_id'', False), (''config'', False)])"
| "signature GetSourceFn = ([''dispatch_backend''], [(''source_id'', True)])"
| "signature GetSourceBySlugFn = ([''dispatch_backend''], [(''slug'', True)])"
| "signature ListSourcesFn = ([''dispatch_backend''], [])"
| "signature DeleteSourceFn = ([''dispatch_backend''], [(''source_id'', True)])"
| "signature ListDeliveriesFn = ([''notification_port'', ''caller_principal''], [(''unacknowledged_only'', False), (''cursor'', False), (''limit'', False)])"
| "signature AcknowledgeDeliveryFn = ([''notification_port'', ''caller_principal''], [(''delivery_id'', True)])"
| "signature CreatePrincipalFn = ([''dispatch_backend'', ''principal_storage'', ''kind_registry''], [(''kind'', True), (''external_ref'', True), (''display_name'', False), (''notification_event_types'', False)])"
| "signature GetPrincipalFn = ([''principal_storage''], [(''principal_id'', True)])"
| "signature ListPrincipalsFn = ([''principal_storage''], [(''kind'', False)])"
| "signature DeletePrincipalFn = ([''principal_storage''], [(''principal_id'', True)])"

text \<open>
  The arguments of a call. A value that does not have the annotated type cannot come from a strict model; its branch is a
  \<open>TypeError\<close>, as for an argument that is missing.
\<close>

fun as_uuid :: "kwarg \<Rightarrow> uuid option" where
  "as_uuid (KUuid u) = Some u" | "as_uuid _ = None"

fun as_str :: "kwarg \<Rightarrow> string option" where
  "as_str (KJson (JStr s)) = Some s" | "as_str _ = None"

fun as_path :: "kwarg \<Rightarrow> string option" where
  "as_path (KPath p) = Some p" | "as_path _ = None"

fun as_time :: "kwarg \<Rightarrow> time option" where
  "as_time (KTime t) = Some t" | "as_time _ = None"

fun as_int :: "kwarg \<Rightarrow> int option" where
  "as_int (KJson (JInt i)) = Some i" | "as_int _ = None"

fun as_bool :: "kwarg \<Rightarrow> bool option" where
  "as_bool (KJson (JBool b)) = Some b" | "as_bool _ = None"

fun as_obj :: "kwarg \<Rightarrow> jobj option" where
  "as_obj (KJson (JObj d)) = Some d" | "as_obj _ = None"

fun as_filter :: "kwarg \<Rightarrow> filter_predicate option" where
  "as_filter (KFilter f) = Some f" | "as_filter _ = None"

fun as_list :: "(kwarg \<Rightarrow> 'a option) \<Rightarrow> kwarg \<Rightarrow> 'a list option" where
  "as_list f (KJson (JArr xs)) = those (map (\<lambda>x. f (KJson x)) xs)" | "as_list f _ = None"

definition nullable :: "(kwarg \<Rightarrow> 'a option) \<Rightarrow> kwarg \<Rightarrow> 'a option option" where
  "nullable f a = (if a = KNone then Some None else map_option Some (f a))"

definition arg :: "(kwarg \<Rightarrow> 'a option) \<Rightarrow> (string, kwarg) dict \<Rightarrow> string \<Rightarrow> ('a \<Rightarrow> 'b service) \<Rightarrow> 'b service" where
  "arg f kw k g s = (case Option.bind (dict_get kw k) f of None \<Rightarrow> (Inl TypeError, s) | Some x \<Rightarrow> g x s)"

definition arg_or :: "'a \<Rightarrow> (kwarg \<Rightarrow> 'a option) \<Rightarrow> (string, kwarg) dict \<Rightarrow> string \<Rightarrow> ('a \<Rightarrow> 'b service) \<Rightarrow> 'b service" where
  "arg_or d f kw k g = (if dict_get kw k = None then g d else arg f kw k g)"

datatype answer =
    ANone | AUuid uuid | ARun "run_report option" | ARuns "run_summary list" | AItems "inbox_row list" | AItem inbox_row
  | ATasks "task_summary list" | AAttempts "attempt_row list" | ATranscript "transcript_row list" | AEvents "event_row list"
  | ANotepad "notepad_row list" | AFired "uuid \<times> bool" | AConfig "jobj option" | APricing "(string, (string, decimal) dict) dict"
  | AProblems "string list" | ASubscriptions "subscription list" | ASource "source option" | ASources "source list"
  | ADeliveries "notification_delivery list" | APrincipal "principal option" | APrincipals "principal list"

definition reading :: "(services \<Rightarrow> 'a) \<Rightarrow> 'a service" where
  "reading f s = (Inr (f s), s)"

definition answering :: "('a \<Rightarrow> 'b) \<Rightarrow> 'a service \<Rightarrow> 'b service" where
  "answering f g s = (case g s of (r, s') \<Rightarrow> (map_sum id f r, s'))"

definition as_caller :: "principal option \<Rightarrow> (principal \<Rightarrow> 'b service) \<Rightarrow> 'b service" where
  "as_caller who g s = (case who of None \<Rightarrow> (Inl TypeError, s) | Some p \<Rightarrow> g p s)"

text \<open>The body of each function on its arguments; a function that only reads is written in place.\<close>

definition run_body :: "service_env \<Rightarrow> service_fn \<Rightarrow> principal option \<Rightarrow> (string, kwarg) dict \<Rightarrow> answer service" where
  "run_body env f who kw =
     (case f of
        StartRunFromFileFn \<Rightarrow> arg as_str kw ''intent'' (\<lambda>intent. arg as_path kw ''config_path'' (\<lambda>path.
          as_caller who (\<lambda>p. answering AUuid (se_start_run env p intent path))))
      | ListRunsFn \<Rightarrow> reading (\<lambda>s. ARuns (list_runs (sv_trace s)))
      | GetRunFn \<Rightarrow> arg as_uuid kw ''run_id'' (\<lambda>i. reading (\<lambda>s. ARun (read_run_report i (sv_trace s))))
      | AbortRunFn \<Rightarrow> arg as_uuid kw ''run_id'' (\<lambda>i. answering (\<lambda>_. ANone) (abort_run env i))
      | PauseRunFn \<Rightarrow> arg as_uuid kw ''run_id'' (\<lambda>i. answering (\<lambda>_. ANone) (pause_run env i))
      | ResumeRunFn \<Rightarrow> arg as_uuid kw ''run_id'' (\<lambda>i. answering (\<lambda>_. ANone) (resume_run env i))
      | ShowConfigFn \<Rightarrow> arg as_uuid kw ''run_id'' (\<lambda>i. reading (\<lambda>s. AConfig (read_run_config i (sv_trace s))))
      | ShowPricingFn \<Rightarrow> reading (\<lambda>s. APricing show_pricing)
      | ValidateAgentFn \<Rightarrow> arg as_path kw ''path'' (\<lambda>p. reading (\<lambda>s. AProblems (se_problems env ''agent'' p)))
      | ValidateWorkflowFn \<Rightarrow> arg as_path kw ''path'' (\<lambda>p. reading (\<lambda>s. AProblems (se_problems env ''workflow'' p)))
      | ValidateCategoriesFn \<Rightarrow> arg as_path kw ''path'' (\<lambda>p. reading (\<lambda>s. AProblems (se_problems env ''categories'' p)))
      | _ \<Rightarrow> (\<lambda>s. (Inl TypeError, s)))"

definition trace_body :: "service_env \<Rightarrow> service_fn \<Rightarrow> principal option \<Rightarrow> (string, kwarg) dict \<Rightarrow> answer service" where
  "trace_body env f who kw =
     (case f of
        ListInboxFn \<Rightarrow> arg as_uuid kw ''run_id'' (\<lambda>i. arg_or None (nullable as_str) kw ''status'' (\<lambda>st.
          reading (\<lambda>s. AItems (read_inbox i st (sv_trace s)))))
      | GetInboxItemFn \<Rightarrow> arg as_uuid kw ''item_id'' (\<lambda>i. answering AItem (get_inbox_item i))
      | RespondToInboxFn \<Rightarrow> arg as_uuid kw ''item_id'' (\<lambda>i. arg as_str kw ''answer'' (\<lambda>a.
          as_caller who (\<lambda>p. answering AItem (respond_to_inbox env p i a))))
      | SkipInboxItemFn \<Rightarrow> arg as_uuid kw ''item_id'' (\<lambda>i. as_caller who (\<lambda>p. answering AItem (skip_item p i)))
      | RejectInboxItemFn \<Rightarrow> arg as_uuid kw ''item_id'' (\<lambda>i. arg as_str kw ''reason'' (\<lambda>r.
          as_caller who (\<lambda>p. answering AItem (reject_item p i r))))
      | ListTasksFn \<Rightarrow> arg as_uuid kw ''run_id'' (\<lambda>i. reading (\<lambda>s. ATasks (list_tasks i (sv_trace s))))
      | GetTaskAttemptsFn \<Rightarrow> arg as_uuid kw ''task_id'' (\<lambda>i. reading (\<lambda>s. AAttempts (read_task_attempts i (sv_trace s))))
      | GetTranscriptFn \<Rightarrow> arg as_uuid kw ''session_id'' (\<lambda>i. reading (\<lambda>s. ATranscript (read_transcript i (sv_trace s))))
      | SearchTranscriptFn \<Rightarrow> arg as_uuid kw ''session_id'' (\<lambda>i. arg as_str kw ''query'' (\<lambda>q.
          reading (\<lambda>s. ATranscript (search_transcript i q (sv_trace s)))))
      | QueryEventsFn \<Rightarrow> arg as_uuid kw ''run_id'' (\<lambda>i. arg_or None (nullable as_str) kw ''event_type'' (\<lambda>t.
          arg_or None (nullable as_time) kw ''since'' (\<lambda>since. arg_or 100 as_int kw ''limit'' (\<lambda>n.
            reading (\<lambda>s. AEvents (query_events i t since n (sv_trace s)))))))
      | GetNotepadFn \<Rightarrow> arg as_uuid kw ''run_id'' (\<lambda>i. reading (\<lambda>s. ANotepad (read_notepad i (sv_trace s))))
      | FireEventFn \<Rightarrow> arg as_uuid kw ''run_id'' (\<lambda>i. arg as_str kw ''event_name'' (\<lambda>e. arg_or None (nullable as_obj) kw ''payload'' (\<lambda>d.
          as_caller who (\<lambda>p. answering AFired (fire_service env p (Some i) e d)))))
      | _ \<Rightarrow> run_body env f who kw)"

definition dispatch_body :: "service_env \<Rightarrow> service_fn \<Rightarrow> principal option \<Rightarrow> (string, kwarg) dict \<Rightarrow> answer service" where
  "dispatch_body env f who kw =
     (case f of
        SubscribeFn \<Rightarrow> arg as_filter kw ''filter_pred'' (\<lambda>fp. arg (as_list as_obj) kw ''actions'' (\<lambda>as.
          arg_or ''persistent'' as_str kw ''storage'' (\<lambda>st. as_caller who (\<lambda>p. answering AUuid (subscribe env p fp as st)))))
      | UnsubscribeFn \<Rightarrow> arg as_uuid kw ''subscription_id'' (\<lambda>i. answering (\<lambda>_. ANone) (unsubscribe i))
      | ListSubscriptionsFn \<Rightarrow> arg_or True as_bool kw ''enabled_only'' (\<lambda>e. arg_or None (nullable as_uuid) kw ''principal_id'' (\<lambda>p.
          reading (\<lambda>s. ASubscriptions (list_subscriptions e p (sv_dispatch s)))))
      | CreateSourceFn \<Rightarrow> arg as_str kw ''slug'' (\<lambda>slug. arg as_str kw ''name'' (\<lambda>name.
          arg_or None (nullable as_uuid) kw ''credential_id'' (\<lambda>c. arg_or None (nullable as_obj) kw ''config'' (\<lambda>d.
            as_caller who (\<lambda>p. answering AUuid (create_source_service env p slug name c d))))))
      | GetSourceFn \<Rightarrow> arg as_uuid kw ''source_id'' (\<lambda>i. reading (\<lambda>s. ASource (get_source i (sv_dispatch s))))
      | GetSourceBySlugFn \<Rightarrow> arg as_str kw ''slug'' (\<lambda>slug. reading (\<lambda>s. ASource (get_source_by_slug slug (sv_dispatch s))))
      | ListSourcesFn \<Rightarrow> reading (\<lambda>s. ASources (list_sources (sv_dispatch s)))
      | DeleteSourceFn \<Rightarrow> arg as_uuid kw ''source_id'' (\<lambda>i. answering (\<lambda>_. ANone) (delete_source_service i))
      | _ \<Rightarrow> trace_body env f who kw)"

definition service_body ::
  "service_env \<Rightarrow> service_fn \<Rightarrow> principal option \<Rightarrow> string list \<Rightarrow> (string, kwarg) dict \<Rightarrow> answer service" where
  "service_body env f who kinds kw =
     (case f of
        ListDeliveriesFn \<Rightarrow> arg_or True as_bool kw ''unacknowledged_only'' (\<lambda>u. arg_or None (nullable as_uuid) kw ''cursor'' (\<lambda>c.
          arg_or 50 as_int kw ''limit'' (\<lambda>n. as_caller who (\<lambda>p. reading (\<lambda>s. ADeliveries (list_deliveries p u c n (sv_deliveries s)))))))
      | AcknowledgeDeliveryFn \<Rightarrow> arg as_uuid kw ''delivery_id'' (\<lambda>i. as_caller who (\<lambda>p.
          answering (\<lambda>_. ANone) (acknowledge_service env p i)))
      | CreatePrincipalFn \<Rightarrow> arg as_str kw ''kind'' (\<lambda>k. arg as_uuid kw ''external_ref'' (\<lambda>r.
          arg_or None (nullable as_str) kw ''display_name'' (\<lambda>n. arg_or None (nullable (as_list as_str)) kw ''notification_event_types'' (\<lambda>ts.
            answering (\<lambda>p. APrincipal (Some p)) (create_principal env kinds k r n ts)))))
      | GetPrincipalFn \<Rightarrow> arg as_uuid kw ''principal_id'' (\<lambda>i. reading (\<lambda>s. APrincipal (get_principal i (sv_principals s))))
      | ListPrincipalsFn \<Rightarrow> arg_or None (nullable as_str) kw ''kind'' (\<lambda>k. reading (\<lambda>s. APrincipals (list_principals k (sv_principals s))))
      | DeletePrincipalFn \<Rightarrow> arg as_uuid kw ''principal_id'' (\<lambda>i. answering (\<lambda>_. ANone) (delete_principal_service i))
      | _ \<Rightarrow> dispatch_body env f who kw)"

section \<open>The dispatcher\<close>

definition kwargs_fit :: "(string \<times> bool) list \<Rightarrow> string list \<Rightarrow> bool" where
  "kwargs_fit ps given = (set given \<subseteq> set (map fst ps) \<and> list_all (\<lambda>(k, required). required \<longrightarrow> k \<in> set given) ps)"

text \<open>\<open>fn(*infra_args, **kwargs)\<close>: the call is refused unless the arguments fit the parameters.\<close>

fun find_caller :: "infra list \<Rightarrow> principal option" where
  "find_caller [] = None" | "find_caller (Caller p # xs) = Some p" | "find_caller (x # xs) = find_caller xs"

fun find_kinds :: "infra list \<Rightarrow> string list" where
  "find_kinds [] = []" | "find_kinds (Kinds ks # xs) = ks" | "find_kinds (x # xs) = find_kinds xs"

definition call_service :: "service_env \<Rightarrow> service_fn \<Rightarrow> infra list \<Rightarrow> (string, kwarg) dict \<Rightarrow> answer service" where
  "call_service env f infra kw s =
     (if map infra_token infra = fst (signature f) \<and> kwargs_fit (snd (signature f)) (dict_keys kw)
      then service_body env f (find_caller infra) (find_kinds infra) kw s
      else (Inl TypeError, s))"

definition get_capability_fn :: "string \<Rightarrow> service_fn result" where
  "get_capability_fn name = (case dict_get FN_MAP name of None \<Rightarrow> Inl KeyError | Some f \<Rightarrow> Inr f)"

definition dispatch :: "service_env \<Rightarrow> dispatch_context \<Rightarrow> string \<Rightarrow> jobj \<Rightarrow> answer service" where
  "dispatch env ctx name raw_args s =
     (case get_capability name of
        None \<Rightarrow> (Inl ValueError, s)
      | Some cap \<Rightarrow>
          (case dc_auth_context ctx of
             None \<Rightarrow> (Inl ValueError, s)
           | Some ax \<Rightarrow>
               (case bind_res (authorize ax (cap_required_scope cap)) (\<lambda>_.
                       bind_res (opt_result id (se_validate env (cap_params_model cap) raw_args)) (\<lambda>validated.
                       bind_res (prepare_kwargs env (cap_params_model cap) validated) (\<lambda>kwargs.
                       bind_res (get_capability_fn name) (\<lambda>f.
                       bind_res (resolve_injections ctx (cap_injects cap) s) (\<lambda>infra_args. Inr (f, infra_args, kwargs)))))) of
                  Inl e \<Rightarrow> (Inl e, s)
                | Inr (f, infra_args, kwargs) \<Rightarrow> call_service env f infra_args kwargs s)))"

section \<open>Authorisation at the dispatcher\<close>

definition is_read_scope :: "string \<Rightarrow> bool" where
  "is_read_scope scope = endswith scope '':read''"

definition reading_fns :: "service_fn list" where
  "reading_fns =
     [ListRunsFn, GetRunFn, ShowConfigFn, ShowPricingFn, ValidateAgentFn, ValidateWorkflowFn, ValidateCategoriesFn, ListInboxFn,
      GetInboxItemFn, ListTasksFn, GetTaskAttemptsFn, GetTranscriptFn, SearchTranscriptFn, QueryEventsFn, GetNotepadFn,
      ListSubscriptionsFn, GetSourceFn, GetSourceBySlugFn, ListSourcesFn, ListDeliveriesFn, GetPrincipalFn, ListPrincipalsFn]"

lemmas scope_defs = SCOPE_RUNS_READ_def SCOPE_RUNS_MANAGE_def SCOPE_INBOX_READ_def SCOPE_INBOX_RESPOND_def
  SCOPE_NOTIFICATIONS_READ_def SCOPE_NOTIFICATIONS_MANAGE_def SCOPE_TRACE_READ_def SCOPE_EVENTS_READ_def SCOPE_EVENTS_WRITE_def
  SCOPE_CONFIG_READ_def SCOPE_VALIDATE_READ_def SCOPE_SOURCES_READ_def SCOPE_SOURCES_MANAGE_def SCOPE_SUBSCRIPTIONS_READ_def
  SCOPE_SUBSCRIPTIONS_MANAGE_def SCOPE_PRINCIPALS_READ_def SCOPE_PRINCIPALS_MANAGE_def

text \<open>
  What the tables say of one capability: it is found by its name, its tokens are known, its function takes the declared dependencies in
  the order of the dispatcher and the fields of its model by keyword, and it is tagged, scoped and implemented as reading or as
  mutating throughout.
\<close>

definition keyword :: "param \<Rightarrow> string" where
  "keyword f = (if p_name f = ''filter'' then ''filter_pred'' else p_name f)"

definition wired :: "capability \<Rightarrow> bool" where
  "wired c =
     (case dict_get FN_MAP (cap_name c) of
        None \<Rightarrow> False
      | Some f \<Rightarrow>
          list_all (\<lambda>t. t \<in> set VALID_INJECT_TOKENS) (cap_injects c) \<and>
          filter (\<lambda>t. t \<in> set (cap_injects c)) INJECT_ORDER = fst (signature f) \<and>
          kwargs_fit (snd (signature f)) (map keyword (cap_params_model c)) \<and>
          list_all (\<lambda>p. p_name p = ''filter'' \<longrightarrow> p_type p = PDict) (cap_params_model c) \<and>
          (if f \<in> set reading_fns then cap_tags c = [''readonly''] \<and> is_read_scope (cap_required_scope c)
           else cap_tags c = [''mutating''] \<and> \<not> is_read_scope (cap_required_scope c)))"

lemmas capability_tables = run_capabilities_def inbox_capabilities_def trace_capabilities_def event_capabilities_def
  config_capabilities_def validate_capabilities_def dispatch_capabilities_def notification_capabilities_def principal_capabilities_def

lemma wired_groups:
  "list_all wired run_capabilities" "list_all wired inbox_capabilities" "list_all wired trace_capabilities"
  "list_all wired event_capabilities" "list_all wired config_capabilities" "list_all wired validate_capabilities"
  "list_all wired dispatch_capabilities" "list_all wired notification_capabilities" "list_all wired principal_capabilities"
  by code_simp+

lemma all_wired: "c \<in> set CAPABILITIES \<Longrightarrow> wired c"
  using wired_groups by (auto simp: CAPABILITIES_def list_all_iff)

lemma distinct_names: "distinct (map cap_name CAPABILITIES)"
  by (simp add: CAPABILITIES_def capability_tables)

lemma fold_dict_set: "distinct (map f xs @ map fst d) \<Longrightarrow> fold (\<lambda>x. dict_set (f x) x) xs d = d @ map (\<lambda>x. (f x, x)) xs"
  by (induction xs arbitrary: d) (simp_all add: dict_set_new dict_get_None_iff dict_keys_def)

lemma get_capability_iff: "get_capability name = Some c \<longleftrightarrow> c \<in> set CAPABILITIES \<and> cap_name c = name"
proof -
  have "CAPABILITIES_BY_NAME = map (\<lambda>c. (cap_name c, c)) CAPABILITIES"
    using fold_dict_set [of cap_name CAPABILITIES "[]"] distinct_names by (simp add: CAPABILITIES_BY_NAME_def)
  moreover have "map_of (map (\<lambda>c. (cap_name c, c)) CAPABILITIES) name = Some c \<longleftrightarrow> c \<in> set CAPABILITIES \<and> cap_name c = name"
    by (subst map_of_eq_Some_iff) (use distinct_names in \<open>auto simp: comp_def\<close>)
  ultimately show ?thesis by (simp add: get_capability_def dict_get_def)
qed

text \<open>A call of a reading function leaves every store as it was.\<close>

definition untouched :: "'a service \<Rightarrow> bool" where
  "untouched f = (\<forall>s. snd (f s) = s)"

named_theorems untouched_intros \<open>operations that leave the services as they were\<close>

lemma untouched_reading [untouched_intros]: "untouched (reading f)"
  by (simp add: untouched_def reading_def)

lemma untouched_answering [untouched_intros]: "untouched g \<Longrightarrow> untouched (answering f g)"
  by (simp add: untouched_def answering_def case_prod_beta)

lemma untouched_arg [untouched_intros]: "(\<And>x. untouched (g x)) \<Longrightarrow> untouched (arg f kw k g)"
  by (simp add: untouched_def arg_def split: option.splits)

lemma untouched_arg_or [untouched_intros]: "(\<And>x. untouched (g x)) \<Longrightarrow> untouched (arg_or d f kw k g)"
  using untouched_arg [of g] by (simp add: arg_or_def)

lemma untouched_as_caller [untouched_intros]: "(\<And>p. untouched (g p)) \<Longrightarrow> untouched (as_caller who g)"
  by (simp add: untouched_def as_caller_def split: option.splits)

lemma untouched_get_inbox_item [untouched_intros]: "untouched (get_inbox_item i)"
  by (simp add: untouched_def get_inbox_item_def split: option.splits)

lemma reading_body: "f \<in> set reading_fns \<Longrightarrow> untouched (service_body env f who kinds kw)"
  by (cases f) (simp_all add: reading_fns_def service_body_def dispatch_body_def trace_body_def run_body_def untouched_intros)

lemma map_sum_Inr: "map_sum id f x = Inr y \<longleftrightarrow> (\<exists>z. x = Inr z \<and> y = f z)"
  by (cases x) auto

lemma resolve_tokens_names:
  "resolve_tokens ctx injects s toks = Inr infra \<Longrightarrow> map infra_token infra = filter (\<lambda>t. t \<in> set injects) toks"
proof (induction toks arbitrary: infra)
  case (Cons t toks)
  have field: "context_field ctx t = Some x \<Longrightarrow> infra_token x = t" for x
    by (auto simp: context_field_def split: if_splits)
  show ?case using Cons
    by (auto simp: bind_res_def map_sum_Inr split: if_splits option.splits sum.splits dest: field)
qed simp

lemma resolve_injections_names:
  "resolve_injections ctx injects s = Inr infra \<Longrightarrow> map infra_token infra = filter (\<lambda>t. t \<in> set injects) INJECT_ORDER"
  by (auto simp: resolve_injections_def bind_res_def split: sum.splits if_splits dest: resolve_tokens_names)

lemma dispatch_called:
  assumes "dispatch env ctx name raw_args s = (r, s')" "(\<exists>a. r = Inr a) \<or> s' \<noteq> s"
  obtains cap ax validated kwargs f infra where "get_capability name = Some cap" "dc_auth_context ctx = Some ax"
    "cap_required_scope cap \<in> set (ax_scopes ax)" "se_validate env (cap_params_model cap) raw_args = Some validated"
    "prepare_kwargs env (cap_params_model cap) validated = Inr kwargs" "dict_get FN_MAP name = Some f"
    "resolve_injections ctx (cap_injects cap) s = Inr infra" "service_body env f (find_caller infra) (find_kinds infra) kwargs s = (r, s')"
  using assms
  by (auto simp: dispatch_def authorize_def bind_res_def opt_result_def get_capability_fn_def call_service_def
      split: option.splits sum.splits if_splits prod.splits)

text \<open>
  C12. The dispatcher is the choke point: when a call answers, or changes any store, the capability exists, the caller is authenticated and
  holds the scope the capability requires, its arguments passed the parameter model, and every dependency the capability declares
  was there, in the order of the parameters of its function. A call that changes a store is of a capability tagged mutating, by a caller who
  holds a scope that is not a reading one.
\<close>

theorem dispatch_guarded:
  assumes "dispatch env ctx name raw_args s = (r, s')" "(\<exists>a. r = Inr a) \<or> s' \<noteq> s"
  shows "\<exists>cap ax f infra. get_capability name = Some cap \<and> dc_auth_context ctx = Some ax \<and>
    cap_required_scope cap \<in> set (ax_scopes ax) \<and> se_validate env (cap_params_model cap) raw_args \<noteq> None \<and>
    dict_get FN_MAP name = Some f \<and> resolve_injections ctx (cap_injects cap) s = Inr infra \<and>
    map infra_token infra = fst (signature f) \<and> set (fst (signature f)) = set (cap_injects cap) \<and>
    (s' \<noteq> s \<longrightarrow> cap_tags cap = [''mutating''] \<and> \<not> is_read_scope (cap_required_scope cap))"
proof -
  obtain cap ax validated kwargs f infra where d: "get_capability name = Some cap" "dc_auth_context ctx = Some ax"
    "cap_required_scope cap \<in> set (ax_scopes ax)" "se_validate env (cap_params_model cap) raw_args = Some validated"
    "dict_get FN_MAP name = Some f" "resolve_injections ctx (cap_injects cap) s = Inr infra"
    and call: "service_body env f (find_caller infra) (find_kinds infra) kwargs s = (r, s')"
    by (rule dispatch_called [OF assms])
  have "cap_name cap = name" and w: "wired cap" using d(1) all_wired by (auto simp: get_capability_iff)
  then have f: "filter (\<lambda>t. t \<in> set (cap_injects cap)) INJECT_ORDER = fst (signature f)" "list_all (\<lambda>t. t \<in> set VALID_INJECT_TOKENS) (cap_injects cap)"
    using d(5) by (auto simp: wired_def)
  have "VALID_INJECT_TOKENS = INJECT_ORDER" by (simp add: VALID_INJECT_TOKENS_def INJECT_ORDER_def)
  then have "set (fst (signature f)) = set (cap_injects cap)"
    unfolding f(1) [symmetric] using f(2) by (auto simp: list_all_iff)
  moreover have "s' \<noteq> s \<Longrightarrow> f \<notin> set reading_fns"
    using reading_body [of f env "find_caller infra" "find_kinds infra" kwargs] call unfolding untouched_def by (metis snd_conv)
  then have "s' \<noteq> s \<Longrightarrow> cap_tags cap = [''mutating''] \<and> \<not> is_read_scope (cap_required_scope cap)"
    using w d(5) \<open>cap_name cap = name\<close> by (auto simp: wired_def)
  ultimately show ?thesis using d resolve_injections_names [OF d(6)] f(1) by auto
qed

section \<open>The table and the functions agree\<close>

text \<open>What a strict model accepts: every field, in the order of the model, with a value of its type.\<close>

fun has_type :: "param_type \<Rightarrow> json \<Rightarrow> bool" where
  "has_type PStr j = (case j of JStr _ \<Rightarrow> True | _ \<Rightarrow> False)"
| "has_type PInt j = (case j of JInt _ \<Rightarrow> True | _ \<Rightarrow> False)"
| "has_type PBool j = (case j of JBool _ \<Rightarrow> True | _ \<Rightarrow> False)"
| "has_type PDict j = (case j of JObj _ \<Rightarrow> True | _ \<Rightarrow> False)"
| "has_type (PList t) j = (case j of JArr xs \<Rightarrow> list_all (has_type t) xs | _ \<Rightarrow> False)"
| "has_type (POpt t) j = (j = JNull \<or> has_type t j)"

definition strict_dump :: "params_model \<Rightarrow> jobj \<Rightarrow> bool" where
  "strict_dump m d = list_all2 (\<lambda>f (k, v). k = p_name f \<and> has_type (p_type f) v) m d"

lemma strict_dump_Cons: "strict_dump (f # m) d \<longleftrightarrow> (\<exists>v rest. d = (p_name f, v) # rest \<and> has_type (p_type f) v \<and> strict_dump m rest)"
  by (auto simp: strict_dump_def list_all2_Cons1)

lemma prepare_kwarg_key:
  "prepare_kwarg env m (p_name f) v = Inr (k, a) \<Longrightarrow> has_type (p_type f) v \<Longrightarrow> p_name f = ''filter'' \<longrightarrow> p_type f = PDict \<Longrightarrow> k = keyword f"
  by (cases v) (auto simp: prepare_kwarg_def keyword_def opt_result_def split: if_splits option.splits)

lemma prepare_loop_keys:
  "prepare_loop env m0 d kwargs = Inr kw \<Longrightarrow> strict_dump m d \<Longrightarrow> list_all (\<lambda>p. p_name p = ''filter'' \<longrightarrow> p_type p = PDict) m \<Longrightarrow>
   set (dict_keys kw) = set (dict_keys kwargs) \<union> keyword ` set m"
proof (induction m arbitrary: d kwargs)
  case (Cons f m)
  obtain v rest where d: "d = (p_name f, v) # rest" "has_type (p_type f) v" "strict_dump m rest"
    using Cons.prems(2) by (auto simp: strict_dump_Cons)
  obtain k a where k: "prepare_kwarg env m0 (p_name f) v = Inr (k, a)" "prepare_loop env m0 rest (dict_set k a kwargs) = Inr kw"
    using Cons.prems(1) d(1) by (auto simp: bind_res_def split: sum.splits)
  have "k = keyword f" using prepare_kwarg_key [OF k(1) d(2)] Cons.prems(3) by simp
  then show ?case using Cons.IH [OF k(2) d(3)] Cons.prems(3) by (auto simp: dict_keys_set)
qed (auto simp: strict_dump_def)

lemma resolve_tokens_caller:
  "resolve_tokens ctx injects s toks = Inr infra \<Longrightarrow>
   (find_caller infra \<noteq> None \<longleftrightarrow> ''caller_principal'' \<in> set injects \<inter> set toks) \<and>
   (\<forall>p. find_caller infra = Some p \<longrightarrow> resolve_caller_principal_arg ctx s = Inr p)"
proof (induction toks arbitrary: infra)
  case (Cons t toks)
  have field: "context_field ctx t = Some x \<Longrightarrow> find_caller (x # xs) = find_caller xs" for x xs
    by (auto simp: context_field_def split: if_splits)
  show ?case using Cons
    by (auto simp: bind_res_def map_sum_Inr field split: if_splits option.splits sum.splits)
qed simp

lemma resolve_injections_caller:
  "resolve_injections ctx injects s = Inr infra \<Longrightarrow>
   (find_caller infra \<noteq> None \<longleftrightarrow> ''caller_principal'' \<in> set injects) \<and>
   (\<forall>p. find_caller infra = Some p \<longrightarrow> resolve_caller_principal_arg ctx s = Inr p)"
proof -
  assume "resolve_injections ctx injects s = Inr infra"
  then have "resolve_tokens ctx injects s INJECT_ORDER = Inr infra"
    by (auto simp: resolve_injections_def bind_res_def split: sum.splits if_splits)
  moreover have "''caller_principal'' \<in> set INJECT_ORDER" by (simp add: INJECT_ORDER_def)
  ultimately show ?thesis using resolve_tokens_caller by blast
qed

text \<open>
  C27. The table of capabilities agrees with the functions behind it: for every registered capability, whose arguments passed a strict
  model and whose dependencies were resolved, the dispatcher finds a function whose positional parameters are exactly the injected
  dependencies in their order and whose keyword parameters take the prepared arguments, so the call reaches the body; and the caller's
  principal is passed exactly when the capability declares it.
\<close>

theorem capabilities_wired:
  assumes "get_capability name = Some cap" "strict_dump (cap_params_model cap) validated"
    "prepare_kwargs env (cap_params_model cap) validated = Inr kwargs" "resolve_injections ctx (cap_injects cap) s = Inr infra"
  shows "\<exists>f. get_capability_fn name = Inr f \<and>
    call_service env f infra kwargs s = service_body env f (find_caller infra) (find_kinds infra) kwargs s \<and>
    (find_caller infra \<noteq> None \<longleftrightarrow> ''caller_principal'' \<in> set (cap_injects cap))"
proof -
  have "cap_name cap = name" "wired cap" using assms(1) all_wired by (auto simp: get_capability_iff)
  then obtain f where f: "dict_get FN_MAP name = Some f" "filter (\<lambda>t. t \<in> set (cap_injects cap)) INJECT_ORDER = fst (signature f)"
      "kwargs_fit (snd (signature f)) (map keyword (cap_params_model cap))"
      "list_all (\<lambda>p. p_name p = ''filter'' \<longrightarrow> p_type p = PDict) (cap_params_model cap)"
    by (auto simp: wired_def split: option.splits)
  have "set (dict_keys kwargs) = set (map keyword (cap_params_model cap))"
    using prepare_loop_keys [OF assms(3) [unfolded prepare_kwargs_def] assms(2) f(4)] by (simp add: dict_keys_def)
  then have "kwargs_fit (snd (signature f)) (dict_keys kwargs)" using f(3) by (simp add: kwargs_fit_def)
  then show ?thesis
    using f(1,2) resolve_injections_names [OF assms(4)] resolve_injections_caller [OF assms(4)]
    by (auto simp: get_capability_fn_def call_service_def)
qed

section \<open>Attribution and partial effects\<close>

lemma arg_Inr: "arg f kw k g s = (Inr a, s') \<Longrightarrow> \<exists>x. g x s = (Inr a, s')"
  by (auto simp: arg_def split: option.splits)

lemma as_caller_Inr: "as_caller who g s = (Inr a, s') \<Longrightarrow> \<exists>p. who = Some p \<and> g p s = (Inr a, s')"
  by (auto simp: as_caller_def split: option.splits)

lemma answering_Inr: "answering h g s = (Inr a, s') \<Longrightarrow> \<exists>x. g s = (Inr x, s') \<and> a = h x"
  by (auto simp: answering_def map_sum_Inr split: prod.splits)

definition resolution_row :: "uuid \<Rightarrow> inbox_row \<Rightarrow> inbox_row \<Rightarrow> bool" where
  "resolution_row resolver old item =
     (in_status old = ''pending'' \<and> in_status item \<in> {''answered'', ''skipped'', ''rejected''} \<and> in_resolved_by item = Some resolver \<and>
      in_id item = in_id old \<and> in_run_id item = in_run_id old \<and> in_question item = in_question old)"

definition resolved_item :: "uuid \<Rightarrow> services \<Rightarrow> inbox_row \<Rightarrow> services \<Rightarrow> bool" where
  "resolved_item resolver s item s' =
     (\<exists>i old. read_inbox_item i (sv_trace s) = Some old \<and> resolution_row resolver old item \<and>
        s' = s\<lparr>sv_trace := sv_trace s\<lparr>db_inbox_items := dict_set i item (db_inbox_items (sv_trace s))\<rparr>\<rparr>)"

lemma then_get_item_Inr:
  "then_get_item i r s = (Inr item, s') \<Longrightarrow>
   \<exists>db. r = Inr db \<and> s' = s\<lparr>sv_trace := db\<rparr> \<and> dict_get (db_inbox_items db) i = Some item"
  by (auto simp: then_get_item_def get_inbox_item_def read_inbox_item_def split: sum.splits option.splits)

lemma resolved_itemI:
  "dict_get (db_inbox_items (sv_trace s)) i = Some old \<Longrightarrow> resolution_row r old item \<Longrightarrow>
   resolved_item r s item (s\<lparr>sv_trace := sv_trace s\<lparr>db_inbox_items := dict_set i item (db_inbox_items (sv_trace s))\<rparr>\<rparr>)"
  by (auto simp: resolved_item_def read_inbox_item_def)

lemma respond_resolves: "respond_to_inbox env p i a s = (Inr item, s') \<Longrightarrow> resolved_item (pr_id p) s item s'"
  by (auto simp: respond_to_inbox_def answer_inbox_item_def resolution_row_def intro!: resolved_itemI
      dest!: then_get_item_Inr split: option.splits if_splits)

lemma skip_resolves: "skip_item p i s = (Inr item, s') \<Longrightarrow> resolved_item (pr_id p) s item s'"
  by (auto simp: skip_item_def skip_inbox_item_def resolution_row_def intro!: resolved_itemI
      dest!: then_get_item_Inr split: option.splits if_splits)

lemma reject_resolves: "reject_item p i r s = (Inr item, s') \<Longrightarrow> resolved_item (pr_id p) s item s'"
  by (auto simp: reject_item_def reject_inbox_item_def resolution_row_def intro!: resolved_itemI
      dest!: then_get_item_Inr split: option.splits if_splits)

lemma inbox_fns:
  "dict_get FN_MAP ''respond_to_inbox'' = Some RespondToInboxFn" "dict_get FN_MAP ''skip_inbox_item'' = Some SkipInboxItemFn"
  "dict_get FN_MAP ''reject_inbox_item'' = Some RejectInboxItemFn"
  by code_simp+

text \<open>
  C26. The answer of a question is attributed to who gave it: when a call of one of the three capabilities that resolve an inbox item
  answers, the item was pending, it is now answered, skipped or rejected, it names as its resolver the principal of the authenticated
  caller, and no other row of any store has changed.
\<close>

theorem inbox_resolutions_attributed:
  assumes "dispatch env ctx name raw_args s = (Inr a, s')" "name \<in> {''respond_to_inbox'', ''skip_inbox_item'', ''reject_inbox_item''}"
  shows "\<exists>ax p item. dc_auth_context ctx = Some ax \<and> resolve_caller_principal ax (sv_principals s) = Inr p \<and> a = AItem item \<and>
    resolved_item (pr_id p) s item s'"
proof -
  obtain cap ax validated kwargs f infra where d: "dc_auth_context ctx = Some ax" "dict_get FN_MAP name = Some f"
    "resolve_injections ctx (cap_injects cap) s = Inr infra"
    and call: "service_body env f (find_caller infra) (find_kinds infra) kwargs s = (Inr a, s')"
    using assms(1) by (elim dispatch_called) auto
  have "f \<in> {RespondToInboxFn, SkipInboxItemFn, RejectInboxItemFn}" using assms(2) d(2) inbox_fns by auto
  then obtain p item where p: "find_caller infra = Some p" "a = AItem item" "resolved_item (pr_id p) s item s'"
    using call by (auto simp: service_body_def dispatch_body_def trace_body_def
        dest!: arg_Inr as_caller_Inr answering_Inr respond_resolves skip_resolves reject_resolves)
  have "resolve_caller_principal_arg ctx s = Inr p" using resolve_injections_caller [OF d(3)] p(1) by simp
  then show ?thesis using p d(1) by (auto simp: resolve_caller_principal_arg_def split: if_splits)
qed

lemma mint_again:
  assumes "mint_principal i now kind ref name ps = (p, ps1)"
  shows "mint_principal i' now' kind ref name' ps1 = (p, ps1)"
proof (cases "find_by_ref kind ref ps")
  case None
  then have p: "ps1 = dict_set i p ps" "ref_of p = (kind, ref)" using assms by (auto simp: mint_principal_def Let_def ref_of_def)
  have in1: "q \<in> set (dict_values ps1) \<Longrightarrow> q = p \<or> q \<in> set (dict_values ps)" for q
    unfolding p(1) using dict_set_entries [of i p ps] by (auto simp: dict_values_def)
  have "p \<in> set (dict_values ps1)" unfolding p(1) by (rule dict_get_values [of _ i]) simp
  then obtain q where q: "find_by_ref kind ref ps1 = Some q"
    using p(2) find_by_ref_None [of kind ref ps1] by (cases "find_by_ref kind ref ps1") force+
  then have "q = p" using find_by_ref_Some [OF q] in1 None by (force simp: find_by_ref_None)
  then show ?thesis using q by (simp add: mint_principal_def)
qed (use assms in \<open>auto simp: mint_principal_def\<close>)

definition self_filter :: "principal \<Rightarrow> string list \<Rightarrow> filter_predicate" where
  "self_filter p event_types =
     \<lparr>fp_event_types = Some event_types, fp_sources = None, fp_principal_id = Some (pr_id p), fp_data_predicates = None\<rparr>"

definition self_subscription :: "service_env \<Rightarrow> principal \<Rightarrow> string list \<Rightarrow> nat \<Rightarrow> subscription" where
  "self_subscription env p event_types t =
     \<lparr>sub_id = se_ids env t, sub_filter = self_filter p event_types, sub_enabled = True, sub_storage = ''persistent'',
      sub_principal_id = pr_id p, sub_created_at = se_clock env t\<rparr>"

lemma self_subscription_stored:
  "dd_subscriptions (sv_dispatch (create_self_subscription env p ts s)) =
     dict_set (se_ids env (sv_tick s)) (self_subscription env p ts (sv_tick s)) (dd_subscriptions (sv_dispatch s))"
  "sv_principals (create_self_subscription env p ts s) = sv_principals s"
  "sv_tick (create_self_subscription env p ts s) = Suc (Suc (sv_tick s))"
  by (simp_all add: create_self_subscription_def store_subscription_def create_subscription_def create_action_def self_subscription_def
      self_filter_def Let_def)

text \<open>
  Creating a principal is idempotent for the principal and not for its subscription: repeating a call that succeeded returns the same
  principal and leaves the principals as they are, but it adds a second enabled self-subscription with the same filter, so every event of
  the principal is delivered to it once more for each repetition.
\<close>

theorem create_principal_retry:
  assumes "create_principal env kinds kind ref name (Some ts) s = (Inr p, s1)" "inj (se_ids env)"
    "\<forall>n \<ge> sv_tick s. dict_get (dd_subscriptions (sv_dispatch s)) (se_ids env n) = None"
  shows "\<exists>s2 sub1 sub2. create_principal env kinds kind ref name (Some ts) s1 = (Inr p, s2) \<and> sv_principals s2 = sv_principals s1 \<and>
    list_subscriptions True (Some (pr_id p)) (sv_dispatch s2) = list_subscriptions True (Some (pr_id p)) (sv_dispatch s) @ [sub1, sub2] \<and>
    sub_id sub1 \<noteq> sub_id sub2 \<and> sub_filter sub1 = self_filter p ts \<and> sub_filter sub2 = self_filter p ts"
proof -
  let ?t = "sv_tick s"
  let ?mint = "\<lambda>s. mint_principal (se_ids env (sv_tick s)) (se_clock env (sv_tick s)) kind ref name (sv_principals s)"
  obtain ps where ok: "kind \<noteq> KIND_SYSTEM" "validate_kind kinds kind = Inr ()" "kind \<notin> set NO_SELF_SUBSCRIPTION_KINDS" and m: "?mint s = (p, ps)"
    and s1: "s1 = create_self_subscription env p ts (s\<lparr>sv_principals := ps, sv_tick := Suc ?t\<rparr>)"
    using assms(1) by (auto simp: create_principal_def Let_def validate_kind_def split: if_splits sum.splits prod.splits)
  let ?subs = "dd_subscriptions (sv_dispatch s)" and ?a = "self_subscription env p ts (Suc ?t)" and ?b = "self_subscription env p ts (4 + ?t)"
  have one: "sv_principals s1 = ps" "sv_tick s1 = ?t + 3" "dd_subscriptions (sv_dispatch s1) = ?subs @ [(se_ids env (Suc ?t), ?a)]"
    unfolding s1 using assms(3) by (simp_all add: self_subscription_stored dict_set_new)
  define s2 where "s2 = create_self_subscription env p ts (s1\<lparr>sv_principals := ps, sv_tick := Suc (sv_tick s1)\<rparr>)"
  have "?mint s1 = (p, ps)" using mint_again [OF m] one(1) by simp
  then have again: "create_principal env kinds kind ref name (Some ts) s1 = (Inr p, s2)"
    using ok by (simp add: create_principal_def s2_def)
  have fresh: "dict_get (?subs @ [(se_ids env (Suc ?t), ?a)]) (se_ids env (4 + ?t)) = None"
    using assms(2,3) by (auto simp: dict_get_def map_add_def inj_eq split: option.splits)
  have "dd_subscriptions (sv_dispatch s2) = ?subs @ [(se_ids env (Suc ?t), ?a), (se_ids env (4 + ?t), ?b)]"
    unfolding s2_def using one fresh by (simp add: self_subscription_stored dict_set_new)
  then have "list_subscriptions True (Some (pr_id p)) (sv_dispatch s2) = list_subscriptions True (Some (pr_id p)) (sv_dispatch s) @ [?a, ?b]"
    by (simp add: list_subscriptions_def dict_values_def self_subscription_def)
  moreover have "sv_principals s2 = sv_principals s1" by (simp add: s2_def self_subscription_stored one(1))
  ultimately show ?thesis using again assms(2) by (force simp: self_subscription_def inj_eq)
qed

lemma create_actions_frame:
  "create_actions env now sub n actions s = (r, s') \<Longrightarrow> dd_subscriptions (sv_dispatch s') = dd_subscriptions (sv_dispatch s)"
  by (induction env now sub n actions s rule: create_actions.induct)
    (auto simp: Let_def create_action_def split: sum.splits)

text \<open>A subscription whose actions are refused stays, enabled, without them.\<close>

theorem failed_subscribe_stays:
  assumes "subscribe env caller filter_pred actions storage s = (Inl e, s')"
  shows "\<exists>sub. get_subscription (sub_id sub) (sv_dispatch s') = Some sub \<and> sub_enabled sub \<and> sub_filter sub = filter_pred \<and>
    sub_principal_id sub = pr_id caller \<and> sub_id sub = se_ids env (sv_tick s)"
proof -
  obtain sub s1 where one: "store_subscription env filter_pred storage (pr_id caller) s = (sub, s1)"
    and two: "create_actions env (se_clock env (sv_tick s)) sub 0 actions s1 = (Inl e, s')"
    using assms by (auto simp: subscribe_def split: prod.splits sum.splits)
  show ?thesis
    using create_actions_frame [OF two] one
    by (intro exI [of _ "\<lparr>sub_id = se_ids env (sv_tick s), sub_filter = filter_pred, sub_enabled = True, sub_storage = storage,
          sub_principal_id = pr_id caller, sub_created_at = se_clock env (sv_tick s)\<rparr>"])
      (auto simp: store_subscription_def create_subscription_def get_subscription_def Let_def)
qed

text \<open>A source with a slug in use is refused after its principal was minted; the sweep removes principals of runs only.\<close>

theorem refused_source_leaves_principal:
  assumes "create_source_service env caller slug name None config s = (Inl e, s')"
    "find_by_ref KIND_SOURCE (se_ids env (sv_tick s)) (sv_principals s) = None"
  shows "\<exists>p. get_principal_by_ref KIND_SOURCE (se_ids env (sv_tick s)) (sv_principals s') = Some p \<and> sv_dispatch s' = sv_dispatch s \<and>
    \<not> orphaned_run_principal run_ids cutoff p"
proof -
  obtain p ps where m: "mint_principal (se_ids env (Suc (sv_tick s))) (se_clock env (sv_tick s)) KIND_SOURCE (se_ids env (sv_tick s)) (Some slug) (sv_principals s) = (p, ps)"
    by fastforce
  have s': "sv_principals s' = ps" "sv_dispatch s' = sv_dispatch s"
    using assms(1) m by (auto simp: create_source_service_def Let_def split: sum.splits prod.splits)
  obtain q where q: "find_by_ref KIND_SOURCE (se_ids env (sv_tick s)) ps = Some q"
    using mint_again [OF m, of "se_ids env 0" 0 None] m assms(2) by (auto simp: mint_principal_def Let_def split: option.splits)
  then have "pr_kind q = KIND_SOURCE" using find_by_ref_Some [OF q] by (simp add: ref_of_def)
  then have "\<not> orphaned_run_principal run_ids cutoff q" by (simp add: orphaned_run_principal_def KIND_RUN_def KIND_SOURCE_def)
  then show ?thesis using q s' by (simp add: get_principal_by_ref_def)
qed

section \<open>An example\<close>

definition desk :: service_env where
  "desk = \<lparr>se_validate = (\<lambda>m raw. if map fst raw = map p_name m then Some raw else None), se_filter = (\<lambda>d. None), se_action = (\<lambda>m j. None),
     se_uuid = (\<lambda>text. if text = ''nine'' then Some 9 else None), se_fromisoformat = (\<lambda>text. None), se_ids = (\<lambda>n. 100 + n),
     se_clock = (\<lambda>n. 1000 + int n), se_start_run = (\<lambda>p i c s. (Inl RuntimeError, s)), se_problems = (\<lambda>k p. [])\<rparr>"

definition clerk :: principal where
  "clerk = \<lparr>pr_id = 7, pr_kind = KIND_CONSUMER, pr_external_ref = 5, pr_display_name = None, pr_created_at = 0\<rparr>"

definition clerk_auth :: auth_context where
  "clerk_auth = \<lparr>ax_id = 1, ax_consumer_id = Some 5, ax_scopes = [''inbox:respond''], ax_trust_tier = VERIFIED,
     ax_authenticated_via = ''api_key'', ax_issued_at = 0, ax_expires_at = None\<rparr>"

definition desk_context :: dispatch_context where
  "desk_context = \<lparr>dc_pool = True, dc_dispatch_backend = False, dc_principal_storage = True, dc_kind_registry = None,
     dc_notification_port = False, dc_get_worker_bridge = False, dc_run_manager = False, dc_auth_context = Some clerk_auth\<rparr>"

definition open_question :: inbox_row where
  "open_question = \<lparr>in_id = 9, in_run_id = 1, in_status = ''pending'', in_decision_type = ''choice'', in_question = ''Which?'', in_options = [],
     in_assumed_option = None, in_work_proceeding = None, in_contradiction_impact = None, in_tags = [], in_deadline = None,
     in_answer = None, in_answer_event = None, in_rejection_reason = None, in_answered_at = None, in_resolved_by = None, in_created_at = 0\<rparr>"

definition desk_services :: services where
  "desk_services = \<lparr>sv_trace = empty_db\<lparr>db_inbox_items := [(9, open_question)]\<rparr>, sv_dispatch = empty_dispatch, sv_principals = [(7, clerk)],
     sv_deliveries = [], sv_auth = empty_auth, sv_control = [], sv_tick = 0\<rparr>"

definition reply :: jobj where
  "reply = [(''item_id'', JStr ''nine''), (''answer'', JStr ''This one'')]"

lemma desk_answers:
  "case dispatch desk desk_context ''respond_to_inbox'' reply desk_services of
     (Inr (AItem item), s') \<Rightarrow> in_resolved_by item = Some 7 \<and> read_inbox_item 9 (sv_trace s') = Some item | _ \<Rightarrow> False"
  by code_simp

lemma desk_answered:
  obtains item s' where "dispatch desk desk_context ''respond_to_inbox'' reply desk_services = (Inr (AItem item), s')" "s' \<noteq> desk_services"
proof -
  obtain item s' where d: "dispatch desk desk_context ''respond_to_inbox'' reply desk_services = (Inr (AItem item), s')"
    and r: "in_resolved_by item = Some 7" "read_inbox_item 9 (sv_trace s') = Some item"
    using desk_answers by (auto split: prod.splits sum.splits answer.splits)
  have "s' \<noteq> desk_services" using r by (auto simp: desk_services_def read_inbox_item_def open_question_def dict_get_def)
  then show ?thesis using d that by blast
qed

theorem dispatch_guarded_witness:
  "\<exists>cap ax. get_capability ''respond_to_inbox'' = Some cap \<and> dc_auth_context desk_context = Some ax \<and>
     cap_required_scope cap \<in> set (ax_scopes ax) \<and> cap_tags cap = [''mutating'']"
proof -
  obtain item s' where d: "dispatch desk desk_context ''respond_to_inbox'' reply desk_services = (Inr (AItem item), s')" "s' \<noteq> desk_services"
    by (rule desk_answered)
  show ?thesis using dispatch_guarded [OF d(1)] d(2) by auto
qed

theorem inbox_resolutions_attributed_witness:
  "\<exists>ax p item s'. dc_auth_context desk_context = Some ax \<and> resolve_caller_principal ax (sv_principals desk_services) = Inr p \<and>
     resolved_item (pr_id p) desk_services item s'"
proof -
  obtain item s' where d: "dispatch desk desk_context ''respond_to_inbox'' reply desk_services = (Inr (AItem item), s')"
    by (rule desk_answered)
  show ?thesis using inbox_resolutions_attributed [OF d] by auto
qed

lemma inbox_capability: "get_capability ''respond_to_inbox'' = Some (Capability ''respond_to_inbox'' ''inbox'' ''Answer an inbox item''
    RespondToInboxParams [''mutating''] SCOPE_INBOX_RESPOND INJECT_POOL_AND_CALLER)"
  by (simp add: get_capability_iff CAPABILITIES_def inbox_capabilities_def)

theorem capabilities_wired_witness:
  "\<exists>f. get_capability_fn ''respond_to_inbox'' = Inr f \<and>
     call_service desk f [Port ''pool'', Caller clerk] [(''item_id'', KUuid 9), (''answer'', KJson (JStr ''This one''))] desk_services =
     service_body desk f (Some clerk) [] [(''item_id'', KUuid 9), (''answer'', KJson (JStr ''This one''))] desk_services"
proof -
  have "strict_dump RespondToInboxParams reply" by code_simp
  moreover have "prepare_kwargs desk RespondToInboxParams reply = Inr [(''item_id'', KUuid 9), (''answer'', KJson (JStr ''This one''))]"
    by code_simp
  moreover have "resolve_injections desk_context INJECT_POOL_AND_CALLER desk_services = Inr [Port ''pool'', Caller clerk]" by code_simp
  ultimately show ?thesis
    using capabilities_wired [OF inbox_capability, of reply desk _ desk_context desk_services] by fastforce
qed

theorem create_principal_retry_witness:
  "\<exists>s2. create_principal desk [''team''] ''team'' 3 None (Some [''done''])
      (snd (create_principal desk [''team''] ''team'' 3 None (Some [''done'']) desk_services)) = (Inr (fst (mint_principal 100 1000 ''team'' 3 None [(7, clerk)])), s2) \<and>
     length (list_subscriptions True (Some 100) (sv_dispatch s2)) = 2"
proof -
  obtain s1 where "create_principal desk [''team''] ''team'' 3 None (Some [''done'']) desk_services
      = (Inr (fst (mint_principal 100 1000 ''team'' 3 None [(7, clerk)])), s1)"
    by (simp add: create_principal_def validate_kind_def KIND_SYSTEM_def NO_SELF_SUBSCRIPTION_KINDS_def KIND_RUN_def KIND_SOURCE_def
        desk_def desk_services_def case_prod_beta)
  moreover have "inj (se_ids desk)" "\<forall>n \<ge> sv_tick desk_services. dict_get (dd_subscriptions (sv_dispatch desk_services)) (se_ids desk n) = None"
    by (simp_all add: desk_def desk_services_def empty_dispatch_def inj_def)
  ultimately obtain s2 sub1 sub2 where
    "create_principal desk [''team''] ''team'' 3 None (Some [''done'']) s1 = (Inr (fst (mint_principal 100 1000 ''team'' 3 None [(7, clerk)])), s2)"
    "list_subscriptions True (Some (pr_id (fst (mint_principal 100 1000 ''team'' 3 None [(7, clerk)])))) (sv_dispatch s2) =
       list_subscriptions True (Some (pr_id (fst (mint_principal 100 1000 ''team'' 3 None [(7, clerk)])))) (sv_dispatch desk_services) @ [sub1, sub2]"
    using create_principal_retry [of desk "[''team'']" "''team''" 3 None "[''done'']" desk_services] by metis
  moreover have "pr_id (fst (mint_principal 100 1000 ''team'' 3 None [(7, clerk)])) = 100"
    by (simp add: mint_principal_def find_by_ref_def dict_values_def clerk_def KIND_CONSUMER_def Let_def)
  moreover have "list_subscriptions True (Some 100) (sv_dispatch desk_services) = []"
    by (simp add: desk_services_def empty_dispatch_def list_subscriptions_def dict_values_def)
  ultimately show ?thesis using \<open>create_principal desk [''team''] ''team'' 3 None (Some [''done'']) desk_services = _\<close> by simp
qed

end
