(* ===== verification/Runs.thy ===== *)
theory Runs
  imports Services Overseer Execution Transport Tool_Registry
begin

text \<open>
  The start of a run (\<open>services/_run.py\<close>): the snapshot of its configuration with the credentials redacted, the transports and the tools it is
  given, its transitions around the workflow and its registration (\<open>services/_run_manager.py\<close>, \<open>services/_providers.py\<close>); the callbacks that
  refresh a scheduler (\<open>services/_injection.py\<close>, \<open>overseer/_learning.py\<close>) and the actions of subscriptions that start runs or fire events
  (\<open>services/_actions.py\<close>, \<open>services/_dispatch_worker.py\<close>).
\<close>

section \<open>Strings of a URL\<close>

text \<open>\<open>s.partition(c)\<close> and \<open>s.rpartition(c)\<close>, with whether the separator was found.\<close>

definition partition_at :: "char \<Rightarrow> string \<Rightarrow> string \<times> bool \<times> string" where
  "partition_at c s = (takeWhile (\<lambda>x. x \<noteq> c) s, c \<in> set s, drop 1 (dropWhile (\<lambda>x. x \<noteq> c) s))"

definition rpartition_at :: "char \<Rightarrow> string \<Rightarrow> string \<times> bool \<times> string" where
  "rpartition_at c s =
     (if c \<in> set s then (rev (drop 1 (dropWhile (\<lambda>x. x \<noteq> c) (rev s))), True, rev (takeWhile (\<lambda>x. x \<noteq> c) (rev s)))
      else ([], False, s))"

definition hex_value :: "char \<Rightarrow> nat option" where
  "hex_value c =
     (let n = of_char c in
      if 48 \<le> n \<and> n \<le> 57 then Some (n - 48) else if 65 \<le> n \<and> n \<le> 70 then Some (n - 55)
      else if 97 \<le> n \<and> n \<le> 102 then Some (n - 87) else None)"

text \<open>\<open>urllib.parse.unquote\<close> up to the decoding of the bytes beyond ASCII.\<close>

fun unquote :: "string \<Rightarrow> string" where
  "unquote [] = []"
| "unquote (c # s) =
     (if c = CHR 0x25
      then (case s of
              a # b # r \<Rightarrow>
                (case (hex_value a, hex_value b) of
                   (Some x, Some y) \<Rightarrow> char_of (16 * x + y) # unquote r
                 | _ \<Rightarrow> c # unquote s)
            | _ \<Rightarrow> c # unquote s)
      else c # unquote s)"

record split_url =
  su_scheme :: string
  su_netloc :: string
  su_path :: string
  su_query :: string
  su_fragment :: string

definition letter :: "char \<Rightarrow> bool" where
  "letter c = (let n = of_char c :: nat in 65 \<le> n \<and> n \<le> 90 \<or> 97 \<le> n \<and> n \<le> 122)"

definition scheme_char :: "char \<Rightarrow> bool" where
  "scheme_char c = (letter c \<or> (let n = of_char c :: nat in 48 \<le> n \<and> n \<le> 57) \<or> c \<in> set ''+-.'')"

definition split_scheme :: "string \<Rightarrow> string \<times> string" where
  "split_scheme url =
     (case partition_at CHR '':'' url of
        (pre, found, post) \<Rightarrow>
          if found \<and> pre \<noteq> [] \<and> letter (hd pre) \<and> list_all scheme_char pre then (str_lower pre, post) else ([], url))"

definition split_netloc :: "string \<Rightarrow> string \<times> string" where
  "split_netloc url =
     (if startswith url ''//''
      then (takeWhile (\<lambda>c. c \<notin> set ''/?#'') (drop 2 url), dropWhile (\<lambda>c. c \<notin> set ''/?#'') (drop 2 url))
      else ([], url))"

text \<open>
  \<open>urlsplit\<close>, without the checks of the characters of a host, which only raise \<open>ValueError\<close>, and \<open>urlunsplit\<close>.
\<close>

definition url_text :: "string \<Rightarrow> string" where
  "url_text url = filter (\<lambda>c. c \<notin> {CHR 0x09, CHR 0x0A, CHR 0x0D}) (dropWhile (\<lambda>c. (of_char c :: nat) \<le> 32) url)"

definition urlsplit :: "string \<Rightarrow> split_url result" where
  "urlsplit url =
     (let (scheme, rest) = split_scheme (url_text url);
          (netloc, rest1) = split_netloc rest;
          (rest2, _, fragment) = partition_at CHR ''#'' rest1;
          (path, _, query) = partition_at CHR ''?'' rest2
      in if (CHR ''['' \<in> set netloc) \<noteq> (CHR '']'' \<in> set netloc) then Inl ValueError
         else Inr \<lparr>su_scheme = scheme, su_netloc = netloc, su_path = path, su_query = query, su_fragment = fragment\<rparr>)"

definition uses_netloc :: "string list" where
  "uses_netloc =
     [[], ''ftp'', ''http'', ''gopher'', ''nntp'', ''telnet'', ''imap'', ''wais'', ''file'', ''mms'', ''https'', ''shttp'', ''snews'',
      ''prospero'', ''rtsp'', ''rtsps'', ''rtspu'', ''rsync'', ''svn'', ''svn+ssh'', ''sftp'', ''nfs'', ''git'', ''git+ssh'', ''ws'', ''wss'',
      ''itms-services'']"

definition urlunsplit :: "split_url \<Rightarrow> string" where
  "urlunsplit u =
     (let path = su_path u;
          url = (if su_netloc u \<noteq> [] then ''//'' @ su_netloc u @ (if path \<noteq> [] \<and> take 1 path \<noteq> ''/'' then ''/'' else []) @ path
                 else if startswith path ''//'' \<or>
                         su_scheme u \<noteq> [] \<and> su_scheme u \<in> set uses_netloc \<and> (path = [] \<or> take 1 path = ''/'')
                      then ''//'' @ path
                 else path)
      in (if su_scheme u \<noteq> [] then su_scheme u @ '':'' else []) @ url @ (if su_query u \<noteq> [] then ''?'' @ su_query u else []) @
         (if su_fragment u \<noteq> [] then ''#'' @ su_fragment u else []))"

section \<open>Redaction\<close>

definition REDACTED :: string where
  "REDACTED = ''[REDACTED]''"

definition redact_netloc :: "string \<Rightarrow> string" where
  "redact_netloc netloc =
     (case rpartition_at CHR ''@'' netloc of
        (userinfo, sep, host_port) \<Rightarrow>
          if \<not> sep then netloc
          else (case partition_at CHR '':'' userinfo of
                  (user, colon, _) \<Rightarrow> if \<not> colon then netloc else user @ '':'' @ REDACTED @ ''@'' @ host_port))"

definition redact_part :: "string \<Rightarrow> string" where
  "redact_part part =
     (case partition_at CHR ''='' part of
        (key, eq, _) \<Rightarrow> if eq \<and> unquote key = ''password'' then key @ ''='' @ REDACTED else part)"

definition redact_query :: "string \<Rightarrow> string" where
  "redact_query query = (if query = [] then query else join ''&'' (map redact_part (split_on CHR ''&'' query)))"

definition redact_db_url :: "string \<Rightarrow> string result" where
  "redact_db_url db_url =
     bind_res (urlsplit db_url) (\<lambda>u.
       Inr (urlunsplit (u\<lparr>su_netloc := redact_netloc (su_netloc u), su_query := redact_query (su_query u)\<rparr>)))"

section \<open>The snapshot of a configuration\<close>

record run_config =
  rc_workflow_path :: string
  rc_agents_dir :: string
  rc_knowledge_dir :: string
  rc_categories_path :: string
  rc_read_root :: string
  rc_db_url :: string
  rc_provider_configs :: "(string, (string, string) dict) dict"
  rc_budget :: decimal
  rc_autonomy_level :: string
  rc_policy :: budget_policy
  rc_secrets_env :: "(string, string) dict option"
  rc_tools_dir :: "string option"
  rc_pricing :: "(string, token_rates) dict option"

fun policy_value :: "budget_policy \<Rightarrow> string" where
  "policy_value BLOCK_NEW = ''block_new''"
| "policy_value CANCEL_ALL = ''cancel_all''"
| "policy_value TIMEOUT_GRACE = ''timeout_grace''"
| "policy_value UNLIMITED = ''unlimited''"

definition rates_json :: "(decimal \<Rightarrow> string) \<Rightarrow> token_rates \<Rightarrow> json" where
  "rates_json dec r = JObj
     [(''input_per_million'', JStr (dec (input_per_million r))), (''output_per_million'', JStr (dec (output_per_million r))),
      (''cache_read_per_million'', JStr (dec (cache_read_per_million r))), (''cache_write_per_million'', JStr (dec (cache_write_per_million r))),
      (''reasoning_per_million'', JStr (dec (reasoning_per_million r)))]"

definition redact_provider :: "(string, string) dict \<Rightarrow> json" where
  "redact_provider provider = JObj (map (\<lambda>(key, v). (key, JStr (if key = ''api_key'' then REDACTED else v))) provider)"

definition opt_value :: "('a \<Rightarrow> json) \<Rightarrow> 'a option \<Rightarrow> json" where
  "opt_value f x = (case x of None \<Rightarrow> JNull | Some y \<Rightarrow> f y)"

text \<open>\<open>dec\<close> is the text of a \<open>Decimal\<close>.\<close>

definition serialize_config :: "(decimal \<Rightarrow> string) \<Rightarrow> run_config \<Rightarrow> jobj result" where
  "serialize_config dec cfg =
     bind_res (redact_db_url (rc_db_url cfg)) (\<lambda>db_url. Inr
       [(''workflow_path'', JStr (rc_workflow_path cfg)), (''agents_dir'', JStr (rc_agents_dir cfg)),
        (''knowledge_dir'', JStr (rc_knowledge_dir cfg)), (''categories_path'', JStr (rc_categories_path cfg)),
        (''read_root'', JStr (rc_read_root cfg)), (''db_url'', JStr db_url),
        (''provider_configs'', JObj (map (\<lambda>(name, provider). (name, redact_provider provider)) (rc_provider_configs cfg))),
        (''budget'', JStr (dec (rc_budget cfg))), (''autonomy_level'', JStr (rc_autonomy_level cfg)),
        (''budget_exhaustion_policy'', JStr (policy_value (rc_policy cfg))),
        (''secrets_env'', opt_value (\<lambda>m. JObj (map (\<lambda>(k, v). (k, JStr v)) m)) (rc_secrets_env cfg)),
        (''tools_dir'', opt_value JStr (rc_tools_dir cfg)),
        (''pricing'', opt_value (\<lambda>m. JObj (map (\<lambda>(k, r). (k, rates_json dec r)) m)) (rc_pricing cfg))])"

section \<open>Transports, secrets and tools of a run\<close>

text \<open>The fields of the provider classes; a constructor refuses other keys and reads a missing key of the API from the environment.\<close>

definition PROVIDER_TYPES :: "(string, string list \<times> string) dict" where
  "PROVIDER_TYPES =
     [(''anthropic'', ([''api_key'', ''base_url'', ''api_version'', ''max_tokens''], ''ANTHROPIC_API_KEY'')),
      (''google'', ([''api_key'', ''base_url''], ''GOOGLE_API_KEY'')),
      (''openai'', ([''api_key'', ''base_url''], ''OPENAI_API_KEY''))]"

definition DEFAULT_RETRY_POLICY :: retry_policy where
  "DEFAULT_RETRY_POLICY =
     \<lparr>rp_max_retries = 3, rp_backoff_base_seconds = 1, rp_backoff_max_seconds = 30, rp_jitter = True\<rparr>"

record built_transport =
  bt_type :: string
  bt_fields :: "(string, string) dict"
  bt_policy :: retry_policy

definition construct_provider :: "(string, string) dict \<Rightarrow> string list \<times> string \<Rightarrow> (string, string) dict \<Rightarrow> (string, string) dict result" where
  "construct_provider environ cls cfg =
     (if \<not> set (dict_keys cfg) \<subseteq> set (fst cls) then Inl TypeError
      else if dict_get cfg ''api_key'' \<noteq> None then Inr cfg
      else (case dict_get environ (snd cls) of None \<Rightarrow> Inl KeyError | Some key \<Rightarrow> Inr (dict_set ''api_key'' key cfg)))"

fun build_transports ::
  "(string, string) dict \<Rightarrow> (string, (string, string) dict) dict \<Rightarrow> (string, built_transport) dict \<Rightarrow> (string, built_transport) dict result" where
  "build_transports environ [] registry = Inr registry"
| "build_transports environ ((name, cfg) # rest) registry =
     (case dict_get cfg ''type'' of
        None \<Rightarrow> Inl ValueError
      | Some provider_type \<Rightarrow>
          (case dict_get PROVIDER_TYPES provider_type of
             None \<Rightarrow> Inl ValueError
           | Some cls \<Rightarrow>
               bind_res (construct_provider environ cls (dict_pop ''type'' cfg)) (\<lambda>fields.
                 build_transports environ rest
                   (dict_set name \<lparr>bt_type = provider_type, bt_fields = fields, bt_policy = DEFAULT_RETRY_POLICY\<rparr> registry))))"

definition build_transport_registry ::
  "(string, string) dict \<Rightarrow> (string, (string, string) dict) dict \<Rightarrow> (string, built_transport) dict result" where
  "build_transport_registry environ provider_configs = build_transports environ provider_configs []"

definition create_secret_registry :: "(string, string) dict \<Rightarrow> (string, string) dict \<Rightarrow> secret_registry result" where
  "create_secret_registry environ env_mapping =
     (if list_ex (\<lambda>(name, var). dict_get environ var = None) env_mapping then Inl KeyError
      else SecretRegistry (map (\<lambda>(name, var). (name, the (dict_get environ var))) env_mapping))"

datatype tool_execution = HttpExecution string | MontyExecution "string list" | CommandExecution

record data_tool =
  dt_name :: string
  dt_description :: string
  dt_namespace :: string
  dt_deferred :: bool
  dt_tags :: "string list option"
  dt_execution :: tool_execution

definition MUTATION_CAPABILITIES :: "string list" where
  "MUTATION_CAPABILITIES =
     [''write'', ''edit'', ''command'', ''delete'', ''move'', ''copy'', ''mkdir'', ''set_executable'', ''multi_edit'']"

definition user_tags :: "string list option \<Rightarrow> string list" where
  "user_tags tags = (case tags of None \<Rightarrow> [] | Some ts \<Rightarrow> ts)"

definition derive_tags :: "string list \<Rightarrow> string list option \<Rightarrow> string list" where
  "derive_tags capabilities tags =
     user_tags tags @ [if list_ex (\<lambda>cap. cap \<in> set MUTATION_CAPABILITIES) capabilities then ''mutation'' else ''readonly'']"

definition derived_tags :: "data_tool \<Rightarrow> string list" where
  "derived_tags defn = remdups (user_tags (dt_tags defn) @
     (case dt_execution defn of
        HttpExecution http_method \<Rightarrow> [if http_method \<in> {''GET'', ''HEAD''} then ''readonly'' else ''mutation'']
      | MontyExecution capabilities \<Rightarrow> derive_tags capabilities (dt_tags defn)
      | CommandExecution \<Rightarrow> [''mutation'']))"

text \<open>\<open>build\<close> is the builder of the type of the definition; the other fields of an entry keep their defaults.\<close>

definition load_custom_tools :: "(data_tool \<Rightarrow> tool_deps \<Rightarrow> tool) \<Rightarrow> data_tool list \<Rightarrow> tool_entry list" where
  "load_custom_tools build definitions =
     map (\<lambda>defn. \<lparr>te_name = dt_name defn, te_namespace = dt_namespace defn, te_tags = derived_tags defn, te_factory = build defn,
                  te_description = [], te_deferred = False, te_location = ANYWHERE, te_capabilities = []\<rparr>) definitions"

section \<open>Refreshing a scheduler\<close>

definition constraints_refresher :: "trace_db \<Rightarrow> uuid \<Rightarrow> (string \<times> string) list" where
  "constraints_refresher db run_id = map (\<lambda>c. (c_text c, c_tier c)) (read_constraints run_id True db)"

definition notepad_refresher :: "trace_db \<Rightarrow> uuid \<Rightarrow> notepad_row list" where
  "notepad_refresher db run_id = read_notepad run_id db"

text \<open>What \<open>git log -1\<close> says of a file: it fails or cannot be started, the file has no commit, or its last commit.\<close>

datatype git_answer = GitFails | NoCommit | CommittedAt time

record repo =
  rp_exists :: "string \<Rightarrow> bool"
  rp_git_log :: "string \<Rightarrow> git_answer"

fun check_staleness :: "repo \<Rightarrow> string list \<Rightarrow> time \<Rightarrow> bool" where
  "check_staleness r [] created_at = False"
| "check_staleness r (source_file # rest) created_at =
     (if \<not> rp_exists r source_file then True
      else (case rp_git_log r source_file of
              GitFails \<Rightarrow> False
            | NoCommit \<Rightarrow> check_staleness r rest created_at
            | CommittedAt git_date \<Rightarrow> if created_at < git_date then True else check_staleness r rest created_at))"

definition is_stale :: "repo \<Rightarrow> lesson_row \<Rightarrow> bool" where
  "is_stale r row = (case l_source_file row of None \<Rightarrow> False | Some f \<Rightarrow> check_staleness r [f] (l_created_at row))"

definition filter_stale_lessons :: "repo \<Rightarrow> lesson_row list \<Rightarrow> lesson_row list \<times> lesson_row list" where
  "filter_stale_lessons r lessons = (filter (\<lambda>l. \<not> is_stale r l) lessons, filter (is_stale r) lessons)"

definition lessons_refresher :: "repo \<Rightarrow> string list \<Rightarrow> trace_db \<Rightarrow> lesson list" where
  "lessons_refresher r relevance_tags db =
     (let (fresh, stale) = filter_stale_lessons r (query_relevant_lessons relevance_tags db)
      in map (\<lambda>l. \<lparr>ls_text = l_text l, ls_stale = False\<rparr>) fresh @ map (\<lambda>l. \<lparr>ls_text = l_text l, ls_stale = True\<rparr>) stale)"

section \<open>The run manager\<close>

text \<open>The schedulers of the active runs, each by its transport sinks and its overseer sinks.\<close>

record run_sinks =
  rk_transport :: "nat list"
  rk_overseer :: "nat list"

type_synonym run_manager = "(uuid, run_sinks) dict"

definition register_run :: "uuid \<Rightarrow> run_sinks \<Rightarrow> run_manager \<Rightarrow> run_manager" where
  "register_run run_id scheduler m = dict_set run_id scheduler m"

definition deregister_run :: "uuid \<Rightarrow> run_manager \<Rightarrow> run_manager" where
  "deregister_run run_id m = dict_pop run_id m"

definition subscribe_run :: "uuid \<Rightarrow> nat \<Rightarrow> nat \<Rightarrow> run_manager \<Rightarrow> run_manager option" where
  "subscribe_run run_id transport_sink overseer_sink m =
     (case dict_get m run_id of
        None \<Rightarrow> None
      | Some k \<Rightarrow> Some (dict_set run_id
          (k\<lparr>rk_transport := rk_transport k @ [transport_sink], rk_overseer := rk_overseer k @ [overseer_sink]\<rparr>) m))"

definition unsubscribe_run :: "nat \<Rightarrow> nat \<Rightarrow> run_sinks \<Rightarrow> run_sinks" where
  "unsubscribe_run transport_sink overseer_sink k =
     k\<lparr>rk_transport := remove1 transport_sink (rk_transport k), rk_overseer := remove1 overseer_sink (rk_overseer k)\<rparr>"

definition is_active :: "uuid \<Rightarrow> run_manager \<Rightarrow> bool" where
  "is_active run_id m = (run_id \<in> set (dict_keys m))"

definition active_run_ids :: "run_manager \<Rightarrow> uuid set" where
  "active_run_ids m = set (dict_keys m)"

section \<open>Starting a run\<close>

text \<open>
  What a run is started with: the text of a \<open>Decimal\<close>; \<open>re_prepare\<close>, the loading of agents, categories, transports, secrets and tools
  and the construction of the scheduler on them; the loaders of the workflow and of the knowledge directory; and whether there is no Overseer.
\<close>

record run_env =
  re_services :: service_env
  re_dec :: "decimal \<Rightarrow> string"
  re_prepare :: "run_config \<Rightarrow> uuid \<Rightarrow> trace_db \<Rightarrow> (config \<times> exec_env \<times> sched) result"
  re_load_workflow :: "string \<Rightarrow> workflow_config result"
  re_knowledge :: "string \<Rightarrow> knowledge_file list option"
  re_overseer :: "uuid \<Rightarrow> overseer_env"
  re_headless :: bool

definition ORPHAN_SWEEP_AGE :: time where
  "ORPHAN_SWEEP_AGE = 300"

text \<open>The workflow of a run on its scheduler; \<open>None\<close> when it does not return.\<close>

definition run_workflow :: "run_env \<Rightarrow> run_config \<Rightarrow> uuid \<Rightarrow> config \<times> exec_env \<times> sched \<Rightarrow> trace_db \<Rightarrow> (unit result \<times> trace_db) option" where
  "run_workflow re cfg run_id scheduler db =
     (case scheduler of (c, ev, sc) \<Rightarrow>
        (case re_load_workflow re (rc_workflow_path cfg) of
           Inl e \<Rightarrow> Some (Inl e, db)
         | Inr workflow \<Rightarrow>
             (case load_knowledge_files (re_overseer re run_id) (re_knowledge re (rc_knowledge_dir cfg)) \<lparr>os_db = db, os_tick = 0\<rparr> of
                (Inl e, os) \<Rightarrow> Some (Inl e, os_db os)
              | (Inr _, os) \<Rightarrow> map_option (\<lambda>(r, sc'). (r, s_db sc')) (execute_workflow c ev (re_headless re) workflow (sc\<lparr>s_db := os_db os\<rparr>)))))"

text \<open>The body of the \<open>try\<close> statement: the manager holds the run exactly while its workflow is executed.\<close>

definition try_run ::
  "run_env \<Rightarrow> run_config \<Rightarrow> uuid \<Rightarrow> uuid \<Rightarrow> services \<times> run_manager option \<Rightarrow> (unit result \<times> services \<times> run_manager option) option" where
  "try_run re cfg run_id principal_id st =
     (case st of (s, mgr) \<Rightarrow>
        (case transition_service (re_services re) run_id ''running'' principal_id s of
           (Inl e, s1) \<Rightarrow> Some (Inl e, s1, mgr)
         | (Inr _, s1) \<Rightarrow>
             (case re_prepare re cfg run_id (sv_trace s1) of
                Inl e \<Rightarrow> Some (Inl e, s1, mgr)
              | Inr scheduler \<Rightarrow>
                  (let mgr1 = map_option (register_run run_id \<lparr>rk_transport = [], rk_overseer = []\<rparr>) mgr;
                       mgr2 = map_option (deregister_run run_id) mgr1
                   in (case run_workflow re cfg run_id scheduler (sv_trace s1) of
                         None \<Rightarrow> None
                       | Some (Inl e, db) \<Rightarrow> Some (Inl e, s1\<lparr>sv_trace := db\<rparr>, mgr2)
                       | Some (Inr _, db) \<Rightarrow>
                           (case transition_service (re_services re) run_id ''completed'' principal_id (s1\<lparr>sv_trace := db\<rparr>) of
                              (r, s2) \<Rightarrow> Some (r, s2, mgr2)))))))"

definition begin_run ::
  "run_env \<Rightarrow> principal \<Rightarrow> string \<Rightarrow> run_config \<Rightarrow> services \<Rightarrow> (uuid \<times> uuid) result \<times> services" where
  "begin_run re caller intent cfg s =
     (let env = re_services re; t = sv_tick s; run_id = se_ids env t;
          (p, ps) = mint_principal (se_ids env (Suc t)) (se_clock env t) KIND_RUN run_id None (sv_principals s);
          s1 = s\<lparr>sv_principals := ps, sv_tick := Suc (Suc t)\<rparr>
      in (case bind_res (serialize_config (re_dec re) cfg) (\<lambda>snapshot.
                 create_run (se_clock env (Suc t)) intent snapshot (rc_autonomy_level cfg) run_id (pr_id caller) (sv_trace s1)) of
            Inl e \<Rightarrow> (Inl e, s1)
          | Inr (_, db) \<Rightarrow>
              (Inr (run_id, pr_id p),
               s1\<lparr>sv_trace := db,
                  sv_principals := snd (sweep_orphaned_run_principals (Some (dict_keys (db_runs db))) (se_clock env (Suc t)) ORPHAN_SWEEP_AGE ps)\<rparr>)))"

definition start_run ::
  "run_env \<Rightarrow> principal \<Rightarrow> string \<Rightarrow> run_config \<Rightarrow> services \<times> run_manager option \<Rightarrow> (uuid result \<times> services \<times> run_manager option) option" where
  "start_run re caller intent cfg st =
     (case st of (s, mgr) \<Rightarrow>
        (case begin_run re caller intent cfg s of
           (Inl e, s1) \<Rightarrow> Some (Inl e, s1, mgr)
         | (Inr (run_id, principal_id), s1) \<Rightarrow>
             (case try_run re cfg run_id principal_id (s1, mgr) of
                None \<Rightarrow> None
              | Some (Inr _, s2, mgr2) \<Rightarrow> Some (Inr run_id, s2, mgr2)
              | Some (Inl e, s2, mgr2) \<Rightarrow>
                  if \<not> except_Exception e then Some (Inl e, s2, mgr2)
                  else (case transition_service (re_services re) run_id ''failed'' principal_id s2 of
                          (Inl e', s3) \<Rightarrow> Some (Inl e', s3, mgr2)
                        | (Inr _, s3) \<Rightarrow> Some (Inl e, s3, mgr2)))))"

section \<open>Actions of subscriptions\<close>

definition system_principal :: "principals \<Rightarrow> principal result" where
  "system_principal ps = (case get_principal_by_ref KIND_SYSTEM SYSTEM_PRINCIPAL_EXTERNAL_REF ps of None \<Rightarrow> Inl RuntimeError | Some p \<Rightarrow> Inr p)"

text \<open>\<open>Path(workflow_path).stem\<close> is \<open>path_stem\<close>, and \<open>start_file\<close> is \<open>start_run_from_file\<close> with the pool.\<close>

definition execute_workflow_service ::
  "(string \<Rightarrow> string) \<Rightarrow> (principal \<Rightarrow> string \<Rightarrow> string \<Rightarrow> uuid service) \<Rightarrow> string \<Rightarrow> string \<Rightarrow> jobj list \<Rightarrow> unit service" where
  "execute_workflow_service path_stem start_file intent_prefix workflow_path events s =
     (case system_principal (sv_principals s) of
        Inl e \<Rightarrow> (Inl e, s)
      | Inr p \<Rightarrow>
          answering (\<lambda>_. ())
            (start_file p (intent_prefix @ '': '' @ path_stem workflow_path @ '' ('' @ nat_str (length events) @ '' events)'') workflow_path) s)"

text \<open>With a pool, a system principal that is missing is reported before the action is looked at.\<close>

definition execute_service_action ::
  "service_env \<Rightarrow> (string \<Rightarrow> string) \<Rightarrow> (principal \<Rightarrow> string \<Rightarrow> string \<Rightarrow> uuid service) \<Rightarrow> services ports \<Rightarrow> string \<Rightarrow> bool \<Rightarrow>
   uuid \<Rightarrow> action \<Rightarrow> jobj list \<Rightarrow> unit service" where
  "execute_service_action env path_stem start_file base intent_prefix pool owner act events s =
     (if \<not> pool then execute_action (base\<lparr>p_workflow := None, p_event := None, p_notify := None\<rparr>) owner act events s
      else (case system_principal (sv_principals s) of
              Inl e \<Rightarrow> (Inl e, s)
            | Inr p \<Rightarrow>
                execute_action
                  (base\<lparr>p_workflow := Some (\<lambda>path cfg evs. execute_workflow_service path_stem start_file intent_prefix path evs),
                        p_event := Some (\<lambda>ty data _. answering (\<lambda>_. ()) (fire_service env p None ty data)),
                        p_notify := None\<rparr>) owner act events s))"

definition resolve_source_principals :: "dispatch_db \<Rightarrow> principals \<Rightarrow> string list \<Rightarrow> uuid list" where
  "resolve_source_principals db ps slugs =
     List.map_filter (\<lambda>slug. Option.bind (get_source_by_slug slug db) (\<lambda>so.
       map_option pr_id (get_principal_by_ref KIND_SOURCE (so_id so) ps))) slugs"

section \<open>What a snapshot hides\<close>

lemma partition_at_split: "c \<notin> set a \<Longrightarrow> partition_at c (a @ c # b) = (a, True, b)"
  by (induction a) (auto simp: partition_at_def)

lemma partition_at_none: "c \<notin> set s \<Longrightarrow> partition_at c s = (s, False, [])"
  by (induction s) (auto simp: partition_at_def)

lemma rpartition_at_split: "c \<notin> set b \<Longrightarrow> rpartition_at c (a @ c # b) = (a, True, b)"
proof -
  assume "c \<notin> set b"
  then have "c \<notin> set (rev b)" by simp
  from partition_at_split [OF this, of "rev a"] show ?thesis by (simp add: rpartition_at_def partition_at_def)
qed

lemma redact_netloc_user: "CHR '':'' \<notin> set user \<Longrightarrow> CHR ''@'' \<notin> set host \<Longrightarrow>
    redact_netloc (user @ '':'' @ pw @ ''@'' @ host) = user @ '':'' @ REDACTED @ ''@'' @ host"
  using rpartition_at_split [of "CHR ''@''" host "user @ '':'' @ pw"] partition_at_split [of "CHR '':''" user pw]
  by (simp add: redact_netloc_def)

text \<open>A part of a URL: no tab or line break, and none of the given delimiters.\<close>

definition plain_part :: "string \<Rightarrow> string \<Rightarrow> bool" where
  "plain_part delimiters s = (\<forall>c \<in> set s. c \<notin> {CHR 0x09, CHR 0x0A, CHR 0x0D} \<and> c \<notin> set delimiters)"

lemma plain_part_append [simp]: "plain_part d (a @ b) \<longleftrightarrow> plain_part d a \<and> plain_part d b"
  by (auto simp: plain_part_def)

lemma plain_part_Cons [simp]:
  "plain_part d (c # s) \<longleftrightarrow> c \<notin> {CHR 0x09, CHR 0x0A, CHR 0x0D} \<and> c \<notin> set d \<and> plain_part d s"
  "plain_part d []"
  by (simp_all add: plain_part_def)

lemma plain_part_any: "plain_part d s \<Longrightarrow> plain_part [] s"
  by (simp add: plain_part_def)

lemma plain_part_lacks: "plain_part d s \<Longrightarrow> list_all (\<lambda>c. c \<in> set d) cs \<Longrightarrow> list_all (\<lambda>c. c \<notin> set s) cs"
  by (auto simp: plain_part_def list_all_iff)

definition is_scheme :: "string \<Rightarrow> bool" where
  "is_scheme s = (s \<noteq> [] \<and> letter (hd s) \<and> list_all scheme_char s)"

definition db_url :: "string \<Rightarrow> string \<Rightarrow> string \<Rightarrow> string \<Rightarrow> string \<Rightarrow> string \<Rightarrow> string" where
  "db_url scheme user pw host path query =
     scheme @ ''://'' @ user @ '':'' @ pw @ ''@'' @ host @ path @ (if query = [] then [] else ''?'' @ query)"

definition url_parts :: "string \<Rightarrow> string \<Rightarrow> string \<Rightarrow> string \<Rightarrow> string \<Rightarrow> string \<Rightarrow> bool" where
  "url_parts scheme user pw host path query =
     (is_scheme scheme \<and> plain_part '':/?#[]'' user \<and> plain_part ''/?#[]'' pw \<and> plain_part ''@/?#[]'' host \<and>
      plain_part ''?#'' path \<and> (path = [] \<or> hd path = CHR ''/'') \<and> plain_part ''#'' query)"

lemma scheme_char_plain: "scheme_char c \<Longrightarrow> 32 < (of_char c :: nat) \<and> c \<noteq> CHR '':'' \<and> c \<notin> {CHR 0x09, CHR 0x0A, CHR 0x0D}"
  by (auto simp: scheme_char_def letter_def Let_def)

lemma url_text_plain:
  assumes "is_scheme scheme" "plain_part [] rest"
  shows "url_text (scheme @ rest) = scheme @ rest"
proof -
  obtain c cs where c: "scheme = c # cs" "scheme_char c" "list_all scheme_char cs"
    using assms(1) by (cases scheme) (auto simp: is_scheme_def)
  have "dropWhile (\<lambda>c. (of_char c :: nat) \<le> 32) (scheme @ rest) = scheme @ rest"
    using scheme_char_plain [OF c(2)] c(1) by simp
  moreover have "filter (\<lambda>c. c \<notin> {CHR 0x09, CHR 0x0A, CHR 0x0D}) (scheme @ rest) = scheme @ rest"
    using scheme_char_plain c assms(2) by (auto simp: filter_id_conv list_all_iff plain_part_def)
  ultimately show ?thesis by (simp add: url_text_def)
qed

lemma split_scheme_known: "is_scheme scheme \<Longrightarrow> split_scheme (scheme @ '':'' @ rest) = (str_lower scheme, rest)"
proof -
  assume s: "is_scheme scheme"
  then have "CHR '':'' \<notin> set scheme" using scheme_char_plain by (auto simp: is_scheme_def list_all_iff)
  from partition_at_split [OF this, of rest] show ?thesis using s by (simp add: split_scheme_def is_scheme_def)
qed

lemma split_netloc_known:
  assumes "\<forall>c \<in> set netloc. c \<notin> set ''/?#''" "rest = [] \<or> hd rest \<in> set ''/?#''"
  shows "split_netloc (''//'' @ netloc @ rest) = (netloc, rest)"
proof -
  have "takeWhile (\<lambda>c. c \<notin> set ''/?#'') (netloc @ rest) = netloc" "dropWhile (\<lambda>c. c \<notin> set ''/?#'') (netloc @ rest) = rest"
    using assms by (cases rest; auto simp: takeWhile_append2 dropWhile_append2)+
  then show ?thesis by (simp add: split_netloc_def startswith_def)
qed

lemma redact_part_Nil: "redact_part p = [] \<longleftrightarrow> p = []"
  by (auto simp: redact_part_def partition_at_def split: prod.splits)

lemma redact_query_Nil: "redact_query query = [] \<longleftrightarrow> query = []"
proof -
  have "join ''&'' (map redact_part ps) = [] \<longleftrightarrow> join ''&'' ps = []" for ps
    by (induction "''&'' :: string" ps rule: join.induct) (simp_all add: redact_part_Nil)
  then show ?thesis using join_split_on [of "CHR ''&''" query] by (simp add: redact_query_def)
qed

theorem redact_db_url_known:
  assumes "url_parts scheme user pw host path query"
  shows "redact_db_url (db_url scheme user pw host path query) =
    Inr (str_lower scheme @ ''://'' @ user @ '':'' @ REDACTED @ ''@'' @ host @ path @ (if query = [] then [] else ''?'' @ redact_query query))"
proof -
  let ?q = "if query = [] then [] else ''?'' @ query"
  let ?netloc = "user @ '':'' @ pw @ ''@'' @ host"
  have a: "is_scheme scheme" "path = [] \<or> hd path = CHR ''/''"
    and parts: "plain_part '':/?#[]'' user" "plain_part ''/?#[]'' pw" "plain_part ''@/?#[]'' host" "plain_part ''?#'' path" "plain_part ''#'' query"
    using assms by (simp_all add: url_parts_def)
  note any = parts [THEN plain_part_any]
  have lacks: "list_all (\<lambda>c. c \<notin> set user) '':/?#[]''" "list_all (\<lambda>c. c \<notin> set pw) ''/?#[]''"
      "list_all (\<lambda>c. c \<notin> set host) ''@/?#[]''" "list_all (\<lambda>c. c \<notin> set path) ''?#''" "list_all (\<lambda>c. c \<notin> set query) ''#''"
    by (rule parts [THEN plain_part_lacks], simp)+
  have "url_text (scheme @ ''://'' @ ?netloc @ path @ ?q) = scheme @ ''://'' @ ?netloc @ path @ ?q"
    by (rule url_text_plain [OF a(1)]) (simp add: any)
  moreover have "split_scheme (scheme @ '':'' @ ''//'' @ ?netloc @ path @ ?q) = (str_lower scheme, ''//'' @ ?netloc @ path @ ?q)"
    by (rule split_scheme_known [OF a(1)])
  moreover have "split_netloc (''//'' @ ?netloc @ path @ ?q) = (?netloc, path @ ?q)"
    by (rule split_netloc_known) (use lacks a(2) in \<open>auto simp: hd_append\<close>)
  moreover have "partition_at CHR ''#'' (path @ ?q) = (path @ ?q, False, [])"
    by (rule partition_at_none) (use lacks in auto)
  moreover have "fst (partition_at CHR ''?'' (path @ ?q)) = path" "snd (snd (partition_at CHR ''?'' (path @ ?q))) = query"
    using lacks partition_at_split [of "CHR ''?''" path query] partition_at_none [of "CHR ''?''" path] by auto
  moreover have "CHR ''['' \<notin> set ?netloc" "CHR '']'' \<notin> set ?netloc" using lacks by auto
  ultimately have "urlsplit (db_url scheme user pw host path query) =
      Inr \<lparr>su_scheme = str_lower scheme, su_netloc = ?netloc, su_path = path, su_query = query, su_fragment = []\<rparr>"
    by (auto simp: urlsplit_def db_url_def Let_def split: prod.splits)
  moreover have "redact_netloc ?netloc = user @ '':'' @ REDACTED @ ''@'' @ host"
    by (rule redact_netloc_user) (use lacks in auto)
  moreover have "str_lower scheme \<noteq> []" using a by (simp add: is_scheme_def str_lower_def)
  moreover have "redact_query query = [] \<longleftrightarrow> query = []" by (rule redact_query_Nil)
  moreover have "path = [] \<or> take 1 path = ''/''" using a by (cases path) auto
  ultimately show ?thesis by (auto simp: redact_db_url_def bind_res_def urlunsplit_def Let_def)
qed

text \<open>Two texts of parameters that differ in the values of the keys that read \<open>password\<close> only.\<close>

definition same_param :: "string \<Rightarrow> string \<Rightarrow> bool" where
  "same_param p q =
     (p = q \<or> (\<exists>key v w. CHR ''='' \<notin> set key \<and> unquote key = ''password'' \<and> p = key @ ''='' @ v \<and> q = key @ ''='' @ w))"

lemma redact_part_same: "same_param p q \<Longrightarrow> redact_part p = redact_part q"
  by (auto simp: same_param_def redact_part_def partition_at_split)

lemma split_on_none: "c \<notin> set p \<Longrightarrow> split_on c p = [p]"
  by (induction p) auto

lemma split_on_join: "ps \<noteq> [] \<Longrightarrow> \<forall>p \<in> set ps. c \<notin> set p \<Longrightarrow> split_on c (join [c] ps) = ps"
  by (induction "[c]" ps rule: join.induct) (simp_all add: split_on_none split_on_append)

lemma redact_query_parts: "ps \<noteq> [] \<Longrightarrow> \<forall>p \<in> set ps. CHR ''&'' \<notin> set p \<Longrightarrow> redact_query (join ''&'' ps) = join ''&'' (map redact_part ps)"
  using split_on_join [of ps "CHR ''&''"] redact_part_Nil [of "[]"] by (auto simp: redact_query_def)

lemma redact_query_same:
  assumes "list_all2 same_param ps qs" "ps \<noteq> []" "\<forall>p \<in> set ps \<union> set qs. CHR ''&'' \<notin> set p"
  shows "redact_query (join ''&'' ps) = redact_query (join ''&'' qs)"
proof -
  have "map redact_part ps = map redact_part qs"
    using assms(1) by (induction rule: list_all2_induct) (simp_all add: redact_part_same)
  moreover have "qs \<noteq> []" using assms(1,2) by auto
  ultimately show ?thesis using assms redact_query_parts by simp
qed

definition same_provider :: "string \<times> (string, string) dict \<Rightarrow> string \<times> (string, string) dict \<Rightarrow> bool" where
  "same_provider p q =
     (fst p = fst q \<and> list_all2 (\<lambda>(k, v) (k', v'). k = k' \<and> (k \<noteq> ''api_key'' \<longrightarrow> v = v')) (snd p) (snd q))"

lemma redact_provider_same:
  "list_all2 (\<lambda>(k, v) (k', v'). k = k' \<and> (k \<noteq> ''api_key'' \<longrightarrow> v = v')) p q \<Longrightarrow> redact_provider p = redact_provider q"
  unfolding redact_provider_def by (induction rule: list_all2_induct) auto

lemma redact_providers_same:
  "list_all2 same_provider ps qs \<Longrightarrow> map (\<lambda>(name, p). (name, redact_provider p)) ps = map (\<lambda>(name, p). (name, redact_provider p)) qs"
  by (induction rule: list_all2_induct) (auto simp: same_provider_def dest: redact_provider_same)

text \<open>
  C21. The snapshot of a run hides its credentials: two configurations whose database URLs differ in the password of the user and in the
  values of password parameters, and whose providers differ in their API keys, and which agree otherwise, are stored as the same
  snapshot, so nothing of those credentials can be read from it.
\<close>

theorem snapshot_hides_credentials:
  assumes "url_parts scheme user pw host path (join ''&'' ps)" "url_parts scheme user pw' host path (join ''&'' qs)"
    "list_all2 same_param ps qs" "ps \<noteq> []" "\<forall>p \<in> set ps \<union> set qs. CHR ''&'' \<notin> set p"
    "list_all2 same_provider (rc_provider_configs cfg) providers"
  shows "\<exists>snapshot.
    serialize_config dec (cfg\<lparr>rc_db_url := db_url scheme user pw host path (join ''&'' ps)\<rparr>) = Inr snapshot \<and>
    serialize_config dec (cfg\<lparr>rc_db_url := db_url scheme user pw' host path (join ''&'' qs), rc_provider_configs := providers\<rparr>) = Inr snapshot"
proof -
  have "redact_query (join ''&'' ps) = redact_query (join ''&'' qs)" by (rule redact_query_same [OF assms(3-5)])
  moreover from this have "join ''&'' ps = [] \<longleftrightarrow> join ''&'' qs = []" using redact_query_Nil by metis
  ultimately have "redact_db_url (db_url scheme user pw host path (join ''&'' ps)) = redact_db_url (db_url scheme user pw' host path (join ''&'' qs))"
    by (simp add: redact_db_url_known assms(1,2))
  moreover obtain url where "redact_db_url (db_url scheme user pw host path (join ''&'' ps)) = Inr url"
    using redact_db_url_known [OF assms(1)] by blast
  ultimately have "redact_db_url (db_url scheme user pw host path (join ''&'' ps)) = Inr url"
      "redact_db_url (db_url scheme user pw' host path (join ''&'' qs)) = Inr url"
    by auto
  then show ?thesis using redact_providers_same [OF assms(6)] by (simp add: serialize_config_def bind_res_def)
qed

text \<open>A key of the API in the query or a password of another name is not redacted.\<close>

lemma other_passwords_kept: "redact_query ''sslpassword=hidden&password=hidden'' = ''sslpassword=hidden&password=[REDACTED]''"
  by code_simp

section \<open>How a run ends\<close>

definition run_status_of :: "uuid \<Rightarrow> trace_db \<Rightarrow> string option" where
  "run_status_of run_id db = map_option r_status (dict_get (db_runs db) run_id)"

lemma transition_service_Inr:
  "transition_service env i st p s = (Inr u, s') \<Longrightarrow>
   run_status_of i (sv_trace s') = Some st \<and> (\<exists>old. run_status_of i (sv_trace s) = Some old \<and> validate_run_transition old st = Inr ())"
  by (auto simp: transition_service_def transition_run_def run_status_of_def bind_res_def Let_def dict_simps
      split: sum.splits option.splits if_splits prod.splits)

lemma transition_service_Inl:
  "transition_service env i st p s = (Inl e, s') \<Longrightarrow>
   s' = s \<and> (run_status_of i (sv_trace s) = None \<and> e = ValueError \<or>
     (\<exists>old. run_status_of i (sv_trace s) = Some old \<and> validate_run_transition old st = Inl e))"
  by (auto simp: transition_service_def transition_run_def run_status_of_def bind_res_def Let_def
      split: sum.splits option.splits if_splits prod.splits)

lemma from_running: "validate_run_transition ''running'' ''failed'' = Inr ()" "validate_run_transition ''running'' ''completed'' = Inr ()"
  by code_simp+

lemma validate_run_error: "validate_run_transition old new = Inl e \<Longrightarrow> e = InvalidTransitionError"
  by (auto simp: validate_run_transition_def split: if_splits option.splits)

definition unregistered :: "uuid \<Rightarrow> run_manager option \<Rightarrow> bool" where
  "unregistered run_id mgr = (case mgr of None \<Rightarrow> True | Some m \<Rightarrow> \<not> is_active run_id m)"

lemma unregistered_after: "unregistered i (map_option (deregister_run i) mgr)"
  by (cases mgr) (auto simp: unregistered_def is_active_def deregister_run_def dict_keys_def dict_pop_def AList.delete_eq)

lemma try_run_ends:
  assumes "try_run re cfg i pid (s, mgr) = Some (r, s', mgr')" "unregistered i mgr"
  shows "unregistered i mgr' \<and> (r = Inr () \<longrightarrow> run_status_of i (sv_trace s') = Some ''completed'')"
  using assms unregistered_after
  by (auto simp: try_run_def Let_def dest: transition_service_Inr split: prod.splits sum.splits option.splits)


text \<open>
  A run that is aborted or paused while its workflow is executed: whatever the workflow returned, \<open>start_run\<close> raises the error of the
  refused transition (or the cancellation, when the workflow ended with it), and the status stays.
\<close>

theorem interrupted_run_raises:
  assumes "begin_run re caller intent cfg s = (Inr (i, pid), s1)" "transition_service (re_services re) i ''running'' pid s1 = (Inr (), s2)"
    "re_prepare re cfg i (sv_trace s2) = Inr scheduler" "run_workflow re cfg i scheduler (sv_trace s2) = Some (ra, db)"
    "run_status_of i db = Some st" "st \<in> {''aborted'', ''paused''}"
  shows "\<exists>s' mgr'. start_run re caller intent cfg (s, mgr) =
      Some (Inl (if ra = Inl CancelledError then CancelledError else InvalidTransitionError), s', mgr') \<and>
    run_status_of i (sv_trace s') = Some st"
proof -
  have refused: "transition_service (re_services re) i new pid (s2\<lparr>sv_trace := db\<rparr>) = (Inl InvalidTransitionError, s2\<lparr>sv_trace := db\<rparr>)"
    if "new \<in> {''completed'', ''failed''}" for new
    using assms(5,6) that
    by (auto simp: transition_service_def transition_run_def run_status_of_def bind_res_def validate_run_transition_def transition_tables
        dict_get_def split: option.splits)
  show ?thesis
    using assms(1-5) refused by (cases ra) (auto simp: start_run_def try_run_def Let_def except_Exception_def)
qed

text \<open>
  A run whose workflow is cancelled stays running: the scheduler's abort, which the budget policy \<open>cancel_all\<close> schedules, cancels
  the tasks that the workflow waits for and the trace keeps the run as \<open>running\<close>.
\<close>

theorem cancelled_run_stays_running:
  assumes "begin_run re caller intent cfg s = (Inr (i, pid), s1)" "transition_service (re_services re) i ''running'' pid s1 = (Inr (), s2)"
    "re_prepare re cfg i (sv_trace s2) = Inr scheduler" "run_workflow re cfg i scheduler (sv_trace s2) = Some (Inl CancelledError, db)"
    "run_status_of i db = Some ''running''"
  shows "\<exists>s' mgr'. start_run re caller intent cfg (s, mgr) = Some (Inl CancelledError, s', mgr') \<and> run_status_of i (sv_trace s') = Some ''running''"
  using assms by (auto simp: start_run_def try_run_def Let_def except_Exception_def)

text \<open>The staleness of a lesson looks at the first of its source files only, as the storage keeps it.\<close>

theorem only_first_source_checked:
  assumes "rp_exists r f" "rp_git_log r f = CommittedAt t" "t \<le> now"
  shows "\<exists>row. db_lessons (snd (write_lesson i now run_id txt tags permanent (Some (f # fs)) db)) = db_lessons db @ [row] \<and>
    l_source_files row = Some (f # fs) \<and> \<not> is_stale r row"
  using assms by (simp add: write_lesson_def is_stale_def)

section \<open>Examples\<close>

definition plain_config :: run_config where
  "plain_config = \<lparr>rc_workflow_path = ''flow.toml'', rc_agents_dir = ''agents'', rc_knowledge_dir = ''knowledge'', rc_categories_path = ''c.toml'',
     rc_read_root = ''/repo'', rc_db_url = ''postgres://app:pw@db/x'', rc_provider_configs = [(''main'', [(''type'', ''openai''), (''api_key'', ''k1'')])],
     rc_budget = 5, rc_autonomy_level = ''low'', rc_policy = UNLIMITED, rc_secrets_env = None, rc_tools_dir = None, rc_pricing = None\<rparr>"

theorem snapshot_hides_credentials_witness:
  "\<exists>snapshot.
    serialize_config (\<lambda>_. ''5'') (plain_config\<lparr>rc_db_url := db_url ''postgres'' ''app'' ''p@w:1'' ''db'' ''/x'' (join ''&'' [''password=a'', ''ssl=on''])\<rparr>) = Inr snapshot \<and>
    serialize_config (\<lambda>_. ''5'') (plain_config\<lparr>rc_db_url := db_url ''postgres'' ''app'' ''other'' ''db'' ''/x'' (join ''&'' [''password=b'', ''ssl=on'']),
        rc_provider_configs := [(''main'', [(''type'', ''openai''), (''api_key'', ''k2'')])]\<rparr>) = Inr snapshot"
proof (rule snapshot_hides_credentials)
  show "url_parts ''postgres'' ''app'' ''p@w:1'' ''db'' ''/x'' (join ''&'' [''password=a'', ''ssl=on''])" by code_simp
  show "url_parts ''postgres'' ''app'' ''other'' ''db'' ''/x'' (join ''&'' [''password=b'', ''ssl=on''])" by code_simp
  have "unquote ''password'' = ''password''" by code_simp
  then have "same_param ''password=a'' ''password=b''"
    unfolding same_param_def by (intro disjI2 exI [of _ "''password''"] exI [of _ "''a''"] exI [of _ "''b''"]) simp
  then show "list_all2 same_param [''password=a'', ''ssl=on''] [''password=b'', ''ssl=on'']" by (simp add: same_param_def)
qed (simp_all add: plain_config_def same_provider_def)

definition failing_start :: run_env where
  "failing_start = \<lparr>re_services = desk, re_dec = (\<lambda>_. ''5''), re_prepare = (\<lambda>_ _ _. Inl FileNotFoundError), re_load_workflow = (\<lambda>_. Inl ValueError),
     re_knowledge = (\<lambda>_. None), re_overseer = (\<lambda>i. \<lparr>oe_run_id = i, oe_principal = 0, oe_ids = id, oe_clock = int, oe_parse_uuid = (\<lambda>_. None),
       oe_parse_time = (\<lambda>_. None)\<rparr>), re_headless = True\<rparr>"

lemma failing_begin: "fst (begin_run failing_start clerk ''demo'' plain_config desk_services) = Inr (100, 101)"
  by code_simp

lemma failing_result:
  "map_option (\<lambda>(r, s', m). (r, run_status_of 100 (sv_trace s'))) (start_run failing_start clerk ''demo'' plain_config (desk_services, Some []))
     = Some (Inl FileNotFoundError, Some ''failed'')"
  by code_simp


text \<open>A run whose first agent spends more than its budget under \<open>cancel_all\<close>, with the scheduled abort while the workflow waits for the agent.\<close>

definition overrun_config :: config where
  "overrun_config = sample_config\<lparr>c_run_id := 100, c_principal := 101, c_policy := CANCEL_ALL, c_ids := (\<lambda>n. 1000 + n),
     c_agents := [(''g'', \<lparr>ag_name = ''g'', ag_description = [], ag_prompt = [], ag_category = None, ag_provider = Some ''openai'',
       ag_model = Some ''gpt-4o'', ag_allow = [], ag_deferred = [], ag_budget = Some 20, ag_write_paths = None, ag_timeout = None\<rparr>)]\<rparr>"

definition large_usage :: usage where
  "large_usage = \<lparr>input_tokens = 10000000, output_tokens = 0, reasoning_tokens = 0, cache_read_tokens = 0, cache_write_tokens = 0\<rparr>"

definition overrun_env :: exec_env where
  "overrun_env = flow_env\<lparr>ex_agent := (\<lambda>task tid parent vars s.
     Some (Inr agent_result, run_scheduled_abort overrun_config (snd (accumulate_cost overrun_config tid task large_usage s))))\<rparr>"

definition overrun_start :: run_env where
  "overrun_start = failing_start\<lparr>re_prepare := (\<lambda>_ _ _. Inr (overrun_config, overrun_env, idle_sched)), re_load_workflow := (\<lambda>_. Inr (sample_flow HALT))\<rparr>"

lemma overrun_result:
  "map_option (\<lambda>(r, s', m). (r, run_status_of 100 (sv_trace s'))) (start_run overrun_start clerk ''demo'' plain_config (desk_services, Some []))
     = Some (Inl CancelledError, Some ''running'')"
  by code_simp

end
